(* ===== verification/Prelude.thy ===== *)
theory Prelude
  imports Complex_Main "HOL-Library.AList" "HOL-Library.Word"
begin

text \<open>
  Shared vocabulary of the development: Python exceptions, the exception-and-state monad in
  which effectful methods are written, dictionaries that remember insertion order, the collections
  of simplification rules, and the contract of an invariant over a transition system.
\<close>

section \<open>Exceptions\<close>

text \<open>
  The exceptions the modelled code raises or catches by class. Every constructor but the last two
  is a subclass of \<^verbatim>\<open>Exception\<close>; \<open>GeneratorExit\<close> and \<open>KeyboardInterrupt\<close> derive from
  \<^verbatim>\<open>BaseException\<close> only, so \<^verbatim>\<open>except Exception\<close> does not catch them.
\<close>

datatype exn =
    ValueError string
  | TypeError string
  | RuntimeError string
  | NodeFailure string
  | AssertionError string
  | KeyError
  | IndexError
  | NotImplementedError string
  | OSError string
  | FileNotFoundError string
  | MissingExtraError string
  | ModuleNotFoundError string
  | ToolError string
  | QueueFull
  | QueueEmpty
  | ZMQError string
  | PicklingError string
  | AttributeError string
  | JSONDecodeError
  | StopIteration
  | HTTPException nat
  | OtherException string
  | GeneratorExit
  | KeyboardInterrupt

fun is_Exception :: "exn \<Rightarrow> bool" where
  "is_Exception GeneratorExit = False"
| "is_Exception KeyboardInterrupt = False"
| "is_Exception _ = True"

text \<open>\<^verbatim>\<open>FileNotFoundError\<close> is a subclass of \<^verbatim>\<open>OSError\<close>, \<^verbatim>\<open>ConfigError\<close> and
  \<^verbatim>\<open>JSONDecodeError\<close> of \<^verbatim>\<open>ValueError\<close>, \<^verbatim>\<open>MissingExtraError\<close> of
  \<^verbatim>\<open>ModuleNotFoundError\<close>.\<close>

fun is_OSError :: "exn \<Rightarrow> bool" where
  "is_OSError (OSError _) = True"
| "is_OSError (FileNotFoundError _) = True"
| "is_OSError _ = False"

fun is_FileNotFound :: "exn \<Rightarrow> bool" where
  "is_FileNotFound (FileNotFoundError _) = True"
| "is_FileNotFound _ = False"

fun is_ZMQError :: "exn \<Rightarrow> bool" where
  "is_ZMQError (ZMQError _) = True"
| "is_ZMQError _ = False"

fun is_QueueEmpty :: "exn \<Rightarrow> bool" where
  "is_QueueEmpty QueueEmpty = True"
| "is_QueueEmpty _ = False"

fun is_ModuleNotFound :: "exn \<Rightarrow> bool" where
  "is_ModuleNotFound (ModuleNotFoundError _) = True"
| "is_ModuleNotFound (MissingExtraError _) = True"
| "is_ModuleNotFound _ = False"

fun is_ValueError :: "exn \<Rightarrow> bool" where
  "is_ValueError (ValueError _) = True"
| "is_ValueError JSONDecodeError = True"
| "is_ValueError _ = False"

section \<open>The exception and state monad\<close>

text \<open>
  An effectful computation takes the world and returns either an exception or a value, together
  with the world as it was left: an exception does not undo the mutations made before it.
\<close>

type_synonym ('w, 'a) io = "'w \<Rightarrow> (exn + 'a) \<times> 'w"

named_theorems io_simps
named_theorems dict_simps
named_theorems inv_intros

definition ret :: "'a \<Rightarrow> ('w, 'a) io" where
  "ret x = (\<lambda>w. (Inr x, w))"

definition raise :: "exn \<Rightarrow> ('w, 'a) io" where
  "raise e = (\<lambda>w. (Inl e, w))"

definition bnd :: "('w, 'a) io \<Rightarrow> ('a \<Rightarrow> ('w, 'b) io) \<Rightarrow> ('w, 'b) io" where
  "bnd m f = (\<lambda>w. case m w of (Inl e, w') \<Rightarrow> (Inl e, w') | (Inr x, w') \<Rightarrow> f x w')"

definition seq :: "('w, unit) io \<Rightarrow> ('w, 'b) io \<Rightarrow> ('w, 'b) io" where
  "seq m k = bnd m (\<lambda>_. k)"

definition catch_exn :: "('w, 'a) io \<Rightarrow> (exn \<Rightarrow> bool) \<Rightarrow> (exn \<Rightarrow> ('w, 'a) io) \<Rightarrow> ('w, 'a) io" where
  "catch_exn m p h = (\<lambda>w. case m w of
      (Inl e, w') \<Rightarrow> (if p e then h e w' else (Inl e, w'))
    | (Inr x, w') \<Rightarrow> (Inr x, w'))"

text \<open>\<^verbatim>\<open>try: x = m() except Exception as e: ..\<close> with the outcome as a value; exceptions
  that are not an \<^verbatim>\<open>Exception\<close> pass through.\<close>

definition try_exn :: "('w, 'a) io \<Rightarrow> ('w, exn + 'a) io" where
  "try_exn m = (\<lambda>w. case m w of
      (Inl e, w') \<Rightarrow> (if is_Exception e then (Inr (Inl e), w') else (Inl e, w'))
    | (Inr x, w') \<Rightarrow> (Inr (Inr x), w'))"

definition get_world :: "('w, 'w) io" where
  "get_world = (\<lambda>w. (Inr w, w))"

definition modify :: "('w \<Rightarrow> 'w) \<Rightarrow> ('w, unit) io" where
  "modify f = (\<lambda>w. (Inr (), f w))"

text \<open>A method of an object with state \<open>'s\<close> runs over the pair of the object and the rest of
  the world; \<open>lift_w\<close> runs a call that does not touch the object.\<close>

definition lift_w :: "('w, 'a) io \<Rightarrow> ('s \<times> 'w, 'a) io" where
  "lift_w m = (\<lambda>(s, w). case m w of (r, w') \<Rightarrow> (r, (s, w')))"

definition on_self :: "('s \<Rightarrow> 's) \<Rightarrow> ('s \<times> 'w, unit) io" where
  "on_self f = (\<lambda>(s, w). (Inr (), (f s, w)))"

definition self :: "('s \<times> 'w, 's) io" where
  "self = (\<lambda>(s, w). (Inr s, (s, w)))"

definition of_res :: "exn + 'a \<Rightarrow> ('w, 'a) io" where
  "of_res r = (\<lambda>w. (r, w))"

text \<open>A call that only touches the first component of the world.\<close>

definition on_fst :: "('s, 'a) io \<Rightarrow> ('s \<times> 'w, 'a) io" where
  "on_fst m = (\<lambda>(s, w). case m s of (r, s') \<Rightarrow> (r, (s', w)))"

text \<open>\<^verbatim>\<open>for x in xs: body(x)\<close>, and a list comprehension with effects.\<close>

fun for_each :: "'a list \<Rightarrow> ('a \<Rightarrow> ('w, unit) io) \<Rightarrow> ('w, unit) io" where
  "for_each [] f = ret ()"
| "for_each (x # xs) f = bnd (f x) (\<lambda>_. for_each xs f)"

fun map_io :: "('a \<Rightarrow> ('w, 'b) io) \<Rightarrow> 'a list \<Rightarrow> ('w, 'b list) io" where
  "map_io f [] = ret []"
| "map_io f (x # xs) = bnd (f x) (\<lambda>y. bnd (map_io f xs) (\<lambda>ys. ret (y # ys)))"

lemma ret_apply [simp]: "ret x w = (Inr x, w)"
  by (simp add: ret_def)

lemma raise_apply [simp]: "raise e w = (Inl e, w)"
  by (simp add: raise_def)

lemma modify_apply [simp]: "modify f w = (Inr (), f w)"
  by (simp add: modify_def)

lemma on_self_apply [simp]: "on_self f (s, w) = (Inr (), (f s, w))"
  by (simp add: on_self_def)

lemma self_apply [simp]: "self (s, w) = (Inr s, (s, w))"
  by (simp add: self_def)

lemma lift_w_apply [simp]: "lift_w m (s, w) = (fst (m w), (s, snd (m w)))"
  by (simp add: lift_w_def split: prod.splits)

lemma on_fst_apply [simp]: "on_fst m (s, w) = (fst (m s), (snd (m s), w))"
  by (simp add: on_fst_def split: prod.splits)

lemma of_res_apply [simp]: "of_res r w = (r, w)"
  by (simp add: of_res_def)

lemma bnd_ret [simp]: "bnd (Pair (Inr x)) f = f x"
  by (simp add: bnd_def fun_eq_iff)

lemma bnd_raise [simp]: "bnd (Pair (Inl e)) f = Pair (Inl e)"
  by (simp add: bnd_def fun_eq_iff)

lemma bnd_ret' [simp]: "bnd (ret x) f = f x"
  by (simp add: bnd_def fun_eq_iff)

lemma bnd_raise' [simp]: "bnd (raise e) f = raise e"
  by (simp add: bnd_def fun_eq_iff)

lemma bnd_of_res: "bnd (of_res (Inr x)) f = f x" "bnd (of_res (Inl e)) f = raise e"
  by (simp_all add: bnd_def fun_eq_iff)

lemma seq_ret [simp]: "seq (ret ()) k = k" "seq (raise e) k = raise e"
  by (simp_all add: seq_def)

lemma bnd_ok [io_simps]: "m w = (Inr x, w') \<Longrightarrow> bnd m f w = f x w'"
  by (simp add: bnd_def)

lemma bnd_err [io_simps]: "m w = (Inl e, w') \<Longrightarrow> bnd m f w = (Inl e, w')"
  by (simp add: bnd_def)

lemma bnd_assoc: "bnd (bnd m f) g = bnd m (\<lambda>x. bnd (f x) g)"
  by (auto simp: bnd_def fun_eq_iff split: prod.splits sum.splits)

lemma seq_ok [io_simps]: "m w = (Inr (), w') \<Longrightarrow> seq m k w = k w'"
  by (simp add: seq_def bnd_ok)

lemma seq_err [io_simps]: "m w = (Inl e, w') \<Longrightarrow> seq m k w = (Inl e, w')"
  by (simp add: seq_def bnd_err)

text \<open>A call that succeeds can be taken apart into the calls it is made of.\<close>

lemma bnd_Inr_iff [io_simps]:
  "bnd m f w = (Inr y, w'') \<longleftrightarrow> (\<exists>x w'. m w = (Inr x, w') \<and> f x w' = (Inr y, w''))"
  by (auto simp: bnd_def split: prod.splits sum.splits)

lemma seq_Inr_iff [io_simps]:
  "seq m k w = (Inr y, w'') \<longleftrightarrow> (\<exists>w'. m w = (Inr (), w') \<and> k w' = (Inr y, w''))"
  by (auto simp: seq_def bnd_Inr_iff)

lemma map_io_all2:
  assumes "map_io f xs w = (Inr ys, w')" and "\<And>x y w w'. x \<in> set xs \<Longrightarrow> f x w = (Inr y, w') \<Longrightarrow> R x y"
  shows "list_all2 R xs ys"
  using assms
proof (induction xs arbitrary: ys w)
  case (Cons x xs)
  from Cons.prems(1) obtain y w1 zs where y: "f x w = (Inr y, w1)" and r: "map_io f xs w1 = (Inr zs, w')" and ys: "ys = y # zs"
    by (auto simp: io_simps)
  have "R x y" by (rule Cons.prems(2) [OF _ y]) simp
  moreover have "list_all2 R xs zs" by (rule Cons.IH [OF r]) (rule Cons.prems(2), simp_all)
  ultimately show ?case using ys by simp
qed auto

text \<open>A loop over a concatenation is the two loops one after the other.\<close>

lemma for_each_append: "for_each (xs @ ys) f = bnd (for_each xs f) (\<lambda>_. for_each ys f)"
  by (induction xs) (simp_all add: bnd_assoc)

text \<open>A loop whose body never raises and updates the world by \<open>upd\<close> is a fold.\<close>

lemma for_each_fold:
  assumes "\<And>x w. f x w = (Inr (), upd x w)"
  shows "for_each xs f w = (Inr (), fold upd xs w)"
  by (induction xs arbitrary: w) (simp_all add: bnd_def assms)

text \<open>Total correctness: from a world in \<open>P\<close> the computation returns a value, with \<open>Q\<close> after.\<close>

definition runs :: "('w \<Rightarrow> bool) \<Rightarrow> ('w, 'a) io \<Rightarrow> ('a \<Rightarrow> 'w \<Rightarrow> bool) \<Rightarrow> bool" where
  "runs P m Q \<longleftrightarrow> (\<forall>w. P w \<longrightarrow> (\<exists>x w'. m w = (Inr x, w') \<and> Q x w'))"

named_theorems runs_intros

lemma runsD: "runs P m Q \<Longrightarrow> P w \<Longrightarrow> \<exists>x w'. m w = (Inr x, w') \<and> Q x w'"
  by (simp add: runs_def)

lemma runs_pairI:
  "(\<And>s z. P (s, z) \<Longrightarrow> \<exists>x s' z'. m (s, z) = (Inr x, (s', z')) \<and> Q x (s', z')) \<Longrightarrow> runs P m Q"
  unfolding runs_def by fast

lemma runs_conseq: "runs P m Q \<Longrightarrow> (\<And>w. P' w \<Longrightarrow> P w) \<Longrightarrow> (\<And>x w. Q x w \<Longrightarrow> Q' x w) \<Longrightarrow> runs P' m Q'"
  unfolding runs_def by blast

lemma runs_ret: "(\<And>w. P w \<Longrightarrow> Q x w) \<Longrightarrow> runs P (ret x) Q"
  by (simp add: runs_def)

lemma runs_bnd: "runs P m Q \<Longrightarrow> (\<And>x. runs (Q x) (f x) R) \<Longrightarrow> runs P (bnd m f) R"
  unfolding runs_def by (metis bnd_ok)

lemma runs_seq: "runs P m (\<lambda>_. Q) \<Longrightarrow> runs Q k R \<Longrightarrow> runs P (seq m k) R"
  unfolding seq_def by (rule runs_bnd)

lemma runs_of_res: "(\<And>w. P w \<Longrightarrow> Q x w) \<Longrightarrow> runs P (of_res (Inr x)) Q"
  by (simp add: runs_def)

lemma runs_self: "(\<And>s w. P (s, w) \<Longrightarrow> Q s (s, w)) \<Longrightarrow> runs P self Q"
  by (simp add: runs_def)

lemma runs_on_self: "(\<And>s w. P (s, w) \<Longrightarrow> Q (f s, w)) \<Longrightarrow> runs P (on_self f) (\<lambda>_. Q)"
  by (simp add: runs_def)

lemma runs_lift_w: "runs (\<lambda>_. True) m (\<lambda>x _. Q x) \<Longrightarrow>
  runs (\<lambda>w. P (fst w)) (lift_w m) (\<lambda>x w. P (fst w) \<and> Q x)"
  by (auto simp: runs_def) (metis fst_conv snd_conv)

lemma runs_for_each:
  assumes "\<And>x. x \<in> set xs \<Longrightarrow> runs I (f x) (\<lambda>_. I)"
  shows "runs I (for_each xs f) (\<lambda>_. I)"
  using assms
proof (induction xs)
  case Nil
  then show ?case by (simp add: runs_def)
next
  case (Cons x xs)
  have "runs I (f x) (\<lambda>_. I)" "runs I (for_each xs f) (\<lambda>_. I)"
    using Cons by auto
  then show ?case by (simp add: runs_bnd)
qed

lemma runs_map_io:
  assumes "\<And>x. x \<in> set xs \<Longrightarrow> runs (\<lambda>_. True) (f x) (\<lambda>y _. Q x y)"
  shows "runs (\<lambda>_. True) (map_io f xs) (\<lambda>ys _. list_all2 Q xs ys)"
  using assms
proof (induction xs)
  case Nil
  then show ?case by (simp add: runs_def)
next
  case (Cons x xs)
  have h: "runs (\<lambda>_. True) (f x) (\<lambda>y _. Q x y)" by (simp add: Cons.prems)
  have t: "runs (\<lambda>_. True) (map_io f xs) (\<lambda>ys _. list_all2 Q xs ys)"
    by (rule Cons.IH) (simp add: Cons.prems)
  show ?case
    using h t by (auto simp: runs_def bnd_def split: prod.splits sum.splits) (metis Inr_inject Pair_inject sum.distinct(1))+
qed

section \<open>Dictionaries with insertion order\<close>

text \<open>
  A Python \<^verbatim>\<open>dict\<close> iterates in insertion order, and assigning to a present key keeps its
  position. Where the order is observable a dictionary is an association list with
  \<open>AList.update\<close>, which does exactly that.
\<close>

type_synonym ('k, 'v) dict = "('k \<times> 'v) list"

definition dkeys :: "('k, 'v) dict \<Rightarrow> 'k list" where
  "dkeys d = map fst d"

definition dvalues :: "('k, 'v) dict \<Rightarrow> 'v list" where
  "dvalues d = map snd d"

abbreviation dget :: "('k, 'v) dict \<Rightarrow> 'k \<Rightarrow> 'v option" where
  "dget d k \<equiv> map_of d k"

abbreviation dset :: "'k \<Rightarrow> 'v \<Rightarrow> ('k, 'v) dict \<Rightarrow> ('k, 'v) dict" where
  "dset k v d \<equiv> AList.update k v d"

abbreviation ddel :: "'k \<Rightarrow> ('k, 'v) dict \<Rightarrow> ('k, 'v) dict" where
  "ddel k d \<equiv> AList.delete k d"

lemma dget_dset [simp, dict_simps]: "dget (dset k v d) k' = (if k' = k then Some v else dget d k')"
  by (simp add: update_conv)

lemma dget_ddel [simp, dict_simps]: "dget (ddel k d) k' = (if k' = k then None else dget d k')"
  by (simp add: delete_conv)

lemma dkeys_dset [dict_simps]: "dkeys (dset k v d) = (if k \<in> set (dkeys d) then dkeys d else dkeys d @ [k])"
  by (induction d) (auto simp: dkeys_def)

lemma distinct_dkeys_dset [dict_simps]: "distinct (dkeys d) \<Longrightarrow> distinct (dkeys (dset k v d))"
  by (simp add: dkeys_dset)

lemma dkeys_ddel [dict_simps]: "dkeys (ddel k d) = filter (\<lambda>x. x \<noteq> k) (dkeys d)"
  by (induction d) (auto simp: dkeys_def)

lemma distinct_dkeys_ddel [dict_simps]: "distinct (dkeys d) \<Longrightarrow> distinct (dkeys (ddel k d))"
  by (simp add: dkeys_ddel)

lemma dvalues_dset: "set (dvalues (dset k v d)) \<subseteq> insert v (set (dvalues d))"
  by (induction d) (auto simp: dvalues_def)

lemma dget_dvalues: "dget d k = Some v \<Longrightarrow> v \<in> set (dvalues d)"
  by (force simp: dvalues_def dest: map_of_SomeD)

lemma dget_eq_None_iff [dict_simps]: "dget d k = None \<longleftrightarrow> k \<notin> set (dkeys d)"
  by (simp add: map_of_eq_None_iff dkeys_def)

section \<open>Invariants of transition systems\<close>

text \<open>
  The contract shared by the stateful components: an initial state, a step relation and a
  predicate that the initial state satisfies and every step keeps. A client of the contract may
  assume the predicate in every reachable state.
\<close>

inductive reach :: "('s \<Rightarrow> bool) \<Rightarrow> ('s \<Rightarrow> 's \<Rightarrow> bool) \<Rightarrow> 's \<Rightarrow> bool"
  for ini :: "'s \<Rightarrow> bool" and stp :: "'s \<Rightarrow> 's \<Rightarrow> bool" where
  reach_init: "ini s \<Longrightarrow> reach ini stp s"
| reach_step: "reach ini stp s \<Longrightarrow> stp s t \<Longrightarrow> reach ini stp t"

locale invariant_system =
  fixes ini :: "'s \<Rightarrow> bool" and stp :: "'s \<Rightarrow> 's \<Rightarrow> bool" and inv :: "'s \<Rightarrow> bool"
  assumes inv_init: "ini s \<Longrightarrow> inv s"
    and inv_step: "inv s \<Longrightarrow> stp s t \<Longrightarrow> inv t"
begin

lemma reach_inv: "reach ini stp s \<Longrightarrow> inv s"
  by (induction rule: reach.induct) (auto intro: inv_init inv_step)

lemma steps_inv: "stp\<^sup>*\<^sup>* s t \<Longrightarrow> inv s \<Longrightarrow> inv t"
  by (induction rule: rtranclp_induct) (auto intro: inv_step)

end

text \<open>A specification that the steps refine: every step from a state in the invariant is, seen
  through \<open>abst\<close>, a step of the specification, so what is reachable is reachable there.\<close>

locale refinement_system = invariant_system +
  fixes abst :: "'a \<Rightarrow> 'b" and aini :: "'b \<Rightarrow> bool" and astp :: "'b \<Rightarrow> 'b \<Rightarrow> bool"
  assumes abs_init: "ini s \<Longrightarrow> aini (abst s)"
    and abs_step: "inv s \<Longrightarrow> stp s t \<Longrightarrow> astp (abst s) (abst t)"
begin

lemma reach_abs: "reach ini stp s \<Longrightarrow> reach aini astp (abst s)"
proof (induction rule: reach.induct)
  case (reach_init s)
  then show ?case by (blast intro: abs_init reach.reach_init)
next
  case (reach_step s t)
  then show ?case by (blast intro: abs_step reach_inv reach.reach_step)
qed

end

section \<open>Lists\<close>

lemma list_all2_left: "list_all2 R xs ys \<Longrightarrow> x \<in> set xs \<Longrightarrow> \<exists>y \<in> set ys. R x y"
  by (induction rule: list_all2_induct) auto

lemma list_all2_right: "list_all2 R xs ys \<Longrightarrow> y \<in> set ys \<Longrightarrow> \<exists>x \<in> set xs. R x y"
  by (induction rule: list_all2_induct) auto

text \<open>First occurrences in order, as a loop that appends only unseen values builds them.\<close>

fun uniq_from :: "'a list \<Rightarrow> 'a list \<Rightarrow> 'a list" where
  "uniq_from acc [] = acc"
| "uniq_from acc (x # xs) = uniq_from (if x \<in> set acc then acc else acc @ [x]) xs"

lemma uniq_from_set: "set (uniq_from acc xs) = set acc \<union> set xs"
  by (induction acc xs rule: uniq_from.induct) auto

lemma uniq_from_distinct: "distinct acc \<Longrightarrow> distinct (uniq_from acc xs)"
  by (induction acc xs rule: uniq_from.induct) auto

lemma uniq_from_subset: "set xs \<subseteq> set acc \<Longrightarrow> uniq_from acc xs = acc"
  by (induction acc xs rule: uniq_from.induct) auto

lemma uniq_from_twice: "uniq_from (uniq_from [] xs) xs = uniq_from [] xs"
  by (simp add: uniq_from_subset uniq_from_set)

lemma uniq_from_append: "uniq_from acc (xs @ ys) = uniq_from (uniq_from acc xs) ys"
  by (induction acc xs rule: uniq_from.induct) auto

lemma uniq_from_prefix: "\<exists>ys. uniq_from acc xs = acc @ ys"
proof (induction acc xs rule: uniq_from.induct)
  case (2 acc x xs)
  then show ?case by (cases "x \<in> set acc") auto
qed simp

end
