(* ===== verification/Messages.thy ===== *)
theory Messages
  imports Prelude
begin

text \<open>
  \<^verbatim>\<open>neudc/core/communication/messaging/types.py\<close>: the attributes, the message envelope and its
  payload classes, and the batch. A NumPy array is its shape and its elements in C order; a
  Python float is a real number.
\<close>

record ndarray =
  nd_shape :: "nat list"
  nd_data :: "real list"

section \<open>Attributes\<close>

record class_attr =
  cls_source_node_id :: int
  cls_class_id :: string
  cls_score :: "real option"

record segmentation =
  seg_source_node_id :: int
  seg_image :: ndarray

record text_attr =
  txt_source_node_id :: int
  txt_text :: string
  txt_score :: real

record box =
  box_source_node_id :: int
  bx1 :: real
  by1 :: real
  bx2 :: real
  by2 :: real
  class_id_name :: string
  class_id_num :: int
  box_score :: real
  labels :: "class_attr list option"
  reid :: string

record keypoint =
  kp_x :: real
  kp_y :: real
  kp_class_id :: string
  kp_score :: real

record keypoints =
  kps :: "(string, keypoint) dict"
  kps_description :: string

section \<open>Messages\<close>

record envelope =
  timestamp :: real
  msg_source :: string
  drop_flag :: bool
  session_id :: "string option"
  turn_id :: "int option"
  is_final :: bool

datatype control_action = CANCEL

record frame =
  image :: ndarray
  source_frame :: string
  frame_id :: int
  boxes :: "box list"
  embedding :: "ndarray option"
  frame_id_last :: int

record text_chunk =
  chunk_text :: string
  language :: "string option"

record token_tensor =
  tt_data :: ndarray

record audio_chunk =
  samples :: ndarray
  sample_rate :: int
  channels :: int

record video_segment =
  images :: "ndarray list"
  start_frame_id :: int
  fps :: "real option"

text \<open>\<^verbatim>\<open>class X(BaseMessage)\<close>: one constructor a class, the envelope first.\<close>

datatype message =
    BaseMessage envelope
  | ControlMessage envelope control_action
  | Frame envelope frame
  | TextChunk envelope text_chunk
  | TokenTensor envelope token_tensor
  | AudioChunk envelope audio_chunk
  | VideoSegment envelope video_segment

fun envelope_of :: "message \<Rightarrow> envelope" where
  "envelope_of (BaseMessage e) = e"
| "envelope_of (ControlMessage e _) = e"
| "envelope_of (Frame e _) = e"
| "envelope_of (TextChunk e _) = e"
| "envelope_of (TokenTensor e _) = e"
| "envelope_of (AudioChunk e _) = e"
| "envelope_of (VideoSegment e _) = e"

definition turn_key :: "message \<Rightarrow> string option \<times> int option" where
  "turn_key m = (session_id (envelope_of m), turn_id (envelope_of m))"

text \<open>The defaults of the optional envelope fields.\<close>

definition new_envelope :: "real \<Rightarrow> envelope" where
  "new_envelope t = \<lparr>timestamp = t, msg_source = [], drop_flag = False, session_id = None,
     turn_id = None, is_final = True\<rparr>"

section \<open>Message classes\<close>

datatype message_class =
    BaseMessage_c | ControlMessage_c | Frame_c | TextChunk_c | TokenTensor_c | AudioChunk_c
  | VideoSegment_c

fun class_of :: "message \<Rightarrow> message_class" where
  "class_of (BaseMessage _) = BaseMessage_c"
| "class_of (ControlMessage _ _) = ControlMessage_c"
| "class_of (Frame _ _) = Frame_c"
| "class_of (TextChunk _ _) = TextChunk_c"
| "class_of (TokenTensor _ _) = TokenTensor_c"
| "class_of (AudioChunk _ _) = AudioChunk_c"
| "class_of (VideoSegment _ _) = VideoSegment_c"

text \<open>\<^verbatim>\<open>issubclass(c, d)\<close>: every class is below itself and below \<^verbatim>\<open>BaseMessage\<close>.\<close>

definition issubclass :: "message_class \<Rightarrow> message_class \<Rightarrow> bool" where
  "issubclass c d = (d = c \<or> d = BaseMessage_c)"

definition isinstance :: "message \<Rightarrow> message_class \<Rightarrow> bool" where
  "isinstance m c = issubclass (class_of m) c"

lemma issubclass_refl [simp]: "issubclass c c"
  by (simp add: issubclass_def)

lemma issubclass_trans: "issubclass b c \<Longrightarrow> issubclass c d \<Longrightarrow> issubclass b d"
  by (auto simp: issubclass_def)

lemma issubclass_antisym: "issubclass c d \<Longrightarrow> issubclass d c \<Longrightarrow> c = d"
  by (auto simp: issubclass_def)

instantiation message_class :: linorder
begin

fun class_rank :: "message_class \<Rightarrow> nat" where
  "class_rank BaseMessage_c = 0"
| "class_rank ControlMessage_c = 1"
| "class_rank Frame_c = 2"
| "class_rank TextChunk_c = 3"
| "class_rank TokenTensor_c = 4"
| "class_rank AudioChunk_c = 5"
| "class_rank VideoSegment_c = 6"

definition less_eq_message_class :: "message_class \<Rightarrow> message_class \<Rightarrow> bool" where
  "less_eq_message_class c d \<longleftrightarrow> class_rank c \<le> class_rank d"

definition less_message_class :: "message_class \<Rightarrow> message_class \<Rightarrow> bool" where
  "less_message_class c d \<longleftrightarrow> class_rank c < class_rank d"

instance
proof
  fix c d :: message_class
  show "c \<le> d \<Longrightarrow> d \<le> c \<Longrightarrow> c = d"
    by (cases c; cases d) (simp_all add: less_eq_message_class_def)
qed (auto simp: less_eq_message_class_def less_message_class_def)

end

section \<open>Batches\<close>

record 'm batch =
  frames :: "'m list"

definition batch_len :: "'m batch \<Rightarrow> nat" where
  "batch_len b = length (frames b)"

text \<open>A negative index counts from the end; out of range is \<^verbatim>\<open>IndexError\<close>.\<close>

definition batch_getitem :: "'m batch \<Rightarrow> int \<Rightarrow> exn + 'm" where
  "batch_getitem b i =
     (let n = int (batch_len b); j = (if i < 0 then i + n else i) in
      if 0 \<le> j \<and> j < n then Inr (frames b ! nat j) else Inl IndexError)"

definition batch_iter :: "'m batch \<Rightarrow> 'm list" where
  "batch_iter b = frames b"

text \<open>What a node hands to the mailbox: one message, or a batch that the mailbox unrolls.\<close>

datatype outgoing = Single message | Batched "message batch"

fun unroll :: "outgoing \<Rightarrow> message list" where
  "unroll (Single m) = [m]"
| "unroll (Batched b) = batch_iter b"

text \<open>Indexing and iterating a batch agree.\<close>

lemma batch_getitem_iter:
  "i < batch_len b \<Longrightarrow> batch_getitem b (int i) = Inr (batch_iter b ! i)"
  by (simp add: batch_getitem_def batch_iter_def)

lemma batch_getitem_neg:
  "0 < i \<Longrightarrow> i \<le> batch_len b \<Longrightarrow>
   batch_getitem b (- int i) = Inr (batch_iter b ! (batch_len b - i))"
  by (auto simp: batch_getitem_def batch_iter_def Let_def nat_diff_distrib' algebra_simps)

end
