(* ===== verification/Dead_Letter.thy ===== *)
theory Dead_Letter
  imports Messages
begin

text \<open>
  \<^verbatim>\<open>neudc/core/policy/dead_letter.py\<close>: the JSONL record of the messages a node gave up on. The
  file system, the clock and the text of an exception are a record of calls; a record is a JSON
  object, one \<^verbatim>\<open>append\<close> a line.
\<close>

datatype json =
    JNull
  | JBool bool
  | JInt int
  | JNum real
  | JStr string
  | JList "json list"
  | JObj "(string \<times> json) list"

type_synonym json_obj = "(string, json) dict"

record 'w files =
  f_time :: "('w, real) io"
  f_mkdir :: "string \<Rightarrow> ('w, unit) io"
  f_append_line :: "string \<Rightarrow> json \<Rightarrow> ('w, unit) io"
  f_pickle :: "string \<Rightarrow> message \<Rightarrow> ('w, unit) io"
  f_exn_str :: "exn \<Rightarrow> string"
  f_traceback :: "exn \<Rightarrow> string"
  f_stamp :: "real \<Rightarrow> string"      \<comment> \<open>\<^verbatim>\<open>f"{t:.6f}"\<close>\<close>

record sink =
  directory :: string
  store_payload :: bool

definition new_sink :: "string \<Rightarrow> bool \<Rightarrow> sink" where
  "new_sink d sp = \<lparr>directory = d, store_payload = sp\<rparr>"

definition MAX_TRACEBACK_CHARS :: nat where "MAX_TRACEBACK_CHARS = 4000"

text \<open>\<^verbatim>\<open>s[-n:]\<close>.\<close>

definition last_chars :: "nat \<Rightarrow> string \<Rightarrow> string" where
  "last_chars n s = drop (length s - n) s"

text \<open>\<^verbatim>\<open>type(x).__name__\<close>.\<close>

fun message_type_name :: "message \<Rightarrow> string" where
  "message_type_name (BaseMessage _) = ''BaseMessage''"
| "message_type_name (ControlMessage _ _) = ''ControlMessage''"
| "message_type_name (Frame _ _) = ''Frame''"
| "message_type_name (TextChunk _ _) = ''TextChunk''"
| "message_type_name (TokenTensor _ _) = ''TokenTensor''"
| "message_type_name (AudioChunk _ _) = ''AudioChunk''"
| "message_type_name (VideoSegment _ _) = ''VideoSegment''"

fun exn_type_name :: "exn \<Rightarrow> string" where
  "exn_type_name (ValueError _) = ''ValueError''"
| "exn_type_name (TypeError _) = ''TypeError''"
| "exn_type_name (RuntimeError _) = ''RuntimeError''"
| "exn_type_name (NodeFailure _) = ''NodeFailure''"
| "exn_type_name (AssertionError _) = ''AssertionError''"
| "exn_type_name KeyError = ''KeyError''"
| "exn_type_name IndexError = ''IndexError''"
| "exn_type_name (NotImplementedError _) = ''NotImplementedError''"
| "exn_type_name (OSError _) = ''OSError''"
| "exn_type_name (FileNotFoundError _) = ''FileNotFoundError''"
| "exn_type_name (MissingExtraError _) = ''MissingExtraError''"
| "exn_type_name (ModuleNotFoundError _) = ''ModuleNotFoundError''"
| "exn_type_name (ToolError _) = ''ToolError''"
| "exn_type_name QueueFull = ''Full''"
| "exn_type_name QueueEmpty = ''Empty''"
| "exn_type_name (ZMQError _) = ''ZMQError''"
| "exn_type_name (PicklingError _) = ''PicklingError''"
| "exn_type_name (AttributeError _) = ''AttributeError''"
| "exn_type_name JSONDecodeError = ''JSONDecodeError''"
| "exn_type_name StopIteration = ''StopIteration''"
| "exn_type_name (OtherException n) = n"
| "exn_type_name GeneratorExit = ''GeneratorExit''"
| "exn_type_name KeyboardInterrupt = ''KeyboardInterrupt''"

text \<open>The attribute of each identity field, in the order of \<^verbatim>\<open>_IDENTITY_FIELDS\<close>; a field a
  message class does not have reads as None.\<close>

definition identity_fields :: "message \<Rightarrow> (string \<times> json option) list" where
  "identity_fields m = (let e = envelope_of m in
     [(''frame_id'', case m of Frame _ f \<Rightarrow> Some (JInt (frame_id f)) | _ \<Rightarrow> None),
      (''source_frame'', case m of Frame _ f \<Rightarrow> Some (JStr (source_frame f)) | _ \<Rightarrow> None),
      (''timestamp'', Some (JNum (timestamp e))),
      (''source'', Some (JStr (msg_source e))),
      (''session_id'', map_option JStr (session_id e)),
      (''turn_id'', map_option JInt (turn_id e))])"

definition identity_of :: "message \<Rightarrow> json_obj" where
  "identity_of m = List.map_filter (\<lambda>(k, v). map_option (Pair k) v) (identity_fields m)"

definition build_entry :: "'w files \<Rightarrow> string \<Rightarrow> message \<Rightarrow> exn option \<Rightarrow> ('w, real \<times> json_obj) io" where
  "build_entry F node_id item exc =
     bnd (f_time F) (\<lambda>t. ret (t,
       [(''timestamp'', JNum t),
        (''node_id'', JStr node_id),
        (''message_type'', JStr (message_type_name item)),
        (''error_type'', case exc of None \<Rightarrow> JNull | Some e \<Rightarrow> JStr (exn_type_name e)),
        (''error'', case exc of None \<Rightarrow> JNull | Some e \<Rightarrow> JStr (f_exn_str F e))] @
       (case exc of None \<Rightarrow> []
        | Some e \<Rightarrow> [(''traceback'', JStr (last_chars MAX_TRACEBACK_CHARS (f_traceback F e)))]) @
       [(''message'', JObj (identity_of item))]))"

fun is_dump_error :: "exn \<Rightarrow> bool" where
  "is_dump_error (PicklingError _) = True"
| "is_dump_error (TypeError _) = True"
| "is_dump_error (AttributeError _) = True"
| "is_dump_error e = is_OSError e"

definition payload_path :: "'w files \<Rightarrow> sink \<Rightarrow> string \<Rightarrow> real \<Rightarrow> string" where
  "payload_path F s node_id t = directory s @ ''/'' @ node_id @ ''/'' @ f_stamp F t @ ''.pkl''"

definition sink_store_payload :: "'w files \<Rightarrow> sink \<Rightarrow> string \<Rightarrow> message \<Rightarrow> real \<Rightarrow> ('w, string option) io" where
  "sink_store_payload F s node_id item t =
     seq (f_mkdir F (directory s @ ''/'' @ node_id))
       (catch_exn (seq (f_pickle F (payload_path F s node_id t) item) (ret (Some (payload_path F s node_id t))))
          is_dump_error (\<lambda>_. ret None))"

definition record_path :: "sink \<Rightarrow> string \<Rightarrow> string" where
  "record_path s node_id = directory s @ ''/'' @ node_id @ ''.jsonl''"

definition sink_record :: "'w files \<Rightarrow> sink \<Rightarrow> string \<Rightarrow> message \<Rightarrow> exn option \<Rightarrow> ('w, unit) io" where
  "sink_record F s node_id item exc =
     catch_exn
       (seq (f_mkdir F (directory s))
          (bnd (build_entry F node_id item exc) (\<lambda>(t, entry).
           bnd (if store_payload s
                then bnd (sink_store_payload F s node_id item t) (\<lambda>p.
                  ret (dset ''payload_file'' (case p of None \<Rightarrow> JNull | Some q \<Rightarrow> JStr q) entry))
                else ret entry) (\<lambda>entry.
           f_append_line F (record_path s node_id) (JObj entry)))))
       is_OSError (\<lambda>_. ret ())"

section \<open>What a record costs the caller\<close>

text \<open>\<^verbatim>\<open>record\<close> raises only what is not an \<^verbatim>\<open>OSError\<close>.\<close>

lemma sink_record_raises:
  "sink_record F s n m e w = (Inl x, w') \<Longrightarrow> \<not> is_OSError x"
  by (auto simp: sink_record_def catch_exn_def split: prod.splits sum.splits if_splits)

lemma last_chars_length: "length (last_chars n s) \<le> n"
  by (simp add: last_chars_def)

lemma identity_of_session: "dget (identity_of m) ''session_id'' = map_option JStr (session_id (envelope_of m))"
  by (cases "session_id (envelope_of m)"; cases "turn_id (envelope_of m)"; cases m)
     (simp_all add: identity_of_def identity_fields_def Let_def List.map_filter_def)

text \<open>Files whose every call succeeds, for closed instances: the world is the list of lines.\<close>

definition log_files :: "(string \<times> json) list files" where
  "log_files = \<lparr>f_time = (\<lambda>w. (Inr 0, w)), f_mkdir = (\<lambda>_ w. (Inr (), w)),
     f_append_line = (\<lambda>p j w. (Inr (), w @ [(p, j)])), f_pickle = (\<lambda>_ _ w. (Inr (), w)),
     f_exn_str = (\<lambda>_. []), f_traceback = (\<lambda>_. []), f_stamp = (\<lambda>_. ''0.000000'')\<rparr>"

end
