(* ===== verification/Config_Values.thy ===== *)
theory Config_Values
  imports Prelude
begin

text \<open>
  The values of a loaded YAML configuration, the accesses Python code makes on them, and the
  coercions of pydantic, which are a parameter: for a field of a given type, the value a YAML
  value is turned into, or None for a validation error.
\<close>

datatype yaml =
    YNull
  | YBool bool
  | YInt int
  | YFloat real
  | YStr string
  | YList "yaml list"
  | YMap "(string \<times> yaml) list"

type_synonym raw_dict = "(string, yaml) dict"

text \<open>\<^verbatim>\<open>d[k]\<close> and \<^verbatim>\<open>d.get(k, default)\<close>.\<close>

definition y_item :: "raw_dict \<Rightarrow> string \<Rightarrow> exn + yaml" where
  "y_item d k = (case dget d k of None \<Rightarrow> Inl KeyError | Some v \<Rightarrow> Inr v)"

definition y_get :: "raw_dict \<Rightarrow> string \<Rightarrow> yaml \<Rightarrow> yaml" where
  "y_get d k v = (case dget d k of None \<Rightarrow> v | Some x \<Rightarrow> x)"

text \<open>\<^verbatim>\<open>bool(v)\<close>.\<close>

fun y_truth :: "yaml \<Rightarrow> bool" where
  "y_truth YNull = False"
| "y_truth (YBool b) = b"
| "y_truth (YInt n) = (n \<noteq> 0)"
| "y_truth (YFloat r) = (r \<noteq> 0)"
| "y_truth (YStr s) = (s \<noteq> [])"
| "y_truth (YList l) = (l \<noteq> [])"
| "y_truth (YMap m) = (m \<noteq> [])"

text \<open>\<^verbatim>\<open>for x in v\<close>: a list gives its items, a string its characters, a mapping its keys.\<close>

fun y_iter :: "yaml \<Rightarrow> exn + yaml list" where
  "y_iter (YList l) = Inr l"
| "y_iter (YStr s) = Inr (map (\<lambda>c. YStr [c]) s)"
| "y_iter (YMap m) = Inr (map (YStr \<circ> fst) m)"
| "y_iter _ = Inl (TypeError ''object is not iterable'')"

fun y_hashable :: "yaml \<Rightarrow> bool" where
  "y_hashable (YList _) = False"
| "y_hashable (YMap _) = False"
| "y_hashable _ = True"

text \<open>The exception class of a rejected field.\<close>

record pydantic =
  py_int :: "yaml \<Rightarrow> int option"
  py_float :: "yaml \<Rightarrow> real option"
  py_str :: "yaml \<Rightarrow> string option"
  py_bool :: "yaml \<Rightarrow> bool option"

text \<open>The documented core of the coercions: a value of the field's own type is kept, and nothing
  but a string is accepted for a string.\<close>

definition pydantic_ok :: "pydantic \<Rightarrow> bool" where
  "pydantic_ok V \<longleftrightarrow> (\<forall>n. py_int V (YInt n) = Some n) \<and> (\<forall>r. py_float V (YFloat r) = Some r) \<and>
     (\<forall>n. py_float V (YInt n) = Some (of_int n)) \<and> (\<forall>b. py_bool V (YBool b) = Some b) \<and>
     (\<forall>v s. py_str V v = Some s \<longleftrightarrow> v = YStr s)"

text \<open>Strict coercions, for closed instances.\<close>

definition strict_pydantic :: pydantic where
  "strict_pydantic = \<lparr>
     py_int = (\<lambda>v. case v of YInt n \<Rightarrow> Some n | _ \<Rightarrow> None),
     py_float = (\<lambda>v. case v of YFloat r \<Rightarrow> Some r | YInt n \<Rightarrow> Some (of_int n) | _ \<Rightarrow> None),
     py_str = (\<lambda>v. case v of YStr s \<Rightarrow> Some s | _ \<Rightarrow> None),
     py_bool = (\<lambda>v. case v of YBool b \<Rightarrow> Some b | _ \<Rightarrow> None)\<rparr>"

lemma strict_pydantic_ok: "pydantic_ok strict_pydantic"
  by (auto simp: pydantic_ok_def strict_pydantic_def split: yaml.splits)

text \<open>A field with a default: absent fields are not validated.\<close>

definition field_of :: "(yaml \<Rightarrow> 'a option) \<Rightarrow> 'a \<Rightarrow> raw_dict \<Rightarrow> string \<Rightarrow> 'a option" where
  "field_of c dflt d k = (case dget d k of None \<Rightarrow> Some dflt | Some v \<Rightarrow> c v)"

definition opt_of :: "(yaml \<Rightarrow> 'a option) \<Rightarrow> yaml \<Rightarrow> 'a option option" where
  "opt_of c v = (if v = YNull then Some None else map_option Some (c v))"

fun all_some :: "('a \<Rightarrow> 'b option) \<Rightarrow> 'a list \<Rightarrow> 'b list option" where
  "all_some f [] = Some []"
| "all_some f (x # xs) = (case f x of None \<Rightarrow> None | Some y \<Rightarrow> map_option ((#) y) (all_some f xs))"

definition list_of :: "(yaml \<Rightarrow> 'a option) \<Rightarrow> yaml \<Rightarrow> 'a list option" where
  "list_of c v = (case v of YList l \<Rightarrow> all_some c l | _ \<Rightarrow> None)"

lemma py_str_iff: "pydantic_ok V \<Longrightarrow> py_str V v = Some s \<longleftrightarrow> v = YStr s"
  by (simp add: pydantic_ok_def)

lemma all_some_str:
  "pydantic_ok V \<Longrightarrow> all_some (py_str V) l = Some ss \<longleftrightarrow> l = map YStr ss"
proof (induction l arbitrary: ss)
  case Nil
  then show ?case by auto
next
  case (Cons v l)
  show ?case
  proof (cases "py_str V v")
    case None
    then have "v \<noteq> YStr s" for s
      using py_str_iff [OF Cons.prems, of v s] by auto
    with None show ?thesis by (cases ss) auto
  next
    case (Some s)
    then have "v = YStr s" by (simp add: py_str_iff [OF Cons.prems])
    with Some Cons show ?thesis by (cases ss) auto
  qed
qed

end
