(* ===== verification/Error_Policy.thy ===== *)
theory Error_Policy
  imports Dead_Letter Config_Values
begin

text \<open>
  \<^verbatim>\<open>neudc/core/policy/error_policy.py\<close>: the configuration block, the counters, and the
  attempt loop around a node's \<^verbatim>\<open>process()\<close>, for a plain function and for a generator.

  The function, the interruptible wait, the delivery callback and the cancellation test run over
  the world; the policy is the object the loop mutates. The Prometheus counters of the node are a
  second copy of the statistics, bumped where the code bumps them. A generator is a state with a
  next step; a drain that never ends is the value None.
\<close>

section \<open>Configuration\<close>

datatype error_action = SKIP | RETRY | FAIL

record error_policy_config =
  on_error :: error_action
  max_retries :: int
  initial_backoff :: real
  max_backoff :: real
  backoff_multiplier :: real
  jitter :: bool
  dead_letter_dir :: "string option"
  cfg_store_payload :: bool

definition default_policy_config :: error_policy_config where
  "default_policy_config = \<lparr>on_error = SKIP, max_retries = 0, initial_backoff = 1/10, max_backoff = 5,
     backoff_multiplier = 2, jitter = True, dead_letter_dir = None, cfg_store_payload = False\<rparr>"

definition error_action_of :: "string \<Rightarrow> error_action option" where
  "error_action_of s = (if s = ''skip'' then Some SKIP else if s = ''retry'' then Some RETRY
     else if s = ''fail'' then Some FAIL else None)"

text \<open>The \<^verbatim>\<open>Field\<close> constraints and the model validator.\<close>

definition policy_fields_ok :: "error_policy_config \<Rightarrow> bool" where
  "policy_fields_ok c = (0 \<le> max_retries c \<and> 0 < initial_backoff c \<and> 0 < max_backoff c \<and>
     1 \<le> backoff_multiplier c)"

definition policy_consistent :: "error_policy_config \<Rightarrow> bool" where
  "policy_consistent c =
     (if on_error c = RETRY \<and> max_retries c < 1 then False
      else if max_backoff c < initial_backoff c then False
      else if cfg_store_payload c \<and> dead_letter_dir c = None then False
      else True)"

definition policy_keys :: "string list" where
  "policy_keys = [''on_error'', ''max_retries'', ''initial_backoff'', ''max_backoff'', ''backoff_multiplier'',
     ''jitter'', ''dead_letter_dir'', ''store_payload'']"

text \<open>\<^verbatim>\<open>ErrorPolicyConfig(**raw)\<close>; None is pydantic's \<^verbatim>\<open>ValidationError\<close>.\<close>

definition parse_policy_config :: "pydantic \<Rightarrow> raw_dict \<Rightarrow> error_policy_config option" where
  "parse_policy_config V raw =
     (if \<not> set (dkeys raw) \<subseteq> set policy_keys then None
      else case (field_of (\<lambda>v. Option.bind (py_str V v) error_action_of) SKIP raw ''on_error'',
                 field_of (py_int V) 0 raw ''max_retries'',
                 field_of (py_float V) (1/10) raw ''initial_backoff'',
                 field_of (py_float V) 5 raw ''max_backoff'',
                 field_of (py_float V) 2 raw ''backoff_multiplier'',
                 field_of (py_bool V) True raw ''jitter'',
                 field_of (opt_of (py_str V)) None raw ''dead_letter_dir'',
                 field_of (py_bool V) False raw ''store_payload'') of
        (Some a, Some n, Some ib, Some mb, Some bm, Some j, Some d, Some sp) \<Rightarrow>
          (let c = \<lparr>on_error = a, max_retries = n, initial_backoff = ib, max_backoff = mb,
                    backoff_multiplier = bm, jitter = j, dead_letter_dir = d, cfg_store_payload = sp\<rparr>
           in if policy_fields_ok c \<and> policy_consistent c then Some c else None)
      | _ \<Rightarrow> None)"

section \<open>The policy object\<close>

record error_stats =
  processed :: nat
  errors :: nat
  retries :: nat
  dropped :: nat
  dead_lettered :: nat
  failures :: nat

definition zero_stats :: error_stats where
  "zero_stats = \<lparr>processed = 0, errors = 0, retries = 0, dropped = 0, dead_lettered = 0, failures = 0\<rparr>"

definition stats_as_dict :: "error_stats \<Rightarrow> (string, nat) dict" where
  "stats_as_dict s = [(''processed'', processed s), (''errors'', errors s), (''retries'', retries s),
     (''dropped'', dropped s), (''dead_lettered'', dead_lettered s), (''failures'', failures s)]"

record policy =
  config :: error_policy_config
  node_id :: string
  stats :: error_stats
  sink :: "sink option"
  metrics :: error_stats      \<comment> \<open>the labelled counters of \<^verbatim>\<open>observability/metrics.py\<close>\<close>
  latencies :: nat            \<comment> \<open>observations of \<^verbatim>\<open>PROCESS_LATENCY\<close>\<close>

definition new_policy :: "error_policy_config \<Rightarrow> string \<Rightarrow> policy" where
  "new_policy c nid = \<lparr>config = c, node_id = nid, stats = zero_stats,
     sink = map_option (\<lambda>d. new_sink d (cfg_store_payload c)) (dead_letter_dir c),
     metrics = zero_stats, latencies = 0\<rparr>"

text \<open>\<^verbatim>\<open>ErrorPolicyConfig(**config) if config else ErrorPolicyConfig()\<close>.\<close>

definition policy_from_config :: "pydantic \<Rightarrow> yaml option \<Rightarrow> string \<Rightarrow> exn + policy" where
  "policy_from_config V raw nid = (case raw of
      None \<Rightarrow> Inr (new_policy default_policy_config nid)
    | Some v \<Rightarrow>
        if \<not> y_truth v then Inr (new_policy default_policy_config nid)
        else (case v of
            YMap d \<Rightarrow> (case parse_policy_config V d of
                None \<Rightarrow> Inl (ValueError ''ErrorPolicyConfig'')
              | Some c \<Rightarrow> Inr (new_policy c nid))
          | _ \<Rightarrow> Inl (TypeError ''argument after ** must be a mapping'')))"

type_synonym 'w policy_world = "policy \<times> 'w"

record 'w policy_env =
  e_files :: "'w files"
  e_uniform :: "real \<Rightarrow> ('w, real) io"   \<comment> \<open>\<^verbatim>\<open>random.uniform(0, x)\<close>\<close>
  e_sleep :: "real \<Rightarrow> ('w, unit) io"

definition inc :: "(error_stats \<Rightarrow> error_stats) \<Rightarrow> ('w policy_world, unit) io" where
  "inc f = seq (on_self (\<lambda>p. p\<lparr>stats := f (stats p)\<rparr>)) (on_self (\<lambda>p. p\<lparr>metrics := f (metrics p)\<rparr>))"

definition observe_latency :: "('w policy_world, unit) io" where
  "observe_latency = on_self (\<lambda>p. p\<lparr>latencies := Suc (latencies p)\<rparr>)"

abbreviation inc_processed :: "error_stats \<Rightarrow> error_stats" where
  "inc_processed s \<equiv> s\<lparr>processed := Suc (processed s)\<rparr>"
abbreviation inc_errors :: "error_stats \<Rightarrow> error_stats" where
  "inc_errors s \<equiv> s\<lparr>errors := Suc (errors s)\<rparr>"
abbreviation inc_retries :: "error_stats \<Rightarrow> error_stats" where
  "inc_retries s \<equiv> s\<lparr>retries := Suc (retries s)\<rparr>"
abbreviation inc_dropped :: "error_stats \<Rightarrow> error_stats" where
  "inc_dropped s \<equiv> s\<lparr>dropped := Suc (dropped s)\<rparr>"
abbreviation inc_dead_lettered :: "error_stats \<Rightarrow> error_stats" where
  "inc_dead_lettered s \<equiv> s\<lparr>dead_lettered := Suc (dead_lettered s)\<rparr>"
abbreviation inc_failures :: "error_stats \<Rightarrow> error_stats" where
  "inc_failures s \<equiv> s\<lparr>failures := Suc (failures s)\<rparr>"

section \<open>Backoff\<close>

definition base_delay :: "error_policy_config \<Rightarrow> nat \<Rightarrow> real" where
  "base_delay c a = min (max_backoff c) (initial_backoff c * backoff_multiplier c ^ a)"

definition backoff_delay :: "'w policy_env \<Rightarrow> error_policy_config \<Rightarrow> nat \<Rightarrow> ('w, real) io" where
  "backoff_delay E c a =
     (if jitter c then bnd (e_uniform E (base_delay c a / 2)) (\<lambda>u. ret (base_delay c a / 2 + u))
      else ret (base_delay c a))"

definition policy_sleep :: "'w policy_env \<Rightarrow> real \<Rightarrow> (real \<Rightarrow> ('w, bool) io) option \<Rightarrow> ('w, bool) io" where
  "policy_sleep E delay wait = (case wait of
      None \<Rightarrow> seq (e_sleep E delay) (ret False)
    | Some f \<Rightarrow> f delay)"

section \<open>Giving up\<close>

definition give_up :: "'w policy_env \<Rightarrow> message \<Rightarrow> exn option \<Rightarrow> ('w policy_world, 'r option) io" where
  "give_up E item err =
     bnd self (\<lambda>p.
     seq (case sink p of
            None \<Rightarrow> ret ()
          | Some s \<Rightarrow> seq (lift_w (sink_record (e_files E) s (node_id p) item err)) (inc inc_dead_lettered))
     (if on_error (config p) = FAIL then seq (inc inc_failures) (raise (NodeFailure ''processing failed''))
      else seq (inc inc_dropped) (ret None)))"

section \<open>The attempt loop\<close>

definition attempts_of :: "error_policy_config \<Rightarrow> nat" where
  "attempts_of c = nat (1 + (if on_error c = RETRY then max_retries c else 0))"

text \<open>The rest of the loop after a failed attempt: no attempt left leaves it by \<^verbatim>\<open>break\<close>, a
  stop during the backoff drops the message.\<close>

definition after_failure :: "'w policy_env \<Rightarrow> message \<Rightarrow> (real \<Rightarrow> ('w, bool) io) option \<Rightarrow> nat \<Rightarrow> bool \<Rightarrow> exn \<Rightarrow>
    ('w policy_world, 'r option) io \<Rightarrow> ('w policy_world, 'r option) io" where
  "after_failure E item wait a again err continue =
     (if \<not> again then give_up E item (Some err)
      else bnd self (\<lambda>p.
        bnd (lift_w (backoff_delay E (config p) a)) (\<lambda>delay.
        seq (inc inc_retries) (
        bnd (lift_w (policy_sleep E delay wait)) (\<lambda>stopping.
        if stopping then seq (inc inc_dropped) (ret None) else continue)))))"

fun attempt_loop :: "'w policy_env \<Rightarrow> (message \<Rightarrow> ('w, 'r option) io) \<Rightarrow> message \<Rightarrow>
    (real \<Rightarrow> ('w, bool) io) option \<Rightarrow> nat list \<Rightarrow> exn option \<Rightarrow> ('w policy_world, 'r option) io" where
  "attempt_loop E func item wait [] last_error = give_up E item last_error"
| "attempt_loop E func item wait (a # as) last_error =
     bnd (try_exn (lift_w (func item))) (\<lambda>r. case r of
       Inl err \<Rightarrow> seq observe_latency (seq (inc inc_errors)
         (after_failure E item wait a (as \<noteq> []) err (attempt_loop E func item wait as (Some err))))
     | Inr result \<Rightarrow> seq observe_latency (seq (inc inc_processed) (ret result)))"

text \<open>The body of \<^verbatim>\<open>execute\<close> for a plain function, after the generator test.\<close>

definition execute_function :: "'w policy_env \<Rightarrow> (message \<Rightarrow> ('w, 'r option) io) \<Rightarrow> message \<Rightarrow>
    (real \<Rightarrow> ('w, bool) io) option \<Rightarrow> ('w policy_world, 'r option) io" where
  "execute_function E func item wait =
     bnd self (\<lambda>p. attempt_loop E func item wait [0..<attempts_of (config p)] None)"

section \<open>Generators\<close>

text \<open>A generator object is its state. \<open>gen_next\<close> gives the next value and the state after it,
  None for \<^verbatim>\<open>StopIteration\<close>.\<close>

record ('w, 'g, 'r) generator =
  gen_start :: "message \<Rightarrow> 'g"
  gen_next :: "'g \<Rightarrow> ('w, ('r \<times> 'g) option) io"
  gen_close :: "'g \<Rightarrow> ('w, unit) io"

datatype drain_end = Exhausted | Cancelled | Failed exn | Escaped exn

text \<open>What the \<^verbatim>\<open>except\<close> clauses make of an exception of the loop body.\<close>

definition drain_exn :: "exn \<Rightarrow> drain_end" where
  "drain_exn e = (if e = StopIteration then Exhausted else if is_Exception e then Failed e else Escaped e)"

text \<open>The \<^verbatim>\<open>while True\<close> loop: how it ended, \<^verbatim>\<open>yielded_count\<close>, \<^verbatim>\<open>collected\<close>.\<close>

partial_function (option) drain ::
  "('w, 'g, 'r) generator \<Rightarrow> ('r \<Rightarrow> ('w, unit) io) option \<Rightarrow> ('w, bool) io option \<Rightarrow> 'g \<Rightarrow> nat \<Rightarrow> 'r list \<Rightarrow> 'w \<Rightarrow>
   ((drain_end \<times> nat \<times> 'r list) \<times> 'w) option" where
  "drain G on_item is_cancelled g n acc w =
     (case (case is_cancelled of None \<Rightarrow> (Inr False, w) | Some c \<Rightarrow> c w) of
        (Inl e, w1) \<Rightarrow> Some ((drain_exn e, n, acc), w1)
      | (Inr stop, w1) \<Rightarrow>
          if stop then
            (case gen_close G g w1 of
               (Inl e, w2) \<Rightarrow> Some ((drain_exn e, n, acc), w2)
             | (Inr _, w2) \<Rightarrow> Some ((Cancelled, n, acc), w2))
          else
            (case gen_next G g w1 of
               (Inl e, w2) \<Rightarrow> Some ((drain_exn e, n, acc), w2)
             | (Inr None, w2) \<Rightarrow> Some ((Exhausted, n, acc), w2)
             | (Inr (Some (v, g')), w2) \<Rightarrow>
                 (case on_item of
                    None \<Rightarrow> drain G on_item is_cancelled g' (Suc n) (acc @ [v]) w2
                  | Some f \<Rightarrow> (case f v w2 of
                        (Inl e, w3) \<Rightarrow> Some ((drain_exn e, Suc n, acc), w3)
                      | (Inr _, w3) \<Rightarrow> drain G on_item is_cancelled g' (Suc n) acc w3))))"

text \<open>\<^verbatim>\<open>None if on_item is not None else collected\<close>.\<close>

definition drain_result :: "('r \<Rightarrow> ('w, unit) io) option \<Rightarrow> 'r list \<Rightarrow> 'r list option" where
  "drain_result on_item acc = (case on_item of Some _ \<Rightarrow> None | None \<Rightarrow> Some acc)"

text \<open>The attempt loop of \<^verbatim>\<open>_execute_generator\<close>. A computation whose drain does not end is None;
  the continuation of a failed attempt is run only when the backoff was not interrupted.\<close>

definition retry_wait :: "'w policy_env \<Rightarrow> (real \<Rightarrow> ('w, bool) io) option \<Rightarrow> nat \<Rightarrow> ('w policy_world, bool) io" where
  "retry_wait E wait a =
     bnd self (\<lambda>p.
     bnd (lift_w (backoff_delay E (config p) a)) (\<lambda>delay.
     seq (inc inc_retries) (
     bnd (lift_w (policy_sleep E delay wait)) (\<lambda>stopping.
     if stopping then seq (inc inc_dropped) (ret True) else ret False))))"

fun generator_loop :: "'w policy_env \<Rightarrow> ('w, 'g, 'r) generator \<Rightarrow> message \<Rightarrow> (real \<Rightarrow> ('w, bool) io) option \<Rightarrow>
    ('r \<Rightarrow> ('w, unit) io) option \<Rightarrow> ('w, bool) io option \<Rightarrow> nat list \<Rightarrow> exn option \<Rightarrow> 'w policy_world \<Rightarrow>
    ((exn + 'r list option) \<times> 'w policy_world) option" where
  "generator_loop E G item wait on_item canc [] last_error pw = Some (give_up E item last_error pw)"
| "generator_loop E G item wait on_item canc (a # as) last_error (p, w) =
     (case drain G on_item canc (gen_start G item) 0 [] w of
        None \<Rightarrow> None
      | Some ((Escaped e, n, acc), w1) \<Rightarrow> Some (Inl e, (p, w1))
      | Some ((Cancelled, n, acc), w1) \<Rightarrow>
          Some (seq observe_latency (seq (inc inc_processed) (ret (drain_result on_item acc))) (p, w1))
      | Some ((Exhausted, n, acc), w1) \<Rightarrow>
          Some (seq observe_latency (seq (inc inc_processed) (ret (drain_result on_item acc))) (p, w1))
      | Some ((Failed err, n, acc), w1) \<Rightarrow>
          if 0 < n then Some (seq observe_latency (seq (inc inc_errors) (give_up E item (Some err))) (p, w1))
          else if as = [] then Some (seq observe_latency (seq (inc inc_errors) (give_up E item (Some err))) (p, w1))
          else (case seq observe_latency (seq (inc inc_errors) (retry_wait E wait a)) (p, w1) of
              (Inl e, pw2) \<Rightarrow> Some (Inl e, pw2)
            | (Inr True, pw2) \<Rightarrow> Some (Inr None, pw2)
            | (Inr False, pw2) \<Rightarrow> generator_loop E G item wait on_item canc as (Some err) pw2))"

definition execute_generator :: "'w policy_env \<Rightarrow> ('w, 'g, 'r) generator \<Rightarrow> message \<Rightarrow> (real \<Rightarrow> ('w, bool) io) option \<Rightarrow>
    ('r \<Rightarrow> ('w, unit) io) option \<Rightarrow> ('w, bool) io option \<Rightarrow> 'w policy_world \<Rightarrow>
    ((exn + 'r list option) \<times> 'w policy_world) option" where
  "execute_generator E G item wait on_item canc pw =
     generator_loop E G item wait on_item canc [0..<attempts_of (config (fst pw))] None pw"

section \<open>The entry point\<close>

text \<open>What the policy is given: \<^verbatim>\<open>inspect.isgeneratorfunction(func)\<close> is the constructor. Its answer is
  \<^verbatim>\<open>None\<close>, what the function returned, or the list of the values a generator yielded.\<close>

datatype ('w, 'g, 'r) process_fun =
    Function "message \<Rightarrow> ('w, 'r option) io"
  | Generator "('w, 'g, 'r) generator"

datatype 'r outcome = Nothing | Value 'r | Values "'r list"

definition value_outcome :: "'r option \<Rightarrow> 'r outcome" where
  "value_outcome r = (case r of None \<Rightarrow> Nothing | Some v \<Rightarrow> Value v)"

definition values_outcome :: "'r list option \<Rightarrow> 'r outcome" where
  "values_outcome r = (case r of None \<Rightarrow> Nothing | Some vs \<Rightarrow> Values vs)"

text \<open>\<^verbatim>\<open>ErrorPolicy.execute\<close>: a generator function goes to \<^verbatim>\<open>_execute_generator\<close>, for any other
  one \<^verbatim>\<open>on_item\<close> and \<^verbatim>\<open>is_cancelled\<close> are ignored. None is a generator that never ends.\<close>

definition execute :: "'w policy_env \<Rightarrow> ('w, 'g, 'r) process_fun \<Rightarrow> message \<Rightarrow> (real \<Rightarrow> ('w, bool) io) option \<Rightarrow>
    ('r \<Rightarrow> ('w, unit) io) option \<Rightarrow> ('w, bool) io option \<Rightarrow> 'w policy_world \<Rightarrow>
    ((exn + 'r outcome) \<times> 'w policy_world) option" where
  "execute E func item wait on_item canc pw = (case func of
      Generator G \<Rightarrow> map_option (\<lambda>(r, pw'). (map_sum (\<lambda>e. e) values_outcome r, pw'))
        (execute_generator E G item wait on_item canc pw)
    | Function f \<Rightarrow> Some (case execute_function E f item wait pw of
        (r, pw') \<Rightarrow> (map_sum (\<lambda>e. e) value_outcome r, pw')))"

end
