(* ===== verification/Error_Policy_Props.thy ===== *)
theory Error_Policy_Props
  imports Error_Policy
begin

text \<open>
  What the error policy promises: the delay bounds, the number of attempts, where every message
  ends in the counters, that a generator's output comes from one attempt only, and that a
  cancelled turn is no error.
\<close>

section \<open>The pieces\<close>

lemma inc_apply [simp]: "inc f (p, w) = (Inr (), (p\<lparr>stats := f (stats p), metrics := f (metrics p)\<rparr>, w))"
  by (simp add: inc_def seq_def bnd_def)

lemma observe_latency_apply [simp]: "observe_latency (p, w) = (Inr (), (p\<lparr>latencies := Suc (latencies p)\<rparr>, w))"
  by (simp add: observe_latency_def)

lemma seq_apply_ok: "m w = (Inr (), w') \<Longrightarrow> seq m k w = k w'"
  by (simp add: seq_def bnd_def)

text \<open>The random source, the sleep, the wait and the sink return, and do not touch \<open>cnt\<close>.\<close>

definition uniform_ok :: "'w policy_env \<Rightarrow> bool" where
  "uniform_ok E \<longleftrightarrow> (\<forall>x w u w'. 0 \<le> x \<longrightarrow> e_uniform E x w = (Inr u, w') \<longrightarrow> 0 \<le> u \<and> u \<le> x)"





section \<open>Where a message ends\<close>

text \<open>Between the policy before and after a message: the counters that moved. The metrics follow
  the statistics.\<close>

definition frame_ok :: "policy \<Rightarrow> policy \<Rightarrow> bool" where
  "frame_ok p p' \<longleftrightarrow> config p' = config p \<and> node_id p' = node_id p \<and> sink p' = sink p \<and>
     (metrics p = stats p \<longrightarrow> metrics p' = stats p')"

definition done_ok :: "policy \<Rightarrow> policy \<Rightarrow> bool" where
  "done_ok p p' \<longleftrightarrow> frame_ok p p' \<and> processed (stats p') = Suc (processed (stats p)) \<and>
     dropped (stats p') = dropped (stats p) \<and> failures (stats p') = failures (stats p) \<and>
     dead_lettered (stats p') = dead_lettered (stats p) \<and>
     errors (stats p') + retries (stats p) = errors (stats p) + retries (stats p')"

text \<open>The dead letter of a message that is given up.\<close>

definition letters :: "policy \<Rightarrow> nat" where
  "letters p = (case sink p of None \<Rightarrow> 0 | Some _ \<Rightarrow> 1)"

text \<open>Dropped: given up after an error without a retry, with its dead letter, or abandoned in the
  backoff of a retry, without one.\<close>

definition done_dropped :: "policy \<Rightarrow> policy \<Rightarrow> bool" where
  "done_dropped p p' \<longleftrightarrow> frame_ok p p' \<and> on_error (config p) \<noteq> FAIL \<and>
     processed (stats p') = processed (stats p) \<and>
     dropped (stats p') = Suc (dropped (stats p)) \<and> failures (stats p') = failures (stats p) \<and>
     errors (stats p) < errors (stats p') \<and>
     ((errors (stats p') + retries (stats p) = Suc (errors (stats p) + retries (stats p')) \<and>
       dead_lettered (stats p') = dead_lettered (stats p) + letters p) \<or>
      (errors (stats p') + retries (stats p) = errors (stats p) + retries (stats p') \<and>
       dead_lettered (stats p') = dead_lettered (stats p)))"

definition done_failed :: "policy \<Rightarrow> policy \<Rightarrow> bool" where
  "done_failed p p' \<longleftrightarrow> frame_ok p p' \<and> on_error (config p) = FAIL \<and>
     processed (stats p') = processed (stats p) \<and> dropped (stats p') = dropped (stats p) \<and>
     failures (stats p') = Suc (failures (stats p)) \<and> errors (stats p') = Suc (errors (stats p)) \<and>
     retries (stats p') = retries (stats p) \<and>
     dead_lettered (stats p') = dead_lettered (stats p) + letters p"

text \<open>An exception went through the policy: no verdict was recorded.\<close>

definition done_escaped :: "policy \<Rightarrow> policy \<Rightarrow> bool" where
  "done_escaped p p' \<longleftrightarrow> frame_ok p p' \<and> processed (stats p') = processed (stats p) \<and>
     dropped (stats p') = dropped (stats p) \<and> failures (stats p') = failures (stats p) \<and>
     dead_lettered (stats p') = dead_lettered (stats p)"

lemmas done_defs = done_ok_def done_dropped_def done_failed_def done_escaped_def frame_ok_def letters_def

text \<open>The exceptions that come from the policy's own calls: the dead-letter sink, the jitter and the
  sleep of a retry.\<close>

definition env_raises :: "'w policy_env \<Rightarrow> message \<Rightarrow> (real \<Rightarrow> ('w, bool) io) option \<Rightarrow> policy \<Rightarrow> exn \<Rightarrow> bool" where
  "env_raises E item wait p e \<longleftrightarrow>
     (\<exists>s err w w'. sink p = Some s \<and> sink_record (e_files E) s (node_id p) item err w = (Inl e, w') \<and> \<not> is_OSError e) \<or>
     on_error (config p) = RETRY \<and>
       (jitter (config p) \<and> (\<exists>x w w'. e_uniform E x w = (Inl e, w')) \<or> (\<exists>x w w'. policy_sleep E x wait w = (Inl e, w')))"

text \<open>The four ends, over what the call may answer and what \<^verbatim>\<open>process()\<close> itself may throw through
  the policy.\<close>

definition ends :: "('x option \<Rightarrow> bool) \<Rightarrow> (exn \<Rightarrow> bool) \<Rightarrow> policy \<Rightarrow> policy \<Rightarrow> exn + 'x option \<Rightarrow> bool" where
  "ends answers throws p p' r \<longleftrightarrow> (\<exists>x. r = Inr x \<and> answers x \<and> done_ok p p') \<or>
     (r = Inr None \<and> done_dropped p p') \<or>
     (r = Inl (NodeFailure ''processing failed'') \<and> done_failed p p') \<or>
     (\<exists>e. r = Inl e \<and> throws e \<and> done_escaped p p')"


section \<open>Attempts\<close>

text \<open>The policy after an attempt was counted as an error, and after its retry was.\<close>

abbreviation errored :: "policy \<Rightarrow> policy" where
  "errored p \<equiv> p\<lparr>latencies := Suc (latencies p), stats := inc_errors (stats p), metrics := inc_errors (metrics p)\<rparr>"

abbreviation succeeded :: "policy \<Rightarrow> policy" where
  "succeeded p \<equiv> p\<lparr>latencies := Suc (latencies p), stats := inc_processed (stats p), metrics := inc_processed (metrics p)\<rparr>"

abbreviation retried :: "policy \<Rightarrow> policy" where
  "retried p \<equiv> p\<lparr>stats := inc_retries (stats p), metrics := inc_retries (metrics p)\<rparr>"

lemma give_up_ends:
  fixes r :: "exn + 'x option"
  assumes "give_up E item err (errored p, w) = (r, (p', w'))"
    and throws: "\<And>e. env_raises E item wait p e \<Longrightarrow> throws e"
  shows "ends answers throws p p' r \<and> errors (stats p') = Suc (errors (stats p)) \<and>
    processed (stats p') = processed (stats p)"
proof (cases "sink p")
  case None
  then show ?thesis
    using assms(1) by (auto simp: give_up_def bnd_def seq_def ends_def done_defs split: if_splits)
next
  case (Some s)
  obtain o1 w1 where rec: "sink_record (e_files E) s (node_id p) item err w = (o1, w1)"
    by (cases "sink_record (e_files E) s (node_id p) item err w") auto
  show ?thesis
  proof (cases o1)
    case (Inl e)
    have "\<not> is_OSError e" using rec [unfolded Inl] by (rule sink_record_raises)
    then have "throws e" using Some rec Inl by (intro throws) (auto simp: env_raises_def)
    then show ?thesis
      using assms(1) Some rec Inl by (auto simp: give_up_def bnd_def seq_def ends_def done_defs)
  next
    case (Inr u)
    then show ?thesis
      using assms(1) Some rec by (auto simp: give_up_def bnd_def seq_def ends_def done_defs split: if_splits)
  qed
qed

lemma retry_wait_ends:
  assumes "retry_wait E wait a (errored p, w) = (res, (p', w'))" and "on_error (config p) = RETRY"
  shows "(\<exists>e. res = Inl e \<and> env_raises E item wait p e \<and> done_escaped p p' \<and> errors (stats p') = Suc (errors (stats p))) \<or>
    (res = Inr True \<and> done_dropped p p' \<and> errors (stats p') = Suc (errors (stats p))) \<or>
    (res = Inr False \<and> p' = retried (errored p))"
proof -
  obtain d w1 where b: "backoff_delay E (config p) a w = (d, w1)" by fastforce
  show ?thesis
  proof (cases d)
    case (Inl e)
    then have "jitter (config p) \<and> (\<exists>x w w'. e_uniform E x w = (Inl e, w'))"
      using b by (auto simp: backoff_delay_def bnd_def split: if_splits prod.splits sum.splits)
    then show ?thesis
      using assms b Inl by (auto simp: retry_wait_def bnd_def env_raises_def done_defs)
  next
    case (Inr delay)
    obtain b2 w2 where s: "policy_sleep E delay wait w1 = (b2, w2)" by fastforce
    show ?thesis
    proof (cases b2)
      case (Inl e)
      then show ?thesis
        using assms b Inr s by (auto simp: retry_wait_def bnd_def seq_def env_raises_def done_defs)
    next
      case stop: (Inr stopping)
      then show ?thesis
        using assms b Inr s by (cases stopping) (auto simp: retry_wait_def bnd_def seq_def done_defs)
    qed
  qed
qed

lemma env_raises_again:
  "p' = retried (errored p) \<Longrightarrow> env_raises E item wait p' = env_raises E item wait p"
  by (rule ext) (simp add: env_raises_def)

lemma ends_retried:
  assumes "ends answers throws p2 p' r" and "p2 = retried (errored p)" and "on_error (config p) = RETRY"
  shows "ends answers throws p p' r"
  using assms by (auto simp: ends_def done_defs)

lemma after_failure_retry:
  "after_failure E item wait a True err continue =
     bnd (retry_wait E wait a) (\<lambda>stopping. if stopping then ret None else continue)"
  by (rule ext) (auto simp: after_failure_def retry_wait_def bnd_def seq_def split: prod.splits sum.splits)

text \<open>The attempts of a function: its answer is one the function gave, what goes through it is no
  subclass of \<^verbatim>\<open>Exception\<close>.\<close>

definition returned :: "(message \<Rightarrow> ('w, 'r) io) \<Rightarrow> message \<Rightarrow> 'r \<Rightarrow> bool" where
  "returned f item v \<longleftrightarrow> (\<exists>w w'. f item w = (Inr v, w'))"

definition thrown :: "(message \<Rightarrow> ('w, 'r) io) \<Rightarrow> message \<Rightarrow> exn \<Rightarrow> bool" where
  "thrown f item e \<longleftrightarrow> \<not> is_Exception e \<and> (\<exists>w w'. f item w = (Inl e, w'))"

lemma attempt_loop_ends:
  assumes "attempt_loop E f item wait as last_error (p, w) = (r, (p', w'))" and "as \<noteq> []"
    and "1 < length as \<longrightarrow> on_error (config p) = RETRY"
  shows "ends (returned f item) (\<lambda>e. thrown f item e \<or> env_raises E item wait p e) p p' r \<and>
    errors (stats p') + processed (stats p') \<le> errors (stats p) + processed (stats p) + length as"
  using assms
proof (induction as arbitrary: last_error p w)
  case (Cons a as)
  obtain o1 w1 where f: "f item w = (o1, w1)" by fastforce
  show ?case
  proof (cases o1)
    case (Inr x)
    then show ?thesis
      using Cons.prems(1) f by (auto simp: bnd_def seq_def try_exn_def ends_def done_defs returned_def)
  next
    case (Inl e)
    show ?thesis
    proof (cases "is_Exception e")
      case False
      then show ?thesis
        using Cons.prems(1) f Inl by (auto simp: bnd_def seq_def try_exn_def ends_def done_defs thrown_def)
    next
      case exn: True
      have step: "after_failure E item wait a (as \<noteq> []) e (attempt_loop E f item wait as (Some e)) (errored p, w1) =
          (r, (p', w'))"
        using Cons.prems(1) f Inl exn by (simp add: bnd_def seq_def try_exn_def)
      show ?thesis
      proof (cases "as = []")
        case True
        then have "give_up E item (Some e) (errored p, w1) = (r, (p', w'))"
          using step by (simp add: after_failure_def)
        from give_up_ends [OF this, where throws = "\<lambda>e. thrown f item e \<or> env_raises E item wait p e"]
        show ?thesis by fastforce
      next
        case False
        then have retry: "on_error (config p) = RETRY" using Cons.prems(3) by (cases as) auto
        obtain b p2 w2 where rw: "retry_wait E wait a (errored p, w1) = (b, (p2, w2))"
          by (metis prod.exhaust)
        have step2: "(case b of Inl x \<Rightarrow> (Inl x, (p2, w2)) | Inr stopping \<Rightarrow>
            (if stopping then ret None else attempt_loop E f item wait as (Some e)) (p2, w2)) = (r, (p', w'))"
          using step False rw by (simp add: after_failure_retry bnd_def split: sum.splits)
        consider (raised) x where "b = Inl x" "env_raises E item wait p x" "done_escaped p p2"
              "errors (stats p2) = Suc (errors (stats p))"
          | (stopped) "b = Inr True" "done_dropped p p2" "errors (stats p2) = Suc (errors (stats p))"
          | (again) "b = Inr False" "p2 = retried (errored p)"
          using retry_wait_ends [OF rw retry, of item] by blast
        then show ?thesis
        proof cases
          case raised
          then show ?thesis using step2 by (auto simp: ends_def done_escaped_def)
        next
          case stopped
          then show ?thesis using step2 by (auto simp: ends_def done_dropped_def)
        next
          case again
          then have run: "attempt_loop E f item wait as (Some e) (p2, w2) = (r, (p', w'))" using step2 by simp
          from again(2) have env: "env_raises E item wait p2 = env_raises E item wait p" by (rule env_raises_again)
          have ih: "ends (returned f item) (\<lambda>e. thrown f item e \<or> env_raises E item wait p e) p2 p' r \<and>
              errors (stats p') + processed (stats p') \<le> errors (stats p2) + processed (stats p2) + length as"
            using Cons.IH [OF run False, unfolded env] again(2) retry by simp
          have "ends (returned f item) (\<lambda>e. thrown f item e \<or> env_raises E item wait p e) p p' r"
            by (rule ends_retried [OF conjunct1 [OF ih] again(2) retry])
          then show ?thesis using ih again(2) by simp
        qed
      qed
    qed
  qed
qed simp

text \<open>The calls: \<open>cnt\<close> is what the function counts and nothing else touches.\<close>

definition env_keeps :: "'w policy_env \<Rightarrow> message \<Rightarrow> (real \<Rightarrow> ('w, bool) io) option \<Rightarrow> ('w \<Rightarrow> 'c) \<Rightarrow> bool" where
  "env_keeps E item wait cnt \<longleftrightarrow>
     (\<forall>x w. cnt (snd (e_uniform E x w)) = cnt w) \<and> (\<forall>x w. cnt (snd (policy_sleep E x wait w)) = cnt w) \<and>
     (\<forall>s n e w. cnt (snd (sink_record (e_files E) s n item e w)) = cnt w)"

definition counts_calls :: "(message \<Rightarrow> ('w, 'r) io) \<Rightarrow> message \<Rightarrow> ('w \<Rightarrow> nat) \<Rightarrow> bool" where
  "counts_calls f item cnt \<longleftrightarrow> (\<forall>w. cnt (snd (f item w)) = Suc (cnt w))"

lemma retry_wait_keeps:
  assumes "env_keeps E item wait cnt" and "retry_wait E wait a (p, w) = (b, (p', w'))"
  shows "cnt w' = cnt w"
proof -
  obtain d w1 where b: "backoff_delay E (config p) a w = (d, w1)" by fastforce
  have "cnt w1 = cnt w"
  proof (cases "jitter (config p)")
    case True
    obtain u w2 where u: "e_uniform E (base_delay (config p) a / 2) w = (u, w2)" by fastforce
    then have "cnt w2 = cnt w" using assms(1) unfolding env_keeps_def by (metis snd_conv)
    then show ?thesis using b True u by (auto simp: backoff_delay_def bnd_def split: sum.splits)
  qed (use b in \<open>simp add: backoff_delay_def\<close>)
  moreover have "cnt (snd (policy_sleep E x wait v)) = cnt v" for x v
    using assms(1) by (simp add: env_keeps_def)
  ultimately show ?thesis
    using assms(2) b by (cases d) (auto simp: retry_wait_def bnd_def seq_def split: prod.splits sum.splits if_splits)
qed

lemma give_up_keeps:
  assumes "env_keeps E item wait cnt" and "give_up E item err (p, w) = (r, (p', w'))"
  shows "cnt w' = cnt w"
proof (cases "sink p")
  case (Some s)
  obtain o1 w1 where rec: "sink_record (e_files E) s (node_id p) item err w = (o1, w1)" by fastforce
  then have "cnt w1 = cnt w" using assms(1) unfolding env_keeps_def by (metis snd_conv)
  then show ?thesis
    using assms(2) Some rec by (cases o1) (auto simp: give_up_def bnd_def seq_def split: if_splits)
qed (use assms(2) in \<open>auto simp: give_up_def bnd_def seq_def split: if_splits\<close>)

text \<open>What the counters say of the number of calls \<open>k\<close>.\<close>

definition call_count :: "policy \<Rightarrow> policy \<Rightarrow> exn + 'x \<Rightarrow> nat \<Rightarrow> bool" where
  "call_count p p' r k \<longleftrightarrow> 
     k + errors (stats p) + processed (stats p) = errors (stats p') + processed (stats p') \<or>
     (\<exists>e. r = Inl e \<and> \<not> is_Exception e \<and>
        k + errors (stats p) + processed (stats p) = Suc (errors (stats p') + processed (stats p')))"

lemma give_up_stats:
  assumes "give_up E item err (p, w) = (r, (p', w'))"
  shows "errors (stats p') = errors (stats p) \<and> processed (stats p') = processed (stats p)"
proof (cases "sink p")
  case (Some s)
  obtain o1 w1 where "sink_record (e_files E) s (node_id p) item err w = (o1, w1)" by fastforce
  then show ?thesis
    using assms Some by (cases o1) (auto simp: give_up_def bnd_def seq_def split: if_splits)
qed (use assms in \<open>auto simp: give_up_def bnd_def seq_def split: if_splits\<close>)

lemma retry_wait_stats:
  "retry_wait E wait a (p, w) = (b, (p', w')) \<Longrightarrow>
    errors (stats p') = errors (stats p) \<and> processed (stats p') = processed (stats p)"
  by (auto simp: retry_wait_def bnd_def seq_def split: prod.splits sum.splits if_splits)

lemma attempt_loop_calls:
  assumes keeps: "env_keeps E item wait cnt" and calls: "counts_calls f item cnt"
    and "attempt_loop E f item wait as last_error (p, w) = (r, (p', w'))" and "as \<noteq> []"
  shows "\<exists>k. cnt w' = cnt w + k \<and> 1 \<le> k \<and> k \<le> length as \<and> call_count p p' r k"
  using assms(3,4)
proof (induction as arbitrary: last_error p w)
  case (Cons a as)
  obtain o1 w1 where f: "f item w = (o1, w1)" by fastforce
  then have c1: "cnt w1 = Suc (cnt w)" using calls unfolding counts_calls_def by (metis snd_conv)
  have one: ?case if "cnt w' = cnt w1" "call_count p p' r 1"
    using that c1 by (intro exI [of _ 1]) simp
  show ?case
  proof (cases "\<exists>e. o1 = Inl e \<and> is_Exception e")
    case False
    then have "cnt w' = cnt w1 \<and> call_count p p' r 1"
      using Cons.prems(1) f by (cases o1) (auto simp: bnd_def seq_def try_exn_def call_count_def)
    then show ?thesis using one by blast
  next
    case True
    then obtain e where e: "o1 = Inl e" "is_Exception e" by blast
    have step: "after_failure E item wait a (as \<noteq> []) e (attempt_loop E f item wait as (Some e)) (errored p, w1) =
        (r, (p', w'))"
      using Cons.prems(1) f e by (simp add: bnd_def seq_def try_exn_def)
    show ?thesis
    proof (cases "as = []")
      case True
      then have g: "give_up E item (Some e) (errored p, w1) = (r, (p', w'))"
        using step by (simp add: after_failure_def)
      show ?thesis
        using give_up_keeps [OF keeps g] give_up_stats [OF g] by (intro one) (simp_all add: call_count_def)
    next
      case False
      obtain b p2 w2 where rw: "retry_wait E wait a (errored p, w1) = (b, (p2, w2))"
        by (metis prod.exhaust)
      have c2: "cnt w2 = cnt w1" by (rule retry_wait_keeps [OF keeps rw])
      have s2: "errors (stats p2) = Suc (errors (stats p))" "processed (stats p2) = processed (stats p)"
        using retry_wait_stats [OF rw] by simp_all
      have step2: "(case b of Inl x \<Rightarrow> (Inl x, (p2, w2)) | Inr stopping \<Rightarrow>
          (if stopping then ret None else attempt_loop E f item wait as (Some e)) (p2, w2)) = (r, (p', w'))"
        using step False rw by (simp add: after_failure_retry bnd_def split: sum.splits)
      show ?thesis
      proof (cases "b = Inr False")
        case True
        then have "attempt_loop E f item wait as (Some e) (p2, w2) = (r, (p', w'))" using step2 by simp
        from Cons.IH [OF this False] obtain k where
          k: "cnt w' = cnt w2 + k" "1 \<le> k" "k \<le> length as" "call_count p2 p' r k" by blast
        then show ?thesis using c1 c2 s2 by (intro exI [of _ "Suc k"]) (auto simp: call_count_def)
      next
        case stop: False
        then have "p' = p2 \<and> w' = w2" using step2 by (auto split: sum.splits if_splits)
        then show ?thesis using c2 s2 by (intro one) (simp_all add: call_count_def)
      qed
    qed
  qed
qed simp

section \<open>Generators\<close>



text \<open>The body of the loop, over the call it continues with.\<close>

definition drain_body where
  "drain_body rec G on_item is_cancelled g n acc w =
     (case (case is_cancelled of None \<Rightarrow> (Inr False, w) | Some c \<Rightarrow> c w) of
        (Inl e, w1) \<Rightarrow> Some ((drain_exn e, n, acc), w1)
      | (Inr stop, w1) \<Rightarrow>
          if stop then
            (case gen_close G g w1 of
               (Inl e, w2) \<Rightarrow> Some ((drain_exn e, n, acc), w2)
             | (Inr _, w2) \<Rightarrow> Some ((Cancelled, n, acc), w2))
          else
            (case gen_next G g w1 of
               (Inl e, w2) \<Rightarrow> Some ((drain_exn e, n, acc), w2)
             | (Inr None, w2) \<Rightarrow> Some ((Exhausted, n, acc), w2)
             | (Inr (Some (v, g')), w2) \<Rightarrow>
                 (case on_item of
                    None \<Rightarrow> rec G on_item is_cancelled g' (Suc n) (acc @ [v]) w2
                  | Some f \<Rightarrow> (case f v w2 of
                        (Inl e, w3) \<Rightarrow> Some ((drain_exn e, Suc n, acc), w3)
                      | (Inr _, w3) \<Rightarrow> rec G on_item is_cancelled g' (Suc n) acc w3))))"



lemma drain_escapes_raw:
  fixes G :: "('w, 'g, 'r) generator"
  assumes "drain G on_item canc g n acc w = Some res"
  shows "fst (fst res) = Escaped e \<longrightarrow> \<not> is_Exception e"
proof (rule drain.raw_induct [rotated, folded drain_body_def, OF assms(1)], intro impI)
  fix dr :: "('w, 'g, 'r) generator \<Rightarrow> ('r \<Rightarrow> ('w, unit) io) option \<Rightarrow> ('w, bool) io option \<Rightarrow> 'g \<Rightarrow> nat \<Rightarrow>
    'r list \<Rightarrow> 'w \<Rightarrow> ((drain_end \<times> nat \<times> 'r list) \<times> 'w) option"
  fix G :: "('w, 'g, 'r) generator" and on_item canc g n acc w res
  assume IH: "\<And>G on_item canc g n acc w res. dr G on_item canc g n acc w = Some res \<Longrightarrow>
      fst (fst res) = Escaped e \<longrightarrow> \<not> is_Exception e"
    and body: "drain_body dr G on_item canc g n acc w = Some res" and "fst (fst res) = Escaped e"
  then show "\<not> is_Exception e"
    unfolding drain_body_def
    by (auto simp: drain_exn_def split: prod.splits sum.splits option.splits if_splits)
qed

lemma drain_escapes:
  "drain G on_item canc g n acc w = Some ((Escaped e, m, acc'), w') \<Longrightarrow> \<not> is_Exception e"
  using drain_escapes_raw [of G on_item canc g n acc w "((Escaped e, m, acc'), w')" e] by simp

text \<open>The attempts of a generator: its answer is what a drain to the end, or to a cancellation,
  makes of the values.\<close>

definition drained :: "('w, 'g, 'r) generator \<Rightarrow> ('r \<Rightarrow> ('w, unit) io) option \<Rightarrow> ('w, bool) io option \<Rightarrow>
    message \<Rightarrow> 'r list option \<Rightarrow> bool" where
  "drained G on_item canc item v \<longleftrightarrow> (\<exists>w d n acc w'. drain G on_item canc (gen_start G item) 0 [] w =
     Some ((d, n, acc), w') \<and> (d = Exhausted \<or> d = Cancelled) \<and> v = drain_result on_item acc)"

definition drain_throws :: "('w, 'g, 'r) generator \<Rightarrow> ('r \<Rightarrow> ('w, unit) io) option \<Rightarrow> ('w, bool) io option \<Rightarrow>
    message \<Rightarrow> exn \<Rightarrow> bool" where
  "drain_throws G on_item canc item e \<longleftrightarrow> \<not> is_Exception e \<and>
     (\<exists>w n acc w'. drain G on_item canc (gen_start G item) 0 [] w = Some ((Escaped e, n, acc), w'))"

lemma generator_loop_ends:
  assumes "generator_loop E G item wait on_item canc as last_error (p, w) = Some (r, (p', w'))" and "as \<noteq> []"
    and "1 < length as \<longrightarrow> on_error (config p) = RETRY"
  shows "ends (drained G on_item canc item)
      (\<lambda>e. drain_throws G on_item canc item e \<or> env_raises E item wait p e) p p' r \<and>
    errors (stats p') + processed (stats p') \<le> errors (stats p) + processed (stats p) + length as"
  using assms
proof (induction as arbitrary: last_error p w)
  case (Cons a as)
  let ?throws = "\<lambda>e. drain_throws G on_item canc item e \<or> env_raises E item wait p e"
  from Cons.prems(1) obtain d n acc w1 where
    d: "drain G on_item canc (gen_start G item) 0 [] w = Some ((d, n, acc), w1)"
    by (auto split: option.splits prod.splits)
  note unfold = Cons.prems(1) d
  show ?case
  proof (cases d)
    case (Escaped e)
    then show ?thesis
      using unfold drain_escapes d by (fastforce simp: ends_def done_defs drain_throws_def)
  next
    case (Failed err)
    show ?thesis
    proof (cases "0 < n \<or> as = []")
      case True
      then have "give_up E item (Some err) (errored p, w1) = (r, (p', w'))"
        using unfold Failed by (auto simp: seq_apply_ok split: if_splits)
      from give_up_ends [OF this, where throws = ?throws] show ?thesis by fastforce
    next
      case False
      then have retry: "on_error (config p) = RETRY" using Cons.prems(3) by (cases as) auto
      obtain b p2 w2 where rw: "retry_wait E wait a (errored p, w1) = (b, (p2, w2))"
        by (metis prod.exhaust)
      then have "seq observe_latency (seq (inc inc_errors) (retry_wait E wait a)) (p, w1) = (b, (p2, w2))"
        by (simp add: seq_apply_ok)
      then have step: "(case b of Inl e \<Rightarrow> Some (Inl e, (p2, w2)) | Inr True \<Rightarrow> Some (Inr None, (p2, w2))
          | Inr False \<Rightarrow> generator_loop E G item wait on_item canc as (Some err) (p2, w2)) = Some (r, (p', w'))"
        using unfold Failed False by (auto split: sum.splits bool.splits)
      consider (raised) x where "b = Inl x" "env_raises E item wait p x" "done_escaped p p2"
            "errors (stats p2) = Suc (errors (stats p))"
        | (stopped) "b = Inr True" "done_dropped p p2" "errors (stats p2) = Suc (errors (stats p))"
        | (again) "b = Inr False" "p2 = retried (errored p)"
        using retry_wait_ends [OF rw retry, of item] by blast
      then show ?thesis
      proof cases
        case raised
        then show ?thesis using step by (auto simp: ends_def done_escaped_def)
      next
        case stopped
        then show ?thesis using step by (auto simp: ends_def done_dropped_def)
      next
        case again
        then have run: "generator_loop E G item wait on_item canc as (Some err) (p2, w2) = Some (r, (p', w'))"
          using step by simp
        from again(2) have env: "env_raises E item wait p2 = env_raises E item wait p" by (rule env_raises_again)
        have ih: "ends (drained G on_item canc item) ?throws p2 p' r \<and>
            errors (stats p') + processed (stats p') \<le> errors (stats p2) + processed (stats p2) + length as"
          using Cons.IH [OF run, unfolded env] False again(2) retry by simp
        have "ends (drained G on_item canc item) ?throws p p' r"
          by (rule ends_retried [OF conjunct1 [OF ih] again(2) retry])
        then show ?thesis using ih again(2) by simp
      qed
    qed
  next
    case Exhausted
    then have "r = Inr (drain_result on_item acc)" "p' = succeeded p"
      using unfold by (simp_all add: seq_apply_ok)
    moreover have "drained G on_item canc item (drain_result on_item acc)"
      using d Exhausted unfolding drained_def by blast
    ultimately show ?thesis by (simp add: ends_def done_defs)
  next
    case Cancelled
    then have "r = Inr (drain_result on_item acc)" "p' = succeeded p"
      using unfold by (simp_all add: seq_apply_ok)
    moreover have "drained G on_item canc item (drain_result on_item acc)"
      using d Cancelled unfolding drained_def by blast
    ultimately show ?thesis by (simp add: ends_def done_defs)
  qed
qed simp






section \<open>Properties\<close>

lemma attempts_of_pos: "policy_fields_ok c \<Longrightarrow> 0 < attempts_of c"
  by (simp add: attempts_of_def policy_fields_ok_def)

lemma attempts_of_fail: "on_error c = FAIL \<Longrightarrow> attempts_of c = 1"
  by (simp add: attempts_of_def)

text \<open>A closed instance: the world counts calls; the function raises on its first \<open>k\<close> calls.\<close>

definition count_files :: "nat files" where
  "count_files = \<lparr>f_time = (\<lambda>w. (Inr 0, w)), f_mkdir = (\<lambda>_ w. (Inr (), w)),
     f_append_line = (\<lambda>p j w. (Inr (), w)), f_pickle = (\<lambda>_ _ w. (Inr (), w)),
     f_exn_str = (\<lambda>_. []), f_traceback = (\<lambda>_. []), f_stamp = (\<lambda>_. ''0.000000'')\<rparr>"

definition count_env :: "nat policy_env" where
  "count_env = \<lparr>e_files = count_files, e_uniform = (\<lambda>x w. (Inr 0, w)), e_sleep = (\<lambda>_ w. (Inr (), w))\<rparr>"

definition flaky :: "nat \<Rightarrow> message \<Rightarrow> (nat, string option) io" where
  "flaky k m = (\<lambda>w. (if w < k then Inl (ValueError ''busy'') else Inr (Some ''ok''), Suc w))"

lemma flaky_counted: "counts_calls (flaky k) m (\<lambda>w. w)"
  by (simp add: counts_calls_def flaky_def)

definition demo_text :: message where
  "demo_text = TextChunk (new_envelope 0) \<lparr>chunk_text = ''hi'', language = None\<rparr>"

definition retry_config :: error_policy_config where
  "retry_config = default_policy_config\<lparr>on_error := RETRY, max_retries := 2\<rparr>"

text \<open>C5: Whenever \<^verbatim>\<open>ErrorPolicy.execute\<close> returns or raises, for a plain or a generator
  \<^verbatim>\<open>process()\<close>, one of four things happened, and the counters say which. (1) Processed: the answer is
  what a call of \<^verbatim>\<open>process()\<close> returned or yielded. (2) Dropped after an error: given up, with a dead
  letter if there is a sink, or abandoned in a backoff. (3) \<^verbatim>\<open>NodeFailure\<close>, under the fail policy only,
  after one error and no retry. (4) An exception escaped and no verdict was counted: a
  non-\<^verbatim>\<open>Exception\<close> of \<^verbatim>\<open>process()\<close>, or one of the policy's own calls, namely the dead-letter sink (no
  \<^verbatim>\<open>OSError\<close>) or, under retry, the jitter or the wait. Errors plus successes are at most the attempts;
  the metrics follow the statistics. For a plain function, and a call counter that the policy's
  environment leaves alone, the calls are at least one and are the errors plus the successes (plus
  one when a non-\<^verbatim>\<open>Exception\<close> escaped).\<close>

theorem execute_ends_once:
  assumes "policy_fields_ok (config p)"
    and "execute E func item wait on_item canc (p, w) = Some (r, (p', w'))"
  shows "((\<exists>x. r = Inr x \<and> done_ok p p' \<and> (case func of
          Function f \<Rightarrow> \<exists>v. x = value_outcome v \<and> returned f item v
        | Generator G \<Rightarrow> \<exists>v. x = values_outcome v \<and> drained G on_item canc item v)) \<or>
      (r = Inr Nothing \<and> done_dropped p p') \<or>
      (r = Inl (NodeFailure ''processing failed'') \<and> done_failed p p') \<or>
      (\<exists>e. r = Inl e \<and> done_escaped p p' \<and> (env_raises E item wait p e \<or> (case func of
          Function f \<Rightarrow> thrown f item e
        | Generator G \<Rightarrow> drain_throws G on_item canc item e)))) \<and>
    errors (stats p') + processed (stats p') \<le> errors (stats p) + processed (stats p) + attempts_of (config p) \<and>
    (\<forall>f. func = Function f \<and> env_keeps E item wait cnt \<and> counts_calls f item cnt \<longrightarrow>
      (\<exists>k. cnt w' = cnt w + k \<and> 1 \<le> k \<and> k \<le> attempts_of (config p) \<and> call_count p p' r k))"
proof -
  have as: "[0..<attempts_of (config p)] \<noteq> []" using attempts_of_pos [OF assms(1)] by simp
  have one: "1 < length [0..<attempts_of (config p)] \<longrightarrow> on_error (config p) = RETRY"
    by (simp add: attempts_of_def)
  show ?thesis
  proof (cases func)
    case (Function f)
    obtain r0 where l: "attempt_loop E f item wait [0..<attempts_of (config p)] None (p, w) = (r0, (p', w'))"
      and r: "r = map_sum (\<lambda>e. e) value_outcome r0"
      using assms(2) Function by (auto simp: execute_def execute_function_def bnd_def split: prod.splits)
    show ?thesis
      using attempt_loop_ends [OF l as one] attempt_loop_calls [OF _ _ l as, of cnt] Function
      by (cases r0) (auto simp: r call_count_def ends_def value_outcome_def)
  next
    case (Generator G)
    obtain r0 where l: "generator_loop E G item wait on_item canc [0..<attempts_of (config p)] None (p, w) =
        Some (r0, (p', w'))" and r: "r = map_sum (\<lambda>e. e) values_outcome r0"
      using assms(2) Generator by (auto simp: execute_def execute_generator_def split: prod.splits)
    show ?thesis
      using generator_loop_ends [OF l as one] Generator
      by (cases r0) (auto simp: r ends_def values_outcome_def)
  qed
qed

lemma upt_3: "[0..<3] = [0, 1, 2::nat]"
  by (simp add: upt_rec)

lemma count_env_keeps: "env_keeps count_env item None (\<lambda>w. w)"
  by (simp add: env_keeps_def count_env_def policy_sleep_def sink_record_def sink_store_payload_def
      build_entry_def count_files_def catch_exn_def seq_def bnd_def)

theorem execute_ends_once_witness:
  "\<exists>p' w'. execute count_env (Function (flaky 2) :: (nat, unit, string) process_fun) demo_text None None None
      (new_policy retry_config ''n'', 0) = Some (Inr (Value ''ok''), (p', w')) \<and>
    w' = 3 \<and> retries (stats p') = 2 \<and> errors (stats p') = 2"
proof -
  obtain r p' w' where e: "execute count_env (Function (flaky 2) :: (nat, unit, string) process_fun) demo_text None None None
      (new_policy retry_config ''n'', 0) = Some (r, (p', w'))"
    unfolding execute_def process_fun.case by (metis prod.exhaust)
  have ok: "policy_fields_ok (config (new_policy retry_config ''n''))"
    by (simp add: new_policy_def retry_config_def default_policy_config_def policy_fields_ok_def)
  have run: "r = Inr (Value ''ok'')" "w' = 3" "retries (stats p') = 2"
    using e by (simp_all add: execute_def execute_function_def bnd_def new_policy_def retry_config_def
        default_policy_config_def attempts_of_def upt_3 try_exn_def flaky_def seq_def after_failure_def
        backoff_delay_def count_env_def policy_sleep_def zero_stats_def value_outcome_def split: if_splits) auto
  show ?thesis
    using execute_ends_once [OF ok e, of "\<lambda>w. w"] count_env_keeps flaky_counted run e
    by (auto simp: done_defs new_policy_def zero_stats_def)
qed

text \<open>The delay before a retry is positive, never above \<^verbatim>\<open>max_backoff\<close> and never below half of
  \<^verbatim>\<open>initial_backoff\<close>, with or without jitter, whatever the attempt; without jitter it does not
  decrease from one attempt to the next.\<close>

theorem backoff_bounds:
  assumes "policy_fields_ok c" and "policy_consistent c" and "uniform_ok E"
    and "backoff_delay E c a w = (Inr d, w')"
  shows "initial_backoff c / 2 \<le> d \<and> 0 < d \<and> d \<le> max_backoff c \<and> base_delay c a \<le> base_delay c (Suc a)"
proof -
  have pos: "0 < initial_backoff c" "1 \<le> backoff_multiplier c" "initial_backoff c \<le> max_backoff c"
    using assms(1,2) by (auto simp: policy_fields_ok_def policy_consistent_def split: if_splits)
  have "1 \<le> backoff_multiplier c ^ a" using pos(2) by (rule one_le_power)
  then have grow: "initial_backoff c \<le> initial_backoff c * backoff_multiplier c ^ a"
    using pos(1) by (simp add: mult_le_cancel_left1)
  then have base: "initial_backoff c \<le> base_delay c a" "base_delay c a \<le> max_backoff c"
    using pos(3) by (auto simp: base_delay_def)
  have "initial_backoff c * backoff_multiplier c ^ a \<le> initial_backoff c * backoff_multiplier c ^ Suc a"
    using pos by (intro mult_left_mono power_increasing) auto
  then have mono: "base_delay c a \<le> base_delay c (Suc a)"
    by (auto simp: base_delay_def)
  have "base_delay c a / 2 \<le> d \<and> d \<le> base_delay c a"
  proof (cases "jitter c")
    case True
    then obtain u where u: "e_uniform E (base_delay c a / 2) w = (Inr u, w')" "d = base_delay c a / 2 + u"
      using assms(4) by (auto simp: backoff_delay_def bnd_def split: prod.splits sum.splits)
    have "0 \<le> base_delay c a / 2" using base(1) pos(1) by simp
    then have "0 \<le> u \<and> u \<le> base_delay c a / 2"
      using assms(3) u(1) unfolding uniform_ok_def by blast
    then show ?thesis using u(2) by simp
  next
    case False
    then have "d = base_delay c a" using assms(4) by (simp add: backoff_delay_def)
    then show ?thesis using base(1) pos(1) by simp
  qed
  then show ?thesis using base mono pos(1) by linarith
qed

theorem backoff_bounds_witness:
  "uniform_ok count_env \<and> backoff_delay count_env retry_config 3 0 = (Inr (2/5), 0) \<and>
   (1/20 :: real) \<le> 2/5 \<and> (2/5 :: real) \<le> 5"
proof -
  have u: "uniform_ok count_env" by (simp add: uniform_ok_def count_env_def)
  have d: "backoff_delay count_env retry_config 3 0 = (Inr (2/5), 0)"
    by (simp add: backoff_delay_def base_delay_def count_env_def retry_config_def default_policy_config_def
        bnd_def)
  have c: "policy_fields_ok retry_config" "policy_consistent retry_config"
    by (simp_all add: retry_config_def default_policy_config_def policy_fields_ok_def policy_consistent_def)
  show ?thesis using backoff_bounds [OF c u d] u d
    by (simp add: retry_config_def default_policy_config_def)
qed


text \<open>The instance: the world is the number of failed attempts left and the output; an attempt
  fails at its start while any are left, then yields twice.\<close>

definition two_gen :: "(nat \<times> string list, nat, string) generator" where
  "two_gen = \<lparr>gen_start = (\<lambda>_. 0),
     gen_next = (\<lambda>g (k, o'). if 0 < k then (Inl (ValueError ''busy''), (k - 1, o'))
        else if g < 2 then (Inr (Some (if g = 0 then ''a'' else ''b'', Suc g)), (k, o')) else (Inr None, (k, o'))),
     gen_close = (\<lambda>_ w. (Inr (), w))\<rparr>"

definition emit :: "string \<Rightarrow> (nat \<times> string list, unit) io" where
  "emit v = (\<lambda>(k, o'). (Inr (), (k, o' @ [v])))"

definition pair_env :: "(nat \<times> string list) policy_env" where
  "pair_env = \<lparr>e_files = \<lparr>f_time = (\<lambda>w. (Inr 0, w)), f_mkdir = (\<lambda>_ w. (Inr (), w)),
       f_append_line = (\<lambda>p j w. (Inr (), w)), f_pickle = (\<lambda>_ _ w. (Inr (), w)),
       f_exn_str = (\<lambda>_. []), f_traceback = (\<lambda>_. []), f_stamp = (\<lambda>_. [])\<rparr>,
     e_uniform = (\<lambda>x w. (Inr 0, w)), e_sleep = (\<lambda>_ w. (Inr (), w))\<rparr>"





text \<open>A cancelled turn is not an error, under any policy: when the cancellation test is true
  before the first value, the generator is closed, nothing is delivered, the message counts as
  processed, and no error, drop, dead letter or failure is recorded.\<close>

theorem cancelled_is_processed:
  assumes "policy_fields_ok (config p)" and "c w = (Inr True, w1)"
    and "gen_close G (gen_start G item) w1 = (Inr (), w2)"
  shows "execute_generator E G item wait (Some f) (Some c) (p, w) =
    Some (Inr None, (p\<lparr>latencies := Suc (latencies p), stats := inc_processed (stats p),
                       metrics := inc_processed (metrics p)\<rparr>, w2))"
proof -
  obtain as where as: "[0..<attempts_of (config p)] = 0 # as"
    using attempts_of_pos [OF assms(1)] by (simp add: upt_conv_Cons)
  have "drain G (Some f) (Some c) (gen_start G item) 0 [] w = Some ((Cancelled, 0, []), w2)"
    by (subst drain.simps) (simp add: assms(2,3))
  then show ?thesis
    by (simp add: execute_generator_def as seq_apply_ok drain_result_def)
qed

theorem cancelled_is_processed_witness:
  "execute_generator pair_env two_gen demo_text None (Some emit) (Some (\<lambda>w. (Inr True, w)))
     (new_policy (retry_config\<lparr>on_error := FAIL\<rparr>) ''n'', (1, [])) =
   Some (Inr None, ((new_policy (retry_config\<lparr>on_error := FAIL\<rparr>) ''n'')
     \<lparr>latencies := 1, stats := inc_processed zero_stats, metrics := inc_processed zero_stats\<rparr>, (1, [])))"
  using cancelled_is_processed [of "new_policy (retry_config\<lparr>on_error := FAIL\<rparr>) ''n''" "\<lambda>w. (Inr True, w)"
      "(1, [])" "(1, [])" two_gen demo_text "(1, [])" pair_env None emit]
  by (simp add: new_policy_def retry_config_def default_policy_config_def policy_fields_ok_def two_gen_def)

text \<open>The skip policy does not protect a node from its own dead-letter file: when writing the
  record raises something else than an \<^verbatim>\<open>OSError\<close>, such as a \<^verbatim>\<open>ValueError\<close> of the
  encoder, that exception leaves \<^verbatim>\<open>execute\<close>, and the message is counted neither as dropped nor
  as dead-lettered.\<close>

theorem dead_letter_error_escapes:
  assumes "on_error (config p) = SKIP" and "sink p = Some s"
    and "func item w = (Inl err, w1)" and "is_Exception err"
    and "sink_record (e_files E) s (node_id p) item (Some err) w1 = (Inl e, w2)"
  shows "\<exists>p'. execute E (Function func) item wait on_item canc (p, w) = Some (Inl e, (p', w2)) \<and> \<not> is_OSError e \<and>
    dropped (stats p') = dropped (stats p) \<and> dead_lettered (stats p') = dead_lettered (stats p) \<and>
    processed (stats p') = processed (stats p)"
proof -
  have "attempts_of (config p) = 1" using assms(1) by (simp add: attempts_of_def)
  then have as: "[0..<attempts_of (config p)] = [0]" by simp
  have "\<not> is_OSError e" by (rule sink_record_raises [OF assms(5)])
  then show ?thesis
    using assms(2-5)
    by (simp add: execute_def execute_function_def bnd_def as try_exn_def seq_def after_failure_def give_up_def)
qed

definition bad_files :: "nat files" where
  "bad_files = count_files\<lparr>f_append_line := (\<lambda>_ _ w. (Inl (ValueError ''surrogates not allowed''), w))\<rparr>"

definition letter_config :: error_policy_config where
  "letter_config = default_policy_config\<lparr>dead_letter_dir := Some ''/var/dead''\<rparr>"

theorem dead_letter_error_escapes_witness:
  "\<exists>p'. execute (count_env\<lparr>e_files := bad_files\<rparr>) (Function (flaky 1) :: (nat, unit, string) process_fun) demo_text
      None None None (new_policy letter_config ''n'', 0) =
     Some (Inl (ValueError ''surrogates not allowed''), (p', 1)) \<and> dropped (stats p') = 0"
proof -
  let ?p = "new_policy letter_config ''n''"
  let ?E = "count_env\<lparr>e_files := bad_files\<rparr>"
  have s: "sink ?p = Some (new_sink ''/var/dead'' False)"
    and a: "on_error (config ?p) = SKIP" and z: "dropped (stats ?p) = 0"
    by (simp_all add: new_policy_def letter_config_def default_policy_config_def zero_stats_def)
  have f: "flaky 1 demo_text 0 = (Inl (ValueError ''busy''), 1)" by (simp add: flaky_def)
  have r: "sink_record (e_files ?E) (new_sink ''/var/dead'' False) (node_id ?p) demo_text (Some (ValueError ''busy'')) 1 =
      (Inl (ValueError ''surrogates not allowed''), 1)"
    by (simp add: sink_record_def new_sink_def build_entry_def count_env_def bad_files_def count_files_def
        catch_exn_def seq_def bnd_def)
  have e: "is_Exception (ValueError ''busy'')" by simp
  show ?thesis
    using dead_letter_error_escapes [where wait = None and on_item = None and canc = None and E = ?E and func = "flaky 1" and item = demo_text,
        OF a s f e r] z by auto
qed

end
