(* ===== verification/Node.thy ===== *)
theory Node
  imports Error_Policy_Props
begin

text \<open>
  \<^verbatim>\<open>neudc/core/base/base_node.py\<close> and \<^verbatim>\<open>base_thread.py\<close>: the run loop of a node. The state of a
  node stands beside the world, so \<^verbatim>\<open>process()\<close>, the send callback and the error policy all run
  over the pair; the mailbox is given by its calls. A turn of a loop is None when the
  \<^verbatim>\<open>process()\<close> generator of the node never ends.
\<close>

section \<open>State\<close>

record node =
  is_running :: bool
  nd_id :: string
  is_ready :: bool
  stop_flag :: bool         \<comment> \<open>\<^verbatim>\<open>_stop_event\<close>\<close>
  failed_flag :: bool       \<comment> \<open>\<^verbatim>\<open>_failed_event\<close>\<close>
  thread_started :: bool
  health_gauge :: "nat option"

definition new_node :: "string \<Rightarrow> node" where
  "new_node i = \<lparr>is_running = False, nd_id = i, is_ready = False, stop_flag = False, failed_flag = False,
     thread_started = False, health_gauge = None\<rparr>"

text \<open>The mailbox as the node calls it; \<open>m_is_cancelled\<close> is None for a mailbox without the method.\<close>

record 'w mailbox_if =
  m_receive :: "('w, message option) io"
  m_send :: "outgoing \<Rightarrow> ('w, unit) io"
  m_is_cancelled :: "(string option \<Rightarrow> int option \<Rightarrow> ('w, bool) io) option"
  m_stop :: "('w, unit) io"

type_synonym ('e, 'w) node_world = "'e node_scheme \<times> 'w"

text \<open>\<^verbatim>\<open>process()\<close> of a node class, a function or a generator function of outgoing data.\<close>

type_synonym ('v, 'g) processing = "('v, 'g, outgoing) process_fun"

section \<open>One message\<close>

definition node_is_cancelled :: "'w mailbox_if \<Rightarrow> string option \<Rightarrow> int option \<Rightarrow> (('e, 'w) node_world, bool) io" where
  "node_is_cancelled M sid tid = (case m_is_cancelled M of
      None \<Rightarrow> ret False
    | Some f \<Rightarrow> lift_w (f sid tid))"

text \<open>\<^verbatim>\<open>BaseNode._send_item\<close>: a failed send is logged.\<close>

definition send_item :: "'w mailbox_if \<Rightarrow> outgoing \<Rightarrow> (('e, 'w) node_world, unit) io" where
  "send_item M item =
     catch_exn (lift_w (m_send M item)) is_Exception
       (\<lambda>_. on_self (\<lambda>n. n\<lparr>is_ready := False, health_gauge := Some 0\<rparr>))"

definition should_send :: "outgoing option \<Rightarrow> bool" where
  "should_send r = (case r of
      None \<Rightarrow> False
    | Some (Batched b) \<Rightarrow> batch_len b \<noteq> 0
    | Some (Single _) \<Rightarrow> True)"

text \<open>The call of the policy, with the sender as \<^verbatim>\<open>on_item\<close> and the cancellation test of the turn. A
  generator hands everything to the sender, so no list of values comes back.\<close>

definition to_send :: "outgoing outcome \<Rightarrow> outgoing option" where
  "to_send r = (case r of Value v \<Rightarrow> Some v | _ \<Rightarrow> None)"

definition run_policy :: "('e, 'w) node_world policy_env \<Rightarrow> 'w mailbox_if \<Rightarrow> (('e, 'w) node_world, 'g) processing \<Rightarrow>
    (outgoing \<Rightarrow> (('e, 'w) node_world, unit) io) \<Rightarrow> (real \<Rightarrow> (('e, 'w) node_world, bool) io) \<Rightarrow> message \<Rightarrow>
    policy \<times> ('e, 'w) node_world \<Rightarrow> ((exn + outgoing option) \<times> policy \<times> ('e, 'w) node_world) option" where
  "run_policy E M proc send wait data s = map_option (\<lambda>(r, s'). (map_sum (\<lambda>e. e) to_send r, s'))
     (execute E proc data (Some wait) (Some send)
        (Some (node_is_cancelled M (session_id (envelope_of data)) (turn_id (envelope_of data)))) s)"

lemma to_send_value [simp]: "to_send (value_outcome r) = r"
  by (cases r) (simp_all add: to_send_def value_outcome_def)

lemma run_policy_function:
  "run_policy E M (Function f) send wait data s = Some (execute_function E f data (Some wait) s)"
  by (auto simp: run_policy_def execute_def sum.map_comp sum.map_ident comp_def split: prod.splits)

lemma to_send_values [simp]: "to_send (values_outcome r) = None"
  by (cases r) (simp_all add: to_send_def values_outcome_def)

lemma run_policy_generator:
  "run_policy E M (Generator G) send wait data s = map_option (\<lambda>(r, s'). (map_sum (\<lambda>e. e) (\<lambda>_. None) r, s'))
     (execute_generator E G data (Some wait) (Some send)
        (Some (node_is_cancelled M (session_id (envelope_of data)) (turn_id (envelope_of data)))) s)"
  by (auto simp: run_policy_def execute_def sum.map_comp comp_def option.map_comp split: prod.splits
      intro!: option.map_cong0)

text \<open>\<^verbatim>\<open>_handle\<close>: a turn cancelled before is skipped; a \<^verbatim>\<open>NodeFailure\<close> flags the node.\<close>

definition handle :: "('e, 'w) node_world policy_env \<Rightarrow> 'w mailbox_if \<Rightarrow> (('e, 'w) node_world, 'g) processing \<Rightarrow>
    (outgoing \<Rightarrow> (('e, 'w) node_world, unit) io) \<Rightarrow> (real \<Rightarrow> (('e, 'w) node_world, bool) io) \<Rightarrow> message \<Rightarrow>
    policy \<times> ('e, 'w) node_world \<Rightarrow> ((exn + outgoing option) \<times> policy \<times> ('e, 'w) node_world) option" where
  "handle E M proc send wait data s = (case s of (p, nw) \<Rightarrow>
     (case node_is_cancelled M (session_id (envelope_of data)) (turn_id (envelope_of data)) nw of
        (Inl e, nw1) \<Rightarrow> Some (Inl e, (p, nw1))
      | (Inr True, nw1) \<Rightarrow> Some (Inr None, (p, nw1))
      | (Inr False, nw1) \<Rightarrow>
          (case run_policy E M proc send wait data (p, nw1) of
             None \<Rightarrow> None
           | Some (Inl (NodeFailure _), (p', (n, w))) \<Rightarrow>
               Some (Inr None, (p', (n\<lparr>failed_flag := True, is_running := False, stop_flag := True\<rparr>, w)))
           | Some res \<Rightarrow> Some res)))"

definition node_failed :: "'e node_scheme \<Rightarrow> bool" where
  "node_failed n = failed_flag n"

section \<open>The threaded loop\<close>

definition run_enter :: "'e node_scheme \<Rightarrow> 'e node_scheme" where
  "run_enter n = n\<lparr>is_ready := True, health_gauge := Some 1\<rparr>"

definition wait_for_stop :: "(real \<Rightarrow> bool \<Rightarrow> ('w, bool) io) \<Rightarrow> real \<Rightarrow> (('e, 'w) node_world, bool) io" where
  "wait_for_stop waiting t = bnd self (\<lambda>n. lift_w (waiting t (stop_flag n)))"

text \<open>One pass of the \<^verbatim>\<open>while self.is_running\<close> loop of \<^verbatim>\<open>_run\<close>.\<close>

definition run_turn :: "('e, 'w) node_world policy_env \<Rightarrow> 'w mailbox_if \<Rightarrow> (('e, 'w) node_world, 'g) processing \<Rightarrow>
    (real \<Rightarrow> (('e, 'w) node_world, bool) io) \<Rightarrow>
    policy \<times> ('e, 'w) node_world \<Rightarrow> ((exn + unit) \<times> policy \<times> ('e, 'w) node_world) option" where
  "run_turn E M proc wait s = (case lift_w (lift_w (m_receive M)) s of
      (Inl e, s1) \<Rightarrow> Some (Inl e, s1)
    | (Inr None, s1) \<Rightarrow> Some (Inr (), s1)
    | (Inr (Some data), s1) \<Rightarrow>
        (case handle E M proc (send_item M) wait data s1 of
           None \<Rightarrow> None
         | Some (Inl e, s2) \<Rightarrow> Some (Inl e, s2)
         | Some (Inr r, s2) \<Rightarrow>
             if should_send r then Some (lift_w (send_item M (the r)) s2) else Some (Inr (), s2)))"

definition init_runtime :: "'e node_scheme \<Rightarrow> 'e node_scheme" where
  "init_runtime n = n\<lparr>is_running := True, thread_started := True\<rparr>"

definition node_start :: "'e node_scheme \<Rightarrow> 'e node_scheme" where
  "node_start n = init_runtime n"

definition node_stop :: "'w mailbox_if \<Rightarrow> (('e, 'w) node_world, unit) io" where
  "node_stop M =
     seq (on_self (\<lambda>n. n\<lparr>is_running := False, is_ready := False, health_gauge := Some 0, stop_flag := True\<rparr>))
       (lift_w (m_stop M))"

definition node_status :: "'e node_scheme \<Rightarrow> bool" where
  "node_status n = is_ready n"

section \<open>Properties of a turn\<close>

lemma lift_w_eq: "lift_w m (s, w) = (case m w of (r, w') \<Rightarrow> (r, (s, w')))"
  by (simp add: lift_w_def)

text \<open>A cancelled turn costs nothing: a message whose turn the mailbox reports as cancelled is
  taken off the queue, \<^verbatim>\<open>process()\<close> is not called, nothing is sent, and neither the error policy
  nor the node changes.\<close>

theorem cancelled_turn_skipped:
  assumes "m_receive M w = (Inr (Some data), w1)" and "m_is_cancelled M = Some c"
    and "c (session_id (envelope_of data)) (turn_id (envelope_of data)) w1 = (Inr True, w2)"
  shows "run_turn E M proc wait (p, (n, w)) = Some (Inr (), (p, (n, w2)))"
  using assms by (simp add: run_turn_def handle_def node_is_cancelled_def should_send_def)

definition demo_if :: "bool \<Rightarrow> nat mailbox_if" where
  "demo_if b = \<lparr>m_receive = (\<lambda>w. (Inr (Some demo_text), w)), m_send = (\<lambda>_ w. (Inr (), Suc w)),
     m_is_cancelled = Some (\<lambda>_ _ w. (Inr b, w)), m_stop = (\<lambda>w. (Inr (), w))\<rparr>"

definition quiet_files :: "'w files" where
  "quiet_files = \<lparr>f_time = (\<lambda>w. (Inr 0, w)), f_mkdir = (\<lambda>_ w. (Inr (), w)),
     f_append_line = (\<lambda>p j w. (Inr (), w)), f_pickle = (\<lambda>_ _ w. (Inr (), w)),
     f_exn_str = (\<lambda>_. []), f_traceback = (\<lambda>_. []), f_stamp = (\<lambda>_. [])\<rparr>"

definition quiet_env :: "'w policy_env" where
  "quiet_env = \<lparr>e_files = quiet_files, e_uniform = (\<lambda>x w. (Inr 0, w)), e_sleep = (\<lambda>_ w. (Inr (), w))\<rparr>"

definition echo :: "((unit, nat) node_world, unit) processing" where
  "echo = Function (\<lambda>m w. (Inr (Some (Single m)), w))"

theorem cancelled_turn_skipped_witness:
  "run_turn quiet_env (demo_if True) echo (\<lambda>_ w. (Inr False, w)) (new_policy retry_config ''n'', (new_node ''n'', 0)) =
     Some (Inr (), (new_policy retry_config ''n'', (new_node ''n'', 0)))"
  using cancelled_turn_skipped [of "demo_if True" 0 demo_text 0 "\<lambda>_ _ w. (Inr True, w)" 0]
  by (simp add: demo_if_def)

text \<open>A node fails only by its own policy: \<^verbatim>\<open>_handle\<close> raises the failure flag exactly when the
  policy ends in \<^verbatim>\<open>NodeFailure\<close>; the node then leaves its loop, wakes any backoff through the
  stop event, and the message produces nothing to send.\<close>

theorem handle_failure_flag:
  assumes "node_is_cancelled M (session_id (envelope_of data)) (turn_id (envelope_of data)) (n, w) = (Inr False, (n, w1))"
    and "execute_function E f data (Some wait) (p, (n, w1)) = (r, (p', (n2, w2)))" and "failed_flag n2 = False"
  shows "\<exists>r' n'. handle E M (Function f) send wait data (p, (n, w)) = Some (r', (p', (n', w2))) \<and>
    (failed_flag n' \<longleftrightarrow> (\<exists>s. r = Inl (NodeFailure s))) \<and>
    (if \<exists>s. r = Inl (NodeFailure s) then r' = Inr None \<and> \<not> is_running n' \<and> stop_flag n'
     else r' = r \<and> n' = n2)"
proof (cases "\<exists>s. r = Inl (NodeFailure s)")
  case True
  then show ?thesis using assms by (auto simp: handle_def run_policy_function)
next
  case False
  have "handle E M (Function f) send wait data (p, (n, w)) = Some (r, (p', (n2, w2)))"
  proof (cases r)
    case (Inl e)
    then show ?thesis using assms(1,2) False by (cases e) (simp_all add: handle_def run_policy_function)
  next
    case (Inr x)
    then show ?thesis using assms(1,2) by (simp add: handle_def run_policy_function)
  qed
  then show ?thesis using False assms(3) by simp
qed

definition broken_process :: "message \<Rightarrow> ((unit, nat) node_world, outgoing option) io" where
  "broken_process = (\<lambda>m w. (Inl (ValueError ''broken''), w))"

theorem handle_failure_flag_witness:
  "\<exists>p' n'. handle quiet_env (demo_if False) (Function broken_process) (\<lambda>_. ret ()) (\<lambda>_ w. (Inr False, w)) demo_text
      (new_policy (retry_config\<lparr>on_error := FAIL\<rparr>) ''n'', (new_node ''n'', 0)) = Some (Inr None, (p', (n', 0))) \<and>
    failed_flag n'"
proof -
  let ?p = "new_policy (retry_config\<lparr>on_error := FAIL\<rparr>) ''n''"
  have c: "node_is_cancelled (demo_if False) (session_id (envelope_of demo_text)) (turn_id (envelope_of demo_text))
      (new_node ''n'', 0) = (Inr False, (new_node ''n'', 0))"
    by (simp add: node_is_cancelled_def demo_if_def)
  obtain p' where e: "execute_function quiet_env broken_process demo_text (Some (\<lambda>_ w. (Inr False, w))) (?p, (new_node ''n'', 0)) =
      (Inl (NodeFailure ''processing failed''), (p', (new_node ''n'', 0)))"
    by (simp add: execute_function_def bnd_def new_policy_def retry_config_def default_policy_config_def attempts_of_def
        try_exn_def broken_process_def seq_def after_failure_def give_up_def)
  have "failed_flag (new_node ''n'') = False" by (simp add: new_node_def)
  from handle_failure_flag [OF c e this, where send = "\<lambda>_. ret ()"] show ?thesis by auto
qed

end
