(* ===== verification/Py_Queue.thy ===== *)
theory Py_Queue
  imports Prelude
begin

text \<open>
  The queues of the Python standard library the code relies on: \<^verbatim>\<open>queue.Queue\<close> (bounded when
  \<^verbatim>\<open>maxsize > 0\<close>, unbounded otherwise), \<^verbatim>\<open>queue.SimpleQueue\<close> and
  \<^verbatim>\<open>collections.deque(maxlen)\<close>, and the first-in-first-out contract their clients use.
\<close>

section \<open>queue.Queue\<close>

record 'a pyqueue =
  maxsize :: int
  items :: "'a list"

definition new_queue :: "int \<Rightarrow> 'a pyqueue" where
  "new_queue n = \<lparr>maxsize = n, items = []\<rparr>"

definition qsize :: "'a pyqueue \<Rightarrow> nat" where
  "qsize q = length (items q)"

definition qfull :: "'a pyqueue \<Rightarrow> bool" where
  "qfull q = (0 < maxsize q \<and> maxsize q \<le> int (length (items q)))"

definition put_nowait :: "'a \<Rightarrow> 'a pyqueue \<Rightarrow> exn + 'a pyqueue" where
  "put_nowait x q = (if qfull q then Inl QueueFull else Inr (q\<lparr>items := items q @ [x]\<rparr>))"

definition get_nowait :: "'a pyqueue \<Rightarrow> exn + ('a \<times> 'a pyqueue)" where
  "get_nowait q = (case items q of [] \<Rightarrow> Inl QueueEmpty | x # xs \<Rightarrow> Inr (x, q\<lparr>items := xs\<rparr>))"

text \<open>The bound a queue keeps: at most \<^verbatim>\<open>maxsize\<close> items when it is positive.\<close>

definition q_ok :: "'a pyqueue \<Rightarrow> bool" where
  "q_ok q \<longleftrightarrow> (0 < maxsize q \<longrightarrow> int (length (items q)) \<le> maxsize q)"

lemma q_ok_new [simp, inv_intros]: "q_ok (new_queue n)"
  by (simp add: q_ok_def new_queue_def)

lemma put_nowait_Inr_iff:
  "put_nowait x q = Inr q' \<longleftrightarrow> \<not> qfull q \<and> q' = q\<lparr>items := items q @ [x]\<rparr>"
  by (auto simp: put_nowait_def)

lemma put_nowait_full: "qfull q \<Longrightarrow> put_nowait x q = Inl QueueFull"
  by (simp add: put_nowait_def)

lemma put_nowait_room: "\<not> qfull q \<Longrightarrow> put_nowait x q = Inr (q\<lparr>items := items q @ [x]\<rparr>)"
  by (simp add: put_nowait_def)

lemma get_nowait_Nil: "items q = [] \<Longrightarrow> get_nowait q = Inl QueueEmpty"
  by (simp add: get_nowait_def)

lemma get_nowait_Cons: "items q = x # xs \<Longrightarrow> get_nowait q = Inr (x, q\<lparr>items := xs\<rparr>)"
  by (simp add: get_nowait_def)

lemma q_ok_put [inv_intros]: "q_ok q \<Longrightarrow> put_nowait x q = Inr q' \<Longrightarrow> q_ok q'"
  by (auto simp: put_nowait_Inr_iff q_ok_def qfull_def)

lemma q_ok_get [inv_intros]: "q_ok q \<Longrightarrow> get_nowait q = Inr (x, q') \<Longrightarrow> q_ok q'"
  by (auto simp: get_nowait_def q_ok_def split: list.splits)

lemma not_qfull_after_get: "q_ok q \<Longrightarrow> get_nowait q = Inr (x, q') \<Longrightarrow> \<not> qfull q'"
  by (auto simp: get_nowait_def q_ok_def qfull_def split: list.splits)

section \<open>The first-in-first-out contract\<close>

text \<open>
  What a client of a queue relies on: a put that succeeds appends, a get takes the oldest item,
  a get fails exactly on an empty queue.
\<close>

locale fifo =
  fixes put :: "'a \<Rightarrow> 'q \<Rightarrow> exn + 'q" and get :: "'q \<Rightarrow> exn + ('a \<times> 'q)"
    and contents :: "'q \<Rightarrow> 'a list"
  assumes put_contents: "put x q = Inr q' \<Longrightarrow> contents q' = contents q @ [x]"
    and get_contents: "get q = Inr (x, q') \<Longrightarrow> contents q = x # contents q'"
    and get_fails: "get q = Inl e \<Longrightarrow> contents q = []"
begin

fun put_all :: "'a list \<Rightarrow> 'q \<Rightarrow> exn + 'q" where
  "put_all [] q = Inr q"
| "put_all (x # xs) q = (case put x q of Inl e \<Rightarrow> Inl e | Inr q' \<Rightarrow> put_all xs q')"

text \<open>Draining: get until the queue reports it is empty, with as much fuel as there are items.\<close>

fun drain_upto :: "nat \<Rightarrow> 'q \<Rightarrow> 'a list" where
  "drain_upto 0 q = []"
| "drain_upto (Suc n) q = (case get q of Inl e \<Rightarrow> [] | Inr (x, q') \<Rightarrow> x # drain_upto n q')"

lemma put_all_contents: "put_all xs q = Inr q' \<Longrightarrow> contents q' = contents q @ xs"
  by (induction xs arbitrary: q) (auto dest: put_contents split: sum.splits)

lemma drain_upto_contents: "length (contents q) \<le> n \<Longrightarrow> drain_upto n q = contents q"
proof (induction n arbitrary: q)
  case (Suc n)
  then show ?case
    by (cases "get q") (auto dest: get_fails get_contents)
qed simp

text \<open>Nothing is lost, duplicated or reordered between the producer and the consumer.\<close>

lemma put_all_drain:
  assumes "put_all xs q = Inr q'" and "contents q = []"
  shows "drain_upto (length xs) q' = xs"
  using put_all_contents [OF assms(1)] assms(2) by (simp add: drain_upto_contents)

end

interpretation pq: fifo put_nowait get_nowait items
  by unfold_locales (auto simp: put_nowait_def get_nowait_def split: if_splits list.splits)

section \<open>queue.SimpleQueue\<close>

definition sq_put :: "'a \<Rightarrow> 'a list \<Rightarrow> exn + 'a list" where
  "sq_put x q = Inr (q @ [x])"

fun sq_get_nowait :: "'a list \<Rightarrow> exn + ('a \<times> 'a list)" where
  "sq_get_nowait [] = Inl QueueEmpty"
| "sq_get_nowait (x # xs) = Inr (x, xs)"

lemma sq_get_Inl: "sq_get_nowait q = Inl e \<longleftrightarrow> q = [] \<and> e = QueueEmpty"
  by (cases q) auto

lemma sq_get_Inr: "sq_get_nowait q = Inr (x, q') \<longleftrightarrow> q = x # q'"
  by (cases q) auto

interpretation sq: fifo sq_put sq_get_nowait "\<lambda>q. q"
  by unfold_locales (auto simp: sq_put_def sq_get_Inl sq_get_Inr)

section \<open>collections.deque(maxlen)\<close>

text \<open>
  A full \<^verbatim>\<open>deque\<close> discards from the other end: \<^verbatim>\<open>append\<close> drops the leftmost item,
  \<^verbatim>\<open>appendleft\<close> the rightmost one.
\<close>

record 'a deque =
  maxlen :: nat
  elems :: "'a list"

definition dq_append :: "'a \<Rightarrow> 'a deque \<Rightarrow> 'a deque" where
  "dq_append x d = d\<lparr>elems := drop (Suc (length (elems d)) - maxlen d) (elems d @ [x])\<rparr>"

definition dq_appendleft :: "'a \<Rightarrow> 'a deque \<Rightarrow> 'a deque" where
  "dq_appendleft x d = d\<lparr>elems := take (maxlen d) (x # elems d)\<rparr>"

definition dq_ok :: "'a deque \<Rightarrow> bool" where
  "dq_ok d \<longleftrightarrow> length (elems d) \<le> maxlen d"

lemma dq_ok_append [inv_intros]: "dq_ok d \<Longrightarrow> dq_ok (dq_append x d)"
  by (simp add: dq_ok_def dq_append_def)

lemma dq_ok_appendleft [inv_intros]: "dq_ok d \<Longrightarrow> dq_ok (dq_appendleft x d)"
  by (simp add: dq_ok_def dq_appendleft_def)

lemma dq_append_room: "length (elems d) < maxlen d \<Longrightarrow> elems (dq_append x d) = elems d @ [x]"
  by (simp add: dq_append_def)

end
