(* ===== verification/Codec.thy ===== *)
theory Codec
  imports Prelude
begin

text \<open>
  \<^verbatim>\<open>neudc/core/communication/messaging/codec.py\<close>: the tagged wire format, in-band and with
  large buffers moved through POSIX shared memory.

  The pickler (\<^verbatim>\<open>pickle\<close>, protocol 5) is a parameter: a record of functions. Its round-trip
  laws are collected in \<open>pickle_ok\<close>. Shared memory is a store of named segments; the name of
  a new segment is fresh, and \<^verbatim>\<open>resource_tracker\<close> is the set of names it would clean up.
\<close>

type_synonym bytes = "8 word list"
type_synonym segment = "nat \<times> nat"

record 'm pickler =
  p_dumps :: "'m \<Rightarrow> exn + bytes"
  p_buffers :: "'m \<Rightarrow> bytes list"
  p_dumps_cb :: "'m \<Rightarrow> (bytes \<Rightarrow> bool) \<Rightarrow> exn + bytes"
  p_loads :: "bytes \<Rightarrow> exn + 'm"
  p_loads_buffers :: "bytes \<Rightarrow> bytes list \<Rightarrow> exn + 'm"
  p_dumps_env :: "bytes \<times> segment list \<Rightarrow> bytes"
  p_loads_env :: "bytes \<Rightarrow> exn + (bytes \<times> segment list)"

text \<open>The pickler's documented behaviour: loading what was dumped gives the object back, with the
  buffers its callback kept out of band supplied in the order the callback saw them.\<close>

definition pickle_ok :: "'m pickler \<Rightarrow> bool" where
  "pickle_ok P \<longleftrightarrow>
     (\<forall>m b. p_dumps P m = Inr b \<longrightarrow> p_loads P b = Inr m) \<and>
     (\<forall>m keep b. p_dumps_cb P m keep = Inr b \<longrightarrow>
        p_loads_buffers P b (filter (\<lambda>x. \<not> keep x) (p_buffers P m)) = Inr m) \<and>
     (\<forall>e. p_loads_env P (p_dumps_env P e) = Inr e)"

record codec_env =
  shm_min_bytes :: int      \<comment> \<open>\<^verbatim>\<open>SHM_MIN_BYTES\<close>\<close>
  shm_has_track :: bool     \<comment> \<open>\<^verbatim>\<open>_SHM_HAS_TRACK\<close>\<close>

record shm_state =
  segs :: "nat \<Rightarrow> bytes option"
  next_seg :: nat
  tracked :: "nat set"

definition shm_wf :: "shm_state \<Rightarrow> bool" where
  "shm_wf s \<longleftrightarrow> (\<forall>n. segs s n \<noteq> None \<longrightarrow> n < next_seg s) \<and> (\<forall>n \<in> tracked s. n < next_seg s)"

definition TAG_PLAIN :: "8 word" where "TAG_PLAIN = 0"
definition TAG_SHM :: "8 word" where "TAG_SHM = 1"

section \<open>Segments\<close>

definition untrack :: "nat \<Rightarrow> (shm_state, unit) io" where
  "untrack n = modify (\<lambda>s. s\<lparr>tracked := tracked s - {n}\<rparr>)"

text \<open>\<^verbatim>\<open>SharedMemory(create=True, size=n)\<close> refuses size 0 and is tracked unless \<^verbatim>\<open>track=False\<close>.\<close>

definition shm_create :: "nat \<Rightarrow> bool \<Rightarrow> (shm_state, nat) io" where
  "shm_create n track =
     (if n = 0 then raise (ValueError ''size'')
      else (\<lambda>s. (Inr (next_seg s),
        s\<lparr>segs := (segs s)(next_seg s \<mapsto> replicate n 0),
          next_seg := Suc (next_seg s),
          tracked := (if track then insert (next_seg s) (tracked s) else tracked s)\<rparr>)))"

definition shm_open :: "nat \<Rightarrow> bool \<Rightarrow> (shm_state, bytes) io" where
  "shm_open n track = (\<lambda>s. case segs s n of
      None \<Rightarrow> (Inl (FileNotFoundError ''segment''), s)
    | Some b \<Rightarrow> (Inr b, s\<lparr>tracked := (if track then insert n (tracked s) else tracked s)\<rparr>))"

definition shm_unlink :: "nat \<Rightarrow> (shm_state, unit) io" where
  "shm_unlink n = (\<lambda>s. if segs s n = None then (Inl (FileNotFoundError ''segment''), s)
     else (Inr (), s\<lparr>segs := (segs s)(n := None)\<rparr>))"

definition create_segment :: "codec_env \<Rightarrow> nat \<Rightarrow> (shm_state, nat) io" where
  "create_segment C n =
     (if shm_has_track C then shm_create n False
      else bnd (shm_create n True) (\<lambda>h. seq (untrack h) (ret h)))"

text \<open>\<^verbatim>\<open>return bytearray(shm.buf[:nbytes])\<close> with the \<^verbatim>\<open>finally\<close> block after it.\<close>

definition consume_segment :: "codec_env \<Rightarrow> segment \<Rightarrow> (shm_state, bytes) io" where
  "consume_segment C seg = (case seg of (n, nbytes) \<Rightarrow>
     bnd (shm_open n (\<not> shm_has_track C)) (\<lambda>b.
       seq (catch_exn (shm_unlink n) is_FileNotFound (\<lambda>_. ret ()))
         (seq (if shm_has_track C then ret () else untrack n)
           (ret (take nbytes b)))))"

section \<open>Serialising\<close>

definition store_buffer :: "codec_env \<Rightarrow> bytes \<Rightarrow> (shm_state, segment) io" where
  "store_buffer C raw =
     bnd (create_segment C (length raw)) (\<lambda>n.
       seq (modify (\<lambda>s. s\<lparr>segs := (segs s)(n \<mapsto> raw)\<rparr>)) (ret (n, length raw)))"

definition keep_in_band :: "codec_env \<Rightarrow> bytes \<Rightarrow> bool" where
  "keep_in_band C b = (\<not> shm_min_bytes C \<le> int (length b))"

definition dumps_shm :: "codec_env \<Rightarrow> 'm pickler \<Rightarrow> 'm \<Rightarrow> (shm_state, bytes) io" where
  "dumps_shm C P m =
     bnd (of_res (p_dumps_cb P m (keep_in_band C))) (\<lambda>meta.
     bnd (map_io (store_buffer C) (filter (\<lambda>b. \<not> keep_in_band C b) (p_buffers P m))) (\<lambda>segments.
       ret (TAG_SHM # p_dumps_env P (meta, segments))))"

definition dumps :: "codec_env \<Rightarrow> 'm pickler \<Rightarrow> bool \<Rightarrow> 'm \<Rightarrow> (shm_state, bytes) io" where
  "dumps C P use_shm m =
     (if use_shm then dumps_shm C P m
      else bnd (of_res (p_dumps P m)) (\<lambda>b. ret (TAG_PLAIN # b)))"

definition loads_shm :: "codec_env \<Rightarrow> 'm pickler \<Rightarrow> bytes \<Rightarrow> (shm_state, 'm) io" where
  "loads_shm C P body =
     bnd (of_res (p_loads_env P body)) (\<lambda>(meta, segments).
     bnd (map_io (consume_segment C) segments) (\<lambda>buffers.
       of_res (p_loads_buffers P meta buffers)))"

fun loads :: "codec_env \<Rightarrow> 'm pickler \<Rightarrow> bytes \<Rightarrow> (shm_state, 'm) io" where
  "loads C P [] = raise IndexError"
| "loads C P (tag # body) =
     (if tag = TAG_PLAIN then of_res (p_loads P body)
      else if tag = TAG_SHM then loads_shm C P body
      else raise (ValueError ''Unknown codec frame tag''))"

declare loads.simps(2) [simp del]

section \<open>Round trips and ownership\<close>

text \<open>The state after storing the buffers \<open>bs\<close>: one new segment for each, in order.\<close>

fun stored :: "bytes list \<Rightarrow> shm_state \<Rightarrow> shm_state" where
  "stored [] s = s"
| "stored (b # bs) s =
     stored bs (s\<lparr>segs := (segs s)(next_seg s \<mapsto> b), next_seg := Suc (next_seg s)\<rparr>)"

fun stored_names :: "bytes list \<Rightarrow> nat \<Rightarrow> segment list" where
  "stored_names [] n = []"
| "stored_names (b # bs) n = (n, length b) # stored_names bs (Suc n)"

lemma store_buffer_ok:
  assumes "b \<noteq> []" and "shm_wf s"
  shows "store_buffer C b s =
    (Inr (next_seg s, length b), s\<lparr>segs := (segs s)(next_seg s \<mapsto> b), next_seg := Suc (next_seg s)\<rparr>)"
proof -
  have fresh: "tracked s - {next_seg s} = tracked s"
    using assms(2) by (auto simp: shm_wf_def)
  show ?thesis
    using assms(1) fresh
    by (auto simp: store_buffer_def create_segment_def shm_create_def untrack_def seq_def bnd_def)
qed

lemma shm_wf_store:
  "shm_wf s \<Longrightarrow> shm_wf (s\<lparr>segs := (segs s)(next_seg s \<mapsto> b), next_seg := Suc (next_seg s)\<rparr>)"
  by (auto simp: shm_wf_def less_Suc_eq)

lemma store_all_ok:
  assumes "\<forall>b \<in> set bs. b \<noteq> []" and "shm_wf s"
  shows "map_io (store_buffer C) bs s = (Inr (stored_names bs (next_seg s)), stored bs s)"
  using assms
proof (induction bs arbitrary: s)
  case (Cons b bs)
  let ?t = "s\<lparr>segs := (segs s)(next_seg s \<mapsto> b), next_seg := Suc (next_seg s)\<rparr>"
  have "map_io (store_buffer C) bs ?t = (Inr (stored_names bs (next_seg ?t)), stored bs ?t)"
    using Cons.prems by (intro Cons.IH) (auto intro: shm_wf_store)
  then show ?case
    using Cons.prems by (simp add: bnd_def store_buffer_ok)
qed simp

lemma stored_below: "n < next_seg s \<Longrightarrow> segs (stored bs s) n = segs s n"
  by (induction bs arbitrary: s) auto

lemma stored_tracked [simp]: "tracked (stored bs s) = tracked s"
  by (induction bs arbitrary: s) auto

lemma stored_next [simp]: "next_seg (stored bs s) = next_seg s + length bs"
  by (induction bs arbitrary: s) auto

text \<open>Consuming a segment returns its bytes and removes it, and leaves the tracker as it was.\<close>

lemma consume_segment_ok:
  assumes "segs s n = Some b" and "n \<notin> tracked s"
  shows "consume_segment C (n, length b) s = (Inr b, s\<lparr>segs := (segs s)(n := None)\<rparr>)"
  using assms
  by (cases "shm_has_track C")
     (auto simp: consume_segment_def shm_open_def shm_unlink_def untrack_def catch_exn_def seq_def bnd_def)

lemma consume_missing:
  "segs s n = None \<Longrightarrow> consume_segment C (n, k) s = (Inl (FileNotFoundError ''segment''), s)"
  by (simp add: consume_segment_def shm_open_def bnd_def)

lemma consume_all_ok:
  assumes "\<forall>i < length bs. segs s (n + i) = Some (bs ! i) \<and> n + i \<notin> tracked s"
  shows "map_io (consume_segment C) (stored_names bs n) s =
    (Inr bs, s\<lparr>segs := (\<lambda>k. if n \<le> k \<and> k < n + length bs then None else segs s k)\<rparr>)"
  using assms
proof (induction bs arbitrary: s n)
  case Nil
  have "(\<lambda>k. if n \<le> k \<and> k < n then None else segs s k) = segs s"
    by (auto simp: fun_eq_iff)
  then show ?case by simp
next
  case (Cons b bs)
  let ?t = "s\<lparr>segs := (segs s)(n := None)\<rparr>"
  have head: "segs s n = Some b" "n \<notin> tracked s"
    using Cons.prems [rule_format, of 0] by auto
  have rest: "map_io (consume_segment C) (stored_names bs (Suc n)) ?t =
    (Inr bs, ?t\<lparr>segs := (\<lambda>k. if Suc n \<le> k \<and> k < Suc n + length bs then None else segs ?t k)\<rparr>)"
  proof (rule Cons.IH, intro allI impI)
    fix i assume "i < length bs"
    then show "segs ?t (Suc n + i) = Some (bs ! i) \<and> Suc n + i \<notin> tracked ?t"
      using Cons.prems [rule_format, of "Suc i"] by auto
  qed
  have "(\<lambda>k. if Suc n \<le> k \<and> k < Suc n + length bs then None else segs ?t k) =
        (\<lambda>k. if n \<le> k \<and> k < n + length (b # bs) then None else segs s k)"
    by (auto simp: fun_eq_iff)
  with rest head show ?case
    by (simp add: bnd_def consume_segment_ok)
qed

lemma stored_at:
  "i < length bs \<Longrightarrow> segs (stored bs s) (next_seg s + i) = Some (bs ! i)"
proof (induction bs arbitrary: s i)
  case (Cons b bs)
  let ?t = "s\<lparr>segs := (segs s)(next_seg s \<mapsto> b), next_seg := Suc (next_seg s)\<rparr>"
  show ?case
  proof (cases i)
    case 0
    then show ?thesis using stored_below [of "next_seg s" ?t bs] by simp
  next
    case (Suc j)
    then show ?thesis using Cons.IH [of j ?t] Cons.prems by simp
  qed
qed simp

lemma shm_wf_above: "shm_wf s \<Longrightarrow> next_seg s \<le> k \<Longrightarrow> segs s k = None"
  unfolding shm_wf_def by (metis leD)

text \<open>What storing and consuming leave behind: the segments of before, and nothing new.\<close>

lemma stored_then_cleared:
  assumes "shm_wf s"
  shows "(\<lambda>k. if next_seg s \<le> k \<and> k < next_seg s + length bs then None else segs (stored bs s) k) = segs s"
proof
  fix k
  have above: "segs s k = None" if "next_seg s \<le> k"
    using shm_wf_above [OF assms that] .
  have beyond: "segs (stored bs s) k = None" if "next_seg s + length bs \<le> k"
    using that assms
  proof (induction bs arbitrary: s)
    case Nil
    then show ?case by (simp add: shm_wf_above)
  next
    case (Cons b bs)
    then show ?case by (auto intro!: Cons.IH shm_wf_store)
  qed
  show "(if next_seg s \<le> k \<and> k < next_seg s + length bs then None else segs (stored bs s) k) = segs s k"
    using above beyond stored_below [of k s bs] by (cases "k < next_seg s") auto
qed

definition big_buffers :: "codec_env \<Rightarrow> 'm pickler \<Rightarrow> 'm \<Rightarrow> bytes list" where
  "big_buffers C P m = filter (\<lambda>b. \<not> keep_in_band C b) (p_buffers P m)"

lemma big_buffers_nonempty: "0 < shm_min_bytes C \<Longrightarrow> \<forall>b \<in> set (big_buffers C P m). b \<noteq> []"
  by (auto simp: big_buffers_def keep_in_band_def)

lemma dumps_shm_ok:
  assumes "p_dumps_cb P m (keep_in_band C) = Inr meta" and "0 < shm_min_bytes C" and "shm_wf s"
  shows "dumps C P True m s =
    (Inr (TAG_SHM # p_dumps_env P (meta, stored_names (big_buffers C P m) (next_seg s))),
     stored (big_buffers C P m) s)"
proof -
  have "map_io (store_buffer C) (big_buffers C P m) s =
    (Inr (stored_names (big_buffers C P m) (next_seg s)), stored (big_buffers C P m) s)"
    by (rule store_all_ok [OF big_buffers_nonempty [OF assms(2)] assms(3)])
  then show ?thesis
    using assms(1) by (simp add: dumps_def dumps_shm_def bnd_def big_buffers_def [symmetric])
qed

lemma tags [simp]: "TAG_SHM \<noteq> TAG_PLAIN" "TAG_PLAIN \<noteq> TAG_SHM"
  by (simp_all add: TAG_SHM_def TAG_PLAIN_def)

lemma dumps_plain_ok:
  "p_dumps P m = Inr b \<Longrightarrow> dumps C P False m s = (Inr (TAG_PLAIN # b), s)"
  by (simp add: dumps_def bnd_def)

lemma loads_plain_ok:
  "pickle_ok P \<Longrightarrow> p_dumps P m = Inr b \<Longrightarrow> loads C P (TAG_PLAIN # b) s = (Inr m, s)"
  by (simp add: pickle_ok_def loads.simps)

lemma loads_shm_step:
  assumes "pickle_ok P"
  shows "loads C P (TAG_SHM # p_dumps_env P (meta, names)) s =
    bnd (map_io (consume_segment C) names) (\<lambda>bufs. of_res (p_loads_buffers P meta bufs)) s"
  using assms by (simp add: pickle_ok_def loads.simps loads_shm_def bnd_def of_res_def)

section \<open>A pickler for closed instances\<close>

text \<open>Objects are byte lists, every object is one buffer; an envelope is written as the unary
  numerals of its numbers, each ended by a zero byte.\<close>

definition unary :: "nat list \<Rightarrow> bytes" where
  "unary ns = concat (map (\<lambda>n. replicate n 1 @ [0]) ns)"

fun of_unary :: "nat \<Rightarrow> bytes \<Rightarrow> nat list" where
  "of_unary k [] = []"
| "of_unary k (b # bs) = (if b = 0 then k # of_unary 0 bs else of_unary (Suc k) bs)"

fun to_pairs :: "nat list \<Rightarrow> segment list" where
  "to_pairs (a # b # ns) = (a, b) # to_pairs ns"
| "to_pairs _ = []"

definition env_nats :: "bytes \<times> segment list \<Rightarrow> nat list" where
  "env_nats e = (case e of (meta, ns) \<Rightarrow>
     length meta # map unat meta @ concat (map (\<lambda>(a, b). [a, b]) ns))"

definition toy_pickler :: "bytes pickler" where
  "toy_pickler = \<lparr>
     p_dumps = (\<lambda>m. Inr m),
     p_buffers = (\<lambda>m. [m]),
     p_dumps_cb = (\<lambda>m keep. Inr (if keep m then 1 # m else [0])),
     p_loads = (\<lambda>b. Inr b),
     p_loads_buffers = (\<lambda>b bufs. case b of
         [] \<Rightarrow> Inl (ValueError ''pickle data'')
       | t # r \<Rightarrow> (if t = 1 then Inr r
           else case bufs of x # _ \<Rightarrow> Inr x | [] \<Rightarrow> Inl (ValueError ''buffers''))),
     p_dumps_env = (\<lambda>e. unary (env_nats e)),
     p_loads_env = (\<lambda>b. case of_unary 0 b of
         [] \<Rightarrow> Inl (ValueError ''pickle data'')
       | k # ns \<Rightarrow> Inr (map of_nat (take k ns), to_pairs (drop k ns)))\<rparr>"

lemma toy_pickler_simps [simp]:
  "p_buffers toy_pickler m = [m]"
  "p_dumps_cb toy_pickler m keep = Inr (if keep m then 1 # m else [0])"
  "p_loads_buffers toy_pickler [0] (x # xs) = Inr x"
  by (simp_all add: toy_pickler_def)

lemma of_unary_one: "of_unary k (replicate n 1 @ 0 # bs) = (k + n) # of_unary 0 bs"
  by (induction n arbitrary: k) auto

lemma of_unary_unary: "of_unary 0 (unary ns) = ns"
  by (induction ns) (auto simp: unary_def of_unary_one)

lemma to_pairs_concat: "to_pairs (concat (map (\<lambda>(a, b). [a, b]) ns)) = ns"
  by (induction ns) auto

lemma toy_pickler_ok: "pickle_ok toy_pickler"
  by (auto simp: pickle_ok_def toy_pickler_def of_unary_unary env_nats_def to_pairs_concat comp_def)

end
