(* ===== verification/Zero_Queue.thy ===== *)
theory Zero_Queue
  imports Codec
begin

text \<open>
  \<^verbatim>\<open>neudc/core/communication/zero_queue/zero_queue.py\<close>, \<^verbatim>\<open>zero_pub.py\<close>,
  \<^verbatim>\<open>zero_sub.py\<close> and \<^verbatim>\<open>zmq_state.py\<close>: the PUSH/PULL queues of the transport.

  ZeroMQ is a parameter, the record \<open>zmq_lib\<close> of the calls the code makes on a context, a socket
  or a poller, over a network state of any type. A queue object is a value: a method that
  assigns to \<^verbatim>\<open>self\<close> returns the new object. The world of a queue is the pair of the
  shared-memory store of the codec and the network.
\<close>

section \<open>The ZeroMQ calls\<close>

datatype sock_kind = PUSH | PULL | PUB | SUB | REQ | REP

datatype zaddr = Any_port int | Localhost int   \<comment> \<open>\<^verbatim>\<open>tcp://*:p\<close> and \<^verbatim>\<open>tcp://localhost:p\<close>\<close>

type_synonym sock = nat

record 'z zmq_lib =
  z_context :: "('z, nat) io"
  z_socket :: "nat \<Rightarrow> sock_kind \<Rightarrow> ('z, sock) io"
  z_linger :: "sock \<Rightarrow> int \<Rightarrow> ('z, unit) io"
  z_bind :: "sock \<Rightarrow> zaddr \<Rightarrow> ('z, unit) io"
  z_bind_random :: "sock \<Rightarrow> ('z, int) io"
  z_connect :: "sock \<Rightarrow> zaddr \<Rightarrow> ('z, unit) io"
  z_disconnect :: "sock \<Rightarrow> zaddr \<Rightarrow> ('z, unit) io"
  z_poll :: "sock option list \<Rightarrow> int option \<Rightarrow> ('z, sock list) io"
  z_recv :: "sock \<Rightarrow> bool \<Rightarrow> ('z, bytes) io"
  z_send :: "sock \<Rightarrow> bytes \<Rightarrow> bool \<Rightarrow> ('z, unit) io"
  z_close :: "sock \<Rightarrow> ('z, unit) io"
  z_term :: "nat \<Rightarrow> ('z, unit) io"
  z_rcvhwm :: "sock \<Rightarrow> ('z, int) io"

type_synonym 'z zworld = "shm_state \<times> 'z"

text \<open>An attribute access on \<^verbatim>\<open>None\<close>.\<close>

definition some_or_attr :: "'a option \<Rightarrow> ('w, 'a) io" where
  "some_or_attr v = (case v of None \<Rightarrow> raise (AttributeError ''NoneType'') | Some x \<Rightarrow> ret x)"

section \<open>ZeroQueue\<close>

datatype zq_mode = MODE_SUB | MODE_PUB | MODE_other string

datatype zq_contype = CONNECT | BIND | CONTYPE_other string

record zero_queue =
  zq_port :: int
  zq_context :: nat
  zq_mode :: zq_mode
  zq_contype :: zq_contype
  socket_pub :: "sock option"
  socket_sub :: "sock option"
  poller :: "sock option list"

definition bind_port :: "'z zmq_lib \<Rightarrow> int \<Rightarrow> sock \<Rightarrow> ('z, int) io" where
  "bind_port Z p s =
     (if p \<noteq> -1 then seq (z_bind Z s (Any_port p)) (ret p)
      else bnd (z_bind_random Z s) ret)"

text \<open>The port the object has afterwards.\<close>

definition set_connection :: "'z zmq_lib \<Rightarrow> int \<Rightarrow> sock \<Rightarrow> zq_contype \<Rightarrow> ('z, int) io" where
  "set_connection Z p s c = (case c of
      CONNECT \<Rightarrow> (if p \<noteq> -1 then seq (z_connect Z s (Localhost p)) (ret p)
                 else raise (ValueError ''Port is not set''))
    | BIND \<Rightarrow> bind_port Z p s
    | CONTYPE_other _ \<Rightarrow> raise (ValueError ''Invalid connection type''))"

definition init_sub :: "'z zmq_lib \<Rightarrow> zero_queue \<Rightarrow> zq_contype \<Rightarrow> ('z, zero_queue) io" where
  "init_sub Z q c =
     bnd (z_socket Z (zq_context q) PULL) (\<lambda>s.
     seq (z_linger Z s 100) (
     bnd (set_connection Z (zq_port q) s c) (\<lambda>p.
     ret (q\<lparr>socket_sub := Some s, zq_port := p, poller := [Some s]\<rparr>))))"

definition init_pub :: "'z zmq_lib \<Rightarrow> zero_queue \<Rightarrow> zq_contype \<Rightarrow> ('z, zero_queue) io" where
  "init_pub Z q c =
     bnd (z_socket Z (zq_context q) PUSH) (\<lambda>s.
     seq (z_linger Z s 100) (
     bnd (set_connection Z (zq_port q) s c) (\<lambda>p.
     ret (q\<lparr>socket_pub := Some s, zq_port := p\<rparr>))))"

text \<open>\<^verbatim>\<open>ZeroQueue.__init__\<close>; for a producer the poller registers \<^verbatim>\<open>None\<close>.\<close>

definition new_zero_queue :: "'z zmq_lib \<Rightarrow> int \<Rightarrow> zq_mode \<Rightarrow> zq_contype \<Rightarrow> ('z, zero_queue) io" where
  "new_zero_queue Z p m c =
     bnd (z_context Z) (\<lambda>ctx.
     let q = \<lparr>zq_port = p, zq_context = ctx, zq_mode = m, zq_contype = c,
              socket_pub = None, socket_sub = None, poller = []\<rparr> in
     bnd (case m of
            MODE_SUB \<Rightarrow> init_sub Z q c
          | MODE_PUB \<Rightarrow> init_pub Z q c
          | MODE_other _ \<Rightarrow> raise (ValueError ''Invalid mode'')) (\<lambda>q.
     ret (q\<lparr>poller := [socket_sub q]\<rparr>)))"

text \<open>\<^verbatim>\<open>int(timeout * 1000) if timeout else None\<close>.\<close>

definition py_trunc :: "real \<Rightarrow> int" where
  "py_trunc r = (if r < 0 then \<lceil>r\<rceil> else \<lfloor>r\<rfloor>)"

definition timeout_millis :: "real option \<Rightarrow> int option" where
  "timeout_millis t = (case t of None \<Rightarrow> None | Some r \<Rightarrow> if r = 0 then None else Some (py_trunc (r * 1000)))"

text \<open>\<^verbatim>\<open>self.socket_sub in dict(self.poller.poll(..))\<close>; \<^verbatim>\<open>None\<close> is never ready.\<close>

definition sub_ready :: "'z zmq_lib \<Rightarrow> zero_queue \<Rightarrow> int option \<Rightarrow> ('z, bool) io" where
  "sub_ready Z q t = bnd (z_poll Z (poller q) t) (\<lambda>ready.
     ret (case socket_sub q of None \<Rightarrow> False | Some s \<Rightarrow> s \<in> set ready))"

definition zq_get_nowait ::
  "codec_env \<Rightarrow> 'm pickler \<Rightarrow> 'z zmq_lib \<Rightarrow> zero_queue \<Rightarrow> ('z zworld, 'm option) io" where
  "zq_get_nowait C P Z q =
     bnd (lift_w (sub_ready Z q (Some 0))) (\<lambda>ready.
     if ready then
       bnd (lift_w (bnd (some_or_attr (socket_sub q)) (\<lambda>s. z_recv Z s True))) (\<lambda>raw.
       bnd (on_fst (loads C P raw)) (\<lambda>m. ret (Some m)))
     else ret None)"

definition zq_get ::
  "codec_env \<Rightarrow> 'm pickler \<Rightarrow> 'z zmq_lib \<Rightarrow> zero_queue \<Rightarrow> real option \<Rightarrow> ('z zworld, 'm option) io" where
  "zq_get C P Z q t =
     catch_exn
       (bnd (lift_w (sub_ready Z q (timeout_millis t))) (\<lambda>ready.
        if ready then zq_get_nowait C P Z q else ret None))
       is_ZMQError (\<lambda>_. ret None)"

definition zq_put_bytes :: "'z zmq_lib \<Rightarrow> zero_queue \<Rightarrow> bytes \<Rightarrow> ('z, unit) io" where
  "zq_put_bytes Z q raw = bnd (some_or_attr (socket_pub q)) (\<lambda>s. z_send Z s raw False)"

definition zq_put :: "codec_env \<Rightarrow> 'm pickler \<Rightarrow> 'z zmq_lib \<Rightarrow> zero_queue \<Rightarrow> 'm \<Rightarrow> ('z zworld, unit) io" where
  "zq_put C P Z q m = bnd (on_fst (dumps C P False m)) (\<lambda>raw. lift_w (zq_put_bytes Z q raw))"

definition zq_put_nowait :: "codec_env \<Rightarrow> 'm pickler \<Rightarrow> 'z zmq_lib \<Rightarrow> zero_queue \<Rightarrow> 'm \<Rightarrow> ('z zworld, unit) io" where
  "zq_put_nowait C P Z q m =
     bnd (on_fst (dumps C P False m)) (\<lambda>raw.
     lift_w (bnd (some_or_attr (socket_pub q)) (\<lambda>s. z_send Z s raw True)))"

text \<open>\<^verbatim>\<open>_reset\<close>: fresh sockets and an empty poller.\<close>

definition zq_reset :: "'z zmq_lib \<Rightarrow> zero_queue \<Rightarrow> ('z, zero_queue) io" where
  "zq_reset Z q =
     bnd (z_socket Z (zq_context q) PUSH) (\<lambda>sp.
     seq (z_connect Z sp (Any_port (zq_port q))) (
     bnd (z_socket Z (zq_context q) PULL) (\<lambda>ss.
     seq (z_connect Z ss (Localhost (zq_port q))) (
     ret (q\<lparr>socket_pub := Some sp, socket_sub := Some ss, poller := []\<rparr>)))))"

definition zq_stop :: "'z zmq_lib \<Rightarrow> zero_queue \<Rightarrow> ('z, unit) io" where
  "zq_stop Z q =
     seq (case socket_pub q of None \<Rightarrow> ret () | Some s \<Rightarrow> z_close Z s) (
     seq (case socket_sub q of None \<Rightarrow> ret () | Some s \<Rightarrow> z_close Z s)
       (z_term Z (zq_context q)))"

section \<open>ZeroQueuePub\<close>

record zero_pub = zero_queue +
  connected_ports :: "int list"

definition pub_of :: "zero_queue \<Rightarrow> int list \<Rightarrow> zero_pub" where
  "pub_of q ps = zero_queue.extend q (zero_pub.fields ps)"

definition pub_base :: "zero_pub \<Rightarrow> zero_queue" where
  "pub_base q = zero_queue.truncate q"

definition connect_additional :: "'z zmq_lib \<Rightarrow> zero_pub \<Rightarrow> int \<Rightarrow> ('z, zero_pub) io" where
  "connect_additional Z q p =
     (if p \<in> set (connected_ports q) then ret q
      else case socket_pub q of
        None \<Rightarrow> raise (AssertionError ''socket_pub'')
      | Some s \<Rightarrow> seq (z_connect Z s (Localhost p))
          (ret (q\<lparr>connected_ports := connected_ports q @ [p]\<rparr>)))"

fun connect_each :: "'z zmq_lib \<Rightarrow> zero_pub \<Rightarrow> int list \<Rightarrow> ('z, zero_pub) io" where
  "connect_each Z q [] = ret q"
| "connect_each Z q (p # ps) = bnd (connect_additional Z q p) (\<lambda>q'. connect_each Z q' ps)"

definition all_ports :: "int \<Rightarrow> int list option \<Rightarrow> int list" where
  "all_ports p ps = (case ps of
      Some (x # xs) \<Rightarrow> x # xs
    | _ \<Rightarrow> if p \<noteq> -1 then [p] else [])"

definition new_pub :: "'z zmq_lib \<Rightarrow> int \<Rightarrow> int list option \<Rightarrow> zq_contype \<Rightarrow> ('z, zero_pub) io" where
  "new_pub Z port ports c = (case all_ports port ports of
      [] \<Rightarrow> raise (ValueError ''ZeroQueuePub requires at least one port to connect to.'')
    | p # ps \<Rightarrow> bnd (new_zero_queue Z p MODE_PUB c) (\<lambda>q. connect_each Z (pub_of q [p]) ps))"

definition disconnect_additional :: "'z zmq_lib \<Rightarrow> zero_pub \<Rightarrow> int \<Rightarrow> ('z, zero_pub) io" where
  "disconnect_additional Z q p =
     (if p \<notin> set (connected_ports q) then raise (ValueError ''Port is not connected.'')
      else if length (connected_ports q) \<le> 1 then raise (ValueError ''Cannot disconnect the only remaining port'')
      else case socket_pub q of
        None \<Rightarrow> raise (AssertionError ''socket_pub'')
      | Some s \<Rightarrow> seq (z_disconnect Z s (Localhost p))
          (ret (q\<lparr>connected_ports := remove1 p (connected_ports q)\<rparr>)))"

definition pub_get :: "('w, 'm option) io" where
  "pub_get = raise (NotImplementedError ''ZeroQueuePub does not support get() method.'')"

definition pub_get_nowait :: "('w, 'm option) io" where
  "pub_get_nowait = raise (NotImplementedError ''ZeroQueuePub does not support get_nowait() method.'')"

section \<open>ZeroQueueSub\<close>

definition new_sub :: "'z zmq_lib \<Rightarrow> int \<Rightarrow> zq_contype \<Rightarrow> ('z, zero_queue) io" where
  "new_sub Z p c = new_zero_queue Z p MODE_SUB c"

definition sub_put :: "'m \<Rightarrow> ('w, unit) io" where
  "sub_put m = raise (NotImplementedError ''ZeroQueueSub does not support put() method.'')"

definition sub_put_nowait :: "'m \<Rightarrow> ('w, unit) io" where
  "sub_put_nowait m = raise (NotImplementedError ''ZeroQueueSub does not support put_nowait() method.'')"

section \<open>What the queues keep\<close>

text \<open>A producer has a socket and is connected to at least one port, to none of them twice.\<close>

definition pub_ok :: "zero_pub \<Rightarrow> bool" where
  "pub_ok q \<longleftrightarrow> socket_pub q \<noteq> None \<and> connected_ports q \<noteq> [] \<and> distinct (connected_ports q)"

lemma connect_additional_Inr:
  "connect_additional Z q p w = (Inr q', w') \<Longrightarrow>
   q' = q\<lparr>connected_ports := uniq_from (connected_ports q) [p]\<rparr> \<and> socket_pub q' = socket_pub q"
  by (auto simp: connect_additional_def io_simps split: if_splits option.splits)

lemma connect_each_Inr:
  "connect_each Z q ps w = (Inr q', w') \<Longrightarrow>
   q' = q\<lparr>connected_ports := uniq_from (connected_ports q) ps\<rparr> \<and> socket_pub q' = socket_pub q"
proof (induction ps arbitrary: q w)
  case (Cons p ps)
  from Cons.prems obtain q1 w1 where
    1: "connect_additional Z q p w = (Inr q1, w1)" and 2: "connect_each Z q1 ps w1 = (Inr q', w')"
    by (auto simp: io_simps)
  show ?case using connect_additional_Inr [OF 1] Cons.IH [OF 2] by simp
qed auto

lemma new_zero_queue_pub:
  "new_zero_queue Z p MODE_PUB c w = (Inr q, w') \<Longrightarrow> socket_pub q \<noteq> None"
  by (auto simp: new_zero_queue_def init_pub_def io_simps Let_def)

lemma new_zero_queue_sub:
  "new_zero_queue Z p MODE_SUB c w = (Inr q, w') \<Longrightarrow> socket_sub q \<noteq> None \<and> poller q = [socket_sub q]"
  by (auto simp: new_zero_queue_def init_sub_def io_simps Let_def)

lemma pub_of_fields [simp]:
  "connected_ports (pub_of q ps) = ps" "socket_pub (pub_of q ps) = socket_pub q"
  by (simp_all add: pub_of_def zero_queue.defs zero_pub.defs)

lemma new_pub_ok:
  assumes "new_pub Z port ports c w = (Inr q, w')"
  shows "pub_ok q \<and> connected_ports q = uniq_from [] (all_ports port ports)"
proof (cases "all_ports port ports")
  case Nil
  then show ?thesis using assms by (simp add: new_pub_def)
next
  case (Cons p ps)
  with assms obtain q0 w0 where
    0: "new_zero_queue Z p MODE_PUB c w = (Inr q0, w0)" and
    1: "connect_each Z (pub_of q0 [p]) ps w0 = (Inr q, w')"
    by (auto simp: new_pub_def io_simps)
  have "connected_ports q = uniq_from [p] ps" "socket_pub q = socket_pub q0"
    using connect_each_Inr [OF 1] by auto
  moreover have "uniq_from [p] ps \<noteq> []"
    using uniq_from_prefix [of "[p]" ps] by auto
  ultimately show ?thesis
    using new_zero_queue_pub [OF 0] Cons by (simp add: pub_ok_def uniq_from_distinct)
qed

lemma connect_additional_ok:
  "pub_ok q \<Longrightarrow> connect_additional Z q p w = (Inr q', w') \<Longrightarrow> pub_ok q'"
  by (drule connect_additional_Inr) (auto simp: pub_ok_def)

lemma disconnect_additional_ok:
  assumes "pub_ok q" and "disconnect_additional Z q p w = (Inr q', w')"
  shows "pub_ok q' \<and> set (connected_ports q') = set (connected_ports q) - {p}"
proof -
  have q': "q' = q\<lparr>connected_ports := remove1 p (connected_ports q)\<rparr>"
    and len: "1 < length (connected_ports q)"
    using assms(2) by (auto simp: disconnect_additional_def io_simps split: if_splits option.splits)
  have "length (remove1 p (connected_ports q)) \<ge> length (connected_ports q) - 1"
    by (simp add: length_remove1)
  with len have "remove1 p (connected_ports q) \<noteq> []" by auto
  with assms(1) q' show ?thesis by (simp add: pub_ok_def set_remove1_eq)
qed

text \<open>After a reset the poller watches no socket, so a poll that reports registered sockets only
  never finds the new socket ready, and \<^verbatim>\<open>get\<close> returns nothing whatever has arrived.\<close>

definition poll_ok :: "'z zmq_lib \<Rightarrow> bool" where
  "poll_ok Z \<longleftrightarrow> (\<forall>ss t w r w'. z_poll Z ss t w = (Inr r, w') \<longrightarrow> (\<forall>s \<in> set r. Some s \<in> set ss))"

lemma get_after_reset:
  assumes "poll_ok Z" and "zq_reset Z q w = (Inr q', w')"
    and "zq_get C P Z q' t v = (Inr m, v')"
  shows "m = None"
proof -
  have p: "poller q' = []"
    using assms(2) by (auto simp: zq_reset_def io_simps)
  have "False" if "z_poll Z [] u x = (Inr r, y)" "s \<in> set r" for u x r y s
    using assms(1) that unfolding poll_ok_def by fastforce
  with p assms(3) show ?thesis
    by (cases v)
       (auto simp: zq_get_def zq_get_nowait_def sub_ready_def catch_exn_def bnd_def p
         split: prod.splits sum.splits if_splits option.splits)
qed

end
