(* ===== verification/Mailbox.thy ===== *)
theory Mailbox
  imports Py_Queue Zero_Queue Messages
begin

text \<open>
  \<^verbatim>\<open>neudc/core/communication/mailbox/zmq_mailbox.py\<close>: the mailbox of a node, with its inbound
  queue and its policies, the fan-out over the publishers, the control channel, and the snapshot
  a process node is rebuilt from. The Prometheus series of the node (\<^verbatim>\<open>QUEUE_DEPTH\<close>,
  \<^verbatim>\<open>QUEUE_HWM\<close>, \<^verbatim>\<open>QUEUE_DROPS\<close>) are fields of the mailbox. Every operation here is one
  uninterrupted call; their interleaving is in \<open>Mailbox_Steps\<close>.
\<close>

section \<open>State\<close>

datatype queue_policy = BLOCK | DROP_OLDEST | CONFLATE

text \<open>\<^verbatim>\<open>QueuePolicy(value)\<close>.\<close>

definition queue_policy_of :: "string \<Rightarrow> exn + queue_policy" where
  "queue_policy_of s =
     (if s = ''block'' then Inr BLOCK
      else if s = ''drop_oldest'' then Inr DROP_OLDEST
      else if s = ''conflate'' then Inr CONFLATE
      else Inl (ValueError ''not a valid QueuePolicy''))"

fun policy_value :: "queue_policy \<Rightarrow> string" where
  "policy_value BLOCK = ''block''"
| "policy_value DROP_OLDEST = ''drop_oldest''"
| "policy_value CONFLATE = ''conflate''"

type_synonym turn = "string option \<times> int option"

record mailbox =
  pub_sockets :: "(string, zero_pub) dict"
  sub_queue :: zero_queue
  consume_port :: int
  message_queue :: "message pyqueue"
  queue_policy :: queue_policy
  running :: bool
  threads_started :: bool
  join_timeout :: real
  mb_name :: string
  control_pub_sockets :: "(string, zero_pub list) dict"
  control_sub_queue :: zero_queue
  control_consume_port :: int
  cancelled_turns :: "turn set"
  depth_gauge :: "nat option"
  hwm_gauge :: "int option"
  queue_drops :: "string \<Rightarrow> nat"

section \<open>Construction\<close>

definition mb_start :: "mailbox \<Rightarrow> mailbox" where
  "mb_start mb = mb\<lparr>running := True, threads_started := True\<rparr>"

definition new_mailbox :: "'z zmq_lib \<Rightarrow> int \<Rightarrow> string \<Rightarrow> string \<Rightarrow> real \<Rightarrow> ('z, mailbox) io" where
  "new_mailbox Z cap policy name jt =
     bnd (new_sub Z (-1) BIND) (\<lambda>sub.
     bnd (of_res (queue_policy_of policy)) (\<lambda>pol.
     bnd (new_sub Z (-1) BIND) (\<lambda>csub.
     case socket_sub sub of
       None \<Rightarrow> raise (AssertionError ''socket_sub'')
     | Some s \<Rightarrow> bnd (z_rcvhwm Z s) (\<lambda>hwm.
         ret (mb_start \<lparr>
           pub_sockets = [], sub_queue = sub, consume_port = zq_port sub,
           message_queue = new_queue cap, queue_policy = pol, running = False,
           threads_started = False, join_timeout = jt, mb_name = name,
           control_pub_sockets = [], control_sub_queue = csub,
           control_consume_port = zq_port csub, cancelled_turns = {},
           depth_gauge = None, hwm_gauge = Some hwm, queue_drops = (\<lambda>_. 0)\<rparr>)))))"

section \<open>The inbound queue\<close>

definition inc_drops :: "string \<Rightarrow> mailbox \<Rightarrow> mailbox" where
  "inc_drops r mb = mb\<lparr>queue_drops := (queue_drops mb)(r := Suc (queue_drops mb r))\<rparr>"

definition set_depth :: "mailbox \<Rightarrow> mailbox" where
  "set_depth mb = mb\<lparr>depth_gauge := Some (qsize (message_queue mb))\<rparr>"

text \<open>One turn of the loop of \<^verbatim>\<open>_enqueue_block\<close>: the flag says that the loop is left. Each
  \<^verbatim>\<open>put(timeout=..)\<close> waits for room and is \<^verbatim>\<open>Full\<close> when there is none at its end.\<close>

definition enqueue_block_turn :: "message \<Rightarrow> mailbox \<Rightarrow> bool \<times> mailbox" where
  "enqueue_block_turn m mb =
     (if \<not> running mb then (True, mb)
      else case Py_Queue.put_nowait m (message_queue mb) of
        Inl _ \<Rightarrow> (False, mb)
      | Inr q \<Rightarrow> (True, mb\<lparr>message_queue := q\<rparr>))"

definition enqueue_drop_oldest :: "message \<Rightarrow> mailbox \<Rightarrow> mailbox" where
  "enqueue_drop_oldest m mb = (case Py_Queue.put_nowait m (message_queue mb) of
      Inr q \<Rightarrow> mb\<lparr>message_queue := q\<rparr>
    | Inl _ \<Rightarrow>
       (let mb1 = (case Py_Queue.get_nowait (message_queue mb) of
                     Inr (_, q) \<Rightarrow> inc_drops ''drop_oldest'' (mb\<lparr>message_queue := q\<rparr>)
                   | Inl _ \<Rightarrow> mb)
        in case Py_Queue.put_nowait m (message_queue mb1) of
             Inr q \<Rightarrow> mb1\<lparr>message_queue := q\<rparr>
           | Inl _ \<Rightarrow> inc_drops ''drop_oldest'' mb1))"

text \<open>The \<^verbatim>\<open>while True\<close> loop of \<^verbatim>\<open>_enqueue_conflate\<close>, which ends on \<^verbatim>\<open>Empty\<close>.\<close>

function conflate_drain :: "mailbox \<Rightarrow> mailbox" where
  "conflate_drain mb = (case Py_Queue.get_nowait (message_queue mb) of
      Inl _ \<Rightarrow> mb
    | Inr (_, q) \<Rightarrow> conflate_drain (inc_drops ''conflate'' (mb\<lparr>message_queue := q\<rparr>)))"
  by pat_completeness auto

termination
  by (relation "measure (\<lambda>mb. length (items (message_queue mb)))")
     (auto simp: get_nowait_def inc_drops_def split: list.splits)

declare conflate_drain.simps [simp del]

definition enqueue_conflate :: "message \<Rightarrow> mailbox \<Rightarrow> exn + mailbox" where
  "enqueue_conflate m mb = (let mb1 = conflate_drain mb in
     case Py_Queue.put_nowait m (message_queue mb1) of
       Inl e \<Rightarrow> Inl e
     | Inr q \<Rightarrow> Inr (mb1\<lparr>message_queue := q\<rparr>))"

text \<open>\<^verbatim>\<open>_enqueue\<close>; the flag is False while \<^verbatim>\<open>_enqueue_block\<close> is still in its loop.\<close>

definition enqueue :: "message \<Rightarrow> mailbox \<Rightarrow> exn + (bool \<times> mailbox)" where
  "enqueue m mb = (case queue_policy mb of
      BLOCK \<Rightarrow> Inr (enqueue_block_turn m mb)
    | DROP_OLDEST \<Rightarrow> Inr (True, enqueue_drop_oldest m mb)
    | CONFLATE \<Rightarrow> (case enqueue_conflate m mb of Inl e \<Rightarrow> Inl e | Inr mb' \<Rightarrow> Inr (True, mb')))"

text \<open>One turn of \<^verbatim>\<open>_receiver_loop\<close> while running: \<^verbatim>\<open>get\<close> stands outside the \<^verbatim>\<open>try\<close>
  block. The result is the message that still waits for room, if any.\<close>

definition receiver_turn :: "codec_env \<Rightarrow> message pickler \<Rightarrow> 'z zmq_lib \<Rightarrow>
    (mailbox \<times> 'z zworld, message option) io" where
  "receiver_turn C P Z =
     bnd self (\<lambda>mb.
     bnd (lift_w (zq_get C P Z (sub_queue mb) (Some (join_timeout mb)))) (\<lambda>r.
     case r of
       None \<Rightarrow> ret None
     | Some m \<Rightarrow> catch_exn
         (bnd self (\<lambda>mb. bnd (of_res (enqueue m mb)) (\<lambda>(finished, mb').
          seq (on_self (\<lambda>_. if finished then set_depth mb' else mb'))
            (ret (if finished then None else Some m)))))
         is_Exception (\<lambda>_. ret None)))"

text \<open>\<^verbatim>\<open>receive\<close> at the end of its wait: the oldest message, or None on \<^verbatim>\<open>Empty\<close>.\<close>

definition mb_receive :: "mailbox \<Rightarrow> message option \<times> mailbox" where
  "mb_receive mb = (case Py_Queue.get_nowait (message_queue mb) of
      Inl _ \<Rightarrow> (None, mb)
    | Inr (m, q) \<Rightarrow> (Some m, set_depth (mb\<lparr>message_queue := q\<rparr>)))"

definition mb_queue_depth :: "mailbox \<Rightarrow> nat" where
  "mb_queue_depth mb = qsize (message_queue mb)"

section \<open>Publishing\<close>

definition publish_raw :: "'z zmq_lib \<Rightarrow> mailbox \<Rightarrow> bytes \<Rightarrow> ('z, unit) io" where
  "publish_raw Z mb raw = for_each (dvalues (pub_sockets mb)) (\<lambda>p. zq_put_bytes Z (pub_base p) raw)"

definition send_one :: "codec_env \<Rightarrow> message pickler \<Rightarrow> 'z zmq_lib \<Rightarrow> bool \<Rightarrow> mailbox \<Rightarrow> message \<Rightarrow>
    ('z zworld, unit) io" where
  "send_one C P Z use_shm mb m =
     bnd (on_fst (dumps C P use_shm m)) (\<lambda>raw. lift_w (publish_raw Z mb raw))"

definition mb_send :: "codec_env \<Rightarrow> message pickler \<Rightarrow> bool \<Rightarrow> 'z zmq_lib \<Rightarrow> mailbox \<Rightarrow> outgoing \<Rightarrow>
    ('z zworld, unit) io" where
  "mb_send C P shm_enabled Z mb out =
     (let use_shm = (shm_enabled \<and> length (pub_sockets mb) = 1) in
      case out of
        Batched b \<Rightarrow> for_each (batch_iter b) (send_one C P Z use_shm mb)
      | Single m \<Rightarrow> send_one C P Z use_shm mb m)"

text \<open>The ports argument of \<^verbatim>\<open>add_publisher\<close> is a list; an int is the list of it. The loop
  over a registered target stores each new connection as it is made.\<close>

definition connect_registered :: "'z zmq_lib \<Rightarrow> string \<Rightarrow> int \<Rightarrow> (mailbox \<times> 'z, unit) io" where
  "connect_registered Z tid p =
     bnd self (\<lambda>mb. case dget (pub_sockets mb) tid of
       None \<Rightarrow> raise KeyError
     | Some pub \<Rightarrow> bnd (lift_w (connect_additional Z pub p)) (\<lambda>pub'.
         on_self (\<lambda>mb. mb\<lparr>pub_sockets := dset tid pub' (pub_sockets mb)\<rparr>)))"

definition add_publisher :: "'z zmq_lib \<Rightarrow> string \<Rightarrow> int list \<Rightarrow> (mailbox \<times> 'z, unit) io" where
  "add_publisher Z tid ports =
     bnd self (\<lambda>mb.
       if tid \<in> set (dkeys (pub_sockets mb)) then for_each ports (connect_registered Z tid)
       else bnd (lift_w (new_pub Z (-1) (Some ports) CONNECT)) (\<lambda>pub.
         on_self (\<lambda>mb. mb\<lparr>pub_sockets := dset tid pub (pub_sockets mb)\<rparr>)))"

definition remove_publisher :: "'z zmq_lib \<Rightarrow> string \<Rightarrow> (mailbox \<times> 'z, unit) io" where
  "remove_publisher Z tid =
     bnd self (\<lambda>mb. case dget (pub_sockets mb) tid of
       None \<Rightarrow> raise KeyError
     | Some pub \<Rightarrow> seq (on_self (\<lambda>mb. mb\<lparr>pub_sockets := ddel tid (pub_sockets mb)\<rparr>))
         (lift_w (zq_stop Z (pub_base pub))))"

section \<open>The control channel\<close>

text \<open>The body of \<^verbatim>\<open>_control_receiver_loop\<close> for a message that arrived.\<close>

fun control_receive :: "message \<Rightarrow> mailbox \<Rightarrow> mailbox" where
  "control_receive (ControlMessage e action) mb =
     (if action = CANCEL
      then mb\<lparr>cancelled_turns := insert (session_id e, turn_id e) (cancelled_turns mb)\<rparr>
      else mb)"
| "control_receive _ mb = mb"

definition mb_is_cancelled :: "mailbox \<Rightarrow> string option \<Rightarrow> int option \<Rightarrow> bool" where
  "mb_is_cancelled mb sid tid = ((sid, tid) \<in> cancelled_turns mb)"

definition send_control :: "codec_env \<Rightarrow> message pickler \<Rightarrow> 'z zmq_lib \<Rightarrow> mailbox \<Rightarrow> message \<Rightarrow>
    ('z zworld, unit) io" where
  "send_control C P Z mb m =
     bnd (on_fst (dumps C P False m)) (\<lambda>raw.
     lift_w (for_each (dvalues (control_pub_sockets mb)) (\<lambda>pubs.
       for_each pubs (\<lambda>p. zq_put_bytes Z (pub_base p) raw))))"

text \<open>\<^verbatim>\<open>setdefault(target, [])\<close>, then a publisher of its own for every port; \<^verbatim>\<open>extend\<close> with a
  generator appends each publisher as it is built.\<close>

definition control_pub_at :: "'z zmq_lib \<Rightarrow> string \<Rightarrow> int \<Rightarrow> (mailbox \<times> 'z, unit) io" where
  "control_pub_at Z tid p =
     bnd (lift_w (new_pub Z p None CONNECT)) (\<lambda>pub.
     on_self (\<lambda>mb. mb\<lparr>control_pub_sockets :=
       dset tid (the (dget (control_pub_sockets mb) tid) @ [pub]) (control_pub_sockets mb)\<rparr>))"

definition add_control_publisher :: "'z zmq_lib \<Rightarrow> string \<Rightarrow> int list \<Rightarrow> (mailbox \<times> 'z, unit) io" where
  "add_control_publisher Z tid ports =
     seq (on_self (\<lambda>mb. if tid \<in> set (dkeys (control_pub_sockets mb)) then mb
            else mb\<lparr>control_pub_sockets := dset tid [] (control_pub_sockets mb)\<rparr>))
       (for_each ports (control_pub_at Z tid))"

definition remove_control_publisher :: "'z zmq_lib \<Rightarrow> string \<Rightarrow> (mailbox \<times> 'z, unit) io" where
  "remove_control_publisher Z tid =
     bnd self (\<lambda>mb. case dget (control_pub_sockets mb) tid of
       None \<Rightarrow> raise KeyError
     | Some pubs \<Rightarrow> seq (on_self (\<lambda>mb. mb\<lparr>control_pub_sockets := ddel tid (control_pub_sockets mb)\<rparr>))
         (lift_w (for_each pubs (\<lambda>p. zq_stop Z (pub_base p)))))"

section \<open>Stopping\<close>

definition mb_stop :: "'z zmq_lib \<Rightarrow> (mailbox \<times> 'z, unit) io" where
  "mb_stop Z =
     seq (on_self (\<lambda>mb. mb\<lparr>running := False\<rparr>)) (
     bnd self (\<lambda>mb.
     seq (lift_w (zq_stop Z (sub_queue mb))) (
     seq (lift_w (zq_stop Z (control_sub_queue mb))) (
     seq (lift_w (for_each (dvalues (pub_sockets mb)) (\<lambda>p. zq_stop Z (pub_base p))))
       (lift_w (for_each (dvalues (control_pub_sockets mb)) (\<lambda>pubs.
         for_each pubs (\<lambda>p. zq_stop Z (pub_base p)))))))))"

section \<open>The snapshot of a mailbox\<close>

record mailbox_state =
  st_message_queue_size :: nat
  st_queue_policy :: queue_policy
  st_pub_ports :: "(string, int list) dict"
  st_consume_port :: int
  st_control_ports :: "(string, int list) dict"
  st_control_consume_port :: int
  st_cancelled_turns :: "turn set"
  st_join_timeout :: real
  st_name :: string

definition mb_getstate :: "mailbox \<Rightarrow> mailbox_state" where
  "mb_getstate mb = \<lparr>
     st_message_queue_size = qsize (message_queue mb),
     st_queue_policy = queue_policy mb,
     st_pub_ports = map (\<lambda>(t, p). (t, connected_ports p)) (pub_sockets mb),
     st_consume_port = consume_port mb,
     st_control_ports = map (\<lambda>(t, ps). (t, map zq_port ps)) (control_pub_sockets mb),
     st_control_consume_port = control_consume_port mb,
     st_cancelled_turns = cancelled_turns mb,
     st_join_timeout = join_timeout mb,
     st_name = mb_name mb\<rparr>"

text \<open>The restored object: an exception leaves no object, so the fields are collected first.\<close>

definition mb_setstate :: "'z zmq_lib \<Rightarrow> mailbox_state \<Rightarrow> ('z, mailbox) io" where
  "mb_setstate Z st =
     bnd (map_io (\<lambda>(t, ps). bnd (new_pub Z (-1) (Some ps) CONNECT) (\<lambda>p. ret (t, p))) (st_pub_ports st)) (\<lambda>pubs.
     bnd (new_sub Z (st_consume_port st) BIND) (\<lambda>sub.
     bnd (map_io (\<lambda>(t, ps). bnd (map_io (\<lambda>p. new_pub Z p None CONNECT) ps) (\<lambda>l. ret (t, l)))
            (st_control_ports st)) (\<lambda>cpubs.
     bnd (new_sub Z (st_control_consume_port st) BIND) (\<lambda>csub.
     ret \<lparr>pub_sockets = pubs, sub_queue = sub, consume_port = st_consume_port st,
          message_queue = new_queue (int (st_message_queue_size st)),
          queue_policy = st_queue_policy st, running = True, threads_started = True,
          join_timeout = st_join_timeout st, mb_name = ''PICKLED|'' @ st_name st,
          control_pub_sockets = cpubs, control_sub_queue = csub,
          control_consume_port = st_control_consume_port st,
          cancelled_turns = st_cancelled_turns st,
          depth_gauge = None, hwm_gauge = None, queue_drops = (\<lambda>_. 0)\<rparr>))))"

text \<open>\<^verbatim>\<open>from_state\<close> builds and stops a default mailbox first.\<close>

definition mb_from_state :: "'z zmq_lib \<Rightarrow> mailbox_state \<Rightarrow> ('z, mailbox) io" where
  "mb_from_state Z st =
     bnd (new_mailbox Z 20 ''block'' ''ZMQMailbox'' (1/10)) (\<lambda>mb.
     bnd (\<lambda>w. case mb_stop Z (mb, w) of (r, (_, w')) \<Rightarrow> (r, w')) (\<lambda>_.
     mb_setstate Z st))"

end
