(* ===== verification/Mailbox_Steps.thy ===== *)
theory Mailbox_Steps
  imports Mailbox "HOL-Library.Sublist" "HOL-Library.Multiset"
begin

text \<open>
  The inbound queue of a mailbox under interleaving: the receiver thread runs the statements of
  \<^verbatim>\<open>_enqueue\<close> one queue operation at a time, the node thread calls \<^verbatim>\<open>receive\<close>, the control
  thread records cancellations and \<^verbatim>\<open>stop\<close> clears the flag, in any order. Three ghost lists
  record what arrived, what the node took and what was discarded.
\<close>

section \<open>The policies as single calls\<close>

text \<open>The last \<open>n\<close> elements of a list.\<close>

definition newest :: "nat \<Rightarrow> 'a list \<Rightarrow> 'a list" where
  "newest n xs = drop (length xs - n) xs"

lemma newest_all: "length xs \<le> n \<Longrightarrow> newest n xs = xs"
  by (simp add: newest_def)

lemma newest_newest: "newest n (newest n xs @ ys) = newest n (xs @ ys)"
proof (cases "length xs \<le> n")
  case False
  let ?k = "length xs - n"
  have "newest n (newest n xs @ ys) = drop (length ys) (drop ?k (xs @ ys))"
    using False by (simp add: newest_def)
  also have "\<dots> = newest n (xs @ ys)"
    using False by (simp add: newest_def add.commute)
  finally show ?thesis .
qed (simp add: newest_all)

lemma newest_full: "length xs = n \<Longrightarrow> 0 < n \<Longrightarrow> newest n (xs @ [x]) = tl xs @ [x]"
  by (simp add: newest_def drop_Suc)

lemma inc_drops_fields [simp]:
  "message_queue (inc_drops r mb) = message_queue mb"
  "queue_policy (inc_drops r mb) = queue_policy mb"
  "running (inc_drops r mb) = running mb"
  "queue_drops (inc_drops r mb) r' = (if r' = r then Suc (queue_drops mb r) else queue_drops mb r')"
  by (simp_all add: inc_drops_def)

lemma set_depth_fields [simp]:
  "message_queue (set_depth mb) = message_queue mb"
  "queue_policy (set_depth mb) = queue_policy mb"
  "running (set_depth mb) = running mb"
  "queue_drops (set_depth mb) = queue_drops mb"
  by (simp_all add: set_depth_def)

lemmas queue_ops = put_nowait_def get_nowait_def

text \<open>On a bounded queue that keeps its bound, \<^verbatim>\<open>drop_oldest\<close> keeps the newest
  \<^verbatim>\<open>maxsize\<close> messages and counts one drop exactly when the queue was full.\<close>

lemma enqueue_drop_oldest_items:
  assumes "q_ok (message_queue mb)" and "0 < maxsize (message_queue mb)"
  shows "items (message_queue (enqueue_drop_oldest m mb)) =
           newest (nat (maxsize (message_queue mb))) (items (message_queue mb) @ [m])"
    and "maxsize (message_queue (enqueue_drop_oldest m mb)) = maxsize (message_queue mb)"
    and "queue_drops (enqueue_drop_oldest m mb) ''drop_oldest'' =
           queue_drops mb ''drop_oldest'' + (if qfull (message_queue mb) then 1 else 0)"
    and "q_ok (message_queue (enqueue_drop_oldest m mb))"
proof -
  let ?q = "message_queue mb"
  have *: "items (message_queue (enqueue_drop_oldest m mb)) = newest (nat (maxsize ?q)) (items ?q @ [m]) \<and>
    maxsize (message_queue (enqueue_drop_oldest m mb)) = maxsize ?q \<and>
    queue_drops (enqueue_drop_oldest m mb) ''drop_oldest'' =
      queue_drops mb ''drop_oldest'' + (if qfull ?q then 1 else 0) \<and>
    q_ok (message_queue (enqueue_drop_oldest m mb))"
  proof (cases "qfull ?q")
    case False
    then have "int (length (items ?q)) < maxsize ?q"
      using assms by (simp add: qfull_def)
    then show ?thesis
      using False by (auto simp: enqueue_drop_oldest_def put_nowait_room newest_all q_ok_def)
  next
    case True
    then have len: "int (length (items ?q)) = maxsize ?q"
      using assms by (simp add: qfull_def q_ok_def)
    then obtain x xs where q: "items ?q = x # xs"
      using assms(2) by (cases "items ?q") auto
    have room: "\<not> qfull (?q\<lparr>items := xs\<rparr>)"
      using len q by (simp add: qfull_def)
    have "nat (maxsize ?q) = length (items ?q)" using len by simp
    then have "newest (nat (maxsize ?q)) (items ?q @ [m]) = xs @ [m]"
      using newest_full [of "items ?q" "nat (maxsize ?q)" m] q by simp
    then show ?thesis
      using True q len room
      by (simp add: enqueue_drop_oldest_def put_nowait_full get_nowait_Cons put_nowait_room q_ok_def)
  qed
  then show "items (message_queue (enqueue_drop_oldest m mb)) = newest (nat (maxsize ?q)) (items ?q @ [m])"
    and "maxsize (message_queue (enqueue_drop_oldest m mb)) = maxsize ?q"
    and "queue_drops (enqueue_drop_oldest m mb) ''drop_oldest'' =
           queue_drops mb ''drop_oldest'' + (if qfull ?q then 1 else 0)"
    and "q_ok (message_queue (enqueue_drop_oldest m mb))" by simp_all
qed

text \<open>\<^verbatim>\<open>conflate\<close> empties the queue, counts every message it removed and keeps the new one.\<close>

lemma conflate_drain_fields:
  "message_queue (conflate_drain mb) = (message_queue mb)\<lparr>items := []\<rparr> \<and>
   queue_drops (conflate_drain mb) ''conflate'' =
     queue_drops mb ''conflate'' + length (items (message_queue mb))"
proof (induction mb rule: conflate_drain.induct)
  case (1 mb)
  show ?case
  proof (cases "items (message_queue mb)")
    case Nil
    then have "conflate_drain mb = mb"
      by (subst conflate_drain.simps) (simp add: get_nowait_Nil)
    then show ?thesis using Nil by simp
  next
    case (Cons x xs)
    then have g: "Py_Queue.get_nowait (message_queue mb) = Inr (x, (message_queue mb)\<lparr>items := xs\<rparr>)"
      by (simp add: get_nowait_Cons)
    have "conflate_drain mb =
        conflate_drain (inc_drops ''conflate'' (mb\<lparr>message_queue := (message_queue mb)\<lparr>items := xs\<rparr>\<rparr>))"
      by (subst conflate_drain.simps) (simp add: g)
    then show ?thesis using 1 [OF g] Cons by simp
  qed
qed

lemma enqueue_conflate_ok:
  "\<exists>mb'. enqueue_conflate m mb = Inr mb' \<and> items (message_queue mb') = [m] \<and>
     maxsize (message_queue mb') = maxsize (message_queue mb) \<and>
     queue_drops mb' ''conflate'' = queue_drops mb ''conflate'' + length (items (message_queue mb))"
  using conflate_drain_fields [of mb]
  by (simp add: enqueue_conflate_def Let_def put_nowait_room qfull_def)

section \<open>One queue operation at a time\<close>

text \<open>Where the receiver thread stands in \<^verbatim>\<open>_receiver_loop\<close> and the \<^verbatim>\<open>_enqueue\<close> it calls.\<close>

datatype recv_pc =
    Idle
  | Block_loop message
  | Drop_first message      \<comment> \<open>before the first \<^verbatim>\<open>put_nowait\<close>\<close>
  | Drop_evict message      \<comment> \<open>after its \<^verbatim>\<open>Full\<close>\<close>
  | Drop_second message     \<comment> \<open>before the second \<^verbatim>\<open>put_nowait\<close>\<close>
  | Conflate_loop message
  | Conflate_put message
  | Set_gauge

fun recv_enter :: "queue_policy \<Rightarrow> message \<Rightarrow> recv_pc" where
  "recv_enter BLOCK m = Block_loop m"
| "recv_enter DROP_OLDEST m = Drop_first m"
| "recv_enter CONFLATE m = Conflate_loop m"

fun recv_micro :: "recv_pc \<Rightarrow> mailbox \<Rightarrow> recv_pc \<times> mailbox" where
  "recv_micro Idle mb = (Idle, mb)"
| "recv_micro (Block_loop m) mb = (case enqueue_block_turn m mb of
      (True, mb') \<Rightarrow> (Set_gauge, mb') | (False, mb') \<Rightarrow> (Block_loop m, mb'))"
| "recv_micro (Drop_first m) mb = (case Py_Queue.put_nowait m (message_queue mb) of
      Inr q \<Rightarrow> (Set_gauge, mb\<lparr>message_queue := q\<rparr>) | Inl _ \<Rightarrow> (Drop_evict m, mb))"
| "recv_micro (Drop_evict m) mb = (case Py_Queue.get_nowait (message_queue mb) of
      Inr (_, q) \<Rightarrow> (Drop_second m, inc_drops ''drop_oldest'' (mb\<lparr>message_queue := q\<rparr>))
    | Inl _ \<Rightarrow> (Drop_second m, mb))"
| "recv_micro (Drop_second m) mb = (case Py_Queue.put_nowait m (message_queue mb) of
      Inr q \<Rightarrow> (Set_gauge, mb\<lparr>message_queue := q\<rparr>)
    | Inl _ \<Rightarrow> (Set_gauge, inc_drops ''drop_oldest'' mb))"
| "recv_micro (Conflate_loop m) mb = (case Py_Queue.get_nowait (message_queue mb) of
      Inr (_, q) \<Rightarrow> (Conflate_loop m, inc_drops ''conflate'' (mb\<lparr>message_queue := q\<rparr>))
    | Inl _ \<Rightarrow> (Conflate_put m, mb))"
| "recv_micro (Conflate_put m) mb = (case Py_Queue.put_nowait m (message_queue mb) of
      Inr q \<Rightarrow> (Set_gauge, mb\<lparr>message_queue := q\<rparr>) | Inl _ \<Rightarrow> (Idle, mb))"
| "recv_micro Set_gauge mb = (Idle, set_depth mb)"

text \<open>Ghost: the message in the receiver's hands, and the one a step discards.\<close>

fun in_hand :: "recv_pc \<Rightarrow> message list" where
  "in_hand (Block_loop m) = [m]"
| "in_hand (Drop_first m) = [m]"
| "in_hand (Drop_evict m) = [m]"
| "in_hand (Drop_second m) = [m]"
| "in_hand (Conflate_loop m) = [m]"
| "in_hand (Conflate_put m) = [m]"
| "in_hand _ = []"

fun discarded :: "recv_pc \<Rightarrow> mailbox \<Rightarrow> message list" where
  "discarded (Block_loop m) mb = (if running mb then [] else [m])"
| "discarded (Drop_evict m) mb = take 1 (items (message_queue mb))"
| "discarded (Drop_second m) mb = (if qfull (message_queue mb) then [m] else [])"
| "discarded (Conflate_loop m) mb = take 1 (items (message_queue mb))"
| "discarded (Conflate_put m) mb = (if qfull (message_queue mb) then [m] else [])"
| "discarded _ mb = []"

record mb_sys =
  mb :: mailbox
  pc :: recv_pc
  arrived :: "message list"
  consumed :: "message list"
  lost :: "message list"

definition recv_step :: "mb_sys \<Rightarrow> mb_sys" where
  "recv_step s = s\<lparr>mb := snd (recv_micro (pc s) (mb s)), pc := fst (recv_micro (pc s) (mb s)),
     lost := lost s @ discarded (pc s) (mb s)\<rparr>"

inductive mb_step :: "mb_sys \<Rightarrow> mb_sys \<Rightarrow> bool" where
  arrive: "pc s = Idle \<Longrightarrow> running (mb s) \<Longrightarrow>
    mb_step s (s\<lparr>pc := recv_enter (queue_policy (mb s)) m, arrived := arrived s @ [m]\<rparr>)"
| receiver: "pc s \<noteq> Idle \<Longrightarrow> mb_step s (recv_step s)"
| node: "mb_receive (mb s) = (Some m, mb') \<Longrightarrow>
    mb_step s (s\<lparr>mb := mb', consumed := consumed s @ [m]\<rparr>)"
| control: "mb_step s (s\<lparr>mb := control_receive m (mb s)\<rparr>)"
| stop: "mb_step s (s\<lparr>mb := (mb s)\<lparr>running := False\<rparr>\<rparr>)"

inductive_cases mb_stepE: "mb_step s t"

definition mb_init :: "mb_sys \<Rightarrow> bool" where
  "mb_init s \<longleftrightarrow> items (message_queue (mb s)) = [] \<and> queue_drops (mb s) = (\<lambda>_. 0) \<and>
     pc s = Idle \<and> arrived s = [] \<and> consumed s = [] \<and> lost s = []"

definition mb_drops :: "mailbox \<Rightarrow> nat" where
  "mb_drops m = queue_drops m ''drop_oldest'' + queue_drops m ''conflate''"

text \<open>The place of the receiver fits the policy, and between the end of a conflating drain and
  its put nobody else can have filled the queue.\<close>

fun pc_ok :: "recv_pc \<Rightarrow> mailbox \<Rightarrow> bool" where
  "pc_ok (Block_loop m) b = (queue_policy b = BLOCK)"
| "pc_ok (Drop_first m) b = (queue_policy b = DROP_OLDEST)"
| "pc_ok (Drop_evict m) b = (queue_policy b = DROP_OLDEST)"
| "pc_ok (Drop_second m) b = (queue_policy b = DROP_OLDEST)"
| "pc_ok (Conflate_loop m) b = (queue_policy b = CONFLATE)"
| "pc_ok (Conflate_put m) b = (queue_policy b = CONFLATE \<and> items (message_queue b) = [])"
| "pc_ok _ b = True"

definition mb_inv :: "mb_sys \<Rightarrow> bool" where
  "mb_inv s \<longleftrightarrow> q_ok (message_queue (mb s)) \<and> pc_ok (pc s) (mb s) \<and>
     subseq (consumed s @ items (message_queue (mb s)) @ in_hand (pc s)) (arrived s) \<and>
     mset (arrived s) = mset (consumed s) + mset (items (message_queue (mb s))) +
       mset (in_hand (pc s)) + mset (lost s) \<and>
     (queue_policy (mb s) \<noteq> BLOCK \<longrightarrow> mb_drops (mb s) = length (lost s)) \<and>
     (queue_policy (mb s) = BLOCK \<longrightarrow> mb_drops (mb s) = 0 \<and> (running (mb s) \<longrightarrow> lost s = []))"

section \<open>The invariant\<close>

lemma mb_init_inv: "mb_init s \<Longrightarrow> mb_inv s"
  by (auto simp: mb_init_def mb_inv_def mb_drops_def q_ok_def)

lemma subseq_skip_mid: "subseq (xs @ x # ys) zs \<Longrightarrow> subseq (xs @ ys) zs"
  by (meson list_emb_append_mono subseq_Cons' subseq_order.dual_order.refl subseq_order.dual_order.trans)

lemma subseq_snoc: "subseq xs ys \<Longrightarrow> subseq (xs @ [x]) (ys @ [x])"
  by (simp add: list_emb_append_mono)

lemma mb_inv_arrive:
  assumes "mb_inv s" and "pc s = Idle"
  shows "mb_inv (s\<lparr>pc := recv_enter (queue_policy (mb s)) m, arrived := arrived s @ [m]\<rparr>)"
proof (cases "queue_policy (mb s)")
  case BLOCK
  then show ?thesis
    using assms subseq_snoc [of "consumed s @ items (message_queue (mb s))" "arrived s" m]
    by (auto simp: mb_inv_def)
next
  case DROP_OLDEST
  then show ?thesis
    using assms subseq_snoc [of "consumed s @ items (message_queue (mb s))" "arrived s" m]
    by (auto simp: mb_inv_def)
next
  case CONFLATE
  then show ?thesis
    using assms subseq_snoc [of "consumed s @ items (message_queue (mb s))" "arrived s" m]
    by (auto simp: mb_inv_def)
qed

lemma subseq_drop_last: "subseq (xs @ ys @ [m]) zs \<Longrightarrow> subseq (xs @ ys) zs"
  by (metis append_assoc append_Nil2 subseq_skip_mid)

lemma mb_inv_receiver:
  assumes "mb_inv s" and "pc s \<noteq> Idle"
  shows "mb_inv (recv_step s)"
proof (cases "pc s")
  case (Block_loop m)
  then show ?thesis
    using assms
    by (auto simp: mb_inv_def recv_step_def enqueue_block_turn_def put_nowait_def mb_drops_def
        q_ok_def qfull_def dest: subseq_drop_last)
next
  case (Drop_first m)
  then show ?thesis
    using assms
    by (auto simp: mb_inv_def recv_step_def put_nowait_def mb_drops_def q_ok_def qfull_def)
next
  case (Drop_evict m)
  then show ?thesis
    using assms
    by (cases "items (message_queue (mb s))")
       (auto simp: mb_inv_def recv_step_def get_nowait_def mb_drops_def q_ok_def
          intro: subseq_skip_mid)
next
  case (Drop_second m)
  then show ?thesis
    using assms
    by (auto simp: mb_inv_def recv_step_def put_nowait_def mb_drops_def q_ok_def qfull_def
        dest: subseq_drop_last)
next
  case (Conflate_loop m)
  then show ?thesis
    using assms
    by (cases "items (message_queue (mb s))")
       (auto simp: mb_inv_def recv_step_def get_nowait_def mb_drops_def q_ok_def
          intro: subseq_skip_mid)
next
  case (Conflate_put m)
  then show ?thesis
    using assms
    by (auto simp: mb_inv_def recv_step_def put_nowait_def mb_drops_def q_ok_def qfull_def)
next
  case Set_gauge
  then show ?thesis
    using assms by (auto simp: mb_inv_def recv_step_def mb_drops_def)
qed (use assms in simp)

lemma pc_ok_cong:
  "queue_policy b' = queue_policy b \<Longrightarrow> (items (message_queue b) = [] \<longrightarrow> items (message_queue b') = []) \<Longrightarrow>
   pc_ok p b \<Longrightarrow> pc_ok p b'"
  by (cases p) auto

lemma mb_inv_node:
  assumes "mb_inv s" and "mb_receive (mb s) = (Some m, mb')"
  shows "mb_inv (s\<lparr>mb := mb', consumed := consumed s @ [m]\<rparr>)"
proof -
  obtain xs where q: "items (message_queue (mb s)) = m # xs"
    and mb': "mb' = set_depth ((mb s)\<lparr>message_queue := (message_queue (mb s))\<lparr>items := xs\<rparr>\<rparr>)"
    using assms(2) by (auto simp: mb_receive_def get_nowait_def split: list.splits)
  have "pc_ok (pc s) mb'"
    using assms(1) q mb' by (auto simp: mb_inv_def intro: pc_ok_cong [of _ "mb s"])
  then show ?thesis
    using assms(1) q mb' by (auto simp: mb_inv_def q_ok_def mb_drops_def)
qed

lemma control_receive_fields [simp]:
  "message_queue (control_receive m b) = message_queue b"
  "queue_policy (control_receive m b) = queue_policy b"
  "running (control_receive m b) = running b"
  "queue_drops (control_receive m b) = queue_drops b"
  by (cases m; simp)+

lemma mb_inv_control: "mb_inv s \<Longrightarrow> mb_inv (s\<lparr>mb := control_receive m (mb s)\<rparr>)"
  by (auto simp: mb_inv_def mb_drops_def intro: pc_ok_cong [of _ "mb s"])

lemma mb_inv_stop: "mb_inv s \<Longrightarrow> mb_inv (s\<lparr>mb := (mb s)\<lparr>running := False\<rparr>\<rparr>)"
  by (auto simp: mb_inv_def mb_drops_def intro: pc_ok_cong [of _ "mb s"])

lemma mb_step_inv: "mb_inv s \<Longrightarrow> mb_step s t \<Longrightarrow> mb_inv t"
  by (erule mb_stepE)
     (auto intro: mb_inv_arrive mb_inv_receiver mb_inv_node mb_inv_control mb_inv_stop)

interpretation mbx: invariant_system mb_init mb_step mb_inv
  by unfold_locales (auto intro: mb_init_inv mb_step_inv)

text \<open>The policy never changes, and a mailbox that runs has never been stopped.\<close>

lemma mb_micro_policy [simp]:
  "queue_policy (snd (recv_micro p b)) = queue_policy b" "running (snd (recv_micro p b)) = running b"
  by (cases p; auto simp: enqueue_block_turn_def split: sum.splits)+

text \<open>Uninterrupted, the steps of \<^verbatim>\<open>drop_oldest\<close> are the single call.\<close>

definition run_recv :: "recv_pc \<times> mailbox \<Rightarrow> recv_pc \<times> mailbox" where
  "run_recv = (\<lambda>(p, b). recv_micro p b)"

lemma drop_oldest_steps:
  "\<exists>n. (run_recv ^^ n) (Drop_first m, b) = (Set_gauge, enqueue_drop_oldest m b)"
proof (cases "put_nowait m (message_queue b)")
  case (Inr q)
  then have "(run_recv ^^ 1) (Drop_first m, b) = (Set_gauge, enqueue_drop_oldest m b)"
    by (simp add: run_recv_def enqueue_drop_oldest_def)
  then show ?thesis by blast
next
  case (Inl e)
  then have "(run_recv ^^ 3) (Drop_first m, b) = (Set_gauge, enqueue_drop_oldest m b)"
    by (simp add: run_recv_def enqueue_drop_oldest_def numeral_3_eq_3 funpow_Suc_right Let_def
        del: funpow.simps(2) split: sum.splits prod.splits)
  then show ?thesis by blast
qed

section \<open>A closed instance\<close>

text \<open>A mailbox of capacity \<open>n\<close> and a run of it: two arrivals, a take by the node.\<close>

definition demo_sub :: zero_queue where
  "demo_sub = \<lparr>zq_port = 5000, zq_context = 0, zq_mode = MODE_SUB, zq_contype = BIND,
     socket_pub = None, socket_sub = Some 0, poller = [Some 0]\<rparr>"

definition demo_mailbox :: "int \<Rightarrow> queue_policy \<Rightarrow> mailbox" where
  "demo_mailbox n pol = \<lparr>pub_sockets = [], sub_queue = demo_sub, consume_port = 5000,
     message_queue = new_queue n, queue_policy = pol, running = True, threads_started = True,
     join_timeout = 1/10, mb_name = ''demo'', control_pub_sockets = [], control_sub_queue = demo_sub,
     control_consume_port = 5001, cancelled_turns = {}, depth_gauge = None, hwm_gauge = None,
     queue_drops = (\<lambda>_. 0)\<rparr>"

definition demo_msg :: "nat \<Rightarrow> message" where
  "demo_msg n = BaseMessage (new_envelope (real n))"

definition demo_start :: "int \<Rightarrow> queue_policy \<Rightarrow> mb_sys" where
  "demo_start n pol = \<lparr>mb = demo_mailbox n pol, pc = Idle, arrived = [], consumed = [], lost = []\<rparr>"

definition demo_arrive :: "message \<Rightarrow> mb_sys \<Rightarrow> mb_sys" where
  "demo_arrive m s = s\<lparr>pc := recv_enter (queue_policy (mb s)) m, arrived := arrived s @ [m]\<rparr>"

lemma demo_reach_start: "reach mb_init mb_step (demo_start n pol)"
  by (rule reach_init) (simp add: mb_init_def demo_start_def demo_mailbox_def new_queue_def)

lemma demo_reach_arrive: "reach mb_init mb_step (demo_arrive m (demo_start n pol))"
  unfolding demo_arrive_def
  by (rule reach_step [OF demo_reach_start]) (rule mb_step.arrive, simp_all add: demo_start_def demo_mailbox_def)

lemma demo_reach_put: "reach mb_init mb_step (recv_step (demo_arrive m (demo_start n pol)))"
  by (rule reach_step [OF demo_reach_arrive], rule mb_step.receiver)
     (cases pol; simp add: demo_arrive_def demo_start_def demo_mailbox_def)

section \<open>Properties\<close>

text \<open>C4: In every reachable state of a mailbox, whatever the policy and however the receiver
  thread, the node, the control thread and a stop interleave: the queue is within its bound, what
  the node took followed by what is queued and in the receiver's hands is in the order of arrival,
  every message that arrived is in exactly one of those places or was discarded, and the drop
  counters of a non-blocking policy count the discarded messages.\<close>

theorem mailbox_conservation:
  assumes "reach mb_init mb_step s"
  shows "(0 < maxsize (message_queue (mb s)) \<longrightarrow>
            int (mb_queue_depth (mb s)) \<le> maxsize (message_queue (mb s))) \<and>
    subseq (consumed s @ items (message_queue (mb s)) @ in_hand (pc s)) (arrived s) \<and>
    mset (arrived s) = mset (consumed s) + mset (items (message_queue (mb s))) +
      mset (in_hand (pc s)) + mset (lost s) \<and>
    (queue_policy (mb s) \<noteq> BLOCK \<longrightarrow>
      queue_drops (mb s) ''drop_oldest'' + queue_drops (mb s) ''conflate'' = length (lost s))"
  using mbx.reach_inv [OF assms]
  by (auto simp: mb_inv_def mb_drops_def q_ok_def mb_queue_depth_def qsize_def)

theorem mailbox_conservation_witness:
  "mset (arrived (recv_step (demo_arrive (demo_msg 1) (demo_start 1 DROP_OLDEST)))) = {#demo_msg 1#}"
  using mailbox_conservation [OF demo_reach_put [of "demo_msg 1" 1 DROP_OLDEST]]
  by (simp add: recv_step_def demo_arrive_def demo_start_def demo_mailbox_def new_queue_def
      put_nowait_def qfull_def)

lemma mb_inv_lossless:
  assumes "mb_inv s" and "queue_policy (mb s) = BLOCK" and "running (mb s)"
  shows "consumed s @ items (message_queue (mb s)) @ in_hand (pc s) = arrived s"
proof -
  have "lost s = []" using assms by (simp add: mb_inv_def)
  then have "mset (arrived s) = mset (consumed s @ items (message_queue (mb s)) @ in_hand (pc s))"
    using assms(1) by (simp add: mb_inv_def)
  then have "length (consumed s @ items (message_queue (mb s)) @ in_hand (pc s)) = length (arrived s)"
    by (metis size_mset)
  then show ?thesis
    using assms(1) subseq_same_length unfolding mb_inv_def by blast
qed

text \<open>Under the block policy a running mailbox loses nothing and reorders nothing: what the
  node took, what is queued and the message that waits for room are together exactly what arrived,
  in order.\<close>

theorem block_lossless:
  assumes "reach mb_init mb_step s" and "queue_policy (mb s) = BLOCK" and "running (mb s)"
  shows "consumed s @ items (message_queue (mb s)) @ in_hand (pc s) = arrived s"
  by (rule mb_inv_lossless [OF mbx.reach_inv [OF assms(1)] assms(2,3)])

theorem block_lossless_witness:
  "consumed (demo_arrive (demo_msg 1) (demo_start 1 BLOCK)) @
   items (message_queue (mb (demo_arrive (demo_msg 1) (demo_start 1 BLOCK)))) @
   in_hand (pc (demo_arrive (demo_msg 1) (demo_start 1 BLOCK))) = [demo_msg 1]"
  using block_lossless [OF demo_reach_arrive [of "demo_msg 1" 1 BLOCK]]
  by (simp add: demo_arrive_def demo_start_def demo_mailbox_def new_queue_def)

text \<open>The receiver waits with \<open>m\<close> while the others go on: takes of the node, control messages, and its
  own turns that find the queue full.\<close>

definition waits :: "message \<Rightarrow> mb_sys \<Rightarrow> mb_sys \<Rightarrow> bool" where
  "waits m s t \<longleftrightarrow> mb_step s t \<and> pc s = Block_loop m \<and> pc t = Block_loop m"

lemma waits_keeps:
  assumes "waits m s t" and "queue_policy (mb s) = BLOCK" and "running (mb t)"
  shows "running (mb s) \<and> queue_policy (mb t) = BLOCK \<and> arrived t = arrived s \<and>
    maxsize (message_queue (mb t)) = maxsize (message_queue (mb s)) \<and> (\<exists>xs. consumed t = consumed s @ xs)"
proof -
  have st: "mb_step s t" "pc s = Block_loop m" "pc t = Block_loop m" using assms(1) by (simp_all add: waits_def)
  from st(1) show ?thesis
  proof (cases rule: mb_step.cases)
    case receiver
    then show ?thesis using assms st
      by (auto simp: recv_step_def enqueue_block_turn_def put_nowait_def split: sum.splits if_splits)
  next
    case (node x b)
    then show ?thesis using assms
      by (auto simp: mb_receive_def get_nowait_def set_depth_def split: sum.splits list.splits)
  qed (use assms st in auto)
qed

lemma mb_step_policy: "mb_step s t \<Longrightarrow> queue_policy (mb t) = queue_policy (mb s)"
  by (erule mb_stepE) (auto simp: recv_step_def mb_receive_def set_depth_def split: sum.splits)

lemma waits_run:
  assumes "(waits m)\<^sup>*\<^sup>* s t" and "queue_policy (mb s) = BLOCK" and "running (mb t)" and "pc s = Block_loop m"
  shows "running (mb s) \<and> queue_policy (mb t) = BLOCK \<and> pc t = Block_loop m \<and> arrived t = arrived s \<and>
    maxsize (message_queue (mb t)) = maxsize (message_queue (mb s)) \<and> (\<exists>xs. consumed t = consumed s @ xs)"
  using assms
proof (induction rule: converse_rtranclp_induct)
  case (step u v)
  have pol: "queue_policy (mb v) = BLOCK"
    using step.hyps(1) step.prems(1) mb_step_policy [of u v] by (simp add: waits_def)
  have "pc v = Block_loop m" using step.hyps(1) by (simp add: waits_def)
  note ih = step.IH [OF pol step.prems(2) this]
  then show ?case using waits_keeps [OF step.hyps(1) step.prems(1)] by auto
qed simp

text \<open>C26: Backpressure holds a message and then lets it through. From any reachable state of a
  blocking mailbox in which the receiver waits with a message, along every run in which it goes on
  waiting and the mailbox is not stopped: what the node took, what is queued and the waiting message
  are together what had arrived, in order. As long as the queue is full the receiver's turn changes
  nothing and keeps the message, and the node can take one. The queue is no longer full as soon as
  the node has taken a message, and the receiver's next turn then puts the waiting one behind the
  others: everything that arrived has been taken or is queued, in order, and nothing is lost.\<close>

theorem block_unblocks:
  assumes "reach mb_init mb_step s" and "queue_policy (mb s) = BLOCK" and "pc s = Block_loop m"
    and "(waits m)\<^sup>*\<^sup>* s t" and "running (mb t)"
  shows "consumed t @ items (message_queue (mb t)) @ [m] = arrived s \<and>
    (if qfull (message_queue (mb t))
     then recv_step t = t \<and> consumed t = consumed s \<and> (\<exists>x b. mb_receive (mb t) = (Some x, b))
     else pc (recv_step t) = Set_gauge \<and> lost (recv_step t) = [] \<and>
       consumed (recv_step t) @ items (message_queue (mb (recv_step t))) = arrived s)"
proof -
  have run: "running (mb s)" "queue_policy (mb t) = BLOCK" "pc t = Block_loop m" "arrived t = arrived s"
    "maxsize (message_queue (mb t)) = maxsize (message_queue (mb s))"
    using waits_run [OF assms(4,2,5,3)] by simp_all
  obtain xs where xs: "consumed t = consumed s @ xs" using waits_run [OF assms(4,2,5,3)] by blast
  have "reach mb_init mb_step t"
    using assms(4,1) by (induction rule: rtranclp_induct) (auto simp: waits_def intro: reach_step)
  then have inv: "mb_inv t" by (rule mbx.reach_inv)
  have inv0: "mb_inv s" by (rule mbx.reach_inv [OF assms(1)])
  have all: "consumed t @ items (message_queue (mb t)) @ [m] = arrived s"
    using mb_inv_lossless [OF inv run(2) assms(5)] run(3,4) by simp
  have all0: "consumed s @ items (message_queue (mb s)) @ [m] = arrived s"
    using mb_inv_lossless [OF inv0 assms(2) run(1)] assms(3) by simp
  have len: "length xs + length (items (message_queue (mb t))) = length (items (message_queue (mb s)))"
    using arg_cong [OF all, of length] arg_cong [OF all0, of length] xs by simp
  have wait: "xs = []" if "qfull (message_queue (mb t))"
  proof -
    have "0 < maxsize (message_queue (mb s))" "maxsize (message_queue (mb s)) \<le> int (length (items (message_queue (mb t))))"
      using that run(5) by (simp_all add: qfull_def)
    moreover have "int (length (items (message_queue (mb s)))) \<le> maxsize (message_queue (mb s))"
      using inv0 calculation(1) by (simp add: mb_inv_def q_ok_def)
    ultimately have "length xs = 0" using len by linarith
    then show ?thesis by simp
  qed
  have none: "lost t = []" using inv run(2) assms(5) by (simp add: mb_inv_def)
  show ?thesis
  proof (cases "qfull (message_queue (mb t))")
    case True
    then have "enqueue_block_turn m (mb t) = (False, mb t)" "items (message_queue (mb t)) \<noteq> []"
      using assms(5) by (auto simp: enqueue_block_turn_def put_nowait_def qfull_def)
    then show ?thesis
      using True all run(3) assms(5) xs wait
      by (auto simp: recv_step_def mb_receive_def get_nowait_def neq_Nil_conv)
  next
    case False
    then show ?thesis
      using all run(3,4) assms(5) none by (simp add: recv_step_def enqueue_block_turn_def put_nowait_room)
  qed
qed

definition full_mailbox :: "queue_policy \<Rightarrow> mailbox" where
  "full_mailbox pol = (demo_mailbox 1 pol)\<lparr>message_queue := \<lparr>maxsize = 1, items = [demo_msg 1]\<rparr>\<rparr>"

text \<open>A second message waits for room in a queue of one.\<close>

definition demo_waiting :: mb_sys where
  "demo_waiting = demo_arrive (demo_msg 2) (recv_step (recv_step (demo_arrive (demo_msg 1) (demo_start 1 BLOCK))))"

definition demo_taken :: mb_sys where
  "demo_taken = demo_waiting\<lparr>mb := snd (mb_receive (mb demo_waiting)), consumed := consumed demo_waiting @ [demo_msg 1]\<rparr>"

lemmas demo_state_defs = demo_waiting_def demo_taken_def demo_arrive_def demo_start_def demo_mailbox_def new_queue_def
  recv_step_def enqueue_block_turn_def put_nowait_def qfull_def mb_receive_def get_nowait_def set_depth_def

lemma demo_reach_waiting: "reach mb_init mb_step demo_waiting"
proof -
  have "reach mb_init mb_step (recv_step (recv_step (demo_arrive (demo_msg 1) (demo_start 1 BLOCK))))"
    by (rule reach_step [OF demo_reach_put], rule mb_step.receiver) (simp add: demo_state_defs)
  then show ?thesis
    unfolding demo_waiting_def demo_arrive_def
    by (rule reach_step, intro mb_step.arrive) (simp_all add: demo_state_defs)
qed

lemma demo_waits: "waits (demo_msg 2) demo_waiting demo_taken"
proof -
  have "mb_receive (mb demo_waiting) = (Some (demo_msg 1), snd (mb_receive (mb demo_waiting)))"
    by (simp add: demo_state_defs)
  from mb_step.node [OF this] show ?thesis
    unfolding waits_def demo_taken_def by (simp add: demo_waiting_def demo_arrive_def) (simp add: demo_state_defs)
qed

theorem block_unblocks_witness:
  "recv_step demo_waiting = demo_waiting \<and>
   consumed (recv_step demo_taken) @ items (message_queue (mb (recv_step demo_taken))) = [demo_msg 1, demo_msg 2]"
proof -
  have s: "queue_policy (mb demo_waiting) = BLOCK" "pc demo_waiting = Block_loop (demo_msg 2)" "running (mb demo_waiting)"
    "running (mb demo_taken)" "qfull (message_queue (mb demo_waiting))" "\<not> qfull (message_queue (mb demo_taken))"
    "arrived demo_waiting = [demo_msg 1, demo_msg 2]"
    by (simp_all add: demo_state_defs)
  show ?thesis
    using block_unblocks [OF demo_reach_waiting s(1,2) rtranclp.rtrancl_refl s(3)]
      block_unblocks [OF demo_reach_waiting s(1,2) r_into_rtranclp [of "waits (demo_msg 2)", OF demo_waits] s(4)] s(5-7)
    by simp
qed

text \<open>Under \<^verbatim>\<open>drop_oldest\<close> a bounded queue always holds the newest messages: after any
  sequence of arrivals it is the last \<^verbatim>\<open>maxsize\<close> of what was queued and what arrived, and the
  drop counter has grown by exactly the number of messages that did not fit.\<close>

theorem drop_oldest_keeps_newest:
  assumes "q_ok (message_queue b)" and "0 < maxsize (message_queue b)"
  shows "items (message_queue (fold enqueue_drop_oldest ms b)) =
      newest (nat (maxsize (message_queue b))) (items (message_queue b) @ ms) \<and>
    queue_drops (fold enqueue_drop_oldest ms b) ''drop_oldest'' = queue_drops b ''drop_oldest'' +
      (length (items (message_queue b)) + length ms - nat (maxsize (message_queue b)))"
  using assms
proof (induction ms arbitrary: b)
  case Nil
  then show ?case by (simp add: newest_def q_ok_def nat_le_iff)
next
  case (Cons m ms)
  let ?b = "enqueue_drop_oldest m b" and ?n = "nat (maxsize (message_queue b))"
  note one = enqueue_drop_oldest_items [OF Cons.prems, of m]
  have "newest ?n (newest ?n (items (message_queue b) @ [m]) @ ms) =
        newest ?n (items (message_queue b) @ m # ms)"
    by (simp add: newest_newest)
  moreover have "length (newest ?n (items (message_queue b) @ [m])) =
      length (items (message_queue b)) + (if qfull (message_queue b) then 0 else 1)"
    using Cons.prems by (auto simp: newest_def qfull_def q_ok_def)
  moreover have "length (items (message_queue b)) = ?n" if "qfull (message_queue b)"
    using that Cons.prems by (simp add: qfull_def q_ok_def)
  moreover have "length (items (message_queue b)) < ?n" if "\<not> qfull (message_queue b)"
    using that Cons.prems by (simp add: qfull_def)
  ultimately show ?case
    using Cons.IH [of ?b] one Cons.prems(2) by auto
qed

theorem drop_oldest_keeps_newest_witness:
  "items (message_queue (fold enqueue_drop_oldest [demo_msg 2, demo_msg 3] (full_mailbox DROP_OLDEST))) =
     [demo_msg 3]"
  using drop_oldest_keeps_newest [of "full_mailbox DROP_OLDEST" "[demo_msg 2, demo_msg 3]"]
  by (simp add: full_mailbox_def demo_mailbox_def q_ok_def newest_def)

text \<open>A conflating mailbox holds exactly the newest message after an arrival, at any capacity
  and however much room was left, and counts every message it discarded.\<close>

theorem conflate_keeps_only_newest:
  assumes "queue_policy b = CONFLATE"
  shows "\<exists>b'. enqueue m b = Inr (True, b') \<and> items (message_queue b') = [m] \<and>
    queue_drops b' ''conflate'' = queue_drops b ''conflate'' + mb_queue_depth b"
  using assms enqueue_conflate_ok [of m b] by (auto simp: enqueue_def mb_queue_depth_def qsize_def)

theorem conflate_keeps_only_newest_witness:
  "\<exists>b'. enqueue (demo_msg 2) ((full_mailbox CONFLATE)\<lparr>message_queue := \<lparr>maxsize = 5, items = [demo_msg 1]\<rparr>\<rparr>) =
     Inr (True, b') \<and> items (message_queue b') = [demo_msg 2] \<and> queue_drops b' ''conflate'' = 1"
  using conflate_keeps_only_newest
    [of "(full_mailbox CONFLATE)\<lparr>message_queue := \<lparr>maxsize = 5, items = [demo_msg 1]\<rparr>\<rparr>" "demo_msg 2"]
  by (simp add: full_mailbox_def demo_mailbox_def mb_queue_depth_def qsize_def)

lemma mb_micro_cancelled [simp]: "cancelled_turns (snd (recv_micro p b)) = cancelled_turns b"
  by (cases p) (auto simp: enqueue_block_turn_def inc_drops_def set_depth_def split: sum.splits)

lemma cancelled_mono: "mb_step s t \<Longrightarrow> cancelled_turns (mb s) \<subseteq> cancelled_turns (mb t)"
proof (erule mb_stepE)
  fix m assume "t = s\<lparr>mb := control_receive m (mb s)\<rparr>"
  then show ?thesis by (cases m) auto
qed (auto simp: recv_step_def mb_receive_def set_depth_def split: sum.splits)

text \<open>C27: Cancellation overtakes the data path: at any point, even with the receiver blocked on a
  full queue, one step of the control thread makes the turn read as cancelled and leaves the data
  queue as it is, and no later step takes it back.\<close>

theorem cancel_overtakes:
  assumes "mb_step\<^sup>*\<^sup>* (s\<lparr>mb := control_receive (ControlMessage e CANCEL) (mb s)\<rparr>) t"
  shows "mb_step s (s\<lparr>mb := control_receive (ControlMessage e CANCEL) (mb s)\<rparr>) \<and>
    message_queue (control_receive (ControlMessage e CANCEL) (mb s)) = message_queue (mb s) \<and>
    mb_is_cancelled (mb t) (session_id e) (turn_id e)"
proof -
  have "mb_step s (s\<lparr>mb := control_receive (ControlMessage e CANCEL) (mb s)\<rparr>)"
    by (rule mb_step.control)
  moreover have "cancelled_turns (mb (s\<lparr>mb := control_receive (ControlMessage e CANCEL) (mb s)\<rparr>)) \<subseteq>
      cancelled_turns (mb t)"
    using assms by (induction rule: rtranclp_induct) (auto dest: cancelled_mono)
  ultimately show ?thesis
    by (auto simp: mb_is_cancelled_def)
qed

theorem cancel_overtakes_witness:
  "mb_is_cancelled (control_receive (ControlMessage (new_envelope 0) CANCEL) (full_mailbox BLOCK)) None None"
  using cancel_overtakes [of "new_envelope 0"
      "(demo_start 1 BLOCK)\<lparr>mb := full_mailbox BLOCK, pc := Block_loop (demo_msg 2)\<rparr>" "(demo_start 1 BLOCK)\<lparr>pc := Block_loop (demo_msg 2),
        mb := control_receive (ControlMessage (new_envelope 0) CANCEL) (full_mailbox BLOCK)\<rparr>"]
  by (simp add: new_envelope_def)

end
