(* ===== verification/Fan_Out.thy ===== *)
theory Fan_Out
  imports Mailbox_Steps
begin

text \<open>
  What a send of a mailbox puts on the wire, over a ZeroMQ whose blocking send accepts the
  message (\<open>zmq_logs\<close>: a PUSH socket queues, it does not drop), the shared-memory round trip of
  one edge, and the snapshot a process node rebuilds its mailbox from.
\<close>

definition zmq_logs :: "'z zmq_lib \<Rightarrow> ('z \<Rightarrow> (sock \<times> bytes) list) \<Rightarrow> bool" where
  "zmq_logs Z out \<longleftrightarrow> (\<forall>s raw w. \<exists>w'. z_send Z s raw False w = (Inr (), w') \<and> out w' = out w @ [(s, raw)])"

definition pub_sock :: "zero_pub \<Rightarrow> sock" where
  "pub_sock p = the (socket_pub p)"

definition pubs_ready :: "mailbox \<Rightarrow> bool" where
  "pubs_ready b \<longleftrightarrow> (\<forall>p \<in> set (dvalues (pub_sockets b)). socket_pub p \<noteq> None)"

lemma pub_base_socket [simp]: "socket_pub (pub_base p) = socket_pub p"
  by (simp add: pub_base_def zero_queue.defs)

lemma put_bytes_logs:
  assumes "zmq_logs Z out" and "socket_pub p \<noteq> None"
  shows "\<exists>w'. zq_put_bytes Z (pub_base p) raw w = (Inr (), w') \<and> out w' = out w @ [(pub_sock p, raw)]"
  using assms by (auto simp: zq_put_bytes_def some_or_attr_def pub_sock_def zmq_logs_def)

lemma publish_each_logs:
  assumes "zmq_logs Z out" and "\<forall>p \<in> set ps. socket_pub p \<noteq> None"
  shows "\<exists>w'. for_each ps (\<lambda>p. zq_put_bytes Z (pub_base p) raw) w = (Inr (), w') \<and>
    out w' = out w @ map (\<lambda>p. (pub_sock p, raw)) ps"
  using assms(2)
proof (induction ps arbitrary: w)
  case (Cons p ps)
  obtain w1 where 1: "zq_put_bytes Z (pub_base p) raw w = (Inr (), w1)"
    "out w1 = out w @ [(pub_sock p, raw)]"
    using put_bytes_logs [OF assms(1)] Cons.prems by fastforce
  obtain w2 where 2: "for_each ps (\<lambda>p. zq_put_bytes Z (pub_base p) raw) w1 = (Inr (), w2)"
    "out w2 = out w1 @ map (\<lambda>p. (pub_sock p, raw)) ps"
    using Cons.IH [of w1] Cons.prems by auto
  show ?case using 1 2 by (auto simp: bnd_def)
qed simp

lemma publish_logs:
  "zmq_logs Z out \<Longrightarrow> pubs_ready b \<Longrightarrow>
   \<exists>w'. publish_raw Z b raw w = (Inr (), w') \<and>
     out w' = out w @ map (\<lambda>p. (pub_sock p, raw)) (dvalues (pub_sockets b))"
  unfolding publish_raw_def pubs_ready_def by (rule publish_each_logs)

text \<open>The in-band frame of a message.\<close>

definition plain_frame :: "'m pickler \<Rightarrow> 'm \<Rightarrow> bytes" where
  "plain_frame P m = TAG_PLAIN # (case p_dumps P m of Inr b \<Rightarrow> b | Inl _ \<Rightarrow> [])"

definition wire :: "mailbox \<Rightarrow> bytes list \<Rightarrow> (sock \<times> bytes) list" where
  "wire b raws = concat (map (\<lambda>raw. map (\<lambda>p. (pub_sock p, raw)) (dvalues (pub_sockets b))) raws)"

lemma send_one_plain:
  assumes "zmq_logs Z out" and "pubs_ready b" and "\<exists>raw. p_dumps P m = Inr raw"
  shows "\<exists>w'. send_one C P Z False b m (sh, w) = (Inr (), (sh, w')) \<and>
    out w' = out w @ wire b [plain_frame P m]"
proof -
  obtain raw where raw: "p_dumps P m = Inr raw" using assms(3) by blast
  obtain w' where w': "publish_raw Z b (TAG_PLAIN # raw) w = (Inr (), w')"
    "out w' = out w @ map (\<lambda>p. (pub_sock p, TAG_PLAIN # raw)) (dvalues (pub_sockets b))"
    using publish_logs [OF assms(1,2)] by blast
  have "send_one C P Z False b m (sh, w) = (Inr (), (sh, w'))"
    using w'(1) raw by (simp add: send_one_def bnd_def dumps_plain_ok)
  then show ?thesis using w'(2) raw by (auto simp: wire_def plain_frame_def)
qed

lemma send_each_plain:
  assumes "zmq_logs Z out" and "pubs_ready b" and "\<forall>m \<in> set ms. \<exists>raw. p_dumps P m = Inr raw"
  shows "\<exists>w'. for_each ms (send_one C P Z False b) (sh, w) = (Inr (), (sh, w')) \<and>
    out w' = out w @ wire b (map (plain_frame P) ms)"
  using assms(3)
proof (induction ms arbitrary: w)
  case Nil
  then show ?case by (simp add: wire_def)
next
  case (Cons m ms)
  obtain w1 where 1: "send_one C P Z False b m (sh, w) = (Inr (), (sh, w1))"
    "out w1 = out w @ wire b [plain_frame P m]"
    using send_one_plain [OF assms(1,2), of P m C sh w] Cons.prems by auto
  obtain w2 where 2: "for_each ms (send_one C P Z False b) (sh, w1) = (Inr (), (sh, w2))"
    "out w2 = out w1 @ wire b (map (plain_frame P) ms)"
    using Cons.IH [of w1] Cons.prems by auto
  show ?case using 1 2 by (intro exI [of _ w2]) (simp add: bnd_ok wire_def)
qed

lemma loads_plain_frame:
  "pickle_ok P \<Longrightarrow> p_dumps P m = Inr raw \<Longrightarrow> loads C P (plain_frame P m) t = (Inr m, t)"
  by (simp add: plain_frame_def loads_plain_ok)

lemma mb_send_unroll:
  "mb_send C P e Z b out = for_each (unroll out) (send_one C P Z (e \<and> length (pub_sockets b) = 1) b)"
  by (cases out) (auto simp: mb_send_def Let_def fun_eq_iff bnd_def split: prod.splits sum.splits)

text \<open>A closed instance: the network is the log of what was sent, messages are pickled by their
  place in a list of messages.\<close>

definition log_zmq :: "(sock \<times> bytes) list zmq_lib" where
  "log_zmq = \<lparr>z_context = (\<lambda>w. (Inr 0, w)), z_socket = (\<lambda>_ _ w. (Inr (length w), w)),
     z_linger = (\<lambda>_ _ w. (Inr (), w)), z_bind = (\<lambda>_ _ w. (Inr (), w)),
     z_bind_random = (\<lambda>_ w. (Inr 6000, w)), z_connect = (\<lambda>_ _ w. (Inr (), w)),
     z_disconnect = (\<lambda>_ _ w. (Inr (), w)), z_poll = (\<lambda>_ _ w. (Inr [], w)),
     z_recv = (\<lambda>_ _ w. (Inl (ZMQError ''EAGAIN''), w)),
     z_send = (\<lambda>s raw _ w. (Inr (), w @ [(s, raw)])), z_close = (\<lambda>_ w. (Inr (), w)),
     z_term = (\<lambda>_ w. (Inr (), w)), z_rcvhwm = (\<lambda>_ w. (Inr 1000, w))\<rparr>"

lemma log_zmq_logs: "zmq_logs log_zmq (\<lambda>w. w)"
  by (simp add: zmq_logs_def log_zmq_def)

text \<open>A pickler of two messages, which have no buffers to move.\<close>

definition pair_dumps :: "'m \<Rightarrow> 'm \<Rightarrow> 'm \<Rightarrow> exn + bytes" where
  "pair_dumps a b m = (if m = a then Inr [1] else if m = b then Inr [2] else Inl (PicklingError ''object''))"

definition pair_loads :: "'m \<Rightarrow> 'm \<Rightarrow> bytes \<Rightarrow> exn + 'm" where
  "pair_loads a b raw = (if raw = [1] then Inr a else if raw = [2] then Inr b else Inl (ValueError ''pickle data''))"

definition pair_pickler :: "'m \<Rightarrow> 'm \<Rightarrow> 'm pickler" where
  "pair_pickler a b = \<lparr>p_dumps = pair_dumps a b, p_buffers = (\<lambda>m. []),
     p_dumps_cb = (\<lambda>m keep. pair_dumps a b m), p_loads = pair_loads a b,
     p_loads_buffers = (\<lambda>raw bufs. pair_loads a b raw),
     p_dumps_env = p_dumps_env toy_pickler, p_loads_env = p_loads_env toy_pickler\<rparr>"

lemma pair_pickler_ok: "pickle_ok (pair_pickler a b)"
  using toy_pickler_ok
  by (auto simp: pickle_ok_def pair_pickler_def pair_dumps_def pair_loads_def split: if_splits)

definition demo_pub :: "nat \<Rightarrow> zero_pub" where
  "demo_pub s = pub_of \<lparr>zq_port = 5000 + int s, zq_context = s, zq_mode = MODE_PUB, zq_contype = CONNECT,
     socket_pub = Some s, socket_sub = None, poller = [None]\<rparr> [5000 + int s]"

definition demo_fan_out :: mailbox where
  "demo_fan_out = (demo_mailbox 1 BLOCK)\<lparr>pub_sockets := [(''a'', demo_pub 1), (''b'', demo_pub 2)]\<rparr>"

definition demo_shm :: shm_state where
  "demo_shm = \<lparr>segs = (\<lambda>_. None), next_seg = 0, tracked = {}\<rparr>"

definition demo_env :: codec_env where
  "demo_env = \<lparr>shm_min_bytes = 2, shm_has_track = False\<rparr>"

section \<open>Properties\<close>

text \<open>C10: Fan-out: a send to several edges (or with shared memory off) puts every message of the
  batch, in order, on every edge, each serialised once and the same bytes for all; every frame
  decodes, at any receiver and any number of times, to the message that was sent; and the
  shared-memory store is not touched even when the transport is enabled.\<close>

theorem send_fans_out:
  assumes "zmq_logs Z out" and "pickle_ok P" and "pubs_ready b"
    and "shm_enabled \<longrightarrow> length (pub_sockets b) \<noteq> 1"
    and "\<forall>m \<in> set (unroll msg). \<exists>raw. p_dumps P m = Inr raw"
  shows "\<exists>w' raws. mb_send C P shm_enabled Z b msg (sh, w) = (Inr (), (sh, w')) \<and>
    out w' = out w @ wire b raws \<and>
    list_all2 (\<lambda>raw m. \<forall>t. loads C P raw t = (Inr m, t)) raws (unroll msg)"
proof -
  have plain: "(shm_enabled \<and> length (pub_sockets b) = 1) = False"
    using assms(4) by blast
  obtain w' where w': "for_each (unroll msg) (send_one C P Z False b) (sh, w) = (Inr (), (sh, w'))"
    "out w' = out w @ wire b (map (plain_frame P) (unroll msg))"
    using send_each_plain [OF assms(1,3,5)] by blast
  have "list_all2 (\<lambda>raw m. \<forall>t. loads C P raw t = (Inr m, t)) (map (plain_frame P) (unroll msg)) (unroll msg)"
    unfolding list_all2_map1
    by (rule list.rel_refl_strong) (use assms(2,5) in \<open>auto intro: loads_plain_frame\<close>)
  then show ?thesis
    unfolding mb_send_unroll plain using w' by blast
qed

theorem send_fans_out_witness:
  "\<exists>w' raws. mb_send demo_env (pair_pickler (demo_msg 1) (demo_msg 2)) True log_zmq demo_fan_out
      (Batched \<lparr>frames = [demo_msg 1, demo_msg 2]\<rparr>) (demo_shm, []) = (Inr (), (demo_shm, w')) \<and>
    w' = wire demo_fan_out raws \<and> length raws = Suc (Suc 0)"
proof -
  have "pubs_ready demo_fan_out"
    by (simp add: pubs_ready_def demo_fan_out_def demo_pub_def dvalues_def)
  moreover have "True \<longrightarrow> length (pub_sockets demo_fan_out) \<noteq> 1"
    by (simp add: demo_fan_out_def)
  moreover have "\<forall>m \<in> set (unroll (Batched \<lparr>frames = [demo_msg 1, demo_msg 2]\<rparr>)).
      \<exists>raw. p_dumps (pair_pickler (demo_msg 1) (demo_msg 2)) m = Inr raw"
    by (auto simp: batch_iter_def pair_pickler_def pair_dumps_def)
  ultimately show ?thesis
    using send_fans_out [OF log_zmq_logs pair_pickler_ok, of demo_fan_out True
        "Batched \<lparr>frames = [demo_msg 1, demo_msg 2]\<rparr>" "demo_msg 1" "demo_msg 2" demo_env demo_shm "[]"]
    by (auto simp: batch_iter_def dest!: list_all2_lengthD)
qed

text \<open>C7: The shared-memory transport of a single edge is a round trip that leaks nothing: a
  message whose large buffers went through segments is decoded to the same message, and afterwards
  the store holds exactly the segments it held before and the tracker the same names.\<close>

theorem shm_roundtrip:
  assumes "pickle_ok P" and "0 < shm_min_bytes C" and "shm_wf s"
    and "p_dumps_cb P m (keep_in_band C) = Inr meta"
  shows "\<exists>frame t t'. dumps C P True m s = (Inr frame, t) \<and> loads C P frame t = (Inr m, t') \<and>
    segs t' = segs s \<and> tracked t' = tracked s"
proof -
  let ?bs = "big_buffers C P m"
  let ?n = "next_seg s"
  let ?frame = "TAG_SHM # p_dumps_env P (meta, stored_names ?bs ?n)"
  let ?t' = "(stored ?bs s)\<lparr>segs := segs s\<rparr>"
  have d: "dumps C P True m s = (Inr ?frame, stored ?bs s)"
    by (rule dumps_shm_ok [OF assms(4,2,3)])
  have notin: "?n + i \<notin> tracked s" for i
    using assms(3) by (auto simp: shm_wf_def)
  have "map_io (consume_segment C) (stored_names ?bs ?n) (stored ?bs s) = (Inr ?bs, ?t')"
    using consume_all_ok [of ?bs "stored ?bs s" ?n C] stored_then_cleared [OF assms(3), of ?bs]
    by (simp add: stored_at notin)
  moreover have "p_loads_buffers P meta ?bs = Inr m"
    using assms(1,4) unfolding pickle_ok_def big_buffers_def by blast
  ultimately have "loads C P ?frame (stored ?bs s) = (Inr m, ?t')"
    by (simp add: loads_shm_step [OF assms(1)] bnd_def)
  then show ?thesis using d by fastforce
qed

theorem shm_roundtrip_witness:
  "\<exists>frame t t'. dumps demo_env toy_pickler True [7, 8, 9] demo_shm = (Inr frame, t) \<and>
    loads demo_env toy_pickler frame t = (Inr [7, 8, 9], t') \<and> segs t' = (\<lambda>_. None) \<and> tracked t' = {}"
  using shm_roundtrip [OF toy_pickler_ok, of demo_env demo_shm "[7, 8, 9]" "[0]"]
  by (simp add: demo_env_def demo_shm_def shm_wf_def keep_in_band_def)

text \<open>A shared-memory frame has one reader: once a message with at least one large buffer has
  been decoded, decoding the same frame again fails with \<^verbatim>\<open>FileNotFoundError\<close>, which is why
  the mailbox uses the transport only when it has exactly one edge.\<close>

theorem shm_frame_single_reader:
  assumes "pickle_ok P" and "0 < shm_min_bytes C" and "shm_wf s"
    and "dumps C P True m s = (Inr frame, t)" and "big_buffers C P m \<noteq> []"
    and "loads C P frame t = (Inr m', t')"
  shows "fst (loads C P frame t') = Inl (FileNotFoundError ''segment'')"
proof -
  let ?bs = "big_buffers C P m"
  let ?n = "next_seg s"
  obtain meta where meta: "p_dumps_cb P m (keep_in_band C) = Inr meta"
    using assms(4) by (cases "p_dumps_cb P m (keep_in_band C)") (auto simp: dumps_def dumps_shm_def bnd_def)
  have d: "frame = TAG_SHM # p_dumps_env P (meta, stored_names ?bs ?n)" "t = stored ?bs s"
    using dumps_shm_ok [OF meta assms(2,3)] assms(4) by auto
  have notin: "?n + i \<notin> tracked s" for i
    using assms(3) by (auto simp: shm_wf_def)
  have "map_io (consume_segment C) (stored_names ?bs ?n) (stored ?bs s) = (Inr ?bs, (stored ?bs s)\<lparr>segs := segs s\<rparr>)"
    using consume_all_ok [of ?bs "stored ?bs s" ?n C] stored_then_cleared [OF assms(3), of ?bs]
    by (simp add: stored_at notin)
  then have "t' = t\<lparr>segs := segs s\<rparr>"
    using assms(6) by (auto simp: d loads_shm_step [OF assms(1)] bnd_def)
  then have gone: "segs t' ?n = None"
    by (simp add: shm_wf_above [OF assms(3)])
  obtain b bs where "?bs = b # bs" using assms(5) by (cases ?bs) auto
  then show ?thesis
    by (simp add: d loads_shm_step [OF assms(1)] bnd_def consume_missing [OF gone])
qed

theorem shm_frame_single_reader_witness:
  "fst (loads demo_env toy_pickler (TAG_SHM # p_dumps_env toy_pickler ([0], [(0, 3)]))
     (demo_shm\<lparr>next_seg := 1\<rparr>)) = Inl (FileNotFoundError ''segment'')"
proof -
  let ?t = "demo_shm\<lparr>segs := (\<lambda>_. None)(0 \<mapsto> [7, 8, 9]), next_seg := 1\<rparr>"
  let ?f = "TAG_SHM # p_dumps_env toy_pickler ([0], [(0, 3)])"
  have big: "big_buffers demo_env toy_pickler [7, 8, 9] = [[7, 8, 9]]"
    by (simp add: big_buffers_def demo_env_def keep_in_band_def)
  have "p_dumps_cb toy_pickler [7, 8, 9] (keep_in_band demo_env) = Inr [0]" "0 < shm_min_bytes demo_env"
    "shm_wf demo_shm"
    by (simp_all add: demo_env_def demo_shm_def shm_wf_def keep_in_band_def)
  from dumps_shm_ok [OF this]
  have d: "dumps demo_env toy_pickler True [7, 8, 9] demo_shm = (Inr ?f, ?t)"
    by (simp add: big demo_shm_def numeral_3_eq_3)
  have "consume_segment demo_env (0, 3) ?t = (Inr [7, 8, 9], ?t\<lparr>segs := (segs ?t)(0 := None)\<rparr>)"
    using consume_segment_ok [of ?t 0 "[7, 8, 9]" demo_env]
    by (simp add: demo_shm_def numeral_3_eq_3)
  then have l: "loads demo_env toy_pickler ?f ?t = (Inr [7, 8, 9], demo_shm\<lparr>next_seg := 1\<rparr>)"
    by (simp add: loads_shm_step [OF toy_pickler_ok] bnd_def) (simp add: demo_shm_def fun_upd_idem)
  show ?thesis
    by (rule shm_frame_single_reader [OF toy_pickler_ok _ _ d _ l])
       (simp_all add: demo_env_def demo_shm_def shm_wf_def big [unfolded demo_env_def])
qed

lemma mb_setstate_queue:
  "mb_setstate Z st w = (Inr b, w') \<Longrightarrow>
   message_queue b = new_queue (int (st_message_queue_size st)) \<and> queue_policy b = st_queue_policy st \<and>
   running b"
  by (auto simp: mb_setstate_def io_simps)

lemma unbounded_enqueue:
  "maxsize (message_queue b) = 0 \<Longrightarrow> running b \<Longrightarrow> queue_policy b \<noteq> CONFLATE \<Longrightarrow>
   enqueue m b = Inr (True, b\<lparr>message_queue := (message_queue b)\<lparr>items := items (message_queue b) @ [m]\<rparr>\<rparr>)"
  by (cases "queue_policy b")
     (simp_all add: enqueue_def enqueue_block_turn_def enqueue_drop_oldest_def put_nowait_def qfull_def)

text \<open>The bound of a mailbox does not survive the hand-off to a child process: the snapshot
  stores the number of queued messages where the rebuilt queue takes its capacity. A mailbox that
  is pickled while empty, as the node classes do at construction, comes back with an unbounded
  queue, which never exerts backpressure and never drops, whatever capacity was configured.\<close>

theorem snapshot_loses_capacity:
  assumes "mb_setstate Z (mb_getstate b) w = (Inr b', w')" and "mb_queue_depth b = 0"
    and "queue_policy b \<noteq> CONFLATE"
  shows "maxsize (message_queue b') = 0 \<and> queue_policy b' = queue_policy b \<and>
    (\<forall>m xs. enqueue m (b'\<lparr>message_queue := \<lparr>maxsize = 0, items = xs\<rparr>\<rparr>) =
       Inr (True, b'\<lparr>message_queue := \<lparr>maxsize = 0, items = xs @ [m]\<rparr>\<rparr>))"
  using mb_setstate_queue [OF assms(1)] assms(2,3)
  by (simp add: mb_getstate_def mb_queue_depth_def unbounded_enqueue new_queue_def)

theorem snapshot_loses_capacity_witness:
  "maxsize (message_queue (demo_mailbox 1 BLOCK)) = 1 \<and>
   (\<exists>b' w'. mb_setstate log_zmq (mb_getstate (demo_mailbox 1 BLOCK)) [] = (Inr b', w') \<and>
      maxsize (message_queue b') = 0)"
proof -
  obtain b' w' where r: "mb_setstate log_zmq (mb_getstate (demo_mailbox 1 BLOCK)) [] = (Inr b', w')"
    by (simp add: mb_setstate_def mb_getstate_def demo_mailbox_def new_sub_def new_zero_queue_def
        init_sub_def set_connection_def bind_port_def log_zmq_def bnd_def seq_def Let_def)
  show ?thesis
    using snapshot_loses_capacity [OF r] r
    by (simp add: demo_mailbox_def mb_queue_depth_def qsize_def new_queue_def)
qed

end
