(* ===== verification/Process_Node.thy ===== *)
theory Process_Node
  imports Node Fan_Out
begin

text \<open>
  \<^verbatim>\<open>neudc/core/base/base_process.py\<close>: a node in a process of its own. The shared-memory values
  (\<^verbatim>\<open>mp.Value\<close>, \<^verbatim>\<open>mp.Event\<close>) that parent and child both see extend the state of the node, so one
  record stands for the two copies of the object. The clock is a parameter. A pass of the run
  loop, a turn of the health monitor and a stop by the parent interleave in a step relation.
\<close>

section \<open>State\<close>

record process_node = node +
  healthy :: bool
  last_success_time :: real
  last_iteration_time :: real
  health_timeout :: real
  health_check_interval :: real
  ready_flag :: bool                 \<comment> \<open>\<^verbatim>\<open>_ready_event\<close>\<close>
  mailbox_config :: mailbox_state
  rebound_mailbox :: "mailbox option"
  monitor_started :: bool

definition HEALTH_INITIAL :: bool where "HEALTH_INITIAL = False"
definition HEALTH_NORMAL :: bool where "HEALTH_NORMAL = True"
definition HEALTH_CHECK_INTERVAL :: real where "HEALTH_CHECK_INTERVAL = 5"
definition HEALTH_TIMEOUT :: real where "HEALTH_TIMEOUT = 15"

text \<open>The constructor keeps a snapshot of the mailbox and stops the mailbox itself.\<close>

definition new_process_node :: "'z zmq_lib \<Rightarrow> string \<Rightarrow> (mailbox \<times> 'z, process_node) io" where
  "new_process_node Z i =
     bnd self (\<lambda>bx.
     seq (mb_stop Z)
     (ret \<lparr>is_running = False, nd_id = i, is_ready = False, stop_flag = False, failed_flag = False,
       thread_started = False, health_gauge = None,
       healthy = HEALTH_INITIAL, last_success_time = 0, last_iteration_time = 0,
       health_timeout = HEALTH_TIMEOUT, health_check_interval = HEALTH_CHECK_INTERVAL,
       ready_flag = False, mailbox_config = mb_getstate bx, rebound_mailbox = None,
       monitor_started = False\<rparr>))"

type_synonym 'w process_world = "process_node \<times> 'w"

section \<open>The child process\<close>

definition mark_running :: "('w, real) io \<Rightarrow> ('w process_world, unit) io" where
  "mark_running clock =
     seq (on_self (\<lambda>n. n\<lparr>healthy := HEALTH_NORMAL\<rparr>)) (
     bnd (lift_w clock) (\<lambda>t. seq (on_self (\<lambda>n. n\<lparr>last_success_time := t\<rparr>)) (
     bnd (lift_w clock) (\<lambda>t. seq (on_self (\<lambda>n. n\<lparr>last_iteration_time := t\<rparr>))
       (on_self (\<lambda>n. n\<lparr>health_gauge := Some 1\<rparr>))))))"

definition start_afterwords :: "'z zmq_lib \<Rightarrow> ('z process_world, unit) io" where
  "start_afterwords Z =
     seq (on_self (\<lambda>n. n\<lparr>monitor_started := True\<rparr>)) (
     bnd self (\<lambda>n. bnd (lift_w (mb_from_state Z (mailbox_config n))) (\<lambda>bx.
     on_self (\<lambda>n. n\<lparr>rebound_mailbox := Some bx\<rparr>))))"

text \<open>\<^verbatim>\<open>run\<close> up to its loop; \<open>init\<close> is the hook \<^verbatim>\<open>init_process_runtime\<close>.\<close>

definition process_startup :: "'z zmq_lib \<Rightarrow> ('z, real) io \<Rightarrow> ('z process_world, unit) io \<Rightarrow> ('z process_world, unit) io" where
  "process_startup Z clock init =
     seq init (seq (mark_running clock) (seq (start_afterwords Z) (on_self (\<lambda>n. n\<lparr>ready_flag := True\<rparr>))))"

text \<open>Unlike the threaded node, a failed send propagates.\<close>

definition process_send_item :: "('w, real) io \<Rightarrow> 'w mailbox_if \<Rightarrow> outgoing \<Rightarrow> ('w process_world, unit) io" where
  "process_send_item clock M item =
     seq (lift_w (m_send M item)) (bnd (lift_w clock) (\<lambda>t. on_self (\<lambda>n. n\<lparr>last_success_time := t\<rparr>)))"

text \<open>The body of the \<^verbatim>\<open>try\<close> of the loop.\<close>

definition pass_body :: "('w process_world) policy_env \<Rightarrow> ('w, real) io \<Rightarrow> 'w mailbox_if \<Rightarrow>
    ('w process_world, 'g) processing \<Rightarrow> (real \<Rightarrow> ('w process_world, bool) io) \<Rightarrow>
    policy \<times> 'w process_world \<Rightarrow> ((exn + unit) \<times> policy \<times> 'w process_world) option" where
  "pass_body E clock M proc wait s = (case lift_w (lift_w (m_receive M)) s of
      (Inl e, s1) \<Rightarrow> Some (Inl e, s1)
    | (Inr None, s1) \<Rightarrow> Some (Inr (), s1)
    | (Inr (Some data), s1) \<Rightarrow>
        (case handle E M proc (process_send_item clock M) wait data s1 of
           None \<Rightarrow> None
         | Some (Inl e, s2) \<Rightarrow> Some (Inl e, s2)
         | Some (Inr r, s2) \<Rightarrow>
             Some (seq (if should_send r then lift_w (process_send_item clock M (the r)) else ret ())
               (lift_w (bnd (lift_w clock) (\<lambda>t. on_self (\<lambda>n. n\<lparr>last_success_time := t\<rparr>)))) s2)))"

text \<open>One pass of \<^verbatim>\<open>while not self.stop_event.is_set()\<close>.\<close>

definition process_pass :: "('w process_world) policy_env \<Rightarrow> ('w, real) io \<Rightarrow> 'w mailbox_if \<Rightarrow>
    ('w process_world, 'g) processing \<Rightarrow> (real \<Rightarrow> ('w process_world, bool) io) \<Rightarrow>
    policy \<times> 'w process_world \<Rightarrow> ((exn + unit) \<times> policy \<times> 'w process_world) option" where
  "process_pass E clock M proc wait s =
     (case lift_w (bnd (lift_w clock) (\<lambda>t. on_self (\<lambda>n. n\<lparr>last_iteration_time := t\<rparr>))) s of
        (Inl e, s1) \<Rightarrow> Some (Inl e, s1)
      | (Inr _, s1) \<Rightarrow> (case pass_body E clock M proc wait s1 of
            Some (Inl e, s2) \<Rightarrow> Some (if is_Exception e then Inr () else Inl e, s2)
          | res \<Rightarrow> res))"

partial_function (option) process_loop :: "('w process_world) policy_env \<Rightarrow> ('w, real) io \<Rightarrow> 'w mailbox_if \<Rightarrow>
    ('w process_world, 'g) processing \<Rightarrow> (real \<Rightarrow> ('w process_world, bool) io) \<Rightarrow>
    policy \<times> 'w process_world \<Rightarrow> ((exn + unit) \<times> policy \<times> 'w process_world) option" where
  "process_loop E clock M proc wait s =
     (if stop_flag (fst (snd s)) then Some (Inr (), s)
      else (case process_pass E clock M proc wait s of
          None \<Rightarrow> None
        | Some (Inl e, s') \<Rightarrow> Some (Inl e, s')
        | Some (Inr _, s') \<Rightarrow> process_loop E clock M proc wait s'))"

section \<open>The parent\<close>

definition process_stop :: "process_node \<Rightarrow> process_node" where
  "process_stop n = n\<lparr>stop_flag := True\<rparr>"

definition process_status :: "process_node \<Rightarrow> bool" where
  "process_status n = healthy n"

text \<open>\<^verbatim>\<open>Event.wait\<close>: given whether the event was set within the timeout.\<close>

definition wait_ready :: "process_node \<Rightarrow> bool" where
  "wait_ready n = ready_flag n"

definition is_processing :: "real \<Rightarrow> process_node \<Rightarrow> bool" where
  "is_processing now n = (now - last_success_time n \<le> health_timeout n)"

text \<open>A turn of \<^verbatim>\<open>_health_monitor\<close> after its sleep.\<close>

definition health_check :: "real \<Rightarrow> process_node \<Rightarrow> process_node" where
  "health_check now n = (if now - last_iteration_time n > health_timeout n
     then n\<lparr>healthy := False, health_gauge := Some 0\<rparr> else n)"

section \<open>The mailbox across the process boundary\<close>

definition pub_routes :: "mailbox \<Rightarrow> (string, int list) dict" where
  "pub_routes bx = map (\<lambda>(t, p). (t, connected_ports p)) (pub_sockets bx)"

definition control_routes :: "mailbox \<Rightarrow> (string, int list list) dict" where
  "control_routes bx = map (\<lambda>(t, ps). (t, map connected_ports ps)) (control_pub_sockets bx)"

text \<open>What \<^verbatim>\<open>add_publisher\<close> and \<^verbatim>\<open>add_control_publisher\<close> leave: a data socket is connected
  somewhere and nowhere twice, a control socket to its one port.\<close>

definition routes_ok :: "mailbox \<Rightarrow> bool" where
  "routes_ok bx \<longleftrightarrow> (\<forall>(t, p) \<in> set (pub_sockets bx). pub_ok p) \<and>
     (\<forall>(t, ps) \<in> set (control_pub_sockets bx). \<forall>p \<in> set ps. connected_ports p = [zq_port p] \<and> zq_port p \<noteq> -1)"

lemma new_pub_ports: "new_pub Z p ps c w = (Inr q, w') \<Longrightarrow> connected_ports q = uniq_from [] (all_ports p ps)"
  by (simp add: new_pub_ok)

lemma list_all2_map_eq:
  "list_all2 R xs ys \<Longrightarrow> (\<And>x y. x \<in> set xs \<Longrightarrow> R x y \<Longrightarrow> f x = g y) \<Longrightarrow> map f xs = map g ys"
  by (induction rule: list_all2_induct) auto

lemma uniq_from_id: "distinct (acc @ xs) \<Longrightarrow> uniq_from acc xs = acc @ xs"
  by (induction acc xs rule: uniq_from.induct) auto

lemma setstate_Inr:
  assumes "mb_setstate Z st z = (Inr bx', z')"
  shows "list_all2 (\<lambda>(t, ps) (t', q). t' = t \<and> connected_ports q = uniq_from [] (all_ports (-1) (Some ps)))
      (st_pub_ports st) (pub_sockets bx') \<and>
    list_all2 (\<lambda>(t, ps) (t', qs). t' = t \<and> list_all2 (\<lambda>p q. connected_ports q = uniq_from [] (all_ports p None)) ps qs)
      (st_control_ports st) (control_pub_sockets bx') \<and>
    consume_port bx' = st_consume_port st \<and> control_consume_port bx' = st_control_consume_port st \<and>
    cancelled_turns bx' = st_cancelled_turns st \<and> queue_policy bx' = st_queue_policy st"
proof -
  obtain pubs w1 w2 w3 cpubs where
    1: "map_io (\<lambda>(t, ps). bnd (new_pub Z (-1) (Some ps) CONNECT) (\<lambda>p. ret (t, p))) (st_pub_ports st) z = (Inr pubs, w1)" and
    2: "map_io (\<lambda>(t, ps). bnd (map_io (\<lambda>p. new_pub Z p None CONNECT) ps) (\<lambda>l. ret (t, l))) (st_control_ports st) w2 = (Inr cpubs, w3)" and
    bx: "pub_sockets bx' = pubs" "control_pub_sockets bx' = cpubs" "consume_port bx' = st_consume_port st"
      "control_consume_port bx' = st_control_consume_port st"
      "cancelled_turns bx' = st_cancelled_turns st" "queue_policy bx' = st_queue_policy st"
    using assms by (auto simp: mb_setstate_def io_simps)
  have "list_all2 (\<lambda>(t, ps) (t', q). t' = t \<and> connected_ports q = uniq_from [] (all_ports (-1) (Some ps))) (st_pub_ports st) pubs"
    by (rule map_io_all2 [OF 1]) (auto simp: io_simps dest: new_pub_ports)
  moreover have "list_all2 (\<lambda>(t, ps) (t', qs). t' = t \<and> list_all2 (\<lambda>p q. connected_ports q = uniq_from [] (all_ports p None)) ps qs)
      (st_control_ports st) cpubs"
  proof (rule map_io_all2 [OF 2], clarsimp simp: io_simps)
    fix a ps w l w'
    assume "map_io (\<lambda>p. new_pub Z p None CONNECT) ps w = (Inr l, w')"
    then show "list_all2 (\<lambda>p q. connected_ports q = uniq_from [] (all_ports p None)) ps l"
      by (rule map_io_all2) (rule new_pub_ports)
  qed
  ultimately show ?thesis using bx by simp
qed

text \<open>Moving a mailbox into the child process keeps its place in the graph: the mailbox rebuilt
  from the snapshot consumes on the same data and control ports, sends to the same ports of the
  same targets, on both channels, and knows the same cancelled turns.\<close>

theorem rebound_mailbox_keeps_routes:
  assumes "mb_from_state Z (mb_getstate bx) z = (Inr bx', z')" and "routes_ok bx"
  shows "consume_port bx' = consume_port bx \<and> control_consume_port bx' = control_consume_port bx \<and>
    pub_routes bx' = pub_routes bx \<and> control_routes bx' = control_routes bx \<and>
    cancelled_turns bx' = cancelled_turns bx \<and> queue_policy bx' = queue_policy bx"
proof -
  obtain w where "mb_setstate Z (mb_getstate bx) w = (Inr bx', z')"
    using assms(1) by (auto simp: mb_from_state_def io_simps)
  note s = setstate_Inr [OF this]
  have ports: "uniq_from [] (all_ports (-1) (Some (connected_ports p))) = connected_ports p" if "pub_ok p" for p
    using that by (cases "connected_ports p") (auto simp: pub_ok_def all_ports_def uniq_from_id)
  have "map (\<lambda>x. x) (st_pub_ports (mb_getstate bx)) = map (\<lambda>(t, p). (t, connected_ports p)) (pub_sockets bx')"
  proof (rule list_all2_map_eq [OF s [THEN conjunct1]])
    fix x :: "string \<times> int list" and y :: "string \<times> zero_pub"
    assume "x \<in> set (st_pub_ports (mb_getstate bx))"
      and "(\<lambda>(t, ps) (t', q). t' = t \<and> connected_ports q = uniq_from [] (all_ports (-1) (Some ps))) x y"
    then show "x = (case y of (t, p) \<Rightarrow> (t, connected_ports p))"
      using assms(2) ports by (auto simp: mb_getstate_def routes_ok_def split: prod.splits)
  qed
  then have "pub_routes bx' = pub_routes bx"
    by (simp add: pub_routes_def mb_getstate_def)
  have "map (\<lambda>(t, ps). (t, map (\<lambda>p. [p]) ps)) (st_control_ports (mb_getstate bx)) =
    map (\<lambda>(t, ps). (t, map connected_ports ps)) (control_pub_sockets bx')"
  proof (rule list_all2_map_eq [OF s [THEN conjunct2, THEN conjunct1]])
    fix x :: "string \<times> int list" and y :: "string \<times> zero_pub list"
    assume x: "x \<in> set (st_control_ports (mb_getstate bx))"
      and r: "(\<lambda>(t, ps) (t', qs).
        t' = t \<and> list_all2 (\<lambda>p q. connected_ports q = uniq_from [] (all_ports p None)) ps qs) x y"
    obtain t ps qs where xy: "x = (t, ps)" "y = (t, qs)"
      and l: "list_all2 (\<lambda>p q. connected_ports q = uniq_from [] (all_ports p None)) ps qs"
      using r by (cases x; cases y) auto
    have "p \<noteq> -1" if "p \<in> set ps" for p
      using that x xy assms(2) by (fastforce simp: mb_getstate_def routes_ok_def)
    then have "map (\<lambda>p. [p]) ps = map connected_ports qs"
      by (intro list_all2_map_eq [OF l]) (simp add: all_ports_def)
    then show "(case x of (t, ps) \<Rightarrow> (t, map (\<lambda>p. [p]) ps)) = (case y of (t, ps) \<Rightarrow> (t, map connected_ports ps))"
      using xy by simp
  qed
  moreover have "map (\<lambda>(t, ps). (t, map (\<lambda>p. [p]) ps)) (st_control_ports (mb_getstate bx)) = control_routes bx"
    using assms(2) by (auto simp: control_routes_def mb_getstate_def routes_ok_def)
  ultimately have "control_routes bx' = control_routes bx"
    by (simp add: control_routes_def)
  with \<open>pub_routes bx' = pub_routes bx\<close> show ?thesis using s by (simp add: mb_getstate_def)
qed

definition routed_mailbox :: mailbox where
  "routed_mailbox = (demo_mailbox 2 DROP_OLDEST)\<lparr>
     pub_sockets := [(''a'', (demo_pub 1)\<lparr>connected_ports := [7001, 7002]\<rparr>)],
     control_pub_sockets := [(''b'', [(demo_pub 2)\<lparr>zq_port := 7003, connected_ports := [7003]\<rparr>])]\<rparr>"

theorem rebound_mailbox_keeps_routes_witness:
  "\<exists>b' w'. mb_from_state log_zmq (mb_getstate routed_mailbox) [] = (Inr b', w') \<and>
    pub_routes b' = [(''a'', [7001, 7002])] \<and> control_routes b' = [(''b'', [[7003]])]"
proof -
  obtain b' w' where r: "mb_from_state log_zmq (mb_getstate routed_mailbox) [] = (Inr b', w')"
    by (simp add: mb_from_state_def new_mailbox_def mb_stop_def dvalues_def zq_stop_def queue_policy_of_def new_pub_def all_ports_def
        connect_additional_def mb_setstate_def mb_getstate_def routed_mailbox_def demo_mailbox_def new_sub_def
        new_zero_queue_def init_pub_def mb_start_def
        init_sub_def set_connection_def bind_port_def log_zmq_def bnd_def seq_def Let_def)
  have "routes_ok routed_mailbox"
    by (simp add: routes_ok_def routed_mailbox_def pub_ok_def demo_pub_def demo_mailbox_def)
  from rebound_mailbox_keeps_routes [OF r this] r show ?thesis
    by (simp add: pub_routes_def control_routes_def routed_mailbox_def demo_mailbox_def)
qed

section \<open>What ends the loop\<close>

definition never_raises :: "('w, 'a) io \<Rightarrow> bool" where
  "never_raises m \<longleftrightarrow> (\<forall>w. \<exists>x w'. m w = (Inr x, w'))"

lemma clock_update_runs:
  assumes "never_raises clock"
  shows "\<exists>s'. lift_w (bnd (lift_w clock) (\<lambda>t. on_self (f t))) s = (Inr (), s')"
proof (cases s)
  case (fields p n w)
  obtain t w' where "clock w = (Inr t, w')" using assms unfolding never_raises_def by blast
  then show ?thesis using fields by (simp add: bnd_def)
qed

lemma pass_error_not_Exception:
  assumes "never_raises clock" and "process_pass E clock M proc wait s = Some (Inl e, s')"
  shows "\<not> is_Exception e"
proof -
  obtain s1 where "lift_w (bnd (lift_w clock) (\<lambda>t. on_self (\<lambda>n. n\<lparr>last_iteration_time := t\<rparr>))) s = (Inr (), s1)"
    using clock_update_runs [OF assms(1)] by (rule exE)
  with assms(2) show ?thesis
    by (auto simp: process_pass_def split: option.splits prod.splits sum.splits if_splits)
qed

text \<open>The body of \<^verbatim>\<open>process_loop\<close> with the recursive call as an argument, for induction.\<close>

definition process_loop_body ::
  "(('w process_world) policy_env \<Rightarrow> ('w, real) io \<Rightarrow> 'w mailbox_if \<Rightarrow> ('w process_world, 'g) processing \<Rightarrow>
      (real \<Rightarrow> ('w process_world, bool) io) \<Rightarrow> policy \<times> 'w process_world \<Rightarrow>
      ((exn + unit) \<times> policy \<times> 'w process_world) option) \<Rightarrow>
    ('w process_world) policy_env \<Rightarrow> ('w, real) io \<Rightarrow> 'w mailbox_if \<Rightarrow> ('w process_world, 'g) processing \<Rightarrow>
      (real \<Rightarrow> ('w process_world, bool) io) \<Rightarrow> policy \<times> 'w process_world \<Rightarrow>
      ((exn + unit) \<times> policy \<times> 'w process_world) option" where
  "process_loop_body rec E clock M proc wait s =
     (if stop_flag (fst (snd s)) then Some (Inr (), s)
      else (case process_pass E clock M proc wait s of
          None \<Rightarrow> None
        | Some (Inl e, s') \<Rightarrow> Some (Inl e, s')
        | Some (Inr _, s') \<Rightarrow> rec E clock M proc wait s'))"

text \<open>The loop of a process node survives every error: when it ends, either the node was asked
  to stop (or failed under its policy, which sets the same event) or something that is not an
  \<^verbatim>\<open>Exception\<close> (an interrupt) went through; an \<^verbatim>\<open>Exception\<close> of receiving, decoding, processing,
  dead-lettering or sending never ends it.\<close>

theorem process_loop_ends_only_on_stop:
  assumes "never_raises clock" and "process_loop E clock M proc wait s = Some (r, s')"
  shows "(r = Inr () \<and> stop_flag (fst (snd s'))) \<or> (\<exists>e. r = Inl e \<and> \<not> is_Exception e)"
proof -
  define post where "post = (\<lambda>res :: (exn + unit) \<times> policy \<times> 'a process_world.
    (fst res = Inr () \<and> stop_flag (fst (snd (snd res)))) \<or> (\<exists>e. fst res = Inl e \<and> \<not> is_Exception e))"
  have "never_raises clock \<longrightarrow> post (r, s')"
  proof (rule process_loop.raw_induct [rotated, folded process_loop_body_def, OF assms(2)], rule impI)
    fix rec :: "('a process_world) policy_env \<Rightarrow> ('a, real) io \<Rightarrow> 'a mailbox_if \<Rightarrow> ('a process_world, 'b) processing \<Rightarrow>
      (real \<Rightarrow> ('a process_world, bool) io) \<Rightarrow> policy \<times> 'a process_world \<Rightarrow>
      ((exn + unit) \<times> policy \<times> 'a process_world) option"
    fix E clock M proc wait s res
    assume IH: "\<And>E clock M proc wait s res. rec E clock M proc wait s = Some res \<Longrightarrow> never_raises clock \<longrightarrow> post res"
      and body: "process_loop_body rec E clock M proc wait s = Some res" and c: "never_raises clock"
    show "post res"
    proof (cases "stop_flag (fst (snd s))")
      case True
      then show ?thesis using body by (auto simp: process_loop_body_def post_def)
    next
      case False
      then obtain r1 s1 where pass: "process_pass E clock M proc wait s = Some (r1, s1)"
        using body by (auto simp: process_loop_body_def split: option.splits)
      show ?thesis
      proof (cases r1)
        case (Inl e)
        then show ?thesis using body False pass pass_error_not_Exception [OF c, of E M proc wait s e s1]
          by (auto simp: process_loop_body_def post_def)
      next
        case (Inr u)
        then show ?thesis using body False pass IH c by (auto simp: process_loop_body_def)
      qed
    qed
  qed
  then show ?thesis using assms(1) by (simp add: post_def)
qed

definition demo_process :: process_node where
  "demo_process = \<lparr>is_running = False, nd_id = ''n'', is_ready = False, stop_flag = False, failed_flag = False,
     thread_started = False, health_gauge = Some 1, healthy = True, last_success_time = 0,
     last_iteration_time = 0, health_timeout = HEALTH_TIMEOUT, health_check_interval = HEALTH_CHECK_INTERVAL,
     ready_flag = True,
     mailbox_config = \<lparr>st_message_queue_size = 0, st_queue_policy = BLOCK, st_pub_ports = [], st_consume_port = 1,
       st_control_ports = [], st_control_consume_port = 2, st_cancelled_turns = {}, st_join_timeout = 0,
       st_name = ''n''\<rparr>,
     rebound_mailbox = None, monitor_started = True\<rparr>"

definition still_clock :: "('w, real) io" where
  "still_clock = (\<lambda>w. (Inr 7, w))"

lemma never_raises_still_clock: "never_raises still_clock"
  by (simp add: never_raises_def still_clock_def)

text \<open>A node that gives up leaves its process: when the policy ends a message in
  \<^verbatim>\<open>NodeFailure\<close>, the loop returns after this very pass, normally and with the failure flag set
  for the pipeline to see; no further message is received.\<close>

theorem failed_node_leaves_loop:
  assumes "\<not> stop_flag n" and "clock w = (Inr t, w1)" and "m_receive M w1 = (Inr (Some data), w2)"
    and "m_is_cancelled M = None"
    and "execute_function E f data (Some wait) (p, (n\<lparr>last_iteration_time := t\<rparr>, w2)) = (Inl (NodeFailure msg), (p', (n', w3)))"
    and "clock w3 = (Inr t', w4)"
  shows "process_loop E clock M (Function f) wait (p, (n, w)) =
    Some (Inr (), (p', (n'\<lparr>failed_flag := True, is_running := False, stop_flag := True, last_success_time := t'\<rparr>, w4)))"
  using assms
  by (subst process_loop.simps, simp add: process_pass_def pass_body_def handle_def run_policy_function run_policy_generator
      node_is_cancelled_def bnd_def seq_def should_send_def, subst process_loop.simps, simp)

text \<open>The same failed send is judged differently by the kind of \<^verbatim>\<open>process()\<close>: for a function it
  escapes to the run loop and the policy counts the message as processed; for a generator the
  send happens inside the policy, which counts a processing error and drops the message.\<close>

theorem send_failure_verdict:
  assumes "clock w = (Inr t, w1)" and "m_receive M w1 = (Inr (Some data), w2)" and "m_is_cancelled M = None"
    and "m_send M v w2 = (Inl e, w3)" and "is_Exception e" and "\<And>s. e \<noteq> NodeFailure s" and "e \<noteq> StopIteration"
    and "clock w3 = (Inr t', w4)" and "should_send (Some v)"
    and "config p = default_policy_config" and "sink p = None"
  shows "\<exists>pf nf wf pg ng wg.
    process_pass E clock M (Function (\<lambda>_. ret (Some v))) wait (p, (n, w)) = Some (Inr (), (pf, (nf, wf))) \<and>
    stats pf = inc_processed (stats p) \<and> last_success_time nf = last_success_time n \<and>
    process_pass E clock M (Generator \<lparr>gen_start = (\<lambda>_. True),
        gen_next = (\<lambda>g. ret (if g then Some (v, False) else None)), gen_close = (\<lambda>_. ret ())\<rparr>) wait (p, (n, w)) =
      Some (Inr (), (pg, (ng, wg))) \<and>
    stats pg = inc_dropped (inc_errors (stats p)) \<and> last_success_time ng = t'"
proof -
  have att: "[0..<attempts_of (config p)] = [0]"
    using assms(10) by (simp add: attempts_of_def default_policy_config_def)
  have none: "\<not> should_send None" by (simp add: should_send_def)
  have skip: "on_error default_policy_config = SKIP" by (simp add: default_policy_config_def)
  show ?thesis
    using assms att skip none
    by (simp add: process_pass_def pass_body_def handle_def run_policy_function run_policy_generator node_is_cancelled_def execute_function_def
        execute_generator_def drain.simps process_send_item_def try_exn_def inc_def observe_latency_def
        bnd_def seq_def drain_exn_def give_up_def)
qed

section \<open>Health\<close>

text \<open>What happens to the shared health values over time: the loop marks a pass or a success, time
  passes, the monitor checks, the parent stops the node.\<close>

inductive health_step :: "process_node \<times> real \<Rightarrow> process_node \<times> real \<Rightarrow> bool" where
  hs_iterate: "\<not> stop_flag n \<Longrightarrow> health_step (n, t) (n\<lparr>last_iteration_time := t\<rparr>, t)"
| hs_success: "health_step (n, t) (n\<lparr>last_success_time := t\<rparr>, t)"
| hs_tick: "0 \<le> d \<Longrightarrow> health_step (n, t) (n, t + d)"
| hs_check: "\<not> stop_flag n \<Longrightarrow> health_step (n, t) (health_check t n, t)"
| hs_stop: "health_step (n, t) (process_stop n, t)"

text \<open>A loop that is cycling: time never runs past the timeout since the last pass.\<close>

definition timely :: "process_node \<times> real \<Rightarrow> bool" where
  "timely s = (snd s - last_iteration_time (fst s) \<le> health_timeout (fst s))"

definition cycling_step :: "process_node \<times> real \<Rightarrow> process_node \<times> real \<Rightarrow> bool" where
  "cycling_step s s' \<longleftrightarrow> health_step s s' \<and> timely s'"

definition started :: "process_node \<times> real \<Rightarrow> bool" where
  "started s \<longleftrightarrow> healthy (fst s) \<and> timely s"

inductive_cases health_stepE: "health_step s s'"

interpretation cycling: invariant_system started cycling_step started
  by unfold_locales
    (auto simp: started_def cycling_step_def timely_def health_check_def process_stop_def elim!: health_stepE)

definition flagged :: "process_node \<times> real \<Rightarrow> bool" where
  "flagged s \<longleftrightarrow> \<not> healthy (fst s)"

interpretation unhealthy: invariant_system flagged health_step flagged
  by unfold_locales
    (auto simp: flagged_def health_check_def process_stop_def elim!: health_stepE split: if_splits)

text \<open>An idle node stays healthy: as long as the loop keeps cycling within the timeout, no
  interleaving with the monitor flags it, whether or not a message is ever processed.\<close>

theorem cycling_node_stays_healthy:
  assumes "healthy n" and "timely (n, t)" and "cycling_step\<^sup>*\<^sup>* (n, t) (n', t')"
  shows "process_status n'"
  using cycling.steps_inv [OF assms(3)] assms(1,2) by (simp add: started_def process_status_def)

text \<open>An unhealthy verdict is final: once the monitor has flagged a node no later event makes it
  healthy again, also when its loop cycles again after a long call.\<close>

theorem unhealthy_verdict_is_final:
  assumes "\<not> process_status n" and "health_step\<^sup>*\<^sup>* (n, t) (n', t')"
  shows "\<not> process_status n'"
  using unhealthy.steps_inv [OF assms(2)] assms(1) by (simp add: flagged_def process_status_def)

theorem cycling_node_stays_healthy_witness:
  "process_status (health_check 10 (demo_process\<lparr>last_iteration_time := 0\<rparr>))"
proof -
  have h: "healthy demo_process" "timely (demo_process, 0)"
    by (simp_all add: demo_process_def timely_def HEALTH_TIMEOUT_def)
  have "cycling_step (demo_process, 0) (demo_process, 0 + 10)"
    unfolding cycling_step_def
    by (intro conjI hs_tick) (simp_all add: timely_def demo_process_def HEALTH_TIMEOUT_def)
  moreover have "cycling_step (demo_process, 10) (health_check 10 demo_process, 10)"
    unfolding cycling_step_def
    by (intro conjI hs_check) (simp_all add: timely_def demo_process_def HEALTH_TIMEOUT_def health_check_def)
  ultimately have "cycling_step\<^sup>*\<^sup>* (demo_process, 0) (health_check 10 demo_process, 10)"
    by (simp add: converse_rtranclp_into_rtranclp)
  from cycling_node_stays_healthy [OF h this] show ?thesis by (simp add: demo_process_def)
qed

theorem unhealthy_verdict_is_final_witness:
  "\<not> process_status ((health_check 20 demo_process)\<lparr>last_iteration_time := 20\<rparr>)"
proof -
  have u: "\<not> process_status (health_check 20 demo_process)"
    by (simp add: demo_process_def HEALTH_TIMEOUT_def health_check_def process_status_def)
  have "health_step (health_check 20 demo_process, 20) ((health_check 20 demo_process)\<lparr>last_iteration_time := 20\<rparr>, 20)"
    by (rule hs_iterate) (simp add: demo_process_def health_check_def)
  from unhealthy_verdict_is_final [OF u r_into_rtranclp [of health_step, OF this]] show ?thesis .
qed

definition raising_if :: "nat mailbox_if" where
  "raising_if = \<lparr>m_receive = (\<lambda>w. (Inr (Some demo_text), w)), m_send = (\<lambda>_ w. (Inl (ZMQError ''closed''), w)),
     m_is_cancelled = None, m_stop = (\<lambda>w. (Inr (), w))\<rparr>"

definition breaking :: "message \<Rightarrow> (nat process_world, outgoing option) io" where
  "breaking = (\<lambda>m w. (Inl (ValueError ''broken''), w))"

lemma breaking_leaves_loop:
  "\<exists>p' n'. process_loop quiet_env still_clock raising_if (Function breaking :: (nat process_world, unit) processing) (\<lambda>_ w. (Inr False, w))
      (new_policy (retry_config\<lparr>on_error := FAIL\<rparr>) ''n'', (demo_process, 0)) = Some (Inr (), (p', (n', 0)))"
  by (subst process_loop.simps, simp add: process_pass_def pass_body_def handle_def run_policy_function run_policy_generator
      node_is_cancelled_def bnd_def seq_def should_send_def execute_function_def new_policy_def retry_config_def
      default_policy_config_def attempts_of_def try_exn_def breaking_def after_failure_def give_up_def
      still_clock_def raising_if_def demo_process_def, subst process_loop.simps, simp)

theorem failed_node_leaves_loop_witness:
  "\<exists>p' n'. process_loop quiet_env still_clock raising_if (Function breaking :: (nat process_world, unit) processing) (\<lambda>_ w. (Inr False, w))
      (new_policy (retry_config\<lparr>on_error := FAIL\<rparr>) ''n'', (demo_process, 0)) = Some (Inr (), (p', (n', 0))) \<and>
    failed_flag n'"
proof -
  let ?p = "new_policy (retry_config\<lparr>on_error := FAIL\<rparr>) ''n''"
  have s: "\<not> stop_flag demo_process" by (simp add: demo_process_def)
  obtain p' where e: "execute_function quiet_env breaking demo_text (Some (\<lambda>_ w. (Inr False, w)))
      (?p, (demo_process\<lparr>last_iteration_time := 7\<rparr>, 0)) =
      (Inl (NodeFailure ''processing failed''), (p', (demo_process\<lparr>last_iteration_time := 7\<rparr>, 0)))"
    by (simp add: execute_function_def bnd_def new_policy_def retry_config_def default_policy_config_def attempts_of_def
        try_exn_def breaking_def seq_def after_failure_def give_up_def)
  have c: "still_clock (0::nat) = (Inr 7, 0)" by (simp add: still_clock_def)
  have r: "m_receive raising_if 0 = (Inr (Some demo_text), 0)" "m_is_cancelled raising_if = None"
    by (simp_all add: raising_if_def)
  from failed_node_leaves_loop [where clock = still_clock and M = raising_if and w = 0 and f = breaking,
      OF s c r e c] show ?thesis by fastforce
qed

theorem process_loop_ends_only_on_stop_witness:
  "\<exists>r p' n' w'. process_loop quiet_env still_clock raising_if (Function breaking :: (nat process_world, unit) processing) (\<lambda>_ w. (Inr False, w))
      (new_policy (retry_config\<lparr>on_error := FAIL\<rparr>) ''n'', (demo_process, 0)) = Some (r, (p', (n', w'))) \<and>
    (stop_flag n' \<or> (\<exists>e. r = Inl e \<and> \<not> is_Exception e))"
proof -
  obtain p' n' where l: "process_loop quiet_env still_clock raising_if (Function breaking :: (nat process_world, unit) processing) (\<lambda>_ w. (Inr False, w))
      (new_policy (retry_config\<lparr>on_error := FAIL\<rparr>) ''n'', (demo_process, 0)) = Some (Inr (), (p', (n', 0)))"
    using breaking_leaves_loop by blast
  from process_loop_ends_only_on_stop [OF never_raises_still_clock l] l show ?thesis by fastforce
qed

theorem send_failure_verdict_witness:
  "\<exists>pf nf wf. process_pass quiet_env still_clock raising_if (Function (\<lambda>_. ret (Some (Single demo_text))) :: (nat process_world, unit) processing)
      (\<lambda>_ w. (Inr False, w)) (new_policy default_policy_config ''n'', (demo_process, 0)) = Some (Inr (), (pf, (nf, wf))) \<and>
    last_success_time nf = 0"
proof -
  have h: "still_clock (0::nat) = (Inr 7, 0)" "m_receive raising_if 0 = (Inr (Some demo_text), 0)"
    "m_is_cancelled raising_if = None" "m_send raising_if (Single demo_text) 0 = (Inl (ZMQError ''closed''), 0)"
    "is_Exception (ZMQError ''closed'')" "\<And>s. ZMQError ''closed'' \<noteq> NodeFailure s" "ZMQError ''closed'' \<noteq> StopIteration"
    "should_send (Some (Single demo_text))" "config (new_policy default_policy_config ''n'') = default_policy_config"
    "sink (new_policy default_policy_config ''n'') = None"
    by (simp_all add: still_clock_def raising_if_def should_send_def new_policy_def default_policy_config_def)
  obtain pf nf wf where "process_pass quiet_env still_clock raising_if (Function (\<lambda>_. ret (Some (Single demo_text))) :: (nat process_world, unit) processing)
      (\<lambda>_ w. (Inr False, w)) (new_policy default_policy_config ''n'', (demo_process, 0)) = Some (Inr (), (pf, (nf, wf)))"
      "last_success_time nf = last_success_time demo_process"
    using send_failure_verdict [where clock = still_clock and M = raising_if and w = 0, OF h(1-7) h(1) h(8-10), of quiet_env "\<lambda>_ w. (Inr False, w)" demo_process] by blast
  then show ?thesis by (auto simp: demo_process_def)
qed

end
