(* ===== verification/Node_Factory.thy ===== *)
theory Node_Factory
  imports Error_Policy
begin

text \<open>
  \<^verbatim>\<open>neudc/core/node/node_factory.py\<close> and \<^verbatim>\<open>neudc/utils/extras.py\<close>: resolving a node type to
  its class, telling a missing optional extra from a broken import, and building a node. Importing
  a module and a class's own \<^verbatim>\<open>from_config\<close> are parameters.
\<close>

section \<open>Optional extras\<close>

definition EXTRA_MODULES :: "(string, string list) dict" where
  "EXTRA_MODULES = [(''cv'', [''cv2'', ''torch'', ''torchvision'', ''sklearn'', ''skimage'', ''imagehash'',
     ''ultralytics'', ''PIL''])]"

text \<open>\<^verbatim>\<open>module_name.partition(".")[0]\<close>.\<close>

definition top_level :: "string \<Rightarrow> string" where
  "top_level s = takeWhile (\<lambda>c. c \<noteq> CHR ''.'') s"

definition extra_providing :: "string option \<Rightarrow> string option" where
  "extra_providing name = (case name of
      None \<Rightarrow> None
    | Some n \<Rightarrow> if n = [] then None
        else map_option fst (List.find (\<lambda>(extra, modules). top_level n \<in> set modules) EXTRA_MODULES))"

fun missing_name :: "exn \<Rightarrow> string option" where
  "missing_name (ModuleNotFoundError n) = Some n"
| "missing_name (MissingExtraError n) = Some n"
| "missing_name _ = None"

definition import_module_for :: "(string \<Rightarrow> exn + 'c) \<Rightarrow> string \<Rightarrow> exn + 'c" where
  "import_module_for imp path = (case imp path of
      Inr c \<Rightarrow> Inr c
    | Inl e \<Rightarrow> if is_ModuleNotFound e
        then (case extra_providing (missing_name e) of
            None \<Rightarrow> Inl e
          | Some _ \<Rightarrow> Inl (MissingExtraError (case missing_name e of Some n \<Rightarrow> n | None \<Rightarrow> [])))
        else Inl e)"

definition require_extra :: "(string \<Rightarrow> bool) \<Rightarrow> string list \<Rightarrow> exn + unit" where
  "require_extra installed ms = (case List.find (\<lambda>m. \<not> installed m) ms of
      None \<Rightarrow> Inr ()
    | Some m \<Rightarrow> Inl (MissingExtraError m))"

section \<open>Node types\<close>

definition NODE_IMPORTS :: "(string, string \<times> string) dict" where
  "NODE_IMPORTS =
    [(''FolderImageNode'', (''neudc.core.node.readers.image_reader'', ''FolderImageNode'')),
     (''AudioReaderNode'', (''neudc.core.node.readers.audio_reader'', ''AudioReaderNode'')),
     (''SaveImageNode'', (''neudc.core.node.broadcast.image_saver'', ''SaveImageNode'')),
     (''ResizeProcessNode'', (''neudc.core.node.processors.resize_process_node'', ''ResizeProcessNode'')),
     (''ResizeNode'', (''neudc.core.node.processors.resize_node'', ''ResizeNode'')),
     (''ProcessDetInference'', (''neudc.core.node.model.proc_det_inference'', ''ProcessDetInference'')),
     (''DrawNode'', (''neudc.core.node.processors.draw_node'', ''DrawNode'')),
     (''HashNode'', (''neudc.core.node.filters.hash_node'', ''HashNode'')),
     (''VadNode'', (''neudc.core.node.filters.vad_node'', ''VadNode'')),
     (''ProcessBlurInference'', (''neudc.core.node.model.proc_blur_inference'', ''ProcessBlurInference'')),
     (''ProcessEmbeddingInference'', (''neudc.core.node.model.proc_embedding_inference'', ''ProcessEmbeddingInference'')),
     (''ProcessDetBatchInference'', (''neudc.core.node.model.proc_det_batch_inference'', ''ProcessDetBatchInference'')),
     (''ActiveLearning'', (''neudc.core.node.model.active_learning_node'', ''ActiveLearning'')),
     (''CreateDataset'', (''neudc.core.node.processors.create_dataset_node'', ''CreateDataset'')),
     (''TextNormalizeNode'', (''neudc.core.node.processors.text_normalize_node'', ''TextNormalizeNode'')),
     (''AsrNode'', (''neudc.core.node.model.asr_node'', ''AsrNode'')),
     (''LlmNode'', (''neudc.core.node.model.llm_node'', ''LlmNode'')),
     (''TtsNode'', (''neudc.core.node.model.tts_node'', ''TtsNode'')),
     (''AudioPlayerNode'', (''neudc.core.node.broadcast.audio_player'', ''AudioPlayerNode'')),
     (''AgentToolNode'', (''neudc.core.node.processors.agent_tool_node'', ''AgentToolNode''))]"

text \<open>The \<^verbatim>\<open>accepts\<close> and \<^verbatim>\<open>emits\<close> of the node classes; \<^verbatim>\<open>(Frame,)\<close> is the default of
  \<^verbatim>\<open>BaseNode\<close>.\<close>

definition class_accepts :: "string \<Rightarrow> message_class list" where
  "class_accepts c =
     (if c \<in> {''TtsNode'', ''LlmNode'', ''TextNormalizeNode'', ''AgentToolNode''} then [TextChunk_c]
      else if c \<in> {''AsrNode'', ''VadNode'', ''AudioPlayerNode''} then [AudioChunk_c]
      else [Frame_c])"

definition class_emits :: "string \<Rightarrow> message_class list" where
  "class_emits c =
     (if c \<in> {''LlmNode'', ''AsrNode'', ''TextNormalizeNode'', ''AgentToolNode''} then [TextChunk_c]
      else if c \<in> {''TtsNode'', ''AudioReaderNode'', ''VadNode'', ''AudioPlayerNode''} then [AudioChunk_c]
      else [Frame_c])"

text \<open>\<^verbatim>\<open>imp\<close> says whether a module imports, or the exception it raises.\<close>

definition resolve :: "(string \<Rightarrow> exn + unit) \<Rightarrow> string \<Rightarrow> exn + string" where
  "resolve imp node_type = (case dget NODE_IMPORTS node_type of
      None \<Rightarrow> Inl (ValueError ''Unknown node type'')
    | Some (module_path, class_name) \<Rightarrow> (case import_module_for imp module_path of
          Inl e \<Rightarrow> Inl e
        | Inr _ \<Rightarrow> Inr class_name))"

definition get_accepts :: "(string \<Rightarrow> exn + unit) \<Rightarrow> string \<Rightarrow> exn + message_class list" where
  "get_accepts imp node_type = map_sum (\<lambda>e. e) class_accepts (resolve imp node_type)"

definition get_emits :: "(string \<Rightarrow> exn + unit) \<Rightarrow> string \<Rightarrow> exn + message_class list" where
  "get_emits imp node_type = map_sum (\<lambda>e. e) class_emits (resolve imp node_type)"

section \<open>Building a node\<close>

text \<open>The attributes the factory wires onto an instance of any class; the class's own part is of
  any type.\<close>

record 'n built_node =
  bn_class :: string
  bn_id :: string
  bn_policy :: policy
  bn_health_timeout :: "yaml option"
  bn_health_check_interval :: "yaml option"
  bn_object :: 'n

definition ROUTING_KEYS :: "string list" where
  "ROUTING_KEYS = [''type'', ''outputs'', ''replicas'', ''autoscale'', ''message_queue_size'', ''queue_policy'',
     ''error_policy'', ''health_timeout'', ''health_check_interval'']"

text \<open>The copy of the configuration without the popped keys.\<close>

definition node_arguments :: "raw_dict \<Rightarrow> raw_dict" where
  "node_arguments cfg = fold ddel ROUTING_KEYS cfg"

text \<open>\<^verbatim>\<open>config.pop(k, None)\<close> followed by \<^verbatim>\<open>is not None\<close>.\<close>

definition popped :: "raw_dict \<Rightarrow> string \<Rightarrow> yaml option" where
  "popped cfg k = (case dget cfg k of None \<Rightarrow> None | Some YNull \<Rightarrow> None | Some v \<Rightarrow> Some v)"

definition create_node_id :: "raw_dict \<Rightarrow> string \<Rightarrow> exn + string" where
  "create_node_id cfg node_type = (case dget cfg ''id'' of
      None \<Rightarrow> Inr node_type
    | Some v \<Rightarrow> if \<not> y_truth v then Inr node_type
        else (case v of YStr s \<Rightarrow> Inr s | _ \<Rightarrow> Inl (TypeError ''id'')))"

definition create_node :: "pydantic \<Rightarrow> (string \<Rightarrow> exn + unit) \<Rightarrow> (string \<Rightarrow> raw_dict \<Rightarrow> 'm \<Rightarrow> ('w, 'n) io) \<Rightarrow>
    raw_dict \<Rightarrow> 'm \<Rightarrow> ('w, 'n built_node) io" where
  "create_node V imp from_config cfg mailbox =
     bnd (of_res (y_item cfg ''type'')) (\<lambda>ty. case ty of
       YStr node_type \<Rightarrow>
         bnd (of_res (resolve imp node_type)) (\<lambda>cls.
         bnd (of_res (create_node_id cfg node_type)) (\<lambda>node_id.
         bnd (from_config cls (node_arguments cfg) mailbox) (\<lambda>obj.
         bnd (of_res (policy_from_config V (popped cfg ''error_policy'') node_id)) (\<lambda>pol.
         ret \<lparr>bn_class = cls, bn_id = node_id, bn_policy = pol,
              bn_health_timeout = popped cfg ''health_timeout'',
              bn_health_check_interval = popped cfg ''health_check_interval'', bn_object = obj\<rparr>))))
     | _ \<Rightarrow> raise (ValueError ''Unknown node type''))"

section \<open>What the factory promises\<close>

lemma resolve_known: "resolve imp t = Inr c \<Longrightarrow> t \<in> set (dkeys NODE_IMPORTS)"
  using dget_eq_None_iff [of NODE_IMPORTS t] by (auto simp: resolve_def split: option.splits)

lemma resolve_unknown: "t \<notin> set (dkeys NODE_IMPORTS) \<Longrightarrow> resolve imp t = Inl (ValueError ''Unknown node type'')"
  using dget_eq_None_iff [of NODE_IMPORTS t] by (simp add: resolve_def)

lemma node_types_distinct: "distinct (dkeys NODE_IMPORTS)"
  by (simp add: NODE_IMPORTS_def dkeys_def)

text \<open>Every registered class is listed under its own name.\<close>

lemma node_imports_names: "(t, (m, c)) \<in> set NODE_IMPORTS \<Longrightarrow> c = t"
  by (auto simp: NODE_IMPORTS_def)

lemma resolve_name: "resolve imp t = Inr c \<Longrightarrow> c = t"
  by (auto simp: resolve_def split: option.splits sum.splits dest!: map_of_SomeD node_imports_names)

text \<open>A missing module of an extra is \<^verbatim>\<open>MissingExtraError\<close>; any other failure is unchanged.\<close>

lemma import_module_for_extra:
  "imp path = Inl (ModuleNotFoundError n) \<Longrightarrow> extra_providing (Some n) \<noteq> None \<Longrightarrow>
   import_module_for imp path = Inl (MissingExtraError n)"
  by (auto simp: import_module_for_def)

lemma import_module_for_other:
  "imp path = Inl e \<Longrightarrow> extra_providing (missing_name e) = None \<or> \<not> is_ModuleNotFound e \<Longrightarrow>
   import_module_for imp path = Inl e"
  by (auto simp: import_module_for_def)

end
