(* ===== verification/Autoscale.thy ===== *)
theory Autoscale
  imports Config_Values
begin

text \<open>
  \<^verbatim>\<open>neudc/core/utils/autoscale.py\<close> and \<^verbatim>\<open>autoscaler.py\<close>: the configuration block and the
  decision of one check over the replicas of a node. The replicas are of any type; reading a
  depth, creating and tearing down a replica are parameters over the world.
\<close>

section \<open>Configuration\<close>

record autoscale_config =
  min_replicas :: int
  max_replicas :: int
  queue_depth_high :: int
  queue_depth_low :: int
  check_interval_s :: real

definition autoscale_keys :: "string list" where
  "autoscale_keys = [''min_replicas'', ''max_replicas'', ''queue_depth_high'', ''queue_depth_low'', ''check_interval_s'']"

definition autoscale_fields_ok :: "autoscale_config \<Rightarrow> bool" where
  "autoscale_fields_ok c = (1 \<le> min_replicas c \<and> 1 \<le> max_replicas c \<and> 0 \<le> queue_depth_high c \<and>
     0 \<le> queue_depth_low c \<and> 0 < check_interval_s c)"

definition autoscale_consistent :: "autoscale_config \<Rightarrow> bool" where
  "autoscale_consistent c =
     (if min_replicas c > max_replicas c then False
      else if queue_depth_low c \<ge> queue_depth_high c then False
      else True)"

text \<open>\<^verbatim>\<open>AutoscaleConfig(**raw)\<close>; None is a \<^verbatim>\<open>ValidationError\<close>.\<close>

definition parse_autoscale :: "pydantic \<Rightarrow> raw_dict \<Rightarrow> autoscale_config option" where
  "parse_autoscale V raw =
     (if \<not> set (dkeys raw) \<subseteq> set autoscale_keys then None
      else case (field_of (py_int V) 1 raw ''min_replicas'',
                 field_of (py_int V) 1 raw ''max_replicas'',
                 field_of (py_int V) 15 raw ''queue_depth_high'',
                 field_of (py_int V) 2 raw ''queue_depth_low'',
                 field_of (py_float V) 5 raw ''check_interval_s'') of
        (Some lo, Some hi, Some qh, Some ql, Some ci) \<Rightarrow>
          (let c = \<lparr>min_replicas = lo, max_replicas = hi, queue_depth_high = qh, queue_depth_low = ql,
                    check_interval_s = ci\<rparr>
           in if autoscale_fields_ok c \<and> autoscale_consistent c then Some c else None)
      | _ \<Rightarrow> None)"

section \<open>The autoscaler\<close>

record 't autoscaler =
  pool :: "'t list"
  as_config :: autoscale_config
  as_thread :: bool
  as_stop :: bool

definition new_autoscaler :: "'t list \<Rightarrow> autoscale_config \<Rightarrow> 't autoscaler" where
  "new_autoscaler rs c = \<lparr>pool = rs, as_config = c, as_thread = False, as_stop = False\<rparr>"

record ('w, 't) scaling =
  depth_of :: "'t \<Rightarrow> ('w, int) io"
  scale_up :: "('w, 't) io"
  scale_down :: "'t \<Rightarrow> ('w, unit) io"

datatype scaled = Up | Down

text \<open>\<^verbatim>\<open>min(range(n), key=lambda i: depths[i])\<close>: the first index of a least depth.\<close>

fun argmin :: "int list \<Rightarrow> nat" where
  "argmin [] = 0"
| "argmin [d] = 0"
| "argmin (d # ds) = (let i = argmin ds in if d \<le> ds ! i then 0 else Suc i)"

text \<open>\<^verbatim>\<open>pop(i)\<close>.\<close>

definition remove_at :: "nat \<Rightarrow> 'a list \<Rightarrow> 'a list" where
  "remove_at i xs = take i xs @ drop (Suc i) xs"

definition check_and_scale :: "('w, 't) scaling \<Rightarrow> ('t autoscaler \<times> 'w, scaled option) io" where
  "check_and_scale S =
     bnd self (\<lambda>a. let c = as_config a; rs = pool a in
       if rs = [] then ret None
       else bnd (lift_w (map_io (depth_of S) rs)) (\<lambda>depths.
         if (\<forall>d \<in> set depths. queue_depth_high c \<le> d) \<and> int (length rs) < max_replicas c then
           bnd (lift_w (scale_up S)) (\<lambda>r.
           seq (on_self (\<lambda>a. a\<lparr>pool := pool a @ [r]\<rparr>)) (ret (Some Up)))
         else if (\<forall>d \<in> set depths. d \<le> queue_depth_low c) \<and> min_replicas c < int (length rs) then
           let i = argmin depths in
           seq (on_self (\<lambda>a. a\<lparr>pool := remove_at i (pool a)\<rparr>)) (
           seq (lift_w (scale_down S (rs ! i))) (ret (Some Down)))
         else ret None))"

text \<open>One turn of \<^verbatim>\<open>_run\<close>: an exception of the check is logged.\<close>

definition autoscale_turn :: "('w, 't) scaling \<Rightarrow> ('t autoscaler \<times> 'w, unit) io" where
  "autoscale_turn S = catch_exn (bnd (check_and_scale S) (\<lambda>_. ret ())) is_Exception (\<lambda>_. ret ())"

definition autoscale_start :: "'t autoscaler \<Rightarrow> 't autoscaler" where
  "autoscale_start a = (if as_thread a then a else a\<lparr>as_stop := False, as_thread := True\<rparr>)"

definition autoscale_stop :: "'t autoscaler \<Rightarrow> 't autoscaler" where
  "autoscale_stop a = a\<lparr>as_stop := True, as_thread := False\<rparr>"

section \<open>The decision\<close>

lemma argmin_min: "ds \<noteq> [] \<Longrightarrow> argmin ds < length ds \<and> (\<forall>d \<in> set ds. ds ! argmin ds \<le> d)"
  by (induction ds rule: argmin.induct) (auto simp: Let_def)

lemma remove_at_length: "i < length xs \<Longrightarrow> length (remove_at i xs) = length xs - 1"
  by (simp add: remove_at_def)

lemma map_io_length: "map_io f xs w = (Inr ys, w') \<Longrightarrow> length ys = length xs"
  by (induction xs arbitrary: w ys) (auto simp: bnd_def split: prod.splits sum.splits)

definition autoscale_ok :: "autoscale_config \<Rightarrow> bool" where
  "autoscale_ok c \<longleftrightarrow> autoscale_fields_ok c \<and> autoscale_consistent c"

definition in_bounds :: "'t autoscaler \<Rightarrow> bool" where
  "in_bounds a \<longleftrightarrow> autoscale_ok (as_config a) \<and>
     min_replicas (as_config a) \<le> int (length (pool a)) \<and> int (length (pool a)) \<le> max_replicas (as_config a)"

text \<open>The cases of a check, read off its result.\<close>

lemma check_and_scale_cases:
  assumes "check_and_scale S (a, w) = (r, (a', w'))"
  shows "a' = a \<or>
    (\<exists>new ds v v'. map_io (depth_of S) (pool a) w = (Inr ds, v) \<and> scale_up S v = (Inr new, v') \<and>
       a' = a\<lparr>pool := pool a @ [new]\<rparr> \<and>
       (\<forall>d \<in> set ds. queue_depth_high (as_config a) \<le> d) \<and> int (length (pool a)) < max_replicas (as_config a)) \<or>
    (\<exists>ds v. map_io (depth_of S) (pool a) w = (Inr ds, v) \<and> pool a \<noteq> [] \<and>
       a' = a\<lparr>pool := remove_at (argmin ds) (pool a)\<rparr> \<and>
       (\<forall>d \<in> set ds. d \<le> queue_depth_low (as_config a)) \<and> min_replicas (as_config a) < int (length (pool a)))"
proof (cases "pool a = []")
  case True
  then show ?thesis using assms by (simp add: check_and_scale_def bnd_def Let_def)
next
  case False
  obtain o1 v where m: "map_io (depth_of S) (pool a) w = (o1, v)"
    by (cases "map_io (depth_of S) (pool a) w") auto
  show ?thesis
  proof (cases o1)
    case (Inl e)
    then show ?thesis using assms False m by (simp add: check_and_scale_def bnd_def Let_def)
  next
    case (Inr ds)
    obtain su v' where su: "scale_up S v = (su, v')" by (cases "scale_up S v") auto
    show ?thesis
    proof (cases "(\<forall>d \<in> set ds. queue_depth_high (as_config a) \<le> d) \<and> int (length (pool a)) < max_replicas (as_config a)")
      case True
      then show ?thesis using assms False m Inr su
        by (cases su) (auto simp: check_and_scale_def bnd_def seq_def Let_def)
    next
      case no: False
      show ?thesis
      proof (cases "(\<forall>d \<in> set ds. d \<le> queue_depth_low (as_config a)) \<and> min_replicas (as_config a) < int (length (pool a))")
        case True
        have "a' = a\<lparr>pool := remove_at (argmin ds) (pool a)\<rparr>"
          using assms False m Inr no True
          by (auto simp: check_and_scale_def bnd_def seq_def Let_def split: prod.splits sum.splits)
        then show ?thesis using True False m Inr by blast
      next
        case no2: False
        have "a' = a"
          using assms False m Inr no no2 by (simp add: check_and_scale_def bnd_def Let_def if_not_P)
        then show ?thesis by blast
      qed
    qed
  qed
qed

definition scale_step :: "'t autoscaler \<Rightarrow> 't autoscaler \<Rightarrow> bool" where
  "scale_step a a' \<longleftrightarrow> (\<exists>(S :: (unit, 't) scaling) r. check_and_scale S (a, ()) = (r, (a', ())))
     \<or> a' = autoscale_start a \<or> a' = autoscale_stop a"

lemma check_in_bounds:
  assumes "in_bounds a" and "check_and_scale S (a, w) = (r, (a', w'))"
  shows "in_bounds a'"
  using check_and_scale_cases [OF assms(2)]
proof (elim disjE exE conjE)
  fix ds v
  assume m: "map_io (depth_of S) (pool a) w = (Inr ds, v)" and ne: "pool a \<noteq> []"
    and a': "a' = a\<lparr>pool := remove_at (argmin ds) (pool a)\<rparr>"
    and lo: "min_replicas (as_config a) < int (length (pool a))"
  have "argmin ds < length (pool a)"
    using argmin_min [of ds] map_io_length [OF m] ne by (metis length_0_conv)
  then show ?thesis using assms(1) lo a' ne
    by (auto simp: in_bounds_def remove_at_length)
qed (use assms(1) in \<open>auto simp: in_bounds_def\<close>)

lemma scale_step_in_bounds:
  assumes "in_bounds a" and "scale_step a a'"
  shows "in_bounds a'"
proof -
  have "in_bounds (autoscale_start a)" "in_bounds (autoscale_stop a)"
    using assms(1) by (simp_all add: in_bounds_def autoscale_start_def autoscale_stop_def)
  then show ?thesis
    using assms unfolding scale_step_def by (auto intro: check_in_bounds)
qed

interpretation scaler: invariant_system in_bounds scale_step in_bounds
  by unfold_locales (auto intro: scale_step_in_bounds)

section \<open>Properties\<close>

text \<open>C13: An autoscaler that starts within its configured bounds never leaves them, whatever the
  depths and whatever creating or tearing down a replica does, exceptions included, over any
  sequence of checks, starts and stops.\<close>

theorem autoscale_stays_in_bounds:
  assumes "scale_step\<^sup>*\<^sup>* a a'" and "autoscale_ok (as_config a)"
    and "min_replicas (as_config a) \<le> int (length (pool a))"
    and "int (length (pool a)) \<le> max_replicas (as_config a)"
  shows "min_replicas (as_config a') \<le> int (length (pool a')) \<and>
    int (length (pool a')) \<le> max_replicas (as_config a')"
  using scaler.steps_inv [OF assms(1)] assms(2-4) by (simp add: in_bounds_def)

definition demo_autoscale :: autoscale_config where
  "demo_autoscale = \<lparr>min_replicas = 1, max_replicas = 2, queue_depth_high = 15, queue_depth_low = 2,
     check_interval_s = 5\<rparr>"

definition demo_scaling :: "int \<Rightarrow> (unit, nat) scaling" where
  "demo_scaling d = \<lparr>depth_of = (\<lambda>_ w. (Inr d, w)), scale_up = (\<lambda>w. (Inr 9, w)), scale_down = (\<lambda>_ w. (Inr (), w))\<rparr>"

theorem autoscale_stays_in_bounds_witness:
  "\<exists>a'. scale_step (new_autoscaler [0 :: nat] demo_autoscale) a' \<and> pool a' = [0, 9] \<and> int (length (pool a')) \<le> 2"
proof -
  let ?a = "new_autoscaler [0 :: nat] demo_autoscale"
  let ?b = "?a\<lparr>pool := [0, 9]\<rparr>"
  have "check_and_scale (demo_scaling 20) (?a, ()) = (Inr (Some Up), (?b, ()))"
    by (simp add: check_and_scale_def new_autoscaler_def demo_autoscale_def demo_scaling_def bnd_def seq_def Let_def)
  then have st: "scale_step ?a ?b" unfolding scale_step_def by blast
  show ?thesis
    using autoscale_stays_in_bounds [OF r_into_rtranclp [of scale_step, OF st]] st
    by (intro exI [of _ ?b])
       (simp add: new_autoscaler_def demo_autoscale_def autoscale_ok_def autoscale_fields_ok_def autoscale_consistent_def)
qed

text \<open>One check changes the pool by at most one replica: it adds one only when every depth is at
  or above the high mark, and removes one only when every depth is at or below the low mark, and
  then one whose depth is least.\<close>

theorem check_moves_one_replica:
  assumes "check_and_scale S (a, w) = (Inr r, (a', w'))" and "\<forall>t v. depth_of S t v = (Inr (depth t), v)"
  shows "(r = None \<and> pool a' = pool a) \<or>
    (r = Some Up \<and> (\<exists>new. pool a' = pool a @ [new]) \<and> (\<forall>t \<in> set (pool a). queue_depth_high (as_config a) \<le> depth t)) \<or>
    (r = Some Down \<and> (\<exists>i < length (pool a). pool a' = remove_at i (pool a) \<and>
       (\<forall>t \<in> set (pool a). depth (pool a ! i) \<le> depth t \<and> depth t \<le> queue_depth_low (as_config a))))"
proof (cases "pool a = []")
  case True
  then show ?thesis using assms(1) by (simp add: check_and_scale_def bnd_def Let_def)
next
  case False
  have ds: "map_io (depth_of S) ts v = (Inr (map depth ts), v)" for ts v
    using assms(2) by (induction ts) (auto simp: bnd_def)
  obtain su v' where su: "scale_up S w = (su, v')" by (cases "scale_up S w") auto
  let ?hi = "(\<forall>t \<in> set (pool a). queue_depth_high (as_config a) \<le> depth t) \<and> int (length (pool a)) < max_replicas (as_config a)"
  let ?lo = "(\<forall>t \<in> set (pool a). depth t \<le> queue_depth_low (as_config a)) \<and> min_replicas (as_config a) < int (length (pool a))"
  let ?i = "argmin (map depth (pool a))"
  have i: "?i < length (pool a)" "\<forall>t \<in> set (pool a). depth (pool a ! ?i) \<le> depth t"
    using argmin_min [of "map depth (pool a)"] False by auto
  show ?thesis
  proof (cases ?hi)
    case True
    then show ?thesis using assms(1) False ds su
      by (cases su) (auto simp: check_and_scale_def bnd_def seq_def Let_def)
  next
    case no: False
    show ?thesis
    proof (cases ?lo)
      case True
      have "pool a' = remove_at ?i (pool a) \<and> r = Some Down"
        using assms(1) False ds no True
        by (auto simp: check_and_scale_def bnd_def seq_def Let_def split: prod.splits sum.splits)
      then show ?thesis using True i by blast
    next
      case no2: False
      then show ?thesis
        using assms(1) False ds no by (simp add: check_and_scale_def bnd_def Let_def if_not_P)
    qed
  qed
qed

theorem check_moves_one_replica_witness:
  "check_and_scale (demo_scaling 1) (new_autoscaler [4, 5] demo_autoscale, ()) =
     (Inr (Some Down), ((new_autoscaler [4, 5] demo_autoscale)\<lparr>pool := [5]\<rparr>, ())) \<and>
   (\<exists>i < 2. remove_at i [4, 5] = [5 :: nat])"
proof -
  have run: "check_and_scale (demo_scaling 1) (new_autoscaler [4, 5] demo_autoscale, ()) =
     (Inr (Some Down), ((new_autoscaler [4, 5] demo_autoscale)\<lparr>pool := [5]\<rparr>, ()))"
    by (simp add: check_and_scale_def new_autoscaler_def demo_autoscale_def demo_scaling_def bnd_def seq_def
        Let_def remove_at_def)
  show ?thesis
    using check_moves_one_replica [OF run, of "\<lambda>_. 1"] run
    by (auto simp: new_autoscaler_def demo_scaling_def numeral_2_eq_2)
qed

end
