(* ===== verification/Routing.thy ===== *)
theory Routing
  imports Mailbox Config_Values
begin

text \<open>
  \<^verbatim>\<open>neudc/core/communication/messaging/routing_factory.py\<close>: one mailbox a replica of every
  node of the configuration, then the data edges and the control edges. The factory works on the
  loaded YAML, not on the validated model, so a value of another type is an exception here. Node
  ids are strings; an id of another type, which validation refuses, raises \<^verbatim>\<open>TypeError\<close>.
\<close>

type_synonym mailbox_map = "(string, mailbox list) dict"

section \<open>Reading a node's configuration\<close>

definition raw_id :: "raw_dict \<Rightarrow> exn + string" where
  "raw_id cfg = (case y_item cfg ''id'' of
      Inl e \<Rightarrow> Inl e
    | Inr (YStr s) \<Rightarrow> Inr s
    | Inr _ \<Rightarrow> Inl (TypeError ''id''))"

text \<open>\<^verbatim>\<open>replicas <= 1\<close> and \<^verbatim>\<open>range(replicas)\<close>: at most 1 is one mailbox.\<close>

fun py_replicas :: "yaml \<Rightarrow> exn + int" where
  "py_replicas (YInt n) = Inr n"
| "py_replicas (YBool b) = Inr 1"
| "py_replicas (YFloat r) = (if r \<le> 1 then Inr 1 else Inl (TypeError ''float is not an integer''))"
| "py_replicas _ = Inl (TypeError ''<= not supported'')"

text \<open>A bound is compared with the number of items, so a float bounds like its ceiling. A bound
  of another type fails in the comparison of the first put; here it fails at construction.\<close>

fun py_maxsize :: "yaml \<Rightarrow> exn + int" where
  "py_maxsize (YInt n) = Inr n"
| "py_maxsize (YBool b) = Inr (of_bool b)"
| "py_maxsize (YFloat r) = Inr \<lceil>r\<rceil>"
| "py_maxsize _ = Inl (TypeError ''< not supported'')"

fun py_policy :: "yaml \<Rightarrow> string" where
  "py_policy (YStr s) = s"
| "py_policy _ = []"

text \<open>Decimal digits, for \<^verbatim>\<open>f"{node_id}#{i}"\<close>.\<close>

fun show_nat :: "nat \<Rightarrow> string" where
  "show_nat n = (if n < 10 then [char_of (48 + n)] else show_nat (n div 10) @ [char_of (48 + n mod 10)])"

declare show_nat.simps [simp del]

definition replica_name :: "string \<Rightarrow> nat \<Rightarrow> string" where
  "replica_name nid i = nid @ ''#'' @ show_nat i"

section \<open>Mailboxes\<close>

definition replica_names :: "string \<Rightarrow> int \<Rightarrow> string list" where
  "replica_names nid r = (if r \<le> 1 then [nid] else map (replica_name nid) [0..<nat r])"

definition create_for :: "'z zmq_lib \<Rightarrow> raw_dict \<Rightarrow> (mailbox_map \<times> 'z, unit) io" where
  "create_for Z cfg =
     bnd (of_res (raw_id cfg)) (\<lambda>nid.
     bnd (of_res (py_replicas (y_get cfg ''replicas'' (YInt 1)))) (\<lambda>r.
     bnd (of_res (py_maxsize (y_get cfg ''message_queue_size'' (YInt 20)))) (\<lambda>cap.
     let pol = py_policy (y_get cfg ''queue_policy'' (YStr ''block'')) in
     bnd (lift_w (map_io (\<lambda>name. new_mailbox Z cap pol name (1/10)) (replica_names nid r))) (\<lambda>mbs.
     on_self (dset nid mbs)))))"

definition create_replica_mailboxes :: "'z zmq_lib \<Rightarrow> raw_dict list \<Rightarrow> (mailbox_map \<times> 'z, unit) io" where
  "create_replica_mailboxes Z cfgs = for_each cfgs (create_for Z)"

section \<open>Wiring\<close>

definition require_target :: "mailbox_map \<Rightarrow> yaml \<Rightarrow> exn + (string \<times> mailbox list)" where
  "require_target mbs t =
     (if \<not> y_hashable t then Inl (TypeError ''unhashable type'')
      else case t of
        YStr s \<Rightarrow> (case dget mbs s of
            None \<Rightarrow> Inl (ValueError ''Target node not found in mailboxes.'')
          | Some l \<Rightarrow> Inr (s, l))
      | _ \<Rightarrow> Inl (ValueError ''Target node not found in mailboxes.''))"

text \<open>A call on the \<open>i\<close>-th mailbox of a node.\<close>

definition at_mailbox :: "string \<Rightarrow> nat \<Rightarrow> (mailbox \<times> 'z, unit) io \<Rightarrow> (mailbox_map \<times> 'z, unit) io" where
  "at_mailbox nid i m = (\<lambda>(mbs, z). case dget mbs nid of
      None \<Rightarrow> (Inl KeyError, (mbs, z))
    | Some l \<Rightarrow> if i < length l
        then (case m (l ! i, z) of (r, (b, z')) \<Rightarrow> (r, (dset nid (l[i := b]) mbs, z')))
        else (Inl IndexError, (mbs, z)))"

definition producers :: "string \<Rightarrow> (mailbox_map \<times> 'z, nat) io" where
  "producers nid = bnd self (\<lambda>mbs. case dget mbs nid of None \<Rightarrow> raise KeyError | Some l \<Rightarrow> ret (length l))"

definition wire_data_edge :: "'z zmq_lib \<Rightarrow> string \<Rightarrow> yaml \<Rightarrow> (mailbox_map \<times> 'z, unit) io" where
  "wire_data_edge Z nid t =
     bnd self (\<lambda>mbs.
     bnd (of_res (require_target mbs t)) (\<lambda>(tid, tmbs).
     bnd (producers nid) (\<lambda>n.
     for_each [0..<n] (\<lambda>i. at_mailbox nid i (add_publisher Z tid (map consume_port tmbs))))))"

definition wire_control_edge :: "'z zmq_lib \<Rightarrow> string \<Rightarrow> yaml \<Rightarrow> (mailbox_map \<times> 'z, unit) io" where
  "wire_control_edge Z nid t =
     bnd self (\<lambda>mbs.
     bnd (of_res (require_target mbs t)) (\<lambda>(tid, tmbs).
     bnd (producers nid) (\<lambda>n.
     for_each [0..<n] (\<lambda>i. at_mailbox nid i (add_control_publisher Z tid (map control_consume_port tmbs))))))"

definition wire_node :: "(string \<Rightarrow> yaml \<Rightarrow> (mailbox_map \<times> 'z, unit) io) \<Rightarrow> string \<Rightarrow> raw_dict \<Rightarrow>
    (mailbox_map \<times> 'z, unit) io" where
  "wire_node edge key cfg =
     bnd (of_res (raw_id cfg)) (\<lambda>nid.
     bnd (of_res (y_iter (y_get cfg key (YList [])))) (\<lambda>ts.
     for_each ts (edge nid)))"

definition wire_data_outputs :: "'z zmq_lib \<Rightarrow> raw_dict list \<Rightarrow> (mailbox_map \<times> 'z, unit) io" where
  "wire_data_outputs Z cfgs = for_each cfgs (wire_node (wire_data_edge Z) ''outputs'')"

definition wire_control_outputs :: "'z zmq_lib \<Rightarrow> raw_dict list \<Rightarrow> (mailbox_map \<times> 'z, unit) io" where
  "wire_control_outputs Z cfgs = for_each cfgs (wire_node (wire_control_edge Z) ''control_outputs'')"

definition create_mailboxes :: "'z zmq_lib \<Rightarrow> raw_dict list \<Rightarrow> ('z, mailbox_map) io" where
  "create_mailboxes Z cfgs = (\<lambda>z.
     case seq (create_replica_mailboxes Z cfgs)
            (seq (wire_data_outputs Z cfgs) (wire_control_outputs Z cfgs)) ([], z) of
       (Inl e, (_, z')) \<Rightarrow> (Inl e, z')
     | (Inr _, (mbs, z')) \<Rightarrow> (Inr mbs, z'))"

section \<open>What one edge changes\<close>

definition edge_ports :: "mailbox \<Rightarrow> string \<Rightarrow> int list option" where
  "edge_ports b t = map_option connected_ports (dget (pub_sockets b) t)"

text \<open>The frame of a data edge: the publisher of one target gains ports, nothing else changes.\<close>

definition data_edge_rel :: "string \<Rightarrow> int list \<Rightarrow> mailbox \<Rightarrow> mailbox \<Rightarrow> bool" where
  "data_edge_rel t ports b b' \<longleftrightarrow>
     consume_port b' = consume_port b \<and> control_consume_port b' = control_consume_port b \<and>
     control_pub_sockets b' = control_pub_sockets b \<and> mb_name b' = mb_name b \<and>
     message_queue b' = message_queue b \<and> queue_policy b' = queue_policy b \<and>
     (\<forall>u. edge_ports b' u = (if u = t
        then Some (uniq_from (case edge_ports b t of None \<Rightarrow> [] | Some ps \<Rightarrow> ps) ports)
        else edge_ports b u))"

definition control_edge_rel :: "mailbox \<Rightarrow> mailbox \<Rightarrow> bool" where
  "control_edge_rel b b' \<longleftrightarrow>
     consume_port b' = consume_port b \<and> control_consume_port b' = control_consume_port b \<and>
     pub_sockets b' = pub_sockets b \<and> mb_name b' = mb_name b \<and>
     message_queue b' = message_queue b \<and> queue_policy b' = queue_policy b"

lemma lift_w_Inr [io_simps]:
  "lift_w m (s, w) = (Inr x, (s', w')) \<longleftrightarrow> s' = s \<and> m w = (Inr x, w')"
  by (cases "m w") auto

lemma connect_registered_Inr:
  assumes "connect_registered Z t p (b, z) = (Inr (), (b', z'))"
  shows "dget (pub_sockets b) t \<noteq> None \<and> data_edge_rel t [p] b b' \<and> dget (pub_sockets b') t \<noteq> None"
proof -
  from assms obtain pub pub' where
    p: "dget (pub_sockets b) t = Some pub" and
    c: "connect_additional Z pub p z = (Inr pub', z')" and
    b': "b' = b\<lparr>pub_sockets := dset t pub' (pub_sockets b)\<rparr>"
    by (auto simp: connect_registered_def io_simps simp del: lift_w_apply split: option.splits)
  have "connected_ports pub' = uniq_from (connected_ports pub) [p]"
    using connect_additional_Inr [OF c] by simp
  then show ?thesis
    using p b' by (auto simp: data_edge_rel_def edge_ports_def)
qed

lemma connect_registered_all:
  assumes "for_each ps (connect_registered Z t) (b, z) = (Inr (), (b', z'))"
    and "dget (pub_sockets b) t \<noteq> None"
  shows "data_edge_rel t ps b b'"
  using assms
proof (induction ps arbitrary: b z)
  case Nil
  then show ?case by (auto simp: data_edge_rel_def edge_ports_def)
next
  case (Cons p ps)
  from Cons.prems(1) obtain b1 z1 where
    1: "connect_registered Z t p (b, z) = (Inr (), (b1, z1))" and
    2: "for_each ps (connect_registered Z t) (b1, z1) = (Inr (), (b', z'))"
    by (auto simp: io_simps)
  note r1 = connect_registered_Inr [OF 1]
  with 2 have r2: "data_edge_rel t ps b1 b'" by (auto intro: Cons.IH)
  from r1 obtain q where q: "edge_ports b t = Some q" by (auto simp: edge_ports_def)
  have "edge_ports b1 t = Some (uniq_from q [p])"
    using r1 q by (simp add: data_edge_rel_def)
  then show ?case using r1 r2 q by (auto simp: data_edge_rel_def)
qed

lemma add_publisher_Inr:
  assumes "add_publisher Z t ports (b, z) = (Inr (), (b', z'))"
  shows "data_edge_rel t ports b b'"
proof (cases "t \<in> set (dkeys (pub_sockets b))")
  case True
  then have "for_each ports (connect_registered Z t) (b, z) = (Inr (), (b', z'))"
    using assms by (simp add: add_publisher_def bnd_def)
  moreover have "dget (pub_sockets b) t \<noteq> None"
    using True by (simp add: dget_eq_None_iff)
  ultimately show ?thesis by (rule connect_registered_all)
next
  case False
  with assms obtain pub where
    n: "new_pub Z (-1) (Some ports) CONNECT z = (Inr pub, z')" and
    b': "b' = b\<lparr>pub_sockets := dset t pub (pub_sockets b)\<rparr>"
    by (auto simp: add_publisher_def io_simps simp del: lift_w_apply)
  have "connected_ports pub = uniq_from [] (all_ports (-1) (Some ports))"
    using new_pub_ok [OF n] by simp
  also have "all_ports (-1) (Some ports) = ports"
    by (simp add: all_ports_def split: list.splits)
  moreover have "edge_ports b t = None"
    using False dget_eq_None_iff [of "pub_sockets b" t] by (simp add: edge_ports_def)
  ultimately show ?thesis
    using b' by (auto simp: data_edge_rel_def edge_ports_def)
qed

lemma control_pub_at_Inr:
  "control_pub_at Z t p (b, z) = (Inr (), (b', z')) \<Longrightarrow> control_edge_rel b b'"
  by (auto simp: control_pub_at_def control_edge_rel_def io_simps)

lemma control_edge_rel_trans: "control_edge_rel a b \<Longrightarrow> control_edge_rel b c \<Longrightarrow> control_edge_rel a c"
  by (simp add: control_edge_rel_def)

lemma control_pub_all:
  "for_each ps (control_pub_at Z t) (b, z) = (Inr (), (b', z')) \<Longrightarrow> control_edge_rel b b'"
proof (induction ps arbitrary: b z)
  case Nil
  then show ?case by (simp add: control_edge_rel_def)
next
  case (Cons p ps)
  from Cons.prems obtain b1 z1 where
    1: "control_pub_at Z t p (b, z) = (Inr (), (b1, z1))" and
    2: "for_each ps (control_pub_at Z t) (b1, z1) = (Inr (), (b', z'))"
    by (auto simp: io_simps)
  show ?case
    by (rule control_edge_rel_trans [OF control_pub_at_Inr [OF 1] Cons.IH [OF 2]])
qed

lemma add_control_publisher_Inr:
  assumes "add_control_publisher Z t ports (b, z) = (Inr (), (b', z'))"
  shows "control_edge_rel b b'"
proof -
  let ?b1 = "if t \<in> set (dkeys (control_pub_sockets b)) then b
    else b\<lparr>control_pub_sockets := dset t [] (control_pub_sockets b)\<rparr>"
  have b1: "control_edge_rel b ?b1"
    by (simp add: control_edge_rel_def)
  have r: "for_each ports (control_pub_at Z t) (?b1, z) = (Inr (), (b', z'))"
    using assms by (simp add: add_control_publisher_def seq_def bnd_ok)
  show ?thesis by (rule control_edge_rel_trans [OF b1 control_pub_all [OF r]])
qed

section \<open>What the wiring keeps\<close>

lemma at_mailbox_Inr:
  assumes "at_mailbox nid i m (mbs, z) = (Inr (), (mbs', z'))"
  obtains l b' where "dget mbs nid = Some l" "i < length l" "m (l ! i, z) = (Inr (), (b', z'))"
    "mbs' = dset nid (l[i := b']) mbs"
  using assms by (auto simp: at_mailbox_def split: option.splits if_splits prod.splits)

lemma at_mailboxes_Inr:
  assumes "for_each [k..<n] (\<lambda>i. at_mailbox nid i m) (mbs, z) = (Inr (), (mbs', z'))"
    and "dget mbs nid = Some l" and "n = length l" and "k \<le> n"
    and R: "\<And>b z b' z'. m (b, z) = (Inr (), (b', z')) \<Longrightarrow> R b b'"
  shows "\<exists>l'. dget mbs' nid = Some l' \<and> length l' = length l \<and> (\<forall>i < k. l' ! i = l ! i) \<and>
    (\<forall>i. k \<le> i \<and> i < n \<longrightarrow> R (l ! i) (l' ! i)) \<and> (\<forall>u. u \<noteq> nid \<longrightarrow> dget mbs' u = dget mbs u)"
  using assms(1-4)
proof (induction "n - k" arbitrary: k l mbs z)
  case 0
  then show ?case by auto
next
  case (Suc d)
  then have k: "k < n" and up: "[k..<n] = k # [Suc k..<n]"
    by (auto simp: upt_conv_Cons)
  from Suc.prems(1) obtain mbs1 z1 where
    1: "at_mailbox nid k m (mbs, z) = (Inr (), (mbs1, z1))" and
    2: "for_each [Suc k..<n] (\<lambda>i. at_mailbox nid i m) (mbs1, z1) = (Inr (), (mbs', z'))"
    unfolding up by (auto simp: io_simps)
  from 1 Suc.prems(2) obtain b' where
    b': "m (l ! k, z) = (Inr (), (b', z1))" and mbs1: "mbs1 = dset nid (l[k := b']) mbs"
    by (auto elim: at_mailbox_Inr)
  have "\<exists>l'. dget mbs' nid = Some l' \<and> length l' = length (l[k := b']) \<and>
    (\<forall>i < Suc k. l' ! i = l[k := b'] ! i) \<and> (\<forall>i. Suc k \<le> i \<and> i < n \<longrightarrow> R (l[k := b'] ! i) (l' ! i)) \<and>
    (\<forall>u. u \<noteq> nid \<longrightarrow> dget mbs' u = dget mbs1 u)"
    using Suc.hyps(2) Suc.prems(3) k mbs1 by (intro Suc.hyps(1) [OF _ 2]) auto
  then obtain l' where l': "dget mbs' nid = Some l'" "length l' = length l"
    "\<forall>i < Suc k. l' ! i = l[k := b'] ! i" "\<forall>i. Suc k \<le> i \<and> i < n \<longrightarrow> R (l[k := b'] ! i) (l' ! i)"
    "\<forall>u. u \<noteq> nid \<longrightarrow> dget mbs' u = dget mbs u"
    using mbs1 by auto
  have "R (l ! i) (l' ! i)" if "k \<le> i" "i < n" for i
    using l'(3,4) R [OF b'] that k Suc.prems(3) by (cases "i = k") auto
  moreover have "l' ! i = l ! i" if "i < k" for i
    using l'(3) that by auto
  ultimately show ?case using l' by blast
qed

text \<open>One edge acts on every replica of its producer by the edge's relation.\<close>

definition acts_on :: "string \<Rightarrow> (mailbox \<Rightarrow> mailbox \<Rightarrow> bool) \<Rightarrow> mailbox_map \<Rightarrow> mailbox_map \<Rightarrow> bool" where
  "acts_on nid R mbs mbs' \<longleftrightarrow> (\<exists>l l'. dget mbs nid = Some l \<and> dget mbs' nid = Some l' \<and>
     list_all2 R l l' \<and> (\<forall>u. u \<noteq> nid \<longrightarrow> dget mbs' u = dget mbs u))"

lemma all_replicas_act:
  assumes "bnd (producers nid) (\<lambda>n. for_each [0..<n] (\<lambda>i. at_mailbox nid i m)) (mbs, z) = (Inr (), (mbs', z'))"
    and R: "\<And>b z b' z'. m (b, z) = (Inr (), (b', z')) \<Longrightarrow> R b b'"
  shows "acts_on nid R mbs mbs'"
proof -
  from assms(1) obtain l where l: "dget mbs nid = Some l"
    and r: "for_each [0..<length l] (\<lambda>i. at_mailbox nid i m) (mbs, z) = (Inr (), (mbs', z'))"
    by (auto simp: producers_def io_simps split: option.splits)
  show ?thesis
    using at_mailboxes_Inr [OF r l refl, of R] R l
    by (auto simp: acts_on_def list_all2_conv_all_nth)
qed

lemma wire_data_edge_Inr:
  assumes "wire_data_edge Z nid t (mbs, z) = (Inr (), (mbs', z'))"
  obtains s l where "t = YStr s" "dget mbs s = Some l"
    "acts_on nid (data_edge_rel s (map consume_port l)) mbs mbs'"
proof -
  from assms obtain s l where t: "require_target mbs t = Inr (s, l)"
    by (cases "require_target mbs t") (auto simp: wire_data_edge_def bnd_ok bnd_err)
  with assms have
    r: "bnd (producers nid) (\<lambda>n. for_each [0..<n] (\<lambda>i. at_mailbox nid i
          (add_publisher Z s (map consume_port l)))) (mbs, z) = (Inr (), (mbs', z'))"
    by (simp add: wire_data_edge_def bnd_ok)
  have "t = YStr s" "dget mbs s = Some l"
    using t by (auto simp: require_target_def split: if_splits yaml.splits option.splits)
  moreover have "acts_on nid (data_edge_rel s (map consume_port l)) mbs mbs'"
    by (rule all_replicas_act [OF r add_publisher_Inr])
  ultimately show thesis by (rule that)
qed

lemma wire_control_edge_Inr:
  assumes "wire_control_edge Z nid t (mbs, z) = (Inr (), (mbs', z'))"
  shows "acts_on nid control_edge_rel mbs mbs'"
proof -
  from assms obtain s l where t: "require_target mbs t = Inr (s, l)"
    by (cases "require_target mbs t") (auto simp: wire_control_edge_def bnd_ok bnd_err)
  with assms have
    r: "bnd (producers nid) (\<lambda>n. for_each [0..<n] (\<lambda>i. at_mailbox nid i
          (add_control_publisher Z s (map control_consume_port l)))) (mbs, z) = (Inr (), (mbs', z'))"
    by (simp add: wire_control_edge_def bnd_ok)
  show ?thesis by (rule all_replicas_act [OF r add_control_publisher_Inr])
qed

section \<open>The wired graph\<close>

text \<open>The data edges a configuration asks for.\<close>

definition targets_of :: "string \<Rightarrow> raw_dict \<Rightarrow> string set" where
  "targets_of key cfg = {t. \<exists>ts. y_iter (y_get cfg key (YList [])) = Inr ts \<and> YStr t \<in> set ts}"

definition data_edges :: "raw_dict list \<Rightarrow> (string \<times> string) set" where
  "data_edges cfgs = {(nid, t). \<exists>cfg \<in> set cfgs. raw_id cfg = Inr nid \<and> t \<in> targets_of ''outputs'' cfg}"

definition node_ports :: "mailbox_map \<Rightarrow> string \<Rightarrow> int list option" where
  "node_ports mbs nid = map_option (map consume_port) (dget mbs nid)"

text \<open>Wired so far: exactly the edges \<open>E\<close>, each connected to every replica of its target.\<close>

definition wired :: "(string \<times> string) set \<Rightarrow> mailbox_map \<Rightarrow> bool" where
  "wired E mbs \<longleftrightarrow> (\<forall>nid l b t. dget mbs nid = Some l \<longrightarrow> b \<in> set l \<longrightarrow>
     edge_ports b t = (if (nid, t) \<in> E then map_option (uniq_from []) (node_ports mbs t) else None) \<and>
     ((nid, t) \<in> E \<longrightarrow> node_ports mbs t \<noteq> None))"

lemma acts_on_ports:
  assumes "acts_on nid R mbs mbs'" and "\<And>b b'. R b b' \<Longrightarrow> consume_port b' = consume_port b"
  shows "node_ports mbs' u = node_ports mbs u"
proof -
  obtain l l' where *: "dget mbs nid = Some l" "dget mbs' nid = Some l'" "list_all2 R l l'"
    "\<forall>u. u \<noteq> nid \<longrightarrow> dget mbs' u = dget mbs u"
    using assms(1) by (auto simp: acts_on_def)
  have "map consume_port l' = map consume_port l"
    using *(3) assms(2) by (induction rule: list_all2_induct) auto
  then show ?thesis using * by (cases "u = nid") (auto simp: node_ports_def)
qed

lemma acts_on_member:
  assumes "acts_on nid R mbs mbs'" and "dget mbs' u = Some l'" and "b' \<in> set l'"
  obtains l b where "dget mbs u = Some l" "b \<in> set l" "u = nid \<longrightarrow> R b b'" "u \<noteq> nid \<longrightarrow> b' = b"
proof (cases "u = nid")
  case True
  with assms obtain l where l: "dget mbs nid = Some l" "list_all2 R l l'"
    by (auto simp: acts_on_def)
  obtain i where "i < length l'" "b' = l' ! i"
    using assms(3) by (auto simp: in_set_conv_nth)
  with l True show thesis
    by (intro that [of l "l ! i"]) (auto simp: list_all2_conv_all_nth)
next
  case False
  with assms show thesis by (intro that [of l' b']) (auto simp: acts_on_def)
qed

lemma wired_data_edge:
  assumes w: "wired E mbs" and a: "acts_on nid (data_edge_rel s (map consume_port ls)) mbs mbs'"
    and s: "dget mbs s = Some ls"
  shows "wired (insert (nid, s) E) mbs'"
  unfolding wired_def
proof (intro allI impI)
  fix u l' b' t assume l': "dget mbs' u = Some l'" and b': "b' \<in> set l'"
  have ports: "node_ports mbs' v = node_ports mbs v" for v
    by (rule acts_on_ports [OF a]) (simp add: data_edge_rel_def)
  have ps: "node_ports mbs s = Some (map consume_port ls)"
    using s by (simp add: node_ports_def)
  obtain l b where b: "dget mbs u = Some l" "b \<in> set l"
    and R: "u = nid \<longrightarrow> data_edge_rel s (map consume_port ls) b b'" and F: "u \<noteq> nid \<longrightarrow> b' = b"
    by (rule acts_on_member [OF a l' b'])
  have old: "edge_ports b v = (if (u, v) \<in> E then map_option (uniq_from []) (node_ports mbs v) else None)"
    and some: "(u, v) \<in> E \<longrightarrow> node_ports mbs v \<noteq> None" for v
    using w b unfolding wired_def by blast+
  show "edge_ports b' t = (if (u, t) \<in> insert (nid, s) E then map_option (uniq_from []) (node_ports mbs' t)
      else None) \<and> ((u, t) \<in> insert (nid, s) E \<longrightarrow> node_ports mbs' t \<noteq> None)"
  proof (cases "u = nid \<and> t = s")
    case True
    then have "edge_ports b' t = Some (uniq_from
        (case edge_ports b s of None \<Rightarrow> [] | Some ps \<Rightarrow> ps) (map consume_port ls))"
      using R by (simp add: data_edge_rel_def)
    then show ?thesis
      using True old [of s] ps ports by (auto simp: uniq_from_twice)
  next
    case False
    then have "edge_ports b' t = edge_ports b t"
      using R F by (auto simp: data_edge_rel_def)
    then show ?thesis using False old [of t] some [of t] ports by auto
  qed
qed

lemma wired_control_edge:
  assumes w: "wired E mbs" and a: "acts_on nid control_edge_rel mbs mbs'"
  shows "wired E mbs'"
  unfolding wired_def
proof (intro allI impI)
  fix u l' b' t assume l': "dget mbs' u = Some l'" and b': "b' \<in> set l'"
  have ports: "node_ports mbs' v = node_ports mbs v" for v
    by (rule acts_on_ports [OF a]) (simp add: control_edge_rel_def)
  obtain l b where b: "dget mbs u = Some l" "b \<in> set l"
    and R: "u = nid \<longrightarrow> control_edge_rel b b'" and F: "u \<noteq> nid \<longrightarrow> b' = b"
    by (rule acts_on_member [OF a l' b'])
  have "edge_ports b' t = edge_ports b t"
    using R F by (cases "u = nid") (auto simp: control_edge_rel_def edge_ports_def)
  then show "edge_ports b' t = (if (u, t) \<in> E then map_option (uniq_from []) (node_ports mbs' t) else None) \<and>
      ((u, t) \<in> E \<longrightarrow> node_ports mbs' t \<noteq> None)"
    using w b ports unfolding wired_def by auto
qed

lemma wire_targets:
  assumes "for_each ts (wire_data_edge Z nid) (mbs, z) = (Inr (), (mbs', z'))" and "wired E mbs"
  shows "wired (E \<union> {(nid, t) | t. YStr t \<in> set ts}) mbs'"
  using assms
proof (induction ts arbitrary: mbs z E)
  case Nil
  then show ?case by simp
next
  case (Cons t ts)
  from Cons.prems(1) obtain mbs1 z1 where
    1: "wire_data_edge Z nid t (mbs, z) = (Inr (), (mbs1, z1))" and
    2: "for_each ts (wire_data_edge Z nid) (mbs1, z1) = (Inr (), (mbs', z'))"
    by (auto simp: io_simps)
  obtain s l where s: "t = YStr s" "dget mbs s = Some l"
    "acts_on nid (data_edge_rel s (map consume_port l)) mbs mbs1"
    by (rule wire_data_edge_Inr [OF 1])
  have "wired (insert (nid, s) E \<union> {(nid, t) | t. YStr t \<in> set ts}) mbs'"
    by (rule Cons.IH [OF 2 wired_data_edge [OF Cons.prems(2) s(3,2)]])
  moreover have "insert (nid, s) E \<union> {(nid, t) | t. YStr t \<in> set ts} =
      E \<union> {(nid, t') | t'. YStr t' \<in> set (t # ts)}"
    using s(1) by auto
  ultimately show ?case by simp
qed

lemma wire_node_wired:
  assumes "wire_node (wire_data_edge Z) ''outputs'' cfg (mbs, z) = (Inr (), (mbs', z'))" and "wired E mbs"
  shows "wired (E \<union> data_edges [cfg]) mbs'"
proof -
  from assms(1) obtain nid ts where n: "raw_id cfg = Inr nid"
    and ts: "y_iter (y_get cfg ''outputs'' (YList [])) = Inr ts"
    and r: "for_each ts (wire_data_edge Z nid) (mbs, z) = (Inr (), (mbs', z'))"
    by (auto simp: wire_node_def io_simps)
  have "data_edges [cfg] = {(nid, t) | t. YStr t \<in> set ts}"
    using n ts by (auto simp: data_edges_def targets_of_def)
  then show ?thesis using wire_targets [OF r assms(2)] by simp
qed

lemma wire_data_wired:
  assumes "wire_data_outputs Z cfgs (mbs, z) = (Inr (), (mbs', z'))" and "wired E mbs"
  shows "wired (E \<union> data_edges cfgs) mbs'"
  using assms unfolding wire_data_outputs_def
proof (induction cfgs arbitrary: mbs z E)
  case Nil
  then show ?case by (simp add: data_edges_def)
next
  case (Cons cfg cfgs)
  from Cons.prems(1) obtain mbs1 z1 where
    1: "wire_node (wire_data_edge Z) ''outputs'' cfg (mbs, z) = (Inr (), (mbs1, z1))" and
    2: "for_each cfgs (wire_node (wire_data_edge Z) ''outputs'') (mbs1, z1) = (Inr (), (mbs', z'))"
    by (auto simp: io_simps)
  have "wired ((E \<union> data_edges [cfg]) \<union> data_edges cfgs) mbs'"
    by (rule Cons.IH [OF 2 wire_node_wired [OF 1 Cons.prems(2)]])
  moreover have "(E \<union> data_edges [cfg]) \<union> data_edges cfgs = E \<union> data_edges (cfg # cfgs)"
    by (auto simp: data_edges_def)
  ultimately show ?case by simp
qed

lemma wire_control_targets:
  assumes "for_each ts (wire_control_edge Z nid) (mbs, z) = (Inr (), (mbs', z'))" and "wired E mbs"
  shows "wired E mbs'"
  using assms
proof (induction ts arbitrary: mbs z)
  case (Cons t ts)
  from Cons.prems(1) obtain mbs1 z1 where
    1: "wire_control_edge Z nid t (mbs, z) = (Inr (), (mbs1, z1))" and
    2: "for_each ts (wire_control_edge Z nid) (mbs1, z1) = (Inr (), (mbs', z'))"
    by (auto simp: io_simps)
  show ?case
    by (rule Cons.IH [OF 2 wired_control_edge [OF Cons.prems(2) wire_control_edge_Inr [OF 1]]])
qed simp

lemma wire_control_wired:
  assumes "wire_control_outputs Z cfgs (mbs, z) = (Inr (), (mbs', z'))" and "wired E mbs"
  shows "wired E mbs'"
  using assms unfolding wire_control_outputs_def
proof (induction cfgs arbitrary: mbs z)
  case (Cons cfg cfgs)
  from Cons.prems(1) obtain mbs1 z1 where
    1: "wire_node (wire_control_edge Z) ''control_outputs'' cfg (mbs, z) = (Inr (), (mbs1, z1))" and
    2: "for_each cfgs (wire_node (wire_control_edge Z) ''control_outputs'') (mbs1, z1) = (Inr (), (mbs', z'))"
    by (auto simp: io_simps)
  have "wired E mbs1"
    using 1 Cons.prems(2) by (auto simp: wire_node_def io_simps dest: wire_control_targets)
  then show ?case by (rule Cons.IH [OF 2])
qed simp

text \<open>Fresh mailboxes have no edges, so they are wired for the empty set.\<close>

lemma new_mailbox_Inr:
  "new_mailbox Z cap pol name jt w = (Inr b, w') \<Longrightarrow>
   pub_sockets b = [] \<and> control_pub_sockets b = [] \<and> message_queue b = new_queue cap \<and> mb_name b = name \<and>
   queue_policy_of pol = Inr (queue_policy b) \<and> running b"
  by (auto simp: new_mailbox_def mb_start_def io_simps split: option.splits)

lemma map_io_Inr:
  assumes "map_io f xs w = (Inr ys, w')"
  shows "list_all2 (\<lambda>x y. \<exists>w w'. f x w = (Inr y, w')) xs ys"
  using assms by (induction xs arbitrary: w ys) (auto simp: io_simps)

definition unwired :: "mailbox_map \<Rightarrow> bool" where
  "unwired mbs \<longleftrightarrow> (\<forall>nid l b. dget mbs nid = Some l \<longrightarrow> b \<in> set l \<longrightarrow> pub_sockets b = [])"

lemma create_for_unwired:
  assumes "create_for Z cfg (mbs, z) = (Inr (), (mbs', z'))" and "unwired mbs"
  shows "unwired mbs'"
proof -
  from assms(1) obtain nid cap pol names l z1 where
    m: "map_io (\<lambda>name. new_mailbox Z cap pol name (1/10)) names z = (Inr l, z1)" and
    mbs': "mbs' = dset nid l mbs"
    by (auto simp: create_for_def io_simps Let_def simp del: lift_w_apply)
  have "\<forall>b \<in> set l. pub_sockets b = []"
    using map_io_Inr [OF m] by (auto simp: list_all2_conv_all_nth in_set_conv_nth dest!: new_mailbox_Inr)
  then show ?thesis using assms(2) mbs' by (auto simp: unwired_def)
qed

lemma create_all_unwired:
  assumes "create_replica_mailboxes Z cfgs (mbs, z) = (Inr (), (mbs', z'))" and "unwired mbs"
  shows "unwired mbs'"
  using assms unfolding create_replica_mailboxes_def
proof (induction cfgs arbitrary: mbs z)
  case (Cons cfg cfgs)
  then show ?case by (auto simp: io_simps intro: create_for_unwired)
qed simp

lemma unwired_wired: "unwired mbs \<Longrightarrow> wired {} mbs"
  by (auto simp: unwired_def wired_def edge_ports_def)

lemma create_mailboxes_phases:
  assumes "create_mailboxes Z cfgs z = (Inr mbs, z')"
  obtains m1 z1 m2 z2 where
    "create_replica_mailboxes Z cfgs ([], z) = (Inr (), (m1, z1))"
    "wire_data_outputs Z cfgs (m1, z1) = (Inr (), (m2, z2))"
    "wire_control_outputs Z cfgs (m2, z2) = (Inr (), (mbs, z'))"
  using assms by (auto simp: create_mailboxes_def seq_Inr_iff split: prod.splits sum.splits)

lemma create_mailboxes_wired:
  assumes "create_mailboxes Z cfgs z = (Inr mbs, z')"
  shows "wired (data_edges cfgs) mbs"
proof -
  obtain m1 z1 m2 z2 where
    1: "create_replica_mailboxes Z cfgs ([], z) = (Inr (), (m1, z1))" and
    2: "wire_data_outputs Z cfgs (m1, z1) = (Inr (), (m2, z2))" and
    3: "wire_control_outputs Z cfgs (m2, z2) = (Inr (), (mbs, z'))"
    by (rule create_mailboxes_phases [OF assms])
  have "wired {} m1"
    by (rule unwired_wired [OF create_all_unwired [OF 1]]) (simp add: unwired_def)
  from wire_control_wired [OF 3 wire_data_wired [OF 2 this]] show ?thesis by simp
qed

end
