(* ===== verification/Routing_Total.thy ===== *)
theory Routing_Total
  imports Routing Fan_Out
begin

text \<open>
  Routing always succeeds on a configuration whose edges name its nodes: over a ZeroMQ whose
  calls succeed (\<open>zmq_total\<close>) the factory returns the mailboxes of every node, and the graph is
  wired exactly as the configuration asks.
\<close>

definition zmq_total :: "'z zmq_lib \<Rightarrow> bool" where
  "zmq_total Z \<longleftrightarrow>
     runs (\<lambda>_. True) (z_context Z) (\<lambda>_ _. True) \<and>
     (\<forall>c k. runs (\<lambda>_. True) (z_socket Z c k) (\<lambda>_ _. True)) \<and>
     (\<forall>s n. runs (\<lambda>_. True) (z_linger Z s n) (\<lambda>_ _. True)) \<and>
     (\<forall>s a. runs (\<lambda>_. True) (z_bind Z s a) (\<lambda>_ _. True)) \<and>
     (\<forall>s. runs (\<lambda>_. True) (z_bind_random Z s) (\<lambda>p _. 0 < p)) \<and>
     (\<forall>s a. runs (\<lambda>_. True) (z_connect Z s a) (\<lambda>_ _. True)) \<and>
     (\<forall>s. runs (\<lambda>_. True) (z_rcvhwm Z s) (\<lambda>_ _. True))"

text \<open>What routing needs of a configuration, read off the YAML.\<close>

definition routable_node :: "string set \<Rightarrow> raw_dict \<Rightarrow> bool" where
  "routable_node ids cfg \<longleftrightarrow>
     (\<exists>nid. raw_id cfg = Inr nid \<and> nid \<in> ids) \<and>
     (\<exists>r. py_replicas (y_get cfg ''replicas'' (YInt 1)) = Inr r) \<and>
     (\<exists>n. py_maxsize (y_get cfg ''message_queue_size'' (YInt 20)) = Inr n) \<and>
     (\<exists>p. queue_policy_of (py_policy (y_get cfg ''queue_policy'' (YStr ''block''))) = Inr p) \<and>
     (\<forall>key \<in> {''outputs'', ''control_outputs''}. \<exists>ts. y_iter (y_get cfg key (YList [])) = Inr (map YStr ts) \<and> set ts \<subseteq> ids)"

definition config_ids :: "raw_dict list \<Rightarrow> string set" where
  "config_ids cfgs = {nid. \<exists>cfg \<in> set cfgs. raw_id cfg = Inr nid}"

definition routable :: "raw_dict list \<Rightarrow> bool" where
  "routable cfgs \<longleftrightarrow> (\<forall>cfg \<in> set cfgs. routable_node (config_ids cfgs) cfg)"

section \<open>Sockets\<close>

lemma new_sub_total:
  assumes "zmq_total Z"
  shows "runs (\<lambda>_. True) (new_sub Z (-1) BIND) (\<lambda>q _. socket_sub q \<noteq> None \<and> 0 < zq_port q)"
proof -
  have ctx: "\<exists>x w'. z_context Z w = (Inr x, w')" for w
    using assms by (auto simp: zmq_total_def runs_def)
  have sock: "\<exists>x w'. z_socket Z c k w = (Inr x, w')" for c k w
    using assms by (auto simp: zmq_total_def runs_def)
  have ling: "\<exists>w'. z_linger Z s n w = (Inr (), w')" for s n w
    using assms by (auto simp: zmq_total_def runs_def)
  have rnd: "\<exists>x w'. z_bind_random Z s w = (Inr x, w') \<and> 0 < x" for s w
    using assms by (auto simp: zmq_total_def runs_def)
  show ?thesis
    unfolding runs_def
  proof (intro allI impI)
    fix w
    obtain c w1 where 1: "z_context Z w = (Inr c, w1)" using ctx by blast
    obtain s w2 where 2: "z_socket Z c PULL w1 = (Inr s, w2)" using sock by blast
    obtain w3 where 3: "z_linger Z s 100 w2 = (Inr (), w3)" using ling by blast
    obtain p w4 where 4: "z_bind_random Z s w3 = (Inr p, w4)" "0 < p" using rnd by blast
    show "\<exists>x w'. new_sub Z (-1) BIND w = (Inr x, w') \<and> socket_sub x \<noteq> None \<and> 0 < zq_port x"
      by (simp add: new_sub_def new_zero_queue_def init_sub_def set_connection_def bind_port_def
          bnd_def seq_def Let_def 1 2 3 4)
  qed
qed

lemma new_zero_pub_total:
  assumes "zmq_total Z" and "p \<noteq> -1"
  shows "runs (\<lambda>_. True) (new_zero_queue Z p MODE_PUB CONNECT) (\<lambda>q _. socket_pub q \<noteq> None)"
proof -
  have ctx: "\<exists>x w'. z_context Z w = (Inr x, w')" for w
    using assms by (auto simp: zmq_total_def runs_def)
  have sock: "\<exists>x w'. z_socket Z c k w = (Inr x, w')" for c k w
    using assms by (auto simp: zmq_total_def runs_def)
  have ling: "\<exists>w'. z_linger Z s n w = (Inr (), w')" for s n w
    using assms by (auto simp: zmq_total_def runs_def)
  have con: "\<exists>w'. z_connect Z s a w = (Inr (), w')" for s a w
    using assms by (auto simp: zmq_total_def runs_def)
  show ?thesis
    unfolding runs_def
  proof (intro allI impI)
    fix w
    obtain c w1 where 1: "z_context Z w = (Inr c, w1)" using ctx by blast
    obtain s w2 where 2: "z_socket Z c PUSH w1 = (Inr s, w2)" using sock by blast
    obtain w3 where 3: "z_linger Z s 100 w2 = (Inr (), w3)" using ling by blast
    obtain w4 where 4: "z_connect Z s (Localhost p) w3 = (Inr (), w4)" using con by blast
    show "\<exists>x w'. new_zero_queue Z p MODE_PUB CONNECT w = (Inr x, w') \<and> socket_pub x \<noteq> None"
      using assms(2)
      by (simp add: new_zero_queue_def init_pub_def set_connection_def bnd_def seq_def Let_def 1 2 3 4)
  qed
qed

lemma connect_additional_total:
  assumes "zmq_total Z" and "socket_pub q \<noteq> None"
  shows "runs (\<lambda>_. True) (connect_additional Z q p) (\<lambda>q' _. socket_pub q' \<noteq> None)"
proof -
  have con: "\<exists>w'. z_connect Z s a w = (Inr (), w')" for s a w
    using assms by (auto simp: zmq_total_def runs_def)
  obtain s where s: "socket_pub q = Some s" using assms(2) by blast
  show ?thesis
    unfolding runs_def
  proof (intro allI impI)
    fix w
    obtain w' where "z_connect Z s (Localhost p) w = (Inr (), w')" using con by blast
    then show "\<exists>x w'. connect_additional Z q p w = (Inr x, w') \<and> socket_pub x \<noteq> None"
      by (simp add: connect_additional_def s seq_def bnd_def)
  qed
qed

lemma connect_each_total:
  assumes "zmq_total Z"
  shows "socket_pub q \<noteq> None \<Longrightarrow> runs (\<lambda>_. True) (connect_each Z q ps) (\<lambda>q' _. socket_pub q' \<noteq> None)"
proof (induction ps arbitrary: q)
  case Nil
  then show ?case by (simp add: runs_def)
next
  case (Cons p ps)
  show ?case
    unfolding connect_each.simps
  proof (rule runs_bnd [OF connect_additional_total [OF assms Cons.prems, of p]])
    fix q'
    show "runs (\<lambda>_. socket_pub q' \<noteq> None) (connect_each Z q' ps) (\<lambda>q' _. socket_pub q' \<noteq> None)"
      using Cons.IH [of q'] unfolding runs_def by blast
  qed
qed

lemma new_pub_total:
  assumes "zmq_total Z" and "all_ports p ps \<noteq> []" and "hd (all_ports p ps) \<noteq> -1"
  shows "runs (\<lambda>_. True) (new_pub Z p ps CONNECT) (\<lambda>q _. socket_pub q \<noteq> None)"
proof -
  obtain x xs where xs: "all_ports p ps = x # xs" "x \<noteq> -1"
    using assms(2,3) by (cases "all_ports p ps") auto
  have "runs (\<lambda>_. True) (bnd (new_zero_queue Z x MODE_PUB CONNECT) (\<lambda>q. connect_each Z (pub_of q [x]) xs))
      (\<lambda>q _. socket_pub q \<noteq> None)"
  proof (rule runs_bnd [OF new_zero_pub_total [OF assms(1) xs(2)]])
    fix q
    show "runs (\<lambda>_. socket_pub q \<noteq> None) (connect_each Z (pub_of q [x]) xs) (\<lambda>q' _. socket_pub q' \<noteq> None)"
      using connect_each_total [OF assms(1), of "pub_of q [x]" xs] unfolding runs_def by auto
  qed
  then show ?thesis using xs(1) by (simp add: new_pub_def)
qed

lemma new_mailbox_total:
  assumes "zmq_total Z" and "queue_policy_of pol = Inr p"
  shows "runs (\<lambda>_. True) (new_mailbox Z cap pol name jt)
    (\<lambda>b _. 0 < consume_port b \<and> 0 < control_consume_port b \<and> pubs_ready b)"
  unfolding runs_def
proof (intro allI impI)
  fix w
  obtain q w1 where 1: "new_sub Z (-1) BIND w = (Inr q, w1)" "socket_sub q \<noteq> None" "0 < zq_port q"
    using runsD [OF new_sub_total [OF assms(1)]] by blast
  obtain c w2 where 2: "new_sub Z (-1) BIND w1 = (Inr c, w2)" "0 < zq_port c"
    using runsD [OF new_sub_total [OF assms(1)]] by blast
  obtain s where s: "socket_sub q = Some s" using 1 by blast
  have "runs (\<lambda>_. True) (z_rcvhwm Z s) (\<lambda>_ _. True)"
    using assms(1) by (simp add: zmq_total_def)
  then obtain h w3 where 3: "z_rcvhwm Z s w2 = (Inr h, w3)"
    unfolding runs_def by blast
  show "\<exists>b w'. new_mailbox Z cap pol name jt w = (Inr b, w') \<and>
      0 < consume_port b \<and> 0 < control_consume_port b \<and> pubs_ready b"
    using 1 2 3 s assms(2)
    by (simp add: new_mailbox_def bnd_def mb_start_def pubs_ready_def dvalues_def)
qed

section \<open>Mailboxes\<close>

definition mb_good :: "mailbox \<Rightarrow> bool" where
  "mb_good b \<longleftrightarrow> 0 < consume_port b \<and> 0 < control_consume_port b \<and> pubs_ready b"

definition map_good :: "string set \<Rightarrow> mailbox_map \<Rightarrow> bool" where
  "map_good ids mbs \<longleftrightarrow> (\<forall>nid \<in> ids. dget mbs nid \<noteq> None) \<and>
     (\<forall>nid l. dget mbs nid = Some l \<longrightarrow> l \<noteq> [] \<and> (\<forall>b \<in> set l. mb_good b))"

lemma pubs_ready_dset:
  "pubs_ready b \<Longrightarrow> socket_pub p \<noteq> None \<Longrightarrow> pubs_ready (b\<lparr>pub_sockets := dset t p (pub_sockets b)\<rparr>)"
  using dvalues_dset [of t p "pub_sockets b"] by (auto simp: pubs_ready_def)

lemma mb_good_dset:
  "mb_good b \<Longrightarrow> socket_pub p \<noteq> None \<Longrightarrow> mb_good (b\<lparr>pub_sockets := dset t p (pub_sockets b)\<rparr>)"
  by (simp add: mb_good_def pubs_ready_dset)

lemma connect_registered_total:
  assumes "zmq_total Z"
  shows "runs (\<lambda>w. mb_good (fst w) \<and> dget (pub_sockets (fst w)) t \<noteq> None) (connect_registered Z t p)
    (\<lambda>_ w. mb_good (fst w) \<and> dget (pub_sockets (fst w)) t \<noteq> None)"
proof (rule runs_pairI)
  fix b and z :: 'a assume g: "mb_good (fst (b, z)) \<and> dget (pub_sockets (fst (b, z))) t \<noteq> None"
  then obtain pub where good: "mb_good b" and pub: "dget (pub_sockets b) t = Some pub" by auto
  have "socket_pub pub \<noteq> None"
    using good dget_dvalues [OF pub] by (simp add: mb_good_def pubs_ready_def)
  from runsD [OF connect_additional_total [OF assms this, of p] TrueI]
  obtain pub' z' where c: "connect_additional Z pub p z = (Inr pub', z')" "socket_pub pub' \<noteq> None"
    by blast
  show "\<exists>x b' z'. connect_registered Z t p (b, z) = (Inr x, (b', z')) \<and>
      mb_good (fst (b', z')) \<and> dget (pub_sockets (fst (b', z'))) t \<noteq> None"
    using c mb_good_dset [OF good c(2), of t] by (simp add: connect_registered_def bnd_def pub)
qed

lemma add_publisher_total:
  assumes "zmq_total Z" and "ports \<noteq> []" and "\<forall>p \<in> set ports. 0 < p"
  shows "runs (\<lambda>w. mb_good (fst w)) (add_publisher Z t ports) (\<lambda>_ w. mb_good (fst w))"
proof (rule runs_pairI)
  fix b and z :: 'a assume "mb_good (fst (b, z))"
  then have good: "mb_good b" by simp
  show "\<exists>x b' z'. add_publisher Z t ports (b, z) = (Inr x, (b', z')) \<and> mb_good (fst (b', z'))"
  proof (cases "t \<in> set (dkeys (pub_sockets b))")
    case True
    then have "dget (pub_sockets b) t \<noteq> None" by (simp add: dget_eq_None_iff)
    with good have "mb_good (fst (b, z)) \<and> dget (pub_sockets (fst (b, z))) t \<noteq> None" by simp
    from runsD [OF runs_for_each [of ports _ "connect_registered Z t", OF connect_registered_total [OF assms(1)]] this]
    obtain b' z' where "for_each ports (connect_registered Z t) (b, z) = (Inr (), (b', z'))" "mb_good b'"
      by auto
    then show ?thesis using True by (simp add: add_publisher_def bnd_def)
  next
    case False
    have ps: "all_ports (-1) (Some ports) = ports" "hd ports \<noteq> -1"
      using assms(2,3) by (cases ports; force simp: all_ports_def)+
    from runsD [OF new_pub_total [OF assms(1), of "-1" "Some ports"] TrueI, of z] ps assms(2)
    obtain q z' where "new_pub Z (-1) (Some ports) CONNECT z = (Inr q, z')" "socket_pub q \<noteq> None"
      by auto
    then show ?thesis using False mb_good_dset [OF good, of q t] by (simp add: add_publisher_def bnd_def)
  qed
qed

lemma control_pub_at_total:
  assumes "zmq_total Z" and "0 < p"
  shows "runs (\<lambda>w. mb_good (fst w)) (control_pub_at Z t p) (\<lambda>_ w. mb_good (fst w))"
proof (rule runs_pairI)
  fix b and z :: 'a assume "mb_good (fst (b, z))"
  then have good: "mb_good b" by simp
  from runsD [OF new_pub_total [OF assms(1), of p None] TrueI, of z] assms(2)
  obtain q z' where "new_pub Z p None CONNECT z = (Inr q, z')"
    by (auto simp: all_ports_def)
  then show "\<exists>x b' z'. control_pub_at Z t p (b, z) = (Inr x, (b', z')) \<and> mb_good (fst (b', z'))"
    using good by (simp add: control_pub_at_def bnd_def mb_good_def pubs_ready_def)
qed

lemma add_control_publisher_total:
  assumes "zmq_total Z" and "\<forall>p \<in> set ports. 0 < p"
  shows "runs (\<lambda>w. mb_good (fst w)) (add_control_publisher Z t ports) (\<lambda>_ w. mb_good (fst w))"
  unfolding add_control_publisher_def
proof (rule runs_seq)
  show "runs (\<lambda>w. mb_good (fst w))
     (on_self (\<lambda>mb. if t \<in> set (dkeys (control_pub_sockets mb)) then mb
            else mb\<lparr>control_pub_sockets := dset t [] (control_pub_sockets mb)\<rparr>)) (\<lambda>_ w. mb_good (fst w))"
    by (rule runs_on_self) (auto simp: mb_good_def pubs_ready_def)
  show "runs (\<lambda>w. mb_good (fst w)) (for_each ports (control_pub_at Z t)) (\<lambda>_ w. mb_good (fst w))"
    using assms by (intro runs_for_each control_pub_at_total) auto
qed

section \<open>Wiring\<close>

definition map_sized :: "string set \<Rightarrow> string \<Rightarrow> nat \<Rightarrow> mailbox_map \<times> 'z \<Rightarrow> bool" where
  "map_sized ids nid n w \<longleftrightarrow> map_good ids (fst w) \<and> map_option length (dget (fst w) nid) = Some n"

lemma at_mailbox_total:
  assumes "runs (\<lambda>w. mb_good (fst w)) m (\<lambda>_ w. mb_good (fst w))" and "i < n"
  shows "runs (map_sized ids nid n) (at_mailbox nid i m) (\<lambda>_. map_sized ids nid n)"
proof (rule runs_pairI)
  fix mbs and z :: 'a assume g: "map_sized ids nid n (mbs, z)"
  then obtain l where l: "dget mbs nid = Some l" "length l = n" by (auto simp: map_sized_def)
  then have "mb_good (l ! i)" using g assms(2) by (auto simp: map_sized_def map_good_def)
  with assms(1) obtain b' z' where m: "m (l ! i, z) = (Inr (), (b', z'))" "mb_good b'"
    unfolding runs_def by fastforce
  have "map_sized ids nid n (dset nid (l[i := b']) mbs, z')"
    using g l m(2) assms(2) by (auto simp: map_sized_def map_good_def dest: set_update_subset_insert [THEN subsetD])
  then show "\<exists>x mbs' z'. at_mailbox nid i m (mbs, z) = (Inr x, (mbs', z')) \<and> map_sized ids nid n (mbs', z')"
    using l assms(2) m by (simp add: at_mailbox_def)
qed

lemma all_replicas_total:
  assumes "runs (\<lambda>w. mb_good (fst w)) m (\<lambda>_ w. mb_good (fst w))" and "nid \<in> ids" and "map_good ids mbs"
  shows "\<exists>mbs' z'. bnd (producers nid) (\<lambda>n. for_each [0..<n] (\<lambda>i. at_mailbox nid i m)) (mbs, z) =
    (Inr (), (mbs', z')) \<and> map_good ids mbs'"
proof -
  obtain l where l: "dget mbs nid = Some l"
    using assms(2,3) by (auto simp: map_good_def)
  have "runs (map_sized ids nid (length l)) (for_each [0..<length l] (\<lambda>i. at_mailbox nid i m))
      (\<lambda>_. map_sized ids nid (length l))"
    by (rule runs_for_each) (simp add: at_mailbox_total [OF assms(1)])
  from runsD [OF this, of "(mbs, z)"] l assms(3)
  obtain w' where "for_each [0..<length l] (\<lambda>i. at_mailbox nid i m) (mbs, z) = (Inr (), w')"
    "map_sized ids nid (length l) w'"
    by (auto simp: map_sized_def)
  then show ?thesis
    using l by (cases w') (auto simp: producers_def bnd_def map_sized_def)
qed

lemma wire_data_edge_total:
  assumes "zmq_total Z" and "nid \<in> ids" and "t \<in> ids"
  shows "runs (\<lambda>w. map_good ids (fst w)) (wire_data_edge Z nid (YStr t)) (\<lambda>_ w. map_good ids (fst w))"
proof (rule runs_pairI)
  fix mbs and z :: 'a assume g: "map_good ids (fst (mbs, z))"
  then obtain l where l: "dget mbs t = Some l" using assms(3) by (auto simp: map_good_def)
  then have ports: "map consume_port l \<noteq> []" "\<forall>p \<in> set (map consume_port l). 0 < p"
    using g by (auto simp: map_good_def mb_good_def)
  have "map_good ids mbs" using g by simp
  from all_replicas_total [OF add_publisher_total [OF assms(1) ports, of t] assms(2) this, of z]
  obtain mbs' z' where "bnd (producers nid) (\<lambda>n. for_each [0..<n] (\<lambda>i. at_mailbox nid i
      (add_publisher Z t (map consume_port l)))) (mbs, z) = (Inr (), (mbs', z'))" "map_good ids mbs'"
    by blast
  then show "\<exists>x mbs' z'. wire_data_edge Z nid (YStr t) (mbs, z) = (Inr x, (mbs', z')) \<and> map_good ids (fst (mbs', z'))"
    using l by (simp add: wire_data_edge_def bnd_ok require_target_def)
qed

lemma wire_control_edge_total:
  assumes "zmq_total Z" and "nid \<in> ids" and "t \<in> ids"
  shows "runs (\<lambda>w. map_good ids (fst w)) (wire_control_edge Z nid (YStr t)) (\<lambda>_ w. map_good ids (fst w))"
proof (rule runs_pairI)
  fix mbs and z :: 'a assume g: "map_good ids (fst (mbs, z))"
  then obtain l where l: "dget mbs t = Some l" using assms(3) by (auto simp: map_good_def)
  then have ports: "\<forall>p \<in> set (map control_consume_port l). 0 < p"
    using g by (auto simp: map_good_def mb_good_def)
  have "map_good ids mbs" using g by simp
  from all_replicas_total [OF add_control_publisher_total [OF assms(1) ports, of t] assms(2) this, of z]
  obtain mbs' z' where "bnd (producers nid) (\<lambda>n. for_each [0..<n] (\<lambda>i. at_mailbox nid i
      (add_control_publisher Z t (map control_consume_port l)))) (mbs, z) = (Inr (), (mbs', z'))"
    "map_good ids mbs'"
    by blast
  then show "\<exists>x mbs' z'. wire_control_edge Z nid (YStr t) (mbs, z) = (Inr x, (mbs', z')) \<and> map_good ids (fst (mbs', z'))"
    using l by (simp add: wire_control_edge_def bnd_ok require_target_def)
qed

lemma wire_node_total:
  assumes "routable_node ids cfg" and "key \<in> {''outputs'', ''control_outputs''}"
    and edge: "\<And>nid t. nid \<in> ids \<Longrightarrow> t \<in> ids \<Longrightarrow>
      runs (\<lambda>w. map_good ids (fst w)) (edge nid (YStr t)) (\<lambda>_ w. map_good ids (fst w))"
  shows "runs (\<lambda>w. map_good ids (fst w)) (wire_node edge key cfg) (\<lambda>_ w. map_good ids (fst w))"
proof -
  obtain nid ts where n: "raw_id cfg = Inr nid" "nid \<in> ids"
    and ts: "y_iter (y_get cfg key (YList [])) = Inr (map YStr ts)" "set ts \<subseteq> ids"
    using assms(1,2) unfolding routable_node_def by blast
  have "wire_node edge key cfg = for_each (map YStr ts) (edge nid)"
    using n ts by (simp add: wire_node_def of_res_def)
  moreover have "runs (\<lambda>w. map_good ids (fst w)) (for_each (map YStr ts) (edge nid)) (\<lambda>_ w. map_good ids (fst w))"
    using n ts by (intro runs_for_each) (auto intro: edge)
  ultimately show ?thesis by simp
qed

section \<open>Creation\<close>

lemma replica_names_nonempty: "replica_names nid r \<noteq> []"
  by (auto simp: replica_names_def)

lemma create_for_total:
  assumes "zmq_total Z" and "routable_node ids cfg"
  shows "runs (\<lambda>w. map_good done (fst w)) (create_for Z cfg)
    (\<lambda>_ w. map_good (done \<union> {nid. raw_id cfg = Inr nid}) (fst w))"
proof (rule runs_pairI)
  fix mbs and z :: 'a assume g: "map_good done (fst (mbs, z))"
  obtain nid r cap p where c: "raw_id cfg = Inr nid"
    "py_replicas (y_get cfg ''replicas'' (YInt 1)) = Inr r"
    "py_maxsize (y_get cfg ''message_queue_size'' (YInt 20)) = Inr cap"
    "queue_policy_of (py_policy (y_get cfg ''queue_policy'' (YStr ''block''))) = Inr p"
    using assms(2) unfolding routable_node_def by blast
  let ?new = "\<lambda>name. new_mailbox Z cap (py_policy (y_get cfg ''queue_policy'' (YStr ''block''))) name (1/10)"
  have "runs (\<lambda>_. True) (map_io ?new (replica_names nid r)) (\<lambda>l _. list_all2 (\<lambda>_. mb_good) (replica_names nid r) l)"
    unfolding mb_good_def by (rule runs_map_io) (rule new_mailbox_total [OF assms(1) c(4)])
  from runsD [OF this TrueI, of z] obtain l z' where l: "map_io ?new (replica_names nid r) z = (Inr l, z')"
    "list_all2 (\<lambda>_. mb_good) (replica_names nid r) l"
    by blast
  have ne: "l \<noteq> []" using l(2) replica_names_nonempty [of nid r] by auto
  have good: "\<forall>b \<in> set l. mb_good b"
    using l(2) by (auto simp: list_all2_conv_all_nth in_set_conv_nth)
  have "create_for Z cfg (mbs, z) = (Inr (), (dset nid l mbs, z'))"
    by (simp add: create_for_def bnd_ok c l(1) Let_def)
  moreover have "map_good (done \<union> {nid. raw_id cfg = Inr nid}) (dset nid l mbs)"
    using g ne good c(1) by (auto simp: map_good_def)
  ultimately show "\<exists>x mbs' z'. create_for Z cfg (mbs, z) = (Inr x, (mbs', z')) \<and>
      map_good (done \<union> {nid. raw_id cfg = Inr nid}) (fst (mbs', z'))"
    by simp
qed

lemma create_all_total:
  assumes "zmq_total Z" and "\<forall>cfg \<in> set cfgs. routable_node ids cfg"
  shows "runs (\<lambda>w. map_good done (fst w)) (for_each cfgs (create_for Z))
    (\<lambda>_ w. map_good (done \<union> config_ids cfgs) (fst w))"
  using assms(2)
proof (induction cfgs arbitrary: "done")
  case Nil
  then show ?case by (simp add: runs_def config_ids_def)
next
  case (Cons cfg cfgs)
  have h: "runs (\<lambda>w. map_good done (fst w)) (create_for Z cfg)
      (\<lambda>_ w. map_good (done \<union> {nid. raw_id cfg = Inr nid}) (fst w))"
    using Cons.prems by (intro create_for_total [OF assms(1)]) auto
  have t: "runs (\<lambda>w. map_good (done \<union> {nid. raw_id cfg = Inr nid}) (fst w)) (for_each cfgs (create_for Z))
      (\<lambda>_ w. map_good (done \<union> {nid. raw_id cfg = Inr nid} \<union> config_ids cfgs) (fst w))"
    using Cons.prems by (intro Cons.IH) auto
  have "done \<union> {nid. raw_id cfg = Inr nid} \<union> config_ids cfgs = done \<union> config_ids (cfg # cfgs)"
    by (auto simp: config_ids_def)
  with runs_bnd [OF h t] show ?case by simp
qed

lemma create_mailboxes_total:
  assumes "zmq_total Z" and "routable cfgs"
  shows "\<exists>mbs z'. create_mailboxes Z cfgs z = (Inr mbs, z') \<and> map_good (config_ids cfgs) mbs"
proof -
  let ?ids = "config_ids cfgs"
  have node: "\<forall>cfg \<in> set cfgs. routable_node ?ids cfg"
    using assms(2) by (simp add: routable_def)
  have 1: "runs (\<lambda>w. map_good {} (fst w)) (create_replica_mailboxes Z cfgs) (\<lambda>_ w. map_good ?ids (fst w))"
    using create_all_total [OF assms(1) node, of "{}"] by (simp add: create_replica_mailboxes_def)
  have 2: "runs (\<lambda>w. map_good ?ids (fst w)) (wire_data_outputs Z cfgs) (\<lambda>_ w. map_good ?ids (fst w))"
    unfolding wire_data_outputs_def
    by (rule runs_for_each, rule wire_node_total) (auto simp: node wire_data_edge_total [OF assms(1)])
  have 3: "runs (\<lambda>w. map_good ?ids (fst w)) (wire_control_outputs Z cfgs) (\<lambda>_ w. map_good ?ids (fst w))"
    unfolding wire_control_outputs_def
    by (rule runs_for_each, rule wire_node_total) (auto simp: node wire_control_edge_total [OF assms(1)])
  from runsD [OF runs_seq [OF 1 runs_seq [OF 2 3]], of "([], z)"]
  show ?thesis by (auto simp: create_mailboxes_def map_good_def)
qed

end
