(* ===== verification/Config_Schema.thy ===== *)
theory Config_Schema
  imports Node_Factory Autoscale Routing_Total
begin

text \<open>
  \<^verbatim>\<open>neudc/core/utils/config_schema.py\<close>: the structural validation of a pipeline configuration.
  A \<^verbatim>\<open>ConfigError\<close> is a value that names the node the message names. The first failing check
  in the order of the code decides.
\<close>

section \<open>Models\<close>

record node_spec =
  ns_id :: string
  ns_type :: string
  ns_outputs :: "string list"
  ns_control_outputs :: "string list"
  ns_replicas :: int
  ns_health_timeout :: "real option"
  ns_health_check_interval :: "real option"
  ns_message_queue_size :: int
  ns_queue_policy :: string
  ns_error_policy :: yaml      \<comment> \<open>the extra field, \<^verbatim>\<open>YNull\<close> when absent\<close>
  ns_autoscale :: yaml

datatype config_error =
    NotAMapping
  | NoNodes
  | Invalid                             \<comment> \<open>pydantic's \<^verbatim>\<open>ValidationError\<close>\<close>
  | DuplicateIds "string list"
  | UnknownType string string
  | MissingExtra string string
  | ImportFailure exn                   \<comment> \<open>not a \<^verbatim>\<open>ConfigError\<close>: propagates\<close>
  | BadOutput string string
  | BadControlOutput string string
  | Incompatible string string
  | ErrorPolicyNotMapping string
  | BadErrorPolicy string
  | BadReplicas string
  | AutoscaleNotMapping string
  | BadAutoscale string
  | BadHealthTimeout string
  | BadHealthInterval string
  | BadQueuePolicy string
  | BadQueueSize string

type_synonym 'a checked = "config_error + 'a"

definition guard :: "bool \<Rightarrow> config_error \<Rightarrow> unit checked" where
  "guard b e = (if b then Inr () else Inl e)"

definition bind_checked :: "'a checked \<Rightarrow> ('a \<Rightarrow> 'b checked) \<Rightarrow> 'b checked" where
  "bind_checked m f = (case m of Inl e \<Rightarrow> Inl e | Inr x \<Rightarrow> f x)"

fun check_all :: "'a list \<Rightarrow> ('a \<Rightarrow> unit checked) \<Rightarrow> unit checked" where
  "check_all [] f = Inr ()"
| "check_all (x # xs) f = bind_checked (f x) (\<lambda>_. check_all xs f)"

text \<open>\<^verbatim>\<open>NodeSpec\<close> as pydantic builds it: typed fields, extra fields kept.\<close>

definition parse_node :: "pydantic \<Rightarrow> yaml \<Rightarrow> node_spec option" where
  "parse_node V v = (case v of
      YMap d \<Rightarrow> (case (Option.bind (dget d ''id'') (py_str V), Option.bind (dget d ''type'') (py_str V),
                   field_of (list_of (py_str V)) [] d ''outputs'',
                   field_of (list_of (py_str V)) [] d ''control_outputs'',
                   field_of (py_int V) 1 d ''replicas'',
                   field_of (opt_of (py_float V)) None d ''health_timeout'',
                   field_of (opt_of (py_float V)) None d ''health_check_interval'',
                   field_of (py_int V) 20 d ''message_queue_size'',
                   field_of (py_str V) ''block'' d ''queue_policy'') of
          (Some i, Some t, Some os, Some cs, Some r, Some ht, Some hi, Some q, Some p) \<Rightarrow>
            Some \<lparr>ns_id = i, ns_type = t, ns_outputs = os, ns_control_outputs = cs, ns_replicas = r,
                  ns_health_timeout = ht, ns_health_check_interval = hi, ns_message_queue_size = q,
                  ns_queue_policy = p, ns_error_policy = y_get d ''error_policy'' YNull,
                  ns_autoscale = y_get d ''autoscale'' YNull\<rparr>
        | _ \<Rightarrow> None)
    | _ \<Rightarrow> None)"

section \<open>Checks of one node\<close>

definition check_extras :: "(string \<Rightarrow> exn + unit) \<Rightarrow> node_spec \<Rightarrow> unit checked" where
  "check_extras imp node = (case get_accepts imp (ns_type node) of
      Inr _ \<Rightarrow> Inr ()
    | Inl (MissingExtraError m) \<Rightarrow> Inl (MissingExtra (ns_id node) m)
    | Inl e \<Rightarrow> Inl (ImportFailure e))"

definition check_payload_compat :: "(string \<Rightarrow> exn + unit) \<Rightarrow> node_spec \<Rightarrow> node_spec \<Rightarrow> unit checked" where
  "check_payload_compat imp node target = (case (get_emits imp (ns_type node), get_accepts imp (ns_type target)) of
      (Inl e, _) \<Rightarrow> Inl (ImportFailure e)
    | (Inr _, Inl e) \<Rightarrow> Inl (ImportFailure e)
    | (Inr es, Inr as) \<Rightarrow> guard (\<exists>e \<in> set es. \<exists>a \<in> set as. issubclass e a) (Incompatible (ns_id node) (ns_id target)))"

definition check_error_policy :: "pydantic \<Rightarrow> node_spec \<Rightarrow> unit checked" where
  "check_error_policy V node = (case ns_error_policy node of
      YNull \<Rightarrow> Inr ()
    | YMap d \<Rightarrow> guard (parse_policy_config V d \<noteq> None) (BadErrorPolicy (ns_id node))
    | _ \<Rightarrow> Inl (ErrorPolicyNotMapping (ns_id node)))"

definition check_replicas :: "node_spec \<Rightarrow> unit checked" where
  "check_replicas node = guard (\<not> ns_replicas node < 1) (BadReplicas (ns_id node))"

definition check_autoscale :: "pydantic \<Rightarrow> node_spec \<Rightarrow> unit checked" where
  "check_autoscale V node = (case ns_autoscale node of
      YNull \<Rightarrow> Inr ()
    | YMap d \<Rightarrow> guard (parse_autoscale V d \<noteq> None) (BadAutoscale (ns_id node))
    | _ \<Rightarrow> Inl (AutoscaleNotMapping (ns_id node)))"

definition check_health_config :: "node_spec \<Rightarrow> unit checked" where
  "check_health_config node =
     bind_checked (guard (case ns_health_timeout node of None \<Rightarrow> True | Some t \<Rightarrow> \<not> t \<le> 0)
        (BadHealthTimeout (ns_id node))) (\<lambda>_.
     guard (case ns_health_check_interval node of None \<Rightarrow> True | Some t \<Rightarrow> \<not> t \<le> 0)
        (BadHealthInterval (ns_id node)))"

definition check_queue_policy :: "node_spec \<Rightarrow> unit checked" where
  "check_queue_policy node =
     bind_checked (guard (ns_queue_policy node \<in> set (map policy_value [BLOCK, DROP_OLDEST, CONFLATE]))
        (BadQueuePolicy (ns_id node))) (\<lambda>_.
     guard (\<not> ns_message_queue_size node < 1) (BadQueueSize (ns_id node)))"

section \<open>The graph\<close>

definition duplicates :: "string list \<Rightarrow> string list" where
  "duplicates ids = filter (\<lambda>i. 1 < count_list ids i) (remdups ids)"

definition find_node :: "node_spec list \<Rightarrow> string \<Rightarrow> node_spec option" where
  "find_node ns i = map_of (map (\<lambda>n. (ns_id n, n)) (rev ns)) i"

definition check_outputs :: "(string \<Rightarrow> exn + unit) \<Rightarrow> node_spec list \<Rightarrow> node_spec \<Rightarrow> unit checked" where
  "check_outputs imp ns node = check_all (ns_outputs node) (\<lambda>target.
     case find_node ns target of
       None \<Rightarrow> Inl (BadOutput (ns_id node) target)
     | Some t \<Rightarrow> check_payload_compat imp node t)"

definition check_control_outputs :: "node_spec list \<Rightarrow> node_spec \<Rightarrow> unit checked" where
  "check_control_outputs ns node = check_all (ns_control_outputs node) (\<lambda>target.
     guard (target \<in> set (map ns_id ns)) (BadControlOutput (ns_id node) target))"

definition check_type :: "(string \<Rightarrow> exn + unit) \<Rightarrow> node_spec \<Rightarrow> unit checked" where
  "check_type imp node =
     bind_checked (guard (ns_type node \<in> set (dkeys NODE_IMPORTS)) (UnknownType (ns_id node) (ns_type node)))
       (\<lambda>_. check_extras imp node)"

definition check_node :: "pydantic \<Rightarrow> (string \<Rightarrow> exn + unit) \<Rightarrow> node_spec list \<Rightarrow> node_spec \<Rightarrow> unit checked" where
  "check_node V imp ns node =
     bind_checked (check_outputs imp ns node) (\<lambda>_.
     bind_checked (check_control_outputs ns node) (\<lambda>_.
     bind_checked (check_error_policy V node) (\<lambda>_.
     bind_checked (check_replicas node) (\<lambda>_.
     bind_checked (check_autoscale V node) (\<lambda>_.
     bind_checked (check_health_config node) (\<lambda>_.
     check_queue_policy node))))))"

definition check_graph :: "pydantic \<Rightarrow> (string \<Rightarrow> exn + unit) \<Rightarrow> node_spec list \<Rightarrow> unit checked" where
  "check_graph V imp ns =
     bind_checked (guard (duplicates (map ns_id ns) = []) (DuplicateIds (duplicates (map ns_id ns)))) (\<lambda>_.
     bind_checked (check_all ns (check_type imp)) (\<lambda>_.
     check_all ns (check_node V imp ns)))"

definition validate_pipeline_config :: "pydantic \<Rightarrow> (string \<Rightarrow> exn + unit) \<Rightarrow> yaml \<Rightarrow> node_spec list checked" where
  "validate_pipeline_config V imp raw = (case raw of
      YMap d \<Rightarrow> (case dget d ''nodes'' of
          None \<Rightarrow> Inl NoNodes
        | Some v \<Rightarrow> (case list_of (parse_node V) v of
              None \<Rightarrow> Inl Invalid
            | Some ns \<Rightarrow> bind_checked (check_graph V imp ns) (\<lambda>_. Inr ns)))
    | _ \<Rightarrow> Inl NotAMapping)"

section \<open>What an accepted configuration satisfies\<close>

lemma bind_checked_Inr [simp]: "bind_checked m f = Inr y \<longleftrightarrow> (\<exists>x. m = Inr x \<and> f x = Inr y)"
  by (auto simp: bind_checked_def split: sum.splits)

lemma guard_Inr [simp]: "guard b e = Inr u \<longleftrightarrow> b"
  by (simp add: guard_def)

lemma check_all_Inr [simp]: "check_all xs f = Inr u \<longleftrightarrow> (\<forall>x \<in> set xs. f x = Inr ())"
  by (induction xs) auto

lemma duplicates_Nil: "duplicates ids = [] \<Longrightarrow> distinct ids"
proof (rule ccontr)
  assume d: "duplicates ids = []" and "\<not> distinct ids"
  then obtain xs ys zs y where "ids = xs @ [y] @ ys @ [y] @ zs"
    using not_distinct_decomp by blast
  then have "1 < count_list ids y" "y \<in> set ids" by auto
  then have "y \<in> set (duplicates ids)" by (simp add: duplicates_def)
  then show False using d by simp
qed

lemma find_node_Some: "find_node ns i = Some n \<Longrightarrow> n \<in> set ns \<and> ns_id n = i"
  unfolding find_node_def by (drule map_of_SomeD) auto

lemma find_node_None: "find_node ns i = None \<Longrightarrow> i \<notin> set (map ns_id ns)"
  by (auto simp: find_node_def map_of_eq_None_iff image_image)

text \<open>The specification of an accepted graph, independent of the order of the checks.\<close>

definition valid_node :: "node_spec list \<Rightarrow> node_spec \<Rightarrow> bool" where
  "valid_node ns n \<longleftrightarrow> ns_type n \<in> set (dkeys NODE_IMPORTS) \<and>
     (\<forall>t \<in> set (ns_outputs n). \<exists>m \<in> set ns. ns_id m = t \<and>
        (\<exists>e \<in> set (class_emits (ns_type n)). \<exists>a \<in> set (class_accepts (ns_type m)). issubclass e a)) \<and>
     (\<forall>t \<in> set (ns_control_outputs n). t \<in> set (map ns_id ns)) \<and>
     1 \<le> ns_replicas n \<and> 1 \<le> ns_message_queue_size n \<and>
     (\<exists>p. queue_policy_of (ns_queue_policy n) = Inr p) \<and>
     (\<forall>t. ns_health_timeout n = Some t \<longrightarrow> 0 < t) \<and>
     (\<forall>t. ns_health_check_interval n = Some t \<longrightarrow> 0 < t)"

lemma resolve_type: "resolve imp t = Inr c \<Longrightarrow> get_accepts imp t = Inr (class_accepts t) \<and> get_emits imp t = Inr (class_emits t)"
  by (auto simp: get_accepts_def get_emits_def dest: resolve_name)

lemma check_payload_compat_Inr:
  "check_payload_compat imp n m = Inr () \<Longrightarrow>
   \<exists>e \<in> set (class_emits (ns_type n)). \<exists>a \<in> set (class_accepts (ns_type m)). issubclass e a"
  by (cases "resolve imp (ns_type n)"; cases "resolve imp (ns_type m)")
     (auto simp: check_payload_compat_def get_emits_def get_accepts_def dest!: resolve_name)

lemma check_node_valid:
  assumes "check_node V imp ns n = Inr ()" and "check_type imp n = Inr ()"
  shows "valid_node ns n"
proof -
  have out: "\<forall>t \<in> set (ns_outputs n). \<exists>m \<in> set ns. ns_id m = t \<and>
      (\<exists>e \<in> set (class_emits (ns_type n)). \<exists>a \<in> set (class_accepts (ns_type m)). issubclass e a)"
  proof
    fix t assume "t \<in> set (ns_outputs n)"
    then have "(case find_node ns t of None \<Rightarrow> Inl (BadOutput (ns_id n) t)
        | Some m \<Rightarrow> check_payload_compat imp n m) = Inr ()"
      using assms(1) by (auto simp: check_node_def check_outputs_def)
    then obtain m where "find_node ns t = Some m" "check_payload_compat imp n m = Inr ()"
      by (auto split: option.splits)
    then show "\<exists>m \<in> set ns. ns_id m = t \<and>
        (\<exists>e \<in> set (class_emits (ns_type n)). \<exists>a \<in> set (class_accepts (ns_type m)). issubclass e a)"
      using find_node_Some check_payload_compat_Inr by blast
  qed
  have "ns_queue_policy n \<in> set (map policy_value [BLOCK, DROP_OLDEST, CONFLATE])"
    using assms(1) by (auto simp: check_node_def check_queue_policy_def)
  then have pol: "\<exists>p. queue_policy_of (ns_queue_policy n) = Inr p"
    by (auto simp: queue_policy_of_def)
  have "\<forall>t. ns_health_timeout n = Some t \<longrightarrow> 0 < t" "\<forall>t. ns_health_check_interval n = Some t \<longrightarrow> 0 < t"
    using assms(1) by (auto simp: check_node_def check_health_config_def split: option.splits)
  then show ?thesis
    using assms out pol
    by (auto simp: valid_node_def check_node_def check_type_def check_control_outputs_def
        check_replicas_def check_queue_policy_def)
qed

lemma validate_valid:
  assumes "validate_pipeline_config V imp raw = Inr ns"
  shows "distinct (map ns_id ns) \<and> (\<forall>n \<in> set ns. valid_node ns n)"
proof -
  have g: "check_graph V imp ns = Inr ()"
    using assms by (auto simp: validate_pipeline_config_def split: yaml.splits option.splits)
  then have "distinct (map ns_id ns)"
    by (auto simp: check_graph_def intro: duplicates_Nil)
  moreover have "\<forall>n \<in> set ns. valid_node ns n"
    using g by (auto simp: check_graph_def intro: check_node_valid)
  ultimately show ?thesis by blast
qed

section \<open>From the YAML to the router\<close>

text \<open>The fields the router reads from the loaded YAML have the type their model says.\<close>

definition plain_int :: "raw_dict \<Rightarrow> string \<Rightarrow> bool" where
  "plain_int cfg k \<longleftrightarrow> (case dget cfg k of None \<Rightarrow> True | Some v \<Rightarrow> \<exists>n. v = YInt n)"

lemma parse_node_fields:
  assumes "parse_node V (YMap cfg) = Some n" and "pydantic_ok V"
  shows "raw_id cfg = Inr (ns_id n) \<and>
    y_iter (y_get cfg ''outputs'' (YList [])) = Inr (map YStr (ns_outputs n)) \<and>
    y_iter (y_get cfg ''control_outputs'' (YList [])) = Inr (map YStr (ns_control_outputs n)) \<and>
    py_policy (y_get cfg ''queue_policy'' (YStr ''block'')) = ns_queue_policy n"
proof -
  have f: "Option.bind (dget cfg ''id'') (py_str V) = Some (ns_id n)"
    "field_of (list_of (py_str V)) [] cfg ''outputs'' = Some (ns_outputs n)"
    "field_of (list_of (py_str V)) [] cfg ''control_outputs'' = Some (ns_control_outputs n)"
    "field_of (py_str V) ''block'' cfg ''queue_policy'' = Some (ns_queue_policy n)"
    using assms(1) by (auto simp: parse_node_def split: option.splits)
  have l: "field_of (list_of (py_str V)) [] cfg k = Some ss \<Longrightarrow>
      y_iter (y_get cfg k (YList [])) = Inr (map YStr ss)" for k ss
    by (auto simp: field_of_def list_of_def y_get_def all_some_str [OF assms(2)] split: option.splits yaml.splits)
  show ?thesis
    using f(1,4) l [OF f(2)] l [OF f(3)]
    by (auto simp: raw_id_def y_item_def field_of_def y_get_def py_str_iff [OF assms(2)] bind_eq_Some_conv
        split: option.splits)
qed

lemma all_some_maps:
  "all_some (parse_node V) (map YMap cfgs) = Some ns \<Longrightarrow> list_all2 (\<lambda>cfg n. parse_node V (YMap cfg) = Some n) cfgs ns"
  by (induction cfgs arbitrary: ns) (auto split: option.splits)

lemma accepted_routable:
  assumes "validate_pipeline_config V imp (YMap d) = Inr ns" and "dget d ''nodes'' = Some (YList (map YMap cfgs))"
    and "pydantic_ok V" and "\<forall>cfg \<in> set cfgs. plain_int cfg ''replicas'' \<and> plain_int cfg ''message_queue_size''"
  shows "routable cfgs \<and> list_all2 (\<lambda>cfg n. parse_node V (YMap cfg) = Some n) cfgs ns"
proof -
  have "all_some (parse_node V) (map YMap cfgs) = Some ns"
    using assms(1,2) by (auto simp: validate_pipeline_config_def list_of_def split: option.splits)
  then have l: "list_all2 (\<lambda>cfg n. parse_node V (YMap cfg) = Some n) cfgs ns"
    by (rule all_some_maps)
  have valid: "\<forall>n \<in> set ns. valid_node ns n" using validate_valid [OF assms(1)] by blast
  have ids: "config_ids cfgs = set (map ns_id ns)"
  proof
    show "config_ids cfgs \<subseteq> set (map ns_id ns)"
    proof
      fix i assume "i \<in> config_ids cfgs"
      then obtain cfg where cfg: "cfg \<in> set cfgs" "raw_id cfg = Inr i" by (auto simp: config_ids_def)
      obtain n where "n \<in> set ns" "parse_node V (YMap cfg) = Some n"
        using list_all2_left [OF l cfg(1)] by blast
      then show "i \<in> set (map ns_id ns)"
        using parse_node_fields [of V cfg n] assms(3) cfg(2) by auto
    qed
    show "set (map ns_id ns) \<subseteq> config_ids cfgs"
    proof
      fix i assume "i \<in> set (map ns_id ns)"
      then obtain n where n: "n \<in> set ns" "i = ns_id n" by auto
      obtain cfg where "cfg \<in> set cfgs" "parse_node V (YMap cfg) = Some n"
        using list_all2_right [OF l n(1)] by blast
      then show "i \<in> config_ids cfgs"
        using parse_node_fields [of V cfg n] assms(3) n(2) by (auto simp: config_ids_def)
    qed
  qed
  have "routable_node (config_ids cfgs) cfg" if mem: "cfg \<in> set cfgs" for cfg
  proof -
    obtain n where n: "n \<in> set ns" "parse_node V (YMap cfg) = Some n"
      using list_all2_left [OF l mem] by blast
    note f = parse_node_fields [OF n(2) assms(3)]
    have v: "valid_node ns n" using valid n(1) by blast
    have "plain_int cfg ''replicas''" "plain_int cfg ''message_queue_size''"
      using assms(4) mem by auto
    then have "\<exists>r. py_replicas (y_get cfg ''replicas'' (YInt 1)) = Inr r"
      "\<exists>r. py_maxsize (y_get cfg ''message_queue_size'' (YInt 20)) = Inr r"
      by (auto simp: plain_int_def y_get_def split: option.splits)
    moreover have "\<exists>p. queue_policy_of (py_policy (y_get cfg ''queue_policy'' (YStr ''block''))) = Inr p"
      using f v by (simp add: valid_node_def)
    moreover have "set (ns_outputs n) \<subseteq> config_ids cfgs" "set (ns_control_outputs n) \<subseteq> config_ids cfgs"
      using v unfolding ids valid_node_def by auto
    moreover have "ns_id n \<in> config_ids cfgs" using n(1) unfolding ids by simp
    ultimately show ?thesis using f unfolding routable_node_def by auto
  qed
  then show ?thesis using l by (simp add: routable_def)
qed

section \<open>A closed instance\<close>

definition demo_cfgs :: "yaml \<Rightarrow> raw_dict list" where
  "demo_cfgs r =
     [[(''id'', YStr ''mic''), (''type'', YStr ''AudioReaderNode''), (''outputs'', YList [YStr ''vad''])],
      [(''id'', YStr ''vad''), (''type'', YStr ''VadNode''), (''replicas'', r)]]"

definition demo_raw :: "yaml \<Rightarrow> (string \<times> yaml) list" where
  "demo_raw r = [(''nodes'', YList (map YMap (demo_cfgs r)))]"

definition demo_specs :: "int \<Rightarrow> node_spec list" where
  "demo_specs n =
     [\<lparr>ns_id = ''mic'', ns_type = ''AudioReaderNode'', ns_outputs = [''vad''], ns_control_outputs = [], ns_replicas = 1,
       ns_health_timeout = None, ns_health_check_interval = None, ns_message_queue_size = 20,
       ns_queue_policy = ''block'', ns_error_policy = YNull, ns_autoscale = YNull\<rparr>,
      \<lparr>ns_id = ''vad'', ns_type = ''VadNode'', ns_outputs = [], ns_control_outputs = [], ns_replicas = n,
       ns_health_timeout = None, ns_health_check_interval = None, ns_message_queue_size = 20,
       ns_queue_policy = ''block'', ns_error_policy = YNull, ns_autoscale = YNull\<rparr>]"

lemma demo_resolve: "t \<in> {''AudioReaderNode'', ''VadNode''} \<Longrightarrow> resolve (\<lambda>_. Inr ()) t = Inr t"
  by (auto simp: resolve_def NODE_IMPORTS_def import_module_for_def)

lemma demo_graph: "1 \<le> n \<Longrightarrow> check_graph V (\<lambda>_. Inr ()) (demo_specs n) = Inr ()"
proof -
  assume "1 \<le> n"
  have "set (dkeys NODE_IMPORTS) \<supseteq> {''AudioReaderNode'', ''VadNode''}"
    by (simp add: NODE_IMPORTS_def dkeys_def)
  then show ?thesis
    using \<open>1 \<le> n\<close> resolve_type [OF demo_resolve]
    by (auto simp: check_graph_def demo_specs_def duplicates_def check_type_def check_extras_def check_node_def
        check_outputs_def find_node_def check_payload_compat_def class_emits_def class_accepts_def
        check_control_outputs_def check_error_policy_def check_replicas_def check_autoscale_def
        check_health_config_def check_queue_policy_def)
qed

lemma demo_accepted:
  assumes "pydantic_ok V" and "py_int V r = Some n" and "1 \<le> n"
  shows "validate_pipeline_config V (\<lambda>_. Inr ()) (YMap (demo_raw r)) = Inr (demo_specs n)"
proof -
  have s: "py_str V (YStr s) = Some s" for s using py_str_iff [OF assms(1)] by blast
  have "list_of (parse_node V) (YList (map YMap (demo_cfgs r))) = Some (demo_specs n)"
    by (simp add: demo_cfgs_def demo_specs_def list_of_def parse_node_def field_of_def y_get_def s assms(2))
  then show ?thesis
    by (simp add: validate_pipeline_config_def demo_raw_def bind_checked_def demo_graph [OF assms(3)])
qed

text \<open>A ZeroMQ whose random ports count up; the world is the next port.\<close>

definition port_zmq :: "int zmq_lib" where
  "port_zmq = \<lparr>z_context = (\<lambda>w. (Inr 0, w)), z_socket = (\<lambda>_ _ w. (Inr 0, w)),
     z_linger = (\<lambda>_ _ w. (Inr (), w)), z_bind = (\<lambda>_ _ w. (Inr (), w)),
     z_bind_random = (\<lambda>_ w. (Inr (\<bar>w\<bar> + 1), \<bar>w\<bar> + 1)), z_connect = (\<lambda>_ _ w. (Inr (), w)),
     z_disconnect = (\<lambda>_ _ w. (Inr (), w)), z_poll = (\<lambda>_ _ w. (Inr [], w)),
     z_recv = (\<lambda>_ _ w. (Inl (ZMQError ''EAGAIN''), w)),
     z_send = (\<lambda>_ _ _ w. (Inr (), w)), z_close = (\<lambda>_ w. (Inr (), w)),
     z_term = (\<lambda>_ w. (Inr (), w)), z_rcvhwm = (\<lambda>_ w. (Inr 1000, w))\<rparr>"

lemma port_zmq_total: "zmq_total port_zmq"
  by (simp add: zmq_total_def port_zmq_def runs_def)

section \<open>Properties\<close>

text \<open>C11: An accepted configuration is sound: ids are unique, every type is registered, every data
  edge ends in a node of the configuration whose accepted payloads include one its producer emits,
  every control edge ends in a node, and replica counts, queue bounds, queue policies and health
  timeouts are in range.\<close>

theorem accepted_config_sound:
  assumes "validate_pipeline_config V imp raw = Inr ns"
  shows "distinct (map ns_id ns) \<and> (\<forall>n \<in> set ns.
    ns_type n \<in> set (dkeys NODE_IMPORTS) \<and>
    (\<forall>t \<in> set (ns_outputs n). \<exists>m \<in> set ns. ns_id m = t \<and>
       (\<exists>e \<in> set (class_emits (ns_type n)). \<exists>a \<in> set (class_accepts (ns_type m)). issubclass e a)) \<and>
    (\<forall>t \<in> set (ns_control_outputs n). t \<in> set (map ns_id ns)) \<and>
    1 \<le> ns_replicas n \<and> 1 \<le> ns_message_queue_size n \<and>
    (\<exists>p. queue_policy_of (ns_queue_policy n) = Inr p) \<and>
    (\<forall>t. ns_health_timeout n = Some t \<longrightarrow> 0 < t))"
  using validate_valid [OF assms] by (auto simp: valid_node_def)

theorem accepted_config_sound_witness:
  "\<exists>m \<in> set (demo_specs 2). ns_id m = ''vad'' \<and>
     (\<exists>e \<in> set (class_emits ''AudioReaderNode''). \<exists>a \<in> set (class_accepts (ns_type m)). issubclass e a)"
proof -
  have "py_int strict_pydantic (YInt 2) = Some 2" by (simp add: strict_pydantic_def)
  from demo_accepted [OF strict_pydantic_ok this]
  have v: "validate_pipeline_config strict_pydantic (\<lambda>_. Inr ()) (YMap (demo_raw (YInt 2))) = Inr (demo_specs 2)"
    by simp
  show ?thesis
    using accepted_config_sound [OF v] by (simp add: demo_specs_def)
qed

text \<open>C1: A validated configuration can be routed, and the graph is the one it describes: when
  ZeroMQ's calls succeed and the counts are written as integers, \<^verbatim>\<open>create_mailboxes\<close> returns, every
  node has mailboxes, and each replica of a node has, for each of its outputs, one publisher that is
  connected to every replica of that target, each port once, and no publisher for any other node.\<close>

theorem accepted_config_routes:
  assumes "validate_pipeline_config V imp (YMap d) = Inr ns" and "dget d ''nodes'' = Some (YList (map YMap cfgs))"
    and "pydantic_ok V" and "\<forall>cfg \<in> set cfgs. plain_int cfg ''replicas'' \<and> plain_int cfg ''message_queue_size''"
    and "zmq_total Z"
  shows "\<exists>mbs z'. create_mailboxes Z cfgs z = (Inr mbs, z') \<and>
    (\<forall>n \<in> set ns. \<exists>l. dget mbs (ns_id n) = Some l \<and> l \<noteq> [] \<and>
       (\<forall>b \<in> set l. \<forall>t. map_option connected_ports (dget (pub_sockets b) t) =
          (if t \<in> set (ns_outputs n)
           then Some (uniq_from [] (map consume_port (the (dget mbs t)))) else None)))"
proof -
  have r: "routable cfgs" and l: "list_all2 (\<lambda>cfg n. parse_node V (YMap cfg) = Some n) cfgs ns"
    using accepted_routable [OF assms(1-4)] by auto
  obtain mbs z' where c: "create_mailboxes Z cfgs z = (Inr mbs, z')" and g: "map_good (config_ids cfgs) mbs"
    using create_mailboxes_total [OF assms(5) r] by blast
  have w: "wired (data_edges cfgs) mbs" by (rule create_mailboxes_wired [OF c])
  have dist: "distinct (map ns_id ns)" using validate_valid [OF assms(1)] by blast
  have node: "\<exists>l. dget mbs (ns_id n) = Some l \<and> l \<noteq> [] \<and>
       (\<forall>b \<in> set l. \<forall>t. map_option connected_ports (dget (pub_sockets b) t) =
          (if t \<in> set (ns_outputs n)
           then Some (uniq_from [] (map consume_port (the (dget mbs t)))) else None))" if n: "n \<in> set ns" for n
  proof -
    obtain cfg where cfg: "cfg \<in> set cfgs" "parse_node V (YMap cfg) = Some n"
      using list_all2_right [OF l n] by blast
    note f = parse_node_fields [OF cfg(2) assms(3)]
    have "ns_id n \<in> config_ids cfgs" using cfg(1) f by (auto simp: config_ids_def)
    then obtain lm where lm: "dget mbs (ns_id n) = Some lm" "lm \<noteq> []"
      using g by (auto simp: map_good_def)
    have edge: "(ns_id n, t) \<in> data_edges cfgs \<longleftrightarrow> t \<in> set (ns_outputs n)" for t
    proof
      assume "(ns_id n, t) \<in> data_edges cfgs"
      then obtain cfg' where cfg': "cfg' \<in> set cfgs" "raw_id cfg' = Inr (ns_id n)" "t \<in> targets_of ''outputs'' cfg'"
        by (auto simp: data_edges_def)
      obtain n' where n': "n' \<in> set ns" "parse_node V (YMap cfg') = Some n'"
        using list_all2_left [OF l cfg'(1)] by blast
      note f' = parse_node_fields [OF n'(2) assms(3)]
      then have "ns_id n' = ns_id n" using cfg'(2) by simp
      then have "n' = n" using dist n n'(1) by (auto simp: distinct_map inj_on_def)
      then show "t \<in> set (ns_outputs n)" using cfg'(3) f' by (auto simp: targets_of_def)
    next
      assume "t \<in> set (ns_outputs n)"
      then show "(ns_id n, t) \<in> data_edges cfgs"
        using cfg(1) f by (auto simp: data_edges_def targets_of_def)
    qed
    have "map_option connected_ports (dget (pub_sockets b) t) =
        (if t \<in> set (ns_outputs n) then Some (uniq_from [] (map consume_port (the (dget mbs t)))) else None)"
      if "b \<in> set lm" for b t
      using w lm(1) that edge [of t] unfolding wired_def edge_ports_def node_ports_def
      by (cases "dget mbs t") fastforce+
    then show ?thesis using lm by blast
  qed
  show ?thesis using c node by blast
qed

theorem accepted_config_routes_witness:
  "\<exists>mbs z'. create_mailboxes port_zmq (demo_cfgs (YInt 2)) 6000 = (Inr mbs, z') \<and>
    (\<exists>l. dget mbs ''mic'' = Some l \<and> l \<noteq> [] \<and>
       (\<forall>b \<in> set l. map_option connected_ports (dget (pub_sockets b) ''vad'') =
          Some (uniq_from [] (map consume_port (the (dget mbs ''vad''))))))"
proof -
  have "py_int strict_pydantic (YInt 2) = Some 2" by (simp add: strict_pydantic_def)
  from demo_accepted [OF strict_pydantic_ok this]
  have v: "validate_pipeline_config strict_pydantic (\<lambda>_. Inr ()) (YMap (demo_raw (YInt 2))) = Inr (demo_specs 2)"
    by simp
  have "dget (demo_raw (YInt 2)) ''nodes'' = Some (YList (map YMap (demo_cfgs (YInt 2))))"
    by (simp add: demo_raw_def)
  moreover have "\<forall>cfg \<in> set (demo_cfgs (YInt 2)). plain_int cfg ''replicas'' \<and> plain_int cfg ''message_queue_size''"
    by (simp add: demo_cfgs_def plain_int_def)
  ultimately obtain mbs z' where "create_mailboxes port_zmq (demo_cfgs (YInt 2)) 6000 = (Inr mbs, z')"
    "\<forall>n \<in> set (demo_specs 2). \<exists>l. dget mbs (ns_id n) = Some l \<and> l \<noteq> [] \<and>
       (\<forall>b \<in> set l. \<forall>t. map_option connected_ports (dget (pub_sockets b) t) =
          (if t \<in> set (ns_outputs n)
           then Some (uniq_from [] (map consume_port (the (dget mbs t)))) else None))"
    using accepted_config_routes [OF v _ strict_pydantic_ok _ port_zmq_total, of _ 6000] by blast
  moreover have "hd (demo_specs 2) \<in> set (demo_specs 2)" "ns_id (hd (demo_specs 2)) = ''mic''"
    "ns_outputs (hd (demo_specs 2)) = [''vad'']"
    by (simp_all add: demo_specs_def)
  ultimately show ?thesis by (metis list.set_intros(1))
qed

text \<open>Validation and routing read different values: a replica count that the model coerces from
  a string is accepted by validation, but the router compares the string of the loaded YAML with 1
  and raises \<^verbatim>\<open>TypeError\<close>, so the accepted pipeline does not start.\<close>

theorem coerced_count_breaks_routing:
  assumes "pydantic_ok V" and "py_int V (YStr r) = Some n" and "1 \<le> n" and "zmq_total Z"
  shows "validate_pipeline_config V (\<lambda>_. Inr ()) (YMap (demo_raw (YStr r))) = Inr (demo_specs n) \<and>
    fst (create_mailboxes Z (demo_cfgs (YStr r)) z) = Inl (TypeError ''<= not supported'')"
proof -
  have "runs (\<lambda>_. True) (new_mailbox Z 20 ''block'' ''mic'' (1/10))
      (\<lambda>b _. 0 < consume_port b \<and> 0 < control_consume_port b \<and> pubs_ready b)"
    by (rule new_mailbox_total [OF assms(4), of _ BLOCK]) (simp add: queue_policy_of_def)
  from runsD [OF this TrueI, of z] obtain b z1 where
    "new_mailbox Z 20 ''block'' ''mic'' (1/10) z = (Inr b, z1)" by blast
  then show ?thesis
    using demo_accepted [OF assms(1-3)]
    by (simp add: create_mailboxes_def create_replica_mailboxes_def demo_cfgs_def create_for_def raw_id_def
        y_item_def y_get_def bnd_def seq_def replica_names_def Let_def)
qed

text \<open>Coercions with numeric strings, as pydantic's lax mode has them.\<close>

definition lax_pydantic :: pydantic where
  "lax_pydantic = strict_pydantic\<lparr>py_int := (\<lambda>v. case v of YInt n \<Rightarrow> Some n
     | YStr s \<Rightarrow> (if s = ''2'' then Some 2 else None) | _ \<Rightarrow> None)\<rparr>"

theorem coerced_count_breaks_routing_witness:
  "validate_pipeline_config lax_pydantic (\<lambda>_. Inr ()) (YMap (demo_raw (YStr ''2''))) = Inr (demo_specs 2) \<and>
    fst (create_mailboxes port_zmq (demo_cfgs (YStr ''2'')) 6000) = Inl (TypeError ''<= not supported'')"
proof -
  have "pydantic_ok lax_pydantic"
    using strict_pydantic_ok by (simp add: pydantic_ok_def lax_pydantic_def)
  then show ?thesis
    using coerced_count_breaks_routing [OF _ _ _ port_zmq_total, of lax_pydantic "''2''" 2 6000]
    by (simp add: lax_pydantic_def)
qed

end
