(* ===== verification/Pipeline.thy ===== *)
theory Pipeline
  imports Config_Schema Fan_Out
begin

text \<open>
  \<^verbatim>\<open>neudc/core/base/base_pipeline.py\<close> and \<^verbatim>\<open>neudc/entrypoints/main.py\<close>: building the nodes of a
  configuration on their mailboxes, starting them, waiting, and stopping them. What a node does
  when it is started, asked for readiness or failure, and stopped is a record of calls (\<open>life\<close>);
  polling the stop event and sleeping are calls on the world.
\<close>

section \<open>Building the nodes\<close>

definition rename_replica :: "string \<Rightarrow> nat \<Rightarrow> nat \<Rightarrow> 'n built_node \<Rightarrow> 'n built_node" where
  "rename_replica nid cnt i n = (if 1 < cnt then n\<lparr>bn_id := replica_name nid i\<rparr> else n)"

definition mailboxes_of :: "mailbox_map \<Rightarrow> string \<Rightarrow> exn + mailbox list" where
  "mailboxes_of mbs nid = (case dget mbs nid of None \<Rightarrow> Inl KeyError | Some l \<Rightarrow> Inr l)"

definition build_for :: "pydantic \<Rightarrow> (string \<Rightarrow> exn + unit) \<Rightarrow> (string \<Rightarrow> raw_dict \<Rightarrow> mailbox \<Rightarrow> ('w, 'n) io) \<Rightarrow>
    mailbox_map \<Rightarrow> raw_dict \<Rightarrow> ('w, 'n built_node list) io" where
  "build_for V imp from_config mbs cfg =
     bnd (of_res (raw_id cfg)) (\<lambda>nid.
     bnd (of_res (mailboxes_of mbs nid)) (\<lambda>l.
     map_io (\<lambda>(i, m). bnd (create_node V imp from_config cfg m) (\<lambda>n.
       ret (rename_replica nid (length l) i n))) (enumerate 0 l)))"

definition build_all :: "pydantic \<Rightarrow> (string \<Rightarrow> exn + unit) \<Rightarrow> (string \<Rightarrow> raw_dict \<Rightarrow> mailbox \<Rightarrow> ('w, 'n) io) \<Rightarrow>
    mailbox_map \<Rightarrow> raw_dict list \<Rightarrow> ('w, 'n built_node list) io" where
  "build_all V imp from_config mbs cfgs =
     bnd (map_io (build_for V imp from_config mbs) cfgs) (\<lambda>ls. ret (concat ls))"

text \<open>\<^verbatim>\<open>_build_nodes\<close> sorts the nodes into process nodes and threaded nodes.\<close>

definition build_nodes :: "pydantic \<Rightarrow> (string \<Rightarrow> exn + unit) \<Rightarrow> (string \<Rightarrow> raw_dict \<Rightarrow> mailbox \<Rightarrow> ('w, 'n) io) \<Rightarrow>
    ('n built_node \<Rightarrow> bool) \<Rightarrow> mailbox_map \<Rightarrow> raw_dict list \<Rightarrow> ('w, 'n built_node list \<times> 'n built_node list) io" where
  "build_nodes V imp from_config is_process mbs cfgs =
     bnd (build_all V imp from_config mbs cfgs) (\<lambda>ns. ret (filter is_process ns, filter (\<lambda>n. \<not> is_process n) ns))"

section \<open>The life of the nodes\<close>

record ('w, 'n) life =
  l_start :: "'n built_node \<Rightarrow> ('w, unit) io"
  l_wait_ready :: "'n built_node \<Rightarrow> ('w, bool) io"
  l_failed :: "'n built_node \<Rightarrow> ('w, bool) io"
  l_stop :: "'n built_node \<Rightarrow> ('w, unit) io"

text \<open>\<^verbatim>\<open>try: m finally: f\<close>.\<close>

definition finally_io :: "('w, 'a) io \<Rightarrow> ('w, unit) io \<Rightarrow> ('w, 'a) io" where
  "finally_io m f = (\<lambda>w. case m w of (r, w1) \<Rightarrow> (case f w1 of (Inl e, w2) \<Rightarrow> (Inl e, w2) | (Inr _, w2) \<Rightarrow> (r, w2)))"

definition stop_all :: "('w, 'n) life \<Rightarrow> 'n built_node list \<Rightarrow> ('w, unit) io" where
  "stop_all L ns = for_each ns (l_stop L)"

definition start_process_nodes :: "('w, 'n) life \<Rightarrow> 'n built_node list \<Rightarrow> ('w, unit) io" where
  "start_process_nodes L ns =
     seq (for_each ns (l_start L)) (for_each ns (\<lambda>n. bnd (l_wait_ready L n) (\<lambda>_. ret ())))"

text \<open>\<^verbatim>\<open>[node.id for node in nodes if node.failed()]\<close>.\<close>

definition broken_nodes :: "('w, 'n) life \<Rightarrow> 'n built_node list \<Rightarrow> ('w, string list) io" where
  "broken_nodes L ns =
     bnd (map_io (\<lambda>n. bnd (l_failed L n) (\<lambda>b. ret (if b then [bn_id n] else []))) ns) (\<lambda>ls. ret (concat ls))"

section \<open>main.py\<close>

text \<open>\<^verbatim>\<open>_maybe_start_prometheus\<close>: the port of the server to start, if any.\<close>

definition prometheus_port :: "raw_dict \<Rightarrow> exn + yaml option" where
  "prometheus_port raw = (case y_get raw ''prometheus'' YNull of
      YMap d \<Rightarrow> Inr (if d \<noteq> [] \<and> y_truth (y_get d ''port'' YNull) \<and> y_truth (y_get d ''enable'' YNull)
        then dget d ''port'' else None)
    | v \<Rightarrow> if y_truth v then Inl (AttributeError ''get'') else Inr None)"

definition maybe_start_prometheus :: "('w, 'r option) io \<Rightarrow> (yaml \<Rightarrow> 'r option \<Rightarrow> ('w, unit) io) \<Rightarrow> raw_dict \<Rightarrow> ('w, unit) io" where
  "maybe_start_prometheus build_registry start_http_server raw =
     bnd (of_res (prometheus_port raw)) (\<lambda>p. case p of
       None \<Rightarrow> ret ()
     | Some port \<Rightarrow> bnd build_registry (\<lambda>reg. start_http_server port reg))"

text \<open>A pass of \<^verbatim>\<open>_watch_for_failed_nodes\<close> after a wait that timed out: whether it set the event.\<close>

definition watch_turn :: "('w, 'n) life \<Rightarrow> 'n built_node list \<Rightarrow> ('w, unit) io \<Rightarrow> ('w, bool) io" where
  "watch_turn L ns set_event =
     bnd (broken_nodes L ns) (\<lambda>broken. if broken \<noteq> [] then seq set_event (ret True) else ret False)"

fun raw_map :: "yaml \<Rightarrow> exn + raw_dict" where
  "raw_map (YMap d) = Inr d"
| "raw_map _ = Inl (TypeError ''indices must be integers'')"

definition raw_nodes :: "yaml \<Rightarrow> ('w, raw_dict list) io" where
  "raw_nodes raw =
     bnd (of_res (raw_map raw)) (\<lambda>d.
     bnd (of_res (y_item d ''nodes'')) (\<lambda>v.
     bnd (of_res (y_iter v)) (\<lambda>l. map_io (\<lambda>x. of_res (raw_map x)) l)))"

text \<open>From the started mailboxes to the end: build, start, wait for the shutdown, stop.\<close>

definition run_nodes :: "('w, 'n) life \<Rightarrow> ('w, unit) io \<Rightarrow> ('w, unit) io \<Rightarrow> 'n built_node list \<Rightarrow> 'n built_node list \<Rightarrow> ('w, unit) io" where
  "run_nodes L spawn_watcher wait_stop process_nodes threaded_nodes =
     seq (start_process_nodes L process_nodes) (
     seq (for_each threaded_nodes (l_start L)) (
     seq spawn_watcher
       (finally_io wait_stop (stop_all L (process_nodes @ threaded_nodes)))))"

text \<open>\<open>prom\<close> is \<^verbatim>\<open>_maybe_start_prometheus\<close>; \<open>watcher\<close> installs the signal handlers and spawns the
  watching thread.\<close>

definition main :: "pydantic \<Rightarrow> (string \<Rightarrow> exn + unit) \<Rightarrow> (string \<Rightarrow> raw_dict \<Rightarrow> mailbox \<Rightarrow> ('w, 'n) io) \<Rightarrow> 'w zmq_lib \<Rightarrow>
    ('n built_node \<Rightarrow> bool) \<Rightarrow> ('w, 'n) life \<Rightarrow> (raw_dict \<Rightarrow> ('w, unit) io) \<Rightarrow> ('n built_node list \<Rightarrow> ('w, unit) io) \<Rightarrow>
    ('w, unit) io \<Rightarrow> yaml \<Rightarrow> ('w, unit) io" where
  "main V imp from_config Z is_process L prom watcher wait_stop raw =
     (case validate_pipeline_config V imp raw of
        Inl _ \<Rightarrow> raise (ValueError ''ConfigError'')
      | Inr _ \<Rightarrow>
          bnd (of_res (raw_map raw)) (\<lambda>d.
          seq (prom d) (
          bnd (raw_nodes raw) (\<lambda>cfgs.
          bnd (create_mailboxes Z cfgs) (\<lambda>mbs.
          bnd (build_nodes V imp from_config is_process mbs cfgs) (\<lambda>(process_nodes, threaded_nodes).
          run_nodes L (watcher (process_nodes @ threaded_nodes)) wait_stop process_nodes threaded_nodes))))))"

section \<open>BasePipeline\<close>

text \<open>The keep-alive loop; \<open>is_set\<close> polls the stop event of the pipeline.\<close>

partial_function (option) keep_alive :: "('w, 'n) life \<Rightarrow> ('w, bool) io \<Rightarrow> ('w, unit) io \<Rightarrow> 'n built_node list \<Rightarrow> 'w \<Rightarrow>
    ((exn + unit) \<times> 'w) option" where
  "keep_alive L is_set nap ns w = (case is_set w of
      (Inl e, w1) \<Rightarrow> Some (Inl e, w1)
    | (Inr stop, w1) \<Rightarrow>
        if stop then Some (Inr (), w1)
        else (case broken_nodes L ns w1 of
            (Inl e, w2) \<Rightarrow> Some (Inl e, w2)
          | (Inr broken, w2) \<Rightarrow>
              if broken \<noteq> [] then Some (Inr (), w2)
              else (case nap w2 of
                  (Inl e, w3) \<Rightarrow> Some (Inl e, w3)
                | (Inr _, w3) \<Rightarrow> keep_alive L is_set nap ns w3)))"

text \<open>\<^verbatim>\<open>except KeyboardInterrupt .. finally\<close> around the loop.\<close>

definition end_pipeline :: "('w, 'n) life \<Rightarrow> 'n built_node list \<Rightarrow> exn + unit \<Rightarrow> ('w, unit) io" where
  "end_pipeline L ns r = finally_io (of_res (if r = Inl KeyboardInterrupt then Inr () else r)) (stop_all L ns)"

definition pipeline_run :: "pydantic \<Rightarrow> (string \<Rightarrow> exn + unit) \<Rightarrow> (string \<Rightarrow> raw_dict \<Rightarrow> mailbox \<Rightarrow> ('w, 'n) io) \<Rightarrow> 'w zmq_lib \<Rightarrow>
    ('w, 'n) life \<Rightarrow> ('w, bool) io \<Rightarrow> ('w, unit) io \<Rightarrow> raw_dict list \<Rightarrow> 'w \<Rightarrow> ((exn + unit) \<times> 'w) option" where
  "pipeline_run V imp from_config Z L is_set nap cfgs w =
     (case bnd (create_mailboxes Z cfgs) (\<lambda>mbs.
           bnd (build_all V imp from_config mbs cfgs) (\<lambda>ns.
           seq (for_each ns (l_start L)) (ret ns))) w of
        (Inl e, w1) \<Rightarrow> Some (Inl e, w1)
      | (Inr ns, w1) \<Rightarrow> map_option (\<lambda>(r, w2). end_pipeline L ns r w2) (keep_alive L is_set nap ns w1))"

section \<open>The nodes of a replicated entry\<close>

definition read_nat :: "string \<Rightarrow> nat" where
  "read_nat s = foldl (\<lambda>a c. 10 * a + (of_char c - 48)) 0 s"

lemma read_show_nat: "read_nat (show_nat n) = n"
proof (induction n rule: show_nat.induct)
  case (1 n)
  show ?case
  proof (cases "n < 10")
    case True
    then show ?thesis by (subst show_nat.simps) (simp add: read_nat_def)
  next
    case False
    then have "read_nat (show_nat n) = 10 * read_nat (show_nat (n div 10)) + n mod 10"
      by (subst show_nat.simps) (simp add: read_nat_def)
    then show ?thesis using 1 [OF False] by simp
  qed
qed

lemma replica_name_inj: "replica_name nid i = replica_name nid j \<Longrightarrow> i = j"
  unfolding replica_name_def by (metis append_same_eq append_eq_append_conv read_show_nat same_append_eq list.inject)

lemma policy_from_config_id: "policy_from_config V raw nid = Inr p \<Longrightarrow> node_id p = nid \<and> stats p = zero_stats"
  by (auto simp: policy_from_config_def new_policy_def split: option.splits yaml.splits if_splits)

lemma create_node_ids:
  assumes "create_node V imp from_config cfg m w = (Inr n, w')" and "dget cfg ''id'' = Some (YStr nid)" and "nid \<noteq> []"
  shows "bn_id n = nid \<and> node_id (bn_policy n) = nid"
proof (cases "y_item cfg ''type''")
  case (Inl e)
  then show ?thesis using assms(1) by (simp add: create_node_def bnd_of_res)
next
  case (Inr v)
  then show ?thesis using assms
    by (cases v) (auto simp: create_node_def create_node_id_def io_simps bnd_of_res of_res_def
        dest!: policy_from_config_id)
qed

lemma raw_id_Inr: "raw_id cfg = Inr nid \<longleftrightarrow> dget cfg ''id'' = Some (YStr nid)"
  by (auto simp: raw_id_def y_item_def split: option.splits sum.splits yaml.splits)

text \<open>An entry with \<open>N\<close> mailboxes becomes \<open>N\<close> nodes with pairwise different ids, the plain id
  when there is one and \<^verbatim>\<open>id#i\<close> otherwise; but the error policies of all of them keep the plain
  id, so their metrics and their dead-letter file are one and the same.\<close>

theorem replica_identity:
  assumes "build_for V imp from_config mbs cfg w = (Inr ns, w')"
    and "raw_id cfg = Inr nid" and "nid \<noteq> []" and "dget mbs nid = Some l"
  shows "map bn_id ns = (if length l \<le> 1 then replicate (length l) nid else map (replica_name nid) [0..<length l]) \<and>
    distinct (map bn_id ns) \<and> (\<forall>n \<in> set ns. node_id (bn_policy n) = nid)"
proof -
  have m: "map_io (\<lambda>(i, m). bnd (create_node V imp from_config cfg m) (\<lambda>n.
       ret (rename_replica nid (length l) i n))) (enumerate 0 l) w = (Inr ns, w')"
    using assms by (simp add: build_for_def mailboxes_of_def bnd_of_res)
  have "list_all2 (\<lambda>(i, m) n. bn_id n = (if length l \<le> 1 then nid else replica_name nid i) \<and>
      node_id (bn_policy n) = nid) (enumerate 0 l) ns"
  proof (rule map_io_all2 [OF m])
    fix x and y :: "'a built_node" and v v'
    assume "(case x of (i, m) \<Rightarrow> bnd (create_node V imp from_config cfg m) (\<lambda>n.
       ret (rename_replica nid (length l) i n))) v = (Inr y, v')"
    then show "(\<lambda>(i, m) n. bn_id n = (if length l \<le> 1 then nid else replica_name nid i) \<and> node_id (bn_policy n) = nid) x y"
      using assms(2,3) by (auto simp: io_simps rename_replica_def raw_id_Inr dest!: create_node_ids)
  qed
  then have len: "length ns = length l" and
    nth: "\<And>i. i < length l \<Longrightarrow> bn_id (ns ! i) = (if length l \<le> 1 then nid else replica_name nid i) \<and>
      node_id (bn_policy (ns ! i)) = nid"
    by (auto simp: list_all2_conv_all_nth nth_enumerate_eq)
  have ids: "map bn_id ns = (if length l \<le> 1 then replicate (length l) nid else map (replica_name nid) [0..<length l])"
    by (rule nth_equalityI) (simp_all add: len nth)
  moreover have "distinct (map bn_id ns)"
    unfolding ids by (cases l) (auto simp: distinct_map inj_on_def dest: replica_name_inj)
  moreover have "\<forall>n \<in> set ns. node_id (bn_policy n) = nid"
    using len nth by (metis in_set_conv_nth)
  ultimately show ?thesis by blast
qed

section \<open>Starting and stopping\<close>

text \<open>C30: \<^verbatim>\<open>main\<close> starts every process node, waits for each of them, starts the threaded nodes, and
  whatever ends the wait for the shutdown, an exception included, stops every node exactly once,
  in order; the outcome of the wait is the outcome of the run.\<close>

theorem run_nodes_lifecycle:
  assumes "\<And>n w. l_start L n w = (Inr (), st n w)" and "\<And>n w. \<exists>b. l_wait_ready L n w = (Inr b, wt n w)"
    and "\<And>n w. l_stop L n w = (Inr (), sp n w)" and "\<And>w. spawn_watcher w = (Inr (), sw w)"
    and "wait_stop (sw (fold st ts (fold wt ps (fold st ps w)))) = (r, w')"
  shows "run_nodes L spawn_watcher wait_stop ps ts w = (r, fold sp (ps @ ts) w')"
proof -
  have 1: "for_each ns (l_start L) v = (Inr (), fold st ns v)" for ns v
    by (rule for_each_fold) (rule assms(1))
  have w1: "bnd (l_wait_ready L n) (\<lambda>_. ret ()) v = (Inr (), wt n v)" for n v
    using assms(2) [of n v] by (auto simp: bnd_def)
  have 2: "for_each ns (\<lambda>n. bnd (l_wait_ready L n) (\<lambda>_. ret ())) v = (Inr (), fold wt ns v)" for ns v
    by (rule for_each_fold) (rule w1)
  have 3: "for_each ns (l_stop L) v = (Inr (), fold sp ns v)" for ns v
    by (rule for_each_fold) (rule assms(3))
  have s: "start_process_nodes L ps w = (Inr (), fold wt ps (fold st ps w))"
    by (simp add: start_process_nodes_def seq_ok 1 2)
  show ?thesis
    by (simp add: run_nodes_def seq_ok s 1 assms(4) finally_io_def stop_all_def 3 assms(5))
qed

text \<open>Only the wait is protected: a node that fails to start ends the run at once, and the nodes
  started before it, process nodes included, are left running.\<close>

theorem failed_start_stops_nobody:
  assumes "\<And>n w. n \<noteq> bad \<Longrightarrow> l_start L n w = (Inr (), st n w)" and "\<And>w. l_start L bad w = (Inl e, w)"
    and "\<And>n w. \<exists>b. l_wait_ready L n w = (Inr b, wt n w)" and "bad \<notin> set ps" and "bad \<notin> set ts"
  shows "run_nodes L spawn_watcher wait_stop ps (ts @ bad # us) w = (Inl e, fold st ts (fold wt ps (fold st ps w)))"
proof -
  have 1: "for_each ns (l_start L) v = (Inr (), fold st ns v)" if "bad \<notin> set ns" for ns v
    using that by (induction ns arbitrary: v) (auto simp: bnd_def assms(1))
  have w1: "bnd (l_wait_ready L n) (\<lambda>_. ret ()) v = (Inr (), wt n v)" for n v
    using assms(3) [of n v] by (auto simp: bnd_def)
  have 2: "for_each ns (\<lambda>n. bnd (l_wait_ready L n) (\<lambda>_. ret ())) v = (Inr (), fold wt ns v)" for ns v
    by (rule for_each_fold) (rule w1)
  have 3: "for_each (ts @ bad # us) (l_start L) v = (Inl e, fold st ts v)" for v
    by (simp add: for_each_append bnd_def 1 assms(2,5))
  have s: "start_process_nodes L ps w = (Inr (), fold wt ps (fold st ps w))"
    by (simp add: start_process_nodes_def seq_ok 1 2 assms(4))
  show ?thesis
    by (simp add: run_nodes_def seq_ok seq_err s 3)
qed

section \<open>The keep-alive loop\<close>

text \<open>One quiet pass of the loop: the stop event is not set, no node has failed, the sleep returns.\<close>

definition quiet_pass :: "('w, 'n) life \<Rightarrow> ('w, bool) io \<Rightarrow> ('w, unit) io \<Rightarrow> 'n built_node list \<Rightarrow> 'w \<Rightarrow> 'w \<Rightarrow> bool" where
  "quiet_pass L is_set nap ns w w' \<longleftrightarrow> (\<exists>w1 w2. is_set w = (Inr False, w1) \<and>
     broken_nodes L ns w1 = (Inr [], w2) \<and> nap w2 = (Inr (), w'))"

lemma keep_alive_quiet: "quiet_pass L is_set nap ns w w' \<Longrightarrow> keep_alive L is_set nap ns w = keep_alive L is_set nap ns w'"
  by (subst keep_alive.simps) (auto simp: quiet_pass_def)

lemma keep_alive_steps:
  "(quiet_pass L is_set nap ns)\<^sup>*\<^sup>* w w' \<Longrightarrow> keep_alive L is_set nap ns w = keep_alive L is_set nap ns w'"
  by (induction rule: rtranclp_induct) (simp_all add: keep_alive_quiet)

text \<open>A pipeline process comes to an end: after any number of quiet passes, a pass that finds the
  stop event set or a failed node ends the loop, and then every node has been stopped.\<close>

theorem pipeline_run_ends:
  assumes "bnd (create_mailboxes Z cfgs) (\<lambda>mbs. bnd (build_all V imp from_config mbs cfgs) (\<lambda>ns.
      seq (for_each ns (l_start L)) (ret ns))) w = (Inr ns, w1)"
    and "(quiet_pass L is_set nap ns)\<^sup>*\<^sup>* w1 w2" and "is_set w2 = (Inr stop, w3)"
    and "broken_nodes L ns w3 = (Inr broken, w4)" and "stop \<or> broken \<noteq> []"
    and "\<And>n w. l_stop L n w = (Inr (), sp n w)"
  shows "pipeline_run V imp from_config Z L is_set nap cfgs w =
    Some (Inr (), fold sp ns (if stop then w3 else w4))"
proof -
  have stop: "for_each ms (l_stop L) v = (Inr (), fold sp ms v)" for ms v
    by (rule for_each_fold) (rule assms(6))
  have "keep_alive L is_set nap ns w1 = Some (Inr (), if stop then w3 else w4)"
    unfolding keep_alive_steps [OF assms(2)] using assms(3-5)
    by (subst keep_alive.simps) auto
  then show ?thesis
    by (simp add: pipeline_run_def assms(1) end_pipeline_def finally_io_def stop_all_def stop)
qed

section \<open>Concrete runs\<close>

definition demo_node :: "string \<Rightarrow> unit built_node" where
  "demo_node i = \<lparr>bn_class = ''VadNode'', bn_id = i, bn_policy = new_policy default_policy_config i,
     bn_health_timeout = None, bn_health_check_interval = None, bn_object = ()\<rparr>"

text \<open>Nodes that log their calls; some fail to start.\<close>

definition logging_life :: "(unit built_node \<Rightarrow> bool) \<Rightarrow> (string list, unit) life" where
  "logging_life fails = \<lparr>
     l_start = (\<lambda>n w. if fails n then (Inl (RuntimeError ''start''), w) else (Inr (), w @ [''start '' @ bn_id n])),
     l_wait_ready = (\<lambda>n w. (Inr True, w @ [''ready '' @ bn_id n])),
     l_failed = (\<lambda>n w. (Inr False, w)),
     l_stop = (\<lambda>n w. (Inr (), w @ [''stop '' @ bn_id n]))\<rparr>"

definition vad_entry :: raw_dict where
  "vad_entry = [(''id'', YStr ''vad''), (''type'', YStr ''VadNode'')]"

lemma create_vad:
  "create_node strict_pydantic (\<lambda>_. Inr ()) (\<lambda>_ _ _. ret ()) vad_entry b w = (Inr (demo_node ''vad''), w)"
  by (simp add: create_node_def vad_entry_def y_item_def bnd_of_res resolve_def import_module_for_def NODE_IMPORTS_def
      create_node_id_def popped_def policy_from_config_def demo_node_def)

theorem replica_identity_witness:
  "\<exists>n m. build_for strict_pydantic (\<lambda>_. Inr ()) (\<lambda>_ _ _. ret ())
      [(''vad'', [demo_mailbox 1 BLOCK, demo_mailbox 1 BLOCK])] vad_entry () = (Inr [n, m], ()) \<and>
    bn_id n \<noteq> bn_id m \<and> node_id (bn_policy n) = node_id (bn_policy m)"
proof -
  have c: "create_node strict_pydantic (\<lambda>_. Inr ()) (\<lambda>_ _ _. ret ()) vad_entry b w = (Inr (demo_node ''vad''), w)" for b :: mailbox and w :: unit
    by (rule create_vad)
  have e: "enumerate 0 [demo_mailbox 1 BLOCK, demo_mailbox 1 BLOCK] = [(0, demo_mailbox 1 BLOCK), (1, demo_mailbox 1 BLOCK)]"
    by simp
  obtain n m where b: "build_for strict_pydantic (\<lambda>_. Inr ()) (\<lambda>_ _ _. ret ())
      [(''vad'', [demo_mailbox 1 BLOCK, demo_mailbox 1 BLOCK])] vad_entry () = (Inr [n, m], ())"
    by (simp add: build_for_def mailboxes_of_def raw_id_def y_item_def vad_entry_def [symmetric] bnd_of_res c bnd_def)
       (simp add: vad_entry_def bnd_of_res mailboxes_of_def bnd_def c [unfolded vad_entry_def])
  have "raw_id vad_entry = Inr ''vad''" by (simp add: raw_id_def y_item_def vad_entry_def)
  from replica_identity [OF b this] b show ?thesis by auto
qed

theorem run_nodes_lifecycle_witness:
  "run_nodes (logging_life (\<lambda>_. False)) (ret ()) (raise KeyboardInterrupt) [demo_node ''p''] [demo_node ''t''] [] =
    (Inl KeyboardInterrupt, [''start p'', ''ready p'', ''start t'', ''stop p'', ''stop t''])"
proof -
  have "run_nodes (logging_life (\<lambda>_. False)) (ret ()) (raise KeyboardInterrupt) [demo_node ''p''] [demo_node ''t''] [] =
    (Inl KeyboardInterrupt, fold (\<lambda>n w. w @ [''stop '' @ bn_id n]) ([demo_node ''p''] @ [demo_node ''t''])
      (fold (\<lambda>n w. w @ [''start '' @ bn_id n]) [demo_node ''t'']
        (fold (\<lambda>n w. w @ [''ready '' @ bn_id n]) [demo_node ''p'']
          (fold (\<lambda>n w. w @ [''start '' @ bn_id n]) [demo_node ''p''] []))))"
    by (rule run_nodes_lifecycle [where sw = "\<lambda>w. w" and st = "\<lambda>n w. w @ [''start '' @ bn_id n]" and wt = "\<lambda>n w. w @ [''ready '' @ bn_id n]"]) (auto simp: logging_life_def)
  then show ?thesis by (simp add: demo_node_def)
qed

theorem failed_start_stops_nobody_witness:
  "run_nodes (logging_life (\<lambda>n. n = demo_node ''t'')) (ret ()) (ret ()) [demo_node ''p''] [demo_node ''r'', demo_node ''t''] [] =
    (Inl (RuntimeError ''start''), [''start p'', ''ready p'', ''start r''])"
proof -
  have "run_nodes (logging_life (\<lambda>n. n = demo_node ''t'')) (ret ()) (ret ()) [demo_node ''p'']
      ([demo_node ''r''] @ demo_node ''t'' # []) [] =
    (Inl (RuntimeError ''start''), fold (\<lambda>n w. w @ [''start '' @ bn_id n]) [demo_node ''r'']
        (fold (\<lambda>n w. w @ [''ready '' @ bn_id n]) [demo_node ''p'']
          (fold (\<lambda>n w. w @ [''start '' @ bn_id n]) [demo_node ''p''] [])))"
    by (rule failed_start_stops_nobody [where st = "\<lambda>n w. w @ [''start '' @ bn_id n]" and wt = "\<lambda>n w. w @ [''ready '' @ bn_id n]"]) (auto simp: logging_life_def demo_node_def)
  then show ?thesis by (simp add: demo_node_def)
qed

definition counting_life :: "(int, unit) life" where
  "counting_life = \<lparr>l_start = (\<lambda>n w. (Inr (), w)), l_wait_ready = (\<lambda>n w. (Inr True, w)),
     l_failed = (\<lambda>n w. (Inr (6100 \<le> w), w)), l_stop = (\<lambda>n w. (Inr (), - w))\<rparr>"

theorem pipeline_run_ends_witness:
  "pipeline_run strict_pydantic (\<lambda>_. Inr ()) (\<lambda>_ _ _. ret ()) port_zmq counting_life (\<lambda>w. (Inr False, w))
      (\<lambda>w. (Inr (), w + 200)) [vad_entry] 6000 = Some (Inr (), -6202)"
proof -
  have c: "create_node strict_pydantic (\<lambda>_. Inr ()) (\<lambda>_ _ _. ret ()) vad_entry b w = (Inr (demo_node ''vad''), w)" for b :: mailbox and w :: int
    by (rule create_vad)
  obtain mbs b where mbs: "create_mailboxes port_zmq [vad_entry] 6000 = (Inr mbs, 6002)" "dget mbs ''vad'' = Some [b]"
    by (simp add: create_mailboxes_def create_replica_mailboxes_def create_for_def wire_data_outputs_def wire_control_outputs_def
        wire_node_def vad_entry_def raw_id_def y_item_def y_get_def bnd_of_res replica_names_def new_mailbox_def new_sub_def
        queue_policy_of_def new_zero_queue_def init_sub_def set_connection_def bind_port_def port_zmq_def Let_def
        seq_def bnd_def mb_start_def)
  have b1: "build_all strict_pydantic (\<lambda>_. Inr ()) (\<lambda>_ _ _. ret ()) mbs [vad_entry] (6002::int) = (Inr [demo_node ''vad''], 6002)"
  proof -
    have "raw_id vad_entry = Inr ''vad''" by (simp add: raw_id_def y_item_def vad_entry_def)
    then show ?thesis
      by (simp add: build_all_def build_for_def bnd_of_res mailboxes_of_def mbs c bnd_def rename_replica_def)
  qed
  have built: "bnd (create_mailboxes port_zmq [vad_entry]) (\<lambda>mbs. bnd (build_all strict_pydantic (\<lambda>_. Inr ()) (\<lambda>_ _ _. ret ()) mbs [vad_entry])
      (\<lambda>ns. seq (for_each ns (l_start counting_life)) (ret ns))) 6000 = (Inr [demo_node ''vad''], 6002)"
    by (simp add: bnd_ok mbs(1) b1 seq_ok counting_life_def)
  have q: "quiet_pass counting_life (\<lambda>w. (Inr False, w)) (\<lambda>w. (Inr (), w + 200)) [demo_node ''vad''] 6002 6202"
    by (simp add: quiet_pass_def broken_nodes_def bnd_def counting_life_def)
  have f: "broken_nodes counting_life [demo_node ''vad''] 6202 = (Inr [''vad''], 6202)"
    by (simp add: broken_nodes_def bnd_def counting_life_def demo_node_def)
  have "pipeline_run strict_pydantic (\<lambda>_. Inr ()) (\<lambda>_ _ _. ret ()) port_zmq counting_life (\<lambda>w. (Inr False, w))
      (\<lambda>w. (Inr (), w + 200)) [vad_entry] 6000 = Some (Inr (), fold (\<lambda>n w. - w) [demo_node ''vad''] (if False then 6202 else 6202))"
    by (rule pipeline_run_ends [OF built r_into_rtranclp [of "quiet_pass counting_life (\<lambda>w. (Inr False, w))
        (\<lambda>w. (Inr (), w + 200)) [demo_node ''vad'']", OF q] _ f]) (simp_all add: counting_life_def)
  then show ?thesis by simp
qed

end
