(* ===== verification/Py_Text.thy ===== *)
theory Py_Text
  imports Prelude
begin

text \<open>
  The string operations of Python that the text nodes use: character classes of \<^verbatim>\<open>str\<close> and \<^verbatim>\<open>re\<close>,
  stripping, collapsing and searching. Characters are those of Latin-1.
\<close>

section \<open>Character classes\<close>

definition code :: "char \<Rightarrow> nat" where
  "code c = of_char c"

text \<open>\<^verbatim>\<open>\s\<close> and \<^verbatim>\<open>str.isspace\<close>.\<close>

definition is_space :: "char \<Rightarrow> bool" where
  "is_space c = (code c \<in> {9, 10, 11, 12, 13, 28, 29, 30, 31, 32, 133, 160})"

text \<open>\<^verbatim>\<open>\w\<close>: alphanumeric or an underscore.\<close>

definition is_word :: "char \<Rightarrow> bool" where
  "is_word c = (let n = code c in
     48 \<le> n \<and> n \<le> 57 \<or> 65 \<le> n \<and> n \<le> 90 \<or> n = 95 \<or> 97 \<le> n \<and> n \<le> 122 \<or>
     n \<in> {170, 178, 179, 181, 185, 186, 188, 189, 190} \<or>
     192 \<le> n \<and> n \<le> 214 \<or> 216 \<le> n \<and> n \<le> 246 \<or> 248 \<le> n)"

definition newline :: char where
  "newline = CHR 0x0A"

lemma is_space_blank [simp]: "is_space (CHR '' '')"
  by (simp add: is_space_def code_def)

section \<open>Stripping and collapsing\<close>

definition lstrip :: "string \<Rightarrow> string" where
  "lstrip s = dropWhile is_space s"

definition rstrip :: "string \<Rightarrow> string" where
  "rstrip s = rev (dropWhile is_space (rev s))"

definition py_strip :: "string \<Rightarrow> string" where
  "py_strip s = rstrip (lstrip s)"

text \<open>\<^verbatim>\<open>re.sub(r"\s+", " ", s)\<close>.\<close>

function collapse :: "string \<Rightarrow> string" where
  "collapse [] = []"
| "collapse (c # s) = (if is_space c then CHR '' '' # collapse (dropWhile is_space s) else c # collapse s)"
  by pat_completeness auto
termination
  by (relation "measure length") (auto simp: le_imp_less_Suc length_dropWhile_le)

text \<open>A text without surrounding, doubled or other white space than the blank.\<close>

fun single_spaced :: "string \<Rightarrow> bool" where
  "single_spaced [] = True"
| "single_spaced [c] = (is_space c \<longrightarrow> c = CHR '' '')"
| "single_spaced (c # d # s) = ((is_space c \<longrightarrow> c = CHR '' '' \<and> \<not> is_space d) \<and> single_spaced (d # s))"

lemma dropWhile_space_hd: "dropWhile is_space s = c # t \<Longrightarrow> \<not> is_space c"
  by (metis dropWhile_eq_Cons_conv)

lemma collapse_hd: "collapse s = d # t \<Longrightarrow> s \<noteq> [] \<and> (is_space d \<longleftrightarrow> is_space (hd s))"
  by (cases s) (auto split: if_splits)

lemma single_spaced_collapse: "single_spaced (collapse s)"
proof (induction s rule: collapse.induct)
  case (2 c s)
  show ?case
  proof (cases "is_space c")
    case True
    then have IH: "single_spaced (collapse (dropWhile is_space s))" using 2 by blast
    show ?thesis
    proof (cases "collapse (dropWhile is_space s)")
      case (Cons d t)
      from collapse_hd [OF this] have "\<not> is_space d"
        by (metis hd_dropWhile)
      then show ?thesis using True IH Cons by simp
    qed (use True in simp)
  next
    case False
    then have IH: "single_spaced (collapse s)" using 2 by blast
    show ?thesis using False IH by (cases "collapse s") auto
  qed
qed simp

lemma single_spaced_tl: "single_spaced (c # s) \<Longrightarrow> single_spaced s"
  by (cases s) auto

lemma single_spaced_suffix: "single_spaced (xs @ ys) \<Longrightarrow> single_spaced ys"
  by (induction xs) (auto dest: single_spaced_tl)

lemma single_spaced_prefix: "single_spaced (xs @ ys) \<Longrightarrow> single_spaced xs"
proof (induction xs rule: single_spaced.induct)
  case (2 c)
  then show ?case by (cases ys) auto
qed auto

lemma lstrip_suffix: "\<exists>p. s = p @ lstrip s"
  unfolding lstrip_def by (metis takeWhile_dropWhile_id)

lemma rstrip_prefix: "\<exists>p. s = rstrip s @ p"
proof -
  have "s = rev (dropWhile is_space (rev s)) @ rev (takeWhile is_space (rev s))"
    by (metis rev_append rev_rev_ident takeWhile_dropWhile_id)
  then show ?thesis unfolding rstrip_def by blast
qed

lemma py_strip_sub: "\<exists>p q. s = p @ py_strip s @ q"
  unfolding py_strip_def by (metis append.assoc lstrip_suffix rstrip_prefix)

lemma rstrip_last: "rstrip s \<noteq> [] \<Longrightarrow> \<not> is_space (last (rstrip s))"
  unfolding rstrip_def by (simp add: last_rev hd_dropWhile)

lemma py_strip_ends:
  assumes "py_strip s \<noteq> []"
  shows "\<not> is_space (hd (py_strip s)) \<and> \<not> is_space (last (py_strip s))"
proof -
  obtain p where p: "lstrip s = py_strip s @ p" using rstrip_prefix unfolding py_strip_def by blast
  with assms have "lstrip s \<noteq> []" "hd (py_strip s) = hd (lstrip s)" by auto
  moreover have "\<not> is_space (hd (lstrip s))"
    using \<open>lstrip s \<noteq> []\<close> unfolding lstrip_def by (rule hd_dropWhile)
  ultimately show ?thesis using assms rstrip_last unfolding py_strip_def by auto
qed

lemma set_collapse: "set (collapse s) \<subseteq> insert (CHR '' '') (set s)"
proof (induction s rule: collapse.induct)
  case (2 c s)
  then show ?case using set_dropWhileD [of _ is_space s] by (cases "is_space c") auto
qed simp

section \<open>Searching\<close>

definition starts_with :: "string \<Rightarrow> string \<Rightarrow> bool" where
  "starts_with p s = (take (length p) s = p)"

text \<open>\<^verbatim>\<open>p in s\<close>.\<close>

fun occurs :: "string \<Rightarrow> string \<Rightarrow> bool" where
  "occurs p [] = (p = [])"
| "occurs p (c # s) = (starts_with p (c # s) \<or> occurs p s)"

text \<open>\<^verbatim>\<open>str.lower\<close> on Latin-1.\<close>

definition lower_char :: "char \<Rightarrow> char" where
  "lower_char c = (let n = code c in
     if 65 \<le> n \<and> n \<le> 90 \<or> 192 \<le> n \<and> n \<le> 214 \<or> 216 \<le> n \<and> n \<le> 222 then char_of (n + 32) else c)"

text \<open>\<^verbatim>\<open>s.rfind(p)\<close>: the last position, None for -1.\<close>

fun rfind :: "string \<Rightarrow> string \<Rightarrow> nat option" where
  "rfind p [] = (if p = [] then Some 0 else None)"
| "rfind p (c # s) = (case rfind p s of
      Some i \<Rightarrow> Some (Suc i)
    | None \<Rightarrow> if starts_with p (c # s) then Some 0 else None)"

lemma occurs_iff: "occurs p s \<longleftrightarrow> (\<exists>u v. s = u @ p @ v)"
proof (induction s)
  case (Cons c s)
  have "starts_with p (c # s) \<longleftrightarrow> (\<exists>v. c # s = p @ v)"
    by (metis append_eq_conv_conj append_take_drop_id starts_with_def)
  then show ?case using Cons by (auto simp: Cons_eq_append_conv)
qed auto

lemma rfind_Some: "rfind p s = Some i \<Longrightarrow> i \<le> length s \<and> starts_with p (drop i s)"
  by (induction s arbitrary: i) (auto simp: starts_with_def split: option.splits if_splits)

end
