(* ===== verification/Voice.thy ===== *)
theory Voice
  imports Py_Text Node
begin

text \<open>
  The speech chain of \<^verbatim>\<open>neudc/core/node/model/mixins\<close>: \<^verbatim>\<open>asr_mixin.py\<close> (utterances to text),
  \<^verbatim>\<open>llm_mixin.py\<close> (text to replies, whole or streamed) and \<^verbatim>\<open>tts_mixin.py\<close> (replies to speech). Each
  \<^verbatim>\<open>process()\<close> is a generator over the state of its mixin; the remote backends are records of
  calls. The last section runs them under the error policy of their node.
\<close>

section \<open>Generators\<close>

text \<open>A generator function with a single \<^verbatim>\<open>yield\<close> at its end: the body runs at the first
  \<^verbatim>\<open>next\<close>.\<close>

definition one_shot :: "(message \<Rightarrow> ('w, 'r option) io) \<Rightarrow> ('w, message option, 'r) generator" where
  "one_shot f = \<lparr>gen_start = Some,
     gen_next = (\<lambda>g. case g of
        None \<Rightarrow> ret None
      | Some m \<Rightarrow> bnd (f m) (\<lambda>r. ret (map_option (\<lambda>v. (v, None)) r))),
     gen_close = (\<lambda>_. ret ())\<rparr>"

definition text_of :: "message \<Rightarrow> ('w, string) io" where
  "text_of m = (case m of TextChunk e t \<Rightarrow> ret (chunk_text t) | _ \<Rightarrow> raise (AttributeError ''text''))"

definition audio_of :: "message \<Rightarrow> ('w, audio_chunk) io" where
  "audio_of m = (case m of AudioChunk e a \<Rightarrow> ret a | _ \<Rightarrow> raise (AttributeError ''samples''))"

text \<open>The envelope of an emitted chunk: the time, the node, the turn of \<open>sid\<close> and \<open>tid\<close>.\<close>

definition voice_envelope :: "real \<Rightarrow> string \<Rightarrow> string option \<Rightarrow> int option \<Rightarrow> bool \<Rightarrow> envelope" where
  "voice_envelope t src sid tid fin = (new_envelope t)\<lparr>msg_source := src, session_id := sid, turn_id := tid, is_final := fin\<rparr>"

definition emit_text :: "('w, real) io \<Rightarrow> string \<Rightarrow> string \<Rightarrow> string option \<Rightarrow> int option \<Rightarrow> bool \<Rightarrow> ('w, message) io" where
  "emit_text clock src txt sid tid fin =
     bnd clock (\<lambda>t. ret (TextChunk (voice_envelope t src sid tid fin) \<lparr>chunk_text = txt, language = None\<rparr>))"

section \<open>Speech recognition\<close>

record asr =
  asr_id :: string
  min_speech_duration :: real
  asr_buffer :: "ndarray list"
  buffer_sample_rate :: "int option"
  buffer_session_id :: "string option"
  buffer_turn_id :: "int option"

definition new_asr :: "string \<Rightarrow> real \<Rightarrow> asr" where
  "new_asr i d = \<lparr>asr_id = i, min_speech_duration = d, asr_buffer = [], buffer_sample_rate = None,
     buffer_session_id = None, buffer_turn_id = None\<rparr>"

text \<open>\<^verbatim>\<open>a.size\<close>, \<^verbatim>\<open>len(a)\<close>, and \<^verbatim>\<open>np.concatenate\<close> along the first axis, which wants equal
  trailing dimensions.\<close>

definition nd_size :: "ndarray \<Rightarrow> nat" where
  "nd_size a = length (nd_data a)"

definition nd_len :: "ndarray \<Rightarrow> nat" where
  "nd_len a = (case nd_shape a of [] \<Rightarrow> 0 | n # _ \<Rightarrow> n)"

definition concatenate :: "ndarray list \<Rightarrow> exn + ndarray" where
  "concatenate as =
     (if as = [] then Inl (ValueError ''need at least one array to concatenate'')
      else if \<exists>a \<in> set as. nd_shape a = [] then Inl (ValueError ''zero-dimensional arrays cannot be concatenated'')
      else if \<exists>a \<in> set as. tl (nd_shape a) \<noteq> tl (nd_shape (hd as))
        then Inl (ValueError ''dimensions must match'')
      else Inr \<lparr>nd_shape = sum_list (map nd_len as) # tl (nd_shape (hd as)), nd_data = concat (map nd_data as)\<rparr>)"

definition asr_clear :: "asr \<Rightarrow> asr" where
  "asr_clear a = a\<lparr>asr_buffer := [], buffer_sample_rate := None, buffer_session_id := None, buffer_turn_id := None\<rparr>"

definition asr_store :: "message \<Rightarrow> audio_chunk \<Rightarrow> asr \<Rightarrow> asr" where
  "asr_store m c a = (if nd_size (samples c) = 0 then a
     else a\<lparr>asr_buffer := asr_buffer a @ [samples c], buffer_sample_rate := Some (sample_rate c),
            buffer_session_id := session_id (envelope_of m), buffer_turn_id := turn_id (envelope_of m)\<rparr>)"

text \<open>The utterance in the buffer: transcribed unless it is too short.\<close>

definition asr_flush :: "('w, real) io \<Rightarrow> (ndarray \<Rightarrow> int \<Rightarrow> ('w, string) io) \<Rightarrow> (asr \<times> 'w, message option) io" where
  "asr_flush clock transcribe =
     bnd self (\<lambda>a. case buffer_sample_rate a of
       None \<Rightarrow> raise (AssertionError ''sample_rate'')
     | Some rate \<Rightarrow>
         bnd (of_res (concatenate (asr_buffer a))) (\<lambda>smp.
         seq (on_self asr_clear) (
         if rate = 0 then raise (OtherException ''ZeroDivisionError'')
         else if real (nd_len smp) / of_int rate < min_speech_duration a then ret None
         else bnd (lift_w (transcribe smp rate)) (\<lambda>txt.
           bnd (lift_w (emit_text clock (asr_id a) txt (buffer_session_id a) (buffer_turn_id a) True)) (\<lambda>m.
           ret (Some m))))))"

definition asr_process :: "('w, real) io \<Rightarrow> (ndarray \<Rightarrow> int \<Rightarrow> ('w, string) io) \<Rightarrow> message \<Rightarrow> (asr \<times> 'w, message option) io" where
  "asr_process clock transcribe m =
     (if \<not> drop_flag (envelope_of m)
      then bnd (audio_of m) (\<lambda>c. seq (on_self (asr_store m c)) (ret None))
      else bnd self (\<lambda>a. if asr_buffer a = [] then ret None else asr_flush clock transcribe))"

section \<open>Replies\<close>

record chat_message =
  role :: string
  content :: string

record llm =
  llm_id :: string
  llm_stream :: bool
  temperature :: real
  max_tokens :: "int option"
  history :: "chat_message list"

record ('w, 'i) llm_backend =
  lb_generate :: "chat_message list \<Rightarrow> real \<Rightarrow> int option \<Rightarrow> ('w, string) io"
  lb_stream :: "chat_message list \<Rightarrow> real \<Rightarrow> int option \<Rightarrow> 'i"
  lb_next :: "'i \<Rightarrow> ('w, (string \<times> 'i) option) io"

definition new_llm :: "string \<Rightarrow> string option \<Rightarrow> bool \<Rightarrow> real \<Rightarrow> int option \<Rightarrow> llm" where
  "new_llm i prompt stream t n = \<lparr>llm_id = i, llm_stream = stream, temperature = t, max_tokens = n,
     history = (case prompt of Some (c # s) \<Rightarrow> [\<lparr>role = ''system'', content = c # s\<rparr>] | _ \<Rightarrow> [])\<rparr>"

definition remember :: "string \<Rightarrow> string \<Rightarrow> llm \<Rightarrow> llm" where
  "remember r txt l = l\<lparr>history := history l @ [\<lparr>role = r, content = txt\<rparr>]\<rparr>"

definition make_chunk :: "('w, real) io \<Rightarrow> message \<Rightarrow> string \<Rightarrow> bool \<Rightarrow> (llm \<times> 'w, message) io" where
  "make_chunk clock m txt fin =
     bnd self (\<lambda>l. lift_w (emit_text clock (llm_id l) txt (session_id (envelope_of m)) (turn_id (envelope_of m)) fin))"

text \<open>Where the generator of a call is suspended.\<close>

datatype 'i llm_pos = Entry message | Deltas message 'i "string list" | Done

definition next_delta :: "('w, real) io \<Rightarrow> ('w, 'i) llm_backend \<Rightarrow> message \<Rightarrow> 'i \<Rightarrow> string list \<Rightarrow>
    (llm \<times> 'w, (message \<times> 'i llm_pos) option) io" where
  "next_delta clock B m it pieces =
     bnd (lift_w (lb_next B it)) (\<lambda>d. case d of
       Some (delta, it') \<Rightarrow>
         bnd (make_chunk clock m delta False) (\<lambda>c. ret (Some (c, Deltas m it' (pieces @ [delta]))))
     | None \<Rightarrow>
         seq (on_self (remember ''assistant'' (concat pieces)))
           (bnd (make_chunk clock m [] True) (\<lambda>c. ret (Some (c, Done)))))"

fun llm_next :: "('w, real) io \<Rightarrow> ('w, 'i) llm_backend \<Rightarrow> 'i llm_pos \<Rightarrow> (llm \<times> 'w, (message \<times> 'i llm_pos) option) io" where
  "llm_next clock B Done = ret None"
| "llm_next clock B (Deltas m it pieces) = next_delta clock B m it pieces"
| "llm_next clock B (Entry m) =
     (if drop_flag (envelope_of m) then ret None
      else bnd (text_of m) (\<lambda>txt.
        if py_strip txt = [] then ret None
        else seq (on_self (remember ''user'' txt)) (
          bnd self (\<lambda>l.
          if \<not> llm_stream l
          then bnd (lift_w (lb_generate B (history l) (temperature l) (max_tokens l))) (\<lambda>reply.
            seq (on_self (remember ''assistant'' reply))
              (bnd (make_chunk clock m reply True) (\<lambda>c. ret (Some (c, Done)))))
          else next_delta clock B m (lb_stream B (history l) (temperature l) (max_tokens l)) []))))"

definition llm_process :: "('w, real) io \<Rightarrow> ('w, 'i) llm_backend \<Rightarrow> (llm \<times> 'w, 'i llm_pos, message) generator" where
  "llm_process clock B = \<lparr>gen_start = Entry, gen_next = llm_next clock B, gen_close = (\<lambda>_. ret ())\<rparr>"

section \<open>Speech synthesis\<close>

definition is_markdown :: "char \<Rightarrow> bool" where
  "is_markdown c = (c \<in> {CHR ''*'', CHR ''_'', CHR 0x60, CHR ''~''})"

text \<open>The heading alternative of the pattern at a line start: what is left after 1 to 6 hashes and
  white space.\<close>

definition heading_rest :: "string \<Rightarrow> string option" where
  "heading_rest s = (let h = takeWhile (\<lambda>c. c = CHR ''#'') s; r = dropWhile (\<lambda>c. c = CHR ''#'') s in
     if 1 \<le> length h \<and> length h \<le> 6 \<and> r \<noteq> [] \<and> is_space (hd r) then Some (dropWhile is_space r) else None)"

lemma heading_rest_length: "heading_rest s = Some r \<Longrightarrow> length r < length s"
proof -
  assume a: "heading_rest s = Some r"
  let ?d = "dropWhile (\<lambda>c. c = CHR ''#'') s"
  have "?d \<noteq> []" "is_space (hd ?d)" "r = dropWhile is_space ?d"
    using a by (auto simp: heading_rest_def Let_def split: if_splits)
  then have "length r < length ?d"
    by (cases ?d) (auto simp: le_imp_less_Suc length_dropWhile_le)
  also have "\<dots> \<le> length s" by (rule length_dropWhile_le)
  finally show ?thesis .
qed

text \<open>\<^verbatim>\<open>_MARKDOWN_STRIP_RE.sub("", text)\<close>; the flag is \<^verbatim>\<open>^\<close>: the start or after a line feed of
  the text itself.\<close>

definition after_spaces :: "string \<Rightarrow> string \<Rightarrow> bool" where
  "after_spaces s r = (last (take (length s - length r) s) = newline)"

function strip_markdown :: "bool \<Rightarrow> string \<Rightarrow> string" where
  "strip_markdown bol [] = []"
| "strip_markdown bol (c # s) =
     (if is_markdown c then strip_markdown False (dropWhile is_markdown s)
      else case (if bol then heading_rest (c # s) else None) of
        Some r \<Rightarrow> strip_markdown (after_spaces (c # s) r) r
      | None \<Rightarrow> c # strip_markdown (c = newline) s)"
  by pat_completeness auto
termination
  by (relation "measure (length \<circ> snd)")
    (auto simp: le_imp_less_Suc length_dropWhile_le split: if_splits dest: heading_rest_length)

definition sanitize_for_speech :: "string \<Rightarrow> string" where
  "sanitize_for_speech txt = py_strip (collapse (strip_markdown True txt))"

record tts =
  tts_id :: string
  tts_buffer :: "string list"
  buffer_turn_key :: "(string option \<times> int option) option"

definition new_tts :: "string \<Rightarrow> tts" where
  "new_tts i = \<lparr>tts_id = i, tts_buffer = [], buffer_turn_key = None\<rparr>"

definition tts_accept :: "message \<Rightarrow> string \<Rightarrow> tts \<Rightarrow> tts" where
  "tts_accept m txt s =
     (let s1 = (if buffer_turn_key s \<noteq> Some (turn_key m) then s\<lparr>tts_buffer := [], buffer_turn_key := Some (turn_key m)\<rparr> else s)
      in if txt \<noteq> [] then s1\<lparr>tts_buffer := tts_buffer s1 @ [txt]\<rparr> else s1)"

definition tts_clear :: "tts \<Rightarrow> tts" where
  "tts_clear s = s\<lparr>tts_buffer := [], buffer_turn_key := None\<rparr>"

definition tts_process :: "('w, real) io \<Rightarrow> (string \<Rightarrow> ('w, ndarray \<times> int) io) \<Rightarrow> message \<Rightarrow> (tts \<times> 'w, message option) io" where
  "tts_process clock synthesize m =
     (if drop_flag (envelope_of m) then ret None
      else bnd (text_of m) (\<lambda>txt.
        seq (on_self (tts_accept m txt)) (
        if \<not> is_final (envelope_of m) then ret None
        else bnd self (\<lambda>s.
          let said = sanitize_for_speech (concat (tts_buffer s)) in
          seq (on_self tts_clear) (
          if said = [] then ret None
          else bnd (lift_w (synthesize said)) (\<lambda>(smp, rate).
            bnd (lift_w clock) (\<lambda>t.
            ret (Some (AudioChunk (voice_envelope t (tts_id s) (session_id (envelope_of m)) (turn_id (envelope_of m)) True)
              \<lparr>samples = smp, sample_rate = rate, channels = 1\<rparr>)))))))))"

section \<open>Properties\<close>

text \<open>A chunk of speech of a given turn, one-dimensional and not empty.\<close>

definition speech_chunk :: "int \<Rightarrow> string option \<Rightarrow> int option \<Rightarrow> real list \<Rightarrow> message \<Rightarrow> bool" where
  "speech_chunk rate sid tid xs m \<longleftrightarrow> (\<exists>e c. m = AudioChunk e c \<and> \<not> drop_flag e \<and> session_id e = sid \<and> turn_id e = tid \<and>
     sample_rate c = rate \<and> samples c = \<lparr>nd_shape = [length xs], nd_data = xs\<rparr> \<and> xs \<noteq> [])"

definition asr_feed :: "('w, real) io \<Rightarrow> (ndarray \<Rightarrow> int \<Rightarrow> ('w, string) io) \<Rightarrow> message list \<Rightarrow> (asr \<times> 'w, unit) io" where
  "asr_feed clock transcribe ms = for_each ms (\<lambda>m. bnd (asr_process clock transcribe m) (\<lambda>_. ret ()))"

definition line :: "real list \<Rightarrow> ndarray" where
  "line xs = \<lparr>nd_shape = [length xs], nd_data = xs\<rparr>"

lemma asr_feed_buffers:
  assumes "list_all2 (speech_chunk rate sid tid) xss ms" and "ms \<noteq> []"
  shows "asr_feed clock tr ms (a, w) = (Inr (), (a\<lparr>asr_buffer := asr_buffer a @ map line xss,
      buffer_sample_rate := Some rate, buffer_session_id := sid, buffer_turn_id := tid\<rparr>, w))"
  using assms
proof (induction xss ms arbitrary: a rule: list_all2_induct)
  case (Cons xs xss m ms)
  obtain e c where m: "m = AudioChunk e c" "\<not> drop_flag e" "session_id e = sid" "turn_id e = tid" "sample_rate c = rate"
    "samples c = line xs" "xs \<noteq> []"
    using Cons.hyps(1) by (auto simp: speech_chunk_def line_def)
  let ?a = "a\<lparr>asr_buffer := asr_buffer a @ [line xs], buffer_sample_rate := Some rate,
    buffer_session_id := sid, buffer_turn_id := tid\<rparr>"
  have "asr_feed clock tr (m # ms) (a, w) = asr_feed clock tr ms (?a, w)"
    using m by (simp add: asr_feed_def asr_process_def audio_of_def asr_store_def nd_size_def line_def bnd_def seq_def)
  also have "\<dots> = (Inr (), (a\<lparr>asr_buffer := asr_buffer a @ map line (xs # xss),
      buffer_sample_rate := Some rate, buffer_session_id := sid, buffer_turn_id := tid\<rparr>, w))"
  proof (cases "ms = []")
    case True
    with Cons.hyps have "xss = []" by simp
    then show ?thesis using True by (simp add: asr_feed_def)
  next
    case False
    then show ?thesis using Cons.IH [of ?a] by simp
  qed
  finally show ?case .
qed simp

lemma concatenate_lines:
  "xss \<noteq> [] \<Longrightarrow> concatenate (map line xss) = Inr (line (concat xss))"
  by (cases xss) (auto simp: concatenate_def line_def nd_len_def comp_def length_concat)

text \<open>An utterance is transcribed once and whole: after the speech chunks of a turn, the first
  silent chunk makes exactly one call of the backend, on all their samples in order, and emits one
  final text of that turn; the buffer is empty again. An utterance that is too short makes no call
  and emits nothing.\<close>

theorem asr_one_call_per_utterance:
  assumes "list_all2 (speech_chunk rate sid tid) xss ms" and "ms \<noteq> []" and "0 < rate"
    and "drop_flag (envelope_of quiet)"
    and "transcribe (line (concat xss)) rate w = (Inr txt, w1)" and "clock w1 = (Inr t, w2)"
  shows "bnd (asr_feed clock transcribe ms) (\<lambda>_. asr_process clock transcribe quiet) (new_asr i d, w) =
    (if real (length (concat xss)) / of_int rate < d then (Inr None, (new_asr i d, w))
     else (Inr (Some (TextChunk (voice_envelope t i sid tid True) \<lparr>chunk_text = txt, language = None\<rparr>)),
           (new_asr i d, w2)))"
proof -
  have ne: "xss \<noteq> []" using assms(1,2) by auto
  have f: "asr_feed clock transcribe ms (new_asr i d, w) = (Inr (), ((new_asr i d)\<lparr>asr_buffer := map line xss,
      buffer_sample_rate := Some rate, buffer_session_id := sid, buffer_turn_id := tid\<rparr>, w))"
    using asr_feed_buffers [OF assms(1,2), of clock transcribe "new_asr i d" w] by (simp add: new_asr_def)
  have len: "nd_len (line (concat xss)) = length (concat xss)" by (simp add: nd_len_def line_def)
  have g: "bnd (asr_feed clock transcribe ms) (\<lambda>_. asr_process clock transcribe quiet) (new_asr i d, w) =
    asr_process clock transcribe quiet ((new_asr i d)\<lparr>asr_buffer := map line xss,
      buffer_sample_rate := Some rate, buffer_session_id := sid, buffer_turn_id := tid\<rparr>, w)"
    by (simp add: bnd_ok f)
  show ?thesis
    unfolding g using assms(3-6) ne
    by (simp add: asr_process_def asr_flush_def bnd_ok bnd_of_res concatenate_lines [OF ne] seq_ok len
        new_asr_def asr_clear_def emit_text_def)
qed

text \<open>Retrying an utterance does not retry it: the buffer is cleared before the backend is called,
  so when a transcription fails, the retry of the error policy finds nothing to transcribe and ends
  normally: the utterance is lost and the message is counted as processed, neither dropped nor
  dead-lettered.\<close>

theorem asr_retry_loses_utterance:
  assumes "drop_flag (envelope_of m)" and "asr_buffer a \<noteq> []" and "concatenate (asr_buffer a) = Inr smp"
    and "buffer_sample_rate a = Some rate" and "rate \<noteq> 0"
    and "min_speech_duration a \<le> real (nd_len smp) / of_int rate"
    and "transcribe smp rate w = (Inl e, w1)" and "is_Exception e" and "e \<noteq> StopIteration"
    and "on_error (config p) = RETRY" and "1 \<le> max_retries (config p)" and "\<not> jitter (config p)"
    and "\<And>d s. wait d s = (Inr False, s)"
  shows "\<exists>p'. execute_generator E (one_shot (asr_process clock transcribe)) m (Some wait) (Some send) None (p, (a, w)) =
      Some (Inr None, (p', (asr_clear a, w1))) \<and>
    stats p' = inc_processed (inc_retries (inc_errors (stats p)))"
proof -
  have flush: "asr_process clock transcribe m (a, w) = (Inl e, (asr_clear a, w1))"
    using assms(1-7) by (simp add: asr_process_def asr_flush_def bnd_ok bnd_of_res seq_ok bnd_err)
  have again: "asr_process clock transcribe m (asr_clear a, w1) = (Inr None, (asr_clear a, w1))"
    using assms(1) by (simp add: asr_process_def asr_clear_def bnd_ok)
  let ?G = "one_shot (asr_process clock transcribe)"
  have 1: "drain ?G (Some send) None (Some m) 0 [] (a, w) = Some ((Failed e, 0, []), (asr_clear a, w1))"
    using flush assms(8,9) by (simp add: drain.simps one_shot_def bnd_err drain_exn_def)
  have 2: "drain ?G (Some send) None (Some m) 0 [] (asr_clear a, w1) = Some ((Exhausted, 0, []), (asr_clear a, w1))"
    using again by (simp add: drain.simps one_shot_def bnd_ok)
  have "attempts_of (config p) = nat (2 + (max_retries (config p) - 1))"
    using assms(10) by (simp add: attempts_of_def)
  also have "\<dots> = Suc (Suc (nat (max_retries (config p) - 1)))"
    using assms(11) by (simp add: nat_add_distrib)
  finally have n: "attempts_of (config p) = Suc (Suc (nat (max_retries (config p) - 1)))" .
  have gs: "gen_start ?G = Some" by (simp add: one_shot_def)
  have up: "[0..<attempts_of (config p)] = 0 # 1 # [2..<attempts_of (config p)]"
    using n by (simp add: upt_conv_Cons numeral_2_eq_2)
  show ?thesis
    using 1 2 up gs assms(12,13)
    by (simp add: execute_generator_def observe_latency_def inc_def seq_def bnd_def retry_wait_def
        backoff_delay_def policy_sleep_def drain_result_def)
qed

section \<open>Streamed replies\<close>

text \<open>A backend that streams the pieces of a list.\<close>

definition list_backend :: "(chat_message list \<Rightarrow> string list) \<Rightarrow> ('w, string list) llm_backend" where
  "list_backend f = \<lparr>lb_generate = (\<lambda>h t n. ret (concat (f h))), lb_stream = (\<lambda>h t n. f h),
     lb_next = (\<lambda>it. ret (case it of [] \<Rightarrow> None | d # ds \<Rightarrow> Some (d, ds)))\<rparr>"

definition reply_chunk :: "real \<Rightarrow> string \<Rightarrow> message \<Rightarrow> string \<Rightarrow> bool \<Rightarrow> message" where
  "reply_chunk t i m txt fin =
     TextChunk (voice_envelope t i (session_id (envelope_of m)) (turn_id (envelope_of m)) fin) \<lparr>chunk_text = txt, language = None\<rparr>"

lemma make_chunk_still:
  "(\<And>w. clock w = (Inr t, w)) \<Longrightarrow> make_chunk clock m txt fin (l, w) = (Inr (reply_chunk t (llm_id l) m txt fin), (l, w))"
  by (simp add: make_chunk_def bnd_ok emit_text_def reply_chunk_def)

lemma drain_deltas:
  assumes "\<And>w. clock w = (Inr t, w)"
  shows "drain (llm_process clock (list_backend f)) None None (Deltas m ds pieces) n acc (l, w) =
    Some ((Exhausted, n + length ds + 1,
        acc @ map (\<lambda>d. reply_chunk t (llm_id l) m d False) ds @ [reply_chunk t (llm_id l) m [] True]),
      (remember ''assistant'' (concat pieces @ concat ds) l, w))"
proof (induction ds arbitrary: pieces n acc)
  case Nil
  have i: "llm_id (remember r x l) = llm_id l" for r x by (simp add: remember_def)
  have "drain (llm_process clock (list_backend f)) None None Done k c v = Some ((Exhausted, k, c), v)" for k c v
    by (simp add: drain.simps llm_process_def)
  then show ?case
    by (subst drain.simps)
      (simp add: llm_process_def next_delta_def list_backend_def bnd_ok seq_ok make_chunk_still [OF assms] i)
next
  case (Cons d ds)
  show ?case
    by (subst drain.simps)
      (use Cons.IH [of "pieces @ [d]" "Suc n" "acc @ [reply_chunk t (llm_id l) m d False]"] in
        \<open>simp add: llm_process_def next_delta_def list_backend_def bnd_ok make_chunk_still [OF assms]\<close>)
qed

lemma llm_stream_reply:
  fixes f :: "chat_message list \<Rightarrow> string list"
  assumes "\<And>w. clock w = (Inr t, w)" and "llm_stream l" and "\<not> drop_flag (envelope_of m)"
    and "m = TextChunk e c" and "py_strip (chunk_text c) \<noteq> []"
  defines "ds \<equiv> f (history (remember ''user'' (chunk_text c) l))"
  shows "drain (llm_process clock (list_backend f)) None None (Entry m) 0 [] (l, w) =
    Some ((Exhausted, length ds + 1,
        map (\<lambda>d. reply_chunk t (llm_id l) m d False) ds @ [reply_chunk t (llm_id l) m [] True]),
      (remember ''assistant'' (concat ds) (remember ''user'' (chunk_text c) l), w))"
proof -
  let ?l = "remember ''user'' (chunk_text c) l"
  have l: "llm_id ?l = llm_id l" "llm_stream ?l" using assms(2) by (simp_all add: remember_def)
  have enter: "llm_next clock (list_backend f) (Entry m) (l, w) = llm_next clock (list_backend f) (Deltas m ds []) (?l, w)"
    using assms(2-5) l by (simp add: text_of_def bnd_ok seq_ok ds_def list_backend_def)
  have "drain (llm_process clock (list_backend f)) None None (Entry m) 0 [] (l, w) =
    drain (llm_process clock (list_backend f)) None None (Deltas m ds []) 0 [] (?l, w)"
    by (subst (1 2) drain.simps) (simp add: llm_process_def enter del: llm_next.simps)
  then show ?thesis
    using drain_deltas [OF assms(1), of f m ds "[]" 0 "[]" ?l w] l by simp
qed

section \<open>Spoken replies\<close>

lemma tts_delta:
  assumes "m = TextChunk e c" and "\<not> drop_flag e" and "\<not> is_final e"
  shows "tts_process clock syn m (s, w) = (Inr None, (tts_accept m (chunk_text c) s, w))"
  using assms by (simp add: tts_process_def text_of_def bnd_ok seq_ok)

definition tts_feed :: "('w, real) io \<Rightarrow> (string \<Rightarrow> ('w, ndarray \<times> int) io) \<Rightarrow> message list \<Rightarrow> (tts \<times> 'w, message list) io" where
  "tts_feed clock syn ms =
     bnd (map_io (tts_process clock syn) ms) (\<lambda>rs. ret (concat (map (\<lambda>r. case r of None \<Rightarrow> [] | Some v \<Rightarrow> [v]) rs)))"

lemma tts_accept_same:
  "turn_key m = k \<Longrightarrow> buffer_turn_key s = Some k \<Longrightarrow>
   buffer_turn_key (tts_accept m txt s) = Some k \<and> concat (tts_buffer (tts_accept m txt s)) = concat (tts_buffer s) @ txt \<and>
   tts_id (tts_accept m txt s) = tts_id s"
  by (simp add: tts_accept_def Let_def)

lemma tts_deltas:
  assumes "\<And>m. m \<in> set ms \<Longrightarrow> \<exists>e c. m = TextChunk e c \<and> \<not> drop_flag e \<and> \<not> is_final e \<and> turn_key m = k"
    and "buffer_turn_key s = Some k"
  shows "\<exists>s'. map_io (tts_process clock syn) ms (s, w) = (Inr (replicate (length ms) None), (s', w)) \<and>
    buffer_turn_key s' = Some k \<and> tts_id s' = tts_id s \<and>
    concat (tts_buffer s') = concat (tts_buffer s) @ concat (map (\<lambda>m. case m of TextChunk e c \<Rightarrow> chunk_text c | _ \<Rightarrow> []) ms)"
  using assms
proof (induction ms arbitrary: s)
  case (Cons m ms)
  obtain e c where m: "m = TextChunk e c" "\<not> drop_flag e" "\<not> is_final e" "turn_key m = k" using Cons.prems(1) [of m] by auto
  note a = tts_accept_same [OF m(4) Cons.prems(2), of "chunk_text c"]
  obtain s' where s': "map_io (tts_process clock syn) ms (tts_accept m (chunk_text c) s, w) = (Inr (replicate (length ms) None), (s', w))"
    "buffer_turn_key s' = Some k" "tts_id s' = tts_id s"
    "concat (tts_buffer s') = (concat (tts_buffer s) @ chunk_text c) @ concat (map (\<lambda>m. case m of TextChunk e c \<Rightarrow> chunk_text c | _ \<Rightarrow> []) ms)"
    using Cons.IH [of "tts_accept m (chunk_text c) s"] Cons.prems(1) a by auto
  then show ?case using tts_delta [OF m(1-3), of clock syn s w] m(1) by (simp add: bnd_ok)
qed simp

text \<open>Where a turn begins, what another turn left behind is dropped.\<close>

definition tts_reset :: "string option \<times> int option \<Rightarrow> tts \<Rightarrow> tts" where
  "tts_reset k s = s\<lparr>tts_buffer := [], buffer_turn_key := Some k\<rparr>"

lemma tts_process_reset:
  assumes "m = TextChunk e c" and "turn_key m = k" and "buffer_turn_key s \<noteq> Some k \<or> tts_buffer s = []"
  shows "tts_process clock syn m (s, w) = (if drop_flag e then (Inr None, (s, w)) else tts_process clock syn m (tts_reset k s, w))"
proof -
  have "tts_accept m x s = tts_accept m x (tts_reset k s)" for x
    using assms(2,3) by (cases s) (auto simp: tts_accept_def tts_reset_def Let_def)
  then show ?thesis using assms(1) by (simp add: tts_process_def text_of_def bnd_ok seq_ok)
qed

lemma map_io_append_ok:
  "map_io f xs w = (Inr ys, w1) \<Longrightarrow> f x w1 = (Inr y, w2) \<Longrightarrow> map_io f (xs @ [x]) w = (Inr (ys @ [y]), w2)"
  by (induction xs arbitrary: ys w) (fastforce simp: bnd_Inr_iff)+

text \<open>C31: A streamed reply is spoken whole, and only it: whatever another turn left in the buffer, the
  text deltas of a turn followed by its final chunk are synthesized in one call, on the sanitized
  concatenation of exactly their texts, into one audio chunk of that turn.\<close>

theorem tts_speaks_whole_reply:
  assumes "\<And>m. m \<in> set ms \<Longrightarrow> \<exists>e c. m = TextChunk e c \<and> \<not> drop_flag e \<and> \<not> is_final e \<and> turn_key m = k"
    and "last_m = TextChunk le lc" and "\<not> drop_flag le" and "is_final le" and "turn_key last_m = k"
    and "buffer_turn_key s \<noteq> Some k \<or> tts_buffer s = []"
    and "said = sanitize_for_speech (concat (map (\<lambda>m. case m of TextChunk e c \<Rightarrow> chunk_text c | _ \<Rightarrow> []) ms) @ chunk_text lc)"
    and "said \<noteq> []" and "syn said w = (Inr (smp, rate), w1)" and "clock w1 = (Inr t, w2)"
  shows "\<exists>s'. tts_feed clock syn (ms @ [last_m]) (s, w) =
      (Inr [AudioChunk (voice_envelope t (tts_id s) (session_id le) (turn_id le) True)
        \<lparr>samples = smp, sample_rate = rate, channels = 1\<rparr>], (s', w2)) \<and> tts_buffer s' = [] \<and> buffer_turn_key s' = None"
proof -
  let ?s = "tts_reset k s"
  have start: "map_io (tts_process clock syn) (ms @ [last_m]) (s, w) = map_io (tts_process clock syn) (ms @ [last_m]) (?s, w)"
  proof (cases ms)
    case Nil
    then show ?thesis using tts_process_reset [OF assms(2) assms(5,6), of clock syn w] assms(3) by (simp add: bnd_def)
  next
    case (Cons m ms')
    obtain e c where m: "m = TextChunk e c" "\<not> drop_flag e" "turn_key m = k" using assms(1) [of m] Cons by auto
    show ?thesis using tts_process_reset [OF m(1,3) assms(6), of clock syn w] m(2) Cons by (simp add: bnd_def)
  qed
  have r: "buffer_turn_key ?s = Some k" "concat (tts_buffer ?s) = []" "tts_id ?s = tts_id s"
    by (simp_all add: tts_reset_def)
  obtain s' where s': "map_io (tts_process clock syn) ms (?s, w) = (Inr (replicate (length ms) None), (s', w))"
    "buffer_turn_key s' = Some k" "tts_id s' = tts_id s"
    "concat (tts_buffer s') = concat (map (\<lambda>m. case m of TextChunk e c \<Rightarrow> chunk_text c | _ \<Rightarrow> []) ms)"
    using tts_deltas [OF assms(1) r(1), of ms clock syn w] r by auto
  note a = tts_accept_same [OF assms(5) s'(2), of "chunk_text lc"]
  let ?a = "tts_accept last_m (chunk_text lc) s'"
  have last: "tts_process clock syn last_m (s', w) =
    (Inr (Some (AudioChunk (voice_envelope t (tts_id s) (session_id le) (turn_id le) True)
      \<lparr>samples = smp, sample_rate = rate, channels = 1\<rparr>)), (tts_clear ?a, w2))"
    using assms(2-4,7-10) a s' by (simp add: tts_process_def text_of_def bnd_ok seq_ok Let_def tts_clear_def)
  have "map_io (tts_process clock syn) (ms @ [last_m]) (s, w) =
    (Inr (replicate (length ms) None @ [Some (AudioChunk (voice_envelope t (tts_id s) (session_id le) (turn_id le) True)
      \<lparr>samples = smp, sample_rate = rate, channels = 1\<rparr>)]), (tts_clear ?a, w2))"
    unfolding start by (rule map_io_append_ok [OF s'(1) last])
  then show ?thesis by (auto simp: tts_feed_def bnd_ok tts_clear_def)
qed

section \<open>What is read aloud\<close>

lemma strip_markdown_clean: "c \<in> set (strip_markdown bol s) \<Longrightarrow> \<not> is_markdown c"
  by (induction bol s rule: strip_markdown.induct) (auto split: option.splits if_splits)

text \<open>What the synthesizer is given can be read aloud: no markdown emphasis, no white space other
  than single blanks, none at the ends.\<close>

theorem sanitized_text_clean:
  "let r = sanitize_for_speech txt in
   (\<forall>c \<in> set r. \<not> is_markdown c) \<and> single_spaced r \<and> (r \<noteq> [] \<longrightarrow> \<not> is_space (hd r) \<and> \<not> is_space (last r))"
proof -
  let ?c = "collapse (strip_markdown True txt)"
  obtain p q where pq: "?c = p @ py_strip ?c @ q" using py_strip_sub by blast
  have "single_spaced (py_strip ?c)"
    using single_spaced_collapse [of "strip_markdown True txt"] pq by (metis single_spaced_prefix single_spaced_suffix)
  moreover have "\<not> is_markdown c" if "c \<in> set (py_strip ?c)" for c
  proof -
    have "c \<in> set ?c" using that pq by (metis UnI1 UnI2 set_append)
    then have "c = CHR '' '' \<or> c \<in> set (strip_markdown True txt)" using set_collapse by blast
    then show ?thesis using strip_markdown_clean by (auto simp: is_markdown_def)
  qed
  ultimately show ?thesis using py_strip_ends [of ?c] by (auto simp: sanitize_for_speech_def Let_def)
qed

section \<open>Concrete utterances\<close>

definition demo_clock :: "(string list, real) io" where
  "demo_clock = (\<lambda>w. (Inr 5, w))"

text \<open>Backends that log what they are asked; the second one is unreachable.\<close>

definition demo_transcribe :: "ndarray \<Rightarrow> int \<Rightarrow> (string list, string) io" where
  "demo_transcribe a rate = (\<lambda>w. (Inr ''hello'', w @ [''transcribe'']))"

definition down_transcribe :: "ndarray \<Rightarrow> int \<Rightarrow> (string list, string) io" where
  "down_transcribe a rate = (\<lambda>w. (Inl (OtherException ''ConnectionError''), w @ [''failed'']))"

definition demo_synthesize :: "string \<Rightarrow> (string list, ndarray \<times> int) io" where
  "demo_synthesize said = (\<lambda>w. (Inr (line [1], 8000), w @ [said]))"

definition turn_envelope :: "int \<Rightarrow> bool \<Rightarrow> bool \<Rightarrow> envelope" where
  "turn_envelope n dr fin = (new_envelope 0)\<lparr>drop_flag := dr, session_id := Some ''s'', turn_id := Some n, is_final := fin\<rparr>"

definition demo_audio :: "bool \<Rightarrow> real list \<Rightarrow> message" where
  "demo_audio dr xs = AudioChunk (turn_envelope 1 dr True) \<lparr>samples = line xs, sample_rate = 2, channels = 1\<rparr>"

definition demo_delta :: "int \<Rightarrow> string \<Rightarrow> bool \<Rightarrow> message" where
  "demo_delta n x fin = TextChunk (turn_envelope n False fin) \<lparr>chunk_text = x, language = None\<rparr>"

theorem asr_one_call_per_utterance_witness:
  "bnd (asr_feed demo_clock demo_transcribe [demo_audio False [1], demo_audio False [2]])
      (\<lambda>_. asr_process demo_clock demo_transcribe (demo_audio True [])) (new_asr ''asr'' (3/10), []) =
    (Inr (Some (TextChunk (voice_envelope 5 ''asr'' (Some ''s'') (Some 1) True) \<lparr>chunk_text = ''hello'', language = None\<rparr>)),
     (new_asr ''asr'' (3/10), [''transcribe'']))"
proof -
  have f: "list_all2 (speech_chunk 2 (Some ''s'') (Some 1)) [[1], [2]] [demo_audio False [1], demo_audio False [2]]"
    by (simp add: speech_chunk_def demo_audio_def turn_envelope_def line_def)
  have q: "drop_flag (envelope_of (demo_audio True []))" by (simp add: demo_audio_def turn_envelope_def)
  have tr: "demo_transcribe (line (concat [[1], [2]])) 2 [] = (Inr ''hello'', [''transcribe''])"
    by (simp add: demo_transcribe_def)
  have c: "demo_clock [''transcribe''] = (Inr 5, [''transcribe''])" by (simp add: demo_clock_def)
  show ?thesis
    using asr_one_call_per_utterance [of 2 "Some ''s''" "Some 1" "[[1], [2]]", where transcribe = demo_transcribe and clock = demo_clock and w = "[]",
        OF f _ _ q tr c, of "''asr''" "3/10"] by simp
qed

definition loaded_asr :: asr where
  "loaded_asr = asr_store (demo_audio False [1]) \<lparr>samples = line [1], sample_rate = 2, channels = 1\<rparr> (new_asr ''asr'' 0)"

theorem asr_retry_loses_utterance_witness:
  "\<exists>p'. execute_generator \<lparr>e_files = quiet_files, e_uniform = (\<lambda>x w. (Inr 0, w)), e_sleep = (\<lambda>_ w. (Inr (), w))\<rparr>
      (one_shot (asr_process demo_clock down_transcribe)) (demo_audio True []) (Some (\<lambda>_ s. (Inr False, s))) (Some (\<lambda>_. ret ())) None
      (new_policy (retry_config\<lparr>jitter := False\<rparr>) ''asr'', (loaded_asr, [])) =
      Some (Inr None, (p', (new_asr ''asr'' 0, [''failed'']))) \<and>
    processed (stats p') = 1 \<and> dropped (stats p') = 0"
proof -
  let ?p = "new_policy (retry_config\<lparr>jitter := False\<rparr>) ''asr''"
  let ?E = "\<lparr>e_files = quiet_files, e_uniform = (\<lambda>x w. (Inr 0, w)), e_sleep = (\<lambda>_ w. (Inr (), w))\<rparr> :: (asr \<times> string list) policy_env"
  have h: "drop_flag (envelope_of (demo_audio True []))" "asr_buffer loaded_asr \<noteq> []" "concatenate (asr_buffer loaded_asr) = Inr (line [1])"
    "buffer_sample_rate loaded_asr = Some 2" "(2::int) \<noteq> 0" "min_speech_duration loaded_asr \<le> real (nd_len (line [1])) / of_int 2"
    "down_transcribe (line [1]) 2 [] = (Inl (OtherException ''ConnectionError''), [''failed''])"
    "is_Exception (OtherException ''ConnectionError'')" "OtherException ''ConnectionError'' \<noteq> StopIteration"
    "on_error (config ?p) = RETRY" "1 \<le> max_retries (config ?p)" "\<not> jitter (config ?p)"
    by (simp_all add: loaded_asr_def demo_audio_def turn_envelope_def asr_store_def nd_size_def new_asr_def concatenate_def line_def
        nd_len_def down_transcribe_def new_policy_def retry_config_def default_policy_config_def)
  obtain p' where e: "execute_generator ?E (one_shot (asr_process demo_clock down_transcribe)) (demo_audio True [])
      (Some (\<lambda>_ s. (Inr False, s))) (Some (\<lambda>_. ret ())) None (?p, (loaded_asr, [])) = Some (Inr None, (p', (asr_clear loaded_asr, [''failed''])))"
    "stats p' = inc_processed (inc_retries (inc_errors (stats ?p)))"
    using asr_retry_loses_utterance [where transcribe = down_transcribe and w = "[]" and p = "?p" and a = loaded_asr, OF h, of "\<lambda>_ s. (Inr False, s)" ?E demo_clock "\<lambda>_. ret ()"] by blast
  moreover have "asr_clear loaded_asr = new_asr ''asr'' 0"
    by (simp add: loaded_asr_def asr_clear_def asr_store_def new_asr_def nd_size_def line_def)
  ultimately show ?thesis by (auto simp: new_policy_def zero_stats_def)
qed

theorem tts_speaks_whole_reply_witness:
  "\<exists>s' m. tts_feed demo_clock demo_synthesize [demo_delta 2 ''**Hel'' False, demo_delta 2 ''lo**'' False, demo_delta 2 [] True]
      (tts_accept (demo_delta 1 ''left over'' False) ''left over'' (new_tts ''tts''), []) = (Inr [m], (s', [''Hello'']))"
proof -
  let ?ms = "[demo_delta 2 ''**Hel'' False, demo_delta 2 ''lo**'' False]"
  let ?s = "tts_accept (demo_delta 1 ''left over'' False) ''left over'' (new_tts ''tts'')"
  let ?k = "(Some ''s'', Some (2::int))"
  have f: "\<And>m. m \<in> set ?ms \<Longrightarrow> \<exists>e c. m = TextChunk e c \<and> \<not> drop_flag e \<and> \<not> is_final e \<and> turn_key m = ?k"
    by (auto simp: demo_delta_def turn_envelope_def turn_key_def)
  have l: "demo_delta 2 [] True = TextChunk (turn_envelope 2 False True) \<lparr>chunk_text = [], language = None\<rparr>"
    "\<not> drop_flag (turn_envelope 2 False True)" "is_final (turn_envelope 2 False True)" "turn_key (demo_delta 2 [] True) = ?k"
    by (simp_all add: demo_delta_def turn_envelope_def turn_key_def)
  have k: "buffer_turn_key ?s \<noteq> Some ?k \<or> tts_buffer ?s = []"
    by (simp add: tts_accept_def new_tts_def demo_delta_def turn_envelope_def turn_key_def Let_def)
  have said: "''Hello'' = sanitize_for_speech (concat (map (\<lambda>m. case m of TextChunk e c \<Rightarrow> chunk_text c | _ \<Rightarrow> []) ?ms) @
      chunk_text \<lparr>chunk_text = [], language = None\<rparr>)"
    by (simp add: demo_delta_def sanitize_for_speech_def is_markdown_def heading_rest_def is_space_def code_def newline_def
        py_strip_def lstrip_def rstrip_def)
  have syn: "demo_synthesize ''Hello'' [] = (Inr (line [1], 8000), [''Hello''])" "demo_clock [''Hello''] = (Inr 5, [''Hello''])"
    by (simp_all add: demo_synthesize_def demo_clock_def)
  from tts_speaks_whole_reply [where syn = demo_synthesize and clock = demo_clock and w = "[]", OF f l k said _ syn] show ?thesis by auto
qed

theorem sanitized_text_clean_witness:
  "sanitize_for_speech ''# **Hi**  all '' = ''Hi all'' \<and> single_spaced ''Hi all''"
proof -
  have "sanitize_for_speech ''# **Hi**  all '' = ''Hi all''"
    by (simp add: sanitize_for_speech_def is_markdown_def heading_rest_def is_space_def code_def newline_def
        py_strip_def lstrip_def rstrip_def after_spaces_def)
  then show ?thesis using sanitized_text_clean [of "''# **Hi**  all ''"] by (simp add: Let_def)
qed

end
