(* ===== verification/Agent_Tool.thy ===== *)
theory Agent_Tool
  imports Py_Text Voice Config_Values
begin

text \<open>
  \<^verbatim>\<open>neudc/core/node/processors/mixins/agent_tool_mixin.py\<close> and \<^verbatim>\<open>agent_tool_node.py\<close>: the
  resolution of \<^verbatim>\<open>[[name({..})]]\<close> markers in the text of a reply, streamed or whole. The two
  regular expressions are matchers written out; the tools and \<^verbatim>\<open>json.loads\<close> are arguments. A JSON
  value is a value of the datatype of loaded configurations.
\<close>

section \<open>The marker of a call\<close>

text \<open>\<^verbatim>\<open>\s*\)\s*\]\]\<close> at the start of a text: what is left after it.\<close>

definition call_close :: "string \<Rightarrow> string option" where
  "call_close s = (case lstrip s of
      [] \<Rightarrow> None
    | c # t \<Rightarrow> if c = CHR '')'' \<and> starts_with '']]'' (lstrip t) then Some (drop 2 (lstrip t)) else None)"

text \<open>The non-greedy object: up to the first brace that closes the call.\<close>

fun call_args :: "string \<Rightarrow> string \<Rightarrow> (string \<times> string) option" where
  "call_args acc [] = None"
| "call_args acc (c # s) =
     (case (if c = CHR ''}'' then call_close s else None) of
        Some r \<Rightarrow> Some (acc @ [c], r)
      | None \<Rightarrow> call_args (acc @ [c]) s)"

text \<open>\<^verbatim>\<open>_TOOL_CALL_RE\<close> at the start of a text: the name, the object and what is left.\<close>

definition match_call :: "string \<Rightarrow> (string \<times> string \<times> string) option" where
  "match_call s =
     (if \<not> starts_with ''[['' s then None
      else let s1 = lstrip (drop 2 s); name = takeWhile is_word s1; s2 = lstrip (dropWhile is_word s1) in
        if name = [] then None
        else (case s2 of
            [] \<Rightarrow> None
          | p # s3 \<Rightarrow> if p \<noteq> CHR ''('' then None
              else (case lstrip s3 of
                  [] \<Rightarrow> None
                | b # s4 \<Rightarrow> if b \<noteq> CHR ''{'' then None
                    else map_option (\<lambda>(a, r). (name, a, r)) (call_args [b] s4))))"

lemma lstrip_length: "length (lstrip s) \<le> length s"
  by (simp add: lstrip_def length_dropWhile_le)

lemma call_close_length: "call_close s = Some r \<Longrightarrow> length r < length s"
proof -
  assume "call_close s = Some r"
  then obtain c t where "lstrip s = c # t" "r = drop 2 (lstrip t)"
    by (auto simp: call_close_def split: list.splits if_splits)
  then show ?thesis using lstrip_length [of s] lstrip_length [of t] by simp
qed

lemma call_args_length: "call_args acc s = Some (a, r) \<Longrightarrow> length r < length s"
  by (induction acc s rule: call_args.induct)
    (force split: option.splits if_splits dest: call_close_length)+

lemma match_call_length:
  assumes "match_call s = Some (n, a, r)"
  shows "length r < length s"
proof -
  define s1 where "s1 = lstrip (drop 2 s)"
  define s2 where "s2 = lstrip (dropWhile is_word s1)"
  obtain p s3 b s4 where "s2 = p # s3" "lstrip s3 = b # s4" "call_args [b] s4 = Some (a, r)"
    using assms by (auto simp: match_call_def s1_def [symmetric] s2_def [symmetric] Let_def
        split: list.splits if_splits)
  moreover have "length s2 \<le> length s"
    using lstrip_length [of "dropWhile is_word s1"] length_dropWhile_le [of is_word s1] lstrip_length [of "drop 2 s"]
    by (simp add: s1_def s2_def)
  ultimately show ?thesis using call_args_length [of "[b]" s4 a r] lstrip_length [of s3] by simp
qed

section \<open>Substitution\<close>

text \<open>The pieces \<^verbatim>\<open>_TOOL_CALL_RE.sub\<close> finds, from left to right.\<close>

datatype piece = Literal char | Tool_call string string

function scan_calls :: "string \<Rightarrow> piece list" where
  "scan_calls [] = []"
| "scan_calls (c # s) = (case match_call (c # s) of
      Some (n, a, r) \<Rightarrow> Tool_call n a # scan_calls r
    | None \<Rightarrow> Literal c # scan_calls s)"
  by pat_completeness auto
termination
  by (relation "measure length") (auto dest: match_call_length)

text \<open>\<^verbatim>\<open>_LEFTOVER_MARKER_RE.sub("", text)\<close>.\<close>

fun after_close :: "string \<Rightarrow> string option" where
  "after_close [] = None"
| "after_close (c # s) = (if starts_with '']]'' (c # s) then Some (drop 1 s) else after_close s)"

lemma after_close_length: "after_close s = Some r \<Longrightarrow> length r < length s"
  by (induction s) (force split: if_splits)+

function strip_leftover :: "string \<Rightarrow> string" where
  "strip_leftover [] = []"
| "strip_leftover (c # s) = (case (if starts_with ''[['' (c # s) then after_close (drop 1 s) else None) of
      Some r \<Rightarrow> strip_leftover r
    | None \<Rightarrow> c # strip_leftover s)"
  by pat_completeness auto
termination
  by (relation "measure length") (auto split: if_splits dest!: after_close_length)

section \<open>Resolving a text\<close>

record 'w tool =
  t_description :: string
  t_call :: "raw_dict \<Rightarrow> ('w, string) io"

type_synonym 'w tools = "(string, 'w tool) dict"

definition quoted :: "string \<Rightarrow> string" where
  "quoted s = [CHR 0x27] @ s @ [CHR 0x27]"

definition tool_error :: "string \<Rightarrow> string" where
  "tool_error s = ''[tool error: '' @ s @ '']''"

text \<open>\<^verbatim>\<open>tool(**kwargs)\<close>.\<close>

definition call_tool :: "'w tool \<Rightarrow> yaml \<Rightarrow> ('w, string) io" where
  "call_tool t v = (case v of YMap d \<Rightarrow> t_call t d | _ \<Rightarrow> raise (TypeError ''argument after ** must be a mapping''))"

definition resolve_call :: "(string \<Rightarrow> exn + yaml) \<Rightarrow> 'w tools \<Rightarrow> string \<Rightarrow> string \<Rightarrow> ('w, string) io" where
  "resolve_call loads tools name raw_args = (case dget tools name of
      None \<Rightarrow> ret (tool_error (''unknown tool '' @ quoted name))
    | Some t \<Rightarrow> (case loads raw_args of
          Inl e \<Rightarrow> if e = JSONDecodeError then ret (tool_error (''malformed arguments for '' @ quoted name)) else raise e
        | Inr v \<Rightarrow> (\<lambda>w. case call_tool t v w of
              (Inl (ToolError msg), w') \<Rightarrow> (Inr (tool_error msg), w')
            | (Inl (TypeError _), w') \<Rightarrow> (Inr (tool_error (''bad arguments for '' @ quoted name)), w')
            | res \<Rightarrow> res)))"

fun resolve_piece :: "(string \<Rightarrow> exn + yaml) \<Rightarrow> 'w tools \<Rightarrow> piece \<Rightarrow> ('w, string) io" where
  "resolve_piece loads tools (Literal c) = ret [c]"
| "resolve_piece loads tools (Tool_call n a) = resolve_call loads tools n a"

definition resolve_text :: "(string \<Rightarrow> exn + yaml) \<Rightarrow> 'w tools \<Rightarrow> string \<Rightarrow> ('w, string) io" where
  "resolve_text loads tools s =
     bnd (map_io (resolve_piece loads tools) (scan_calls s)) (\<lambda>ps.
     ret (if tools \<noteq> [] then strip_leftover (concat ps) else concat ps))"

text \<open>\<^verbatim>\<open>tool_system_prompt\<close>.\<close>

definition prompt_intro :: string where
  "prompt_intro = ''You can use tools by writing exactly one marker per call, anywhere in your reply, in the form [[tool_name({\"arg\": \"value\"})]] -- the arguments must be valid JSON. Available tools:''"

definition tool_system_prompt :: "'w tools \<Rightarrow> string" where
  "tool_system_prompt tools = (if tools = [] then []
     else prompt_intro @ concat (map (\<lambda>t. newline # ''- '' @ t_description t) (dvalues tools)))"

section \<open>Streams\<close>

definition ends_with_bracket :: "string \<Rightarrow> bool" where
  "ends_with_bracket s = (s \<noteq> [] \<and> last s = CHR ''['')"

definition incomplete_marker_start :: "string \<Rightarrow> nat" where
  "incomplete_marker_start s = (case rfind ''[['' s of
      Some i \<Rightarrow> if \<not> occurs '']]'' (drop (i + 2) s) then i
        else if ends_with_bracket s then length s - 1 else length s
    | None \<Rightarrow> if ends_with_bracket s then length s - 1 else length s)"

record agent =
  ag_pending :: string
  pending_turn :: "(string option \<times> int option) option"

definition new_agent :: agent where
  "new_agent = \<lparr>ag_pending = [], pending_turn = None\<rparr>"

definition agent_turn :: "message \<Rightarrow> agent \<Rightarrow> agent" where
  "agent_turn m a = (if pending_turn a = Some (turn_key m) then a
     else a\<lparr>ag_pending := [], pending_turn := Some (turn_key m)\<rparr>)"

text \<open>What is resolved now, and the state that holds back the rest.\<close>

definition agent_split :: "bool \<Rightarrow> string \<Rightarrow> agent \<Rightarrow> string \<times> agent" where
  "agent_split fin s a = (let t = ag_pending a @ s in
     if fin then (t, a\<lparr>ag_pending := [], pending_turn := None\<rparr>)
     else (take (incomplete_marker_start t) t, a\<lparr>ag_pending := drop (incomplete_marker_start t) t\<rparr>))"

definition set_text :: "string \<Rightarrow> message \<Rightarrow> message" where
  "set_text s m = (case m of TextChunk e c \<Rightarrow> TextChunk e (c\<lparr>chunk_text := s\<rparr>) | _ \<Rightarrow> m)"

definition agent_process :: "(string \<Rightarrow> exn + yaml) \<Rightarrow> 'w tools \<Rightarrow> message \<Rightarrow> (agent \<times> 'w, message) io" where
  "agent_process loads tools m =
     (if drop_flag (envelope_of m) then ret m
      else seq (on_self (agent_turn m)) (
        bnd (text_of m) (\<lambda>s.
        bnd self (\<lambda>a. let (ready, a') = agent_split (is_final (envelope_of m)) s a in
        seq (on_self (\<lambda>_. a')) (
        bnd (lift_w (resolve_text loads tools ready)) (\<lambda>r. ret (set_text r m)))))))"

section \<open>The node\<close>

text \<open>\<^verbatim>\<open>_flush_outbox\<close> over the queued reminders; \<open>send\<close> is \<^verbatim>\<open>_send_item\<close> of the node.\<close>

fun flush_outbox :: "(outgoing \<Rightarrow> ('w, unit) io) \<Rightarrow> (message list \<times> 'w, unit) io" where
  "flush_outbox send ([], w) = (Inr (), ([], w))"
| "flush_outbox send (i # q, w) = (case send (Single i) w of
      (Inl e, w') \<Rightarrow> (Inl e, (q, w'))
    | (Inr _, w') \<Rightarrow> flush_outbox send (q, w'))"

definition agent_collect :: "(outgoing \<Rightarrow> ('w, unit) io) \<Rightarrow> ('w, message option) io \<Rightarrow> (message list \<times> 'w, message option) io" where
  "agent_collect send receive = seq (flush_outbox send) (lift_w receive)"

text \<open>The tools \<^verbatim>\<open>from_config\<close> builds, by name.\<close>

definition configured_tools :: "raw_dict \<Rightarrow> exn + string list" where
  "configured_tools cfg =
     (let timers = (if y_truth (y_get cfg ''enable_timers'' (YBool True)) then [''set_timer''] else []);
          web = (if y_truth (y_get cfg ''enable_web_fetch'' (YBool True)) then [''fetch_url''] else []) in
      if y_truth (y_get cfg ''enable_file_io'' (YBool True))
      then (if \<not> y_truth (y_get cfg ''sandbox_dir'' YNull) then Inl (ValueError ''sandbox_dir'')
            else Inr (timers @ web @ [''create_file'', ''read_file'']))
      else Inr (timers @ web))"

section \<open>What reaches the speech\<close>

definition has_marker :: "string \<Rightarrow> bool" where
  "has_marker s \<longleftrightarrow> (\<exists>u v z. s = u @ ''[['' @ v @ '']]'' @ z)"

lemma starts_with_pair: "starts_with [a, b] s \<longleftrightarrow> (\<exists>t. s = a # b # t)"
  unfolding starts_with_def by (cases s; cases "tl s") auto

lemma after_close_None: "after_close s = None \<longleftrightarrow> \<not> occurs '']]'' s"
  by (induction s) auto

lemma strip_leftover_no_close: "\<not> occurs '']]'' s \<Longrightarrow> strip_leftover s = s"
proof (induction s)
  case (Cons c s)
  then have "\<not> occurs '']]'' (drop 1 s)" by (cases s) auto
  then have "after_close (drop 1 s) = None" by (simp add: after_close_None)
  then show ?case using Cons by simp
qed simp

lemma strip_leftover_no_open: "\<not> occurs ''[['' s \<Longrightarrow> strip_leftover s = s"
  by (induction s) auto

lemma strip_leftover_hd: "strip_leftover (d # s) = x # r \<Longrightarrow> d \<noteq> CHR ''['' \<Longrightarrow> x = d"
  by (auto simp: starts_with_pair split: option.splits if_splits)

lemma has_marker_Cons:
  "has_marker (c # x) \<longleftrightarrow> has_marker x \<or> (c = CHR ''['' \<and> (\<exists>y. x = CHR ''['' # y \<and> occurs '']]'' y))"
proof
  assume "has_marker (c # x)"
  then obtain u v z where e: "c # x = u @ ''[['' @ v @ '']]'' @ z" by (auto simp: has_marker_def)
  show "has_marker x \<or> (c = CHR ''['' \<and> (\<exists>y. x = CHR ''['' # y \<and> occurs '']]'' y))"
  proof (cases u)
    case Nil
    then show ?thesis using e by (auto simp: occurs_iff)
  next
    case (Cons d u')
    then show ?thesis using e by (auto simp: has_marker_def)
  qed
next
  assume "has_marker x \<or> (c = CHR ''['' \<and> (\<exists>y. x = CHR ''['' # y \<and> occurs '']]'' y))"
  then show "has_marker (c # x)"
  proof
    assume "has_marker x"
    then obtain u v z where "x = u @ ''[['' @ v @ '']]'' @ z" by (auto simp: has_marker_def)
    then have "c # x = (c # u) @ ''[['' @ v @ '']]'' @ z" by simp
    then show ?thesis unfolding has_marker_def by blast
  next
    assume "c = CHR ''['' \<and> (\<exists>y. x = CHR ''['' # y \<and> occurs '']]'' y)"
    then obtain y v z where "x = CHR ''['' # y" "y = v @ '']]'' @ z" "c = CHR ''[''" by (auto simp: occurs_iff)
    then have "c # x = [] @ ''[['' @ v @ '']]'' @ z" by simp
    then show ?thesis unfolding has_marker_def by blast
  qed
qed

lemma strip_leftover_clean: "\<not> has_marker (strip_leftover s)"
proof (induction s rule: strip_leftover.induct)
  case 1
  then show ?case by (simp add: has_marker_def)
next
  case (2 c s)
  let ?m = "if starts_with ''[['' (c # s) then after_close (drop 1 s) else None"
  show ?case
  proof (cases ?m)
    case (Some r)
    then show ?thesis using 2(2) [OF Some] by simp
  next
    case None
    then have e: "strip_leftover (c # s) = c # strip_leftover s" by simp
    have IH: "\<not> has_marker (strip_leftover s)" using 2(1) [OF None] .
    have "\<not> (c = CHR ''['' \<and> (\<exists>y. strip_leftover s = CHR ''['' # y \<and> occurs '']]'' y))"
    proof
      assume a: "c = CHR ''['' \<and> (\<exists>y. strip_leftover s = CHR ''['' # y \<and> occurs '']]'' y)"
      then obtain y where y: "strip_leftover s = CHR ''['' # y" "occurs '']]'' y" by blast
      then obtain d t where s: "s = d # t" by (cases s) auto
      have "d = CHR ''[''" using strip_leftover_hd [of d t] y(1) s by metis
      then have "starts_with ''[['' (c # s)" using a s by (simp add: starts_with_pair)
      then have n: "\<not> occurs '']]'' t" using None s by (simp add: after_close_None)
      then have "\<not> occurs '']]'' s" using s \<open>d = CHR ''[''\<close> by (simp add: starts_with_pair)
      then have "strip_leftover s = s" by (rule strip_leftover_no_close)
      then show False using y n s by simp
    qed
    then show ?thesis unfolding e using IH by (simp add: has_marker_Cons)
  qed
qed

text \<open>C34: Whatever the model wrote and whatever the tools answered, no tool-call syntax is left to be
  read aloud: once tools are offered, a resolved text contains no \<^verbatim>\<open>[[\<close> with a \<^verbatim>\<open>]]\<close> after it.\<close>

theorem resolved_text_has_no_marker:
  assumes "tools \<noteq> []" and "resolve_text loads tools s w = (Inr r, w')"
  shows "\<not> has_marker r"
  using assms strip_leftover_clean by (auto simp: resolve_text_def bnd_Inr_iff)

section \<open>Plain text\<close>

lemma match_call_None: "\<not> starts_with ''[['' s \<Longrightarrow> match_call s = None"
  by (simp add: match_call_def)

lemma scan_calls_plain: "\<not> occurs ''[['' s \<Longrightarrow> scan_calls s = map Literal s"
  by (induction s) (auto simp: match_call_None)

lemma map_io_literals: "map_io (resolve_piece loads tools) (map Literal s) w = (Inr (map (\<lambda>c. [c]) s), w)"
  by (induction s) (simp_all add: bnd_ok)

lemma resolve_plain: "\<not> occurs ''[['' s \<Longrightarrow> resolve_text loads tools s w = (Inr s, w)"
  by (simp add: resolve_text_def scan_calls_plain bnd_ok map_io_literals strip_leftover_no_open)

lemma occurs_prefix: "occurs p u \<Longrightarrow> occurs p (u @ v)"
  unfolding occurs_iff by (metis append.assoc)

lemma occurs_suffix: "occurs p v \<Longrightarrow> occurs p (u @ v)"
  unfolding occurs_iff by (metis append.assoc)

definition msg_text :: "message \<Rightarrow> string" where
  "msg_text m = (case m of TextChunk e c \<Rightarrow> chunk_text c | _ \<Rightarrow> [])"

definition delta_of :: "string option \<times> int option \<Rightarrow> bool \<Rightarrow> message \<Rightarrow> bool" where
  "delta_of k fin m \<longleftrightarrow> (\<exists>e c. m = TextChunk e c \<and> \<not> drop_flag e \<and> is_final e = fin \<and> turn_key m = k)"

lemma split_conserves: "fst (agent_split fin s a) @ ag_pending (snd (agent_split fin s a)) = ag_pending a @ s"
  by (cases fin) (simp_all add: agent_split_def Let_def del: take_append drop_append)

lemma agent_process_plain:
  assumes "delta_of k fin m" and "pending_turn a = Some k" and "\<not> occurs ''[['' (ag_pending a @ msg_text m)"
  defines "rd \<equiv> fst (agent_split fin (msg_text m) a)" and "a' \<equiv> snd (agent_split fin (msg_text m) a)"
  shows "agent_process loads tools m (a, w) = (Inr (set_text rd m), (a', w))"
proof -
  obtain e c where m: "m = TextChunk e c" "\<not> drop_flag e" "is_final e = fin" "turn_key m = k"
    using assms(1) by (auto simp: delta_of_def)
  have t: "agent_turn m a = a" using m assms(2) by (simp add: agent_turn_def)
  have x: "ag_pending a @ msg_text m = rd @ ag_pending a'"
    unfolding rd_def a'_def by (rule split_conserves [symmetric])
  have "\<not> occurs ''[['' rd" using assms(3) occurs_prefix unfolding x by blast
  then have r: "resolve_text loads tools rd w = (Inr rd, w)" by (rule resolve_plain)
  obtain a2 where sp: "agent_split fin (msg_text m) a = (rd, a2)" and a2: "a' = a2"
    by (cases "agent_split fin (msg_text m) a") (simp add: rd_def a'_def)
  have "text_of m v = (Inr (msg_text m), v)" for v :: "agent \<times> 'a" using m by (simp add: text_of_def msg_text_def)
  moreover have "\<not> drop_flag (envelope_of m)" "is_final (envelope_of m) = fin" using m by simp_all
  ultimately show ?thesis using t r sp a2 by (simp add: agent_process_def bnd_ok seq_ok)
qed

lemma split_turn: "pending_turn (snd (agent_split False s a)) = pending_turn a"
  by (simp add: agent_split_def Let_def)

lemma agent_stream_plain:
  assumes "\<forall>m \<in> set ms. delta_of k False m" and "delta_of k True l" and "pending_turn a = Some k"
    and "\<not> occurs ''[['' (ag_pending a @ concat (map msg_text (ms @ [l])))"
  shows "\<exists>outs. map_io (agent_process loads tools) (ms @ [l]) (a, w) = (Inr outs, (new_agent, w)) \<and>
    concat (map msg_text outs) = ag_pending a @ concat (map msg_text (ms @ [l]))"
  using assms(1,3,4)
proof (induction ms arbitrary: a)
  case Nil
  have n: "\<not> occurs ''[['' (ag_pending a @ msg_text l)" using Nil.prems(3) by simp
  have "snd (agent_split True (msg_text l) a) = new_agent"
    by (cases a) (simp add: agent_split_def new_agent_def Let_def)
  moreover obtain e c where "l = TextChunk e c" using assms(2) by (auto simp: delta_of_def)
  ultimately show ?case
    using agent_process_plain [OF assms(2) Nil.prems(2) n, of loads tools w]
    by (simp add: bnd_ok agent_split_def Let_def set_text_def msg_text_def)
next
  case (Cons m ms)
  let ?rest = "concat (map msg_text (ms @ [l]))"
  let ?rd = "fst (agent_split False (msg_text m) a)" and ?a = "snd (agent_split False (msg_text m) a)"
  have d: "delta_of k False m" using Cons.prems(1) by simp
  have n: "\<not> occurs ''[['' (ag_pending a @ msg_text m)"
    using Cons.prems(3) occurs_prefix [of _ "ag_pending a @ msg_text m" ?rest] by auto
  have e: "ag_pending a @ concat (map msg_text ((m # ms) @ [l])) = ?rd @ (ag_pending ?a @ ?rest)"
  proof -
    have "ag_pending a @ concat (map msg_text ((m # ms) @ [l])) = (ag_pending a @ msg_text m) @ ?rest" by simp
    also have "\<dots> = (?rd @ ag_pending ?a) @ ?rest" by (simp only: split_conserves)
    finally show ?thesis by simp
  qed
  then have n': "\<not> occurs ''[['' (ag_pending ?a @ ?rest)"
    using Cons.prems(3) occurs_suffix [of _ "ag_pending ?a @ ?rest" ?rd] by metis
  obtain outs where o: "map_io (agent_process loads tools) (ms @ [l]) (?a, w) = (Inr outs, (new_agent, w))"
    "concat (map msg_text outs) = ag_pending ?a @ ?rest"
    using Cons.IH [of ?a] Cons.prems(1,2) n' split_turn [of "msg_text m" a] by auto
  obtain e c where m: "m = TextChunk e c" using d by (auto simp: delta_of_def)
  have "msg_text (set_text ?rd m) = ?rd" using m by (simp add: msg_text_def set_text_def)
  then show ?case
    using agent_process_plain [OF d Cons.prems(2) n, of loads tools w] o
      e by (simp add: bnd_ok)
qed

lemma agent_process_turn:
  assumes "\<not> drop_flag (envelope_of m)"
  shows "agent_process loads tools m (a, w) = agent_process loads tools m (agent_turn m a, w)"
proof -
  have "agent_turn m (agent_turn m a) = agent_turn m a" by (simp add: agent_turn_def)
  then show ?thesis using assms by (simp add: agent_process_def seq_ok)
qed

text \<open>A reply without markers is spoken word for word, however it is cut into deltas: over the
  deltas of a turn and its final chunk, no tool is called, the texts that leave the node add up to
  the texts that entered it, nothing stays held back, and nothing held for another turn is
  mixed in.\<close>

theorem plain_reply_passes:
  assumes "\<forall>m \<in> set ms. delta_of k False m" and "delta_of k True l"
    and "ag_pending a = [] \<or> pending_turn a \<noteq> Some k"
    and "\<not> occurs ''[['' (concat (map msg_text (ms @ [l])))"
  shows "\<exists>outs. map_io (agent_process loads tools) (ms @ [l]) (a, w) = (Inr outs, (new_agent, w)) \<and>
    concat (map msg_text outs) = concat (map msg_text (ms @ [l]))"
proof -
  obtain m ms' where h: "ms @ [l] = m # ms'" by (cases "ms @ [l]") auto
  obtain fin where d: "delta_of k fin m" using h assms(1,2) by (cases ms) auto
  then have m: "\<not> drop_flag (envelope_of m)" "turn_key m = k" by (auto simp: delta_of_def)
  let ?a = "agent_turn m a"
  have a: "pending_turn ?a = Some k" "ag_pending ?a = []"
    using m(2) assms(3) by (auto simp: agent_turn_def)
  have "map_io (agent_process loads tools) (ms @ [l]) (a, w) = map_io (agent_process loads tools) (ms @ [l]) (?a, w)"
    unfolding h using agent_process_turn [OF m(1), of loads tools a w] by (simp add: bnd_def)
  then show ?thesis
    using agent_stream_plain [OF assms(1,2) a(1), of loads tools w] assms(4) a(2) by simp
qed

section \<open>A marker cut in two\<close>

definition say_tool :: "string \<Rightarrow> unit tools" where
  "say_tool ans = [(''say'', \<lparr>t_description = ''say'', t_call = (\<lambda>_. ret ans)\<rparr>)]"

definition text_msg :: "bool \<Rightarrow> string \<Rightarrow> message" where
  "text_msg fin s = TextChunk ((new_envelope 0)\<lparr>is_final := fin\<rparr>) \<lparr>chunk_text = s, language = None\<rparr>"

definition cut_left :: string where
  "cut_left = ''[[say({'' @ [CHR 0x22] @ '']]''"

definition cut_right :: string where
  "cut_right = [CHR 0x22] @ ''})]]''"

text \<open>A marker can be matched against a fragment after all: when an argument contains \<^verbatim>\<open>]]\<close>, the
  call is resolved if its text arrives whole, but if it arrives in two deltas cut behind that
  \<^verbatim>\<open>]]\<close>, the tool is not called and the rest of the call is spoken.\<close>

theorem cut_marker_is_lost:
  "map_io (agent_process (\<lambda>_. Inr (YMap [])) (say_tool ''done'')) [text_msg True (cut_left @ cut_right)] (new_agent, ()) =
     (Inr [text_msg True ''done''], (new_agent, ())) \<and>
   map_io (agent_process (\<lambda>_. Inr (YMap [])) (say_tool ''done'')) [text_msg False cut_left, text_msg True cut_right] (new_agent, ()) =
     (Inr [text_msg False [], text_msg True cut_right], (new_agent, ()))"
proof -
  note defs = cut_left_def cut_right_def match_call_def lstrip_def is_word_def is_space_def code_def starts_with_def
    call_close_def Let_def
  have 1: "scan_calls (cut_left @ cut_right) = [Tool_call ''say'' (drop 6 (take 12 (cut_left @ cut_right)))]"
    by (simp add: defs)
  have 2: "scan_calls cut_left = map Literal cut_left" by (simp add: defs)
  have 3: "scan_calls cut_right = map Literal cut_right" by (simp add: defs)
  have r1: "resolve_text (\<lambda>_. Inr (YMap [])) (say_tool ''done'') (cut_left @ cut_right) w = (Inr ''done'', w)" for w
    by (simp add: resolve_text_def 1 bnd_ok resolve_call_def say_tool_def call_tool_def starts_with_def)
  have r2: "resolve_text (\<lambda>_. Inr (YMap [])) (say_tool ''done'') cut_left w = (Inr [], w)" for w
    by (simp add: resolve_text_def 2 bnd_ok map_io_literals say_tool_def) (simp add: cut_left_def starts_with_def)
  have r3: "resolve_text (\<lambda>_. Inr (YMap [])) (say_tool ''done'') cut_right w = (Inr cut_right, w)" for w
    by (simp add: resolve_text_def 3 bnd_ok map_io_literals say_tool_def) (simp add: cut_right_def starts_with_def)
  have i: "incomplete_marker_start cut_left = length cut_left"
    by (simp add: incomplete_marker_start_def cut_left_def starts_with_def ends_with_bracket_def)
  show ?thesis
    by (simp add: agent_process_def text_msg_def new_agent_def bnd_ok seq_ok text_of_def agent_turn_def turn_key_def
        new_envelope_def agent_split_def Let_def i r1 r2 r3 set_text_def)
qed

theorem resolved_text_has_no_marker_witness:
  "\<exists>r. resolve_text (\<lambda>_. Inr (YMap [])) (say_tool ''[[x]]'') (cut_left @ cut_right) () = (Inr r, ()) \<and> \<not> has_marker r"
proof -
  obtain r where r: "resolve_text (\<lambda>_. Inr (YMap [])) (say_tool ''[[x]]'') (cut_left @ cut_right) () = (Inr r, ())"
    by (cases "resolve_text (\<lambda>_. Inr (YMap [])) (say_tool ''[[x]]'') (cut_left @ cut_right) ()")
      (auto simp: resolve_text_def bnd_ok resolve_call_def say_tool_def call_tool_def cut_left_def cut_right_def
        match_call_def lstrip_def is_word_def is_space_def code_def starts_with_def call_close_def Let_def)
  have "say_tool ''[[x]]'' \<noteq> []" by (simp add: say_tool_def)
  from resolved_text_has_no_marker [OF this r] r show ?thesis by blast
qed

theorem plain_reply_passes_witness:
  "\<exists>outs. map_io (agent_process (\<lambda>_. Inr YNull) (say_tool [])) [text_msg False ''a['', text_msg False ''b] '', text_msg True ''c'']
      (\<lparr>ag_pending = ''old'', pending_turn = Some (Some ''s'', Some 1)\<rparr>, ()) = (Inr outs, (new_agent, ())) \<and>
    concat (map msg_text outs) = ''a[b] c''"
proof -
  let ?a = "\<lparr>ag_pending = ''old'', pending_turn = Some (Some ''s'', Some 1)\<rparr>"
  have d: "\<forall>m \<in> set [text_msg False ''a['', text_msg False ''b] '']. delta_of (None, None) False m"
    "delta_of (None, None) True (text_msg True ''c'')"
    by (simp_all add: delta_of_def text_msg_def turn_key_def new_envelope_def)
  have a: "ag_pending ?a = [] \<or> pending_turn ?a \<noteq> Some (None, None)" by simp
  have t: "concat (map msg_text ([text_msg False ''a['', text_msg False ''b] ''] @ [text_msg True ''c''])) = ''a[b] c''"
    by (simp add: msg_text_def text_msg_def)
  have n: "\<not> occurs ''[['' (concat (map msg_text ([text_msg False ''a['', text_msg False ''b] ''] @ [text_msg True ''c''])))"
    unfolding t by (simp add: starts_with_def)
  from plain_reply_passes [OF d a n, of "\<lambda>_. Inr YNull" "say_tool []" "()"] t show ?thesis by simp
qed

end
