(* ===== verification/Tools.thy ===== *)
theory Tools
  imports Agent_Tool "HOL-Library.Sublist"
begin

text \<open>
  The tools of \<^verbatim>\<open>neudc/core/node/processors/mixins/tools\<close>: timers, sandboxed files and the page
  fetcher, each as the call the agent node makes. The scheduler, the file system and the HTTP
  session are records of calls; \<^verbatim>\<open>html.parser\<close> is given by the events it reports.
\<close>

section \<open>Keyword arguments\<close>

text \<open>Python binds \<^verbatim>\<open>**kwargs\<close> to the parameters: a missing required or an unknown keyword is a
  \<^verbatim>\<open>TypeError\<close>.\<close>

definition bind_kwargs :: "string list \<Rightarrow> string list \<Rightarrow> raw_dict \<Rightarrow> ('w, unit) io" where
  "bind_kwargs required optional d =
     (if (\<forall>k \<in> set required. k \<in> set (dkeys d)) \<and> set (dkeys d) \<subseteq> set required \<union> set optional then ret ()
      else raise (TypeError ''arguments''))"

section \<open>Timers\<close>

definition MAX_TIMER_SECONDS :: real where
  "MAX_TIMER_SECONDS = 24 * 60 * 60"

text \<open>The number a value compares as; any other value has no order with a number.\<close>

fun as_number :: "yaml \<Rightarrow> real option" where
  "as_number (YInt n) = Some (of_int n)"
| "as_number (YFloat r) = Some r"
| "as_number (YBool b) = Some (if b then 1 else 0)"
| "as_number _ = None"

record 'w timers =
  tm_schedule :: "real \<Rightarrow> yaml \<Rightarrow> ('w, unit) io"   \<comment> \<open>\<^verbatim>\<open>Timer(seconds, lambda: self._fire(label)).start()\<close>\<close>
  tm_show :: "yaml \<Rightarrow> string"                      \<comment> \<open>formatting of a value\<close>

definition set_timer :: "'w timers \<Rightarrow> yaml \<Rightarrow> yaml \<Rightarrow> ('w, string) io" where
  "set_timer T seconds label = (case as_number seconds of
      None \<Rightarrow> raise (TypeError ''unorderable'')
    | Some s \<Rightarrow>
        if \<not> (0 < s \<and> s \<le> MAX_TIMER_SECONDS)
        then raise (ToolError (''seconds must be in (0, 86400], got '' @ tm_show T seconds))
        else seq (tm_schedule T s label)
          (ret (''Timer set for '' @ tm_show T seconds @ '' seconds'' @
             (if y_truth label then '' ('' @ tm_show T label @ '')'' else []) @ ''.'')))"

definition timer_tool :: "'w timers \<Rightarrow> 'w tool" where
  "timer_tool T = \<lparr>t_description = ''set_timer'',
     t_call = (\<lambda>d. seq (bind_kwargs [''seconds''] [''label''] d) (set_timer T (the (dget d ''seconds'')) (y_get d ''label'' (YStr []))))\<rparr>"

text \<open>\<^verbatim>\<open>_fire\<close> on the timer's thread: the reminder is delivered, an \<^verbatim>\<open>Exception\<close> is logged.\<close>

definition timer_fire :: "(yaml \<Rightarrow> string) \<Rightarrow> ('w, real) io \<Rightarrow> (message \<Rightarrow> ('w, unit) io) \<Rightarrow> string \<Rightarrow> yaml \<Rightarrow> ('w, unit) io" where
  "timer_fire shw clock deliver sid label =
     catch_exn
       (bnd clock (\<lambda>t. deliver (TextChunk ((new_envelope t)\<lparr>msg_source := ''timer'', session_id := Some sid\<rparr>)
          \<lparr>chunk_text = (if y_truth label then ''Reminder: '' @ shw label else ''Timer finished.''), language = None\<rparr>)))
       is_Exception (\<lambda>_. ret ())"

section \<open>Files\<close>

definition MAX_FILE_CONTENT_CHARS :: nat where "MAX_FILE_CONTENT_CHARS = 20000"
definition MAX_READ_CHARS :: nat where "MAX_READ_CHARS = 4000"

text \<open>An absolute path is its components. A relative text is parsed as \<^verbatim>\<open>PurePosixPath\<close> does:
  empty components and dots are dropped.\<close>

type_synonym path = "string list"

fun split_slash :: "string \<Rightarrow> string \<Rightarrow> string list" where
  "split_slash acc [] = [acc]"
| "split_slash acc (c # s) = (if c = CHR ''/'' then acc # split_slash [] s else split_slash (acc @ [c]) s)"

definition parse_path :: "string \<Rightarrow> bool \<times> path" where
  "parse_path s = (s \<noteq> [] \<and> hd s = CHR ''/'', filter (\<lambda>c. c \<noteq> [] \<and> c \<noteq> ''.'') (split_slash [] s))"

text \<open>\<^verbatim>\<open>rt / relative\<close>: an absolute right operand replaces the rt.\<close>

definition join_path :: "path \<Rightarrow> string \<Rightarrow> path" where
  "join_path rt s = (case parse_path s of (absolute, cs) \<Rightarrow> if absolute then cs else rt @ cs)"

record 'w fs =
  fs_resolve :: "path \<Rightarrow> ('w, path) io"
  fs_mkdir :: "path \<Rightarrow> ('w, unit) io"
  fs_write :: "path \<Rightarrow> string \<Rightarrow> ('w, unit) io"
  fs_is_file :: "path \<Rightarrow> ('w, bool) io"
  fs_read :: "path \<Rightarrow> ('w, string) io"

definition is_relative_to :: "path \<Rightarrow> path \<Rightarrow> bool" where
  "is_relative_to p rt = prefix rt p"

definition resolve_in_sandbox :: "'w fs \<Rightarrow> path \<Rightarrow> yaml \<Rightarrow> ('w, path) io" where
  "resolve_in_sandbox F rt v = (case v of
      YStr s \<Rightarrow> bnd (fs_resolve F (join_path rt s)) (\<lambda>p.
        if \<not> is_relative_to p rt then raise (ToolError ''path escapes the sandbox directory'') else ret p)
    | _ \<Rightarrow> raise (TypeError ''unsupported operand''))"

text \<open>The constructors resolve the directory and create it.\<close>

definition sandbox_root :: "'w fs \<Rightarrow> path \<Rightarrow> ('w, path) io" where
  "sandbox_root F dir = bnd (fs_resolve F dir) (\<lambda>rt. seq (fs_mkdir F rt) (ret rt))"

fun py_len :: "yaml \<Rightarrow> ('w, nat) io" where
  "py_len (YStr s) = ret (length s)"
| "py_len (YList l) = ret (length l)"
| "py_len (YMap m) = ret (length m)"
| "py_len _ = raise (TypeError ''no len()'')"

text \<open>\<^verbatim>\<open>except OSError as e: raise ToolError(..)\<close>.\<close>

definition os_to_tool :: "string \<Rightarrow> ('w, 'a) io \<Rightarrow> ('w, 'a) io" where
  "os_to_tool msg m = catch_exn m is_OSError (\<lambda>_. raise (ToolError msg))"

definition show_path :: "yaml \<Rightarrow> string" where
  "show_path v = (case v of YStr s \<Rightarrow> s | _ \<Rightarrow> [])"

definition create_file :: "'w fs \<Rightarrow> path \<Rightarrow> yaml \<Rightarrow> yaml \<Rightarrow> ('w, string) io" where
  "create_file F rt p body =
     bnd (py_len body) (\<lambda>n.
     if n > MAX_FILE_CONTENT_CHARS then raise (ToolError ''content exceeds 20000 characters'')
     else bnd (resolve_in_sandbox F rt p) (\<lambda>target.
       seq (os_to_tool (''failed to write '' @ show_path p)
          (seq (fs_mkdir F (butlast target))
            (case body of YStr s \<Rightarrow> fs_write F target s | _ \<Rightarrow> raise (TypeError ''data must be str''))))
       (ret (''Created '' @ show_path p @ ''.''))))"

text \<open>The ellipsis character, as its UTF-8 bytes.\<close>

definition ellipsis :: string where
  "ellipsis = [CHR 0xE2, CHR 0x80, CHR 0xA6]"

definition read_file :: "'w fs \<Rightarrow> path \<Rightarrow> yaml \<Rightarrow> ('w, string) io" where
  "read_file F rt p =
     bnd (resolve_in_sandbox F rt p) (\<lambda>target.
     bnd (fs_is_file F target) (\<lambda>b.
     if \<not> b then raise (ToolError (show_path p @ '' does not exist''))
     else bnd (os_to_tool (''failed to read '' @ show_path p) (fs_read F target)) (\<lambda>s.
       ret (if length s > MAX_READ_CHARS then take MAX_READ_CHARS s @ ellipsis else s))))"

definition create_file_tool :: "'w fs \<Rightarrow> path \<Rightarrow> 'w tool" where
  "create_file_tool F rt = \<lparr>t_description = ''create_file'',
     t_call = (\<lambda>d. seq (bind_kwargs [''path'', ''content''] [] d)
       (create_file F rt (the (dget d ''path'')) (the (dget d ''content''))))\<rparr>"

definition read_file_tool :: "'w fs \<Rightarrow> path \<Rightarrow> 'w tool" where
  "read_file_tool F rt = \<lparr>t_description = ''read_file'',
     t_call = (\<lambda>d. seq (bind_kwargs [''path''] [] d) (read_file F rt (the (dget d ''path''))))\<rparr>"

section \<open>Web pages\<close>

datatype html_event = Start_tag string | End_tag string | Data string

definition SKIP_TAGS :: "string list" where
  "SKIP_TAGS = [''script'', ''style'', ''noscript'']"

text \<open>\<^verbatim>\<open>_TextExtractor\<close>: the depth inside skipped tags and the chunks.\<close>

fun extract_event :: "html_event \<Rightarrow> nat \<times> string list \<Rightarrow> nat \<times> string list" where
  "extract_event (Start_tag t) (d, cs) = (if t \<in> set SKIP_TAGS then (Suc d, cs) else (d, cs))"
| "extract_event (End_tag t) (d, cs) = (if t \<in> set SKIP_TAGS \<and> d > 0 then (d - 1, cs) else (d, cs))"
| "extract_event (Data s) (d, cs) = (if d = 0 \<and> py_strip s \<noteq> [] then (d, cs @ [py_strip s]) else (d, cs))"

fun join_blank :: "string list \<Rightarrow> string" where
  "join_blank [] = []"
| "join_blank [s] = s"
| "join_blank (s # ss) = s @ CHR '' '' # join_blank ss"

definition extract_text :: "html_event list \<Rightarrow> string" where
  "extract_text evs = join_blank (snd (fold extract_event evs (0, [])))"

text \<open>\<^verbatim>\<open>url.split("://", 1)[0].lower()\<close>.\<close>

fun before_scheme_sep :: "string \<Rightarrow> string option" where
  "before_scheme_sep [] = None"
| "before_scheme_sep (c # s) = (if starts_with ''://'' (c # s) then Some [] else map_option (\<lambda>r. c # r) (before_scheme_sep s))"

definition url_scheme :: "string \<Rightarrow> string" where
  "url_scheme url = (case before_scheme_sep url of None \<Rightarrow> [] | Some s \<Rightarrow> map lower_char s)"

text \<open>\<^verbatim>\<open>text.rsplit(" ", 1)[0]\<close>.\<close>

definition cut_last_word :: "string \<Rightarrow> string" where
  "cut_last_word s = (if CHR '' '' \<in> set s then rev (drop 1 (dropWhile (\<lambda>c. c \<noteq> CHR '' '') (rev s))) else s)"

record 'w http =
  h_download :: "string \<Rightarrow> nat \<Rightarrow> ('w, nat list) io"   \<comment> \<open>at most this many bytes of the body\<close>
  h_is_request_error :: "exn \<Rightarrow> bool"
  h_events :: "nat list \<Rightarrow> html_event list"            \<comment> \<open>decoding and \<^verbatim>\<open>HTMLParser.feed\<close>\<close>

definition fetch_url :: "'w http \<Rightarrow> nat \<Rightarrow> nat \<Rightarrow> string \<Rightarrow> ('w, string) io" where
  "fetch_url H max_response_bytes max_chars url =
     (if url_scheme url \<notin> {''http'', ''https''} then raise (ToolError ''unsupported URL scheme'')
      else bnd (catch_exn (h_download H url (max_response_bytes + 1)) (h_is_request_error H)
                  (\<lambda>_. raise (ToolError (''failed to fetch '' @ url)))) (\<lambda>body.
        if length body > max_response_bytes then raise (ToolError ''refusing to parse'')
        else let s = extract_text (h_events H body);
                 cut = (if length s > max_chars then cut_last_word (take max_chars s) @ ellipsis else s)
             in ret (if cut \<noteq> [] then cut else ''(page had no readable text)'')))"

section \<open>The sandbox\<close>

text \<open>The paths a file system has been asked to write below or to read, as a ghost log; a call that
  resolves a path or asks whether it is a file touches nothing.\<close>

definition logs_touched :: "'w fs \<Rightarrow> ('w \<Rightarrow> path list) \<Rightarrow> bool" where
  "logs_touched F touched \<longleftrightarrow>
     (\<forall>p w. touched (snd (fs_resolve F p w)) = touched w) \<and> (\<forall>p w. touched (snd (fs_is_file F p w)) = touched w) \<and>
     (\<forall>p w. touched (snd (fs_mkdir F p w)) = touched w) \<and>
     (\<forall>p s w. touched (snd (fs_write F p s w)) = touched w @ [p]) \<and>
     (\<forall>p w. touched (snd (fs_read F p w)) = touched w @ [p])"

definition touches_only :: "(path \<Rightarrow> bool) \<Rightarrow> ('w \<Rightarrow> path list) \<Rightarrow> ('w, 'a) io \<Rightarrow> bool" where
  "touches_only P touched m \<longleftrightarrow> (\<forall>w. \<exists>ps. touched (snd (m w)) = touched w @ ps \<and> (\<forall>p \<in> set ps. P p))"

named_theorems touches_intros

lemma touches_only_const: "(\<And>w. touched (snd (m w)) = touched w) \<Longrightarrow> touches_only P touched m"
  by (simp add: touches_only_def)

lemma touches_only_ret [touches_intros]: "touches_only P touched (ret x)" "touches_only P touched (raise e)"
  by (simp_all add: touches_only_def)

lemma touches_only_bnd [touches_intros]:
  assumes "touches_only P touched m" and "\<And>x w w'. m w = (Inr x, w') \<Longrightarrow> touches_only P touched (f x)"
  shows "touches_only P touched (bnd m f)"
  unfolding touches_only_def
proof
  fix w
  obtain r w1 where m: "m w = (r, w1)" by (cases "m w")
  obtain ps where ps: "touched w1 = touched w @ ps" "\<forall>p \<in> set ps. P p"
    using assms(1) m unfolding touches_only_def by (metis snd_conv)
  show "\<exists>ps. touched (snd (bnd m f w)) = touched w @ ps \<and> (\<forall>p \<in> set ps. P p)"
  proof (cases r)
    case (Inl e)
    then show ?thesis using m ps by (auto simp: bnd_def)
  next
    case (Inr x)
    then obtain qs where "touched (snd (f x w1)) = touched w1 @ qs" "\<forall>p \<in> set qs. P p"
      using assms(2) m unfolding touches_only_def by blast
    then show ?thesis using m ps Inr by (intro exI [of _ "ps @ qs"]) (auto simp: bnd_def)
  qed
qed

lemma touches_only_seq [touches_intros]: "touches_only P touched m \<Longrightarrow> touches_only P touched k \<Longrightarrow> touches_only P touched (seq m k)"
  unfolding seq_def by (rule touches_only_bnd)

lemma touches_only_os [touches_intros]: "touches_only P touched m \<Longrightarrow> touches_only P touched (os_to_tool msg m)"
  unfolding touches_only_def os_to_tool_def catch_exn_def
  by (auto split: prod.splits sum.splits) (metis snd_conv)+

lemma resolve_in_sandbox_stays:
  assumes "logs_touched F touched"
  shows "touches_only (prefix rt) touched (resolve_in_sandbox F rt v)"
proof -
  have "touches_only (prefix rt) touched (fs_resolve F p)" for p
    using assms by (intro touches_only_const) (simp add: logs_touched_def)
  then show ?thesis
    unfolding resolve_in_sandbox_def by (cases v) (auto intro!: touches_intros)
qed

lemma resolve_in_sandbox_prefix:
  "resolve_in_sandbox F rt v w = (Inr p, w') \<Longrightarrow> prefix rt p"
  by (cases v) (auto simp: resolve_in_sandbox_def bnd_Inr_iff is_relative_to_def split: if_splits)

text \<open>C33: No call of the file tools leaves the sandbox: whatever arguments the model writes, and
  however the call ends, every file written or read lies below the root, as the file system itself
  resolves the path.\<close>

theorem file_tools_stay_in_sandbox:
  assumes "logs_touched F touched"
  shows "touches_only (prefix rt) touched (t_call (create_file_tool F rt) d) \<and> touches_only (prefix rt) touched (t_call (read_file_tool F rt) d)"
proof -
  have k: "touches_only (prefix rt) touched (bind_kwargs r n d)" for r n
    by (simp add: bind_kwargs_def touches_only_ret)
  have len: "touches_only (prefix rt) touched (py_len v)" for v
    by (cases v) (simp_all add: touches_only_ret)
  have w: "touches_only (prefix rt) touched (seq (fs_mkdir F (butlast t))
      (case c of YStr s \<Rightarrow> fs_write F t s | _ \<Rightarrow> raise (TypeError ''data must be str'')))" if "prefix rt t" for t c
    using assms that by (intro touches_only_seq) (auto simp: touches_only_def logs_touched_def split: yaml.splits)
  have rd: "touches_only (prefix rt) touched (fs_read F t)" if "prefix rt t" for t
    using assms that by (auto simp: touches_only_def logs_touched_def)
  have isf: "touches_only (prefix rt) touched (fs_is_file F t)" for t
    using assms by (intro touches_only_const) (simp add: logs_touched_def)
  have "touches_only (prefix rt) touched (create_file F rt p c)" for p c
    unfolding create_file_def
    by (intro touches_only_bnd len) (auto intro!: touches_intros w
        resolve_in_sandbox_stays [OF assms] dest: resolve_in_sandbox_prefix)
  moreover have "touches_only (prefix rt) touched (read_file F rt p)" for p
    unfolding read_file_def
    by (intro touches_only_bnd resolve_in_sandbox_stays [OF assms] isf)
      (auto intro!: touches_intros rd dest: resolve_in_sandbox_prefix)
  ultimately show ?thesis
    by (simp add: create_file_tool_def read_file_tool_def touches_only_seq k)
qed

text \<open>A file system without links, whose world is the list of touched files.\<close>

definition up_dirs :: "path \<Rightarrow> path" where
  "up_dirs p = fold (\<lambda>c acc. if c = ''..'' then butlast acc else acc @ [c]) p []"

definition log_fs :: "path list fs" where
  "log_fs = \<lparr>fs_resolve = (\<lambda>p w. (Inr (up_dirs p), w)), fs_mkdir = (\<lambda>p w. (Inr (), w)),
     fs_write = (\<lambda>p s w. (Inr (), w @ [p])), fs_is_file = (\<lambda>p w. (Inr True, w)), fs_read = (\<lambda>p w. (Inr ''x'', w @ [p]))\<rparr>"

theorem file_tools_stay_in_sandbox_witness:
  "list_all (prefix [''srv'', ''box''])
     (snd (t_call (create_file_tool log_fs [''srv'', ''box'']) [(''path'', YStr ''a/../b''), (''content'', YStr ''hi'')] []))"
proof -
  have "logs_touched log_fs (\<lambda>w. w)" by (simp add: logs_touched_def log_fs_def)
  from file_tools_stay_in_sandbox [OF this, of "[''srv'', ''box'']" "[(''path'', YStr ''a/../b''), (''content'', YStr ''hi'')]"]
  show ?thesis unfolding touches_only_def list_all_iff by (metis append_Nil)
qed

text \<open>The tool does write there, and refuses a path that leaves the sandbox.\<close>

lemma sandbox_examples:
  "t_call (create_file_tool log_fs [''srv'', ''box'']) [(''path'', YStr ''a/../b''), (''content'', YStr ''hi'')] [] =
     (Inr ''Created a/../b.'', [[''srv'', ''box'', ''b'']])"
  "t_call (create_file_tool log_fs [''srv'', ''box'']) [(''path'', YStr ''../b''), (''content'', YStr ''hi'')] [] =
     (Inl (ToolError ''path escapes the sandbox directory''), [])"
  "t_call (create_file_tool log_fs [''srv'', ''box'']) [(''path'', YStr ''/etc/b''), (''content'', YStr ''hi'')] [] =
     (Inl (ToolError ''path escapes the sandbox directory''), [])"
  by (simp_all add: create_file_tool_def create_file_def bind_kwargs_def dkeys_def MAX_FILE_CONTENT_CHARS_def
      resolve_in_sandbox_def join_path_def parse_path_def log_fs_def up_dirs_def is_relative_to_def os_to_tool_def
      catch_exn_def seq_def bnd_def show_path_def)

section \<open>Skipped elements\<close>

text \<open>Text inside a script, style or noscript element is not extracted, however deep.\<close>

lemma extract_depth: "fst (extract_event e (d, cs)) > 0 \<Longrightarrow> d > 0 \<Longrightarrow> snd (extract_event e (d, cs)) = cs"
  by (cases e) auto

lemma skipped_element:
  assumes "t \<in> set SKIP_TAGS" and "\<forall>e \<in> set evs. \<exists>s. e = Data s"
  shows "extract_text (Start_tag t # evs @ End_tag t # rest) = extract_text rest"
proof -
  have "fold extract_event evs (Suc 0, []) = (Suc 0, [])"
    using assms(2) by (induction evs) auto
  then show ?thesis using assms(1) by (simp add: extract_text_def)
qed

end
