(* ===== verification/Echo.thy ===== *)
theory Echo
  imports Voice
begin

text \<open>
  \<^verbatim>\<open>neudc/core/node/filters/mixins/aec.py\<close>: the normalised least-mean-squares filter that removes
  the played audio from the microphone signal, and the buffer of the played audio. Samples and
  weights are lists of reals; rounding to the sample type and resampling between different rates
  are outside the model, the latter as an argument.
\<close>

section \<open>The filter\<close>

definition dot :: "real list \<Rightarrow> real list \<Rightarrow> real" where
  "dot xs ys = sum_list (map2 (*) xs ys)"

definition scale_add :: "real list \<Rightarrow> real \<Rightarrow> real list \<Rightarrow> real list" where
  "scale_add ws k xs = map2 (\<lambda>w x. w + k * x) ws xs"

text \<open>One sample of \<^verbatim>\<open>_nlms_process\<close>: the error and the new weights, for the reference window with
  the most recent sample first.\<close>

definition nlms_step :: "real \<Rightarrow> real \<Rightarrow> real \<Rightarrow> real list \<Rightarrow> real list \<Rightarrow> real \<times> real list" where
  "nlms_step step_size epsilon d xs ws =
     (let e = d - dot ws xs; norm = dot xs xs + epsilon in (e, scale_add ws (step_size / norm * e) xs))"

text \<open>The loop over the samples; the reference history moves on by one sample at a time.\<close>

fun nlms_process :: "real \<Rightarrow> real \<Rightarrow> real list \<Rightarrow> real list \<Rightarrow> real list \<Rightarrow> real list \<times> real list" where
  "nlms_process step_size epsilon [] ref ws = ([], ws)"
| "nlms_process step_size epsilon (d # mic) ref ws =
     (let (e, ws') = nlms_step step_size epsilon d (rev (take (length ws) ref)) ws;
          (es, ws'') = nlms_process step_size epsilon mic (tl ref) ws'
      in (e # es, ws''))"

record canceller =
  filter_length :: nat
  step_size :: real
  epsilon :: real
  double_talk_ratio :: real
  double_talk_floor :: real
  weights :: "real list"

definition new_canceller :: "int \<Rightarrow> real \<Rightarrow> exn + canceller" where
  "new_canceller n mu = (if n \<le> 0 then Inl (ValueError ''filter_length must be positive'')
     else Inr \<lparr>filter_length = nat n, step_size = mu, epsilon = 1 / 1000000, double_talk_ratio = 3 / 2,
       double_talk_floor = 1 / 1000, weights = replicate (nat n) 0\<rparr>)"

definition rms :: "real list \<Rightarrow> real" where
  "rms xs = sqrt (sum_list (map (\<lambda>x. x * x) xs) / real (length xs))"

text \<open>What the present weights predict for every sample of a block.\<close>

definition predict :: "canceller \<Rightarrow> nat \<Rightarrow> real list \<Rightarrow> real list" where
  "predict c n ref = map (\<lambda>i. dot (weights c) (rev (take (filter_length c) (drop i ref)))) [0..<n]"

text \<open>The double-talk guard: no adaptation while the residual dominates the prediction.\<close>

definition effective_step :: "canceller \<Rightarrow> real list \<Rightarrow> real list \<Rightarrow> real" where
  "effective_step c mic ref =
     (if list_all (\<lambda>x. x = 0) (weights c) then step_size c
      else let y = predict c (length mic) ref; p = rms y in
        if p > double_talk_floor c \<and> rms (map2 (-) mic y) > double_talk_ratio c * p then 0 else step_size c)"

definition cancel_process :: "real list \<Rightarrow> real list \<Rightarrow> (canceller, real list) io" where
  "cancel_process mic ref = (\<lambda>c.
     if length ref \<noteq> filter_length c + length mic then (Inl (ValueError ''ref_history''), c)
     else let (out, ws) = nlms_process (effective_step c mic ref) (epsilon c) mic ref (weights c)
          in (Inr out, c\<lparr>weights := ws\<rparr>))"

section \<open>The reference buffer\<close>

record reference_buffer =
  target_sample_rate :: int
  max_samples :: int
  rb_samples :: "real list"
  last_push_time :: "real option"

definition new_reference_buffer :: "int \<Rightarrow> real \<Rightarrow> reference_buffer" where
  "new_reference_buffer rate max_seconds = \<lparr>target_sample_rate = rate, max_samples = \<lfloor>of_int rate * max_seconds\<rfloor>,
     rb_samples = [], last_push_time = None\<rparr>"

text \<open>\<^verbatim>\<open>xs[-n:]\<close>; for \<open>n = 0\<close> Python gives the whole list.\<close>

definition last_n :: "int \<Rightarrow> 'a list \<Rightarrow> 'a list" where
  "last_n n xs = (if n = 0 then xs
     else if n < 0 then drop (nat (- n)) xs
     else drop (length xs - nat n) xs)"

definition resample :: "(real list \<Rightarrow> int \<Rightarrow> int \<Rightarrow> real list) \<Rightarrow> real list \<Rightarrow> int \<Rightarrow> int \<Rightarrow> real list" where
  "resample resample_poly xs source_rate target_rate =
     (if source_rate = target_rate then xs else resample_poly xs target_rate source_rate)"

definition rb_push :: "(real list \<Rightarrow> int \<Rightarrow> int \<Rightarrow> real list) \<Rightarrow> real \<Rightarrow> real list \<Rightarrow> int \<Rightarrow> reference_buffer \<Rightarrow> reference_buffer" where
  "rb_push resample_poly now xs rate b =
     (if xs = [] then b
      else let ys = rb_samples b @ resample resample_poly xs rate (target_sample_rate b) in
        b\<lparr>rb_samples := (if int (length ys) > max_samples b then last_n (max_samples b) ys else ys), last_push_time := Some now\<rparr>)"

definition rb_is_active :: "real \<Rightarrow> reference_buffer \<Rightarrow> bool" where
  "rb_is_active now b = (case last_push_time b of None \<Rightarrow> False | Some t \<Rightarrow> now - t \<le> 1 / 2)"

definition rb_window :: "nat \<Rightarrow> nat \<Rightarrow> reference_buffer \<Rightarrow> real list option" where
  "rb_window n len b = (if length (rb_samples b) < n + len then None else Some (last_n (int (n + len)) (rb_samples b)))"

section \<open>Lengths\<close>

lemma scale_add_length [simp]: "length (scale_add ws k xs) = min (length ws) (length xs)"
  by (simp add: scale_add_def)

lemma nlms_process_Cons:
  defines "st mu eps d ref ws \<equiv> nlms_step mu eps d (rev (take (length ws) ref)) ws"
  shows "fst (nlms_process mu eps (d # mic) ref ws) =
      fst (st mu eps d ref ws) # fst (nlms_process mu eps mic (tl ref) (snd (st mu eps d ref ws)))"
    and "snd (nlms_process mu eps (d # mic) ref ws) = snd (nlms_process mu eps mic (tl ref) (snd (st mu eps d ref ws)))"
  by (simp_all add: st_def Let_def case_prod_beta)

lemma nlms_step_length: "length xs = length ws \<Longrightarrow> length (snd (nlms_step mu eps d xs ws)) = length ws"
  by (simp add: nlms_step_def Let_def)

lemma nlms_lengths:
  "length ref \<ge> length ws + length mic \<Longrightarrow>
   length (fst (nlms_process mu eps mic ref ws)) = length mic \<and> length (snd (nlms_process mu eps mic ref ws)) = length ws"
proof (induction mic arbitrary: ref ws)
  case (Cons d mic)
  let ?ws = "snd (nlms_step mu eps d (rev (take (length ws) ref)) ws)"
  have l: "length ?ws = length ws" using Cons.prems by (intro nlms_step_length) simp
  show ?case using Cons.IH [of ?ws "tl ref"] Cons.prems l by (simp add: nlms_process_Cons del: nlms_process.simps)
qed simp

lemma rb_window_length: "0 < n + len \<Longrightarrow> rb_window n len b = Some xs \<Longrightarrow> length xs = n + len"
  by (auto simp: rb_window_def last_n_def split: if_splits)

lemma rb_push_bound:
  assumes "0 < max_samples b" and "int (length (rb_samples b)) \<le> max_samples b"
  shows "int (length (rb_samples (rb_push f now xs rate b))) \<le> max_samples b"
  using assms by (auto simp: rb_push_def Let_def last_n_def)

section \<open>Adaptation\<close>

lemma dot_Cons [simp]: "dot (x # xs) (y # ys) = x * y + dot xs ys"
  by (simp add: dot_def)

lemma dot_Nil [simp]: "dot [] ys = 0" "dot xs [] = 0"
  by (simp_all add: dot_def)

lemma dot_nonneg: "0 \<le> dot xs xs"
  by (induction xs) auto

definition diff :: "real list \<Rightarrow> real list \<Rightarrow> real list" where
  "diff xs ys = map2 (-) xs ys"

lemma dot_diff:
  "length h = length ws \<Longrightarrow> length xs = length ws \<Longrightarrow> dot (diff h ws) xs = dot h xs - dot ws xs"
proof (induction ws arbitrary: h xs)
  case (Cons w ws)
  then show ?case by (cases h; cases xs) (auto simp: diff_def algebra_simps)
qed (simp add: diff_def)

lemma dot_sub_scaled:
  "length h = length ws \<Longrightarrow> length xs = length ws \<Longrightarrow>
   dot (diff h (scale_add ws k xs)) (diff h (scale_add ws k xs)) =
     dot (diff h ws) (diff h ws) - 2 * k * dot (diff h ws) xs + k * k * dot xs xs"
proof (induction ws arbitrary: h xs)
  case (Cons w ws)
  obtain a h' where h: "h = a # h'" using Cons.prems by (cases h) auto
  obtain x xs' where x: "xs = x # xs'" using Cons.prems by (cases xs) auto
  have IH: "dot (diff h' (scale_add ws k xs')) (diff h' (scale_add ws k xs')) =
     dot (diff h' ws) (diff h' ws) - 2 * k * dot (diff h' ws) xs' + k * k * dot xs' xs'"
    using Cons h x by simp
  have "dot (diff h (scale_add (w # ws) k xs)) (diff h (scale_add (w # ws) k xs)) =
    (a - (w + k * x)) * (a - (w + k * x)) + dot (diff h' (scale_add ws k xs')) (diff h' (scale_add ws k xs'))"
    by (simp add: h x diff_def scale_add_def)
  then show ?case unfolding IH by (simp add: h x diff_def algebra_simps)
qed (simp add: diff_def scale_add_def)

text \<open>The distance of the weights to a room response.\<close>

definition misalignment :: "real list \<Rightarrow> real list \<Rightarrow> real" where
  "misalignment h ws = dot (diff h ws) (diff h ws)"

lemma nlms_step_misalignment:
  assumes "length h = length ws" and "length xs = length ws" and "0 < eps" and "0 \<le> mu" and "mu \<le> 2"
  shows "misalignment h (snd (nlms_step mu eps (dot h xs) xs ws)) \<le> misalignment h ws"
proof -
  define e where "e = dot h xs - dot ws xs"
  define n where "n = dot xs xs"
  define k where "k = mu / (n + eps) * e"
  have n: "0 \<le> n" unfolding n_def by (rule dot_nonneg)
  have d: "dot (diff h ws) xs = e" unfolding e_def using assms(1,2) by (rule dot_diff)
  have "mu / (n + eps) * n \<le> mu / (n + eps) * (n + eps)"
    using n assms(3,4) by (intro mult_left_mono) auto
  also have "\<dots> = mu" using n assms(3) by simp
  finally have le: "mu / (n + eps) * n \<le> 2" using assms(5) by simp
  have "misalignment h (scale_add ws k xs) = misalignment h ws - 2 * k * e + k * k * n"
    unfolding misalignment_def n_def using dot_sub_scaled [OF assms(1,2), of k] d by simp
  also have "\<dots> = misalignment h ws - (mu / (n + eps)) * (e * e) * (2 - mu / (n + eps) * n)"
    by (simp add: k_def algebra_simps)
  also have "\<dots> \<le> misalignment h ws"
    using le n assms(3,4) by (simp add: zero_le_mult_iff)
  finally show ?thesis by (simp add: nlms_step_def Let_def e_def n_def k_def)
qed

text \<open>The signal that reaches the microphone when the room with response \<open>h\<close> plays the reference.\<close>

fun echo_of :: "nat \<Rightarrow> real list \<Rightarrow> real list \<Rightarrow> real list" where
  "echo_of 0 h ref = []"
| "echo_of (Suc n) h ref = dot h (rev (take (length h) ref)) # echo_of n h (tl ref)"

lemma nlms_process_misalignment:
  assumes "length h = length ws" and "length ws + n \<le> length ref" and "0 < eps" and "0 \<le> mu" and "mu \<le> 2"
  shows "misalignment h (snd (nlms_process mu eps (echo_of n h ref) ref ws)) \<le> misalignment h ws"
  using assms(1,2)
proof (induction n arbitrary: ref ws)
  case (Suc n)
  let ?xs = "rev (take (length ws) ref)"
  let ?s = "nlms_step mu eps (dot h ?xs) ?xs ws"
  have len: "length ?xs = length ws" using Suc.prems by simp
  then have l: "length (snd ?s) = length ws" by (simp add: nlms_step_def Let_def)
  have "misalignment h (snd (nlms_process mu eps (echo_of n h (tl ref)) (tl ref) (snd ?s))) \<le> misalignment h (snd ?s)"
    using Suc.prems l by (intro Suc.IH) auto
  also have "\<dots> \<le> misalignment h ws"
    using Suc.prems(1) len assms(3-5) by (rule nlms_step_misalignment)
  finally show ?case using Suc.prems(1) by (simp add: nlms_process_Cons del: nlms_process.simps)
qed simp

lemma nlms_frozen:
  assumes "length ws + length mic \<le> length ref"
  shows "snd (nlms_process 0 eps mic ref ws) = ws"
  using assms
proof (induction mic arbitrary: ref)
  case (Cons d mic)
  have "scale_add ws 0 xs = ws" if "length xs = length ws" for xs
    using that by (simp add: scale_add_def list_eq_iff_nth_eq)
  then have s: "snd (nlms_step 0 eps d (rev (take (length ws) ref)) ws) = ws"
    using Cons.prems by (simp add: nlms_step_def Let_def)
  show ?case using Cons.IH [of "tl ref"] Cons.prems s by (simp add: nlms_process_Cons del: nlms_process.simps)
qed simp

text \<open>The echo canceller never unlearns from echo: when what the microphone hears is the played
  audio through some room response, processing a block of any length brings the weights no farther
  from that response than they were, whatever they were, for every step size from 0 to 2, and the
  cleaned block has the length of the input.\<close>

theorem canceller_never_unlearns:
  assumes "length h = filter_length c" and "length (weights c) = filter_length c" and "length ref = filter_length c + n"
    and "0 < epsilon c" and "0 \<le> step_size c" and "step_size c \<le> 2"
  shows "\<exists>out c'. cancel_process (echo_of n h ref) ref c = (Inr out, c') \<and> length out = n \<and>
    length (weights c') = filter_length c \<and> misalignment h (weights c') \<le> misalignment h (weights c)"
proof -
  have el: "length (echo_of n h r) = n" for r by (induction n arbitrary: r) simp_all
  let ?mu = "effective_step c (echo_of n h ref) ref"
  have mu: "?mu = 0 \<or> ?mu = step_size c" by (simp add: effective_step_def Let_def)
  have "misalignment h (snd (nlms_process ?mu (epsilon c) (echo_of n h ref) ref (weights c))) \<le> misalignment h (weights c)"
    using assms mu by (intro nlms_process_misalignment) auto
  then show ?thesis
    using assms nlms_lengths [of "weights c" "echo_of n h ref" ref ?mu "epsilon c"] el
    by (simp add: cancel_process_def Let_def case_prod_beta)
qed

theorem canceller_never_unlearns_witness:
  "\<exists>c out c'. new_canceller 1 1 = Inr c \<and> cancel_process (echo_of 2 [1/2] [4, 2, 0]) [4, 2, 0] c = (Inr out, c') \<and>
    misalignment [1/2] (weights c') \<le> 1/4"
proof -
  obtain c where c: "new_canceller 1 1 = Inr c" "filter_length c = 1" "weights c = [0]" "0 < epsilon c" "step_size c = 1"
    by (simp add: new_canceller_def)
  have h: "length [1/2::real] = filter_length c" "length (weights c) = filter_length c"
    "length [4, 2, 0::real] = filter_length c + 2" "0 \<le> step_size c" "step_size c \<le> 2"
    using c by simp_all
  from canceller_never_unlearns [OF h(1-3) c(4) h(4,5)] c show ?thesis
    by (auto simp: misalignment_def diff_def power2_eq_square)
qed

end
