(* ===== verification/Vad.thy ===== *)
theory Vad
  imports Echo
begin

text \<open>
  \<^verbatim>\<open>neudc/core/node/filters/mixins/vad_mixin.py\<close> and \<^verbatim>\<open>vad_node.py\<close>: marking silence, numbering the
  turns, cancelling the turn in flight when the user speaks again. The control channel of the
  mailbox and the clock are calls on the world. The echo canceller works on one-dimensional chunks.
\<close>

section \<open>State\<close>

definition REFERENCE_SOURCE :: string where
  "REFERENCE_SOURCE = ''speaker-reference''"

record vad =
  energy_threshold :: real
  vad_session :: string
  barge_in_energy_threshold :: real
  barge_in_cooldown_sec :: real
  cur_turn :: int
  in_speech :: bool
  last_cancel_at :: "real option"
  aec_enabled :: bool
  aec_filter_length :: int
  vad_canceller :: canceller
  reference :: reference_buffer

definition new_vad :: "real \<Rightarrow> string \<Rightarrow> real option \<Rightarrow> real \<Rightarrow> bool \<Rightarrow> int \<Rightarrow> real \<Rightarrow> int \<Rightarrow> exn + vad" where
  "new_vad threshold sid barge cooldown aec flen mu rate = (case new_canceller flen mu of
      Inl e \<Rightarrow> Inl e
    | Inr c \<Rightarrow> Inr \<lparr>energy_threshold = threshold, vad_session = sid,
        barge_in_energy_threshold = (case barge of None \<Rightarrow> threshold | Some b \<Rightarrow> b),
        barge_in_cooldown_sec = cooldown, cur_turn = 0, in_speech = False, last_cancel_at = None,
        aec_enabled = aec, aec_filter_length = flen, vad_canceller = c, reference = new_reference_buffer rate 3\<rparr>)"

text \<open>\<^verbatim>\<open>VadNode.from_config\<close>: the defaults of the optional keys; the values are given typed.\<close>

record vad_config =
  vc_energy_threshold :: "real option"
  vc_session_id :: "string option"
  vc_barge_in_energy_threshold :: "real option"
  vc_barge_in_cooldown_sec :: "real option"
  vc_aec_enabled :: "bool option"
  vc_aec_filter_length :: "int option"
  vc_aec_step_size :: "real option"
  vc_mic_sample_rate :: "int option"

definition or_default :: "'a \<Rightarrow> 'a option \<Rightarrow> 'a" where
  "or_default d v = (case v of None \<Rightarrow> d | Some x \<Rightarrow> x)"

definition vad_from_config :: "vad_config \<Rightarrow> exn + vad" where
  "vad_from_config c = new_vad (or_default (1 / 100) (vc_energy_threshold c)) (or_default ''default'' (vc_session_id c))
     (vc_barge_in_energy_threshold c) (or_default (3 / 2) (vc_barge_in_cooldown_sec c))
     (or_default False (vc_aec_enabled c)) (or_default 2048 (vc_aec_filter_length c))
     (or_default (3 / 10) (vc_aec_step_size c)) (or_default 16000 (vc_mic_sample_rate c))"

section \<open>The calls on the world\<close>

record 'w vad_env =
  v_clock :: "('w, real) io"
  v_send_control :: "message \<Rightarrow> ('w, unit) io"
  v_resample :: "real list \<Rightarrow> int \<Rightarrow> int \<Rightarrow> real list"

definition cooled_down :: "'w vad_env \<Rightarrow> (vad \<times> 'w, bool) io" where
  "cooled_down E = bnd self (\<lambda>v. case last_cancel_at v of
      None \<Rightarrow> ret True
    | Some t \<Rightarrow> bnd (lift_w (v_clock E)) (\<lambda>now. ret (now - t \<ge> barge_in_cooldown_sec v)))"

definition cancel_turn :: "'w vad_env \<Rightarrow> int \<Rightarrow> (vad \<times> 'w, unit) io" where
  "cancel_turn E tid = bnd self (\<lambda>v. bnd (lift_w (v_clock E)) (\<lambda>now.
     lift_w (v_send_control E (ControlMessage ((new_envelope now)\<lparr>session_id := Some (vad_session v), turn_id := Some tid\<rparr>) CANCEL))))"

section \<open>One chunk\<close>

text \<open>Echo cancellation of a microphone chunk, when the reference is fresh and long enough.\<close>

definition clean_chunk :: "'w vad_env \<Rightarrow> ndarray \<Rightarrow> (vad \<times> 'w, ndarray) io" where
  "clean_chunk E a = bnd self (\<lambda>v.
     if \<not> (aec_enabled v \<and> nd_size a > 0) then ret a
     else case last_push_time (reference v) of
       None \<Rightarrow> ret a
     | Some _ \<Rightarrow> bnd (lift_w (v_clock E)) (\<lambda>now.
         if \<not> rb_is_active now (reference v) then ret a
         else case rb_window (nat (aec_filter_length v)) (nd_len a) (reference v) of
           None \<Rightarrow> ret a
         | Some ref \<Rightarrow> (case cancel_process (nd_data a) ref (vad_canceller v) of
             (Inl e, c) \<Rightarrow> raise e
           | (Inr out, c) \<Rightarrow> seq (on_self (\<lambda>v. v\<lparr>vad_canceller := c\<rparr>)) (ret (a\<lparr>nd_data := out\<rparr>)))))"

definition chunk_rms :: "ndarray \<Rightarrow> real" where
  "chunk_rms a = (if nd_size a > 0 then rms (nd_data a) else 0)"

text \<open>The turn logic on the energy of a chunk.\<close>

definition on_energy :: "'w vad_env \<Rightarrow> bool \<Rightarrow> real \<Rightarrow> (vad \<times> 'w, unit) io" where
  "on_energy E is_speech r =
     bnd self (\<lambda>v.
     seq (if is_speech \<and> \<not> in_speech v
       then seq (on_self (\<lambda>v. v\<lparr>cur_turn := cur_turn v + 1\<rparr>))
         (if cur_turn v > 0 \<and> r \<ge> barge_in_energy_threshold v
          then bnd (cooled_down E) (\<lambda>ok. if ok
            then seq (cancel_turn E (cur_turn v))
              (bnd (lift_w (v_clock E)) (\<lambda>now. on_self (\<lambda>v. v\<lparr>last_cancel_at := Some now\<rparr>)))
            else ret ())
          else ret ())
       else ret ())
     (on_self (\<lambda>v. v\<lparr>in_speech := is_speech\<rparr>)))"

definition is_speech_chunk :: "vad \<Rightarrow> ndarray \<Rightarrow> bool" where
  "is_speech_chunk v a = (nd_size a > 0 \<and> chunk_rms a \<ge> energy_threshold v)"

definition stamp_chunk :: "vad \<Rightarrow> bool \<Rightarrow> ndarray \<Rightarrow> envelope \<Rightarrow> audio_chunk \<Rightarrow> message" where
  "stamp_chunk v is_speech a e c = AudioChunk (e\<lparr>drop_flag := \<not> is_speech, session_id := Some (vad_session v),
     turn_id := Some (cur_turn v)\<rparr>) (c\<lparr>samples := a\<rparr>)"

definition vad_process :: "'w vad_env \<Rightarrow> message \<Rightarrow> (vad \<times> 'w, message option) io" where
  "vad_process E m =
     (if msg_source (envelope_of m) = REFERENCE_SOURCE
      then bnd self (\<lambda>v. if aec_enabled v
        then bnd (audio_of m) (\<lambda>c. if nd_size (samples c) = 0 then ret None
          else bnd (lift_w (v_clock E)) (\<lambda>now.
            seq (on_self (\<lambda>v. v\<lparr>reference := rb_push (v_resample E) now (nd_data (samples c)) (sample_rate c) (reference v)\<rparr>))
              (ret None)))
        else ret None)
      else bnd (audio_of m) (\<lambda>c.
        bnd (clean_chunk E (samples c)) (\<lambda>a.
        bnd self (\<lambda>v.
        seq (on_energy E (is_speech_chunk v a) (chunk_rms a)) (
        bnd self (\<lambda>v'. ret (Some (stamp_chunk v' (is_speech_chunk v a) a (envelope_of m) c))))))))"

section \<open>Barge-in\<close>

text \<open>The world as the microphone chain sees it: a clock that does not run backwards, and the turns
  cancelled so far with the time of each cancellation.\<close>

record barge_world =
  now_at :: real
  cancelled :: "(int option \<times> real) list"

definition barge_env :: "(real list \<Rightarrow> int \<Rightarrow> int \<Rightarrow> real list) \<Rightarrow> barge_world vad_env" where
  "barge_env f = \<lparr>v_clock = (\<lambda>w. (Inr (now_at w), w)),
     v_send_control = (\<lambda>m w. (Inr (), w\<lparr>cancelled := cancelled w @ [(turn_id (envelope_of m), now_at w)]\<rparr>)),
     v_resample = f\<rparr>"

text \<open>What is kept: turns are counted from 0; every cancelled turn was an earlier one, no turn is
  cancelled twice, later cancellations name later turns; two cancellations are at least the
  cooldown apart; the last one is remembered.\<close>

definition spaced :: "real \<Rightarrow> (int option \<times> real) list \<Rightarrow> bool" where
  "spaced d cs \<longleftrightarrow> sorted_wrt (\<lambda>(a, s) (b, t). s + d \<le> t) cs"

definition cancelled_turns_of :: "barge_world \<Rightarrow> int list" where
  "cancelled_turns_of w = map (\<lambda>(t, _). the t) (cancelled w)"

definition barge_inv :: "vad \<times> barge_world \<Rightarrow> bool" where
  "barge_inv s \<longleftrightarrow> (case s of (v, w) \<Rightarrow>
     0 \<le> cur_turn v \<and> 0 \<le> barge_in_cooldown_sec v \<and>
     sorted_wrt (<) (cancelled_turns_of w @ [cur_turn v]) \<and> (\<forall>c \<in> set (cancelled w). \<exists>t. fst c = Some t \<and> 0 < t) \<and>
     spaced (barge_in_cooldown_sec v) (cancelled w) \<and>
     last_cancel_at v = (if cancelled w = [] then None else Some (snd (last (cancelled w)))) \<and>
     (\<forall>c \<in> set (cancelled w). snd c \<le> now_at w))"

text \<open>A step: time passes, or a message is processed.\<close>

inductive barge_step :: "(real list \<Rightarrow> int \<Rightarrow> int \<Rightarrow> real list) \<Rightarrow> vad \<times> barge_world \<Rightarrow> vad \<times> barge_world \<Rightarrow> bool" for f where
  bs_tick: "0 \<le> d \<Longrightarrow> barge_step f (v, w) (v, w\<lparr>now_at := now_at w + d\<rparr>)"
| bs_process: "vad_process (barge_env f) m s = (r, s') \<Longrightarrow> barge_step f s s'"

lemma clean_chunk_frame:
  "clean_chunk (barge_env f) a (v, w) = (r, (v', w')) \<Longrightarrow> w' = w \<and>
   cur_turn v' = cur_turn v \<and> in_speech v' = in_speech v \<and> last_cancel_at v' = last_cancel_at v \<and>
   barge_in_cooldown_sec v' = barge_in_cooldown_sec v \<and> energy_threshold v' = energy_threshold v \<and>
   barge_in_energy_threshold v' = barge_in_energy_threshold v \<and> vad_session v' = vad_session v"
  by (auto simp: clean_chunk_def barge_env_def bnd_def seq_def split: if_splits option.splits prod.splits sum.splits)

lemma on_energy_result:
  "on_energy (barge_env f) sp r (v, w) =
     (let onset = sp \<and> \<not> in_speech v; v1 = (if onset then v\<lparr>cur_turn := cur_turn v + 1\<rparr> else v);
          fire = onset \<and> cur_turn v > 0 \<and> r \<ge> barge_in_energy_threshold v \<and>
            (case last_cancel_at v of None \<Rightarrow> True | Some t \<Rightarrow> now_at w - t \<ge> barge_in_cooldown_sec v)
      in (Inr (), ((if fire then v1\<lparr>last_cancel_at := Some (now_at w)\<rparr> else v1)\<lparr>in_speech := sp\<rparr>,
            if fire then w\<lparr>cancelled := cancelled w @ [(Some (cur_turn v), now_at w)]\<rparr> else w)))"
  by (auto simp: on_energy_def cooled_down_def cancel_turn_def barge_env_def bnd_def seq_def Let_def split: option.splits)

lemma barge_inv_fire:
  assumes "barge_inv (v, w)" and "cur_turn v > 0"
    and "case last_cancel_at v of None \<Rightarrow> True | Some t \<Rightarrow> now_at w - t \<ge> barge_in_cooldown_sec v"
  shows "barge_inv (v\<lparr>cur_turn := cur_turn v + 1, last_cancel_at := Some (now_at w), in_speech := sp\<rparr>,
    w\<lparr>cancelled := cancelled w @ [(Some (cur_turn v), now_at w)]\<rparr>)"
proof -
  have "spaced (barge_in_cooldown_sec v) (cancelled w @ [(Some (cur_turn v), now_at w)])"
  proof (cases "cancelled w" rule: rev_cases)
    case (snoc cs c)
    have last: "snd c + barge_in_cooldown_sec v \<le> now_at w" "0 \<le> barge_in_cooldown_sec v"
      using assms(1,3) snoc by (simp_all add: barge_inv_def)
    have sp: "spaced (barge_in_cooldown_sec v) (cs @ [c])" using assms(1) snoc by (simp add: barge_inv_def)
    have "snd x + barge_in_cooldown_sec v \<le> now_at w" if "x \<in> set (cs @ [c])" for x
    proof (cases "x \<in> set cs")
      case True
      then have "snd x + barge_in_cooldown_sec v \<le> snd c"
        using sp by (auto simp: spaced_def sorted_wrt_append case_prod_beta)
      then show ?thesis using last by linarith
    next
      case False
      then show ?thesis using that last by simp
    qed
    then show ?thesis using sp snoc by (auto simp: spaced_def sorted_wrt_append case_prod_beta)
  qed (simp add: spaced_def)
  moreover have "sorted_wrt (<) (cancelled_turns_of (w\<lparr>cancelled := cancelled w @ [(Some (cur_turn v), now_at w)]\<rparr>) @ [cur_turn v + 1])"
    using assms(1) by (force simp: barge_inv_def cancelled_turns_of_def sorted_wrt_append)
  ultimately show ?thesis using assms(1,2) by (simp add: barge_inv_def)
qed

lemma barge_inv_tick: "barge_inv (v, w) \<Longrightarrow> 0 \<le> d \<Longrightarrow> barge_inv (v, w\<lparr>now_at := now_at w + d\<rparr>)"
  by (force simp: barge_inv_def cancelled_turns_of_def)

lemma barge_inv_quiet:
  assumes "barge_inv (v, w)"
  shows "barge_inv (v\<lparr>in_speech := sp\<rparr>, w)" "barge_inv (v\<lparr>cur_turn := cur_turn v + 1, in_speech := sp\<rparr>, w)"
  using assms by (auto simp: barge_inv_def sorted_wrt_append)

lemma barge_inv_energy:
  assumes "barge_inv (v, w)" and "on_energy (barge_env f) sp r (v, w) = (x, s')"
  shows "barge_inv s'"
  using assms barge_inv_fire [OF assms(1)] barge_inv_quiet [OF assms(1)]
  by (auto simp: on_energy_result Let_def split: if_splits)

lemma barge_inv_frame:
  "barge_inv (v, w) \<Longrightarrow> cur_turn v' = cur_turn v \<Longrightarrow> last_cancel_at v' = last_cancel_at v \<Longrightarrow>
   barge_in_cooldown_sec v' = barge_in_cooldown_sec v \<Longrightarrow> barge_inv (v', w)"
  by (simp add: barge_inv_def)

lemma barge_inv_process:
  assumes "barge_inv s" and "vad_process (barge_env f) m s = (r, s')"
  shows "barge_inv s'"
proof -
  obtain v w where s: "s = (v, w)" by (cases s)
  show ?thesis
  proof (cases "msg_source (envelope_of m) = REFERENCE_SOURCE")
    case True
    then show ?thesis using assms s
      by (cases m) (auto simp: vad_process_def audio_of_def barge_env_def bnd_def seq_def split: if_splits
          intro: barge_inv_frame)
  next
    case False
    show ?thesis
    proof (cases "\<exists>e c. m = AudioChunk e c")
      case True
      then obtain e c where m: "m = AudioChunk e c" by blast
      obtain x v1 w1 where cl: "clean_chunk (barge_env f) (samples c) (v, w) = (x, (v1, w1))"
        by (cases "clean_chunk (barge_env f) (samples c) (v, w)") auto
      note fr = clean_chunk_frame [OF cl]
      have inv1: "barge_inv (v1, w1)" using assms(1) s fr by (auto intro: barge_inv_frame)
      show ?thesis
      proof (cases x)
        case (Inl er)
        then show ?thesis using assms(2) s False m cl inv1
          by (simp add: vad_process_def audio_of_def bnd_def)
      next
        case (Inr a)
        obtain y s2 where en: "on_energy (barge_env f) (is_speech_chunk v1 a) (chunk_rms a) (v1, w1) = (y, s2)"
          by (cases "on_energy (barge_env f) (is_speech_chunk v1 a) (chunk_rms a) (v1, w1)")
        have "barge_inv s2" using barge_inv_energy [OF inv1 en] .
        moreover have "s' = s2" using assms(2) s False m cl Inr en
          by (cases s2) (auto simp: vad_process_def audio_of_def bnd_def seq_def split: sum.splits)
        ultimately show ?thesis by simp
      qed
    next
      case False
      then show ?thesis using assms s \<open>msg_source (envelope_of m) \<noteq> REFERENCE_SOURCE\<close>
        by (cases m) (auto simp: vad_process_def audio_of_def bnd_def)
    qed
  qed
qed

definition barge_start :: "vad \<times> barge_world \<Rightarrow> bool" where
  "barge_start s \<longleftrightarrow> cur_turn (fst s) = 0 \<and> 0 \<le> barge_in_cooldown_sec (fst s) \<and> last_cancel_at (fst s) = None \<and>
     cancelled (snd s) = []"

inductive_cases barge_stepE: "barge_step f s s'"

interpretation barge: invariant_system barge_start "barge_step f" barge_inv for f
proof unfold_locales
  fix s t assume "barge_inv s" "barge_step f s t"
  then show "barge_inv t"
    by (elim barge_stepE) (auto intro: barge_inv_tick dest: barge_inv_process)
qed (auto simp: barge_start_def barge_inv_def spaced_def cancelled_turns_of_def)

text \<open>C32: Barge-in cancels are safe and bounded: over any run of microphone chunks, reference chunks
  and passing time, only turns that were already begun and are over are cancelled, each at most
  once and in order, never the turn being spoken, and two cancellations are at least the cooldown
  apart.\<close>

theorem barge_in_spaced:
  assumes "cur_turn v = 0" and "0 \<le> barge_in_cooldown_sec v" and "last_cancel_at v = None" and "cancelled w = []"
    and "(barge_step f)\<^sup>*\<^sup>* (v, w) (v', w')"
  shows "sorted_wrt (<) (cancelled_turns_of w' @ [cur_turn v']) \<and> (\<forall>c \<in> set (cancelled w'). \<exists>t. fst c = Some t \<and> 0 < t) \<and>
    spaced (barge_in_cooldown_sec v') (cancelled w')"
proof -
  have "barge_inv (v, w)" by (rule barge.inv_init) (simp add: barge_start_def assms)
  from barge.steps_inv [OF assms(5) this] show ?thesis by (simp add: barge_inv_def)
qed

text \<open>Loud, quiet, loud again three seconds later.\<close>

definition mic_chunk :: "real \<Rightarrow> message" where
  "mic_chunk x = AudioChunk (new_envelope 0) \<lparr>samples = line [x], sample_rate = 16000, channels = 1\<rparr>"

lemma vad_mic:
  assumes "\<not> aec_enabled v"
  shows "\<exists>r. vad_process E (mic_chunk x) (v, w) = (case on_energy E (is_speech_chunk v (line [x])) (chunk_rms (line [x])) (v, w) of
     (Inl e, s) \<Rightarrow> (Inl e, s) | (Inr _, s) \<Rightarrow> (Inr (r s), s))"
proof -
  have "REFERENCE_SOURCE \<noteq> []" by (simp add: REFERENCE_SOURCE_def)
  then have "vad_process E (mic_chunk x) (v, w) = (case on_energy E (is_speech_chunk v (line [x])) (chunk_rms (line [x])) (v, w) of
     (Inl e, s) \<Rightarrow> (Inl e, s) | (Inr _, s) \<Rightarrow> (Inr (Some (stamp_chunk (fst s) (is_speech_chunk v (line [x])) (line [x])
        (new_envelope 0) \<lparr>samples = line [x], sample_rate = 16000, channels = 1\<rparr>)), s))"
    using assms by (auto simp: vad_process_def mic_chunk_def new_envelope_def audio_of_def clean_chunk_def bnd_def seq_def
        split: prod.splits sum.splits)
  then show ?thesis by (intro exI [of _ "\<lambda>s. Some (stamp_chunk (fst s) (is_speech_chunk v (line [x])) (line [x])
        (new_envelope 0) \<lparr>samples = line [x], sample_rate = 16000, channels = 1\<rparr>)"]) simp
qed

lemma mic_step:
  assumes "\<not> aec_enabled v" and "on_energy (barge_env f) (is_speech_chunk v (line [x])) (chunk_rms (line [x])) (v, w) = (Inr (), s)"
  shows "barge_step f (v, w) s"
proof -
  obtain r where "vad_process (barge_env f) (mic_chunk x) (v, w) = (Inr (r s), s)"
    using vad_mic [OF assms(1), of "barge_env f" x w] assms(2) by auto
  then show ?thesis by (rule bs_process)
qed

lemma loudness: "chunk_rms (line [1]) = 1" "chunk_rms (line [0]) = 0" "nd_size (line [x]) = 1"
  by (simp_all add: chunk_rms_def nd_size_def line_def rms_def)

theorem barge_in_spaced_witness:
  "\<exists>v v' w'. vad_from_config \<lparr>vc_energy_threshold = None, vc_session_id = None, vc_barge_in_energy_threshold = None,
      vc_barge_in_cooldown_sec = None, vc_aec_enabled = None, vc_aec_filter_length = None, vc_aec_step_size = None,
      vc_mic_sample_rate = None\<rparr> = Inr v \<and>
    (barge_step (\<lambda>xs _ _. xs))\<^sup>*\<^sup>* (v, \<lparr>now_at = 0, cancelled = []\<rparr>) (v', w') \<and> cancelled w' = [(Some 1, 3)] \<and>
    cur_turn v' = 2 \<and> spaced (barge_in_cooldown_sec v') (cancelled w')"
proof -
  let ?c = "\<lparr>vc_energy_threshold = None, vc_session_id = None, vc_barge_in_energy_threshold = None,
      vc_barge_in_cooldown_sec = None, vc_aec_enabled = None, vc_aec_filter_length = None, vc_aec_step_size = None,
      vc_mic_sample_rate = None\<rparr>"
  let ?st = "barge_step (\<lambda>xs _ _. xs)"
  obtain v where v: "vad_from_config ?c = Inr v" "energy_threshold v = 1/100" "barge_in_energy_threshold v = 1/100"
    "barge_in_cooldown_sec v = 3/2" "cur_turn v = 0" "\<not> in_speech v" "last_cancel_at v = None" "\<not> aec_enabled v"
    by (simp add: vad_from_config_def new_vad_def new_canceller_def or_default_def)
  let ?v1 = "v\<lparr>cur_turn := 1, in_speech := True\<rparr>"
  let ?v2 = "v\<lparr>cur_turn := 1, in_speech := False\<rparr>"
  let ?v3 = "v\<lparr>cur_turn := 2, in_speech := True, last_cancel_at := Some 3\<rparr>"
  let ?w0 = "\<lparr>now_at = 0, cancelled = []\<rparr>" and ?w1 = "\<lparr>now_at = 3, cancelled = []\<rparr>"
  let ?w2 = "\<lparr>now_at = 3, cancelled = [(Some 1, 3)]\<rparr>"
  have 1: "?st (v, ?w0) (?v1, ?w0)"
    by (rule mic_step [where x = 1]) (simp_all add: v on_energy_result is_speech_chunk_def loudness Let_def)
  have 2: "?st (?v1, ?w0) (?v2, ?w0)"
    by (rule mic_step [where x = 0]) (simp_all add: v on_energy_result is_speech_chunk_def loudness Let_def)
  have 3: "?st (?v2, ?w0) (?v2, ?w1)"
    using bs_tick [of 3 "\<lambda>xs _ _. xs" ?v2 ?w0] by simp
  have 4: "?st (?v2, ?w1) (?v3, ?w2)"
    by (rule mic_step [where x = 1]) (simp_all add: v on_energy_result is_speech_chunk_def loudness Let_def)
  have run: "?st\<^sup>*\<^sup>* (v, ?w0) (?v3, ?w2)"
    using 1 2 3 4 by (meson converse_rtranclp_into_rtranclp rtranclp.rtrancl_refl)
  have "0 \<le> barge_in_cooldown_sec v" "cancelled ?w0 = []" by (simp_all add: v)
  from barge_in_spaced [OF v(5) this(1) v(7) this(2) run] v(1) run show ?thesis by fastforce
qed

end
