(* ===== verification/Detect_Ops.thy ===== *)
theory Detect_Ops
  imports Prelude "HOL-Library.Multiset" "HOL-Library.Sublist"
begin

text \<open>
  \<^verbatim>\<open>neudc/nn/models/op.py\<close>: the geometry shared by the detectors: the tiles of a sliced image,
  the letterbox, the intersection over union, non-maximum suppression and the decoding of a
  YOLO output. Array elements are reals; \<^verbatim>\<open>numpy.argsort\<close>, whose order of equal scores is not
  specified, and OpenCV's resizing are arguments.
\<close>

section \<open>Tiles\<close>

text \<open>The start positions along one axis; a tile as large as its overlap has step 0, and the
  division by it raises.\<close>

definition tile_starts :: "int \<Rightarrow> int \<Rightarrow> int \<Rightarrow> exn + int list" where
  "tile_starts img crop overlap =
     (let stp = crop - overlap in
      if \<not> img \<le> crop \<and> stp = 0 then Inl (OtherException ''ZeroDivisionError'')
      else let n = (if img \<le> crop then 1 else (img - crop + stp - 1) div stp + 1);
               base = map (\<lambda>k. k * stp) [0..n - 1]
           in Inr (if img > crop \<and> n > 1 then base[length base - 1 := img - crop] else base))"

text \<open>\<^verbatim>\<open>meshgrid2d_ij(x, y)\<close>: \<open>x\<close> along the rows, \<open>y\<close> along the columns.\<close>

definition meshgrid2d_ij :: "'a list \<Rightarrow> 'b list \<Rightarrow> 'a list list \<times> 'b list list" where
  "meshgrid2d_ij xs ys = (map (\<lambda>x. map (\<lambda>_. x) ys) xs, map (\<lambda>_. ys) xs)"

text \<open>The four flat arrays \<^verbatim>\<open>y1, x1, y2, x2\<close>; sizes are (height, width).\<close>

definition calculate_slices_coordinates :: "int \<times> int \<Rightarrow> int \<times> int \<Rightarrow> int \<times> int \<Rightarrow>
    exn + (int list \<times> int list \<times> int list \<times> int list)" where
  "calculate_slices_coordinates imgsz crop_size crop_overlap =
     (case (imgsz, crop_size, crop_overlap) of ((img_h, img_w), (crop_h, crop_w), (overlap_h, overlap_w)) \<Rightarrow>
       case (tile_starts img_h crop_h overlap_h, tile_starts img_w crop_w overlap_w) of
         (Inl e, _) \<Rightarrow> Inl e
       | (Inr _, Inl e) \<Rightarrow> Inl e
       | (Inr ys, Inr xs) \<Rightarrow>
           (case meshgrid2d_ij ys xs of (y1_grid, x1_grid) \<Rightarrow>
             let y1 = concat y1_grid; x1 = concat x1_grid in
             Inr (y1, x1, map (\<lambda>y. min (y + crop_h) img_h) y1, map (\<lambda>x. min (x + crop_w) img_w) x1)))"

text \<open>The tiles as \<^verbatim>\<open>zip\<close> reads them.\<close>

definition tiles :: "int list \<times> int list \<times> int list \<times> int list \<Rightarrow> (int \<times> int \<times> int \<times> int) list" where
  "tiles s = (case s of (y1, x1, y2, x2) \<Rightarrow> zip y1 (zip x1 (zip y2 x2)))"

section \<open>The letterbox\<close>

text \<open>Python's \<^verbatim>\<open>round\<close>: to the nearest integer, halves to the even one.\<close>

definition py_round :: "real \<Rightarrow> int" where
  "py_round x = (let n = \<lfloor>x\<rfloor>; d = x - of_int n in
     if d < 1/2 then n else if d > 1/2 then n + 1 else if even n then n else n + 1)"

record letterbox_params =
  lb_ratio :: "real \<times> real"
  lb_unpad :: "int \<times> int"
  lb_dh :: real
  lb_dw :: real

definition compute_letterbox_params :: "int \<times> int \<Rightarrow> int \<times> int \<Rightarrow> bool \<Rightarrow> bool \<Rightarrow> bool \<Rightarrow> int \<Rightarrow> letterbox_params" where
  "compute_letterbox_params shape new_shape auto scale_fill scaleup stride =
     (let (h, w) = shape; (nh, nw) = new_shape;
          r0 = min (of_int nh / of_int h) (of_int nw / of_int w);
          r = (if \<not> scaleup then min r0 1 else r0);
          (uh, uw) = (py_round (of_int h * r), py_round (of_int w * r));
          dw = nw - uw; dh = nh - uh;
          (ratio, unpad, dh', dw') =
            (if auto then ((r, r), (uh, uw), dh mod stride, dw mod stride)
             else if scale_fill then ((of_int nh / of_int h, of_int nw / of_int w), (nh, nw), 0, 0)
             else ((r, r), (uh, uw), dh, dw))
      in \<lparr>lb_ratio = ratio, lb_unpad = unpad, lb_dh = of_int dh' / 2, lb_dw = of_int dw' / 2\<rparr>)"

record borders =
  b_top :: int
  b_bottom :: int
  b_left :: int
  b_right :: int

definition letterbox_borders :: "letterbox_params \<Rightarrow> borders" where
  "letterbox_borders p = \<lparr>b_top = py_round (lb_dh p - 1/10), b_bottom = py_round (lb_dh p + 1/10),
     b_left = py_round (lb_dw p - 1/10), b_right = py_round (lb_dw p + 1/10)\<rparr>"

text \<open>\<^verbatim>\<open>letterbox\<close>; resizing and padding an image are arguments. The parameters returned are
  \<^verbatim>\<open>[ratio_y, ratio_x, dh, dw]\<close>.\<close>

definition letterbox :: "('i \<Rightarrow> int \<times> int) \<Rightarrow> ('i \<Rightarrow> int \<times> int \<Rightarrow> 'i) \<Rightarrow> ('i \<Rightarrow> borders \<Rightarrow> 'i) \<Rightarrow> 'i \<Rightarrow>
    int \<times> int \<Rightarrow> bool \<Rightarrow> bool \<Rightarrow> bool \<Rightarrow> int \<Rightarrow> 'i \<times> real list" where
  "letterbox shape_of resize copy_border im new_shape auto scale_fill scaleup stride =
     (let p = compute_letterbox_params (shape_of im) new_shape auto scale_fill scaleup stride;
          im1 = (if shape_of im \<noteq> lb_unpad p then resize im (lb_unpad p) else im)
      in (copy_border im1 (letterbox_borders p), [fst (lb_ratio p), snd (lb_ratio p), lb_dh p, lb_dw p]))"

section \<open>Boxes\<close>

type_synonym xyxy = "real \<times> real \<times> real \<times> real"

text \<open>The areas of \<^verbatim>\<open>compute_iou\<close> and their ratio; where the union is 0 NumPy divides to a
  not-a-number or an infinity, here None.\<close>

fun inter_area :: "xyxy \<Rightarrow> xyxy \<Rightarrow> real" where
  "inter_area (ax1, ay1, ax2, ay2) (bx1, by1, bx2, by2) =
     max 0 (min ax2 bx2 - max ax1 bx1) * max 0 (min ay2 by2 - max ay1 by1)"

fun box_area :: "xyxy \<Rightarrow> real" where
  "box_area (x1, y1, x2, y2) = (x2 - x1) * (y2 - y1)"

definition compute_iou :: "xyxy \<Rightarrow> xyxy list \<Rightarrow> real option list" where
  "compute_iou b bs = map (\<lambda>c. let i = inter_area b c; u = box_area b + box_area c - i in
     if u = 0 then None else Some (i / u)) bs"

text \<open>\<^verbatim>\<open>iou_bbox < iou\<close>, which neither a not-a-number nor an infinity satisfies.\<close>

definition iou_below :: "real \<Rightarrow> real option \<Rightarrow> bool" where
  "iou_below iou v = (case v of None \<Rightarrow> False | Some x \<Rightarrow> x < iou)"

text \<open>The loop of \<^verbatim>\<open>apply_nms\<close> over the remaining indices.\<close>

function nms_loop :: "real \<Rightarrow> int \<Rightarrow> xyxy list \<Rightarrow> nat list \<Rightarrow> nat list \<Rightarrow> nat list" where
  "nms_loop iou max_det bs keep [] = keep"
| "nms_loop iou max_det bs keep (current # others) =
     (let keep' = keep @ [current] in
      if others = [] then keep'
      else let ious = compute_iou (bs ! current) (map (\<lambda>j. bs ! j) others);
               rest = map fst (filter (\<lambda>(j, v). iou_below iou v) (zip others ious))
           in if int (length keep') \<ge> max_det then keep' else nms_loop iou max_det bs keep' rest)"
  by pat_completeness auto
termination
proof (relation "measure (\<lambda>(iou, max_det, bs, keep, inds). length inds)", simp)
  fix iou :: real and max_det :: int and bs :: "xyxy list" and keep :: "nat list" and cur :: nat
    and others k :: "nat list" and x and rest
  assume "rest = map fst (filter (\<lambda>(j, v). iou_below iou v) (zip others x))"
  then show "((iou, max_det, bs, k, rest), iou, max_det, bs, keep, cur # others)
      \<in> measure (\<lambda>(iou, max_det, bs, keep, inds). length inds)"
    by (simp add: less_Suc_eq_le length_filter_le [THEN le_trans])
qed

definition apply_nms :: "(real list \<Rightarrow> nat list) \<Rightarrow> xyxy list \<Rightarrow> real list \<Rightarrow> real \<Rightarrow> int \<Rightarrow> nat list" where
  "apply_nms argsort bs scores iou max_det = nms_loop iou max_det bs [] (rev (argsort scores))"

section \<open>Decoding\<close>

record detection =
  d_box :: xyxy
  d_score :: real
  d_class :: nat

text \<open>\<^verbatim>\<open>predictions\<close> is given by its rows: four of box coordinates, then one a class.\<close>

definition positions :: "real \<Rightarrow> real list list \<Rightarrow> (nat \<times> nat) list" where
  "positions conf rows = concat (map (\<lambda>(px, row). map (\<lambda>(py, _). (px, py)) (filter (\<lambda>(py, s). s \<ge> conf) (enumerate 0 row)))
     (enumerate 0 rows))"

definition decode_output :: "real list list \<Rightarrow> real \<Rightarrow> real \<times> real \<Rightarrow> real \<times> real \<Rightarrow> detection list" where
  "decode_output predictions conf ratio pad =
     (case (ratio, pad) of ((rw, rh), (dw, dh)) \<Rightarrow>
      map (\<lambda>(px, py).
        let bx = predictions ! 0 ! py; by' = predictions ! 1 ! py;
            bw = predictions ! 2 ! py / 2; bh = predictions ! 3 ! py / 2
        in \<lparr>d_box = ((bx - bw - dw) / rw, (by' - bh - dh) / rh, (bx + bw - dw) / rw, (by' + bh - dh) / rh),
            d_score = predictions ! (4 + px) ! py, d_class = px\<rparr>)
      (positions conf (drop 4 predictions)))"

definition postprocess_yolo_outputs :: "(real list \<Rightarrow> nat list) \<Rightarrow> real list list \<Rightarrow> real \<Rightarrow> real \<Rightarrow> int \<Rightarrow>
    real \<times> real \<Rightarrow> real \<times> real \<Rightarrow> detection list" where
  "postprocess_yolo_outputs argsort predictions conf iou max_det ratio pad =
     (let all_dets = decode_output predictions conf ratio pad;
          keep_indices = apply_nms argsort (map d_box all_dets) (map d_score all_dets) iou max_det
      in map (\<lambda>i. all_dets ! i) keep_indices)"

section \<open>One axis\<close>

lemma map_upto_last:
  fixes n :: int
  assumes "n > 1"
  shows "(map f [0..n - 1])[length (map f [0..n - 1]) - 1 := v] = map f [0..n - 2] @ [v]"
proof -
  have "[0..n - 1] = [0..n - 2] @ [n - 1]"
    using assms upto_rec2 [of 0 "n - 1"] by simp
  then show ?thesis by (simp add: list_update_append)
qed

text \<open>The tiles of an axis stay inside it, are as long as the crop where the axis is, and leave no
  window that the overlap should catch to fall between two tiles.\<close>

lemma tile_starts_cover:
  assumes "0 < img" and "0 \<le> overlap" and "overlap < crop"
  shows "\<exists>ps. tile_starts img crop overlap = Inr ps \<and>
    (\<forall>p \<in> set ps. 0 \<le> p \<and> min (p + crop) img = p + min crop img) \<and>
    (\<forall>a b. 0 \<le> a \<and> a \<le> b \<and> b \<le> img \<and> b - a \<le> overlap + 1 \<longrightarrow> (\<exists>p \<in> set ps. p \<le> a \<and> b \<le> min (p + crop) img))"
proof (cases "img \<le> crop")
  case True
  then have "tile_starts img crop overlap = Inr [0]"
    by (simp add: tile_starts_def Let_def)
  then show ?thesis using True assms by auto
next
  case False
  define stp where "stp = crop - overlap"
  define n where "n = (img - crop + stp - 1) div stp + 1"
  have stp: "0 < stp" and gap: "0 < img - crop" using assms False by (simp_all add: stp_def)
  have n: "n > 1"
  proof -
    have "1 = stp div stp" using stp by simp
    also have "\<dots> \<le> (img - crop + stp - 1) div stp" using gap stp by (intro zdiv_mono1) auto
    finally show ?thesis by (simp add: n_def)
  qed
  have "stp * ((img - crop + stp - 1) div stp) \<le> img - crop + stp - 1"
    using stp by (metis mult_div_mod_eq pos_mod_sign add_le_same_cancel1 le_add_same_cancel1)
  then have last: "(n - 2) * stp \<le> img - crop - 1"
    by (simp add: n_def algebra_simps)
  have ts: "tile_starts img crop overlap = Inr (map (\<lambda>k. k * stp) [0..n - 2] @ [img - crop])"
    using False n stp map_upto_last [OF n, of "\<lambda>k. k * stp" "img - crop"]
    by (simp add: tile_starts_def Let_def stp_def [symmetric] n_def [symmetric])
  have inside: "k * stp + crop \<le> img - 1" if "k \<le> n - 2" for k
  proof -
    have "k * stp \<le> (n - 2) * stp" using that stp by (intro mult_right_mono) auto
    then show ?thesis using last by linarith
  qed
  have "\<exists>p \<in> set (map (\<lambda>k. k * stp) [0..n - 2] @ [img - crop]). p \<le> a \<and> b \<le> min (p + crop) img"
    if w: "0 \<le> a" "a \<le> b" "b \<le> img" "b - a \<le> overlap + 1" for a b
  proof (cases "img - crop \<le> a")
    case True
    then show ?thesis using w by auto
  next
    case a: False
    let ?k = "a div stp"
    have 0: "0 \<le> ?k" using w(1) stp by (simp add: pos_imp_zdiv_nonneg_iff)
    have m: "?k * stp \<le> a" "a - ?k * stp \<le> stp - 1"
      using stp pos_mod_bound [OF stp, of a] pos_mod_sign [OF stp, of a] by (simp_all add: minus_div_mult_eq_mod [symmetric])
    have "?k \<le> (img - crop - 1) div stp" using a stp by (intro zdiv_mono1) auto
    also have "\<dots> = n - 2" using stp div_add_self2 [of stp "img - crop - 1"] by (simp add: n_def algebra_simps)
    finally have k: "?k \<le> n - 2" .
    have "b \<le> ?k * stp + crop" using m w(4) by (simp add: stp_def)
    then have "?k * stp \<in> set (map (\<lambda>k. k * stp) [0..n - 2])" "b \<le> min (?k * stp + crop) img"
      using 0 k w(3) by auto
    then show ?thesis using m(1) by fastforce
  qed
  moreover have "0 \<le> p \<and> min (p + crop) img = p + min crop img"
    if "p \<in> set (map (\<lambda>k. k * stp) [0..n - 2] @ [img - crop])" for p
    using that gap stp False inside by fastforce
  ultimately show ?thesis using ts by blast
qed

section \<open>The plane\<close>

lemma zip_grid: "zip (concat (map (\<lambda>x. map (\<lambda>_. x) ys) xs)) (concat (map (\<lambda>_. ys) xs)) = List.product xs ys"
proof (induction xs)
  case (Cons x xs)
  have "zip (map (\<lambda>_. x) ys) ys = map (Pair x) ys" by (induction ys) auto
  then show ?case using Cons by (simp add: zip_append)
qed simp

lemma zip_map_pair: "zip y1 (zip x1 (zip (map f y1) (map g x1))) = map (\<lambda>(y, x). (y, x, f y, g x)) (zip y1 x1)"
  by (induction y1 arbitrary: x1) (auto split: list.split simp: zip_Cons1 split: list.splits)

lemma tiles_grid:
  assumes "tile_starts ih ch ov = Inr ys" and "tile_starts iw cw ow = Inr xs"
  shows "\<exists>s. calculate_slices_coordinates (ih, iw) (ch, cw) (ov, ow) = Inr s \<and>
    tiles s = map (\<lambda>(y, x). (y, x, min (y + ch) ih, min (x + cw) iw)) (List.product ys xs)"
  using assms by (simp add: calculate_slices_coordinates_def meshgrid2d_ij_def tiles_def Let_def zip_map_pair zip_grid)

section \<open>Rounding\<close>

lemma py_round_le: "x \<le> of_int n \<Longrightarrow> py_round x \<le> n"
proof -
  assume a: "x \<le> of_int n"
  show ?thesis
  proof (cases "\<lfloor>x\<rfloor> < n")
    case True
    then show ?thesis by (simp add: py_round_def Let_def)
  next
    case False
    with a have "x = of_int n" by (meson floor_le_iff le_floor_iff linorder_not_less order_antisym of_int_floor_le order_trans less_eq_real_def not_less)
    then show ?thesis by (simp add: py_round_def Let_def)
  qed
qed

lemma py_round_nonneg: "- (1/2) \<le> x \<Longrightarrow> 0 \<le> py_round x"
proof -
  assume a: "- (1/2) \<le> x"
  show ?thesis
  proof (cases "0 \<le> \<lfloor>x\<rfloor>")
    case True
    then show ?thesis by (simp add: py_round_def Let_def)
  next
    case False
    with a have "\<lfloor>x\<rfloor> = -1" by linarith
    then show ?thesis using a by (simp add: py_round_def Let_def)
  qed
qed

text \<open>The two sides of a border of total width \<open>d\<close>.\<close>

lemma py_round_halves:
  "py_round (of_int d / 2 - 1/10) + py_round (of_int d / 2 + 1/10) = d"
proof (cases "even d")
  case True
  then obtain k where d: "d = 2 * k" by blast
  have "\<lfloor>real_of_int k - 1/10\<rfloor> = k - 1" "\<lfloor>real_of_int k + 1/10\<rfloor> = k" by linarith+
  then show ?thesis by (simp add: d py_round_def Let_def)
next
  case False
  then obtain k where d: "d = 2 * k + 1" by (rule oddE)
  have e: "real_of_int d / 2 - 1/10 = k + 4/10" "real_of_int d / 2 + 1/10 = k + 6/10" by (simp_all add: d field_simps)
  have "\<lfloor>real_of_int k + 4/10\<rfloor> = k" "\<lfloor>real_of_int k + 6/10\<rfloor> = k" by linarith+
  then show ?thesis unfolding e by (simp add: d py_round_def Let_def)
qed

lemma py_round_half_nonneg: "0 \<le> d \<Longrightarrow> 0 \<le> py_round (of_int d / 2 - 1/10) \<and> 0 \<le> py_round (of_int d / 2 + 1/10)"
  by (auto intro!: py_round_nonneg)

section \<open>Non-maximum suppression\<close>

text \<open>The reference: a box in the order of decreasing score is kept when it is below the
  threshold against every box kept so far.\<close>

definition compatible :: "real \<Rightarrow> xyxy list \<Rightarrow> nat \<Rightarrow> nat \<Rightarrow> bool" where
  "compatible iou bs k i = iou_below iou (hd (compute_iou (bs ! k) [bs ! i]))"

definition greedy_step :: "real \<Rightarrow> xyxy list \<Rightarrow> nat \<Rightarrow> nat list \<Rightarrow> nat list" where
  "greedy_step iou bs i keep = (if \<forall>k \<in> set keep. compatible iou bs k i then keep @ [i] else keep)"

definition greedy_nms :: "real \<Rightarrow> xyxy list \<Rightarrow> nat list \<Rightarrow> nat list" where
  "greedy_nms iou bs order = fold (greedy_step iou bs) order []"

lemma nms_rest:
  "map fst (filter (\<lambda>(j, v). iou_below iou v) (zip js (compute_iou (bs ! c) (map (\<lambda>j. bs ! j) js)))) =
     filter (compatible iou bs c) js"
  by (induction js) (simp_all add: compute_iou_def compatible_def Let_def)

lemma greedy_extends: "\<exists>more. fold (greedy_step iou bs) order keep = keep @ more"
proof (induction order arbitrary: keep)
  case (Cons i order)
  show ?case using Cons [of "greedy_step iou bs i keep"] by (auto simp: greedy_step_def split: if_splits)
qed simp

text \<open>A box that a kept one suppresses may be dropped from the candidates at once.\<close>

lemma greedy_filter:
  "c \<in> set keep \<Longrightarrow> fold (greedy_step iou bs) js keep = fold (greedy_step iou bs) (filter (compatible iou bs c) js) keep"
proof (induction js arbitrary: keep)
  case (Cons j js)
  show ?case
  proof (cases "compatible iou bs c j")
    case True
    have "c \<in> set (greedy_step iou bs j keep)" using Cons.prems by (simp add: greedy_step_def)
    then show ?thesis using Cons.IH True by simp
  next
    case False
    then have "greedy_step iou bs j keep = keep" using Cons.prems by (auto simp: greedy_step_def)
    then show ?thesis using Cons False by simp
  qed
qed simp

lemma take_extends: "length keep = n \<Longrightarrow> take n (fold (greedy_step iou bs) js keep) = keep"
  using greedy_extends [of iou bs js keep] by auto

lemma nms_loop_greedy:
  assumes "\<forall>k \<in> set keep. \<forall>i \<in> set js. compatible iou bs k i" and "length keep < nat (max 1 max_det)"
  shows "nms_loop iou max_det bs keep js = take (nat (max 1 max_det)) (fold (greedy_step iou bs) js keep)"
  using assms
proof (induction iou max_det bs keep js rule: nms_loop.induct)
  case (2 iou max_det bs keep c others)
  let ?k = "keep @ [c]" and ?r = "filter (compatible iou bs c) others" and ?n = "nat (max 1 max_det)"
  have step: "greedy_step iou bs c keep = ?k" using 2(2) by (simp add: greedy_step_def)
  have f: "fold (greedy_step iou bs) (c # others) keep = fold (greedy_step iou bs) ?r ?k"
    using greedy_filter [of c ?k iou bs others] step by simp
  show ?case
  proof (cases "others = [] \<or> int (length ?k) \<ge> max_det")
    case True
    have "take ?n (fold (greedy_step iou bs) ?r ?k) = ?k"
    proof (cases "others = []")
      case False
      with True 2(3) have "length ?k = ?n" by auto
      then show ?thesis by (rule take_extends)
    qed (use 2(3) in auto)
    then show ?thesis using True f by (auto simp: Let_def)
  next
    case False
    have "nms_loop iou max_det bs ?k ?r = take ?n (fold (greedy_step iou bs) ?r ?k)"
    proof (rule 2(1) [OF refl, unfolded nms_rest])
      show "\<forall>k \<in> set ?k. \<forall>i \<in> set ?r. compatible iou bs k i" using 2(2) by auto
      show "length ?k < ?n" using False by auto
    qed (use False in \<open>auto simp: nms_rest\<close>)
    then show ?thesis using False f by (simp add: Let_def nms_rest)
  qed
qed auto

lemma greedy_in_order: "subseq (fold (greedy_step iou bs) order keep) (keep @ order)"
proof (induction order arbitrary: keep)
  case (Cons i order)
  show ?case using Cons [of "greedy_step iou bs i keep"]
    by (auto simp: greedy_step_def split: if_splits intro: subseq_order.trans [OF _ list_emb_append_mono])
qed simp

text \<open>Of two kept boxes the later one is below the threshold against the earlier; a box that is
  not kept is suppressed by one kept before it.\<close>

lemma greedy_pairwise:
  "sorted_wrt (compatible iou bs) keep \<Longrightarrow> sorted_wrt (compatible iou bs) (fold (greedy_step iou bs) order keep)"
  by (induction order arbitrary: keep) (auto simp: greedy_step_def sorted_wrt_append)

lemma greedy_covers:
  assumes "i \<in> set order"
  shows "i \<in> set (fold (greedy_step iou bs) order keep) \<or>
    (\<exists>k \<in> set (fold (greedy_step iou bs) order keep). (k \<in> set keep \<or> k \<in> set (takeWhile (\<lambda>j. j \<noteq> i) order)) \<and> \<not> compatible iou bs k i)"
  using assms
proof (induction order arbitrary: keep)
  case (Cons j order)
  let ?k = "greedy_step iou bs j keep" and ?f = "fold (greedy_step iou bs) (j # order) keep"
  obtain more where m: "?f = ?k @ more" using greedy_extends [of iou bs order ?k] by auto
  show ?case
  proof (cases "j = i")
    case True
    then have "i \<in> set ?k \<or> (\<exists>k \<in> set keep. k \<in> set ?k \<and> \<not> compatible iou bs k i)" by (auto simp: greedy_step_def)
    then show ?thesis using m by auto
  next
    case False
    then have "i \<in> set order" using Cons.prems by simp
    note IH = Cons.IH [OF this, of ?k]
    have "set ?k \<subseteq> insert j (set keep)" by (auto simp: greedy_step_def)
    then show ?thesis using IH False by auto
  qed
qed simp

text \<open>What NumPy documents of \<^verbatim>\<open>argsort\<close>: a permutation of the indices that sorts the values.\<close>

definition argsort_ok :: "(real list \<Rightarrow> nat list) \<Rightarrow> bool" where
  "argsort_ok argsort \<longleftrightarrow> (\<forall>xs. mset (argsort xs) = mset [0..<length xs] \<and> sorted (map (\<lambda>i. xs ! i) (argsort xs)))"

definition stable_argsort :: "real list \<Rightarrow> nat list" where
  "stable_argsort xs = sort_key (\<lambda>i. xs ! i) [0..<length xs]"

lemma stable_argsort_ok: "argsort_ok stable_argsort"
  by (simp add: argsort_ok_def stable_argsort_def)

lemma argsort_descending:
  assumes "argsort_ok argsort"
  shows "set (rev (argsort xs)) = {..<length xs}" and "distinct (rev (argsort xs))"
    and "sorted_wrt (\<lambda>i j. xs ! j \<le> xs ! i) (rev (argsort xs))"
proof -
  have m: "mset (argsort xs) = mset [0..<length xs]" and s: "sorted (map (\<lambda>i. xs ! i) (argsort xs))"
    using assms by (simp_all add: argsort_ok_def)
  show "set (rev (argsort xs)) = {..<length xs}" using arg_cong [OF m, of set_mset] by (simp add: atLeast0LessThan)
  show "distinct (rev (argsort xs))" using mset_eq_imp_distinct_iff [OF m] by simp
  show "sorted_wrt (\<lambda>i j. xs ! j \<le> xs ! i) (rev (argsort xs))" using s by (simp add: sorted_wrt_rev sorted_map)
qed

lemma before_in_sorted:
  "sorted_wrt R xs \<Longrightarrow> i \<in> set xs \<Longrightarrow> k \<in> set (takeWhile (\<lambda>j. j \<noteq> i) xs) \<Longrightarrow> R k i"
  by (induction xs) (auto split: if_splits)

lemma sorted_wrt_subseq: "subseq ys xs \<Longrightarrow> sorted_wrt R xs \<Longrightarrow> sorted_wrt R ys"
proof (induction rule: list_emb.induct)
  case (list_emb_Cons2 x y xs ys)
  then show ?case by (auto elim: list_emb_set)
qed simp_all

lemma sorted_wrt_conj: "sorted_wrt P xs \<Longrightarrow> sorted_wrt Q xs \<Longrightarrow> sorted_wrt (\<lambda>i j. P i j \<and> Q i j) xs"
  by (induction xs) auto

lemma distinct_sorted_wrt: "distinct xs \<longleftrightarrow> sorted_wrt (\<noteq>) xs"
  by (induction xs) auto

section \<open>Properties\<close>

text \<open>C35: The tiles of an image cover it: each lies inside, is as large as the crop where the image
  is, and every window that exceeds the overlap by at most one pixel a side lies whole in one of
  them, so no object of that size is cut by every tile.\<close>

theorem tiles_cover_image:
  assumes "0 < ih" and "0 < iw" and "0 \<le> ov" and "ov < ch" and "0 \<le> ow" and "ow < cw"
  shows "\<exists>s. calculate_slices_coordinates (ih, iw) (ch, cw) (ov, ow) = Inr s \<and>
    (\<forall>(y1, x1, y2, x2) \<in> set (tiles s). 0 \<le> y1 \<and> y2 = y1 + min ch ih \<and> y2 \<le> ih \<and>
       0 \<le> x1 \<and> x2 = x1 + min cw iw \<and> x2 \<le> iw) \<and>
    (\<forall>a b c d. 0 \<le> a \<and> a \<le> b \<and> b \<le> ih \<and> b - a \<le> ov + 1 \<and> 0 \<le> c \<and> c \<le> d \<and> d \<le> iw \<and> d - c \<le> ow + 1 \<longrightarrow>
       (\<exists>(y1, x1, y2, x2) \<in> set (tiles s). y1 \<le> a \<and> b \<le> y2 \<and> x1 \<le> c \<and> d \<le> x2))"
proof -
  obtain ys where ys: "tile_starts ih ch ov = Inr ys" "\<forall>p \<in> set ys. 0 \<le> p \<and> min (p + ch) ih = p + min ch ih"
    "\<And>a b. 0 \<le> a \<and> a \<le> b \<and> b \<le> ih \<and> b - a \<le> ov + 1 \<Longrightarrow> \<exists>p \<in> set ys. p \<le> a \<and> b \<le> min (p + ch) ih"
    using tile_starts_cover [OF assms(1,3,4)] by blast
  obtain xs where xs: "tile_starts iw cw ow = Inr xs" "\<forall>p \<in> set xs. 0 \<le> p \<and> min (p + cw) iw = p + min cw iw"
    "\<And>a b. 0 \<le> a \<and> a \<le> b \<and> b \<le> iw \<and> b - a \<le> ow + 1 \<Longrightarrow> \<exists>p \<in> set xs. p \<le> a \<and> b \<le> min (p + cw) iw"
    using tile_starts_cover [OF assms(2,5,6)] by blast
  obtain s where s: "calculate_slices_coordinates (ih, iw) (ch, cw) (ov, ow) = Inr s"
    "tiles s = map (\<lambda>(y, x). (y, x, min (y + ch) ih, min (x + cw) iw)) (List.product ys xs)"
    using tiles_grid [OF ys(1) xs(1)] by blast
  have "\<exists>(y1, x1, y2, x2) \<in> set (tiles s). y1 \<le> a \<and> b \<le> y2 \<and> x1 \<le> c \<and> d \<le> x2"
    if "0 \<le> a \<and> a \<le> b \<and> b \<le> ih \<and> b - a \<le> ov + 1" and "0 \<le> c \<and> c \<le> d \<and> d \<le> iw \<and> d - c \<le> ow + 1" for a b c d
    using ys(3) [OF that(1)] xs(3) [OF that(2)] by (auto simp: s(2))
  then show ?thesis using s ys(2) xs(2) by (intro exI [of _ s] conjI) (fastforce, fastforce, blast)
qed

theorem tiles_cover_image_witness:
  "\<exists>s. calculate_slices_coordinates (7, 4) (4, 4) (1, 1) = Inr s \<and> tiles s = [(0, 0, 4, 4), (3, 0, 7, 4)] \<and>
    (\<exists>(y1, x1, y2, x2) \<in> set (tiles s). y1 \<le> 2 \<and> 4 \<le> y2 \<and> x1 \<le> 0 \<and> 2 \<le> x2)"
proof -
  have "tile_starts 7 4 1 = Inr [0, 3]" "tile_starts 4 4 1 = Inr [0]"
    by (simp_all add: tile_starts_def upto.simps)
  from tiles_grid [OF this] obtain s where
    s: "calculate_slices_coordinates (7, 4) (4, 4) (1, 1) = Inr s" "tiles s = [(0, 0, 4, 4), (3, 0, 7, 4)]" by auto
  have "\<forall>a b c d. 0 \<le> a \<and> a \<le> b \<and> b \<le> 7 \<and> b - a \<le> 1 + 1 \<and> 0 \<le> c \<and> c \<le> d \<and> d \<le> 4 \<and> d - c \<le> 1 + 1 \<longrightarrow>
      (\<exists>(y1, x1, y2, x2) \<in> set (tiles s). y1 \<le> a \<and> b \<le> y2 \<and> x1 \<le> c \<and> d \<le> x2)"
    using tiles_cover_image [of 7 4 1 4 1 4] s(1) by simp
  from this [rule_format, of 2 4 0 2] show ?thesis using s by simp
qed

text \<open>The letterbox produces exactly the requested size: the resized image and the borders that
  the two roundings compute add up to it in both directions and no border is negative, whatever the
  sizes, as long as the image is not padded to the stride.\<close>

theorem letterbox_fits:
  assumes "0 < h" and "0 < w" and "0 \<le> nh" and "0 \<le> nw"
    and "p = compute_letterbox_params (h, w) (nh, nw) False scale_fill scaleup stride" and "b = letterbox_borders p"
  shows "b_top b + fst (lb_unpad p) + b_bottom b = nh \<and> b_left b + snd (lb_unpad p) + b_right b = nw \<and>
    0 \<le> b_top b \<and> 0 \<le> b_bottom b \<and> 0 \<le> b_left b \<and> 0 \<le> b_right b"
proof (cases scale_fill)
  case True
  then have "p = \<lparr>lb_ratio = (of_int nh / of_int h, of_int nw / of_int w), lb_unpad = (nh, nw), lb_dh = 0, lb_dw = 0\<rparr>"
    using assms(5) by (simp add: compute_letterbox_params_def Let_def)
  then show ?thesis using assms(6) py_round_halves [of 0] py_round_half_nonneg [of 0] by (simp add: letterbox_borders_def)
next
  case False
  define r where "r = (if \<not> scaleup then min (min (of_int nh / of_int h) (of_int nw / of_int w)) 1
      else min (of_int nh / of_int h) (of_int nw / of_int w :: real))"
  let ?uh = "py_round (of_int h * r)" and ?uw = "py_round (of_int w * r)"
  have p: "lb_unpad p = (?uh, ?uw)" "lb_dh p = of_int (nh - ?uh) / 2" "lb_dw p = of_int (nw - ?uw) / 2"
    using assms(5) False by (simp_all add: compute_letterbox_params_def Let_def r_def)
  have "r \<le> of_int nh / of_int h" "r \<le> of_int nw / of_int w" by (auto simp: r_def)
  then have "of_int h * r \<le> of_int nh" "of_int w * r \<le> of_int nw"
    using assms(1,2) by (simp_all add: pos_le_divide_eq mult.commute)
  then have "?uh \<le> nh" "?uw \<le> nw" by (auto intro: py_round_le)
  then have "0 \<le> nh - ?uh" "0 \<le> nw - ?uw" by simp_all
  note n = py_round_half_nonneg [OF this(1)] py_round_half_nonneg [OF this(2)]
  show ?thesis
    using n py_round_halves [of "nh - ?uh"] py_round_halves [of "nw - ?uw"]
    unfolding assms(6) letterbox_borders_def p by simp
qed

theorem letterbox_fits_witness:
  "let p = compute_letterbox_params (3, 2) (4, 4) False False False 32; b = letterbox_borders p
   in b_top b + 3 + b_bottom b = 4 \<and> b_left b + 2 + b_right b = 4 \<and> b_top b = 0 \<and> b_bottom b = 1"
proof -
  let ?p = "compute_letterbox_params (3, 2) (4, 4) False False False 32"
  have r: "py_round 3 = 3" "py_round 2 = 2" by (simp_all add: py_round_def)
  have u: "lb_unpad ?p = (3, 2)" "lb_dh ?p = 1 / 2"
    by (simp_all add: compute_letterbox_params_def r)
  have f: "\<lfloor>2 / 5 :: real\<rfloor> = 0" "\<lfloor>3 / 5 :: real\<rfloor> = 0" by linarith+
  have b: "b_top (letterbox_borders ?p) = 0" "b_bottom (letterbox_borders ?p) = 1"
    by (simp_all add: letterbox_borders_def u py_round_def Let_def f)
  show ?thesis
    using letterbox_fits [OF _ _ _ _ refl refl, of 3 2 4 4 False False 32] by (simp add: Let_def u b)
qed

text \<open>C18: Non-maximum suppression by shrinking an index array is the greedy algorithm: its result is
  the first \<^verbatim>\<open>max_det\<close> indices, at least one, that the reference keeps when it goes through the
  boxes by decreasing score and compares each with every box kept before.\<close>

theorem nms_is_greedy:
  "apply_nms argsort bs scores iou max_det =
     take (nat (max 1 max_det)) (greedy_nms iou bs (rev (argsort scores)))"
  unfolding apply_nms_def greedy_nms_def by (rule nms_loop_greedy) auto

text \<open>What non-maximum suppression returns: at most \<^verbatim>\<open>max_det\<close> indices of boxes, none twice, in
  order of score, no two of which overlap by the threshold; and while the limit is not reached,
  every box left out overlaps a returned one that scores at least as much.\<close>

theorem nms_selects:
  assumes "argsort_ok argsort" and "0 < max_det" and "keep = apply_nms argsort bs scores iou max_det"
  shows "int (length keep) \<le> max_det \<and> distinct keep \<and> set keep \<subseteq> {..<length scores} \<and>
    sorted_wrt (\<lambda>i j. scores ! j \<le> scores ! i \<and> compatible iou bs i j) keep \<and>
    (int (length keep) < max_det \<longrightarrow>
      (\<forall>i < length scores. i \<in> set keep \<or> (\<exists>k \<in> set keep. scores ! i \<le> scores ! k \<and> \<not> compatible iou bs k i)))"
proof -
  let ?o = "rev (argsort scores)" and ?g = "greedy_nms iou bs (rev (argsort scores))"
  note o = argsort_descending [OF assms(1), of scores]
  have k: "keep = take (nat max_det) ?g"
    using nms_is_greedy [of argsort bs scores iou max_det] assms(2,3) by (simp add: max_def split: if_splits)
  have sub: "subseq ?g ?o" using greedy_in_order [of iou bs ?o "[]"] by (simp add: greedy_nms_def)
  have g: "distinct ?g" "set ?g \<subseteq> {..<length scores}" "sorted_wrt (\<lambda>i j. scores ! j \<le> scores ! i) ?g"
    using o sorted_wrt_subseq [OF sub] list_emb_set [OF sub] unfolding distinct_sorted_wrt by blast+
  have c: "sorted_wrt (compatible iou bs) ?g" unfolding greedy_nms_def by (rule greedy_pairwise) simp
  have cov: "i \<in> set keep \<or> (\<exists>k \<in> set keep. scores ! i \<le> scores ! k \<and> \<not> compatible iou bs k i)"
    if "int (length keep) < max_det" and "i < length scores" for i
  proof -
    have "keep = ?g" using that(1) k by auto
    moreover have "i \<in> set ?o" using that(2) o(1) by simp
    ultimately show ?thesis
      using greedy_covers [of i ?o iou bs "[]"] before_in_sorted [OF o(3)] unfolding greedy_nms_def [symmetric] by auto
  qed
  have "sorted_wrt (\<lambda>i j. scores ! j \<le> scores ! i \<and> compatible iou bs i j) ?g"
    using g(3) c by (rule sorted_wrt_conj)
  then have "sorted_wrt (\<lambda>i j. scores ! j \<le> scores ! i \<and> compatible iou bs i j) keep"
    unfolding k by (rule sorted_wrt_take)
  moreover have "int (length keep) \<le> max_det" "distinct keep" "set keep \<subseteq> {..<length scores}"
    using assms(2) g(1,2) set_take_subset [of "nat max_det" ?g] by (auto simp: k)
  ultimately show ?thesis using cov by blast
qed

definition demo_boxes :: "xyxy list" where
  "demo_boxes = [(0, 0, 10, 10), (1, 0, 10, 10), (20, 20, 30, 30)]"

lemma demo_nms: "apply_nms stable_argsort demo_boxes [1/2, 3/4, 1/4] (1/2) 100 = [1, 0 + 2]"
proof -
  have a: "stable_argsort [1/2, 3/4, 1/4] = [2, 0, 1]"
    by (simp add: stable_argsort_def upt_rec)
  show ?thesis
    by (simp add: apply_nms_def a demo_boxes_def compute_iou_def iou_below_def Let_def)
qed

theorem nms_selects_witness:
  "apply_nms stable_argsort demo_boxes [1/2, 3/4, 1/4] (1/2) 100 = [1, 2] \<and> \<not> compatible (1/2) demo_boxes 1 0"
proof -
  have "\<forall>i < length [1/2, 3/4, 1/4 :: real]. i \<in> set [1, 0 + 2] \<or> (\<exists>k \<in> set [1, 0 + 2].
      [1/2, 3/4, 1/4] ! i \<le> [1/2, 3/4, 1/4 :: real] ! k \<and> \<not> compatible (1/2) demo_boxes k i)"
    using nms_selects [OF stable_argsort_ok _ demo_nms [symmetric]] by simp
  from this [rule_format, of 0] have "\<not> compatible (1/2) demo_boxes 1 0 \<or> \<not> compatible (1/2) demo_boxes 2 0" by auto
  moreover have "compatible (1/2) demo_boxes 2 0"
    by (simp add: compatible_def compute_iou_def demo_boxes_def iou_below_def Let_def)
  ultimately show ?thesis using demo_nms by auto
qed

section \<open>From the image to the network and back\<close>

text \<open>Where a box of the picture lies in an image: \<^verbatim>\<open>cv2.resize\<close> stretches the picture to the new size,
  \<^verbatim>\<open>cv2.copyMakeBorder\<close> moves it by the left and the top border.\<close>

definition located :: "('i \<Rightarrow> int \<times> int) \<Rightarrow> ('i \<Rightarrow> int \<times> int \<Rightarrow> 'i) \<Rightarrow> ('i \<Rightarrow> borders \<Rightarrow> 'i) \<Rightarrow> ('i \<Rightarrow> xyxy) \<Rightarrow> bool" where
  "located shape_of resize copy_border locate \<longleftrightarrow>
     (\<forall>i h w uh uw x1 y1 x2 y2. shape_of i = (h, w) \<longrightarrow> locate i = (x1, y1, x2, y2) \<longrightarrow>
        locate (resize i (uh, uw)) = (x1 * (of_int uw / of_int w), y1 * (of_int uh / of_int h),
          x2 * (of_int uw / of_int w), y2 * (of_int uh / of_int h))) \<and>
     (\<forall>i b x1 y1 x2 y2. locate i = (x1, y1, x2, y2) \<longrightarrow>
        locate (copy_border i b) = (x1 + of_int (b_left b), y1 + of_int (b_top b),
          x2 + of_int (b_left b), y2 + of_int (b_top b)))"

lemma py_round_near: "\<bar>real_of_int (py_round x) - x\<bar> \<le> 1 / 2"
proof -
  have "real_of_int \<lfloor>x\<rfloor> \<le> x" "x < real_of_int \<lfloor>x\<rfloor> + 1" by linarith+
  then show ?thesis unfolding py_round_def Let_def by auto
qed

lemma py_round_whole: "x \<in> \<int> \<Longrightarrow> real_of_int (py_round x) = x"
  by (auto simp: py_round_def elim!: Ints_cases)

text \<open>The left border of a padding \<open>k / 2\<close>: it, or half a pixel less.\<close>

lemma left_border:
  "real_of_int (py_round (of_int k / 2 - 1/10)) \<le> of_int k / 2 \<and>
   of_int k / 2 - 1/2 \<le> real_of_int (py_round (of_int k / 2 - 1/10)) \<and>
   (of_int k / 2 \<in> (\<int> :: real set) \<longrightarrow> real_of_int (py_round (of_int k / 2 - 1/10)) = of_int k / 2)"
proof (cases "even k")
  case True
  then obtain j where k: "k = 2 * j" by blast
  have "\<lfloor>real_of_int j - 1/10\<rfloor> = j - 1" by linarith
  then show ?thesis by (simp add: k py_round_def Let_def)
next
  case False
  then obtain j where k: "k = 2 * j + 1" by (rule oddE)
  have e: "real_of_int k / 2 - 1/10 = j + 4/10" by (simp add: k field_simps)
  have f: "\<lfloor>real_of_int j + 4/10\<rfloor> = j" by linarith
  have "of_int k / 2 \<notin> (\<int> :: real set)"
  proof
    assume "of_int k / 2 \<in> (\<int> :: real set)"
    then obtain z where "of_int k / 2 = (of_int z :: real)" by (auto elim: Ints_cases)
    then have "real_of_int k = real_of_int (2 * z)" by simp
    then show False using k by presburger
  qed
  then show ?thesis unfolding e by (simp add: k py_round_def Let_def f add_divide_distrib)
qed

text \<open>One axis: a scaled length \<open>u\<close> that is the exact one up to rounding, and the border of the padding.\<close>

lemma axis_error:
  fixes x w r d :: real
  assumes "0 < w" and "0 < r" and "0 \<le> x" and "x \<le> w" and "\<bar>u - w * r\<bar> \<le> 1 / 2" and "d = of_int k / 2"
  shows "\<bar>(x * (u / w) + of_int (py_round (d - 1/10)) - d) / r - x\<bar> \<le> 1 / r"
    and "u = w * r \<Longrightarrow> d \<in> \<int> \<Longrightarrow> (x * (u / w) + of_int (py_round (d - 1/10)) - d) / r = x"
proof -
  define e where "e = real_of_int (py_round (d - 1/10)) - d"
  have e: "e \<le> 0" "- (1/2) \<le> e" "d \<in> \<int> \<longrightarrow> e = 0"
    using left_border [of k] by (auto simp: e_def assms(6))
  have split: "(x * (u / w) + of_int (py_round (d - 1/10)) - d) / r - x = (x / w * (u - w * r) + e) / r"
    using assms(1,2) by (simp add: e_def field_simps)
  have "\<bar>x / w * (u - w * r)\<bar> = x / w * \<bar>u - w * r\<bar>"
    using assms(1,3) by (simp add: abs_mult)
  also have "\<dots> \<le> 1 * (1 / 2)"
    using assms(1,3-5) by (intro mult_mono) simp_all
  finally have "\<bar>x / w * (u - w * r) + e\<bar> \<le> 1" using e by linarith
  then show "\<bar>(x * (u / w) + of_int (py_round (d - 1/10)) - d) / r - x\<bar> \<le> 1 / r"
    unfolding split using assms(2) by (simp add: divide_right_mono)
  show "(x * (u / w) + of_int (py_round (d - 1/10)) - d) / r = x" if "u = w * r" "d \<in> \<int>"
    using split e(3) that by simp
qed

text \<open>What the letterbox computes, per axis: a positive ratio, a length that is the scaled one up to
  rounding, a padding of whole or half pixels.\<close>

lemma letterbox_params_ok:
  assumes "0 < h" and "0 < w" and "0 < nh" and "0 < nw"
    and "p = compute_letterbox_params (h, w) (nh, nw) auto scale_fill scaleup stride"
  shows "0 < fst (lb_ratio p) \<and> 0 < snd (lb_ratio p) \<and>
    \<bar>of_int (fst (lb_unpad p)) - of_int h * fst (lb_ratio p)\<bar> \<le> 1 / 2 \<and>
    \<bar>of_int (snd (lb_unpad p)) - of_int w * snd (lb_ratio p)\<bar> \<le> 1 / 2 \<and>
    (of_int h * fst (lb_ratio p) \<in> \<int> \<longrightarrow> of_int (fst (lb_unpad p)) = of_int h * fst (lb_ratio p)) \<and>
    (of_int w * snd (lb_ratio p) \<in> \<int> \<longrightarrow> of_int (snd (lb_unpad p)) = of_int w * snd (lb_ratio p)) \<and>
    (\<exists>k l. lb_dh p = of_int k / 2 \<and> lb_dw p = of_int l / 2)"
proof (cases "scale_fill \<and> \<not> auto")
  case True
  then have "p = \<lparr>lb_ratio = (of_int nh / of_int h, of_int nw / of_int w), lb_unpad = (nh, nw), lb_dh = 0, lb_dw = 0\<rparr>"
    using assms(5) by (simp add: compute_letterbox_params_def Let_def)
  then show ?thesis using assms(1-4) by (auto intro!: exI [of _ 0])
next
  case False
  define r where "r = (if \<not> scaleup then min (min (of_int nh / of_int h) (of_int nw / of_int w)) 1
      else min (of_int nh / of_int h) (of_int nw / of_int w :: real))"
  have r: "0 < r" using assms(1-4) by (simp add: r_def)
  let ?uh = "py_round (of_int h * r)" and ?uw = "py_round (of_int w * r)"
  have p: "p = \<lparr>lb_ratio = (r, r), lb_unpad = (?uh, ?uw),
      lb_dh = of_int (if auto then (nh - ?uh) mod stride else nh - ?uh) / 2,
      lb_dw = of_int (if auto then (nw - ?uw) mod stride else nw - ?uw) / 2\<rparr>"
    using assms(5) False by (cases auto) (simp_all add: compute_letterbox_params_def Let_def r_def)
  show ?thesis
    using r py_round_near [of "of_int h * r"] py_round_near [of "of_int w * r"] py_round_whole
    unfolding p letterbox_params.select_convs fst_conv snd_conv by blast
qed

text \<open>The letterboxed image has the box where the parameters say, up to the rounding.\<close>

lemma letterbox_located:
  assumes "located shape_of resize copy_border locate" and "shape_of im = (h, w)" and "0 < h" and "0 < w"
    and "locate im = (x1, y1, x2, y2)"
    and "p = compute_letterbox_params (h, w) (nh, nw) auto scale_fill scaleup stride"
    and "letterbox shape_of resize copy_border im (nh, nw) auto scale_fill scaleup stride = (im', l)"
  shows "l = [fst (lb_ratio p), snd (lb_ratio p), lb_dh p, lb_dw p] \<and>
    locate im' = (x1 * (of_int (snd (lb_unpad p)) / of_int w) + of_int (py_round (lb_dw p - 1/10)),
      y1 * (of_int (fst (lb_unpad p)) / of_int h) + of_int (py_round (lb_dh p - 1/10)),
      x2 * (of_int (snd (lb_unpad p)) / of_int w) + of_int (py_round (lb_dw p - 1/10)),
      y2 * (of_int (fst (lb_unpad p)) / of_int h) + of_int (py_round (lb_dh p - 1/10)))"
proof -
  obtain uh uw where u: "lb_unpad p = (uh, uw)" by fastforce
  define im1 where "im1 = (if (h, w) \<noteq> (uh, uw) then resize im (uh, uw) else im)"
  have im1: "locate im1 = (x1 * (of_int uw / of_int w), y1 * (of_int uh / of_int h),
      x2 * (of_int uw / of_int w), y2 * (of_int uh / of_int h))"
    using assms(1-5) by (auto simp: im1_def located_def)
  have im': "im' = copy_border im1 (letterbox_borders p)"
    and l: "l = [fst (lb_ratio p), snd (lb_ratio p), lb_dh p, lb_dw p]"
    using assms(7) unfolding letterbox_def assms(2) assms(6) [symmetric] u im1_def by (auto simp: Let_def u)
  have border: "locate (copy_border i b) = (a1 + of_int (b_left b), c1 + of_int (b_top b),
      a2 + of_int (b_left b), c2 + of_int (b_top b))" if "locate i = (a1, c1, a2, c2)" for i b a1 c1 a2 c2
    using assms(1) that unfolding located_def by blast
  show ?thesis using border [OF im1, of "letterbox_borders p"] im' l u by (simp add: letterbox_borders_def)
qed

lemma positions_mem:
  assumes "4 + c < length predictions" and "py < length (predictions ! (4 + c))" and "conf \<le> predictions ! (4 + c) ! py"
  shows "(c, py) \<in> set (positions conf (drop 4 predictions))"
proof -
  have "(c, predictions ! (4 + c)) \<in> set (enumerate 0 (drop 4 predictions))"
    using assms(1) by (auto simp: in_set_enumerate_eq)
  moreover have "(py, predictions ! (4 + c) ! py) \<in> set (enumerate 0 (predictions ! (4 + c)))"
    using assms(2) by (auto simp: in_set_enumerate_eq)
  ultimately show ?thesis using assms(3) unfolding positions_def by fastforce
qed

text \<open>C37: Decoding undoes the letterbox up to its rounding. Take an image with a box inside it, and let
  \<^verbatim>\<open>letterbox\<close> bring it to any positive size, in any mode. If the network reports the box where it lies
  in the image \<^verbatim>\<open>letterbox\<close> made (resizing stretches the picture, the border moves it), by its
  centre and size, with a score at or above the threshold, then decoding with the parameters
  \<^verbatim>\<open>letterbox\<close> returned gives a detection of that class and score whose corners are off by at most one
  pixel of the letterboxed image: at most \<open>1 / ratio\<close> pixels of the original one, in each direction.
  Along an axis whose scaled length is whole and whose padding splits into whole pixels the corners
  are exactly those of the box. Array elements are reals here.\<close>

theorem decode_undoes_letterbox:
  assumes "located shape_of resize copy_border locate" and "shape_of im = (h, w)"
    and "0 < h" and "0 < w" and "0 < nh" and "0 < nw"
    and "locate im = (x1, y1, x2, y2)" and "0 \<le> x1" and "x1 \<le> x2" and "x2 \<le> of_int w" and "0 \<le> y1" and "y1 \<le> y2" and "y2 \<le> of_int h"
    and "letterbox shape_of resize copy_border im (nh, nw) auto scale_fill scaleup stride = (im', l)"
    and "locate im' = (u1, v1, u2, v2)"
    and "4 + c < length predictions" and "py < length (predictions ! (4 + c))" and "conf \<le> predictions ! (4 + c) ! py"
    and "predictions ! 0 ! py = (u1 + u2) / 2" and "predictions ! 1 ! py = (v1 + v2) / 2"
    and "predictions ! 2 ! py = u2 - u1" and "predictions ! 3 ! py = v2 - v1"
  shows "\<exists>a1 b1 a2 b2. \<lparr>d_box = (a1, b1, a2, b2), d_score = predictions ! (4 + c) ! py, d_class = c\<rparr> \<in>
      set (decode_output predictions conf (l ! 1, l ! 0) (l ! 3, l ! 2)) \<and> 0 < l ! 0 \<and> 0 < l ! 1 \<and>
    \<bar>a1 - x1\<bar> \<le> 1 / l ! 1 \<and> \<bar>a2 - x2\<bar> \<le> 1 / l ! 1 \<and> \<bar>b1 - y1\<bar> \<le> 1 / l ! 0 \<and> \<bar>b2 - y2\<bar> \<le> 1 / l ! 0 \<and>
    (of_int w * l ! 1 \<in> \<int> \<and> l ! 3 \<in> \<int> \<longrightarrow> a1 = x1 \<and> a2 = x2) \<and>
    (of_int h * l ! 0 \<in> \<int> \<and> l ! 2 \<in> \<int> \<longrightarrow> b1 = y1 \<and> b2 = y2)"
proof -
  define p where "p = compute_letterbox_params (h, w) (nh, nw) auto scale_fill scaleup stride"
  note pos = letterbox_located [OF assms(1-4,7) p_def assms(14)]
  have l: "l ! 0 = fst (lb_ratio p)" "l ! 1 = snd (lb_ratio p)" "l ! 2 = lb_dh p" "l ! 3 = lb_dw p"
    using pos by simp_all
  obtain kh kw where k: "lb_dh p = of_int kh / 2" "lb_dw p = of_int kw / 2"
    using letterbox_params_ok [OF assms(3-6) p_def] by blast
  note ok = letterbox_params_ok [OF assms(3-6) p_def, folded l]
  have rx: "0 < l ! 1" "\<bar>of_int (snd (lb_unpad p)) - of_int w * l ! 1\<bar> \<le> 1 / 2"
    "of_int w * l ! 1 \<in> \<int> \<longrightarrow> of_int (snd (lb_unpad p)) = of_int w * l ! 1"
    and ry: "0 < l ! 0" "\<bar>of_int (fst (lb_unpad p)) - of_int h * l ! 0\<bar> \<le> 1 / 2"
    "of_int h * l ! 0 \<in> \<int> \<longrightarrow> of_int (fst (lb_unpad p)) = of_int h * l ! 0"
    using ok by blast+
  define ax where "ax x = (x * (of_int (snd (lb_unpad p)) / of_int w) + of_int (py_round (lb_dw p - 1/10)) - lb_dw p) / l ! 1" for x
  define ay where "ay y = (y * (of_int (fst (lb_unpad p)) / of_int h) + of_int (py_round (lb_dh p - 1/10)) - lb_dh p) / l ! 0" for y
  have x: "\<bar>ax x - x\<bar> \<le> 1 / l ! 1 \<and> (of_int w * l ! 1 \<in> \<int> \<and> l ! 3 \<in> \<int> \<longrightarrow> ax x = x)" if "0 \<le> x" "x \<le> of_int w" for x
    using axis_error [OF _ rx(1) that rx(2) k(2)] rx(3) assms(4) unfolding ax_def l(4) by simp
  have y: "\<bar>ay y - y\<bar> \<le> 1 / l ! 0 \<and> (of_int h * l ! 0 \<in> \<int> \<and> l ! 2 \<in> \<int> \<longrightarrow> ay y = y)" if "0 \<le> y" "y \<le> of_int h" for y
    using axis_error [OF _ ry(1) that ry(2) k(1)] ry(3) assms(3) unfolding ay_def l(3) by simp
  have uv: "(u1 - l ! 3) / l ! 1 = ax x1" "(u2 - l ! 3) / l ! 1 = ax x2" "(v1 - l ! 2) / l ! 0 = ay y1" "(v2 - l ! 2) / l ! 0 = ay y2"
    using pos assms(15) l by (simp_all add: ax_def ay_def)
  have mid: "(a + b) / 2 - (b - a) / 2 - d = a - d" "(a + b) / 2 + (b - a) / 2 - d = b - d" for a b d :: real
    by (simp_all add: field_simps)
  have "\<lparr>d_box = (ax x1, ay y1, ax x2, ay y2), d_score = predictions ! (4 + c) ! py, d_class = c\<rparr> \<in>
      set (decode_output predictions conf (l ! 1, l ! 0) (l ! 3, l ! 2))"
    unfolding decode_output_def prod.case set_map
    by (rule image_eqI [OF _ positions_mem [OF assms(16-18)]]) (simp only: Let_def prod.case assms(19-22) mid uv)
  moreover have "x1 \<le> of_int w" "0 \<le> x2" "y1 \<le> of_int h" "0 \<le> y2" using assms(8-13) by linarith+
  ultimately show ?thesis using x y rx(1) ry(1) assms(8-13) by blast
qed

text \<open>An image is its size and a box. An image of 3 by 2 pixels in a letterbox of 4 by 4: a whole pixel
  is added at the left, none at the top, where the padding is half a pixel, so the box comes back
  half a pixel too high.\<close>

definition demo_resize :: "(int \<times> int) \<times> xyxy \<Rightarrow> int \<times> int \<Rightarrow> (int \<times> int) \<times> xyxy" where
  "demo_resize i u = (case (i, u) of (((h, w), (x1, y1, x2, y2)), (uh, uw)) \<Rightarrow>
     (u, (x1 * (of_int uw / of_int w), y1 * (of_int uh / of_int h), x2 * (of_int uw / of_int w), y2 * (of_int uh / of_int h))))"

definition demo_border :: "(int \<times> int) \<times> xyxy \<Rightarrow> borders \<Rightarrow> (int \<times> int) \<times> xyxy" where
  "demo_border i b = (case i of ((h, w), (x1, y1, x2, y2)) \<Rightarrow>
     ((b_top b + h + b_bottom b, b_left b + w + b_right b),
      (x1 + of_int (b_left b), y1 + of_int (b_top b), x2 + of_int (b_left b), y2 + of_int (b_top b))))"

lemma demo_located: "located fst demo_resize demo_border snd"
  by (auto simp: located_def demo_resize_def demo_border_def)

lemma demo_letterbox:
  "letterbox fst demo_resize demo_border ((3, 2), (0, 1, 2, 3)) (4, 4) False False False 32 =
     (((4, 4), (1, 1, 3, 3)), [1, 1, 1/2, 1])"
proof -
  have r: "py_round 3 = 3" "py_round 2 = 2" by (simp_all add: py_round_def)
  have p: "compute_letterbox_params (3, 2) (4, 4) False False False 32 =
      \<lparr>lb_ratio = (1, 1), lb_unpad = (3, 2), lb_dh = 1 / 2, lb_dw = 1\<rparr>"
    by (simp add: compute_letterbox_params_def r)
  have f: "\<lfloor>2 / 5 :: real\<rfloor> = 0" "\<lfloor>3 / 5 :: real\<rfloor> = 0" "\<lfloor>9 / 10 :: real\<rfloor> = 0" "\<lfloor>11 / 10 :: real\<rfloor> = 1" by linarith+
  show ?thesis by (simp add: letterbox_def p letterbox_borders_def demo_border_def py_round_def Let_def f)
qed

theorem decode_undoes_letterbox_witness:
  "\<exists>b1 b2. \<lparr>d_box = (0, b1, 2, b2), d_score = 9/10, d_class = 1\<rparr> \<in>
     set (decode_output [[2], [2], [2], [2], [1/10], [9/10]] (1/5) (1, 1) (1, 1/2)) \<and> \<bar>b1 - 1\<bar> \<le> 1 \<and> \<bar>b2 - 3\<bar> \<le> 1"
proof -
  have "of_int 2 * (1 :: real) \<in> \<int>" "(1 :: real) \<in> \<int>" by simp_all
  then show ?thesis
    using decode_undoes_letterbox [OF demo_located _ _ _ _ _ _ _ _ _ _ _ _ demo_letterbox,
      of 3 2 0 1 2 3 1 1 3 3 1 "[[2], [2], [2], [2], [1/10], [9/10]]" 0 "1/5"] by auto
qed

end
