(* ===== verification/Detectors.thy ===== *)
theory Detectors
  imports Detect_Ops Node_Factory Routing
begin

text \<open>
  \<^verbatim>\<open>neudc/nn/models/det/yolo.py\<close> and \<^verbatim>\<open>neudc/nn/models/det/sahi.py\<close>, \<^verbatim>\<open>neudc/utils/checks.py\<close>
  and \<^verbatim>\<open>neudc/nn/__init__.py\<close>: the YOLO detector, the sliced inference around it and the model
  factory. The image operations (OpenCV, normalisation) and the backend are arguments. Warm-up,
  profiling and drawing are not modelled.
\<close>

section \<open>Checks\<close>

datatype image_shape = Side int | Dims int int

fun to_tuple :: "image_shape \<Rightarrow> int \<times> int" where
  "to_tuple (Side d) = (d, d)"
| "to_tuple (Dims h w) = (h, w)"

text \<open>\<^verbatim>\<open>not imgsz\<close>: None and 0.\<close>

definition shape_missing :: "image_shape option \<Rightarrow> bool" where
  "shape_missing s = (case s of None \<Rightarrow> True | Some (Side d) \<Rightarrow> d = 0 | Some (Dims _ _) \<Rightarrow> False)"

datatype name_key = KInt int | KStr string

datatype class_names = Names_list "string list" | Names_map "(name_key \<times> string) list"

definition default_class_names :: class_names where
  "default_class_names = Names_map (map (\<lambda>i. (KInt (int i), ''class'' @ show_nat i)) [0..<999])"

definition names_missing :: "class_names option \<Rightarrow> bool" where
  "names_missing ns = (case ns of None \<Rightarrow> True | Some (Names_list l) \<Rightarrow> l = [] | Some (Names_map m) \<Rightarrow> m = [])"

text \<open>\<^verbatim>\<open>int(k)\<close>, given what it makes of a string.\<close>

fun key_int :: "(string \<Rightarrow> int option) \<Rightarrow> name_key \<Rightarrow> ('w, int) io" where
  "key_int parse (KInt n) = ret n"
| "key_int parse (KStr s) = (case parse s of Some n \<Rightarrow> ret n | None \<Rightarrow> raise (ValueError ''invalid literal for int()''))"

definition check_class_names :: "(string \<Rightarrow> int option) \<Rightarrow> class_names \<Rightarrow> ('w, (int, string) dict) io" where
  "check_class_names parse names =
     bnd (map_io (\<lambda>(k, v). bnd (key_int parse k) (\<lambda>n. ret (n, v)))
        (case names of Names_list l \<Rightarrow> map (\<lambda>(i, v). (KInt (int i), v)) (enumerate 0 l) | Names_map m \<Rightarrow> m)) (\<lambda>its.
     let d = fold (\<lambda>(k, v). dset k v) its [] in
     if d = [] then raise (ValueError ''max() arg is an empty sequence'')
     else if (\<exists>k \<in> set (dkeys d). int (length d) \<le> k) then raise KeyError
     else ret d)"

section \<open>The backend\<close>

text \<open>The arrays a network returns, by their dimension.\<close>

datatype tensor = Scalar real | Vec "real list" | Mat "real list list" | Stack "real list list list"

text \<open>Iterating or indexing an array, or a Python list of arrays.\<close>

fun tensor_items :: "tensor \<Rightarrow> ('w, tensor list) io" where
  "tensor_items (Stack ms) = ret (map Mat ms)"
| "tensor_items (Mat rs) = ret (map Vec rs)"
| "tensor_items (Vec xs) = ret (map Scalar xs)"
| "tensor_items (Scalar _) = raise (TypeError ''len() of unsized object'')"

record metadata =
  md_names :: "class_names option"
  md_imgsz :: "image_shape option"
  md_stride :: "int option"

text \<open>A loaded backend: its metadata, its precision, and its call, which returns the list of the
  network's outputs.\<close>

record ('w, 'x) backend =
  be_metadata :: metadata
  be_fp16 :: bool
  be_call :: "'x list \<Rightarrow> ('w, tensor list) io"

record ('i, 'x) image_ops =
  io_shape :: "'i \<Rightarrow> int \<times> int"
  io_resize :: "'i \<Rightarrow> int \<times> int \<Rightarrow> 'i"
  io_border :: "'i \<Rightarrow> borders \<Rightarrow> 'i"
  io_rgb :: "'i \<Rightarrow> 'i"
  io_slice :: "'i \<Rightarrow> int \<times> int \<times> int \<times> int \<Rightarrow> 'i"
  io_normalize :: "bool \<Rightarrow> 'i list \<Rightarrow> exn + 'x list"   \<comment> \<open>\<^verbatim>\<open>_pre_transform_normalize\<close>\<close>

section \<open>YOLOv8\<close>

record ('w, 'x) yolo =
  y_names :: "(int, string) dict"
  y_imgsz :: "int \<times> int"
  y_conf :: real
  y_iou :: real
  y_max_det :: int
  y_stride :: int
  y_backend :: "('w, 'x) backend"
  y_extract_embeddings :: bool

definition new_yolo :: "(string \<Rightarrow> int option) \<Rightarrow> ('w, 'x) backend \<Rightarrow> bool \<Rightarrow> image_shape option \<Rightarrow> class_names option \<Rightarrow>
    real \<Rightarrow> real \<Rightarrow> int \<Rightarrow> ('v, ('w, 'x) yolo) io" where
  "new_yolo parse b extract imgsz names conf iou max_det =
     (let md = be_metadata b;
          ns = (case md_names md of
              None \<Rightarrow> (if names_missing names then Some default_class_names else names)
            | Some m \<Rightarrow> Some m)
      in bnd (check_class_names parse (the ns)) (\<lambda>d.
         if shape_missing imgsz \<and> md_imgsz md = None then raise (NotImplementedError ''imgsz is not initialized.'')
         else ret \<lparr>y_names = d,
           y_imgsz = to_tuple (case md_imgsz md of Some s \<Rightarrow> s | None \<Rightarrow> the imgsz),
           y_conf = conf, y_iou = iou, y_max_det = max_det,
           y_stride = (case md_stride md of None \<Rightarrow> 32 | Some s \<Rightarrow> s),
           y_backend = b, y_extract_embeddings = extract\<rparr>))"

definition yolo_pre_transform :: "('i, 'x) image_ops \<Rightarrow> ('w, 'x) yolo \<Rightarrow> 'i list \<Rightarrow> ('w, 'x list \<times> real list list) io" where
  "yolo_pre_transform I y ims =
     (let ls = map (\<lambda>im. letterbox (io_shape I) (io_resize I) (io_border I) im (y_imgsz y) False False False (y_stride y)) ims
      in bnd (of_res (io_normalize I (be_fp16 (y_backend y)) (map (io_rgb I \<circ> fst) ls))) (\<lambda>xs. ret (xs, map snd ls)))"

text \<open>\<^verbatim>\<open>postprocess_yolo_outputs\<close> on an array of any dimension; its compiled signature takes
  matrices only.\<close>

fun postprocess_item :: "(real list \<Rightarrow> nat list) \<Rightarrow> tensor \<Rightarrow> real \<Rightarrow> real \<Rightarrow> int \<Rightarrow> real \<times> real \<Rightarrow> real \<times> real \<Rightarrow>
    ('w, detection list) io" where
  "postprocess_item argsort (Mat p) conf iou max_det ratio pad = ret (postprocess_yolo_outputs argsort p conf iou max_det ratio pad)"
| "postprocess_item argsort _ conf iou max_det ratio pad = raise (TypeError ''No matching definition'')"

definition list_item :: "'a list \<Rightarrow> nat \<Rightarrow> ('w, 'a) io" where
  "list_item xs i = (if i < length xs then ret (xs ! i) else raise IndexError)"

text \<open>\<^verbatim>\<open>YOLOv8._post_transform\<close>; \<open>its\<close> is what indexing \<^verbatim>\<open>predictions\<close> gives.\<close>

definition yolo_post_transform :: "(real list \<Rightarrow> nat list) \<Rightarrow> ('w, 'x) yolo \<Rightarrow> tensor list \<Rightarrow> real list list \<Rightarrow>
    ('w, detection list list) io" where
  "yolo_post_transform argsort y its params =
     map_io (\<lambda>(i, p). bnd (list_item params i) (\<lambda>l.
       postprocess_item argsort p (y_conf y) (y_iou y) (y_max_det y) (l ! 1, l ! 0) (l ! 3, l ! 2))) (enumerate 0 its)"

datatype yolo_result = Dets "detection list list" | Dets_embs "detection list list" tensor

definition yolo_call :: "('i, 'x) image_ops \<Rightarrow> (real list \<Rightarrow> nat list) \<Rightarrow> ('w, 'x) yolo \<Rightarrow> 'i list \<Rightarrow> ('w, yolo_result) io" where
  "yolo_call I argsort y ims =
     bnd (yolo_pre_transform I y ims) (\<lambda>(batch, params).
     bnd (be_call (y_backend y) batch) (\<lambda>outs.
     if y_extract_embeddings y then
       (case outs of
          [preds, embs] \<Rightarrow>
            bnd (tensor_items preds) (\<lambda>its.
            bnd (yolo_post_transform argsort y its params) (\<lambda>ds. ret (Dets_embs ds embs)))
        | _ \<Rightarrow> raise (ValueError ''not enough values to unpack''))
     else bnd (yolo_post_transform argsort y outs params) (\<lambda>ds. ret (Dets ds))))"

section \<open>SAHI\<close>

record ('w, 'x) sahi =
  s_detector :: "('w, 'x) yolo"
  s_crop_size :: "int \<times> int"
  s_crop_overlap :: "int \<times> int"
  s_batch :: int

definition new_sahi :: "('w, 'x) yolo \<Rightarrow> image_shape \<Rightarrow> image_shape \<Rightarrow> int \<Rightarrow> ('w, 'x) sahi" where
  "new_sahi y crop overlap b =
     (let c = to_tuple crop; ov = to_tuple overlap in
      \<lparr>s_detector = y,
       s_crop_size = (if fst (y_imgsz y) \<noteq> fst c \<or> snd (y_imgsz y) \<noteq> snd c then y_imgsz y else c),
       s_crop_overlap = (if fst ov \<ge> fst c \<or> snd ov \<ge> snd c then (0, 0)
         else if fst ov < 0 \<or> snd ov < 0 then (0, 0) else ov),
       s_batch = b\<rparr>)"

text \<open>A row of \<^verbatim>\<open>letterbox_params\<close>: the four letterbox numbers, the image and the origin.\<close>

record crop_params =
  cp_ry :: real
  cp_rx :: real
  cp_py :: real
  cp_px :: real
  cp_image :: nat
  cp_oy :: real
  cp_ox :: real

definition make_slices :: "('i, 'x) image_ops \<Rightarrow> 'i \<Rightarrow> int \<times> int \<Rightarrow> int \<times> int \<Rightarrow> nat \<Rightarrow> ('w, ('i \<times> crop_params) list) io" where
  "make_slices I im crop_size crop_overlap im_id =
     bnd (of_res (calculate_slices_coordinates (io_shape I im) crop_size crop_overlap)) (\<lambda>s.
     ret (map (\<lambda>(y1, x1, y2, x2). (io_slice I im (y1, x1, y2, x2),
        \<lparr>cp_ry = 1, cp_rx = 1, cp_py = 0, cp_px = 0, cp_image = im_id, cp_oy = of_int y1, cp_ox = of_int x1\<rparr>)) (tiles s)))"

text \<open>The crops of one image: the whole of it in a letterbox, then the tiles. The colour conversion
  writes to the image itself, so the second component is what the caller's array holds after.\<close>

definition sahi_image :: "('i, 'x) image_ops \<Rightarrow> ('w, 'x) sahi \<Rightarrow> nat \<times> 'i \<Rightarrow> ('w, ('i \<times> crop_params) list \<times> 'i) io" where
  "sahi_image I s p = (case p of (im_id, im0) \<Rightarrow>
     let im = io_rgb I im0;
         (whole, l) = letterbox (io_shape I) (io_resize I) (io_border I) im (s_crop_size s) False False False (y_stride (s_detector s));
         head = (whole, \<lparr>cp_ry = l ! 0, cp_rx = l ! 1, cp_py = l ! 2, cp_px = l ! 3, cp_image = im_id, cp_oy = 0, cp_ox = 0\<rparr>)
     in if fst (io_shape I im) \<le> fst (s_crop_size s) \<and> snd (io_shape I im) \<le> snd (s_crop_size s) then ret ([head], im)
        else bnd (make_slices I im (s_crop_size s) (s_crop_overlap s) im_id) (\<lambda>cs. ret (head # cs, im)))"

definition sahi_pre_transform :: "('i, 'x) image_ops \<Rightarrow> ('w, 'x) sahi \<Rightarrow> 'i list \<Rightarrow> ('w, ('x list \<times> crop_params list) \<times> 'i list) io" where
  "sahi_pre_transform I s ims =
     bnd (map_io (sahi_image I s) (enumerate 0 ims)) (\<lambda>rs.
     let crops = concat (map fst rs) in
     bnd (of_res (io_normalize I (be_fp16 (y_backend (s_detector s))) (map fst crops))) (\<lambda>xs.
     ret ((xs, map snd crops), map snd rs)))"

text \<open>\<^verbatim>\<open>output[c : c + n] = dets\<close> on \<open>max_det\<close> rows of which \<open>c\<close> are taken: the slice ends at the
  last row, and an array of another length than the slice only fits when it has one row.\<close>

definition store_dets :: "int \<Rightarrow> detection list \<times> int \<Rightarrow> detection list \<Rightarrow> ('w, detection list \<times> int) io" where
  "store_dets max_det st dets = (case st of (rows, c) \<Rightarrow>
     let room = max 0 (min (c + int (length dets)) max_det - min c max_det) in
     if int (length dets) = room then ret (rows @ dets, c + int (length dets))
     else if length dets = 1 then ret (rows, c + 1)
     else raise (ValueError ''cannot assign slice from input of different size''))"

definition shift_det :: "real \<Rightarrow> real \<Rightarrow> detection \<Rightarrow> detection" where
  "shift_det ox oy d = (case d_box d of (x1, y1, x2, y2) \<Rightarrow> d\<lparr>d_box := (x1 + ox, y1 + oy, x2 + ox, y2 + oy)\<rparr>)"

definition sahi_store :: "(real list \<Rightarrow> nat list) \<Rightarrow> ('w, 'x) yolo \<Rightarrow> tensor \<Rightarrow> crop_params \<Rightarrow> (detection list \<times> int) list \<Rightarrow>
    ('w, (detection list \<times> int) list) io" where
  "sahi_store argsort y p cp out =
     bnd (postprocess_item argsort p (y_conf y) (y_iou y) (y_max_det y) (cp_rx cp, cp_ry cp) (cp_px cp, cp_py cp)) (\<lambda>dets.
     bnd (list_item out (cp_image cp)) (\<lambda>st.
     bnd (store_dets (y_max_det y) st (map (shift_det (cp_ox cp) (cp_oy cp)) dets)) (\<lambda>st'.
     ret (out[cp_image cp := st']))))"

fun sahi_collect :: "(real list \<Rightarrow> nat list) \<Rightarrow> ('w, 'x) yolo \<Rightarrow> tensor list \<Rightarrow> crop_params list \<Rightarrow> (detection list \<times> int) list \<Rightarrow>
    ('w, (detection list \<times> int) list) io" where
  "sahi_collect argsort y [] cps out = ret out"
| "sahi_collect argsort y (p # ps) [] out = raise IndexError"
| "sahi_collect argsort y (p # ps) (cp # cps) out = bnd (sahi_store argsort y p cp out) (sahi_collect argsort y ps cps)"

text \<open>\<^verbatim>\<open>_post_transform\<close>: the detections of all crops of an image, then suppression across crops.\<close>

definition sahi_post_transform :: "(real list \<Rightarrow> nat list) \<Rightarrow> ('w, 'x) yolo \<Rightarrow> tensor list \<Rightarrow> crop_params list \<Rightarrow> nat \<Rightarrow>
    ('w, detection list list) io" where
  "sahi_post_transform argsort y ps cps n_ims =
     bnd (if ps = [] then raise IndexError else sahi_collect argsort y ps cps (replicate n_ims ([], 0))) (\<lambda>out.
     ret (map (\<lambda>(rows, c). map (\<lambda>i. rows ! i) (apply_nms argsort (map d_box rows) (map d_score rows) (y_iou y) (y_max_det y))) out))"

text \<open>\<^verbatim>\<open>backend(..)[0]\<close>, as an array of one matrix a crop.\<close>

definition first_output :: "('w, 'x) backend \<Rightarrow> 'x list \<Rightarrow> ('w, tensor list) io" where
  "first_output b xs = bnd (be_call b xs) (\<lambda>outs. bnd (list_item outs 0) tensor_items)"

text \<open>\<^verbatim>\<open>range(0, n, batch)\<close>, the starts of the chunks.\<close>

definition chunk_starts :: "nat \<Rightarrow> int \<Rightarrow> ('w, nat list) io" where
  "chunk_starts n b = (if b = 0 then raise (ValueError ''range() arg 3 must not be zero'')
     else if b < 0 then ret []
     else ret (map (\<lambda>k. k * nat b) [0..<(n + nat b - 1) div nat b]))"

text \<open>The loop over the chunks, for any backend call and any kind of array: the first output of each
  call is collected, and nothing is read before the last call.\<close>

definition chunk_outputs :: "('c \<Rightarrow> ('w, 'o list) io) \<Rightarrow> 'c list \<Rightarrow> ('w, 'o list) io" where
  "chunk_outputs be chunks = map_io (\<lambda>c. bnd (be c) (\<lambda>outs. case outs of [] \<Rightarrow> raise IndexError | v # _ \<Rightarrow> ret v)) chunks"

text \<open>\<^verbatim>\<open>np.concatenate\<close> along the batch, whose items the caller reads. The outputs of one network agree
  in their other dimensions.\<close>

definition np_concatenate :: "tensor list \<Rightarrow> ('w, tensor list) io" where
  "np_concatenate chunks =
     (if chunks = [] then raise (ValueError ''need at least one array to concatenate'')
      else bnd (map_io tensor_items chunks) (\<lambda>its. ret (concat its)))"

definition sahi_predict :: "('w, 'x) backend \<Rightarrow> int \<Rightarrow> 'x list \<Rightarrow> ('w, tensor list) io" where
  "sahi_predict be b xs =
     (if b = -1 \<or> int (length xs) < b then first_output be xs
      else bnd (chunk_starts (length xs) b) (\<lambda>starts.
        bnd (chunk_outputs (be_call be) (map (\<lambda>i. take (nat b) (drop i xs)) starts)) np_concatenate))"

definition sahi_call :: "('i, 'x) image_ops \<Rightarrow> (real list \<Rightarrow> nat list) \<Rightarrow> ('w, 'x) sahi \<Rightarrow> 'i list \<Rightarrow>
    ('w, detection list list \<times> 'i list) io" where
  "sahi_call I argsort s ims =
     bnd (sahi_pre_transform I s ims) (\<lambda>((xs, cps), ims').
     bnd (sahi_predict (y_backend (s_detector s)) (s_batch s) xs) (\<lambda>ps.
     bnd (sahi_post_transform argsort (s_detector s) ps cps (length ims)) (\<lambda>ds. ret (ds, ims'))))"

section \<open>The model factory\<close>

definition MODEL_IMPORTS :: "(string, string \<times> string) dict" where
  "MODEL_IMPORTS =
    [(''YOLOv8'', (''neudc.nn.models.det.yolo'', ''YOLOv8'')),
     (''SAHIDetector'', (''neudc.nn.models.det.sahi'', ''SAHIDetector'')),
     (''BlurClassification'', (''neudc.nn.models.cls.blur_model'', ''BlurClassification'')),
     (''EmbeddingFilter'', (''neudc.nn.models.cls.embedding_model'', ''EmbeddingFilter''))]"

text \<open>\<^verbatim>\<open>get_backend\<close>: which engines the installation has is given.\<close>

record engines =
  torch_available :: bool
  tensorrt_enabled :: bool
  onnx_enabled :: bool

definition get_backend :: "engines \<Rightarrow> string \<Rightarrow> exn + string" where
  "get_backend e t =
     (if t = ''TorchBackend'' then (if torch_available e then Inr t else Inl (MissingExtraError ''torch''))
      else if t = ''TensorRTBackend'' then (if tensorrt_enabled e then Inr t else Inl (RuntimeError ''TensorRTBackend is not available.''))
      else if t = ''ONNXRuntimeBackend'' then (if onnx_enabled e then Inr t else Inl (RuntimeError ''ONNXRuntimeBackend is not available.''))
      else Inl (ValueError ''Unsupported backend type''))"

definition raw_backend :: "engines \<Rightarrow> yaml \<Rightarrow> exn + string" where
  "raw_backend e v = (case v of YStr t \<Rightarrow> get_backend e t | _ \<Rightarrow> Inl (ValueError ''Unsupported backend type''))"

text \<open>\<^verbatim>\<open>ModelFactory.create\<close>; \<open>build_model\<close> is the class called with the rest of the configuration.\<close>

definition model_create :: "(string \<Rightarrow> exn + unit) \<Rightarrow> engines \<Rightarrow> (string \<Rightarrow> string \<Rightarrow> raw_dict \<Rightarrow> ('w, 'm) io) \<Rightarrow> yaml \<Rightarrow>
    ('w, 'm) io" where
  "model_create imp e build_model cfg = (case cfg of
      YMap d \<Rightarrow> (case y_get d ''type'' YNull of
          YStr t \<Rightarrow> (case dget MODEL_IMPORTS t of
              None \<Rightarrow> raise (ValueError ''Unsupported model type'')
            | Some (module_path, class_name) \<Rightarrow>
                bnd (of_res (import_module_for imp module_path)) (\<lambda>_.
                bnd (of_res (raw_backend e (y_get d ''backend'' (YStr ''TorchBackend'')))) (\<lambda>b.
                build_model class_name b (ddel ''backend'' (ddel ''type'' d)))))
        | v \<Rightarrow> raise (if y_hashable v then ValueError ''Unsupported model type'' else TypeError ''unhashable type''))
    | _ \<Rightarrow> raise (TypeError ''Config must be a dictionary.''))"

section \<open>Where detection fails\<close>

text \<open>Without \<^verbatim>\<open>extract_embeddings\<close>, which is the default, \<^verbatim>\<open>YOLOv8\<close> post-processes the list of
  the network's outputs as if it were the batch: a network that returns its predictions as one
  array over the batch, as the code for embeddings and the sliced detector expect, fails on any input.\<close>

theorem yolo_plain_output_rejected:
  assumes "\<not> y_extract_embeddings y" and "be_call (y_backend y) = (\<lambda>xs. ret (Stack (f xs) # rest xs))"
    and "io_normalize I (be_fp16 (y_backend y)) (map (io_rgb I \<circ> fst) (map (\<lambda>im. letterbox (io_shape I) (io_resize I)
        (io_border I) im (y_imgsz y) False False False (y_stride y)) ims)) = Inr xs"
    and "ims \<noteq> []"
  shows "yolo_call I argsort y ims w = (Inl (TypeError ''No matching definition''), w)"
proof -
  obtain ps where pre: "yolo_pre_transform I y ims w = (Inr (xs, ps), w)" and l: "length ps = length ims"
    using assms(3) by (simp add: yolo_pre_transform_def Let_def bnd_of_res)
  have "yolo_post_transform argsort y (Stack (f xs) # rest xs) ps w = (Inl (TypeError ''No matching definition''), w)"
    using l assms(4) by (cases ps) (simp_all add: yolo_post_transform_def list_item_def bnd_def)
  then show ?thesis
    using assms(1,2) by (simp add: yolo_call_def bnd_ok pre bnd_err)
qed

definition demo_ops :: "(int \<times> int, int \<times> int) image_ops" where
  "demo_ops = \<lparr>io_shape = (\<lambda>s. s), io_resize = (\<lambda>_ s. s),
     io_border = (\<lambda>(h, w) b. (h + b_top b + b_bottom b, w + b_left b + b_right b)), io_rgb = (\<lambda>s. s),
     io_slice = (\<lambda>_ (y1, x1, y2, x2). (y2 - y1, x2 - x1)), io_normalize = (\<lambda>_ ims. Inr ims)\<rparr>"

definition demo_backend :: "(unit, int \<times> int) backend" where
  "demo_backend = \<lparr>be_metadata = \<lparr>md_names = Some (Names_list [''dog'']), md_imgsz = None, md_stride = None\<rparr>, be_fp16 = False,
     be_call = (\<lambda>xs. ret [Stack (map (\<lambda>_. [[2], [2], [2], [2], [1]]) xs)])\<rparr>"

definition demo_yolo :: "(unit, int \<times> int) yolo" where
  "demo_yolo = \<lparr>y_names = [(0, ''dog'')], y_imgsz = (4, 4), y_conf = 1/2, y_iou = 1/2, y_max_det = 1, y_stride = 32,
     y_backend = demo_backend, y_extract_embeddings = False\<rparr>"

lemma demo_yolo_built: "new_yolo (\<lambda>_. None) demo_backend False (Some (Side 4)) None (1/2) (1/2) 1 () = (Inr demo_yolo, ())"
  by (simp add: new_yolo_def demo_backend_def demo_yolo_def check_class_names_def bnd_def dkeys_def shape_missing_def)

theorem yolo_plain_output_rejected_witness:
  "yolo_call demo_ops stable_argsort demo_yolo [(4, 4)] () = (Inl (TypeError ''No matching definition''), ())"
  by (rule yolo_plain_output_rejected [where f = "map (\<lambda>_. [[2], [2], [2], [2], [1]])" and rest = "\<lambda>_. []"])
     (simp_all add: demo_yolo_def demo_backend_def demo_ops_def)

text \<open>The overlap of a sliced detector is checked against the crop size asked for, not against the
  one it uses: when the network's own size replaces the crop and is smaller than the accepted
  overlap, an image beyond the overlap gets no tile at all, without an error.\<close>

theorem sahi_overlap_unchecked:
  assumes "s = new_sahi y (Dims ch cw) (Dims ov ow) b" and "y_imgsz y = (dh, dw)" and "dh \<noteq> ch"
    and "0 \<le> ov" and "ov < ch" and "0 \<le> ow" and "ow < cw" and "dh < ov" and "dw \<noteq> ow" and "ov + 1 < fst (io_shape I im)"
  shows "s_crop_size s = (dh, dw) \<and> s_crop_overlap s = (ov, ow) \<and>
    make_slices I im (s_crop_size s) (s_crop_overlap s) k w = (Inr [], w)"
proof -
  have s: "s_crop_size s = (dh, dw)" "s_crop_overlap s = (ov, ow)"
    using assms by (simp_all add: new_sahi_def Let_def)
  obtain ih iw where sh: "io_shape I im = (ih, iw)" by (cases "io_shape I im")
  have "(ih - dh + (dh - ov) - 1) div (dh - ov) < 0"
    using assms(8,10) sh by (simp add: pos_imp_zdiv_neg_iff neg_imp_zdiv_nonneg_iff linorder_not_le [symmetric])
  then have y: "tile_starts ih dh ov = Inr []"
    using assms(8,10) sh by (simp add: tile_starts_def Let_def)
  have "\<exists>xs. tile_starts iw dw ow = Inr xs" using assms(9) by (simp add: tile_starts_def Let_def)
  then obtain xs where "tile_starts iw dw ow = Inr xs" ..
  from tiles_grid [OF y this] show ?thesis
    by (auto simp: s make_slices_def sh bnd_of_res)
qed

theorem sahi_overlap_unchecked_witness:
  "make_slices demo_ops (1000, 1000) (s_crop_size (new_sahi demo_yolo (Dims 640 640) (Dims 100 100) 16))
     (s_crop_overlap (new_sahi demo_yolo (Dims 640 640) (Dims 100 100) 16)) 0 () = (Inr [], ())"
  by (rule sahi_overlap_unchecked [OF refl, where dh = 4 and dw = 4, THEN conjunct2, THEN conjunct2])
    (simp_all add: demo_yolo_def demo_ops_def)

lemma postprocess_bounded:
  assumes "argsort_ok argsort" and "0 < max_det"
  shows "int (length (postprocess_yolo_outputs argsort p conf iou max_det ratio pad)) \<le> max_det"
proof -
  let ?ds = "decode_output p conf ratio pad"
  have "int (length (apply_nms argsort (map d_box ?ds) (map d_score ?ds) iou max_det)) \<le> max_det"
    using nms_is_greedy [of argsort "map d_box ?ds" "map d_score ?ds" iou max_det] assms(2) by (simp add: max_def split: if_splits)
  then show ?thesis by (simp add: postprocess_yolo_outputs_def Let_def)
qed

lemma store_first: "int (length ds) \<le> max_det \<Longrightarrow> store_dets max_det ([], 0) ds w = (Inr (ds, int (length ds)), w)"
  by (simp add: store_dets_def Let_def)

lemma store_overflow:
  assumes "0 \<le> c" and "c \<le> max_det" and "max_det < c + int (length ds)" and "2 \<le> length ds"
  shows "store_dets max_det (rows, c) ds w = (Inl (ValueError ''cannot assign slice from input of different size''), w)"
  using assms by (simp add: store_dets_def Let_def)

text \<open>The sliced detector has room for \<^verbatim>\<open>max_det\<close> detections an image before suppression across
  tiles, although every tile may report that many: when the first two crops of an image together
  report more, post-processing raises instead of suppressing the surplus.\<close>

theorem sahi_buffer_overflow:
  assumes "argsort_ok argsort" and "0 < y_max_det y" and "0 < n_ims"
    and "cp_image cp1 = 0" and "cp_image cp2 = 0"
    and "ds1 = postprocess_yolo_outputs argsort m1 (y_conf y) (y_iou y) (y_max_det y) (cp_rx cp1, cp_ry cp1) (cp_px cp1, cp_py cp1)"
    and "ds2 = postprocess_yolo_outputs argsort m2 (y_conf y) (y_iou y) (y_max_det y) (cp_rx cp2, cp_ry cp2) (cp_px cp2, cp_py cp2)"
    and "2 \<le> length ds2" and "y_max_det y < int (length ds1 + length ds2)"
  shows "sahi_post_transform argsort y (Mat m1 # Mat m2 # ps) (cp1 # cp2 # cps) n_ims w =
    (Inl (ValueError ''cannot assign slice from input of different size''), w)"
proof -
  let ?out = "replicate n_ims ([] :: detection list, 0 :: int)"
  let ?ds1 = "map (shift_det (cp_ox cp1) (cp_oy cp1)) ds1" and ?ds2 = "map (shift_det (cp_ox cp2) (cp_oy cp2)) ds2"
  have l: "int (length ?ds1) \<le> y_max_det y" using postprocess_bounded [OF assms(1,2)] by (simp add: assms(6))
  define out1 where "out1 = ?out[0 := (?ds1, int (length ?ds1))]"
  have 1: "sahi_store argsort y (Mat m1) cp1 ?out w = (Inr out1, w)"
    using assms(3,4) store_first [OF l, of w] by (simp add: sahi_store_def list_item_def bnd_ok assms(6) [symmetric] out1_def)
  have out1: "0 < length out1" "out1 ! 0 = (?ds1, int (length ?ds1))" using assms(3) by (simp_all add: out1_def)
  have "store_dets (y_max_det y) (out1 ! 0) ?ds2 w = (Inl (ValueError ''cannot assign slice from input of different size''), w)"
    using assms(8,9) l unfolding out1(2) by (intro store_overflow) auto
  then have 2: "sahi_store argsort y (Mat m2) cp2 out1 w =
      (Inl (ValueError ''cannot assign slice from input of different size''), w)"
    using assms(5) out1(1) by (simp add: sahi_store_def list_item_def bnd_err assms(7) [symmetric])
  have "sahi_collect argsort y (Mat m1 # Mat m2 # ps) (cp1 # cp2 # cps) ?out w =
      (Inl (ValueError ''cannot assign slice from input of different size''), w)"
    unfolding sahi_collect.simps by (rule trans [OF bnd_ok], rule 1) (simp add: bnd_err 2)
  then show ?thesis by (simp add: sahi_post_transform_def bnd_err del: sahi_collect.simps)
qed

definition demo_output :: "real list list" where
  "demo_output = [[2, 20], [2, 20], [2, 2], [2, 2], [3/4, 1/2]]"

lemma demo_two_detections:
  "length (postprocess_yolo_outputs stable_argsort demo_output (1/4) (1/2) 3 (1, 1) (0, 0)) = 2"
proof -
  have a: "stable_argsort [3/4, 1/2] = [1, 0]" by (simp add: stable_argsort_def upt_rec)
  show ?thesis
    by (simp add: postprocess_yolo_outputs_def demo_output_def decode_output_def positions_def apply_nms_def a
        compute_iou_def iou_below_def Let_def)
qed

definition demo_crop :: crop_params where
  "demo_crop = \<lparr>cp_ry = 1, cp_rx = 1, cp_py = 0, cp_px = 0, cp_image = 0, cp_oy = 0, cp_ox = 0\<rparr>"

theorem sahi_buffer_overflow_witness:
  "sahi_post_transform stable_argsort (demo_yolo\<lparr>y_max_det := 3, y_conf := 1/4\<rparr>) [Mat demo_output, Mat demo_output]
     [demo_crop, demo_crop\<lparr>cp_ox := 4\<rparr>] 1 () = (Inl (ValueError ''cannot assign slice from input of different size''), ())"
  by (rule sahi_buffer_overflow [OF stable_argsort_ok _ _ _ _ refl refl])
     (simp_all add: demo_yolo_def demo_crop_def demo_two_detections)

end
