(* ===== verification/Inference_Nodes.thy ===== *)
theory Inference_Nodes
  imports Detectors Py_Queue Tools
begin

text \<open>
  The inference nodes of \<^verbatim>\<open>neudc/core/node/model\<close>: waiting for the model, collecting frames into
  batches (\<^verbatim>\<open>base_batch_process_inference.py\<close>, \<^verbatim>\<open>mixins/collect_batch.py\<close>), and what each node
  does with the result of its model: boxes, blur flags, or a selection by clustered embeddings. The
  node's frames are mutable objects shared with the batch, so a post-processing runs over the frames
  it was given and leaves them as it found or changed them. DBSCAN is an argument.
\<close>

section \<open>Frames and folders\<close>

text \<open>A frame message: the envelope, which carries the drop flag, and the frame itself.\<close>

type_synonym fmsg = "envelope \<times> frame"

definition set_drop :: "bool \<Rightarrow> fmsg \<Rightarrow> fmsg" where
  "set_drop b m = ((fst m)\<lparr>drop_flag := b\<rparr>, snd m)"

definition dropped_frame :: "fmsg \<Rightarrow> bool" where
  "dropped_frame m = drop_flag (fst m)"

text \<open>\<^verbatim>\<open>Path(source).parent\<close>, one value a text of it, and the \<^verbatim>\<open>name\<close> of that folder.\<close>

definition parent_dir :: "string \<Rightarrow> bool \<times> path" where
  "parent_dir s = (case parse_path s of (absolute, cs) \<Rightarrow> (absolute, butlast cs))"

definition parent_name :: "string \<Rightarrow> string" where
  "parent_name s = (case snd (parent_dir s) of [] \<Rightarrow> [] | cs \<Rightarrow> last cs)"

definition the_default :: "'a \<Rightarrow> 'a option \<Rightarrow> 'a" where
  "the_default d v = (case v of None \<Rightarrow> d | Some x \<Rightarrow> x)"

section \<open>Waiting for the model\<close>

text \<open>\<^verbatim>\<open>while self.model is None: time.sleep(0.1)\<close>: a loop that need not end.\<close>

partial_function (option) wait_model :: "('w, 'm option) io \<Rightarrow> ('w, unit) io \<Rightarrow> 'w \<Rightarrow> ((exn + 'm) \<times> 'w) option" where
  "wait_model model nap w = (case model w of
      (Inl e, w1) \<Rightarrow> Some (Inl e, w1)
    | (Inr (Some m), w1) \<Rightarrow> Some (Inr m, w1)
    | (Inr None, w1) \<Rightarrow> (case nap w1 of
        (Inl e, w2) \<Rightarrow> Some (Inl e, w2)
      | (Inr _, w2) \<Rightarrow> wait_model model nap w2))"

text \<open>\<^verbatim>\<open>process\<close> of a single-frame node and of a batch node: the images of the item through the
  model, the result through the node's post-processing.\<close>

definition infer_process :: "('w, 'm option) io \<Rightarrow> ('w, unit) io \<Rightarrow> ('m \<Rightarrow> ndarray list \<Rightarrow> ('w, 'r) io) \<Rightarrow>
    ('r \<Rightarrow> ('w, 'o) io) \<Rightarrow> ndarray list \<Rightarrow> 'w \<Rightarrow> ((exn + 'o) \<times> 'w) option" where
  "infer_process model nap call post ims w =
     map_option (\<lambda>(r, w1). case r of Inl e \<Rightarrow> (Inl e, w1) | Inr m \<Rightarrow> bnd (call m ims) post w1) (wait_model model nap w)"

record 'm inference =
  in_model :: "'m option"
  model_initialized :: bool

text \<open>\<^verbatim>\<open>init_process_runtime\<close>: the flag is set before the model is built.\<close>

definition init_model :: "('w, 'm) io \<Rightarrow> ('m inference \<times> 'w, unit) io" where
  "init_model create =
     bnd self (\<lambda>n. if model_initialized n then ret ()
       else seq (on_self (\<lambda>n. n\<lparr>model_initialized := True\<rparr>))
         (bnd (lift_w create) (\<lambda>m. on_self (\<lambda>n. n\<lparr>in_model := Some m\<rparr>))))"

section \<open>Collecting batches\<close>

text \<open>The inner loop of \<^verbatim>\<open>_collect_batch\<close>: messages are received until the batch is full, the time
  is up or nothing arrives; \<open>remaining\<close> reads the clock. Every turn adds a message or ends.\<close>

function fill_batch :: "nat \<Rightarrow> ('w, real) io \<Rightarrow> (real \<Rightarrow> ('w, 'm option) io) \<Rightarrow> 'm list \<Rightarrow> ('w, 'm list) io" where
  "fill_batch batch_size remaining receive fs =
     (if length fs < batch_size then
        bnd remaining (\<lambda>t. if t \<le> 0 then ret fs
          else bnd (receive t) (\<lambda>r. case r of
            None \<Rightarrow> ret fs
          | Some m \<Rightarrow> fill_batch batch_size remaining receive (fs @ [m])))
      else ret fs)"
  by pat_completeness auto
termination
  by (relation "measure (\<lambda>(n, r, c, fs). n - length fs)") auto

declare fill_batch.simps [simp del]

text \<open>The end of a turn with a batch: a full queue makes the thread wait for room, or give up the
  batch when the node stops. An empty batch is not offered.\<close>

datatype collected = Queued | Waiting | Abandoned

definition offer_batch :: "'b \<Rightarrow> bool \<Rightarrow> 'b pyqueue \<Rightarrow> collected \<times> 'b pyqueue" where
  "offer_batch b stopping q = (case Py_Queue.put_nowait b q of
      Inr q' \<Rightarrow> (Queued, q')
    | Inl _ \<Rightarrow> (if stopping then Abandoned else Waiting, q))"

text \<open>\<^verbatim>\<open>_collect_data\<close>.\<close>

definition collect_data :: "'b pyqueue \<Rightarrow> 'b option \<times> 'b pyqueue" where
  "collect_data q = (case Py_Queue.get_nowait q of Inr (b, q') \<Rightarrow> (Some b, q') | Inl _ \<Rightarrow> (None, q))"

section \<open>Boxes\<close>

text \<open>A row of the detector's output, and \<^verbatim>\<open>int(x)\<close>, which truncates.\<close>

definition box_of :: "(int, string) dict \<Rightarrow> detection \<Rightarrow> ('w, box) io" where
  "box_of names d = (case d_box d of (x, y, x2, y2) \<Rightarrow>
     case dget names (int (d_class d)) of
       None \<Rightarrow> raise KeyError
     | Some n \<Rightarrow> ret \<lparr>box_source_node_id = -1, bx1 = of_int (py_trunc x), by1 = of_int (py_trunc y),
         bx2 = of_int (py_trunc x2), by2 = of_int (py_trunc y2), class_id_name = n, class_id_num = int (d_class d),
         box_score = d_score d, labels = None, reid = ''-1''\<rparr>)"

definition extend_boxes :: "box list \<Rightarrow> fmsg \<Rightarrow> fmsg" where
  "extend_boxes bs m = (fst m, (snd m)\<lparr>boxes := boxes (snd m) @ bs\<rparr>)"

text \<open>\<^verbatim>\<open>ProcessDetInference.postprocess_result\<close>: the frame is changed once all boxes are built.\<close>

definition det_postprocess :: "(int, string) dict \<Rightarrow> detection list list \<Rightarrow> fmsg \<Rightarrow> ('w, fmsg) io" where
  "det_postprocess names result m =
     bnd (list_item result 0) (\<lambda>ds.
     bnd (map_io (box_of names) ds) (\<lambda>bs. ret (extend_boxes bs m)))"

definition set_embedding :: "ndarray \<Rightarrow> fmsg \<Rightarrow> fmsg" where
  "set_embedding e m = (fst m, (snd m)\<lparr>embedding := Some e\<rparr>)"

text \<open>\<^verbatim>\<open>ProcessDetBatchInference.postprocess_result\<close>: the frames of the batch are changed one by one,
  and a mismatch of the lengths shows only when one side is used up.\<close>

fun det_batch_loop :: "(int, string) dict \<Rightarrow> ndarray list option \<Rightarrow> nat \<Rightarrow> detection list list \<Rightarrow> (fmsg list, unit) io" where
  "det_batch_loop names embs i [] = (\<lambda>ms. if i = length ms then (Inr (), ms) else (Inl (ValueError ''zip()''), ms))"
| "det_batch_loop names embs i (ds # preds) = (\<lambda>ms.
     if i \<ge> length ms then (Inl (ValueError ''zip()''), ms)
     else (case map_io (box_of names) ds () of
         (Inl e, _) \<Rightarrow> (Inl e, ms)
       | (Inr bs, _) \<Rightarrow>
           (let ms1 = ms[i := extend_boxes bs (ms ! i)] in
            case embs of
              None \<Rightarrow> det_batch_loop names embs (Suc i) preds ms1
            | Some es \<Rightarrow> if i < length es
                then det_batch_loop names embs (Suc i) preds (ms1[i := set_embedding (es ! i) (ms1 ! i)])
                else (Inl IndexError, ms1))))"

definition det_batch_postprocess :: "(int, string) dict \<Rightarrow> ndarray list option \<Rightarrow> detection list list \<Rightarrow> (fmsg list, unit) io" where
  "det_batch_postprocess names embs preds = det_batch_loop names embs 0 preds"

section \<open>Blur\<close>

text \<open>\<^verbatim>\<open>ProcessBlurInference.postprocess_result\<close>: a frame with any blurry result is flagged.\<close>

fun blur_postprocess :: "bool list list \<Rightarrow> (fmsg, unit) io" where
  "blur_postprocess [] = ret ()"
| "blur_postprocess (res # result) = (case res of
      [] \<Rightarrow> raise IndexError
    | b # _ \<Rightarrow> seq (if b then modify (set_drop True) else ret ()) (blur_postprocess result))"

section \<open>Selection by embeddings\<close>

type_synonym dir = "bool \<times> path"

record embedder =
  emb_cache :: "(dir, (int, real list) dict) dict"
  frame_cache :: "(dir, (int, fmsg) dict) dict"
  num_extremes :: int

definition vdist :: "real list \<Rightarrow> real list \<Rightarrow> real" where
  "vdist xs ys = sqrt (sum_list (map2 (\<lambda>x y. (x - y)\<^sup>2) xs ys))"

definition centroid_of :: "real list list \<Rightarrow> real list" where
  "centroid_of es = map (\<lambda>k. sum_list (map (\<lambda>e. e ! k) es) / real (length es)) [0..<length (hd es)]"

text \<open>\<^verbatim>\<open>argmin\<close> and \<^verbatim>\<open>argmax\<close>: the first index of the least and of the greatest value.\<close>

definition first_min :: "real list \<Rightarrow> nat" where
  "first_min xs = length (takeWhile (\<lambda>x. Min (set xs) < x) xs)"

definition first_max :: "real list \<Rightarrow> nat" where
  "first_max xs = length (takeWhile (\<lambda>x. x < Max (set xs)) xs)"

text \<open>The unselected point farthest from its nearest selected point, the first of several; None
  when all points are selected.\<close>

definition farthest :: "real list list \<Rightarrow> nat list \<Rightarrow> nat option" where
  "farthest es sel = fst (fold (\<lambda>j (best, best_dist).
     if j \<in> set sel then (best, best_dist)
     else let d = Min (set (map (\<lambda>i. vdist (es ! j) (es ! i)) sel)) in
       if d > best_dist then (Some j, d) else (best, best_dist)) [0..<length es] (None, -1))"

function extremes :: "real list list \<Rightarrow> int \<Rightarrow> nat list \<Rightarrow> nat list" where
  "extremes es n sel = (if int (length sel) < 1 + n then
      (case farthest es sel of None \<Rightarrow> sel | Some j \<Rightarrow> extremes es n (sel @ [j]))
    else sel)"
  by pat_completeness auto
termination
  by (relation "measure (\<lambda>(es, n, sel). nat (1 + n) - length sel)") auto

declare extremes.simps [simp del]

text \<open>The picked points of one cluster, as indices of its members: the medoid, the point farthest
  from it unless all points coincide, and further extremes.\<close>

definition pick_cluster :: "int \<Rightarrow> real list list \<Rightarrow> nat list" where
  "pick_cluster n es =
     (let d2c = map (vdist (centroid_of es)) es;
          medoid = first_min d2c;
          far = (if \<forall>d \<in> set d2c. \<bar>d\<bar> \<le> 1 / 100000000 then medoid else first_max (map (vdist (es ! medoid)) es));
          sel = (if far = medoid then [medoid] else [medoid, far])
      in if n \<noteq> 0 then extremes es n sel else sel)"

definition members_of :: "int \<Rightarrow> int list \<Rightarrow> int list \<Rightarrow> int list" where
  "members_of lbl fids lbs = map fst (filter (\<lambda>(f, l). l = lbl) (zip fids lbs))"

definition pick_label :: "int \<Rightarrow> (int, real list) dict \<Rightarrow> int list \<Rightarrow> int list \<Rightarrow> int \<Rightarrow> int list" where
  "pick_label n embs fids lbs lbl =
     (let ms = members_of lbl fids lbs in
      if lbl = -1 then ms else map (\<lambda>i. ms ! i) (pick_cluster n (map (\<lambda>f. the (dget embs f)) ms)))"

definition picked_ids :: "int \<Rightarrow> (int, real list) dict \<Rightarrow> int list \<Rightarrow> int list \<Rightarrow> int list" where
  "picked_ids n embs fids lbs = concat (map (pick_label n embs fids lbs) (sorted_list_of_set (set lbs)))"

definition mark_unpicked :: "int list \<Rightarrow> int \<times> fmsg \<Rightarrow> fmsg" where
  "mark_unpicked picked p = (case p of (fid, m) \<Rightarrow> if dropped_frame m then m else set_drop (fid \<notin> set picked) m)"

text \<open>\<^verbatim>\<open>cluster_and_select\<close>; a frame id names one frame of the source, so the pair with its path
  that the code collects says no more than the id.\<close>

definition cluster_and_select :: "(real list list \<Rightarrow> int list) \<Rightarrow> dir \<Rightarrow> (embedder, fmsg list) io" where
  "cluster_and_select cluster src =
     bnd get_world (\<lambda>s. case (dget (emb_cache s) src, dget (frame_cache s) src) of
       (Some embs, Some frs) \<Rightarrow>
         seq (modify (\<lambda>s. s\<lparr>emb_cache := ddel src (emb_cache s), frame_cache := ddel src (frame_cache s)\<rparr>))
         (if embs = [] then ret (map snd frs)
          else let fids = sort (dkeys embs); all_emb = map (\<lambda>f. the (dget embs f)) fids; lbs = cluster all_emb in
            if \<exists>e \<in> set all_emb. length e \<noteq> length (hd all_emb) then raise (ValueError ''all input arrays must have the same shape'')
            else if length lbs \<noteq> length fids then raise (ValueError ''zip()'')
            else ret (map (mark_unpicked (picked_ids (num_extremes s) embs fids lbs)) frs))
     | _ \<Rightarrow> raise KeyError)"

definition cache_frame :: "dir \<Rightarrow> real list \<Rightarrow> fmsg \<Rightarrow> embedder \<Rightarrow> embedder" where
  "cache_frame src e m s =
     s\<lparr>emb_cache := dset src (dset (frame_id (snd m)) e (the_default [] (dget (emb_cache s) src))) (emb_cache s),
       frame_cache := dset src (dset (frame_id (snd m)) m (the_default [] (dget (frame_cache s) src))) (frame_cache s)\<rparr>"

text \<open>\<^verbatim>\<open>postprocess_result\<close>: it returns at the first frame that completes its source.\<close>

fun embed_postprocess :: "(real list list \<Rightarrow> int list) \<Rightarrow> real list list \<Rightarrow> fmsg list \<Rightarrow> (embedder, fmsg list option) io" where
  "embed_postprocess cluster [] [] = ret None"
| "embed_postprocess cluster (e # es) (m # ms) =
     (let src = parent_dir (source_frame (snd m)) in
      seq (modify (cache_frame src e m)) (
      bnd get_world (\<lambda>s.
      if int (length (the_default [] (dget (frame_cache s) src))) = frame_id_last (snd m)
      then bnd (cluster_and_select cluster src) (\<lambda>out. ret (Some out))
      else embed_postprocess cluster es ms)))"
| "embed_postprocess cluster _ _ = raise (ValueError ''zip()'')"

section \<open>What the selection keeps\<close>

lemma takeWhile_shorter: "x \<in> set xs \<Longrightarrow> \<not> P x \<Longrightarrow> length (takeWhile P xs) < length xs"
  by (induction xs) auto

lemma first_min_less: "xs \<noteq> [] \<Longrightarrow> first_min xs < length xs"
  unfolding first_min_def by (rule takeWhile_shorter [of "Min (set xs)"]) auto

lemma extremes_extends: "\<exists>more. extremes es n sel = sel @ more"
proof (induction es n sel rule: extremes.induct)
  case (1 es n sel)
  then show ?case
    by (subst extremes.simps) (fastforce split: option.splits)
qed

lemma pick_cluster_medoid: "es \<noteq> [] \<Longrightarrow> \<exists>i. i \<in> set (pick_cluster n es) \<and> i < length es"
proof -
  assume "es \<noteq> []"
  then have l: "first_min (map (vdist (centroid_of es)) es) < length es"
    using first_min_less [of "map (vdist (centroid_of es)) es"] by simp
  have "first_min (map (vdist (centroid_of es)) es) \<in> set (pick_cluster n es)"
  proof -
    have "x \<in> set sel \<Longrightarrow> x \<in> set (extremes es n sel)" for x sel using extremes_extends [of es n sel] by auto
    then show ?thesis by (simp add: pick_cluster_def Let_def)
  qed
  then show ?thesis using l by blast
qed

lemma members_of_iff: "f \<in> set (members_of lbl fids lbs) \<longleftrightarrow> (f, lbl) \<in> set (zip fids lbs)"
  by (force simp: members_of_def)

lemma pick_label_some:
  assumes "length fids = length lbs" and "lbl \<in> set lbs"
  shows "\<exists>fid \<in> set (pick_label n embs fids lbs lbl). (fid, lbl) \<in> set (zip fids lbs)"
proof -
  let ?ms = "members_of lbl fids lbs"
  obtain f where f: "(f, lbl) \<in> set (zip fids lbs)"
    using assms by (metis in_set_impl_in_set_zip2)
  show ?thesis
  proof (cases "lbl = -1")
    case True
    then show ?thesis using f by (auto simp: pick_label_def Let_def members_of_iff)
  next
    case False
    have "map (\<lambda>f. the (dget embs f)) ?ms \<noteq> []" using f members_of_iff [of f lbl fids lbs] by auto
    from pick_cluster_medoid [OF this] obtain i where
      i: "i \<in> set (pick_cluster n (map (\<lambda>f. the (dget embs f)) ?ms))" "i < length ?ms" by auto
    then have "?ms ! i \<in> set (pick_label n embs fids lbs lbl)" "?ms ! i \<in> set ?ms"
      using False by (auto simp: pick_label_def Let_def)
    then show ?thesis by (auto simp: members_of_iff)
  qed
qed

text \<open>Selecting by embeddings drops duplicates only: the frames of the source come back all, in
  order of arrival and changed in nothing but the drop flag, a frame that was dropped stays so,
  every cluster keeps a frame, every frame outside the clusters is kept, and the source's caches are
  cleared.\<close>

theorem clusters_represented:
  assumes "cluster_and_select cluster src s = (Inr out, s')" and "dget (emb_cache s) src = Some embs"
    and "dget (frame_cache s) src = Some frs" and "embs \<noteq> []"
    and "fids = sort (dkeys embs)" and "lbs = cluster (map (\<lambda>f. the (dget embs f)) fids)"
  shows "\<exists>picked. out = map (\<lambda>(fid, m). if dropped_frame m then m else set_drop (fid \<notin> picked) m) frs \<and>
    list_all (\<lambda>lbl. \<exists>fid \<in> picked. (fid, lbl) \<in> set (zip fids lbs)) lbs \<and>
    list_all (\<lambda>(fid, lbl). lbl = -1 \<longrightarrow> fid \<in> picked) (zip fids lbs) \<and>
    dget (emb_cache s') src = None \<and> dget (frame_cache s') src = None"
proof -
  let ?p = "picked_ids (num_extremes s) embs fids lbs"
  have out: "out = map (mark_unpicked ?p) frs" and len: "length fids = length lbs"
    and s': "dget (emb_cache s') src = None" "dget (frame_cache s') src = None"
    using assms by (auto simp: cluster_and_select_def io_simps get_world_def Let_def split: if_splits)
  have p: "set ?p = (\<Union>lbl \<in> set lbs. set (pick_label (num_extremes s) embs fids lbs lbl))"
    by (simp add: picked_ids_def)
  have "\<exists>fid \<in> set ?p. (fid, lbl) \<in> set (zip fids lbs)" if "lbl \<in> set lbs" for lbl
    using pick_label_some [OF len that, of "num_extremes s" embs] that unfolding p by blast
  moreover have "fid \<in> set ?p" if "(fid, -1) \<in> set (zip fids lbs)" for fid
  proof -
    have "-1 \<in> set lbs" using that by (rule set_zip_rightD)
    moreover have "fid \<in> set (pick_label (num_extremes s) embs fids lbs (-1))"
      using that by (simp add: pick_label_def Let_def members_of_iff)
    ultimately show ?thesis unfolding p by blast
  qed
  ultimately show ?thesis
    using out s' by (intro exI [of _ "set ?p"]) (auto simp: mark_unpicked_def list_all_iff)
qed

definition demo_fmsg :: "string \<Rightarrow> int \<Rightarrow> int \<Rightarrow> fmsg" where
  "demo_fmsg src i n = (new_envelope 0, \<lparr>image = \<lparr>nd_shape = [1, 1], nd_data = [0]\<rparr>, source_frame = src, frame_id = i,
     boxes = [], embedding = None, frame_id_last = n\<rparr>)"

definition demo_embedder :: embedder where
  "demo_embedder = \<lparr>emb_cache = [((False, [''a'']), [(0, [1, 0]), (1, [0, 1])])],
     frame_cache = [((False, [''a'']), [(0, demo_fmsg ''a/0'' 0 2), (1, demo_fmsg ''a/1'' 1 2)])], num_extremes = 0\<rparr>"

theorem clusters_represented_witness:
  "\<exists>out s'. cluster_and_select (\<lambda>_. [0, -1]) (False, [''a'']) demo_embedder = (Inr out, s') \<and>
     out = [set_drop False (demo_fmsg ''a/0'' 0 2), set_drop False (demo_fmsg ''a/1'' 1 2)]"
proof -
  let ?fids = "sort (dkeys [(0 :: int, [1, 0 :: real]), (1, [0, 1])])"
  have f: "?fids = [0, 1]" by (simp add: dkeys_def)
  obtain out s' where r: "cluster_and_select (\<lambda>_. [0, -1]) (False, [''a'']) demo_embedder = (Inr out, s')"
    by (simp add: cluster_and_select_def demo_embedder_def get_world_def bnd_def seq_def dkeys_def Let_def)
  have nd: "\<not> dropped_frame (demo_fmsg f i n)" for f i n by (simp add: dropped_frame_def demo_fmsg_def new_envelope_def)
  from clusters_represented [OF r, of "[(0, [1, 0]), (1, [0, 1])]" "[(0, demo_fmsg ''a/0'' 0 2), (1, demo_fmsg ''a/1'' 1 2)]" ?fids "[0, -1]"]
  have "out = [set_drop False (demo_fmsg ''a/0'' 0 2), set_drop False (demo_fmsg ''a/1'' 1 2)]"
    unfolding f by (auto simp: demo_embedder_def nd)
  then show ?thesis using r by blast
qed

text \<open>The first frame of a batch that completes its source ends the post-processing of the whole
  batch: whatever frames follow it are neither selected, nor cached, nor returned.\<close>

theorem embedding_batch_tail_lost:
  assumes "embed_postprocess cluster es ms s = (Inr (Some out), s')"
  shows "embed_postprocess cluster (es @ es') (ms @ ms') s = (Inr (Some out), s')"
  using assms
proof (induction cluster es ms arbitrary: s rule: embed_postprocess.induct)
  case (2 cluster e es m ms)
  let ?s1 = "cache_frame (parent_dir (source_frame (snd m))) e m s"
  show ?case
  proof (cases "int (length (the_default [] (dget (frame_cache ?s1) (parent_dir (source_frame (snd m)))))) = frame_id_last (snd m)")
    case True
    then show ?thesis using 2(2) by (simp add: seq_def bnd_def get_world_def Let_def)
  next
    case False
    then have "embed_postprocess cluster es ms ?s1 = (Inr (Some out), s')"
      using 2(2) by (simp add: seq_def bnd_def get_world_def Let_def)
    from 2(1) [OF refl False this] show ?thesis
      using False by (simp add: seq_def bnd_def get_world_def Let_def)
  qed
qed (simp_all)

theorem embedding_batch_tail_lost_witness:
  "embed_postprocess (\<lambda>_. [0]) [[1], [2]] [demo_fmsg ''a/0'' 0 1, demo_fmsg ''b/0'' 0 9]
     \<lparr>emb_cache = [], frame_cache = [], num_extremes = 0\<rparr> =
   (Inr (Some [demo_fmsg ''a/0'' 0 1]), \<lparr>emb_cache = [], frame_cache = [], num_extremes = 0\<rparr>)"
proof -
  have c: "pick_cluster 0 [[1 :: real]] = [0]"
    by (simp add: pick_cluster_def centroid_of_def first_min_def vdist_def Let_def)
  have "parent_dir ''a/0'' = (False, [''a''])" by (simp add: parent_dir_def parse_path_def)
  then have "embed_postprocess (\<lambda>_. [0]) [[1]] [demo_fmsg ''a/0'' 0 1] \<lparr>emb_cache = [], frame_cache = [], num_extremes = 0\<rparr> =
      (Inr (Some [demo_fmsg ''a/0'' 0 1]), \<lparr>emb_cache = [], frame_cache = [], num_extremes = 0\<rparr>)"
    by (simp add: demo_fmsg_def cache_frame_def the_default_def seq_def bnd_def get_world_def cluster_and_select_def
        Let_def dkeys_def picked_ids_def pick_label_def members_of_def c mark_unpicked_def dropped_frame_def set_drop_def new_envelope_def)
  from embedding_batch_tail_lost [OF this, of "[[2]]" "[demo_fmsg ''b/0'' 0 9]"] show ?thesis by simp
qed

section \<open>The collecting thread\<close>

text \<open>The collector and the consumer as an interleaving: the queue of batches, the batch being
  filled, the batch that waits for room, and as ghosts what was received, what the node took and
  what was given up.\<close>

record 'm collector =
  col_size :: nat
  col_queue :: "'m list pyqueue"
  col_cur :: "'m list"
  col_held :: "'m list option"
  col_over :: bool
  g_received :: "'m list"
  g_taken :: "'m list list"
  g_lost :: "'m list"

definition col_receive :: "'m \<Rightarrow> 'm collector \<Rightarrow> 'm collector" where
  "col_receive m s = s\<lparr>col_cur := col_cur s @ [m], g_received := g_received s @ [m]\<rparr>"

definition col_close :: "'m collector \<Rightarrow> 'm collector" where
  "col_close s = s\<lparr>col_held := (if col_cur s = [] then None else Some (col_cur s)), col_cur := []\<rparr>"

definition col_put :: "bool \<Rightarrow> 'm list \<Rightarrow> 'm collector \<Rightarrow> 'm collector" where
  "col_put stopping b s = (case offer_batch b stopping (col_queue s) of
      (Queued, q) \<Rightarrow> s\<lparr>col_queue := q, col_held := None\<rparr>
    | (Abandoned, q) \<Rightarrow> s\<lparr>col_queue := q, col_held := None, col_over := True, g_lost := b\<rparr>
    | (Waiting, q) \<Rightarrow> s\<lparr>col_queue := q\<rparr>)"

definition col_take :: "'m collector \<Rightarrow> 'm collector" where
  "col_take s = (case collect_data (col_queue s) of
      (Some b, q) \<Rightarrow> s\<lparr>col_queue := q, g_taken := g_taken s @ [b]\<rparr>
    | (None, q) \<Rightarrow> s\<lparr>col_queue := q\<rparr>)"

inductive col_step :: "'m collector \<Rightarrow> 'm collector \<Rightarrow> bool" where
  step_receive: "\<not> col_over s \<Longrightarrow> col_held s = None \<Longrightarrow> length (col_cur s) < col_size s \<Longrightarrow> col_step s (col_receive m s)"
| step_close: "\<not> col_over s \<Longrightarrow> col_held s = None \<Longrightarrow> col_step s (col_close s)"
| step_put: "\<not> col_over s \<Longrightarrow> col_held s = Some b \<Longrightarrow> col_step s (col_put stopping b s)"
| step_end: "\<not> col_over s \<Longrightarrow> col_held s = None \<Longrightarrow> col_cur s = [] \<Longrightarrow> col_step s (s\<lparr>col_over := True\<rparr>)"
| step_take: "col_step s (col_take s)"

definition col_start :: "nat \<Rightarrow> int \<Rightarrow> 'm collector" where
  "col_start n bound = \<lparr>col_size = n, col_queue = new_queue bound, col_cur = [], col_held = None, col_over = False,
     g_received = [], g_taken = [], g_lost = []\<rparr>"

definition col_init :: "'m collector \<Rightarrow> bool" where
  "col_init s \<longleftrightarrow> (\<exists>n bound. s = col_start n bound)"

definition held_items :: "'m collector \<Rightarrow> 'm list" where
  "held_items s = (case col_held s of None \<Rightarrow> [] | Some b \<Rightarrow> b)"

definition batch_sized :: "nat \<Rightarrow> 'm list \<Rightarrow> bool" where
  "batch_sized n b \<longleftrightarrow> b \<noteq> [] \<and> length b \<le> n"

definition col_inv :: "'m collector \<Rightarrow> bool" where
  "col_inv s \<longleftrightarrow> q_ok (col_queue s) \<and>
     g_received s = concat (g_taken s) @ concat (items (col_queue s)) @ held_items s @ g_lost s @ col_cur s \<and>
     list_all (batch_sized (col_size s)) (g_taken s @ items (col_queue s)) \<and>
     (\<forall>b. col_held s = Some b \<longrightarrow> batch_sized (col_size s) b \<and> col_cur s = []) \<and> length (col_cur s) \<le> col_size s \<and>
     (\<not> col_over s \<longrightarrow> g_lost s = [])"

lemma col_inv_put:
  assumes "col_inv s" and "\<not> col_over s" and "col_held s = Some b"
  shows "col_inv (col_put stopping b s)"
proof (cases "qfull (col_queue s)")
  case True
  then show ?thesis
    using assms by (auto simp: col_put_def offer_batch_def put_nowait_def col_inv_def held_items_def)
next
  case False
  then show ?thesis
    using assms q_ok_put [of "col_queue s" b]
    by (auto simp: col_put_def offer_batch_def put_nowait_def col_inv_def held_items_def)
qed

lemma col_inv_take: "col_inv s \<Longrightarrow> col_inv (col_take s)"
  by (cases "items (col_queue s)")
     (auto simp: col_take_def collect_data_def get_nowait_def col_inv_def held_items_def q_ok_def)

interpretation collecting: invariant_system col_init col_step col_inv
proof
  fix s t :: "'a collector"
  show "col_init s \<Longrightarrow> col_inv s"
    by (auto simp: col_init_def col_start_def col_inv_def held_items_def new_queue_def q_ok_def)
  assume "col_inv s" and "col_step s t"
  from this(2,1) show "col_inv t"
  proof (induction rule: col_step.induct)
    case (step_close s)
    then show ?case by (auto simp: col_close_def col_inv_def held_items_def batch_sized_def)
  qed (auto simp: col_receive_def col_inv_put col_inv_take, auto simp: col_inv_def held_items_def)
qed

text \<open>C39: The batching thread neither loses, repeats nor reorders frames: in every reachable state
  the batches the node took, those queued, the batch that waits for room or was given up at the
  stop, and the batch being filled are together what was received, in order; no batch is empty or
  larger than the batch size, the queue keeps its bound, and nothing is given up while the thread
  runs.\<close>

theorem batches_conserve:
  assumes "reach col_init col_step s"
  shows "g_received s = concat (g_taken s) @ concat (items (col_queue s)) @ held_items s @ g_lost s @ col_cur s \<and>
    list_all (batch_sized (col_size s)) (g_taken s @ items (col_queue s)) \<and> q_ok (col_queue s) \<and>
    (col_over s \<or> g_lost s = [])"
  using collecting.reach_inv [OF assms] by (auto simp: col_inv_def)

theorem batches_conserve_witness:
  "g_received (col_put False [7::nat] (col_close (col_receive (7::nat) (col_start 2 1)))) = [7::nat]"
proof -
  have 0: "reach col_init col_step (col_start 2 1)" by (rule reach_init) (auto simp: col_init_def)
  have 1: "reach col_init col_step (col_receive (7::nat) (col_start 2 1))"
    by (rule reach_step [OF 0 step_receive]) (simp_all add: col_start_def)
  have 2: "reach col_init col_step (col_close (col_receive (7::nat) (col_start 2 1)))"
    by (rule reach_step [OF 1 step_close]) (simp_all add: col_start_def col_receive_def)
  have 3: "reach col_init col_step (col_put False [7::nat] (col_close (col_receive (7::nat) (col_start 2 1))))"
    by (rule reach_step [OF 2 step_put]) (simp_all add: col_start_def col_receive_def col_close_def)
  show ?thesis
    using batches_conserve [OF 3]
    by (simp add: col_start_def col_receive_def col_close_def col_put_def offer_batch_def put_nowait_def new_queue_def
        qfull_def held_items_def)
qed

section \<open>Waiting ends with the model\<close>

lemma wait_model_ends:
  assumes "\<And>i. i < k \<Longrightarrow> \<exists>v. model ((turn ^^ i) w) = (Inr None, v) \<and> nap v = (Inr (), (turn ^^ Suc i) w)"
    and "model ((turn ^^ k) w) = (Inr (Some m), w')"
  shows "wait_model model nap w = Some (Inr m, w')"
  using assms
proof (induction k arbitrary: w)
  case 0
  then show ?case by (subst wait_model.simps) simp
next
  case (Suc k)
  obtain v where v: "model w = (Inr None, v)" "nap v = (Inr (), turn w)" using Suc.prems(1) [of 0] by auto
  have "wait_model model nap (turn w) = Some (Inr m, w')"
  proof (rule Suc.IH)
    show "\<exists>v. model ((turn ^^ i) (turn w)) = (Inr None, v) \<and> nap v = (Inr (), (turn ^^ Suc i) (turn w))" if "i < k" for i
      using Suc.prems(1) [of "Suc i"] that by (simp add: funpow_swap1)
    show "model ((turn ^^ k) (turn w)) = (Inr (Some m), w')"
      using Suc.prems(2) by (simp add: funpow_swap1)
  qed
  then show ?case using v by (subst wait_model.simps) simp
qed

end
