(* ===== verification/Profilers.thy ===== *)
theory Profilers
  imports Inference_Nodes
begin

text \<open>
  \<^verbatim>\<open>neudc/profilers\<close>: the decorators that count what a node's post-processing lets through, in a
  cache of the profiler and in Prometheus counters. The counters are numbers here; the time a call
  takes is an argument, and the log lines are left out.
\<close>

section \<open>Filters\<close>

record filter_profiler =
  c_filtered :: nat
  c_go_through :: nat
  c_total :: nat
  c_total_time :: real
  c_average :: real
  n_total :: nat       \<comment> \<open>\<^verbatim>\<open>TOTAL_FRAMES_COUNTER\<close>\<close>
  n_filtered :: nat    \<comment> \<open>\<^verbatim>\<open>FILTERED_FRAMES_COUNTER\<close>\<close>
  n_passed :: nat      \<comment> \<open>\<^verbatim>\<open>GO_THROUGH_COUNTER\<close>\<close>

definition new_filter_profiler :: filter_profiler where
  "new_filter_profiler = \<lparr>c_filtered = 0, c_go_through = 0, c_total = 0, c_total_time = 0, c_average = 0,
     n_total = 0, n_filtered = 0, n_passed = 0\<rparr>"

text \<open>\<^verbatim>\<open>__exit__\<close>: the time of the call.\<close>

definition profiler_exit :: "real \<Rightarrow> filter_profiler \<Rightarrow> filter_profiler" where
  "profiler_exit dt p = p\<lparr>c_total_time := c_total_time p + dt\<rparr>"

definition count_total :: "nat \<Rightarrow> filter_profiler \<Rightarrow> filter_profiler" where
  "count_total n p = p\<lparr>c_total := c_total p + n, n_total := n_total p + n\<rparr>"

text \<open>A frame of a batch, and a frame on its own, which the code counts the other way round.\<close>

definition count_in_batch :: "fmsg \<Rightarrow> filter_profiler \<Rightarrow> filter_profiler" where
  "count_in_batch m p = (if dropped_frame m
     then p\<lparr>c_filtered := c_filtered p + 1, n_filtered := n_filtered p + 1\<rparr>
     else p\<lparr>c_go_through := c_go_through p + 1, n_passed := n_passed p + 1\<rparr>)"

definition count_single :: "fmsg \<Rightarrow> filter_profiler \<Rightarrow> filter_profiler" where
  "count_single m p = (if dropped_frame m
     then p\<lparr>c_filtered := c_filtered p + 1, n_passed := n_passed p + 1\<rparr>
     else p\<lparr>c_go_through := c_go_through p + 1, n_filtered := n_filtered p + 1\<rparr>)"

definition update_average :: "(filter_profiler, unit) io" where
  "update_average = bnd get_world (\<lambda>p. if c_total p = 0 then raise (OtherException ''ZeroDivisionError'')
     else modify (\<lambda>p. p\<lparr>c_average := c_total_time p / real (c_total p)\<rparr>))"

text \<open>\<^verbatim>\<open>FilterPostprocessProfiler\<close>: \<open>size\<close> is the length of the batch that came in.\<close>

definition post_batch_result :: "fmsg list \<Rightarrow> nat \<Rightarrow> (filter_profiler, unit) io" where
  "post_batch_result result n = seq (modify (fold count_in_batch result \<circ> count_total n)) update_average"

definition post_frame_result :: "fmsg \<Rightarrow> (filter_profiler, unit) io" where
  "post_frame_result m = seq (modify (count_single m \<circ> count_total 1)) update_average"

datatype frames_io = One fmsg | Many "fmsg list"

text \<open>The wrapper around \<^verbatim>\<open>postprocess_result\<close>: a call that returns nothing is timed but not counted.\<close>

definition profiled_postprocess :: "real \<Rightarrow> frames_io \<Rightarrow> frames_io option \<Rightarrow> (filter_profiler, unit) io" where
  "profiled_postprocess dt item result =
     seq (modify (profiler_exit dt)) (case result of
       None \<Rightarrow> ret ()
     | Some r \<Rightarrow> (case (item, r) of
         (Many ms, Many rs) \<Rightarrow> post_batch_result rs (length ms)
       | (Many ms, One _) \<Rightarrow> seq (modify (count_total (length ms))) (raise (AttributeError ''frames''))
       | (One _, One m) \<Rightarrow> post_frame_result m
       | (One _, Many _) \<Rightarrow> seq (modify (count_total 1)) (raise (AttributeError ''drop''))))"

text \<open>\<^verbatim>\<open>FilterProcessProfiler._process_frame\<close>; anything but a frame or a batch is only logged.\<close>

definition process_frame_count :: "frames_io \<Rightarrow> frames_io option \<Rightarrow> filter_profiler \<Rightarrow> filter_profiler" where
  "process_frame_count item result p = (case result of
      None \<Rightarrow> p
    | Some (One m) \<Rightarrow> count_single m (count_total 1 p)
    | Some (Many rs) \<Rightarrow> fold count_in_batch rs (count_total (case item of Many ms \<Rightarrow> length ms | One _ \<Rightarrow> 1) p))"

definition profiled_process :: "real \<Rightarrow> frames_io \<Rightarrow> frames_io option \<Rightarrow> filter_profiler \<Rightarrow> filter_profiler" where
  "profiled_process dt item result p = process_frame_count item result (profiler_exit dt p)"

section \<open>Detectors\<close>

record det_profiler =
  d_frames :: nat
  d_boxes :: nat
  d_time :: real

text \<open>\<^verbatim>\<open>PostprocessProfiler\<close> counts the lengths of what the model returned: \<open>lens\<close> are the lengths of
  its elements.\<close>

definition det_batch_count :: "nat list \<Rightarrow> nat \<Rightarrow> (det_profiler, unit) io" where
  "det_batch_count lens n = (\<lambda>p. let p' = p\<lparr>d_frames := d_frames p + n, d_boxes := d_boxes p + sum_list lens\<rparr> in
     if d_frames p' = 0 then (Inl (OtherException ''ZeroDivisionError''), p') else (Inr (), p'))"

definition det_frame_count :: "nat list \<Rightarrow> det_profiler \<Rightarrow> det_profiler" where
  "det_frame_count lens p = p\<lparr>d_frames := d_frames p + 1, d_boxes := d_boxes p + length lens\<rparr>"

section \<open>What is counted\<close>

definition drops :: "fmsg list \<Rightarrow> nat" where
  "drops ms = length (filter dropped_frame ms)"

definition passes :: "fmsg list \<Rightarrow> nat" where
  "passes ms = length (filter (\<lambda>m. \<not> dropped_frame m) ms)"

lemma drops_passes: "drops ms + passes ms = length ms"
  unfolding drops_def passes_def by (rule sum_length_filter_compl)

lemma count_in_batch_fold:
  "fold count_in_batch ms p = p\<lparr>c_filtered := c_filtered p + drops ms, n_filtered := n_filtered p + drops ms,
     c_go_through := c_go_through p + passes ms, n_passed := n_passed p + passes ms\<rparr>"
proof (induction ms arbitrary: p)
  case (Cons m ms)
  show ?case unfolding fold_simps comp_apply Cons by (simp add: count_in_batch_def drops_def passes_def)
qed (simp add: drops_def passes_def)

lemma single_frames_fold:
  "fold (\<lambda>m. process_frame_count (One m) (Some (One m))) ms p =
     p\<lparr>c_total := c_total p + length ms, n_total := n_total p + length ms,
       c_filtered := c_filtered p + drops ms, n_passed := n_passed p + drops ms,
       c_go_through := c_go_through p + passes ms, n_filtered := n_filtered p + passes ms\<rparr>"
proof (induction ms arbitrary: p)
  case (Cons m ms)
  show ?case unfolding fold_simps comp_apply Cons
    by (simp add: process_frame_count_def count_single_def count_total_def drops_def passes_def)
qed (simp add: drops_def passes_def)

text \<open>The Prometheus counters of a filter that handles single frames are swapped: after any
  sequence of frames the counter of passed frames holds the number of dropped ones and the counter
  of filtered frames the number that went through, while the profiler's own cache is right, and
  for batches both are.\<close>

theorem single_frame_counters_swapped:
  "n_passed (fold (\<lambda>m. process_frame_count (One m) (Some (One m))) ms new_filter_profiler) = drops ms \<and>
   n_filtered (fold (\<lambda>m. process_frame_count (One m) (Some (One m))) ms new_filter_profiler) = passes ms \<and>
   c_filtered (fold (\<lambda>m. process_frame_count (One m) (Some (One m))) ms new_filter_profiler) = drops ms \<and>
   n_passed (process_frame_count (Many ms) (Some (Many ms)) new_filter_profiler) = passes ms \<and>
   n_filtered (process_frame_count (Many ms) (Some (Many ms)) new_filter_profiler) = drops ms"
  by (simp add: single_frames_fold new_filter_profiler_def) (simp add: process_frame_count_def count_in_batch_fold count_total_def new_filter_profiler_def)

text \<open>The frames of batches whose post-processing returned nothing are missing from the total.\<close>

lemma deferred_batch_uncounted:
  assumes "p = snd (profiled_postprocess dt (Many ms) None new_filter_profiler)"
  shows "c_total p = 0 \<and> n_total p = 0"
  using assms by (simp add: profiled_postprocess_def seq_def bnd_def profiler_exit_def new_filter_profiler_def)

lemma post_batch_counts:
  assumes "profiled_postprocess dt (Many ms) (Some (Many rs)) p = (Inr (), p')"
  shows "c_total p' = c_total p + length ms \<and> c_filtered p' + c_go_through p' = c_filtered p + c_go_through p + length rs"
proof -
  show ?thesis
    using assms drops_passes [of rs] by (auto simp: profiled_postprocess_def post_batch_result_def update_average_def seq_def bnd_def get_world_def
        count_in_batch_fold count_total_def profiler_exit_def split: if_splits)
qed

end
