(* ===== verification/Image_Nodes.thy ===== *)
theory Image_Nodes
  imports Inference_Nodes Autoscale
begin

text \<open>
  Frame filters and selection: near-duplicate filtering by perceptual hashes
  (\<^verbatim>\<open>filters/mixins/hash_mixin.py\<close>) and active-learning selection
  (\<^verbatim>\<open>model/mixins/active_learning_mixin.py\<close>). The hash of an image and the distance of two
  hashes are arguments.
\<close>

section \<open>Hash filter\<close>

record 'h hash_filter =
  hf_cache :: "(string, (int, 'h) dict) dict"
  hf_delta :: int

definition HASH_TYPES :: "string list" where
  "HASH_TYPES = [''colorhash'', ''dhash'', ''phash'', ''average_hash'', ''phash_simple'', ''dhash_vertical'', ''whash'']"

text \<open>The hash function a type names; an unknown type falls back to \<^verbatim>\<open>dhash\<close>.\<close>

definition hash_type_of :: "string \<Rightarrow> string" where
  "hash_type_of t = (if t \<in> set HASH_TYPES then t else ''dhash'')"

definition new_hash_filter :: "int \<Rightarrow> 'h hash_filter" where
  "new_hash_filter delta = \<lparr>hf_cache = [], hf_delta = delta\<rparr>"

text \<open>\<^verbatim>\<open>process\<close>; reading the cache of a folder creates it.\<close>

definition hash_process :: "(ndarray \<Rightarrow> exn + 'h) \<Rightarrow> ('h \<Rightarrow> 'h \<Rightarrow> int) \<Rightarrow> fmsg \<Rightarrow> ('h hash_filter, fmsg) io" where
  "hash_process hash_of hdist m =
     bnd (of_res (hash_of (image (snd m)))) (\<lambda>h.
     bnd get_world (\<lambda>s.
     let key = parent_name (source_frame (snd m)); seen = the_default [] (dget (hf_cache s) key) in
     if \<exists>old \<in> set (dvalues seen). hdist h old \<le> hf_delta s
     then seq (modify (\<lambda>s. s\<lparr>hf_cache := dset key seen (hf_cache s)\<rparr>)) (ret (set_drop True m))
     else seq (modify (\<lambda>s. s\<lparr>hf_cache := dset key (dset (frame_id (snd m)) h seen) (hf_cache s)\<rparr>)) (ret m)))"

section \<open>Active learning\<close>

record selector =
  num_to_select :: int
  conf_strategy :: string
  conf_weight :: real
  al_cache :: "(dir, (int, fmsg) dict) dict"
  al_expected :: "(dir, int) dict"
  al_remaining :: "(dir, int set) dict"

definition new_selector :: "int \<Rightarrow> string \<Rightarrow> real \<Rightarrow> selector" where
  "new_selector n strategy weight = \<lparr>num_to_select = n, conf_strategy = strategy, conf_weight = weight,
     al_cache = [], al_expected = [], al_remaining = []\<rparr>"

text \<open>The uncertainty of one frame from the confidences of its boxes.\<close>

definition uncertainty :: "string \<Rightarrow> fmsg \<Rightarrow> exn + real" where
  "uncertainty strategy m =
     (let inv = map (\<lambda>b. 1 - box_score b) (boxes (snd m)) in
      if inv = [] then Inr 1
      else if strategy = ''sum'' then Inr (sum_list inv)
      else if strategy = ''avg'' then Inr (sum_list inv / real (length inv))
      else if strategy = ''max'' then Inr (Max (set inv))
      else Inl (ValueError ''Unknown conf_strategy''))"

definition normalise :: "real list \<Rightarrow> real list" where
  "normalise us = (let lo = Min (set us); spread = Max (set us) - lo in
     if spread > 1 / 100000000 then map (\<lambda>u. (u - lo) / spread) us else us)"

text \<open>\<^verbatim>\<open>np.vstack\<close> of the embeddings: all of one length, or all missing, which gives an array without
  distances.\<close>

definition stack_embeddings :: "fmsg list \<Rightarrow> exn + real list list option" where
  "stack_embeddings ms =
     (let es = map (\<lambda>m. embedding (snd m)) ms in
      if \<forall>e \<in> set es. e = None then Inr None
      else if \<exists>e \<in> set es. e = None then Inl (ValueError ''vstack'')
      else let vs = map (\<lambda>e. nd_data (the e)) es in
        if \<exists>v \<in> set vs. length v \<noteq> length (hd vs) then Inl (ValueError ''vstack'') else Inr (Some vs))"

text \<open>The score of a frame against those selected, and the first unselected frame of greatest score:
  the selected ones score minus infinity.\<close>

definition al_score :: "real \<Rightarrow> real list list \<Rightarrow> real list \<Rightarrow> nat list \<Rightarrow> nat \<Rightarrow> real" where
  "al_score weight embs us sel i =
     (if sel = [] then 0 else Min (set (map (\<lambda>j. vdist (embs ! i) (embs ! j)) sel))) + weight * us ! i"

definition al_best :: "real \<Rightarrow> real list list \<Rightarrow> real list \<Rightarrow> nat list \<Rightarrow> nat" where
  "al_best weight embs us sel =
     (let cs = filter (\<lambda>i. i \<notin> set sel) [0..<length us] in cs ! first_max (map (al_score weight embs us sel) cs))"

fun al_select :: "real \<Rightarrow> real list list option \<Rightarrow> real list \<Rightarrow> nat \<Rightarrow> nat list \<Rightarrow> exn + nat list" where
  "al_select weight embs us 0 sel = Inr sel"
| "al_select weight embs us (Suc n) sel =
     (if sel \<noteq> [] \<and> embs = None then Inl (ValueError ''Unsupported dtype object'')
      else al_select weight embs us n (sel @ [al_best weight (the_default [] embs) us sel]))"

definition active_select :: "selector \<Rightarrow> fmsg list \<Rightarrow> ('w, fmsg list) io" where
  "active_select s ms =
     (let n_take = min (num_to_select s) (int (length ms)) in
      if n_take \<le> 0 then ret []
      else bnd (of_res (stack_embeddings ms)) (\<lambda>embs.
        bnd (map_io (\<lambda>m. of_res (uncertainty (conf_strategy s) m)) ms) (\<lambda>us.
        bnd (of_res (al_select (conf_weight s) embs (normalise us) (nat n_take) [])) (\<lambda>idx.
        ret (map (\<lambda>i. ms ! i) idx)))))"

text \<open>\<^verbatim>\<open>process\<close>: the frame is filed, and once every folder seen so far is complete the selection over
  the undropped frames is returned and the caches are cleared.\<close>

definition file_frame :: "fmsg \<Rightarrow> selector \<Rightarrow> selector" where
  "file_frame m s =
     (let src = parent_dir (source_frame (snd m));
          s1 = (if src \<in> set (dkeys (al_remaining s)) then s
                else s\<lparr>al_remaining := dset src {0..<frame_id_last (snd m)} (al_remaining s),
                       al_expected := dset src (frame_id_last (snd m)) (al_expected s)\<rparr>)
      in s1\<lparr>al_cache := dset src (dset (frame_id (snd m)) m (the_default [] (dget (al_cache s1) src))) (al_cache s1),
            al_remaining := dset src (the_default {} (dget (al_remaining s1) src) - {frame_id (snd m)}) (al_remaining s1)\<rparr>)"

definition al_ready :: "selector \<Rightarrow> bool" where
  "al_ready s \<longleftrightarrow> list_all (\<lambda>(src, frs). dget (al_expected s) src = Some (int (length frs))) (al_cache s)"

definition sorted_frames :: "(int, fmsg) dict \<Rightarrow> fmsg list" where
  "sorted_frames frs = map (\<lambda>k. the (dget frs k)) (sort (dkeys frs))"

definition gathered :: "selector \<Rightarrow> fmsg list" where
  "gathered s = filter (\<lambda>m. \<not> dropped_frame m) (concat (map sorted_frames (dvalues (al_cache s))))"

definition active_process :: "fmsg \<Rightarrow> (selector, fmsg list option) io" where
  "active_process m =
     seq (modify (file_frame m)) (
     bnd get_world (\<lambda>s.
     if \<not> al_ready s then ret None
     else bnd (active_select s (gathered s)) (\<lambda>sel.
       seq (modify (\<lambda>s. s\<lparr>al_cache := [], al_expected := [], al_remaining := []\<rparr>)) (ret (Some sel)))))"

section \<open>What the hash filter keeps\<close>

definition hashes_apart :: "('h \<Rightarrow> 'h \<Rightarrow> int) \<Rightarrow> 'h hash_filter \<Rightarrow> bool" where
  "hashes_apart hdist s \<longleftrightarrow> (\<forall>key seen i j a b. dget (hf_cache s) key = Some seen \<and> dget seen i = Some a \<and>
     dget seen j = Some b \<and> i \<noteq> j \<longrightarrow> hf_delta s < hdist a b)"

definition hash_step :: "(ndarray \<Rightarrow> exn + 'h) \<Rightarrow> ('h \<Rightarrow> 'h \<Rightarrow> int) \<Rightarrow> 'h hash_filter \<Rightarrow> 'h hash_filter \<Rightarrow> bool" where
  "hash_step hash_of hdist s s' \<longleftrightarrow> (\<exists>m. s' = snd (hash_process hash_of hdist m s))"

lemma hash_process_apart:
  assumes "\<And>a b. hdist a b = hdist b a" and "hashes_apart hdist s"
  shows "hashes_apart hdist (snd (hash_process hash_of hdist m s))"
proof (cases "hash_of (image (snd m))")
  case (Inl e)
  then show ?thesis using assms(2) by (simp add: hash_process_def bnd_of_res)
next
  case (Inr h)
  let ?key = "parent_name (source_frame (snd m))"
  let ?seen = "the_default [] (dget (hf_cache s) ?key)"
  have old: "hf_delta s < hdist a b" if "dget ?seen i = Some a" "dget ?seen j = Some b" "i \<noteq> j" for i j a b
    using that assms(2) unfolding hashes_apart_def the_default_def by (auto split: option.splits)
  show ?thesis
  proof (cases "\<exists>old \<in> set (dvalues ?seen). hdist h old \<le> hf_delta s")
    case True
    then show ?thesis using Inr assms(2) old
      by (auto simp: hash_process_def bnd_of_res get_world_def bnd_def seq_def Let_def hashes_apart_def)
  next
    case False
    then have new: "hf_delta s < hdist h a" if "dget ?seen i = Some a" for i a
      using that by (meson dget_dvalues linorder_not_le)
    then have "hf_delta s < hdist a h" if "dget ?seen i = Some a" for i a
      using that assms(1) by metis
    then show ?thesis using Inr False assms(2) old new
      by (auto simp: hash_process_def bnd_of_res get_world_def bnd_def seq_def Let_def hashes_apart_def split: if_splits)
  qed
qed

definition sym_dist :: "('h \<Rightarrow> 'h \<Rightarrow> int) \<Rightarrow> bool" where
  "sym_dist hdist \<longleftrightarrow> (\<forall>a b. hdist a b = hdist b a)"

definition hash_inv :: "('h \<Rightarrow> 'h \<Rightarrow> int) \<Rightarrow> 'h hash_filter \<Rightarrow> bool" where
  "hash_inv hdist s \<longleftrightarrow> (sym_dist hdist \<longrightarrow> hashes_apart hdist s)"

interpretation hashing: invariant_system "\<lambda>s. \<exists>d. s = new_hash_filter d" "hash_step hash_of hdist" "hash_inv hdist"
  for hash_of :: "ndarray \<Rightarrow> exn + 'h" and hdist :: "'h \<Rightarrow> 'h \<Rightarrow> int"
proof
  fix s t :: "'h hash_filter"
  show "\<exists>d. s = new_hash_filter d \<Longrightarrow> hash_inv hdist s"
    by (auto simp: hash_inv_def hashes_apart_def new_hash_filter_def)
  show "hash_inv hdist s \<Longrightarrow> hash_step hash_of hdist s t \<Longrightarrow> hash_inv hdist t"
    unfolding hash_inv_def hash_step_def sym_dist_def using hash_process_apart by blast
qed

text \<open>The hash filter never keeps two near-duplicates: whatever frames it has processed, two
  frames of one folder that it remembers have hashes farther apart than \<^verbatim>\<open>delta\<close>, and a frame is
  dropped exactly when its hash is within \<^verbatim>\<open>delta\<close> of a remembered one.\<close>

theorem hash_filter_no_duplicates:
  assumes "reach (\<lambda>s. \<exists>d. s = new_hash_filter d) (hash_step hash_of hdist) s" and "sym_dist hdist"
    and "hash_of (image (snd m)) = Inr h" and "seen = the_default [] (dget (hf_cache s) (parent_name (source_frame (snd m))))"
  shows "hashes_apart hdist s \<and>
    fst (hash_process hash_of hdist m s) =
      Inr (if list_ex (\<lambda>old. hdist h old \<le> hf_delta s) (dvalues seen) then set_drop True m else m)"
proof -
  have "hashes_apart hdist s"
    using hashing.reach_inv [OF assms(1)] assms(2) by (simp add: hash_inv_def)
  then show ?thesis
    using assms(3,4) by (simp add: hash_process_def bnd_of_res get_world_def bnd_def seq_def Let_def list_ex_iff)
qed

theorem hash_filter_no_duplicates_witness:
  "fst (hash_process (\<lambda>im. Inr (length (nd_data im))) (\<lambda>a b. \<bar>int a - int b\<bar>) (demo_fmsg ''a/1'' 1 2)
     (snd (hash_process (\<lambda>im. Inr (length (nd_data im))) (\<lambda>a b. \<bar>int a - int b\<bar>) (demo_fmsg ''a/0'' 0 2) (new_hash_filter 5)))) =
   Inr (set_drop True (demo_fmsg ''a/1'' 1 2))"
proof -
  let ?h = "\<lambda>im. Inr (length (nd_data im)) :: exn + nat" and ?d = "\<lambda>a b. \<bar>int a - int b\<bar>"
  let ?s = "snd (hash_process ?h ?d (demo_fmsg ''a/0'' 0 2) (new_hash_filter 5))"
  have r: "reach (\<lambda>s. \<exists>d. s = new_hash_filter d) (hash_step ?h ?d) ?s"
    by (rule reach_step [OF reach_init [of _ "new_hash_filter 5"]]) (auto simp: hash_step_def simp del: split_paired_Ex)
  have p: "parent_name ''a/0'' = ''a''" "parent_name ''a/1'' = ''a''"
    by (simp_all add: parent_name_def parent_dir_def parse_path_def)
  have s: "hf_cache ?s = [(''a'', [(0, 1)])]" "hf_delta ?s = 5"
    by (simp_all add: hash_process_def bnd_of_res get_world_def bnd_def seq_def Let_def new_hash_filter_def demo_fmsg_def p the_default_def dvalues_def)
  have "sym_dist ?d" by (simp add: sym_dist_def abs_minus_commute)
  from hash_filter_no_duplicates [OF r this, of "demo_fmsg ''a/1'' 1 2" 1 "[(0, 1)]"] show ?thesis
    using s by (simp add: demo_fmsg_def p the_default_def dvalues_def)
qed

section \<open>What active learning selects\<close>

lemma first_max_max: "xs \<noteq> [] \<Longrightarrow> first_max xs < length xs \<and> xs ! first_max xs = Max (set xs)"
proof -
  assume ne: "xs \<noteq> []"
  then have l: "first_max xs < length xs"
    unfolding first_max_def by (intro takeWhile_shorter [of "Max (set xs)"]) auto
  then have "\<not> xs ! first_max xs < Max (set xs)"
    unfolding first_max_def by (rule nth_length_takeWhile)
  moreover have "xs ! first_max xs \<le> Max (set xs)" using l by simp
  ultimately show ?thesis using l by simp
qed

text \<open>A pick is an unselected index whose score no unselected index exceeds.\<close>

definition best_pick :: "real \<Rightarrow> real list list \<Rightarrow> real list \<Rightarrow> nat list \<Rightarrow> nat \<Rightarrow> bool" where
  "best_pick weight embs us sel i \<longleftrightarrow> i < length us \<and> i \<notin> set sel \<and>
     (\<forall>j < length us. j \<notin> set sel \<longrightarrow> al_score weight embs us sel j \<le> al_score weight embs us sel i)"

lemma al_best_best:
  assumes "distinct sel" and "set sel \<subseteq> {..<length us}" and "length sel < length us"
  shows "best_pick weight embs us sel (al_best weight embs us sel)"
proof -
  let ?cs = "filter (\<lambda>i. i \<notin> set sel) [0..<length us]"
  have "\<exists>i < length us. i \<notin> set sel"
  proof (rule ccontr)
    assume "\<not> ?thesis"
    then have "{..<length us} \<subseteq> set sel" by auto
    then have "length us \<le> card (set sel)" using card_mono [of "set sel" "{..<length us}"] by simp
    then show False using assms(3) card_length [of sel] by simp
  qed
  then have ne: "map (al_score weight embs us sel) ?cs \<noteq> []" by (auto simp: filter_empty_conv)
  have i: "first_max (map (al_score weight embs us sel) ?cs) < length ?cs"
    using first_max_max [OF ne] by simp
  have "al_score weight embs us sel (al_best weight embs us sel) = Max (set (map (al_score weight embs us sel) ?cs))"
    using first_max_max [OF ne] i by (simp add: al_best_def Let_def)
  moreover have "al_best weight embs us sel \<in> set ?cs"
    using nth_mem [OF i] by (simp add: al_best_def Let_def)
  ultimately show ?thesis by (auto simp: best_pick_def)
qed

lemma al_select_picks:
  assumes "al_select weight embs us n sel = Inr idx" and "distinct sel" and "set sel \<subseteq> {..<length us}"
    and "length sel + n \<le> length us"
    and "\<And>k. k < length sel \<Longrightarrow> best_pick weight (the_default [] embs) us (take k sel) (sel ! k)"
  shows "length idx = length sel + n \<and> distinct idx \<and> set idx \<subseteq> {..<length us} \<and>
    (\<forall>k < length idx. best_pick weight (the_default [] embs) us (take k idx) (idx ! k))"
  using assms
proof (induction weight embs us n sel rule: al_select.induct)
  case (2 weight embs us n sel)
  let ?b = "al_best weight (the_default [] embs) us sel"
  have ok: "\<not> (sel \<noteq> [] \<and> embs = None)" and r: "al_select weight embs us n (sel @ [?b]) = Inr idx"
    using 2(2) by (auto split: if_splits)
  have b: "best_pick weight (the_default [] embs) us sel ?b"
    using 2(3-5) by (intro al_best_best) auto
  have "length idx = length (sel @ [?b]) + n \<and> distinct idx \<and> set idx \<subseteq> {..<length us} \<and>
    (\<forall>k < length idx. best_pick weight (the_default [] embs) us (take k idx) (idx ! k))"
  proof (rule 2(1) [OF ok r])
    show "distinct (sel @ [?b])" "set (sel @ [?b]) \<subseteq> {..<length us}" "length (sel @ [?b]) + n \<le> length us"
      using b 2(3-5) by (auto simp: best_pick_def)
    show "best_pick weight (the_default [] embs) us (take k (sel @ [?b])) ((sel @ [?b]) ! k)" if "k < length (sel @ [?b])" for k
      using that b 2(6) by (cases "k = length sel") (auto simp: nth_append)
  qed
  then show ?case by simp
qed auto

text \<open>Active learning returns as many different frames as asked for, or all there are, and picks
  each greedily: no frame not yet picked has a greater sum of the distance to the nearest picked
  frame and the weighted uncertainty than the one picked next.\<close>

theorem active_select_greedy:
  assumes "active_select s ms w = (Inr out, w')" and "0 < num_to_select s" and "ms \<noteq> []"
  shows "\<exists>idx us embs. out = map (\<lambda>i. ms ! i) idx \<and> length idx = min (nat (num_to_select s)) (length ms) \<and>
    distinct idx \<and> set idx \<subseteq> {..<length ms} \<and> length us = length ms \<and>
    list_all (\<lambda>k. best_pick (conf_weight s) embs us (take k idx) (idx ! k)) [0..<length idx]"
proof -
  let ?n = "min (num_to_select s) (int (length ms))"
  have pos: "\<not> ?n \<le> 0" using assms(2,3) by (simp add: min_le_iff_disj)
  obtain embs us idx where e: "stack_embeddings ms = Inr embs"
    and u: "map_io (\<lambda>m. of_res (uncertainty (conf_strategy s) m)) ms w = (Inr us, w')"
    and i: "al_select (conf_weight s) embs (normalise us) (nat ?n) [] = Inr idx" and out: "out = map (\<lambda>i. ms ! i) idx"
    using assms(1) pos by (auto simp: active_select_def Let_def io_simps)
  have l: "length (normalise us) = length ms"
    using map_io_length [OF u] by (simp add: normalise_def Let_def)
  have n: "nat ?n = min (nat (num_to_select s)) (length ms)" using assms(2) by auto
  from al_select_picks [OF i] l n show ?thesis
    by (intro exI [of _ idx] exI [of _ "normalise us"] exI [of _ "the_default [] embs"]) (simp add: out list_all_iff)
qed

theorem active_select_greedy_witness:
  "\<exists>out. active_select (new_selector 1 ''sum'' 1) [demo_fmsg ''a/0'' 0 2, demo_fmsg ''a/1'' 1 2] () = (Inr out, ()) \<and> length out = 1"
proof -
  obtain out where r: "active_select (new_selector 1 ''sum'' 1) [demo_fmsg ''a/0'' 0 2, demo_fmsg ''a/1'' 1 2] () = (Inr out, ())"
    by (simp add: active_select_def new_selector_def stack_embeddings_def demo_fmsg_def uncertainty_def bnd_def Let_def)
  from active_select_greedy [OF r] show ?thesis using r by (auto simp: new_selector_def)
qed

text \<open>The selection runs as soon as the folders seen so far are complete, whatever folders are still
  to come: here a folder of one frame triggers it.\<close>

lemma active_fires_early:
  assumes "al_cache s = []" and "al_remaining s = []" and "frame_id_last (snd m) = 1"
  shows "al_ready (file_frame m s)"
  using assms by (simp add: al_ready_def file_frame_def Let_def dkeys_def the_default_def)

end
