(* ===== verification/Dataset.thy ===== *)
theory Dataset
  imports Inference_Nodes "HOL-Library.List_Lexorder" "HOL-Library.Char_ord"
begin

text \<open>
  Writing and reviewing labelled datasets:
  \<^verbatim>\<open>processors/mixins/create_dataset_mixin.py\<close> and \<^verbatim>\<open>service/api/labels.py\<close>, with
  \<^verbatim>\<open>service/api/preview.py\<close>. The file system is the record of \<open>Tools\<close> with directory listings and
  image files; printing and parsing of numbers and JSON are arguments.
\<close>

section \<open>Files and texts\<close>

record 'w dataset_fs = "'w fs" +
  ds_exists :: "path \<Rightarrow> ('w, bool) io"
  ds_imwrite :: "path \<Rightarrow> ndarray \<Rightarrow> ('w, bool) io"
  ds_is_dir :: "path \<Rightarrow> ('w, bool) io"
  ds_subdirs :: "path \<Rightarrow> ('w, string list) io"     \<comment> \<open>names \<open>f\<close> of the matches \<open>f/images\<close> of a glob\<close>
  ds_stems :: "path \<Rightarrow> ('w, string list) io"       \<comment> \<open>stems of the matches of \<^verbatim>\<open>*.jpg\<close>\<close>
  ds_frames :: "path \<Rightarrow> ('w, path list) io"        \<comment> \<open>matches of \<^verbatim>\<open>frame_*.jpg\<close>\<close>
  ds_mtime :: "path \<Rightarrow> ('w, real) io"

record texts =
  fmt6 :: "real \<Rightarrow> string"                  \<comment> \<open>\<^verbatim>\<open>f"{x:.6f}"\<close>\<close>
  parse_float :: "string \<Rightarrow> real option"
  parse_int :: "string \<Rightarrow> int option"
  show_int :: "int \<Rightarrow> string"
  json_loads :: "string \<Rightarrow> exn + yaml"
  json_reviewed :: "string list \<Rightarrow> string"  \<comment> \<open>\<^verbatim>\<open>json.dumps({"reviewed": l})\<close>\<close>

text \<open>\<^verbatim>\<open>s.split()\<close>.\<close>

function py_words :: "string \<Rightarrow> string list" where
  "py_words s = (case dropWhile is_space s of
      [] \<Rightarrow> []
    | c # t \<Rightarrow> (c # takeWhile (\<lambda>x. \<not> is_space x) t) # py_words (dropWhile (\<lambda>x. \<not> is_space x) t))"
  by pat_completeness auto
termination
proof (relation "measure length", simp)
  fix s c t
  assume "dropWhile is_space s = c # t"
  then have "length (c # t) \<le> length s" by (metis length_dropWhile_le)
  then show "(dropWhile (\<lambda>x. \<not> is_space x) t, s) \<in> measure length"
    using length_dropWhile_le [of "\<lambda>x. \<not> is_space x" t] by simp
qed

declare py_words.simps [simp del]

text \<open>\<^verbatim>\<open>s.splitlines()\<close>: a carriage return and a line feed together end one line.\<close>

definition is_break :: "char \<Rightarrow> bool" where
  "is_break c = (code c \<in> {10, 11, 12, 13, 28, 29, 30, 133})"

function split_lines :: "string \<Rightarrow> string list" where
  "split_lines s = (if s = [] then [] else takeWhile (\<lambda>c. \<not> is_break c) s #
     (case dropWhile (\<lambda>c. \<not> is_break c) s of
        [] \<Rightarrow> []
      | c # t \<Rightarrow> split_lines (if code c = 13 \<and> t \<noteq> [] \<and> code (hd t) = 10 then tl t else t)))"
  by pat_completeness auto
termination
proof (relation "measure length", simp)
  fix s c t
  assume "s \<noteq> []" and "dropWhile (\<lambda>c. \<not> is_break c) s = c # t"
  then have "length (c # t) \<le> length s" by (metis length_dropWhile_le)
  then show "((if code c = 13 \<and> t \<noteq> [] \<and> code (hd t) = 10 then tl t else t), s) \<in> measure length" by auto
qed

declare split_lines.simps [simp del]

fun join_lines :: "string list \<Rightarrow> string" where
  "join_lines [] = []"
| "join_lines [l] = l"
| "join_lines (l # ls) = l @ newline # join_lines ls"

section \<open>Boxes in YOLO format\<close>

record box_spec =
  sp_class :: int
  sp_x :: real
  sp_y :: real
  sp_w :: real
  sp_h :: real

definition label_line :: "texts \<Rightarrow> box_spec \<Rightarrow> string" where
  "label_line T b = show_int T (sp_class b) @ '' '' @ fmt6 T (sp_x b) @ '' '' @ fmt6 T (sp_y b) @ '' '' @ fmt6 T (sp_w b) @ '' '' @ fmt6 T (sp_h b)"

text \<open>The relative centre and size of a box in an image.\<close>

definition rel_box :: "nat \<Rightarrow> nat \<Rightarrow> box \<Rightarrow> box_spec" where
  "rel_box height width b = \<lparr>sp_class = class_id_num b, sp_x = (bx1 b + bx2 b) / 2 / real width,
     sp_y = (by1 b + by2 b) / 2 / real height, sp_w = (bx2 b - bx1 b) / real width, sp_h = (by2 b - by1 b) / real height\<rparr>"

definition relative_box :: "nat \<Rightarrow> nat \<Rightarrow> box \<Rightarrow> exn + box_spec" where
  "relative_box height width b = (if height = 0 \<or> width = 0 then Inl (OtherException ''ZeroDivisionError'')
     else Inr (rel_box height width b))"

section \<open>CreateDataset\<close>

definition frame_stem :: "texts \<Rightarrow> int \<Rightarrow> string" where
  "frame_stem T i = ''frame_'' @ show_int T i"

definition output_dirs :: "('w, 'x) dataset_fs_scheme \<Rightarrow> path \<Rightarrow> fmsg \<Rightarrow> ('w, path \<times> path) io" where
  "output_dirs F save_dir m =
     (let base = save_dir @ (if parent_name (source_frame (snd m)) = [] then [] else [parent_name (source_frame (snd m))]);
          mk = (\<lambda>d. bnd (ds_exists F d) (\<lambda>e. if \<not> e then fs_mkdir F d else ret ()))
      in seq (mk (base @ [''images''])) (seq (mk (base @ [''labels''])) (ret (base @ [''images''], base @ [''labels'']))))"

definition image_size :: "fmsg \<Rightarrow> ('w, nat \<times> nat) io" where
  "image_size m = (case nd_shape (image (snd m)) of h # w # _ \<Rightarrow> ret (h, w) | _ \<Rightarrow> raise (ValueError ''not enough values to unpack''))"

text \<open>\<^verbatim>\<open>save_labels\<close> opens the file first, so a box that cannot be written leaves an empty or partial
  file behind; the model writes the lines of the boxes before it.\<close>

fun write_lines :: "texts \<Rightarrow> nat \<Rightarrow> nat \<Rightarrow> box list \<Rightarrow> string \<Rightarrow> exn option \<times> string" where
  "write_lines T h w [] done = (None, done)"
| "write_lines T h w (b # bs) done = (case relative_box h w b of
      Inl e \<Rightarrow> (Some e, done)
    | Inr s \<Rightarrow> write_lines T h w bs (done @ label_line T s @ [newline]))"

definition save_labels :: "texts \<Rightarrow> ('w, 'x) dataset_fs_scheme \<Rightarrow> fmsg \<Rightarrow> path \<Rightarrow> ('w, unit) io" where
  "save_labels T F m p =
     bnd (image_size m) (\<lambda>(h, w).
     (case write_lines T h w (boxes (snd m)) [] of (e, body) \<Rightarrow>
       seq (fs_write F p body) (case e of None \<Rightarrow> ret () | Some x \<Rightarrow> raise x)))"

definition dataset_process :: "texts \<Rightarrow> ('w, 'x) dataset_fs_scheme \<Rightarrow> path \<Rightarrow> fmsg \<Rightarrow> ('w, fmsg) io" where
  "dataset_process T F save_dir m =
     (if dropped_frame m then ret m
      else bnd (output_dirs F save_dir m) (\<lambda>(images_dir, labels_dir).
        bnd (ds_imwrite F (images_dir @ [frame_stem T (frame_id (snd m)) @ ''.jpg'']) (image (snd m))) (\<lambda>_.
        seq (save_labels T F m (labels_dir @ [frame_stem T (frame_id (snd m)) @ ''.txt''])) (ret m))))"

section \<open>Reviewing\<close>

definition find_dataset_root :: "path \<Rightarrow> raw_dict list \<Rightarrow> exn + path option" where
  "find_dataset_root cwd nodes =
     (case List.find (\<lambda>d. y_get d ''type'' YNull = YStr ''CreateDataset'' \<and> dget d ''save_dir'' \<noteq> None) nodes of
        None \<Rightarrow> Inr None
      | Some d \<Rightarrow> (case the (dget d ''save_dir'') of
          YStr s \<Rightarrow> Inr (Some (join_path cwd s))
        | _ \<Rightarrow> Inl (TypeError ''expected str, bytes or os.PathLike object'')))"

definition frame_id_for :: "string \<Rightarrow> string \<Rightarrow> string" where
  "frame_id_for folder stem = folder @ CHR '':'' # stem"

text \<open>\<^verbatim>\<open>frame_id.partition(":")\<close>: None when there is no separator.\<close>

definition partition_id :: "string \<Rightarrow> (string \<times> string) option" where
  "partition_id s = (if CHR '':'' \<in> set s
     then Some (takeWhile (\<lambda>c. c \<noteq> CHR '':'') s, tl (dropWhile (\<lambda>c. c \<noteq> CHR '':'') s)) else None)"

definition bad_part :: "string \<Rightarrow> bool" where
  "bad_part p = (p = ''..'' \<or> p = [] \<or> p = ''.'' \<or> CHR ''/'' \<in> set p \<or> CHR 0x5C \<in> set p)"

definition image_path :: "path \<Rightarrow> string \<Rightarrow> string \<Rightarrow> path" where
  "image_path rt folder stem = rt @ [folder, ''images'', stem @ ''.jpg'']"

definition label_path :: "path \<Rightarrow> string \<Rightarrow> string \<Rightarrow> path" where
  "label_path rt folder stem = rt @ [folder, ''labels'', stem @ ''.txt'']"

definition resolve_frame_paths :: "('w, 'x) fs_scheme \<Rightarrow> path \<Rightarrow> string \<Rightarrow> ('w, (path \<times> path) option) io" where
  "resolve_frame_paths F rt fid = (case partition_id fid of
      None \<Rightarrow> ret None
    | Some (folder, stem) \<Rightarrow>
        if folder = [] \<or> stem = [] \<or> bad_part folder \<or> bad_part stem then ret None
        else bnd (fs_resolve F rt) (\<lambda>rt'.
          bnd (fs_resolve F (image_path rt folder stem)) (\<lambda>ip.
          bnd (fs_resolve F (label_path rt folder stem)) (\<lambda>lp.
          if \<not> strict_prefix rt' ip \<or> \<not> strict_prefix rt' lp then ret None
          else bnd (fs_is_file F ip) (\<lambda>b1. if \<not> b1 then ret None
            else bnd (fs_is_file F lp) (\<lambda>b2. if \<not> b2 then ret None else ret (Some (ip, lp))))))))"

fun read_box :: "texts \<Rightarrow> string list \<Rightarrow> ('w, box_spec option) io" where
  "read_box T [] = ret None"
| "read_box T [c, x, y, w, h] = (case (parse_int T c, parse_float T x, parse_float T y, parse_float T w, parse_float T h) of
      (Some c', Some x', Some y', Some w', Some h') \<Rightarrow> ret (Some \<lparr>sp_class = c', sp_x = x', sp_y = y', sp_w = w', sp_h = h'\<rparr>)
    | _ \<Rightarrow> raise (ValueError ''could not convert''))"
| "read_box T _ = raise (ValueError ''not enough values to unpack'')"

definition parse_boxes :: "texts \<Rightarrow> string \<Rightarrow> ('w, box_spec list) io" where
  "parse_boxes T body = bnd (map_io (\<lambda>l. read_box T (py_words l)) (split_lines body)) (\<lambda>bs. ret (List.map_filter (\<lambda>b. b) bs))"

definition read_boxes :: "texts \<Rightarrow> ('w, 'x) fs_scheme \<Rightarrow> path \<Rightarrow> ('w, box_spec list) io" where
  "read_boxes T F p = bnd (fs_read F p) (parse_boxes T)"

definition boxes_text :: "texts \<Rightarrow> box_spec list \<Rightarrow> string" where
  "boxes_text T bs = join_lines (map (label_line T) bs) @ (if bs = [] then [] else [newline])"

definition manifest_path :: "path \<Rightarrow> path" where
  "manifest_path rt = rt @ [''.review_state.json'']"

text \<open>The ids in a parsed manifest; a manifest that is not JSON counts as none.\<close>

definition reviewed_of :: "exn + yaml \<Rightarrow> exn + yaml list" where
  "reviewed_of r = (case r of
      Inl e \<Rightarrow> (if e = JSONDecodeError then Inr [] else Inl e)
    | Inr (YMap d) \<Rightarrow> (case y_iter (y_get d ''reviewed'' (YList [])) of
          Inl e \<Rightarrow> Inl e
        | Inr l \<Rightarrow> if list_all y_hashable l then Inr l else Inl (TypeError ''unhashable type''))
    | Inr _ \<Rightarrow> Inl (AttributeError ''get''))"

definition load_reviewed :: "texts \<Rightarrow> ('w, 'x) fs_scheme \<Rightarrow> path \<Rightarrow> ('w, yaml list) io" where
  "load_reviewed T F rt =
     bnd (fs_is_file F (manifest_path rt)) (\<lambda>b. if \<not> b then ret []
     else bnd (fs_read F (manifest_path rt)) (\<lambda>s. of_res (reviewed_of (json_loads T s))))"

fun yaml_str :: "yaml \<Rightarrow> string option" where
  "yaml_str (YStr s) = Some s"
| "yaml_str _ = None"

text \<open>\<^verbatim>\<open>sorted\<close> of a set that contains a string raises unless all are strings.\<close>

definition mark_reviewed :: "texts \<Rightarrow> ('w, 'x) fs_scheme \<Rightarrow> path \<Rightarrow> string \<Rightarrow> ('w, unit) io" where
  "mark_reviewed T F rt fid =
     bnd (load_reviewed T F rt) (\<lambda>l. case all_some yaml_str l of
       None \<Rightarrow> raise (TypeError ''not supported between instances'')
     | Some ss \<Rightarrow> fs_write F (manifest_path rt) (json_reviewed T (sorted_list_of_set (insert fid (set ss)))))"

record frame_detail =
  fd_frame_id :: string
  fd_boxes :: "box_spec list"
  fd_reviewed :: bool

definition get_frame_detail :: "texts \<Rightarrow> ('w, 'x) fs_scheme \<Rightarrow> path \<Rightarrow> string \<Rightarrow> ('w, frame_detail option) io" where
  "get_frame_detail T F rt fid =
     bnd (resolve_frame_paths F rt fid) (\<lambda>ps. case ps of
       None \<Rightarrow> ret None
     | Some (_, lp) \<Rightarrow> bnd (read_boxes T F lp) (\<lambda>bs. bnd (load_reviewed T F rt) (\<lambda>l.
         ret (Some \<lparr>fd_frame_id = fid, fd_boxes = bs, fd_reviewed = YStr fid \<in> set l\<rparr>))))"

definition get_frame_image_path :: "('w, 'x) fs_scheme \<Rightarrow> path \<Rightarrow> string \<Rightarrow> ('w, path option) io" where
  "get_frame_image_path F rt fid = bnd (resolve_frame_paths F rt fid) (\<lambda>ps. ret (map_option fst ps))"

definition save_frame_boxes :: "texts \<Rightarrow> ('w, 'x) fs_scheme \<Rightarrow> path \<Rightarrow> string \<Rightarrow> box_spec list \<Rightarrow> ('w, frame_detail option) io" where
  "save_frame_boxes T F rt fid bs =
     bnd (resolve_frame_paths F rt fid) (\<lambda>ps. case ps of
       None \<Rightarrow> ret None
     | Some (_, lp) \<Rightarrow> seq (fs_write F lp (boxes_text T bs)) (seq (mark_reviewed T F rt fid)
         (ret (Some \<lparr>fd_frame_id = fid, fd_boxes = bs, fd_reviewed = True\<rparr>))))"

record frame_summary =
  fs_frame_id :: string
  fs_box_count :: nat
  fs_reviewed :: bool

text \<open>\<^verbatim>\<open>_iter_labeled_frames\<close> as the list of folders and stems, and \<^verbatim>\<open>list_label_frames\<close>.\<close>

definition labeled_in :: "('w, 'x) dataset_fs_scheme \<Rightarrow> path \<Rightarrow> string \<Rightarrow> ('w, (string \<times> string) list) io" where
  "labeled_in F rt folder =
     bnd (ds_stems F (rt @ [folder, ''images''])) (\<lambda>stems.
     bnd (map_io (\<lambda>st. bnd (fs_is_file F (label_path rt folder st)) (\<lambda>b. ret (if b then [(folder, st)] else []))) (sort stems)) (\<lambda>ls.
     ret (concat ls)))"

definition iter_labeled_frames :: "('w, 'x) dataset_fs_scheme \<Rightarrow> path \<Rightarrow> ('w, (string \<times> string) list) io" where
  "iter_labeled_frames F rt =
     bnd (ds_is_dir F rt) (\<lambda>b. if \<not> b then ret []
     else bnd (ds_subdirs F rt) (\<lambda>folders. bnd (map_io (labeled_in F rt) (sort folders)) (\<lambda>ls. ret (concat ls))))"

definition list_label_frames :: "texts \<Rightarrow> ('w, 'x) dataset_fs_scheme \<Rightarrow> path \<Rightarrow> ('w, frame_summary list) io" where
  "list_label_frames T F rt =
     bnd (load_reviewed T F rt) (\<lambda>l.
     bnd (iter_labeled_frames F rt) (\<lambda>fs.
     map_io (\<lambda>(folder, stem). bnd (read_boxes T F (label_path rt folder stem)) (\<lambda>bs.
       ret \<lparr>fs_frame_id = frame_id_for folder stem, fs_box_count = length bs,
         fs_reviewed = YStr (frame_id_for folder stem) \<in> set l\<rparr>)) fs))"

section \<open>Preview\<close>

text \<open>The first frame of the latest modification time.\<close>

fun latest :: "(real \<times> path) list \<Rightarrow> (real \<times> path) option" where
  "latest [] = None"
| "latest (x # xs) = (case latest xs of None \<Rightarrow> Some x | Some y \<Rightarrow> if fst x < fst y then Some y else Some x)"

definition find_latest_frame :: "('w, 'x) dataset_fs_scheme \<Rightarrow> path \<Rightarrow> raw_dict list \<Rightarrow> ('w, path option) io" where
  "find_latest_frame F cwd nodes =
     bnd (map_io (\<lambda>d. of_res (y_item d ''save_dir'')) (filter (\<lambda>d. y_get d ''type'' YNull = YStr ''SaveImageNode'') nodes)) (\<lambda>vs.
     bnd (map_io (\<lambda>v. case v of YStr s \<Rightarrow> ds_frames F (join_path cwd s) | _ \<Rightarrow> raise (TypeError ''expected str'')) vs) (\<lambda>ls.
     bnd (map_io (\<lambda>p. bnd (ds_mtime F p) (\<lambda>t. ret (t, p))) (concat ls)) (\<lambda>tps.
     ret (map_option snd (latest tps)))))"

section \<open>Texts\<close>

text \<open>A printed number: not empty and without white space.\<close>

definition plain :: "string \<Rightarrow> bool" where
  "plain s \<longleftrightarrow> s \<noteq> [] \<and> list_all (\<lambda>c. \<not> is_space c) s"

text \<open>What is documented of printing and parsing: an integer is read back, a float is read back as
  the value rounded to six places.\<close>

definition texts_ok :: "texts \<Rightarrow> (real \<Rightarrow> real) \<Rightarrow> bool" where
  "texts_ok T rnd \<longleftrightarrow>
     (\<forall>n. parse_int T (show_int T n) = Some n \<and> plain (show_int T n)) \<and>
     (\<forall>r. parse_float T (fmt6 T r) = Some (rnd r) \<and> plain (fmt6 T r))"

definition round_box :: "(real \<Rightarrow> real) \<Rightarrow> box_spec \<Rightarrow> box_spec" where
  "round_box rnd b = \<lparr>sp_class = sp_class b, sp_x = rnd (sp_x b), sp_y = rnd (sp_y b), sp_w = rnd (sp_w b), sp_h = rnd (sp_h b)\<rparr>"

lemma is_break_space: "is_break c \<Longrightarrow> is_space c \<and> c \<noteq> CHR '' ''"
  by (auto simp: is_break_def is_space_def code_def)

lemma plain_Cons: "plain s \<Longrightarrow> \<exists>c t. s = c # t \<and> \<not> is_space c \<and> list_all (\<lambda>c. \<not> is_space c) t"
  by (cases s) (auto simp: plain_def)

lemma words_cons: "plain u \<Longrightarrow> py_words (u @ CHR '' '' # s) = u # py_words s"
proof -
  assume "plain u"
  then obtain c t where u: "u = c # t" "\<not> is_space c" "list_all (\<lambda>c. \<not> is_space c) t" using plain_Cons by blast
  have "takeWhile (\<lambda>x. \<not> is_space x) (t @ CHR '' '' # s) = t" "dropWhile (\<lambda>x. \<not> is_space x) (t @ CHR '' '' # s) = CHR '' '' # s"
    using u(3) by (auto simp: list_all_iff takeWhile_append dropWhile_append)
  moreover have "py_words (CHR '' '' # s) = py_words s" by (subst (1 2) py_words.simps) simp
  ultimately show ?thesis using u(1,2) by (subst py_words.simps) simp
qed

lemma words_single: "plain u \<Longrightarrow> py_words u = [u]"
proof -
  assume "plain u"
  then obtain c t where u: "u = c # t" "\<not> is_space c" "list_all (\<lambda>c. \<not> is_space c) t" using plain_Cons by blast
  have d: "takeWhile (\<lambda>x. \<not> is_space x) t = t" "dropWhile (\<lambda>x. \<not> is_space x) t = []"
    using u(3) by (auto simp: list_all_iff)
  have "py_words [] = []" by (subst py_words.simps) simp
  then show ?thesis using u(1,2) by (subst py_words.simps) (simp add: d)
qed

lemma split_line: "list_all (\<lambda>c. \<not> is_break c) l \<Longrightarrow> split_lines (l @ newline # s) = l # split_lines s"
proof -
  assume "list_all (\<lambda>c. \<not> is_break c) l"
  then have "takeWhile (\<lambda>c. \<not> is_break c) (l @ newline # s) = l" "dropWhile (\<lambda>c. \<not> is_break c) (l @ newline # s) = newline # s"
    by (auto simp: list_all_iff takeWhile_append dropWhile_append is_break_def code_def newline_def)
  then show ?thesis by (subst split_lines.simps) (simp add: code_def newline_def)
qed

lemma label_line_unbroken: "texts_ok T rnd \<Longrightarrow> list_all (\<lambda>c. \<not> is_break c) (label_line T b)"
proof -
  assume "texts_ok T rnd"
  then have "list_all (\<lambda>c. \<not> is_break c) (show_int T n)" "list_all (\<lambda>c. \<not> is_break c) (fmt6 T r)" for n r
    by (auto simp: texts_ok_def plain_def list_all_iff dest: is_break_space)
  then show ?thesis by (auto simp: label_line_def is_break_def code_def)
qed

lemma read_label_line: "texts_ok T rnd \<Longrightarrow> read_box T (py_words (label_line T b)) = ret (Some (round_box rnd b))"
  by (simp add: label_line_def words_cons words_single texts_ok_def round_box_def)

definition lines_of :: "texts \<Rightarrow> box_spec list \<Rightarrow> string" where
  "lines_of T bs = concat (map (\<lambda>b. label_line T b @ [newline]) bs)"

lemma boxes_text_lines: "boxes_text T bs = lines_of T bs"
proof -
  have "join_lines (map (label_line T) (b # bs)) @ [newline] = lines_of T (b # bs)" for b bs
    by (induction bs arbitrary: b) (simp_all add: lines_of_def)
  then show ?thesis by (cases bs) (simp_all add: boxes_text_def lines_of_def)
qed

lemma write_lines_of:
  "0 < h \<Longrightarrow> 0 < w \<Longrightarrow> write_lines T h w bs d = (None, d @ lines_of T (map (rel_box h w) bs))"
  by (induction bs arbitrary: d) (simp_all add: relative_box_def lines_of_def)

lemma parse_lines: "texts_ok T rnd \<Longrightarrow> parse_boxes T (lines_of T bs) v = (Inr (map (round_box rnd) bs), v)"
proof -
  assume ok: "texts_ok T rnd"
  have s: "split_lines (lines_of T bs) = map (label_line T) bs"
  proof (induction bs)
    case Nil
    then show ?case by (subst split_lines.simps) (simp add: lines_of_def)
  next
    case (Cons b bs)
    then show ?case using split_line [OF label_line_unbroken [OF ok]] by (simp add: lines_of_def)
  qed
  have "map_io (\<lambda>l. read_box T (py_words l)) (map (label_line T) bs) v = (Inr (map (Some \<circ> round_box rnd) bs), v)"
    by (induction bs) (simp_all add: bnd_ok read_label_line [OF ok])
  moreover have "List.map_filter (\<lambda>b. b) (map (Some \<circ> round_box rnd) bs) = map (round_box rnd) bs"
    by (induction bs) (simp_all add: List.map_filter_simps)
  ultimately show ?thesis by (simp add: parse_boxes_def s bnd_ok)
qed

section \<open>Properties\<close>

text \<open>C19: Labels survive the round trip through their file: what the review service reads back is, for
  a file it wrote itself and for a file the dataset node wrote, box by box and in order, the class
  and the coordinates rounded to six places, those of the dataset node relative to the image.\<close>

theorem labels_roundtrip:
  assumes "texts_ok T rnd" and "0 < h" and "0 < w"
  shows "parse_boxes T (boxes_text T bs) v = (Inr (map (round_box rnd) bs), v) \<and>
    fst (write_lines T h w xs []) = None \<and>
    parse_boxes T (snd (write_lines T h w xs [])) v = (Inr (map (round_box rnd \<circ> rel_box h w) xs), v)"
  by (simp add: boxes_text_lines write_lines_of [OF assms(2,3)] parse_lines [OF assms(1)])

text \<open>Numbers of one digit a sign, for closed instances.\<close>

definition demo_texts :: texts where
  "demo_texts = \<lparr>fmt6 = (\<lambda>r. ''0.5''), parse_float = (\<lambda>s. Some (1/2)),
     parse_int = (\<lambda>s. Some (int (length (filter (\<lambda>c. c = CHR ''1'') s)) * (if hd s = CHR ''-'' then -1 else 1))),
     show_int = (\<lambda>n. (if n < 0 then ''-'' else ''0'') @ replicate (nat \<bar>n\<bar>) (CHR ''1'')),
     json_loads = (\<lambda>s. Inr (YMap [(''reviewed'', YList (if s = [] then [] else [YStr s]))])), json_reviewed = (\<lambda>l. concat l)\<rparr>"

lemma demo_texts_ok: "texts_ok demo_texts (\<lambda>_. 1/2)"
  by (auto simp: texts_ok_def demo_texts_def plain_def list_all_iff is_space_def code_def)

theorem labels_roundtrip_witness:
  "parse_boxes demo_texts (boxes_text demo_texts [\<lparr>sp_class = 2, sp_x = 1/2, sp_y = 1/2, sp_w = 1/2, sp_h = 1/2\<rparr>]) () =
     (Inr [\<lparr>sp_class = 2, sp_x = 1/2, sp_y = 1/2, sp_w = 1/2, sp_h = 1/2\<rparr>], ())"
  by (simp add: labels_roundtrip [OF demo_texts_ok zero_less_one zero_less_one, THEN conjunct1] round_box_def)

lemma touches_only_Pair [touches_intros]: "touches_only P touched (Pair v)"
  by (simp add: touches_only_def)

lemma resolve_touches: "logs_touched F touched \<Longrightarrow> touches_only P touched (resolve_frame_paths F rt fid)"
proof -
  assume l: "logs_touched F touched"
  have "touches_only P touched (fs_resolve F p)" "touches_only P touched (fs_is_file F p)" for p
    using l by (auto intro!: touches_only_const simp: logs_touched_def)
  then show ?thesis
    unfolding resolve_frame_paths_def by (auto intro!: touches_intros split: option.splits prod.splits)
qed

lemma resolve_inside:
  assumes "resolve_frame_paths F rt fid w = (Inr (Some (ip, lp)), w')" and "\<forall>w. fst (fs_resolve F rt w) = Inr rt'"
  shows "strict_prefix rt' ip \<and> strict_prefix rt' lp"
  using assms by (auto simp: resolve_frame_paths_def bnd_Inr_iff split: option.splits prod.splits if_splits) (metis fst_conv sum.inject(2))+

lemma of_res_touches: "touches_only P touched (of_res r)"
  by (simp add: touches_only_def)

text \<open>C40: Reviewing stays in the dataset: whatever frame id the request carries and however the call
  ends, saving and reading a frame touch no file but files strictly below the resolved dataset root
  and the review manifest.\<close>

theorem review_stays_in_dataset:
  assumes "logs_touched F touched" and "\<forall>w. fst (fs_resolve F rt w) = Inr rt'"
  shows "touches_only (\<lambda>p. strict_prefix rt' p \<or> p = manifest_path rt) touched (save_frame_boxes T F rt fid bs) \<and>
    touches_only (\<lambda>p. strict_prefix rt' p \<or> p = manifest_path rt) touched (get_frame_detail T F rt fid)"
proof -
  let ?P = "\<lambda>p. strict_prefix rt' p \<or> p = manifest_path rt"
  have r: "touches_only ?P touched (fs_read F p)" if "?P p" for p
    using assms(1) that by (auto simp: touches_only_def logs_touched_def)
  have wr: "touches_only ?P touched (fs_write F p s)" if "?P p" for p s
    using assms(1) that by (auto simp: touches_only_def logs_touched_def)
  have isf: "touches_only ?P touched (fs_is_file F p)" for p
    using assms(1) by (intro touches_only_const) (simp add: logs_touched_def)
  have rb: "touches_only ?P touched (read_box T ws)" for ws
    by (cases "(T, ws)" rule: read_box.cases) (auto intro!: touches_intros split: option.splits)
  have mi: "touches_only ?P touched (map_io f xs)" if "\<And>x. touches_only ?P touched (f x)"
    for f :: "string \<Rightarrow> ('a, box_spec option) io" and xs
    by (induction xs) (auto intro!: touches_intros that)
  have lr: "touches_only ?P touched (load_reviewed T F rt)"
    unfolding load_reviewed_def
    by (intro touches_only_bnd isf) (auto intro!: touches_intros r of_res_touches)
  have mr: "touches_only ?P touched (mark_reviewed T F rt fid)"
    unfolding mark_reviewed_def by (intro touches_only_bnd lr) (auto intro!: touches_intros wr split: option.splits)
  have inside: "?P lp" if "resolve_frame_paths F rt fid w = (Inr (Some (ip, lp)), w')" for ip lp w w'
    using resolve_inside [OF that assms(2)] by blast
  have "touches_only ?P touched (save_frame_boxes T F rt fid bs)"
    unfolding save_frame_boxes_def
    by (intro touches_only_bnd resolve_touches [OF assms(1)])
       (auto intro!: touches_only_ret touches_only_seq wr mr dest!: inside split: option.splits)
  moreover have "touches_only ?P touched (get_frame_detail T F rt fid)"
    unfolding get_frame_detail_def
    by (intro touches_only_bnd resolve_touches [OF assms(1)])
       (auto intro!: touches_intros r lr mi rb simp: read_boxes_def parse_boxes_def dest!: inside split: option.splits)
  ultimately show ?thesis ..
qed

theorem review_stays_in_dataset_witness:
  "list_all (\<lambda>p. strict_prefix [''d''] p \<or> p = manifest_path [''d''])
     (snd (save_frame_boxes demo_texts log_fs [''d''] ''a:../../b'' [] []))"
proof -
  have l: "logs_touched log_fs (\<lambda>w. w)" by (simp add: logs_touched_def log_fs_def)
  have "\<forall>w. fst (fs_resolve log_fs [''d''] w) = Inr [''d'']" by (simp add: log_fs_def up_dirs_def)
  from review_stays_in_dataset [OF l this, of demo_texts "''a:../../b''" "[]"] show ?thesis
    unfolding touches_only_def list_all_iff by (metis append_Nil)
qed

text \<open>A disk without links: what is written is read back, and nothing else changes.\<close>

definition disk_ok :: "'w fs \<Rightarrow> ('w \<Rightarrow> path \<Rightarrow> string option) \<Rightarrow> bool" where
  "disk_ok F disk \<longleftrightarrow> (\<forall>p w. fs_resolve F p w = (Inr p, w)) \<and>
     (\<forall>p w. fs_is_file F p w = (Inr (disk w p \<noteq> None), w)) \<and>
     (\<forall>p w s. disk w p = Some s \<longrightarrow> fs_read F p w = (Inr s, w)) \<and>
     (\<forall>p w s. \<exists>w'. fs_write F p s w = (Inr (), w') \<and> disk w' = (disk w)(p := Some s))"

definition manifest_ok :: "texts \<Rightarrow> bool" where
  "manifest_ok T \<longleftrightarrow> (\<forall>l. json_loads T (json_reviewed T l) = Inr (YMap [(''reviewed'', YList (map YStr l))]))"

lemma disk_okD:
  assumes "disk_ok F disk"
  shows "fs_resolve F p w = (Inr p, w)" and "fs_is_file F p w = (Inr (disk w p \<noteq> None), w)"
    and "disk w p = Some s \<Longrightarrow> fs_read F p w = (Inr s, w)"
    and "\<exists>w'. fs_write F p s w = (Inr (), w') \<and> disk w' = (disk w)(p := Some s)"
  using assms by (simp_all add: disk_ok_def)

lemma manifest_not_label: "manifest_path rt \<noteq> label_path rt f s" "manifest_path rt \<noteq> image_path rt f s"
  by (simp_all add: manifest_path_def label_path_def image_path_def)

lemma resolve_on_disk:
  assumes "disk_ok F disk"
  shows "resolve_frame_paths F rt fid w =
    (Inr (case partition_id fid of None \<Rightarrow> None | Some (f, st) \<Rightarrow>
       if f = [] \<or> st = [] \<or> bad_part f \<or> bad_part st \<or> disk w (image_path rt f st) = None \<or> disk w (label_path rt f st) = None
       then None else Some (image_path rt f st, label_path rt f st)), w)"
  by (auto simp: resolve_frame_paths_def bnd_ok disk_okD [OF assms] image_path_def label_path_def strict_prefix_def split: option.splits)

lemma load_reviewed_pure:
  assumes "disk_ok F disk"
  shows "snd (load_reviewed T F rt w) = w"
proof (cases "disk w (manifest_path rt)")
  case None
  then have "fs_is_file F (manifest_path rt) w = (Inr False, w)" using disk_okD(2) [OF assms] by simp
  then show ?thesis by (simp add: load_reviewed_def bnd_def)
next
  case (Some s)
  then have "fs_is_file F (manifest_path rt) w = (Inr True, w)" using disk_okD(2) [OF assms] by simp
  then show ?thesis by (simp add: load_reviewed_def bnd_ok disk_okD(3) [OF assms Some])
qed

text \<open>A review that was saved is what the service shows: after boxes were saved for a frame, reading
  the frame returns these boxes, rounded to six places, and says that it was reviewed.\<close>

theorem saved_review_is_shown:
  assumes "disk_ok F disk" and "texts_ok T rnd" and "manifest_ok T"
    and "save_frame_boxes T F rt fid bs w = (Inr (Some d), w')"
  shows "get_frame_detail T F rt fid w' =
    (Inr (Some \<lparr>fd_frame_id = fid, fd_boxes = map (round_box rnd) bs, fd_reviewed = True\<rparr>), w')"
proof -
  note D = disk_okD [OF assms(1)]
  obtain f st where p: "partition_id fid = Some (f, st)" and ok: "\<not> (f = [] \<or> st = [] \<or> bad_part f \<or> bad_part st)"
    and files: "disk w (image_path rt f st) \<noteq> None" "disk w (label_path rt f st) \<noteq> None"
    using assms(4) by (auto simp: save_frame_boxes_def bnd_Inr_iff resolve_on_disk [OF assms(1)] split: option.splits if_splits)
  have r: "resolve_frame_paths F rt fid v = (Inr (Some (image_path rt f st, label_path rt f st)), v)"
    if "disk v (image_path rt f st) \<noteq> None" "disk v (label_path rt f st) \<noteq> None" for v
    using that ok by (simp add: resolve_on_disk [OF assms(1)] p)
  obtain w1 where w1: "fs_write F (label_path rt f st) (boxes_text T bs) w = (Inr (), w1)"
    "disk w1 = (disk w)(label_path rt f st := Some (boxes_text T bs))" using D(4) by blast
  have "seq (mark_reviewed T F rt fid) (ret (Some \<lparr>fd_frame_id = fid, fd_boxes = bs, fd_reviewed = True\<rparr>)) w1 = (Inr (Some d), w')"
    using assms(4) by (simp add: save_frame_boxes_def bnd_ok r [OF files] seq_ok w1(1))
  then obtain l w2 ss where "load_reviewed T F rt w1 = (Inr l, w2)" "all_some yaml_str l = Some ss"
    and wr: "fs_write F (manifest_path rt) (json_reviewed T (sorted_list_of_set (insert fid (set ss)))) w2 = (Inr (), w')"
    by (auto simp: seq_Inr_iff mark_reviewed_def bnd_Inr_iff split: option.splits)
  moreover have "w2 = w1"
    using load_reviewed_pure [OF assms(1), of T rt w1] \<open>load_reviewed T F rt w1 = (Inr l, w2)\<close> by simp
  ultimately have w': "disk w' = (disk w1)(manifest_path rt := Some (json_reviewed T (sorted_list_of_set (insert fid (set ss)))))"
    using D(4) [of "manifest_path rt" _ w1] by (metis Pair_inject)
  have 1: "disk w' (label_path rt f st) = Some (boxes_text T bs)" "disk w' (image_path rt f st) \<noteq> None"
    using w' w1(2) manifest_not_label [of rt f st] files by auto
  have 2: "load_reviewed T F rt w' = (Inr (map YStr (sorted_list_of_set (insert fid (set ss)))), w')"
    using w' assms(3) by (simp add: load_reviewed_def bnd_ok D(2,3) manifest_ok_def y_get_def reviewed_of_def list_all_iff)
  have "YStr fid \<in> set (map YStr (sorted_list_of_set (insert fid (set ss))))"
    by (simp del: sorted_list_of_set_insert_remove)
  then show ?thesis
    using 1 r [of w'] by (simp add: get_frame_detail_def bnd_ok read_boxes_def D(3) boxes_text_lines parse_lines [OF assms(2)] 2)
qed

text \<open>A disk as a map, and printers whose manifest is read back.\<close>

definition map_fs :: "(path \<Rightarrow> string option) fs" where
  "map_fs = \<lparr>fs_resolve = (\<lambda>p w. (Inr p, w)), fs_mkdir = (\<lambda>p w. (Inr (), w)), fs_write = (\<lambda>p s w. (Inr (), w(p := Some s))),
     fs_is_file = (\<lambda>p w. (Inr (w p \<noteq> None), w)), fs_read = (\<lambda>p w. case w p of None \<Rightarrow> (Inl (FileNotFoundError []), w) | Some s \<Rightarrow> (Inr s, w))\<rparr>"

lemma map_fs_ok: "disk_ok map_fs (\<lambda>w. w)"
  by (simp add: disk_ok_def map_fs_def)

definition enc_ids :: "string list \<Rightarrow> string" where
  "enc_ids l = concat (map (\<lambda>s. replicate (length s) (CHR ''1'') @ CHR ''0'' # s) l)"

function dec_ids :: "string \<Rightarrow> string list" where
  "dec_ids [] = []"
| "dec_ids (c # s) = (let n = length (takeWhile (\<lambda>x. x = CHR ''1'') (c # s)); r = drop (Suc n) (c # s)
     in take n r # dec_ids (drop n r))"
  by pat_completeness auto
termination by (relation "measure length") auto

lemma dec_enc: "dec_ids (enc_ids l) = l"
proof (induction l)
  case (Cons s l)
  have "dec_ids (replicate (length s) (CHR ''1'') @ CHR ''0'' # s @ enc_ids l) = s # dec_ids (enc_ids l)"
    by (cases s) (simp_all add: takeWhile_append Let_def)
  then show ?case using Cons by (simp add: enc_ids_def)
qed (simp add: enc_ids_def)

definition demo_manifest :: texts where
  "demo_manifest = demo_texts\<lparr>json_loads := (\<lambda>s. Inr (YMap [(''reviewed'', YList (map YStr (dec_ids s)))])), json_reviewed := enc_ids\<rparr>"

lemma demo_manifest_ok: "manifest_ok demo_manifest" "texts_ok demo_manifest (\<lambda>_. 1/2)"
  using demo_texts_ok by (simp_all add: manifest_ok_def texts_ok_def demo_manifest_def dec_enc)

theorem saved_review_is_shown_witness:
  "\<exists>d w'. save_frame_boxes demo_manifest map_fs [''d''] ''a:f'' [] (\<lambda>p. Some []) = (Inr (Some d), w') \<and>
     get_frame_detail demo_manifest map_fs [''d''] ''a:f'' w' = (Inr (Some \<lparr>fd_frame_id = ''a:f'', fd_boxes = [], fd_reviewed = True\<rparr>), w')"
proof -
  have p: "partition_id ''a:f'' = Some (''a'', ''f'')" by (simp add: partition_id_def)
  have "\<exists>d w'. save_frame_boxes demo_manifest map_fs [''d''] ''a:f'' [] (\<lambda>p. Some []) = (Inr (Some d), w')"
    by (simp add: save_frame_boxes_def bnd_ok resolve_on_disk [OF map_fs_ok] p bad_part_def)
       (simp add: seq_def bnd_def map_fs_def mark_reviewed_def load_reviewed_def reviewed_of_def demo_manifest_def y_get_def
          manifest_path_def label_path_def enc_ids_def)
  then show ?thesis
    using saved_review_is_shown [OF map_fs_ok demo_manifest_ok(2,1), of "[''d'']" "''a:f''" "[]"] by fastforce
qed

text \<open>A folder whose name contains a colon is listed for review but cannot be opened: the id that
  the list shows for any of its frames never resolves to that frame's label file.\<close>

theorem colon_folder_unreachable:
  assumes "disk_ok F disk" and "CHR '':'' \<in> set folder"
    and "resolve_frame_paths F rt (frame_id_for folder stem) w = (Inr r, w')"
  shows "map_option snd r \<noteq> Some (label_path rt folder stem)"
proof -
  obtain f st where p: "partition_id (frame_id_for folder stem) = Some (f, st)" and f: "CHR '':'' \<notin> set f"
    by (auto simp: partition_id_def frame_id_for_def dest: set_takeWhileD)
  then have "f \<noteq> folder" using assms(2) by blast
  then show ?thesis
    using assms(3) by (auto simp: resolve_on_disk [OF assms(1)] p label_path_def split: if_splits)
qed

theorem colon_folder_unreachable_witness:
  "partition_id (frame_id_for ''a:b'' ''f'') = Some (''a'', ''b:f'') \<and>
   map_option snd (fst (the (map_option (\<lambda>x. (x, ())) (case fst (resolve_frame_paths map_fs [''d''] (frame_id_for ''a:b'' ''f'')
     (\<lambda>p. Some [])) of Inr r \<Rightarrow> Some r | Inl _ \<Rightarrow> None)))) \<noteq> Some (label_path [''d''] ''a:b'' ''f'')"
proof -
  have p: "partition_id (frame_id_for ''a:b'' ''f'') = Some (''a'', ''b:f'')"
    by (simp add: partition_id_def frame_id_for_def)
  obtain r w' where r: "resolve_frame_paths map_fs [''d''] (frame_id_for ''a:b'' ''f'') (\<lambda>p. Some []) = (Inr r, w')"
    by (simp add: resolve_on_disk [OF map_fs_ok])
  from colon_folder_unreachable [OF map_fs_ok _ r] show ?thesis using p r by simp
qed

end
