(* ===== verification/Service.thy ===== *)
theory Service
  imports Config_Schema Dataset
begin

text \<open>
  The control plane: \<^verbatim>\<open>service/pipeline_manager.py\<close> and the routes of \<^verbatim>\<open>service/api/routes\<close> that
  start, stop, list and review pipelines. A pipeline with its stop event is a handle on which the
  manager makes the calls of \<open>process_api\<close>; a handler runs over the application's state and the
  world. FastAPI turns an \<^verbatim>\<open>HTTPException\<close> into a response of its status and runs the handlers in a
  pool of threads.
\<close>

section \<open>The manager\<close>

record ('p, 'w) process_api =
  pa_new :: "string \<Rightarrow> raw_dict list \<Rightarrow> raw_dict \<Rightarrow> ('w, 'p) io"   \<comment> \<open>\<^verbatim>\<open>mp.Event()\<close> and \<^verbatim>\<open>BasePipeline(..)\<close>\<close>
  pa_start :: "'p \<Rightarrow> ('w, unit) io"
  pa_stop_event :: "'p \<Rightarrow> ('w, unit) io"
  pa_join :: "'p \<Rightarrow> ('w, unit) io"                              \<comment> \<open>\<^verbatim>\<open>join(timeout=5)\<close>\<close>
  pa_alive :: "'p \<Rightarrow> ('w, bool) io"
  pa_terminate :: "'p \<Rightarrow> ('w, unit) io"

record 'p manager =
  managed :: "(string, 'p) dict"
  external_pipelines :: "(string, raw_dict list) dict"

datatype pipe_status = Pipe_running | Pipe_stopped

definition new_manager :: "'p manager" where
  "new_manager = \<lparr>managed = [], external_pipelines = []\<rparr>"

definition name_taken :: "string \<Rightarrow> 'p manager \<Rightarrow> bool" where
  "name_taken name m = (name \<in> set (dkeys (managed m)) \<or> name \<in> set (dkeys (external_pipelines m)))"

definition check_name_free :: "string \<Rightarrow> ('p manager \<times> 'w, unit) io" where
  "check_name_free name = bnd self (\<lambda>m. if name_taken name m then raise (ValueError ''already running'') else ret ())"

text \<open>The part of \<^verbatim>\<open>start_pipeline\<close> after the check.\<close>

definition launch_pipeline :: "('p, 'w) process_api \<Rightarrow> string \<Rightarrow> raw_dict list \<Rightarrow> raw_dict option \<Rightarrow> ('p manager \<times> 'w, unit) io" where
  "launch_pipeline A name nodes task =
     bnd (lift_w (pa_new A name nodes (case task of None \<Rightarrow> [] | Some t \<Rightarrow> t))) (\<lambda>p.
     seq (lift_w (pa_start A p)) (on_self (\<lambda>m. m\<lparr>managed := dset name p (managed m)\<rparr>)))"

definition start_pipeline :: "('p, 'w) process_api \<Rightarrow> string \<Rightarrow> raw_dict list \<Rightarrow> raw_dict option \<Rightarrow> ('p manager \<times> 'w, unit) io" where
  "start_pipeline A name nodes task = seq (check_name_free name) (launch_pipeline A name nodes task)"

definition stop_pipeline :: "('p, 'w) process_api \<Rightarrow> string \<Rightarrow> ('p manager \<times> 'w, unit) io" where
  "stop_pipeline A name = bnd self (\<lambda>m. case dget (managed m) name of
      None \<Rightarrow> raise (ValueError ''not found'')
    | Some p \<Rightarrow> seq (on_self (\<lambda>m. m\<lparr>managed := ddel name (managed m)\<rparr>))
        (seq (lift_w (pa_stop_event A p)) (seq (lift_w (pa_join A p))
          (bnd (lift_w (pa_alive A p)) (\<lambda>alive. if alive then lift_w (pa_terminate A p) else ret ())))))"

definition register_external :: "string \<Rightarrow> raw_dict list \<Rightarrow> ('p manager \<times> 'w, unit) io" where
  "register_external name nodes = seq (check_name_free name)
     (on_self (\<lambda>m. m\<lparr>external_pipelines := dset name nodes (external_pipelines m)\<rparr>))"

definition unregister_external :: "string \<Rightarrow> ('p manager \<times> 'w, unit) io" where
  "unregister_external name = bnd self (\<lambda>m. if name \<notin> set (dkeys (external_pipelines m)) then raise (ValueError ''not found'')
     else on_self (\<lambda>m. m\<lparr>external_pipelines := ddel name (external_pipelines m)\<rparr>))"

definition manager_status :: "('p, 'w) process_api \<Rightarrow> ('p manager \<times> 'w, (string, pipe_status) dict) io" where
  "manager_status A = bnd self (\<lambda>m.
     bnd (map_io (\<lambda>(name, p). bnd (lift_w (pa_alive A p)) (\<lambda>b. ret (name, if b then Pipe_running else Pipe_stopped))) (managed m)) (\<lambda>statuses.
     ret (fold (\<lambda>name d. dset name Pipe_running d) (dkeys (external_pipelines m)) statuses)))"

section \<open>The pipeline routes\<close>

record 'p app_state =
  as_manager :: "'p manager"
  nodes_configs :: "(string, raw_dict list) dict"

definition create_app :: "'p manager option \<Rightarrow> 'p app_state" where
  "create_app m = \<lparr>as_manager = (case m of None \<Rightarrow> new_manager | Some m' \<Rightarrow> m'), nodes_configs = []\<rparr>"

definition on_manager :: "('p manager \<times> 'w, 'a) io \<Rightarrow> ('p app_state \<times> 'w, 'a) io" where
  "on_manager c = (\<lambda>(s, w). case c (as_manager s, w) of (r, (m, w')) \<Rightarrow> (r, (s\<lparr>as_manager := m\<rparr>, w')))"

definition to_http :: "nat \<Rightarrow> ('w, 'a) io \<Rightarrow> ('w, 'a) io" where
  "to_http status c = catch_exn c is_ValueError (\<lambda>_. raise (HTTPException status))"

text \<open>\<^verbatim>\<open>validate_pipeline_config\<close> of the request's nodes; a failing import is no \<^verbatim>\<open>ConfigError\<close>.\<close>

definition validate_nodes :: "pydantic \<Rightarrow> (string \<Rightarrow> exn + unit) \<Rightarrow> raw_dict list \<Rightarrow> ('w, unit) io" where
  "validate_nodes V imp nodes = (case validate_pipeline_config V imp (YMap [(''nodes'', YList (map YMap nodes))]) of
      Inl (ImportFailure e) \<Rightarrow> raise e
    | Inl _ \<Rightarrow> raise (HTTPException 422)
    | Inr _ \<Rightarrow> ret ())"

definition route_list :: "('p, 'w) process_api \<Rightarrow> ('p app_state \<times> 'w, (string \<times> pipe_status) list) io" where
  "route_list A = on_manager (manager_status A)"

definition route_status :: "('p, 'w) process_api \<Rightarrow> string \<Rightarrow> ('p app_state \<times> 'w, string \<times> pipe_status) io" where
  "route_status A name = bnd (on_manager (manager_status A)) (\<lambda>ss. case dget ss name of
      None \<Rightarrow> raise (HTTPException 404)
    | Some st \<Rightarrow> ret (name, st))"

definition route_detail :: "('p, 'w) process_api \<Rightarrow> string \<Rightarrow> ('p app_state \<times> 'w, string \<times> pipe_status \<times> raw_dict list) io" where
  "route_detail A name = bnd (on_manager (manager_status A)) (\<lambda>ss. case dget ss name of
      None \<Rightarrow> raise (HTTPException 404)
    | Some st \<Rightarrow> bnd self (\<lambda>s. ret (name, st, case dget (nodes_configs s) name of None \<Rightarrow> [] | Some ns \<Rightarrow> ns)))"

text \<open>The configuration is kept and the new status reported.\<close>

definition keep_nodes :: "('p, 'w) process_api \<Rightarrow> string \<Rightarrow> raw_dict list \<Rightarrow> ('p app_state \<times> 'w, string \<times> pipe_status) io" where
  "keep_nodes A name nodes =
     seq (on_self (\<lambda>s. s\<lparr>nodes_configs := dset name nodes (nodes_configs s)\<rparr>))
       (bnd (on_manager (manager_status A)) (\<lambda>ss. case dget ss name of None \<Rightarrow> raise KeyError | Some st \<Rightarrow> ret (name, st)))"

definition forget_nodes :: "string \<Rightarrow> ('p app_state \<times> 'w, unit) io" where
  "forget_nodes name = on_self (\<lambda>s. s\<lparr>nodes_configs := ddel name (nodes_configs s)\<rparr>)"

definition route_start :: "pydantic \<Rightarrow> (string \<Rightarrow> exn + unit) \<Rightarrow> ('p, 'w) process_api \<Rightarrow> string \<Rightarrow> raw_dict list \<Rightarrow> raw_dict option \<Rightarrow>
    ('p app_state \<times> 'w, string \<times> pipe_status) io" where
  "route_start V imp A name nodes task = seq (validate_nodes V imp nodes)
     (seq (to_http 409 (on_manager (start_pipeline A name nodes task))) (keep_nodes A name nodes))"

definition route_stop :: "('p, 'w) process_api \<Rightarrow> string \<Rightarrow> ('p app_state \<times> 'w, unit) io" where
  "route_stop A name = seq (to_http 404 (on_manager (stop_pipeline A name))) (forget_nodes name)"

definition route_register :: "pydantic \<Rightarrow> (string \<Rightarrow> exn + unit) \<Rightarrow> ('p, 'w) process_api \<Rightarrow> string \<Rightarrow> raw_dict list \<Rightarrow>
    ('p app_state \<times> 'w, string \<times> pipe_status) io" where
  "route_register V imp A name nodes = seq (validate_nodes V imp nodes)
     (seq (to_http 409 (on_manager (register_external name nodes))) (keep_nodes A name nodes))"

definition route_unregister :: "string \<Rightarrow> ('p app_state \<times> 'w, unit) io" where
  "route_unregister name = seq (to_http 404 (on_manager (unregister_external name))) (forget_nodes name)"

definition configured_nodes :: "string \<Rightarrow> ('p app_state \<times> 'w, raw_dict list) io" where
  "configured_nodes name = bnd self (\<lambda>s. case dget (nodes_configs s) name of None \<Rightarrow> raise (HTTPException 404) | Some ns \<Rightarrow> ret ns)"

definition or_404 :: "('w, 'a option) io \<Rightarrow> ('w, 'a) io" where
  "or_404 c = bnd c (\<lambda>r. case r of None \<Rightarrow> raise (HTTPException 404) | Some x \<Rightarrow> ret x)"

definition route_preview :: "('w, 'x) dataset_fs_scheme \<Rightarrow> path \<Rightarrow> string \<Rightarrow> ('p app_state \<times> 'w, path) io" where
  "route_preview F cwd name = bnd (configured_nodes name) (\<lambda>ns. or_404 (lift_w (find_latest_frame F cwd ns)))"

section \<open>The other routes\<close>

definition dataset_root_or_404 :: "path \<Rightarrow> string \<Rightarrow> ('p app_state \<times> 'w, path) io" where
  "dataset_root_or_404 cwd name = bnd (configured_nodes name) (\<lambda>ns. or_404 (of_res (find_dataset_root cwd ns)))"

definition route_labels :: "texts \<Rightarrow> ('w, 'x) dataset_fs_scheme \<Rightarrow> path \<Rightarrow> string \<Rightarrow> ('p app_state \<times> 'w, frame_summary list) io" where
  "route_labels T F cwd name = bnd (dataset_root_or_404 cwd name) (\<lambda>rt. lift_w (list_label_frames T F rt))"

definition route_label :: "texts \<Rightarrow> ('w, 'x) dataset_fs_scheme \<Rightarrow> path \<Rightarrow> string \<Rightarrow> string \<Rightarrow> ('p app_state \<times> 'w, frame_detail) io" where
  "route_label T F cwd name fid = bnd (dataset_root_or_404 cwd name) (\<lambda>rt. or_404 (lift_w (get_frame_detail T F rt fid)))"

definition route_label_image :: "('w, 'x) dataset_fs_scheme \<Rightarrow> path \<Rightarrow> string \<Rightarrow> string \<Rightarrow> ('p app_state \<times> 'w, path) io" where
  "route_label_image F cwd name fid = bnd (dataset_root_or_404 cwd name) (\<lambda>rt. or_404 (lift_w (get_frame_image_path F rt fid)))"

definition route_update_label :: "texts \<Rightarrow> ('w, 'x) dataset_fs_scheme \<Rightarrow> path \<Rightarrow> string \<Rightarrow> string \<Rightarrow> box_spec list \<Rightarrow>
    ('p app_state \<times> 'w, frame_detail) io" where
  "route_update_label T F cwd name fid bs =
     bnd (dataset_root_or_404 cwd name) (\<lambda>rt. or_404 (lift_w (save_frame_boxes T F rt fid bs)))"

text \<open>\<^verbatim>\<open>POST /config/validate\<close> answers with the error, \<^verbatim>\<open>GET /config\<close> with the parsed file.\<close>

definition route_validate :: "pydantic \<Rightarrow> (string \<Rightarrow> exn + unit) \<Rightarrow> raw_dict list \<Rightarrow> ('w, bool \<times> config_error option) io" where
  "route_validate V imp nodes = (case validate_pipeline_config V imp (YMap [(''nodes'', YList (map YMap nodes))]) of
      Inl (ImportFailure e) \<Rightarrow> raise e
    | Inl e \<Rightarrow> ret (False, Some e)
    | Inr _ \<Rightarrow> ret (True, None))"

definition route_config :: "(string \<Rightarrow> ('w, yaml) io) \<Rightarrow> string \<Rightarrow> ('w, yaml) io" where
  "route_config load p = catch_exn (load p) is_FileNotFound (\<lambda>_. raise (HTTPException 404))"

section \<open>Requests\<close>

text \<open>The requests that change something, and what a handler does with one; the body of a
  successful response is left out.\<close>

datatype request =
    Start_req string "raw_dict list" "raw_dict option"
  | Stop_req string
  | Register_req string "raw_dict list"
  | Unregister_req string

fun handle_request :: "pydantic \<Rightarrow> (string \<Rightarrow> exn + unit) \<Rightarrow> ('p, 'w) process_api \<Rightarrow> request \<Rightarrow> ('p app_state \<times> 'w, unit) io" where
  "handle_request V imp A (Start_req n ns t) = bnd (route_start V imp A n ns t) (\<lambda>_. ret ())"
| "handle_request V imp A (Stop_req n) = route_stop A n"
| "handle_request V imp A (Register_req n ns) = bnd (route_register V imp A n ns) (\<lambda>_. ret ())"
| "handle_request V imp A (Unregister_req n) = route_unregister n"

text \<open>\<^verbatim>\<open>is_alive()\<close> of a process answers.\<close>

definition alive_total :: "('p, 'w) process_api \<Rightarrow> bool" where
  "alive_total A \<longleftrightarrow> (\<forall>p w. \<exists>b w'. pa_alive A p w = (Inr b, w'))"

text \<open>One request is handled, or something happens to the processes.\<close>

inductive svc_step :: "pydantic \<Rightarrow> (string \<Rightarrow> exn + unit) \<Rightarrow> ('p, 'w) process_api \<Rightarrow> 'p app_state \<times> 'w \<Rightarrow> 'p app_state \<times> 'w \<Rightarrow> bool"
  for V imp A where
  svc_request: "svc_step V imp A s (snd (handle_request V imp A q s))"
| svc_world: "svc_step V imp A (s, w) (s, w')"

definition svc_init :: "('p, 'w) process_api \<Rightarrow> 'p app_state \<times> 'w \<Rightarrow> bool" where
  "svc_init A s \<longleftrightarrow> alive_total A \<and> fst s = create_app None"

definition names_ok :: "'p app_state \<Rightarrow> bool" where
  "names_ok s \<longleftrightarrow> distinct (dkeys (managed (as_manager s))) \<and> distinct (dkeys (external_pipelines (as_manager s))) \<and>
     (\<forall>n p. dget (managed (as_manager s)) n = Some p \<longrightarrow>
        dget (external_pipelines (as_manager s)) n = None \<and> dget (nodes_configs s) n \<noteq> None) \<and>
     (\<forall>n ns. dget (external_pipelines (as_manager s)) n = Some ns \<longrightarrow> dget (nodes_configs s) n = Some ns)"

definition svc_inv :: "('p, 'w) process_api \<Rightarrow> 'p app_state \<times> 'w \<Rightarrow> bool" where
  "svc_inv A s \<longleftrightarrow> alive_total A \<and> names_ok (fst s)"

section \<open>The registry it implements\<close>

datatype 'p entry = Managed 'p | External

type_synonym 'p registry = "string \<Rightarrow> ('p entry \<times> raw_dict list) option"

definition svc_abs :: "'p app_state \<times> 'w \<Rightarrow> 'p registry" where
  "svc_abs s = (\<lambda>n. case dget (managed (as_manager (fst s))) n of
      Some p \<Rightarrow> Some (Managed p, the (dget (nodes_configs (fst s)) n))
    | None \<Rightarrow> map_option (\<lambda>ns. (External, ns)) (dget (external_pipelines (as_manager (fst s))) n))"

definition nodes_valid :: "pydantic \<Rightarrow> (string \<Rightarrow> exn + unit) \<Rightarrow> raw_dict list \<Rightarrow> bool" where
  "nodes_valid V imp ns = (case validate_pipeline_config V imp (YMap [(''nodes'', YList (map YMap ns))]) of Inl _ \<Rightarrow> False | Inr _ \<Rightarrow> True)"

text \<open>What a request may answer and do to the registry.\<close>

fun spec_allows :: "(raw_dict list \<Rightarrow> bool) \<Rightarrow> request \<Rightarrow> exn + unit \<Rightarrow> 'p registry \<Rightarrow> 'p registry \<Rightarrow> bool" where
  "spec_allows valid (Start_req n ns t) r a a' =
     (if \<not> valid ns then r \<noteq> Inr () \<and> a' = a
      else if a n \<noteq> None then r = Inl (HTTPException 409) \<and> a' = a
      else (\<exists>p. r = Inr () \<and> a' = a(n \<mapsto> (Managed p, ns))) \<or> (\<exists>e. r = Inl e \<and> a' = a))"
| "spec_allows valid (Stop_req n) r a a' =
     (if \<exists>p ns. a n = Some (Managed p, ns) then a' = a(n := None) else r = Inl (HTTPException 404) \<and> a' = a)"
| "spec_allows valid (Register_req n ns) r a a' =
     (if \<not> valid ns then r \<noteq> Inr () \<and> a' = a
      else if a n \<noteq> None then r = Inl (HTTPException 409) \<and> a' = a
      else r = Inr () \<and> a' = a(n \<mapsto> (External, ns)))"
| "spec_allows valid (Unregister_req n) r a a' =
     (if \<exists>ns. a n = Some (External, ns) then r = Inr () \<and> a' = a(n := None) else r = Inl (HTTPException 404) \<and> a' = a)"

definition spec_step :: "(raw_dict list \<Rightarrow> bool) \<Rightarrow> 'p registry \<Rightarrow> 'p registry \<Rightarrow> bool" where
  "spec_step valid a a' \<longleftrightarrow> a' = a \<or> (\<exists>q r. spec_allows valid q r a a')"

section \<open>What the handlers do\<close>

lemma in_dkeys_iff: "k \<in> set (dkeys d) \<longleftrightarrow> dget d k \<noteq> None"
  by (simp add: dget_eq_None_iff)

lemma name_taken_iff: "name_taken n (as_manager (fst s)) \<longleftrightarrow> svc_abs s n \<noteq> None"
  by (auto simp: name_taken_def in_dkeys_iff svc_abs_def split: option.splits)

lemma svc_abs_eq: "svc_abs (s, w) = (\<lambda>n. case dget (managed (as_manager s)) n of
      Some p \<Rightarrow> Some (Managed p, the (dget (nodes_configs s) n))
    | None \<Rightarrow> map_option (\<lambda>ns. (External, ns)) (dget (external_pipelines (as_manager s)) n))"
  by (simp only: svc_abs_def fst_conv)

lemma svc_abs_world: "svc_abs (s, w) = svc_abs (s, w')"
  by (simp add: svc_abs_eq)

lemma validate_nodes_eq:
  "nodes_valid V imp ns \<Longrightarrow> validate_nodes V imp ns s = (Inr (), s)"
  "\<not> nodes_valid V imp ns \<Longrightarrow> \<exists>e. validate_nodes V imp ns s = (Inl e, s)"
  by (auto simp: nodes_valid_def validate_nodes_def split: sum.splits config_error.splits)

lemma check_free_eq: "check_name_free n (m, w) = (if name_taken n m then (Inl (ValueError ''already running''), m, w) else (Inr (), m, w))"
  by (simp add: check_name_free_def bnd_def)

lemma start_pipeline_cases:
  obtains (taken) "name_taken n m" "start_pipeline A n ns t (m, w) = (Inl (ValueError ''already running''), m, w)"
  | (failed) e w' where "\<not> name_taken n m" "start_pipeline A n ns t (m, w) = (Inl e, m, w')"
  | (started) p w' where "\<not> name_taken n m" "start_pipeline A n ns t (m, w) = (Inr (), m\<lparr>managed := dset n p (managed m)\<rparr>, w')"
proof (cases "name_taken n m")
  case True
  then show ?thesis by (intro taken) (simp_all add: start_pipeline_def seq_def bnd_def check_free_eq)
next
  case False
  then have eq: "start_pipeline A n ns t (m, w) = launch_pipeline A n ns t (m, w)"
    by (simp add: start_pipeline_def seq_def bnd_def check_free_eq)
  obtain r w1 where r: "pa_new A n ns (case t of None \<Rightarrow> [] | Some t' \<Rightarrow> t') w = (r, w1)" by fastforce
  show ?thesis
  proof (cases r)
    case (Inl e)
    then show ?thesis using False r by (intro failed) (simp_all add: eq launch_pipeline_def bnd_def)
  next
    case (Inr p)
    obtain q w2 where q: "pa_start A p w1 = (q, w2)" by fastforce
    show ?thesis
      using False r Inr q by (cases q) (auto simp: eq launch_pipeline_def seq_def bnd_def intro: failed started)
  qed
qed

lemma manager_status_ok:
  assumes "alive_total A"
  shows "\<exists>ss w'. manager_status A (m, w) = (Inr ss, m, w') \<and>
    set (dkeys ss) = set (dkeys (managed m)) \<union> set (dkeys (external_pipelines m))"
proof -
  let ?f = "\<lambda>(name, p). bnd (lift_w (pa_alive A p)) (\<lambda>b. ret (name, if b then Pipe_running else Pipe_stopped))"
  have "\<exists>ss w'. map_io ?f ps (m, w) = (Inr ss, m, w') \<and> dkeys ss = dkeys ps" for ps
  proof (induction ps arbitrary: w)
    case (Cons q ps)
    obtain name p where q: "q = (name, p)" by fastforce
    obtain b w1 where b: "pa_alive A p w = (Inr b, w1)" using assms unfolding alive_total_def by blast
    obtain ss w' where "map_io ?f ps (m, w1) = (Inr ss, m, w')" "dkeys ss = dkeys ps" using Cons by blast
    moreover have "?f q (m, w) = (Inr (name, if b then Pipe_running else Pipe_stopped), m, w1)"
      using b by (simp add: q bnd_def)
    ultimately have "map_io ?f (q # ps) (m, w) = (Inr ((name, if b then Pipe_running else Pipe_stopped) # ss), m, w')"
      by (simp del: split_paired_All add: bnd_ok)
    then show ?case using \<open>dkeys ss = dkeys ps\<close> by (intro exI conjI) (assumption, simp add: q dkeys_def)
  qed (simp add: dkeys_def)
  then obtain ss w' where ss: "map_io ?f (managed m) (m, w) = (Inr ss, m, w')" "dkeys ss = dkeys (managed m)" by blast
  have "set (dkeys (fold (\<lambda>name d. dset name Pipe_running d) ns d)) = set (dkeys d) \<union> set ns" for ns and d :: "(string, pipe_status) dict"
    by (induction ns arbitrary: d) (auto simp: dkeys_dset)
  then show ?thesis using ss by (simp add: manager_status_def bnd_def split_def)
qed

lemma keep_nodes_ok:
  assumes "alive_total A" and "name_taken n (as_manager s)"
  shows "\<exists>x w'. keep_nodes A n ns (s, w) = (Inr x, s\<lparr>nodes_configs := dset n ns (nodes_configs s)\<rparr>, w')"
proof -
  obtain ss w' where st: "manager_status A (as_manager s, w) = (Inr ss, as_manager s, w')"
    and k: "set (dkeys ss) = set (dkeys (managed (as_manager s))) \<union> set (dkeys (external_pipelines (as_manager s)))"
    using manager_status_ok [OF assms(1)] by blast
  have "dget ss n \<noteq> None" using assms(2) k by (auto simp: name_taken_def dget_eq_None_iff)
  then show ?thesis by (auto simp: keep_nodes_def seq_def bnd_def on_manager_def st)
qed

lemma names_ok_insert:
  assumes "names_ok s" and "\<not> name_taken n (as_manager s)"
  shows "names_ok (s\<lparr>as_manager := (as_manager s)\<lparr>managed := dset n p (managed (as_manager s))\<rparr>, nodes_configs := dset n ns (nodes_configs s)\<rparr>)"
    and "names_ok (s\<lparr>as_manager := (as_manager s)\<lparr>external_pipelines := dset n ns (external_pipelines (as_manager s))\<rparr>, nodes_configs := dset n ns (nodes_configs s)\<rparr>)"
  using assms by (auto simp: names_ok_def name_taken_def in_dkeys_iff distinct_dkeys_dset split: if_splits)

lemma names_ok_remove:
  assumes "names_ok s"
  shows "n \<in> set (dkeys (managed (as_manager s))) \<Longrightarrow>
      names_ok (s\<lparr>as_manager := (as_manager s)\<lparr>managed := ddel n (managed (as_manager s))\<rparr>, nodes_configs := ddel n (nodes_configs s)\<rparr>)"
    and "n \<in> set (dkeys (external_pipelines (as_manager s))) \<Longrightarrow>
      names_ok (s\<lparr>as_manager := (as_manager s)\<lparr>external_pipelines := ddel n (external_pipelines (as_manager s))\<rparr>, nodes_configs := ddel n (nodes_configs s)\<rparr>)"
    and "names_ok (s\<lparr>as_manager := (as_manager s)\<lparr>managed := ddel n (managed (as_manager s))\<rparr>\<rparr>)"
  using assms by (auto simp: names_ok_def in_dkeys_iff distinct_dkeys_ddel split: if_splits)

text \<open>Each handler, from a state in the invariant: its answer and its effect on the registry.\<close>

definition handled :: "pydantic \<Rightarrow> (string \<Rightarrow> exn + unit) \<Rightarrow> request \<Rightarrow> 'p app_state \<times> 'w \<Rightarrow> (exn + unit) \<times> 'p app_state \<times> 'w \<Rightarrow> bool" where
  "handled V imp q s o' \<longleftrightarrow> names_ok (fst (snd o')) \<and> spec_allows (nodes_valid V imp) q (fst o') (svc_abs s) (svc_abs (snd o'))"

lemma handled_start:
  assumes a: "alive_total A" and ok: "names_ok s"
  shows "handled V imp (Start_req n ns t) (s, w) (handle_request V imp A (Start_req n ns t) (s, w))"
proof (cases "nodes_valid V imp ns")
  case False
  then obtain e where "validate_nodes V imp ns (s, w) = (Inl e, s, w)" using validate_nodes_eq(2) [OF False, of "(s, w)"] by (elim exE)
  then have "handle_request V imp A (Start_req n ns t) (s, w) = (Inl e, s, w)" by (simp add: route_start_def seq_def bnd_def)
  then show ?thesis using False ok by (simp add: handled_def)
next
  case True
  note v = validate_nodes_eq(1) [OF True]
  have h: "handle_request V imp A (Start_req n ns t) (s, w) =
    bnd (seq (to_http 409 (on_manager (start_pipeline A n ns t))) (keep_nodes A n ns)) (\<lambda>_. ret ()) (s, w)"
    by (simp add: route_start_def seq_def bnd_def v)
  note tk = name_taken_iff [of n "(s, w)", unfolded fst_conv]
  show ?thesis
  proof (cases rule: start_pipeline_cases [of n "as_manager s" A ns t w])
    case taken
    then have "handle_request V imp A (Start_req n ns t) (s, w) = (Inl (HTTPException 409), s, w)"
      by (simp del: handle_request.simps add: h seq_def bnd_def to_http_def catch_exn_def on_manager_def)
    then show ?thesis using taken(1) ok True by (simp add: handled_def tk)
  next
    case (failed e w1)
    then obtain e' where "handle_request V imp A (Start_req n ns t) (s, w) = (Inl e', s, w1)"
      by (cases "is_ValueError e") (simp_all del: handle_request.simps add: h seq_def bnd_def to_http_def catch_exn_def on_manager_def)
    then show ?thesis using failed(1) ok True svc_abs_world [of s w1 w] by (simp add: handled_def tk)
  next
    case (started p w1)
    let ?m = "(as_manager s)\<lparr>managed := dset n p (managed (as_manager s))\<rparr>"
    obtain x w2 where "keep_nodes A n ns (s\<lparr>as_manager := ?m\<rparr>, w1) = (Inr x, s\<lparr>as_manager := ?m, nodes_configs := dset n ns (nodes_configs s)\<rparr>, w2)"
      using keep_nodes_ok [OF a, of n "s\<lparr>as_manager := ?m\<rparr>" ns w1] by (force simp: name_taken_def in_dkeys_iff)
    then have e: "handle_request V imp A (Start_req n ns t) (s, w) =
        (Inr (), s\<lparr>as_manager := ?m, nodes_configs := dset n ns (nodes_configs s)\<rparr>, w2)"
      by (simp del: handle_request.simps add: h seq_def bnd_def to_http_def catch_exn_def on_manager_def started(2))
    have "svc_abs (s\<lparr>as_manager := ?m, nodes_configs := dset n ns (nodes_configs s)\<rparr>, w2) = (svc_abs (s, w))(n \<mapsto> (Managed p, ns))"
      by (auto simp: svc_abs_eq fun_eq_iff cong: option.case_cong)
    then show ?thesis
      using started(1) True names_ok_insert(1) [OF ok started(1)] by (auto simp del: handle_request.simps simp: handled_def e tk)
  qed
qed

lemma handled_register:
  assumes a: "alive_total A" and ok: "names_ok s"
  shows "handled V imp (Register_req n ns) (s, w) (handle_request V imp A (Register_req n ns) (s, w))"
proof (cases "nodes_valid V imp ns")
  case False
  then obtain e where "validate_nodes V imp ns (s, w) = (Inl e, s, w)" using validate_nodes_eq(2) [OF False, of "(s, w)"] by (elim exE)
  then have "handle_request V imp A (Register_req n ns) (s, w) = (Inl e, s, w)" by (simp add: route_register_def seq_def bnd_def)
  then show ?thesis using False ok by (simp add: handled_def)
next
  case True
  note v = validate_nodes_eq(1) [OF True]
  note tk = name_taken_iff [of n "(s, w)", unfolded fst_conv]
  have h: "handle_request V imp A (Register_req n ns) (s, w) =
    bnd (seq (to_http 409 (on_manager (register_external n ns))) (keep_nodes A n ns)) (\<lambda>_. ret ()) (s, w)"
    by (simp add: route_register_def seq_def bnd_def v)
  show ?thesis
  proof (cases "name_taken n (as_manager s)")
    case t: True
    then have "handle_request V imp A (Register_req n ns) (s, w) = (Inl (HTTPException 409), s, w)"
      by (simp del: handle_request.simps add: h register_external_def check_free_eq seq_def bnd_def to_http_def catch_exn_def on_manager_def)
    then show ?thesis using t ok True by (simp add: handled_def tk)
  next
    case f: False
    let ?m = "(as_manager s)\<lparr>external_pipelines := dset n ns (external_pipelines (as_manager s))\<rparr>"
    obtain x w2 where "keep_nodes A n ns (s\<lparr>as_manager := ?m\<rparr>, w) = (Inr x, s\<lparr>as_manager := ?m, nodes_configs := dset n ns (nodes_configs s)\<rparr>, w2)"
      using keep_nodes_ok [OF a, of n "s\<lparr>as_manager := ?m\<rparr>" ns w] by (force simp: name_taken_def in_dkeys_iff)
    then have e: "handle_request V imp A (Register_req n ns) (s, w) =
        (Inr (), s\<lparr>as_manager := ?m, nodes_configs := dset n ns (nodes_configs s)\<rparr>, w2)"
      using f by (simp del: handle_request.simps add: h register_external_def check_free_eq seq_def bnd_def to_http_def catch_exn_def on_manager_def)
    have "svc_abs (s\<lparr>as_manager := ?m, nodes_configs := dset n ns (nodes_configs s)\<rparr>, w2) = (svc_abs (s, w))(n \<mapsto> (External, ns))"
      using f by (auto simp: svc_abs_eq fun_eq_iff name_taken_def in_dkeys_iff cong: option.case_cong split: option.splits)
    then show ?thesis
      using f True names_ok_insert(2) [OF ok f] by (simp del: handle_request.simps add: handled_def e tk)
  qed
qed

text \<open>Calls on the process leave the object as it is.\<close>

definition keeps_self :: "('s \<times> 'w, 'a) io \<Rightarrow> bool" where
  "keeps_self c \<longleftrightarrow> (\<forall>s w. \<exists>r w'. c (s, w) = (r, s, w'))"

lemma keeps_self_intros:
  "keeps_self (lift_w d)" "keeps_self (ret x)"
  "keeps_self c \<Longrightarrow> (\<And>x. keeps_self (f x)) \<Longrightarrow> keeps_self (bnd c f)"
  "keeps_self b \<Longrightarrow> keeps_self k \<Longrightarrow> keeps_self (seq b k)"
  unfolding keeps_self_def seq_def bnd_def by (simp_all split: prod.splits sum.splits) (metis old.prod.inject)+

lemma handled_stop:
  assumes ok: "names_ok s"
  shows "handled V imp (Stop_req n) (s, w) (handle_request V imp A (Stop_req n) (s, w))"
proof (cases "dget (managed (as_manager s)) n")
  case None
  then have "handle_request V imp A (Stop_req n) (s, w) = (Inl (HTTPException 404), s, w)"
    by (simp add: route_stop_def stop_pipeline_def seq_def bnd_def to_http_def catch_exn_def on_manager_def)
  moreover have "\<nexists>p ns. svc_abs (s, w) n = Some (Managed p, ns)" using None by (auto simp: svc_abs_eq)
  ultimately show ?thesis using ok by (simp add: handled_def)
next
  case (Some p)
  let ?s = "s\<lparr>as_manager := (as_manager s)\<lparr>managed := ddel n (managed (as_manager s))\<rparr>\<rparr>"
  have ext: "dget (external_pipelines (as_manager s)) n = None" using ok Some by (auto simp: names_ok_def)
  obtain r w' where e: "stop_pipeline A n (as_manager s, w) = (r, as_manager ?s, w')"
  proof -
    have k: "keeps_self (seq (lift_w (pa_stop_event A p)) (seq (lift_w (pa_join A p))
        (bnd (lift_w (pa_alive A p)) (\<lambda>alive. if alive then lift_w (pa_terminate A p) else ret ()))))"
      by (auto intro!: keeps_self_intros)
    show thesis
      using k [unfolded keeps_self_def, rule_format, of "as_manager ?s" w]
      by (elim exE) (rule that, simp add: stop_pipeline_def Some seq_def [of "on_self _"] bnd_def [of self] bnd_def [of "on_self _"])
  qed
  then have "snd (handle_request V imp A (Stop_req n) (s, w)) =
      (case r of Inl _ \<Rightarrow> (?s, w') | Inr _ \<Rightarrow> (?s\<lparr>nodes_configs := ddel n (nodes_configs s)\<rparr>, w'))"
    by (cases r) (auto simp: route_stop_def seq_def bnd_def to_http_def catch_exn_def on_manager_def forget_nodes_def)
  moreover have "svc_abs (?s, w') = (svc_abs (s, w))(n := None)"
    "svc_abs (?s\<lparr>nodes_configs := ddel n (nodes_configs s)\<rparr>, w') = (svc_abs (s, w))(n := None)"
    using ext by (auto simp: svc_abs_eq fun_eq_iff cong: option.case_cong)
  moreover have "names_ok ?s" "names_ok (?s\<lparr>nodes_configs := ddel n (nodes_configs s)\<rparr>)"
    using names_ok_remove(1,3) [OF ok, of n] Some by (simp_all add: in_dkeys_iff)
  moreover have "\<exists>p ns. svc_abs (s, w) n = Some (Managed p, ns)" using Some by (simp add: svc_abs_eq)
  ultimately show ?thesis by (cases r) (simp_all add: handled_def)
qed

lemma handled_unregister:
  assumes ok: "names_ok s"
  shows "handled V imp (Unregister_req n) (s, w) (handle_request V imp A (Unregister_req n) (s, w))"
proof (cases "dget (external_pipelines (as_manager s)) n")
  case None
  then have "handle_request V imp A (Unregister_req n) (s, w) = (Inl (HTTPException 404), s, w)"
    by (simp add: route_unregister_def unregister_external_def seq_def bnd_def to_http_def catch_exn_def on_manager_def in_dkeys_iff)
  moreover have "\<nexists>ns. svc_abs (s, w) n = Some (External, ns)" using None by (auto simp: svc_abs_eq split: option.splits)
  ultimately show ?thesis using ok by (simp add: handled_def)
next
  case (Some ns)
  let ?s = "s\<lparr>as_manager := (as_manager s)\<lparr>external_pipelines := ddel n (external_pipelines (as_manager s))\<rparr>, nodes_configs := ddel n (nodes_configs s)\<rparr>"
  have m: "dget (managed (as_manager s)) n = None" using ok Some by (cases "dget (managed (as_manager s)) n") (auto simp: names_ok_def)
  have "handle_request V imp A (Unregister_req n) (s, w) = (Inr (), ?s, w)"
    using Some by (simp add: route_unregister_def unregister_external_def seq_def bnd_def to_http_def catch_exn_def on_manager_def in_dkeys_iff forget_nodes_def)
  moreover have "svc_abs (?s, w) = (svc_abs (s, w))(n := None)" using m by (auto simp: svc_abs_eq fun_eq_iff cong: option.case_cong split: option.splits)
  moreover have "names_ok ?s" using names_ok_remove(2) [OF ok, of n] Some by (simp add: in_dkeys_iff)
  moreover have "svc_abs (s, w) n = Some (External, ns)" using Some m by (simp add: svc_abs_eq)
  ultimately show ?thesis by (simp add: handled_def)
qed

lemma handled_all:
  assumes "alive_total A" and "names_ok (fst s)"
  shows "handled V imp q s (handle_request V imp A q s)"
  using assms by (cases s; cases q) (auto simp del: handle_request.simps intro!: handled_start handled_stop handled_register handled_unregister)

lemma svc_step_cases:
  assumes "svc_step V imp A s t"
  obtains (request) q where "t = snd (handle_request V imp A q s)" | (world) "fst t = fst s"
  using assms by (cases rule: svc_step.cases) auto

interpretation service: refinement_system "svc_init A" "svc_step V imp A" "svc_inv A" svc_abs
    "\<lambda>a. a = Map.empty" "spec_step (nodes_valid V imp)" for V imp A
proof
  fix s t
  show "svc_init A s \<Longrightarrow> svc_inv A s"
    by (auto simp: svc_init_def svc_inv_def names_ok_def create_app_def new_manager_def dkeys_def)
  show "svc_init A s \<Longrightarrow> svc_abs s = Map.empty"
    by (auto simp: svc_init_def svc_abs_def create_app_def new_manager_def)
  assume i: "svc_inv A s" and "svc_step V imp A s t"
  from this(2) show "svc_inv A t"
    by (cases rule: svc_step_cases) (use i handled_all [of A s V imp] in \<open>auto simp: svc_inv_def handled_def\<close>)
  from \<open>svc_step V imp A s t\<close> show "spec_step (nodes_valid V imp) (svc_abs s) (svc_abs t)"
  proof (cases rule: svc_step_cases)
    case (request q)
    then show ?thesis using i handled_all [of A s V imp q] by (auto simp: svc_inv_def handled_def spec_step_def)
  next
    case world
    then have "svc_abs t = svc_abs s" by (simp only: svc_abs_def)
    then show ?thesis by (simp add: spec_step_def)
  qed
qed

section \<open>Properties\<close>

text \<open>C14: The control plane implements a registry of named pipelines: from every reachable state a
  start or register request for a taken name is refused with 409 and changes nothing, an accepted
  one adds exactly its name, stop removes a managed and unregister an external name, any other stop
  or unregister is refused with 404, and a request with an invalid configuration changes nothing.\<close>

theorem service_refines_registry:
  assumes "reach (svc_init A) (svc_step V imp A) s" and "handle_request V imp A q s = (r, t)"
  shows "spec_allows (nodes_valid V imp) q r (svc_abs s) (svc_abs t) \<and>
    reach (\<lambda>a. a = Map.empty) (spec_step (nodes_valid V imp)) (svc_abs s)"
  using service.reach_inv [OF assms(1)] service.reach_abs [OF assms(1)] handled_all [of A s V imp q] assms(2)
  by (simp add: svc_inv_def handled_def)

text \<open>A world in which processes are their numbers and stay alive until they are terminated.\<close>

definition demo_processes :: "(nat, nat list) process_api" where
  "demo_processes = \<lparr>pa_new = (\<lambda>n ns t w. (Inr (length w), w)), pa_start = (\<lambda>p w. (Inr (), w @ [p])),
     pa_stop_event = (\<lambda>p w. (Inr (), w)), pa_join = (\<lambda>p w. (Inr (), w)), pa_alive = (\<lambda>p w. (Inr (p \<in> set w), w)),
     pa_terminate = (\<lambda>p w. (Inr (), filter (\<lambda>x. x \<noteq> p) w))\<rparr>"

lemma demo_alive: "alive_total demo_processes"
  by (simp add: alive_total_def demo_processes_def)

lemma demo_reach: "reach (svc_init demo_processes) (svc_step V imp demo_processes) (create_app None, [])"
  by (rule reach.reach_init) (simp add: svc_init_def demo_alive)

theorem service_refines_registry_witness:
  "fst (handle_request strict_pydantic (\<lambda>m. Inr ()) demo_processes (Stop_req ''p'') (create_app None, [])) = Inl (HTTPException 404)"
proof -
  obtain r t where h: "handle_request strict_pydantic (\<lambda>m. Inr ()) demo_processes (Stop_req ''p'') (create_app None, []) = (r, t)"
    by (rule prod.exhaust)
  from service_refines_registry [OF demo_reach h]
  have "r = Inl (HTTPException 404)" by (simp add: svc_abs_def create_app_def new_manager_def)
  then show ?thesis using h by simp
qed

text \<open>What the service shows is the registry: in every reachable state the listing names every
  pipeline of the registry and nothing else, the name of a managed pipeline is never that of an
  external one, and every listed name has the node configuration its detail, preview and label
  routes look up.\<close>

theorem listing_is_registry:
  assumes "reach (svc_init A) (svc_step V imp A) (s, w)"
  shows "\<exists>ss w'. route_list A (s, w) = (Inr ss, s, w') \<and> set (dkeys ss) = dom (svc_abs (s, w)) \<and>
    set (dkeys (managed (as_manager s))) \<inter> set (dkeys (external_pipelines (as_manager s))) = {} \<and>
    list_all (\<lambda>n. dget (nodes_configs s) n = map_option snd (svc_abs (s, w) n) \<and> dget (nodes_configs s) n \<noteq> None) (dkeys ss)"
proof -
  have a: "alive_total A" and ok: "names_ok s" using service.reach_inv [OF assms] by (simp_all add: svc_inv_def)
  obtain ss w' where ss: "manager_status A (as_manager s, w) = (Inr ss, as_manager s, w')"
    and k: "set (dkeys ss) = set (dkeys (managed (as_manager s))) \<union> set (dkeys (external_pipelines (as_manager s)))"
    using manager_status_ok [OF a] by blast
  have "route_list A (s, w) = (Inr ss, s, w')" by (simp add: route_list_def on_manager_def ss)
  moreover have "set (dkeys ss) = dom (svc_abs (s, w))"
    unfolding k by (auto simp: svc_abs_eq in_dkeys_iff split: option.splits)
  moreover have "set (dkeys (managed (as_manager s))) \<inter> set (dkeys (external_pipelines (as_manager s))) = {}"
    using ok by (auto simp: names_ok_def in_dkeys_iff)
  moreover have "dget (nodes_configs s) n = map_option snd (svc_abs (s, w) n) \<and> dget (nodes_configs s) n \<noteq> None" if "n \<in> set (dkeys ss)" for n
  proof (cases "dget (managed (as_manager s)) n")
    case None
    then show ?thesis using that ok unfolding k by (auto simp: names_ok_def in_dkeys_iff svc_abs_eq)
  next
    case (Some p)
    then show ?thesis using ok by (auto simp: names_ok_def svc_abs_eq)
  qed
  ultimately show ?thesis by (auto simp: list_all_iff)
qed

theorem listing_is_registry_witness:
  "\<exists>ss w'. route_list demo_processes (create_app None, []) = (Inr ss, create_app None, w') \<and> dkeys ss = []"
  using listing_is_registry [OF demo_reach [of strict_pydantic "\<lambda>m. Inr ()"]]
  by (auto simp: svc_abs_def create_app_def new_manager_def) 

lemma launch_okE:
  assumes "launch_pipeline A n ns t (m, w) = (Inr (), m', w')"
  obtains p wa where "m' = m\<lparr>managed := dset n p (managed m)\<rparr>" "pa_start A p wa = (Inr (), w')"
proof -
  obtain r w1 where r: "pa_new A n ns (case t of None \<Rightarrow> [] | Some t' \<Rightarrow> t') w = (r, w1)" by (rule prod.exhaust)
  then obtain p where p: "r = Inr p" using assms by (cases r) (simp_all add: launch_pipeline_def bnd_def)
  obtain q w2 where q: "pa_start A p w1 = (q, w2)" by (rule prod.exhaust)
  then show thesis using assms r p by (cases q) (auto simp: launch_pipeline_def seq_def bnd_def intro: that)
qed

text \<open>C28: The check and the start of a pipeline are not one step: when two requests for the same free
  name, which the server runs in two threads, both make the check before either has stored its
  pipeline, both start a process and the manager keeps only the second, so the first runs on and no
  request can stop it.\<close>

theorem concurrent_starts_lose_pipeline:
  assumes "\<not> name_taken n m" and "p1 \<notin> set (dvalues (managed m))" and "p1 \<noteq> p2"
    and "launch_pipeline A n ns1 t1 (m, w) = (Inr (), m1, w1)" and "dget (managed m1) n = Some p1"
    and "launch_pipeline A n ns2 t2 (m1, w1) = (Inr (), m2, w2)" and "dget (managed m2) n = Some p2"
  shows "check_name_free n (m, w) = (Inr (), m, w) \<and> (\<exists>w0 w0'. pa_start A p1 w0 = (Inr (), w0')) \<and>
    p1 \<notin> set (dvalues (managed m2))"
proof -
  obtain q1 wa where 1: "m1 = m\<lparr>managed := dset n q1 (managed m)\<rparr>" "pa_start A q1 wa = (Inr (), w1)"
    using assms(4) by (rule launch_okE)
  obtain q2 where 2: "m2 = m1\<lparr>managed := dset n q2 (managed m1)\<rparr>"
    using assms(6) by (rule launch_okE)
  have q: "q1 = p1" "q2 = p2" using assms(5,7) 1 2 by simp_all
  have "dset n p2 (dset n p1 (managed m)) = dset n p2 (managed m)" by (induction "managed m") auto
  then have "managed m2 = dset n p2 (managed m)" using 1(1) 2 q by simp
  then have "p1 \<notin> set (dvalues (managed m2))"
    using dvalues_dset [of n p2 "managed m"] assms(2,3) by auto
  then show ?thesis using assms(1) 1(2) q(1) by (auto simp: check_free_eq)
qed

theorem concurrent_starts_lose_pipeline_witness:
  "fst (snd (launch_pipeline demo_processes ''p'' [] None (snd (launch_pipeline demo_processes ''p'' [] None (new_manager, []))))) =
     \<lparr>managed = [(''p'', 1)], external_pipelines = []\<rparr> \<and>
   snd (snd (launch_pipeline demo_processes ''p'' [] None (snd (launch_pipeline demo_processes ''p'' [] None (new_manager, []))))) = [0, 1] \<and>
   (0 :: nat) \<notin> set (dvalues [(''p'', 1)])"
proof -
  have 1: "launch_pipeline demo_processes ''p'' [] None (new_manager, []) = (Inr (), \<lparr>managed = [(''p'', 0)], external_pipelines = []\<rparr>, [0])"
    and 2: "launch_pipeline demo_processes ''p'' [] None (\<lparr>managed = [(''p'', 0)], external_pipelines = []\<rparr>, [0]) =
      (Inr (), \<lparr>managed = [(''p'', 1)], external_pipelines = []\<rparr>, [0, 1])"
    by (simp_all add: launch_pipeline_def demo_processes_def bnd_def seq_def new_manager_def)
  have "(0 :: nat) \<notin> set (dvalues (managed \<lparr>managed = [(''p'', 1)], external_pipelines = []\<rparr>))"
    using concurrent_starts_lose_pipeline [of "''p''" new_manager 0 1 demo_processes "[]" None "[]" _ _ "[]" None, OF _ _ _ 1 _ 2]
    by (simp add: name_taken_def new_manager_def dkeys_def dvalues_def)
  then show ?thesis by (simp add: 1 2)
qed

text \<open>A pipeline whose process has died keeps its name: it cannot be started again before it is stopped.\<close>

lemma dead_name_stays_taken:
  assumes "reach (svc_init A) (svc_step V imp A) (s, w)" and "dget (managed (as_manager s)) n = Some p"
    and "nodes_valid V imp ns"
  shows "handle_request V imp A (Start_req n ns t) (s, w') = (Inl (HTTPException 409), s, w')"
proof -
  have "start_pipeline A n ns t (as_manager s, w') = (Inl (ValueError ''already running''), as_manager s, w')"
    using assms(2) by (simp add: start_pipeline_def seq_def bnd_def check_free_eq name_taken_def in_dkeys_iff)
  then show ?thesis
    by (simp add: route_start_def seq_def bnd_def validate_nodes_eq(1) [OF assms(3)] to_http_def catch_exn_def on_manager_def)
qed

end
