(* ===== verification/Catalog.thy ===== *)
theory Catalog
  imports Config_Schema Tools
begin

text \<open>
  The node catalog of the configuration builder (\<^verbatim>\<open>service/api/node_catalog.py\<close>), the arguments
  every \<^verbatim>\<open>from_config\<close> reads from a node's configuration, and the metrics snapshot of
  \<^verbatim>\<open>service/api/metrics.py\<close>. Descriptions of nodes and fields, which are only shown, are left out.
\<close>

section \<open>The catalog\<close>

datatype field_kind = K_string | K_integer | K_number | K_boolean | K_enum | K_model_config

record node_field =
  nf_name :: string
  nf_kind :: field_kind
  nf_required :: bool
  nf_default :: yaml
  nf_options :: "string list option"

datatype run_kind = Runs_thread | Runs_process

definition catalog_field :: "string \<Rightarrow> field_kind \<Rightarrow> bool \<Rightarrow> yaml \<Rightarrow> string list option \<Rightarrow> node_field" where
  "catalog_field n k req dflt opts = \<lparr>nf_name = n, nf_kind = k, nf_required = req, nf_default = dflt, nf_options = opts\<rparr>"

text \<open>A field that must be given, and one with a default.\<close>

abbreviation needed :: "string \<Rightarrow> field_kind \<Rightarrow> node_field" where
  "needed n k \<equiv> catalog_field n k True YNull None"

abbreviation defaulted :: "string \<Rightarrow> field_kind \<Rightarrow> yaml \<Rightarrow> node_field" where
  "defaulted n k d \<equiv> catalog_field n k False d None"

definition backend_field :: node_field where
  "backend_field = catalog_field ''backend'' K_enum False (YStr ''TorchBackend'')
     (Some [''TorchBackend'', ''TensorRTBackend'', ''ONNXRuntimeBackend''])"

definition MODEL_TYPES :: "(string \<times> node_field list) list" where
  "MODEL_TYPES =
    [(''YOLOv8'', [needed ''path'' K_string, backend_field, defaulted ''device_id'' K_integer (YInt 0),
        defaulted ''imgsz'' K_integer YNull, defaulted ''conf'' K_number (YFloat 0.2), defaulted ''iou'' K_number (YFloat 0.7),
        defaulted ''max_det'' K_integer (YInt 100), defaulted ''extract_embeddings'' K_boolean (YBool False)]),
     (''BlurClassification'', [needed ''path'' K_string, backend_field, defaulted ''device_id'' K_integer (YInt 0),
        defaulted ''conf'' K_number (YFloat 0.5)]),
     (''EmbeddingFilter'', [needed ''path'' K_string, backend_field, defaulted ''device_id'' K_integer (YInt 0),
        defaulted ''eps'' K_number (YFloat 0.015), defaulted ''min_samples'' K_integer (YInt 2),
        defaulted ''num_extremes'' K_integer (YInt 1)])]"

definition MODEL_CONFIG_FIELD :: node_field where
  "MODEL_CONFIG_FIELD = needed ''model_config'' K_model_config"

definition BATCH_FIELDS :: "node_field list" where
  "BATCH_FIELDS = [needed ''batch_size'' K_integer, defaulted ''batch_queue_size'' K_integer (YInt 20),
     defaulted ''batch_collect_timeout'' K_number (YFloat 0.1)]"

record catalog_entry =
  ce_type :: string
  ce_runs_as :: run_kind
  ce_fields :: "node_field list"
  ce_model_types :: "(string \<times> node_field list) list option"

definition resize_fields :: "node_field list" where
  "resize_fields = [needed ''target_width'' K_integer, needed ''target_height'' K_integer]"

definition STATIC_CATALOG :: "catalog_entry list" where
  "STATIC_CATALOG =
    [\<lparr>ce_type = ''FolderImageNode'', ce_runs_as = Runs_thread,
      ce_fields = [needed ''folder_path'' K_string,
        catalog_field ''mode'' K_enum False (YStr ''loop'') (Some [''loop'', ''only_one'']),
        defaulted ''frame_delay'' K_number (YFloat 0.01)], ce_model_types = None\<rparr>,
     \<lparr>ce_type = ''SaveImageNode'', ce_runs_as = Runs_thread, ce_fields = [needed ''save_dir'' K_string], ce_model_types = None\<rparr>,
     \<lparr>ce_type = ''ResizeNode'', ce_runs_as = Runs_thread, ce_fields = resize_fields, ce_model_types = None\<rparr>,
     \<lparr>ce_type = ''ResizeProcessNode'', ce_runs_as = Runs_process, ce_fields = resize_fields, ce_model_types = None\<rparr>,
     \<lparr>ce_type = ''HashNode'', ce_runs_as = Runs_thread,
      ce_fields = [needed ''delta'' K_integer, needed ''hash_size'' K_integer,
        catalog_field ''hash_type'' K_enum True YNull
          (Some [''colorhash'', ''dhash'', ''phash'', ''average_hash'', ''phash_simple'', ''dhash_vertical'', ''whash''])],
      ce_model_types = None\<rparr>,
     \<lparr>ce_type = ''VadNode'', ce_runs_as = Runs_thread, ce_fields = [defaulted ''energy_threshold'' K_number (YFloat 0.01)],
      ce_model_types = None\<rparr>,
     \<lparr>ce_type = ''DrawNode'', ce_runs_as = Runs_thread, ce_fields = [], ce_model_types = None\<rparr>,
     \<lparr>ce_type = ''TextNormalizeNode'', ce_runs_as = Runs_thread, ce_fields = [], ce_model_types = None\<rparr>,
     \<lparr>ce_type = ''ProcessDetInference'', ce_runs_as = Runs_process, ce_fields = [MODEL_CONFIG_FIELD], ce_model_types = Some MODEL_TYPES\<rparr>,
     \<lparr>ce_type = ''ProcessBlurInference'', ce_runs_as = Runs_process, ce_fields = [MODEL_CONFIG_FIELD], ce_model_types = Some MODEL_TYPES\<rparr>,
     \<lparr>ce_type = ''ProcessDetBatchInference'', ce_runs_as = Runs_process, ce_fields = BATCH_FIELDS @ [MODEL_CONFIG_FIELD],
      ce_model_types = Some MODEL_TYPES\<rparr>,
     \<lparr>ce_type = ''ProcessEmbeddingInference'', ce_runs_as = Runs_process, ce_fields = BATCH_FIELDS @ [MODEL_CONFIG_FIELD],
      ce_model_types = Some MODEL_TYPES\<rparr>,
     \<lparr>ce_type = ''ActiveLearning'', ce_runs_as = Runs_thread,
      ce_fields = [needed ''num_to_select'' K_integer,
        catalog_field ''conf_strategy'' K_enum True YNull (Some [''sum'', ''avg'', ''max'']),
        needed ''conf_weight'' K_number], ce_model_types = None\<rparr>,
     \<lparr>ce_type = ''CreateDataset'', ce_runs_as = Runs_thread, ce_fields = [needed ''save_dir'' K_string], ce_model_types = None\<rparr>]"

record node_type_spec = catalog_entry +
  nts_accepts :: "message_class list"
  nts_emits :: "message_class list"

definition type_spec :: "catalog_entry \<Rightarrow> message_class list \<Rightarrow> message_class list \<Rightarrow> node_type_spec" where
  "type_spec e acc em = catalog_entry.extend e (node_type_spec.fields acc em)"

text \<open>\<^verbatim>\<open>get_node_catalog\<close>: types whose extra is missing are left out, other failures propagate.\<close>

definition entry_spec :: "(string \<Rightarrow> exn + unit) \<Rightarrow> catalog_entry \<Rightarrow> exn + node_type_spec" where
  "entry_spec imp e = (case get_accepts imp (ce_type e) of
      Inl x \<Rightarrow> Inl x
    | Inr acc \<Rightarrow> (case get_emits imp (ce_type e) of Inl x \<Rightarrow> Inl x | Inr em \<Rightarrow> Inr (type_spec e acc em)))"

fun catalog_loop :: "(string \<Rightarrow> exn + unit) \<Rightarrow> catalog_entry list \<Rightarrow> exn + node_type_spec list" where
  "catalog_loop imp [] = Inr []"
| "catalog_loop imp (e # es) = (case entry_spec imp e of
      Inl (MissingExtraError _) \<Rightarrow> catalog_loop imp es
    | Inl x \<Rightarrow> Inl x
    | Inr t \<Rightarrow> map_sum (\<lambda>x. x) ((#) t) (catalog_loop imp es))"

definition get_node_catalog :: "(string \<Rightarrow> exn + unit) \<Rightarrow> exn + node_type_spec list" where
  "get_node_catalog imp = catalog_loop imp STATIC_CATALOG"

section \<open>What the nodes read of their configuration\<close>

text \<open>\<^verbatim>\<open>config[k]\<close> for the required keys and \<^verbatim>\<open>config.get(k, default)\<close> for the others; the mailbox,
  which the factory puts in, is not part of it.\<close>

definition read_args :: "string list \<Rightarrow> (string \<times> yaml) list \<Rightarrow> raw_dict \<Rightarrow> exn + raw_dict" where
  "read_args req opt cfg =
     (if list_all (\<lambda>k. dget cfg k \<noteq> None) req
      then Inr (map (\<lambda>k. (k, the (dget cfg k))) req @ map (\<lambda>(k, d). (k, y_get cfg k d)) opt)
      else Inl KeyError)"

definition folder_image_args :: "raw_dict \<Rightarrow> exn + raw_dict" where
  "folder_image_args = read_args [''folder_path''] [(''mode'', YStr ''loop''), (''frame_delay'', YFloat 0.01)]"

definition save_image_args :: "raw_dict \<Rightarrow> exn + raw_dict" where
  "save_image_args = read_args [''save_dir''] []"

definition resize_args :: "raw_dict \<Rightarrow> exn + raw_dict" where
  "resize_args = read_args [''target_width'', ''target_height''] []"

definition resize_process_args :: "raw_dict \<Rightarrow> exn + raw_dict" where
  "resize_process_args = read_args [''target_width'', ''target_height''] []"

definition hash_args :: "raw_dict \<Rightarrow> exn + raw_dict" where
  "hash_args = read_args [''delta'', ''hash_size'', ''hash_type''] []"

definition vad_args :: "raw_dict \<Rightarrow> exn + raw_dict" where
  "vad_args = read_args [] [(''energy_threshold'', YFloat 0.01), (''session_id'', YStr ''default''),
     (''barge_in_energy_threshold'', YNull), (''barge_in_cooldown_sec'', YFloat 1.5), (''aec_enabled'', YBool False),
     (''aec_filter_length'', YInt 2048), (''aec_step_size'', YFloat 0.3), (''mic_sample_rate'', YInt 16000)]"

definition draw_args :: "raw_dict \<Rightarrow> exn + raw_dict" where
  "draw_args = read_args [] []"

definition text_normalize_args :: "raw_dict \<Rightarrow> exn + raw_dict" where
  "text_normalize_args = read_args [] []"

definition inference_args :: "raw_dict \<Rightarrow> exn + raw_dict" where
  "inference_args = read_args [''model_config'', ''id''] []"

text \<open>\<^verbatim>\<open>cls(**config)\<close>: every key that is left in the configuration is a keyword argument of
  \<^verbatim>\<open>BaseBatchProcessInference.__init__\<close>.\<close>

definition BATCH_DEFAULTS :: raw_dict where
  "BATCH_DEFAULTS = [(''batch_queue_size'', YInt 20), (''batch_collect_timeout'', YFloat 0.1), (''id'', YStr ''BaseBatchProcessInference'')]"

definition batch_args :: "raw_dict \<Rightarrow> exn + raw_dict" where
  "batch_args cfg =
     (if list_all (\<lambda>k. k \<in> set ([''batch_size'', ''model_config''] @ dkeys BATCH_DEFAULTS)) (dkeys cfg)
      then map_sum (\<lambda>_. TypeError ''missing argument'') (\<lambda>a. a) (read_args [''batch_size'', ''model_config''] BATCH_DEFAULTS cfg)
      else Inl (TypeError ''unexpected keyword argument''))"

text \<open>The embedding node reads the model configuration before it calls its base class.\<close>

definition embedding_args :: "raw_dict \<Rightarrow> exn + raw_dict" where
  "embedding_args cfg = (case dget cfg ''model_config'' of
      None \<Rightarrow> Inl KeyError
    | Some (YMap m) \<Rightarrow> map_sum (\<lambda>x. x) (\<lambda>a. a @ [(''eps'', y_get m ''eps'' (YFloat 0.015)),
        (''min_samples'', y_get m ''min_samples'' (YInt 2)), (''num_extremes'', y_get m ''num_extremes'' (YInt 1))]) (batch_args cfg)
    | Some _ \<Rightarrow> Inl (AttributeError ''get''))"

definition det_batch_args :: "raw_dict \<Rightarrow> exn + raw_dict" where
  "det_batch_args cfg = (case batch_args cfg of
      Inl e \<Rightarrow> Inl e
    | Inr a \<Rightarrow> (case y_get cfg ''model_config'' (YMap []) of
        YMap m \<Rightarrow> Inr (a @ [(''extract_embeddings'', y_get m ''extract_embeddings'' (YBool False))])
      | _ \<Rightarrow> Inl (AttributeError ''get'')))"

definition active_learning_args :: "raw_dict \<Rightarrow> exn + raw_dict" where
  "active_learning_args = read_args [''num_to_select'', ''conf_strategy'', ''conf_weight''] []"

definition create_dataset_args :: "raw_dict \<Rightarrow> exn + raw_dict" where
  "create_dataset_args = read_args [''save_dir''] []"

text \<open>The classes of the catalog; the speech and tool nodes need objects and are built elsewhere.\<close>

definition catalog_args :: "string \<Rightarrow> raw_dict \<Rightarrow> exn + raw_dict" where
  "catalog_args cls = the (dget
    [(''FolderImageNode'', folder_image_args), (''SaveImageNode'', save_image_args), (''ResizeNode'', resize_args),
     (''ResizeProcessNode'', resize_process_args), (''HashNode'', hash_args), (''VadNode'', vad_args), (''DrawNode'', draw_args),
     (''TextNormalizeNode'', text_normalize_args), (''ProcessDetInference'', inference_args), (''ProcessBlurInference'', inference_args),
     (''ProcessDetBatchInference'', det_batch_args), (''ProcessEmbeddingInference'', embedding_args),
     (''ActiveLearning'', active_learning_args), (''CreateDataset'', create_dataset_args)] cls)"

section \<open>Metrics\<close>

record metric_sample =
  sm_name :: string
  sm_labels :: "(string, string) dict"
  sm_value :: real

record metric_family =
  fam_name :: string
  fam_type :: string
  fam_samples :: "metric_sample list"

definition active_families :: "string option \<Rightarrow> (string \<Rightarrow> metric_family list) \<Rightarrow> metric_family list \<Rightarrow> metric_family list" where
  "active_families multiproc_dir collect_dir registry = (case multiproc_dir of
      None \<Rightarrow> registry | Some d \<Rightarrow> if d = [] then registry else collect_dir d)"

definition sample_key :: "metric_sample \<Rightarrow> string" where
  "sample_key s = (let node = (case dget (sm_labels s) ''node'' of None \<Rightarrow> [] | Some n \<Rightarrow> n) in
     case dget (sm_labels s) ''reason'' of
       None \<Rightarrow> node
     | Some r \<Rightarrow> if r = [] then node else node @ CHR '':'' # r)"

definition snapshot_family :: "metric_family \<Rightarrow> (string, (string, real) dict) dict \<Rightarrow> (string, (string, real) dict) dict" where
  "snapshot_family f snap =
     (if \<not> prefix ''neudc_node_'' (fam_name f) \<or> fam_type f \<in> {''histogram'', ''summary''} then snap
      else let name = (if fam_type f = ''counter'' then fam_name f @ ''_total'' else fam_name f);
               series = (case dget snap name of None \<Rightarrow> [] | Some d \<Rightarrow> d)
           in dset name (fold (\<lambda>s d. dset (sample_key s) (sm_value s) d) (fam_samples f) series) snap)"

definition snapshot_metrics :: "metric_family list \<Rightarrow> (string, (string, real) dict) dict" where
  "snapshot_metrics fs = fold snapshot_family fs []"

section \<open>Properties of the catalog\<close>

lemma dget_node_arguments: "dget (node_arguments cfg) k = (if k \<in> set ROUTING_KEYS then None else dget cfg k)"
proof -
  have "dget (fold ddel ks d) k = (if k \<in> set ks then None else dget d k)" for ks and d :: raw_dict
    by (induction ks arbitrary: d) auto
  then show ?thesis by (simp add: node_arguments_def)
qed

lemma dkeys_node_arguments: "k \<in> set (dkeys (node_arguments cfg)) \<longleftrightarrow> k \<in> set (dkeys cfg) \<and> k \<notin> set ROUTING_KEYS"
  using dget_node_arguments [of cfg k] dget_eq_None_iff [of cfg k] dget_eq_None_iff [of "node_arguments cfg" k]
  by (auto split: if_splits)

lemma read_args_ok:
  assumes "list_all (\<lambda>k. dget cfg k \<noteq> None) req" and "set req \<inter> set (dkeys opt) = {}" and "distinct (dkeys opt)"
  shows "\<exists>a. read_args req opt cfg = Inr a \<and> (\<forall>k d. (k, d) \<in> set opt \<longrightarrow> dget a k = Some (y_get cfg k d))"
proof -
  have r: "dget (map (\<lambda>k. (k, the (dget cfg k))) req) k = None" if "k \<notin> set req" for k
    using that by (induction req) auto
  have o1: "dget (map (\<lambda>(k, d). (k, y_get cfg k d)) opt) k = Some (y_get cfg k d)" if "(k, d) \<in> set opt" for k d
    using that assms(3) by (induction opt) (auto simp: dkeys_def rev_image_eqI)
  have "k \<notin> set req" if "(k, d) \<in> set opt" for k d using that assms(2) by (force simp: dkeys_def)
  then show ?thesis using assms(1) r o1 by (auto simp: read_args_def map_add_def)
qed

text \<open>A form that is filled in for an entry: the identifier, the required fields, and nothing but
  fields of the entry and keys of the routing.\<close>

definition form_filled :: "catalog_entry \<Rightarrow> raw_dict \<Rightarrow> bool" where
  "form_filled e cfg \<longleftrightarrow> dget cfg ''id'' \<noteq> None \<and>
     list_all (\<lambda>f. nf_required f \<longrightarrow> dget cfg (nf_name f) \<noteq> None) (ce_fields e) \<and>
     list_all (\<lambda>k. k \<in> set (''id'' # ROUTING_KEYS @ map nf_name (ce_fields e))) (dkeys cfg) \<and>
     (case y_get cfg ''model_config'' (YMap []) of YMap _ \<Rightarrow> True | _ \<Rightarrow> False)"

definition entry_builds :: "raw_dict \<Rightarrow> catalog_entry \<Rightarrow> bool" where
  "entry_builds cfg e \<longleftrightarrow> (case catalog_args (ce_type e) (node_arguments cfg) of
      Inl _ \<Rightarrow> False
    | Inr a \<Rightarrow> list_all (\<lambda>f. nf_required f \<or> dget cfg (nf_name f) \<noteq> None \<or> dget a (nf_name f) = Some (nf_default f)) (ce_fields e))"

lemma y_get_absent: "dget d k = None \<Longrightarrow> y_get d k v = v"
  by (simp add: y_get_def)

lemma catalog_args_simps:
  "catalog_args ''FolderImageNode'' = folder_image_args" "catalog_args ''SaveImageNode'' = save_image_args"
  "catalog_args ''ResizeNode'' = resize_args" "catalog_args ''ResizeProcessNode'' = resize_process_args"
  "catalog_args ''HashNode'' = hash_args" "catalog_args ''VadNode'' = vad_args" "catalog_args ''DrawNode'' = draw_args"
  "catalog_args ''TextNormalizeNode'' = text_normalize_args" "catalog_args ''ProcessDetInference'' = inference_args"
  "catalog_args ''ProcessBlurInference'' = inference_args" "catalog_args ''ProcessDetBatchInference'' = det_batch_args"
  "catalog_args ''ProcessEmbeddingInference'' = embedding_args" "catalog_args ''ActiveLearning'' = active_learning_args"
  "catalog_args ''CreateDataset'' = create_dataset_args"
  by (simp_all add: catalog_args_def)

lemmas plain_args = folder_image_args_def save_image_args_def resize_args_def resize_process_args_def hash_args_def vad_args_def
  draw_args_def text_normalize_args_def inference_args_def active_learning_args_def create_dataset_args_def

definition is_batch_type :: "string \<Rightarrow> bool" where
  "is_batch_type t \<longleftrightarrow> t = ''ProcessDetBatchInference'' \<or> t = ''ProcessEmbeddingInference''"

definition entry_fits :: "catalog_entry \<Rightarrow> string list \<Rightarrow> raw_dict \<Rightarrow> bool" where
  "entry_fits e req opt \<longleftrightarrow> list_all (\<lambda>k. k = ''id'' \<or> list_ex (\<lambda>f. nf_name f = k \<and> nf_required f) (ce_fields e)) req \<and>
     set req \<inter> set (dkeys opt) = {} \<and> distinct (dkeys opt) \<and> set req \<inter> set ROUTING_KEYS = {} \<and>
     list_all (\<lambda>f. \<not> nf_required f \<longrightarrow> (nf_name f, nf_default f) \<in> set opt) (ce_fields e)"

lemma fit_entry_builds:
  assumes "form_filled e cfg" and "catalog_args (ce_type e) = read_args req opt" and "entry_fits e req opt"
  shows "entry_builds cfg e"
proof -
  have "dget (node_arguments cfg) k \<noteq> None" if k: "k \<in> set req" for k
  proof -
    have "k = ''id'' \<or> (\<exists>f \<in> set (ce_fields e). nf_name f = k \<and> nf_required f)" "k \<notin> set ROUTING_KEYS"
      using k assms(3) by (auto simp: entry_fits_def list_all_iff list_ex_iff)
    then show ?thesis using assms(1) by (auto simp: form_filled_def dget_node_arguments list_all_iff)
  qed
  then have "list_all (\<lambda>k. dget (node_arguments cfg) k \<noteq> None) req" by (simp add: list_all_iff)
  moreover have "set req \<inter> set (dkeys opt) = {}" "distinct (dkeys opt)" using assms(3) by (simp_all add: entry_fits_def)
  ultimately obtain a where a: "read_args req opt (node_arguments cfg) = Inr a"
    and d: "\<And>k d. (k, d) \<in> set opt \<Longrightarrow> dget a k = Some (y_get (node_arguments cfg) k d)" using read_args_ok by meson
  have "nf_required f \<or> dget cfg (nf_name f) \<noteq> None \<or> dget a (nf_name f) = Some (nf_default f)" if "f \<in> set (ce_fields e)" for f
    using d [of "nf_name f" "nf_default f"] assms(3) that
    by (auto simp: entry_fits_def list_all_iff y_get_def dget_node_arguments split: if_splits option.splits)
  then show ?thesis by (simp add: entry_builds_def assms(2) a list_all_iff)
qed

lemma plain_entries_fit:
  "list_all (\<lambda>e. is_batch_type (ce_type e) \<or> (\<exists>req opt. catalog_args (ce_type e) = read_args req opt \<and> entry_fits e req opt)) STATIC_CATALOG"
  unfolding STATIC_CATALOG_def list.pred_inject
  apply (intro conjI TrueI)
               apply (unfold catalog_entry.simps catalog_args_simps plain_args)
               apply ((rule disjI1, simp add: is_batch_type_def; fail) | (simp only: list.pred_inject; fail) |
      (rule disjI2, intro exI conjI, rule refl,
       simp add: entry_fits_def catalog_field_def ROUTING_KEYS_def resize_fields_def MODEL_CONFIG_FIELD_def dkeys_def; fail))+
  done

text \<open>The batch nodes take their configuration as keyword arguments.\<close>

lemma batch_args_ok:
  assumes "form_filled e cfg" and "ce_fields e = BATCH_FIELDS @ [MODEL_CONFIG_FIELD]"
  shows "\<exists>a m. batch_args (node_arguments cfg) = Inr a \<and> dget (node_arguments cfg) ''model_config'' = Some (YMap m) \<and>
    (\<forall>k d. (k, d) \<in> set BATCH_DEFAULTS \<longrightarrow> dget a k = Some (y_get (node_arguments cfg) k d))"
proof -
  have "list_all (\<lambda>f. nf_required f \<longrightarrow> dget cfg (nf_name f) \<noteq> None) (BATCH_FIELDS @ [MODEL_CONFIG_FIELD])"
    using assms unfolding form_filled_def by metis
  then have "dget cfg ''batch_size'' \<noteq> None" "dget cfg ''model_config'' \<noteq> None"
    by (simp_all add: BATCH_FIELDS_def MODEL_CONFIG_FIELD_def catalog_field_def)
  then have n: "dget (node_arguments cfg) k \<noteq> None" if "k \<in> {''batch_size'', ''model_config''}" for k
    using that unfolding dget_node_arguments by (elim insertE) (simp_all add: ROUTING_KEYS_def)
  have "list_all (\<lambda>k. dget (node_arguments cfg) k \<noteq> None) [''batch_size'', ''model_config'']" using n by simp
  from read_args_ok [OF this, of BATCH_DEFAULTS] obtain a where
    a: "read_args [''batch_size'', ''model_config''] BATCH_DEFAULTS (node_arguments cfg) = Inr a"
    "\<forall>k d. (k, d) \<in> set BATCH_DEFAULTS \<longrightarrow> dget a k = Some (y_get (node_arguments cfg) k d)"
    by (auto simp: BATCH_DEFAULTS_def dkeys_def)
  have "list_all (\<lambda>k. k \<in> set ([''batch_size'', ''model_config''] @ dkeys BATCH_DEFAULTS)) (dkeys (node_arguments cfg))"
  proof (simp only: list_all_iff, intro ballI)
    fix k assume "k \<in> set (dkeys (node_arguments cfg))"
    then have "k \<in> set (dkeys cfg)" "k \<notin> set ROUTING_KEYS" by (simp_all add: dkeys_node_arguments)
    then have "k = ''id'' \<or> k \<in> nf_name ` set (BATCH_FIELDS @ [MODEL_CONFIG_FIELD])"
      using assms by (auto simp: form_filled_def list_all_iff)
    then show "k \<in> set ([''batch_size'', ''model_config''] @ dkeys BATCH_DEFAULTS)"
      by (auto simp: BATCH_FIELDS_def MODEL_CONFIG_FIELD_def catalog_field_def BATCH_DEFAULTS_def dkeys_def)
  qed
  moreover obtain m where "dget (node_arguments cfg) ''model_config'' = Some (YMap m)"
  proof -
    obtain v where v: "dget (node_arguments cfg) ''model_config'' = Some v" using n [of "''model_config''"] by auto
    then have "y_get cfg ''model_config'' (YMap []) = v" by (simp add: y_get_def dget_node_arguments split: if_splits)
    then show thesis using assms(1) v that unfolding form_filled_def by (cases v) simp_all
  qed
  ultimately show ?thesis using a by (simp add: batch_args_def)
qed

lemma dget_append: "dget (a @ b) k = (case dget a k of None \<Rightarrow> dget b k | Some v \<Rightarrow> Some v)"
  by (induction a) auto

lemma batch_entry_builds:
  assumes "form_filled e cfg" and "ce_fields e = BATCH_FIELDS @ [MODEL_CONFIG_FIELD]" and "is_batch_type (ce_type e)"
  shows "entry_builds cfg e"
proof -
  obtain a m where a: "batch_args (node_arguments cfg) = Inr a" "dget (node_arguments cfg) ''model_config'' = Some (YMap m)"
    and d: "\<And>k d. (k, d) \<in> set BATCH_DEFAULTS \<Longrightarrow> dget a k = Some (y_get (node_arguments cfg) k d)"
    using batch_args_ok [OF assms(1,2)] by blast
  have "\<exists>b. catalog_args (ce_type e) (node_arguments cfg) = Inr (a @ b)"
    using assms(3) a by (auto simp: is_batch_type_def catalog_args_simps det_batch_args_def embedding_args_def y_get_def)
  then obtain b where b: "catalog_args (ce_type e) (node_arguments cfg) = Inr (a @ b)" by blast
  have "dget (a @ b) k = Some v" if "(k, v) \<in> set BATCH_DEFAULTS" "dget cfg k = None" for k v
    using d [OF that(1)] that(2) by (simp add: dget_append y_get_def dget_node_arguments)
  then show ?thesis
    unfolding entry_builds_def b assms(2) by (auto simp: BATCH_FIELDS_def MODEL_CONFIG_FIELD_def catalog_field_def BATCH_DEFAULTS_def)
qed

lemma batch_entries: "e \<in> set STATIC_CATALOG \<Longrightarrow> is_batch_type (ce_type e) \<Longrightarrow> ce_fields e = BATCH_FIELDS @ [MODEL_CONFIG_FIELD]"
  by (auto simp: STATIC_CATALOG_def is_batch_type_def)

text \<open>C25: A form of the configuration builder that is filled in builds its node: for every entry of the
  catalog, a configuration that has the identifier and the required fields and beside them only
  fields of the entry and routing keys gives the node's \<^verbatim>\<open>from_config\<close> all it reads, and a field
  left empty gets the default that the catalog shows.\<close>

theorem catalog_forms_build:
  assumes "e \<in> set STATIC_CATALOG" and "form_filled e cfg"
  shows "entry_builds cfg e"
proof (cases "is_batch_type (ce_type e)")
  case True
  then show ?thesis using batch_entry_builds [OF assms(2)] batch_entries [OF assms(1)] by blast
next
  case False
  then show ?thesis using plain_entries_fit assms(1) fit_entry_builds [OF assms(2)] by (auto simp: list_all_iff)
qed

theorem catalog_forms_build_witness:
  "case catalog_args ''FolderImageNode'' (node_arguments [(''id'', YStr ''in''), (''type'', YStr ''FolderImageNode''), (''folder_path'', YStr ''d'')]) of
     Inl _ \<Rightarrow> False | Inr a \<Rightarrow> dget a ''mode'' = Some (YStr ''loop'')"
proof -
  let ?cfg = "[(''id'', YStr ''in''), (''type'', YStr ''FolderImageNode''), (''folder_path'', YStr ''d'')]"
  have e: "hd STATIC_CATALOG \<in> set STATIC_CATALOG" by (simp add: STATIC_CATALOG_def)
  have "form_filled (hd STATIC_CATALOG) ?cfg"
    by (simp add: form_filled_def STATIC_CATALOG_def catalog_field_def dkeys_def y_get_def ROUTING_KEYS_def)
  from catalog_forms_build [OF e this] show ?thesis
    by (auto simp: entry_builds_def STATIC_CATALOG_def catalog_field_def split: sum.splits)
qed

text \<open>The catalog offers exactly its types whose modules are not missing an extra, with the payload
  types the factory checks configurations with.\<close>

lemma catalog_loop_entries:
  assumes "catalog_loop imp es = Inr ts"
  shows "map ce_type ts = filter (\<lambda>t. case get_accepts imp t of Inr _ \<Rightarrow> True | Inl _ \<Rightarrow> False) (map ce_type es) \<and>
    list_all (\<lambda>t. get_accepts imp (ce_type t) = Inr (nts_accepts t) \<and> get_emits imp (ce_type t) = Inr (nts_emits t)) ts"
  using assms
proof (induction es arbitrary: ts)
  case (Cons e es)
  have em: "get_emits imp (ce_type e) = map_sum (\<lambda>e. e) class_emits (resolve imp (ce_type e))"
    "get_accepts imp (ce_type e) = map_sum (\<lambda>e. e) class_accepts (resolve imp (ce_type e))"
    by (simp_all add: get_emits_def get_accepts_def)
  show ?case
  proof (cases "resolve imp (ce_type e)")
    case (Inl x)
    then show ?thesis using Cons by (cases x) (simp_all add: entry_spec_def em)
  next
    case (Inr c)
    then have "entry_spec imp e = Inr (type_spec e (class_accepts c) (class_emits c))" by (simp add: entry_spec_def em)
    then show ?thesis
      using Cons Inr em by (cases "catalog_loop imp es") (auto simp: type_spec_def catalog_entry.defs node_type_spec.defs)
  qed
qed simp

lemma catalog_entries:
  "get_node_catalog imp = Inr ts \<Longrightarrow>
    map ce_type ts = filter (\<lambda>t. case get_accepts imp t of Inr _ \<Rightarrow> True | Inl _ \<Rightarrow> False) (map ce_type STATIC_CATALOG) \<and>
    list_all (\<lambda>t. get_accepts imp (ce_type t) = Inr (nts_accepts t) \<and> get_emits imp (ce_type t) = Inr (nts_emits t)) ts"
  unfolding get_node_catalog_def by (rule catalog_loop_entries)

text \<open>The registered types that have no entry.\<close>

lemma catalog_leaves_out:
  "filter (\<lambda>t. t \<notin> set (map ce_type STATIC_CATALOG)) (dkeys NODE_IMPORTS) =
    [''AudioReaderNode'', ''AsrNode'', ''LlmNode'', ''TtsNode'', ''AudioPlayerNode'', ''AgentToolNode'']"
  by (simp add: STATIC_CATALOG_def NODE_IMPORTS_def dkeys_def)

text \<open>A batch inference node with control outputs passes the checks of its configuration but cannot
  be built: the factory leaves the key in the configuration and the node takes every key that is
  left as a keyword argument of its constructor, so creating it raises a \<^verbatim>\<open>TypeError\<close>.\<close>

theorem control_outputs_break_batch:
  assumes "dget cfg ''type'' = Some (YStr ''ProcessDetBatchInference'')" and "dget cfg ''id'' = Some (YStr i)"
    and "i \<noteq> []" and "dget cfg ''control_outputs'' \<noteq> None"
    and "resolve imp ''ProcessDetBatchInference'' = Inr ''ProcessDetBatchInference''"
  shows "create_node V imp (\<lambda>cls args mb. of_res (catalog_args cls args)) cfg mailbox w =
    (Inl (TypeError ''unexpected keyword argument''), w)"
proof -
  have c: "''control_outputs'' \<in> set (dkeys (node_arguments cfg))"
    using assms(4) dget_eq_None_iff [of cfg "''control_outputs''"] by (auto simp: dkeys_node_arguments ROUTING_KEYS_def)
  have "''control_outputs'' \<notin> set ([''batch_size'', ''model_config''] @ dkeys BATCH_DEFAULTS)"
    by (simp add: BATCH_DEFAULTS_def dkeys_def)
  with c have "\<not> list_all (\<lambda>k. k \<in> set ([''batch_size'', ''model_config''] @ dkeys BATCH_DEFAULTS)) (dkeys (node_arguments cfg))"
    unfolding list_all_iff by blast
  then have "catalog_args ''ProcessDetBatchInference'' (node_arguments cfg) = Inl (TypeError ''unexpected keyword argument'')"
    by (simp add: catalog_args_simps det_batch_args_def batch_args_def)
  then show ?thesis
    using assms by (simp add: create_node_def y_item_def create_node_id_def bnd_def)
qed

definition demo_batch :: raw_dict where
  "demo_batch = [(''id'', YStr ''det''), (''type'', YStr ''ProcessDetBatchInference''), (''batch_size'', YInt 4),
     (''model_config'', YMap []), (''control_outputs'', YList [YStr ''det''])]"

theorem control_outputs_break_batch_witness:
  "(case validate_pipeline_config strict_pydantic (\<lambda>_. Inr ()) (YMap [(''nodes'', YList [YMap demo_batch])]) of Inr _ \<Rightarrow> True | Inl _ \<Rightarrow> False) \<and>
   fst (create_node strict_pydantic (\<lambda>_. Inr ()) (\<lambda>cls args (mb :: unit). of_res (catalog_args cls args)) demo_batch () ()) =
     Inl (TypeError ''unexpected keyword argument'')"
proof -
  have r: "resolve (\<lambda>_. Inr ()) ''ProcessDetBatchInference'' = Inr ''ProcessDetBatchInference''"
    by (simp add: resolve_def NODE_IMPORTS_def import_module_for_def)
  let ?n = "\<lparr>ns_id = ''det'', ns_type = ''ProcessDetBatchInference'', ns_outputs = [], ns_control_outputs = [''det''], ns_replicas = 1,
       ns_health_timeout = None, ns_health_check_interval = None, ns_message_queue_size = 20,
       ns_queue_policy = ''block'', ns_error_policy = YNull, ns_autoscale = YNull\<rparr>"
  have "parse_node strict_pydantic (YMap demo_batch) = Some ?n"
    by (simp add: demo_batch_def parse_node_def field_of_def y_get_def list_of_def strict_pydantic_def)
  moreover have "check_graph strict_pydantic (\<lambda>_. Inr ()) [?n] = Inr ()"
    using resolve_type [OF r]
    by (simp add: check_graph_def duplicates_def guard_def bind_checked_def check_type_def check_extras_def get_accepts_def check_node_def
        check_outputs_def check_control_outputs_def check_error_policy_def check_replicas_def check_autoscale_def
        check_health_config_def check_queue_policy_def r resolve_known [OF r])
  ultimately have "validate_pipeline_config strict_pydantic (\<lambda>_. Inr ()) (YMap [(''nodes'', YList [YMap demo_batch])]) = Inr [?n]"
    by (simp add: validate_pipeline_config_def list_of_def bind_checked_def)
  moreover have "create_node strict_pydantic (\<lambda>_. Inr ()) (\<lambda>cls args (mb :: unit). of_res (catalog_args cls args)) demo_batch () () =
      (Inl (TypeError ''unexpected keyword argument''), ())"
    by (rule control_outputs_break_batch [where i = "''det''"]) (simp_all add: demo_batch_def r)
  ultimately show ?thesis by simp
qed

section \<open>Properties of the snapshot\<close>

definition family_shown :: "metric_family \<Rightarrow> bool" where
  "family_shown f \<longleftrightarrow> prefix ''neudc_node_'' (fam_name f) \<and> fam_type f \<notin> {''histogram'', ''summary''}"

definition shown_name :: "metric_family \<Rightarrow> string" where
  "shown_name f = (if fam_type f = ''counter'' then fam_name f @ ''_total'' else fam_name f)"

definition series_of :: "metric_sample list \<Rightarrow> (string, real) dict" where
  "series_of ss = fold (\<lambda>s d. dset (sample_key s) (sm_value s) d) ss []"

lemma snapshot_family_eq:
  "snapshot_family f snap = (if family_shown f then dset (shown_name f)
     (fold (\<lambda>s d. dset (sample_key s) (sm_value s) d) (fam_samples f) (case dget snap (shown_name f) of None \<Rightarrow> [] | Some d \<Rightarrow> d)) snap else snap)"
  by (auto simp: snapshot_family_def family_shown_def shown_name_def Let_def)

lemma snapshot_lookup:
  assumes "distinct (map shown_name (filter family_shown fs))" and "f \<in> set fs" and "family_shown f"
  shows "dget (snapshot_metrics fs) (shown_name f) = Some (series_of (fam_samples f))"
proof -
  have other: "dget (fold snapshot_family gs snap) n = dget snap n" if "n \<notin> set (map shown_name (filter family_shown gs))" for gs snap n
    using that by (induction gs arbitrary: snap) (auto simp: snapshot_family_eq)
  obtain as bs where fs: "fs = as @ f # bs" using split_list [OF assms(2)] by blast
  have "shown_name f \<notin> set (map shown_name (filter family_shown as))" "shown_name f \<notin> set (map shown_name (filter family_shown bs))"
    using assms(1,3) fs by auto
  then show ?thesis using assms(3) by (simp add: snapshot_metrics_def fs other snapshot_family_eq series_of_def)
qed

text \<open>The value shown for a key is that of the last sample with the key, whatever the sample's name.\<close>

lemma series_last:
  "dget (series_of ss) k = (case filter (\<lambda>s. sample_key s = k) ss of [] \<Rightarrow> None | l \<Rightarrow> Some (sm_value (last l)))"
proof -
  have "dget (fold (\<lambda>s d. dset (sample_key s) (sm_value s) d) ss d0) k =
      (case filter (\<lambda>s. sample_key s = k) ss of [] \<Rightarrow> dget d0 k | l \<Rightarrow> Some (sm_value (last l)))" for d0
    by (induction ss arbitrary: d0) (auto split: list.splits)
  then show ?thesis by (simp add: series_of_def split: list.splits)
qed

text \<open>The samples of a counter in the default registry of \<^verbatim>\<open>prometheus_client\<close>: for every child its
  total and then the time it was created.\<close>

definition counter_samples :: "string \<Rightarrow> ((string, string) dict \<times> real \<times> real) list \<Rightarrow> metric_sample list" where
  "counter_samples name cs = concat (map (\<lambda>(l, total, created).
     [\<lparr>sm_name = name @ ''_total'', sm_labels = l, sm_value = total\<rparr>,
      \<lparr>sm_name = name @ ''_created'', sm_labels = l, sm_value = created\<rparr>]) cs)"

definition labels_key :: "(string, string) dict \<Rightarrow> string" where
  "labels_key l = sample_key \<lparr>sm_name = [], sm_labels = l, sm_value = 0\<rparr>"

lemma counter_filter:
  assumes "distinct (map (labels_key \<circ> fst) cs)" and "(l, tot, cre) \<in> set cs"
  shows "filter (\<lambda>s. sample_key s = labels_key l) (counter_samples name cs) = counter_samples name [(l, tot, cre)]"
proof -
  obtain as bs where cs: "cs = as @ (l, tot, cre) # bs" using split_list [OF assms(2)] by blast
  have none: "filter (\<lambda>s. sample_key s = labels_key l) (counter_samples name ds) = []" if "labels_key l \<notin> set (map (labels_key \<circ> fst) ds)" for ds
    using that by (induction ds) (auto simp: counter_samples_def labels_key_def sample_key_def)
  have "labels_key l \<notin> set (map (labels_key \<circ> fst) as)" "labels_key l \<notin> set (map (labels_key \<circ> fst) bs)"
    using assms(1) cs by auto
  then have "filter (\<lambda>s. sample_key s = labels_key l) (counter_samples name as) = []"
    "filter (\<lambda>s. sample_key s = labels_key l) (counter_samples name bs) = []" using none by blast+
  moreover have "counter_samples name cs = counter_samples name as @ counter_samples name [(l, tot, cre)] @ counter_samples name bs"
    by (simp add: counter_samples_def cs)
  moreover have "filter (\<lambda>s. sample_key s = labels_key l) (counter_samples name [(l, tot, cre)]) = counter_samples name [(l, tot, cre)]"
    by (simp add: counter_samples_def labels_key_def sample_key_def)
  ultimately show ?thesis by simp
qed

text \<open>The metrics snapshot shows the wrong number for a counter of the default registry: the samples
  of a counter are its total and the time of its creation under the same labels, the snapshot keeps
  the last sample of a label, and so every counter is shown with its creation time.\<close>

theorem counters_show_creation_time:
  assumes "distinct (map shown_name (filter family_shown fs))" and "f \<in> set fs" and "family_shown f" and "fam_type f = ''counter''"
    and "fam_samples f = counter_samples (fam_name f) cs" and "distinct (map (labels_key \<circ> fst) cs)" and "(l, tot, cre) \<in> set cs"
  shows "map_option (\<lambda>d. dget d (labels_key l)) (dget (snapshot_metrics fs) (fam_name f @ ''_total'')) = Some (Some cre)"
proof -
  have "dget (series_of (fam_samples f)) (labels_key l) = Some cre"
    by (simp add: series_last assms(5) counter_filter [OF assms(6,7)]) (simp add: counter_samples_def)
  then show ?thesis using snapshot_lookup [OF assms(1-3)] assms(4) by (simp add: shown_name_def)
qed

theorem counters_show_creation_time_witness:
  "snapshot_metrics [\<lparr>fam_name = ''neudc_node_errors'', fam_type = ''counter'',
      fam_samples = counter_samples ''neudc_node_errors'' [([(''node'', ''det'')], 3, 1700)]\<rparr>] = [(''neudc_node_errors_total'', [(''det'', 1700)])]"
proof -
  let ?f = "\<lparr>fam_name = ''neudc_node_errors'', fam_type = ''counter'',
      fam_samples = counter_samples ''neudc_node_errors'' [([(''node'', ''det'')], 3, 1700)]\<rparr>"
  have s: "family_shown ?f" by (simp add: family_shown_def)
  have "map_option (\<lambda>d. dget d (labels_key [(''node'', ''det'')])) (dget (snapshot_metrics [?f]) (fam_name ?f @ ''_total'')) = Some (Some 1700)"
    by (rule counters_show_creation_time [where cs = "[([(''node'', ''det'')], 3, 1700)]" and tot = 3]) (simp_all add: s)
  moreover have "snapshot_metrics [?f] = [(''neudc_node_errors_total'', [(''det'', v)])]" if "v = 1700" for v
    using that by (simp add: snapshot_metrics_def snapshot_family_eq family_shown_def shown_name_def counter_samples_def sample_key_def)
  ultimately show ?thesis by simp
qed

end
