(* ===== verification/Media_Nodes.thy ===== *)
theory Media_Nodes
  imports Vad Dataset
begin

text \<open>
  The nodes at the ends of a pipeline and the small ones between: the microphone reader and the
  loudspeaker player (\<^verbatim>\<open>readers/audio_reader.py\<close>, \<^verbatim>\<open>broadcast/audio_player.py\<close>), the folder reader and
  the image saver (\<^verbatim>\<open>readers/image_reader.py\<close>, \<^verbatim>\<open>broadcast/image_saver.py\<close>), and the mixins that resize
  and draw on frames and normalize text. Devices, \<^verbatim>\<open>cv2\<close> and the clock are calls.
\<close>

section \<open>Reading audio\<close>

record audio_reader =
  ar_sample_rate :: int
  ar_channels :: int
  ar_chunk_duration :: real
  ar_source :: string

text \<open>\<^verbatim>\<open>from_config\<close>: the device is a live object; optional keys have defaults.\<close>

definition audio_reader_from_config :: "'d option \<Rightarrow> int option \<Rightarrow> int option \<Rightarrow> real option \<Rightarrow> string option \<Rightarrow> exn + 'd \<times> audio_reader" where
  "audio_reader_from_config device rate chans duration src = (case device of
      None \<Rightarrow> Inl (ValueError ''device'')
    | Some d \<Rightarrow> (case rate of
        None \<Rightarrow> Inl KeyError
      | Some r \<Rightarrow> Inr (d, \<lparr>ar_sample_rate = r, ar_channels = the_default 1 chans,
          ar_chunk_duration = the_default (1 / 2) duration, ar_source = the_default ''mic'' src\<rparr>)))"

text \<open>\<^verbatim>\<open>len(samples)\<close>, which an array without dimensions does not have.\<close>

definition array_len :: "ndarray \<Rightarrow> ('w, nat) io" where
  "array_len a = (case nd_shape a of [] \<Rightarrow> raise (TypeError ''len() of unsized object'') | n # _ \<Rightarrow> ret n)"

definition read_audio :: "(int \<Rightarrow> ('w, ndarray option) io) \<Rightarrow> ('w, unit) io \<Rightarrow> ('w, real) io \<Rightarrow> audio_reader \<Rightarrow> ('w, message option) io" where
  "read_audio dev_read stop clock r =
     bnd (try_exn (dev_read (py_trunc (of_int (ar_sample_rate r) * ar_chunk_duration r)))) (\<lambda>res. case res of
       Inl _ \<Rightarrow> seq stop (ret None)
     | Inr None \<Rightarrow> seq stop (ret None)
     | Inr (Some s) \<Rightarrow> bnd (array_len s) (\<lambda>n. if n = 0 then seq stop (ret None)
         else bnd clock (\<lambda>t. ret (Some (AudioChunk ((new_envelope t)\<lparr>msg_source := ar_source r\<rparr>)
           \<lparr>samples = s, sample_rate = ar_sample_rate r, channels = ar_channels r\<rparr>)))))"

section \<open>Playing audio\<close>

definition DEFAULT_PLAYBACK_CHECK_INTERVAL_SEC :: real where
  "DEFAULT_PLAYBACK_CHECK_INTERVAL_SEC = 1 / 10"

definition audio_player_from_config :: "'d option \<Rightarrow> real option \<Rightarrow> exn + 'd \<times> real" where
  "audio_player_from_config device interval = (case device of
      None \<Rightarrow> Inl (ValueError ''device'')
    | Some d \<Rightarrow> Inr (d, the_default DEFAULT_PLAYBACK_CHECK_INTERVAL_SEC interval))"

text \<open>\<^verbatim>\<open>samples[start : start + n]\<close> along the first axis.\<close>

definition nd_slice :: "nat \<Rightarrow> nat \<Rightarrow> ndarray \<Rightarrow> ndarray" where
  "nd_slice start n a = (let k = prod_list (tl (nd_shape a)) in
     \<lparr>nd_shape = min n (nd_len a - start) # tl (nd_shape a), nd_data = take (n * k) (drop (start * k) (nd_data a))\<rparr>)"

text \<open>Where the generator of a chunk stands: before its first step, or before the block at \<open>start\<close>.\<close>

datatype player_pos = Unplayed message | Playing envelope audio_chunk nat nat

definition play_block :: "(string option \<Rightarrow> int option \<Rightarrow> ('w, bool) io) \<Rightarrow> (ndarray \<Rightarrow> ('w, unit) io) \<Rightarrow> ('w, real) io \<Rightarrow>
    envelope \<Rightarrow> audio_chunk \<Rightarrow> nat \<Rightarrow> nat \<Rightarrow> ('w, (message \<times> player_pos) option) io" where
  "play_block is_cancelled dev_write clock e c block start =
     (if nd_len (samples c) \<le> start then ret None
      else bnd (is_cancelled (session_id e) (turn_id e)) (\<lambda>cancelled. if cancelled then ret None
        else seq (dev_write (nd_slice start block (samples c)))
          (bnd clock (\<lambda>t. ret (Some (AudioChunk (voice_envelope t REFERENCE_SOURCE (session_id e) (turn_id e) False)
             \<lparr>samples = nd_slice start block (samples c), sample_rate = sample_rate c, channels = channels c\<rparr>,
             Playing e c block (start + block)))))))"

definition block_frames :: "real \<Rightarrow> int \<Rightarrow> nat" where
  "block_frames interval rate = nat (max 1 (py_trunc (of_int rate * interval)))"

definition audio_player :: "(string option \<Rightarrow> int option \<Rightarrow> ('w, bool) io) \<Rightarrow> (ndarray \<Rightarrow> ('w, unit) io) \<Rightarrow> ('w, real) io \<Rightarrow>
    real \<Rightarrow> ('w, player_pos, message) generator" where
  "audio_player is_cancelled dev_write clock interval = \<lparr>gen_start = Unplayed,
     gen_next = (\<lambda>g. case g of
        Unplayed m \<Rightarrow> (if drop_flag (envelope_of m) then ret None
          else bnd (audio_of m) (\<lambda>c. bnd (array_len (samples c)) (\<lambda>_.
            play_block is_cancelled dev_write clock (envelope_of m) c (block_frames interval (sample_rate c)) 0)))
      | Playing e c block start \<Rightarrow> play_block is_cancelled dev_write clock e c block start),
     gen_close = (\<lambda>_. ret ())\<rparr>"

text \<open>The wrappers of \<^verbatim>\<open>sounddevice\<close> for input and output: importing the package, opening and starting a
  stream, reading (one channel is flattened; an overflow is only logged), writing and closing.\<close>

definition open_sound_device :: "('w, unit) io \<Rightarrow> ('w, 's) io \<Rightarrow> ('s \<Rightarrow> ('w, unit) io) \<Rightarrow> ('w, 's) io" where
  "open_sound_device import_sd open_stream start =
     seq (catch_exn import_sd is_ModuleNotFound (\<lambda>_. raise (OtherException ''ImportError'')))
       (bnd open_stream (\<lambda>s. seq (start s) (ret s)))"

definition sound_read :: "('s \<Rightarrow> int \<Rightarrow> ('w, ndarray \<times> bool) io) \<Rightarrow> int \<Rightarrow> 's \<Rightarrow> int \<Rightarrow> ('w, ndarray) io" where
  "sound_read stream_read chans s n = bnd (stream_read s n) (\<lambda>(d, overflowed).
     ret (if chans = 1 then d\<lparr>nd_shape := [length (nd_data d)]\<rparr> else d))"

definition sound_write :: "('s \<Rightarrow> ndarray \<Rightarrow> ('w, unit) io) \<Rightarrow> 's \<Rightarrow> ndarray \<Rightarrow> ('w, unit) io" where
  "sound_write stream_write s d = stream_write s d"

definition sound_close :: "('s \<Rightarrow> ('w, unit) io) \<Rightarrow> ('s \<Rightarrow> ('w, unit) io) \<Rightarrow> 's \<Rightarrow> ('w, unit) io" where
  "sound_close stop close_stream s = seq (stop s) (close_stream s)"

section \<open>Reading a folder of images\<close>

record folder_reader =
  fr_dir :: "bool \<times> path"
  fr_once :: bool            \<comment> \<open>the mode is \<^verbatim>\<open>only_one\<close>\<close>
  fr_files :: "string list"
  fr_index :: nat
  fr_frame_id :: nat

definition new_folder_reader :: "(bool \<times> path \<Rightarrow> ('w, string list) io) \<Rightarrow> string \<Rightarrow> string \<Rightarrow> ('w, folder_reader) io" where
  "new_folder_reader list_files folder mode = bnd (list_files (parse_path folder)) (\<lambda>names.
     ret \<lparr>fr_dir = parse_path folder, fr_once = (mode = ''only_one''), fr_files = sort names, fr_index = 0, fr_frame_id = 0\<rparr>)"

text \<open>\<^verbatim>\<open>str(folder / name)\<close>.\<close>

definition join_slash :: "string list \<Rightarrow> string" where
  "join_slash cs = (case cs of [] \<Rightarrow> [] | c # ds \<Rightarrow> c @ concat (map (\<lambda>d. CHR ''/'' # d) ds))"

definition image_text :: "bool \<times> path \<Rightarrow> string \<Rightarrow> string" where
  "image_text d name = (if fst d then ''/'' else []) @ join_slash (snd d @ [name])"

definition folder_frame :: "folder_reader \<Rightarrow> string \<Rightarrow> ndarray \<Rightarrow> real \<Rightarrow> fmsg" where
  "folder_frame f p a t = (new_envelope t, \<lparr>image = a, source_frame = p, frame_id = int (fr_frame_id f), boxes = [], embedding = None,
     frame_id_last = int (length (fr_files f))\<rparr>)"

definition read_folder :: "(string \<Rightarrow> ('w, ndarray option) io) \<Rightarrow> ('w, unit) io \<Rightarrow> ('w, real) io \<Rightarrow> ('w, unit) io \<Rightarrow>
    (folder_reader \<times> 'w, fmsg option) io" where
  "read_folder imread stop clock nap = bnd self (\<lambda>f.
     if fr_files f = [] then seq (lift_w stop) (ret None)
     else if length (fr_files f) \<le> fr_frame_id f \<and> fr_once f then seq (lift_w stop) (ret None)
     else let p = image_text (fr_dir f) (fr_files f ! (fr_frame_id f mod length (fr_files f))) in
       bnd (lift_w (imread p)) (\<lambda>im. case im of
         None \<Rightarrow> ret None
       | Some a \<Rightarrow> bnd (lift_w clock) (\<lambda>t.
           seq (on_self (\<lambda>f. f\<lparr>fr_index := fr_index f + 1, fr_frame_id := fr_frame_id f + 1\<rparr>))
             (seq (lift_w nap) (ret (Some (folder_frame f p a t)))))))"

section \<open>Saving, resizing, drawing, normalizing\<close>

definition save_image_process :: "texts \<Rightarrow> (path \<Rightarrow> ndarray \<Rightarrow> ('w, bool) io) \<Rightarrow> path \<Rightarrow> fmsg \<Rightarrow> ('w, fmsg) io" where
  "save_image_process T imwrite save_dir m =
     bnd (imwrite (save_dir @ [frame_stem T (frame_id (snd m)) @ ''.jpg'']) (image (snd m))) (\<lambda>_. ret m)"

definition resize_process :: "(ndarray \<Rightarrow> int \<times> int \<Rightarrow> exn + ndarray) \<Rightarrow> int \<Rightarrow> int \<Rightarrow> fmsg \<Rightarrow> ('w, fmsg) io" where
  "resize_process cv_resize width height m =
     bnd (of_res (cv_resize (image (snd m)) (width, height))) (\<lambda>a. ret (fst m, (snd m)\<lparr>image := a\<rparr>))"

text \<open>\<^verbatim>\<open>cv2.rectangle\<close> draws into the image of the frame.\<close>

definition draw_box :: "(ndarray \<Rightarrow> int \<times> int \<Rightarrow> int \<times> int \<Rightarrow> exn + ndarray) \<Rightarrow> box \<Rightarrow> (fmsg, unit) io" where
  "draw_box rect b = bnd get_world (\<lambda>m.
     bnd (of_res (rect (image (snd m)) (py_trunc (bx1 b), py_trunc (by1 b)) (py_trunc (bx2 b), py_trunc (by2 b)))) (\<lambda>a.
     modify (\<lambda>m. (fst m, (snd m)\<lparr>image := a\<rparr>))))"

definition draw_boxes :: "(ndarray \<Rightarrow> int \<times> int \<Rightarrow> int \<times> int \<Rightarrow> exn + ndarray) \<Rightarrow> (fmsg, unit) io" where
  "draw_boxes rect = bnd get_world (\<lambda>m. for_each (boxes (snd m)) (draw_box rect))"

definition text_normalize :: "message \<Rightarrow> ('w, message) io" where
  "text_normalize m = (if drop_flag (envelope_of m) then ret m
     else (case m of TextChunk e t \<Rightarrow> ret (TextChunk e (t\<lparr>chunk_text := map lower_char (py_strip (chunk_text t))\<rparr>))
       | _ \<Rightarrow> raise (AttributeError ''text'')))"

section \<open>Playback\<close>

text \<open>What a generator yields in its next \<open>n\<close> steps, and where it stands then: None at its end.\<close>

fun gen_take :: "nat \<Rightarrow> ('w, 'g, 'r) generator \<Rightarrow> 'g \<Rightarrow> ('w, 'r list \<times> 'g option) io" where
  "gen_take 0 G g = ret ([], Some g)"
| "gen_take (Suc n) G g = bnd (gen_next G g) (\<lambda>r. case r of
      None \<Rightarrow> ret ([], None)
    | Some (v, g') \<Rightarrow> bnd (gen_take n G g') (\<lambda>(vs, e). ret (v # vs, e)))"

text \<open>A device that plays what is written to it, and a clock and a cancellation check that play nothing;
  \<open>sounded\<close> is what has been played.\<close>

definition output_ok :: "(string option \<Rightarrow> int option \<Rightarrow> ('w, bool) io) \<Rightarrow> (ndarray \<Rightarrow> ('w, unit) io) \<Rightarrow> ('w, real) io \<Rightarrow> ('w \<Rightarrow> real list) \<Rightarrow> bool" where
  "output_ok is_cancelled dev_write clock sounded \<longleftrightarrow>
     (\<forall>sid tid w. \<exists>b w'. is_cancelled sid tid w = (Inr b, w') \<and> sounded w' = sounded w) \<and>
     (\<forall>a w. \<exists>w'. dev_write a w = (Inr (), w') \<and> sounded w' = sounded w @ nd_data a) \<and>
     (\<forall>w. \<exists>t w'. clock w = (Inr t, w') \<and> sounded w' = sounded w)"

definition well_shaped :: "ndarray \<Rightarrow> bool" where
  "well_shaped a \<longleftrightarrow> nd_shape a \<noteq> [] \<and> length (nd_data a) = prod_list (nd_shape a)"

definition chunk_data :: "message \<Rightarrow> real list" where
  "chunk_data m = (case m of AudioChunk e a \<Rightarrow> nd_data (samples a) | _ \<Rightarrow> [])"

definition reference_of :: "envelope \<Rightarrow> message \<Rightarrow> bool" where
  "reference_of e m \<longleftrightarrow> (case m of AudioChunk e' a \<Rightarrow> msg_source e' = REFERENCE_SOURCE \<and> session_id e' = session_id e \<and> turn_id e' = turn_id e
     | _ \<Rightarrow> False)"

lemma slice_rest:
  "well_shaped a \<Longrightarrow> nd_data (nd_slice start n a) @ drop ((start + n) * prod_list (tl (nd_shape a))) (nd_data a)
     = drop (start * prod_list (tl (nd_shape a))) (nd_data a)"
proof -
  have "take x l @ drop (y + x) d = l" if "l = drop y d" for x y and l d :: "real list"
    using that by (simp add: add.commute flip: drop_drop)
  then show ?thesis by (simp add: nd_slice_def Let_def add_mult_distrib)
qed

lemma play_rest:
  assumes ok: "output_ok is_cancelled dev_write clock sounded" and sh: "well_shaped (samples c)" and b: "0 < block"
    and fuel: "nd_len (samples c) \<le> start + fuel"
  shows "\<exists>vs w'. gen_take (Suc fuel) (audio_player is_cancelled dev_write clock interval) (Playing e c block start) w = (Inr (vs, None), w') \<and>
    sounded w' = sounded w @ concat (map chunk_data vs) \<and>
    prefix (concat (map chunk_data vs)) (drop (start * prod_list (tl (nd_shape (samples c)))) (nd_data (samples c))) \<and>
    ((\<forall>v. fst (is_cancelled (session_id e) (turn_id e) v) = Inr False) \<longrightarrow>
       concat (map chunk_data vs) = drop (start * prod_list (tl (nd_shape (samples c)))) (nd_data (samples c))) \<and>
    list_all (reference_of e) vs"
  using fuel
proof (induction fuel arbitrary: start w)
  case 0
  then have "drop (start * prod_list (tl (nd_shape (samples c)))) (nd_data (samples c)) = []"
    using sh by (cases "nd_shape (samples c)") (auto simp: well_shaped_def nd_len_def)
  then show ?case using 0 by (simp add: audio_player_def play_block_def)
next
  case (Suc fuel)
  let ?G = "audio_player is_cancelled dev_write clock interval"
  let ?k = "prod_list (tl (nd_shape (samples c)))"
  show ?case
  proof (cases "nd_len (samples c) \<le> start")
    case True
    then have "drop (start * ?k) (nd_data (samples c)) = []"
      using sh by (cases "nd_shape (samples c)") (auto simp: well_shaped_def nd_len_def)
    then show ?thesis using True by (simp add: audio_player_def play_block_def)
  next
    case False
    obtain x w1 where x: "is_cancelled (session_id e) (turn_id e) w = (Inr x, w1)" "sounded w1 = sounded w"
      using ok unfolding output_ok_def by blast
    show ?thesis
    proof (cases x)
      case True
      then have "gen_take (Suc (Suc fuel)) ?G (Playing e c block start) w = (Inr ([], None), w1)"
        using False x by (simp add: audio_player_def play_block_def bnd_def)
      moreover have "\<not> (\<forall>v. fst (is_cancelled (session_id e) (turn_id e) v) = Inr False)"
        using x True by (metis fst_conv sum.inject(2))
      ultimately show ?thesis using x(2) by auto
    next
      case nc: False
      obtain w2 where w2: "dev_write (nd_slice start block (samples c)) w1 = (Inr (), w2)"
        "sounded w2 = sounded w1 @ nd_data (nd_slice start block (samples c))" using ok unfolding output_ok_def by blast
      obtain t w3 where t: "clock w2 = (Inr t, w3)" "sounded w3 = sounded w2" using ok unfolding output_ok_def by blast
      let ?m = "AudioChunk (voice_envelope t REFERENCE_SOURCE (session_id e) (turn_id e) False)
             \<lparr>samples = nd_slice start block (samples c), sample_rate = sample_rate c, channels = channels c\<rparr>"
      have step: "gen_next ?G (Playing e c block start) w = (Inr (Some (?m, Playing e c block (start + block))), w3)"
        using False x nc w2 t by (simp add: audio_player_def play_block_def bnd_def seq_def)
      have "nd_len (samples c) \<le> (start + block) + fuel" using Suc.prems b by simp
      from Suc.IH [OF this, of w3] obtain vs w' where
        r: "gen_take (Suc fuel) ?G (Playing e c block (start + block)) w3 = (Inr (vs, None), w')"
          "sounded w' = sounded w3 @ concat (map chunk_data vs)"
          "prefix (concat (map chunk_data vs)) (drop ((start + block) * ?k) (nd_data (samples c)))"
          "(\<forall>v. fst (is_cancelled (session_id e) (turn_id e) v) = Inr False) \<longrightarrow>
             concat (map chunk_data vs) = drop ((start + block) * ?k) (nd_data (samples c))" "list_all (reference_of e) vs" by blast
      have "gen_take (Suc (Suc fuel)) ?G (Playing e c block start) w = (Inr (?m # vs, None), w')"
        using step r(1) by (simp del: gen_take.simps add: gen_take.simps(2) [of "Suc fuel"] bnd_def)
      moreover have "chunk_data ?m = nd_data (nd_slice start block (samples c))" by (simp add: chunk_data_def)
      moreover have "reference_of e ?m" by (simp add: reference_of_def voice_envelope_def new_envelope_def)
      moreover have "prefix (concat (map chunk_data (?m # vs))) (drop (start * ?k) (nd_data (samples c)))"
        using r(3) unfolding slice_rest [OF sh, of start block, symmetric] by (simp add: chunk_data_def)
      moreover have "(\<forall>v. fst (is_cancelled (session_id e) (turn_id e) v) = Inr False) \<longrightarrow>
          concat (map chunk_data (?m # vs)) = drop (start * ?k) (nd_data (samples c))"
        using r(4) unfolding slice_rest [OF sh, of start block, symmetric] by (simp add: chunk_data_def)
      moreover have "sounded w' = sounded w @ concat (map chunk_data (?m # vs))"
        using r(2) w2(2) t(2) x(2) by (simp add: chunk_data_def)
      moreover have "list_all (reference_of e) (?m # vs)"
        using r(5) \<open>reference_of e ?m\<close> by simp
      ultimately show ?thesis by blast
    qed
  qed
qed

text \<open>C22: Playback ends and plays the chunk from its start, in order and nothing else: within as many
  steps as the chunk has frames the generator is exhausted, what the device has played is what the
  yielded reference chunks carry, this is a prefix of the chunk's samples, and all of them when the
  turn is never cancelled. A dropped chunk plays nothing.\<close>

theorem playback_is_prefix:
  assumes "output_ok is_cancelled dev_write clock sounded" and "well_shaped (samples c)" and "nd_len (samples c) \<le> n"
  shows "\<exists>vs w'. gen_take (Suc n) (audio_player is_cancelled dev_write clock interval) (Unplayed (AudioChunk e c)) w = (Inr (vs, None), w') \<and>
    sounded w' = sounded w @ concat (map chunk_data vs) \<and> prefix (concat (map chunk_data vs)) (nd_data (samples c)) \<and>
    (drop_flag e \<longrightarrow> vs = []) \<and>
    (\<not> drop_flag e \<and> (\<forall>v. fst (is_cancelled (session_id e) (turn_id e) v) = Inr False) \<longrightarrow> concat (map chunk_data vs) = nd_data (samples c)) \<and>
    list_all (reference_of e) vs"
proof (cases "drop_flag e")
  case True
  then show ?thesis by (simp add: audio_player_def)
next
  case False
  let ?G = "audio_player is_cancelled dev_write clock interval"
  have "0 < block_frames interval (sample_rate c)" by (simp add: block_frames_def)
  from play_rest [OF assms(1,2) this, of 0 n interval e w] assms(3)
  obtain vs w' where r: "gen_take (Suc n) ?G (Playing e c (block_frames interval (sample_rate c)) 0) w = (Inr (vs, None), w')"
    "sounded w' = sounded w @ concat (map chunk_data vs)" "prefix (concat (map chunk_data vs)) (nd_data (samples c))"
    "(\<forall>v. fst (is_cancelled (session_id e) (turn_id e) v) = Inr False) \<longrightarrow> concat (map chunk_data vs) = nd_data (samples c)"
    "list_all (reference_of e) vs" by auto
  have "array_len (samples c) w = (Inr (hd (nd_shape (samples c))), w)"
    using assms(2) by (cases "nd_shape (samples c)") (simp_all add: array_len_def well_shaped_def)
  then have "gen_next ?G (Unplayed (AudioChunk e c)) w = gen_next ?G (Playing e c (block_frames interval (sample_rate c)) 0) w"
    using False by (simp add: audio_player_def audio_of_def bnd_def)
  then have "gen_take (Suc n) ?G (Unplayed (AudioChunk e c)) w = (Inr (vs, None), w')"
    using r(1) by (simp add: bnd_def)
  then show ?thesis using r(2-5) False by blast
qed

text \<open>A device that records, and a turn that is cancelled once three samples were played.\<close>

definition demo_cancelled :: "string option \<Rightarrow> int option \<Rightarrow> (real list, bool) io" where
  "demo_cancelled sid tid = (\<lambda>w. (Inr (3 \<le> length w), w))"

definition demo_device :: "ndarray \<Rightarrow> (real list, unit) io" where
  "demo_device a = (\<lambda>w. (Inr (), w @ nd_data a))"

theorem playback_is_prefix_witness:
  "\<exists>vs. gen_take 6 (audio_player demo_cancelled demo_device (\<lambda>w. (Inr 0, w)) 1)
      (Unplayed (AudioChunk (new_envelope 0) \<lparr>samples = \<lparr>nd_shape = [5], nd_data = [1, 2, 3, 4, 5]\<rparr>, sample_rate = 2, channels = 1\<rparr>)) [] =
      (Inr (vs, None), [1, 2, 3, 4]) \<and> concat (map chunk_data vs) = [1, 2, 3, 4]"
proof -
  let ?c = "\<lparr>samples = \<lparr>nd_shape = [5], nd_data = [1, 2, 3, 4, 5]\<rparr>, sample_rate = 2, channels = 1\<rparr>"
  let ?G = "audio_player demo_cancelled demo_device (\<lambda>w. (Inr 0, w)) 1"
  have "output_ok demo_cancelled demo_device (\<lambda>w. (Inr 0, w)) (\<lambda>w. w)" by (simp add: output_ok_def demo_cancelled_def demo_device_def)
  from playback_is_prefix [OF this, of ?c 5 1 "new_envelope 0" "[]"]
  obtain vs w' where r: "gen_take 6 ?G (Unplayed (AudioChunk (new_envelope 0) ?c)) [] = (Inr (vs, None), w')" "w' = concat (map chunk_data vs)"
    by (auto simp: well_shaped_def nd_len_def eval_nat_numeral)
  have "snd (gen_take 6 ?G (Unplayed (AudioChunk (new_envelope 0) ?c)) []) = [1, 2, 3, 4]"
    by (simp add: eval_nat_numeral audio_player_def play_block_def audio_of_def array_len_def nd_len_def block_frames_def py_trunc_def
        demo_cancelled_def demo_device_def nd_slice_def bnd_def seq_def new_envelope_def)
  then show ?thesis using r by auto
qed

section \<open>Folders\<close>

definition folder_text :: "folder_reader \<Rightarrow> nat \<Rightarrow> string" where
  "folder_text f i = image_text (fr_dir f) (fr_files f ! i)"

text \<open>Repeated turns of the node: the frames of its turns, in order.\<close>

definition read_turns :: "nat \<Rightarrow> (folder_reader \<times> 'w, fmsg option) io \<Rightarrow> (folder_reader \<times> 'w, fmsg option list) io" where
  "read_turns n turn = map_io (\<lambda>_. turn) [0..<n]"

lemma map_io_same: "length xs = length ys \<Longrightarrow> map_io (\<lambda>_. c) xs = map_io (\<lambda>_. c) ys"
  by (induction xs ys rule: list_induct2) simp_all

lemma read_turns_Suc: "read_turns (Suc n) turn = bnd turn (\<lambda>x. bnd (read_turns n turn) (\<lambda>xs. ret (x # xs)))"
proof -
  have "map_io (\<lambda>_. turn) [0..<Suc n] = map_io (\<lambda>_. turn) (0 # [0..<n])" by (rule map_io_same) simp
  then show ?thesis by (simp add: read_turns_def)
qed

text \<open>Images that can be read, and a clock and a pause that return.\<close>

definition images_ok :: "(string \<Rightarrow> ('w, ndarray option) io) \<Rightarrow> ('w, real) io \<Rightarrow> ('w, unit) io \<Rightarrow> (string \<Rightarrow> ndarray) \<Rightarrow> bool" where
  "images_ok imread clock nap pic \<longleftrightarrow>
     (\<forall>p w. \<exists>w'. imread p w = (Inr (Some (pic p)), w')) \<and> (\<forall>w. \<exists>t w'. clock w = (Inr t, w')) \<and> (\<forall>w. \<exists>w'. nap w = (Inr (), w'))"

definition frame_of_file :: "folder_reader \<Rightarrow> (string \<Rightarrow> ndarray) \<Rightarrow> nat \<Rightarrow> fmsg option \<Rightarrow> bool" where
  "frame_of_file f pic i r \<longleftrightarrow> (case r of None \<Rightarrow> False | Some m \<Rightarrow>
     frame_id (snd m) = int i \<and> source_frame (snd m) = folder_text f (i mod length (fr_files f)) \<and>
     image (snd m) = pic (folder_text f (i mod length (fr_files f))) \<and>
     frame_id_last (snd m) = int (length (fr_files f)) \<and> \<not> dropped_frame m)"

lemma read_folder_turn:
  assumes "images_ok imread clock nap pic" and "fr_files f \<noteq> []" and "fr_frame_id f < length (fr_files f) \<or> \<not> fr_once f"
  shows "\<exists>r w'. read_folder imread stop clock nap (f, w) = (Inr r, f\<lparr>fr_index := fr_index f + 1, fr_frame_id := fr_frame_id f + 1\<rparr>, w') \<and>
    frame_of_file f pic (fr_frame_id f) r"
proof -
  let ?p = "folder_text f (fr_frame_id f mod length (fr_files f))"
  obtain w1 where 1: "imread ?p w = (Inr (Some (pic ?p)), w1)" using assms(1) unfolding images_ok_def by blast
  obtain t w2 where 2: "clock w1 = (Inr t, w2)" using assms(1) unfolding images_ok_def by blast
  obtain w3 where 3: "nap w2 = (Inr (), w3)" using assms(1) unfolding images_ok_def by blast
  have "read_folder imread stop clock nap (f, w) =
    (Inr (Some (folder_frame f ?p (pic ?p) t)), f\<lparr>fr_index := fr_index f + 1, fr_frame_id := fr_frame_id f + 1\<rparr>, w3)"
    using assms(2,3) 1 2 3 by (auto simp: read_folder_def bnd_def seq_def folder_text_def Let_def)
  moreover have "frame_of_file f pic (fr_frame_id f) (Some (folder_frame f ?p (pic ?p) t))"
    by (simp add: frame_of_file_def folder_frame_def dropped_frame_def new_envelope_def)
  ultimately show ?thesis by blast
qed

lemma read_turns_frames:
  assumes "images_ok imread clock nap pic" and "fr_files f \<noteq> []" and "fr_frame_id f + n \<le> length (fr_files f) \<or> \<not> fr_once f"
  shows "\<exists>rs w'. read_turns n (read_folder imread stop clock nap) (f, w) =
      (Inr rs, f\<lparr>fr_index := fr_index f + n, fr_frame_id := fr_frame_id f + n\<rparr>, w') \<and>
    list_all2 (frame_of_file f pic) [fr_frame_id f..<fr_frame_id f + n] rs"
  using assms(2,3)
proof (induction n arbitrary: f w)
  case (Suc n)
  let ?f = "f\<lparr>fr_index := fr_index f + 1, fr_frame_id := fr_frame_id f + 1\<rparr>"
  obtain r w1 where 1: "read_folder imread stop clock nap (f, w) = (Inr r, ?f, w1)" "frame_of_file f pic (fr_frame_id f) r"
    using read_folder_turn [OF assms(1) Suc.prems(1), of stop w] Suc.prems(2) by auto
  have same: "frame_of_file ?f pic = frame_of_file f pic"
    by (simp add: frame_of_file_def folder_text_def fun_eq_iff cong: option.case_cong)
  obtain rs w2 where 2: "read_turns n (read_folder imread stop clock nap) (?f, w1) =
      (Inr rs, ?f\<lparr>fr_index := fr_index ?f + n, fr_frame_id := fr_frame_id ?f + n\<rparr>, w2)"
    "list_all2 (frame_of_file ?f pic) [fr_frame_id ?f..<fr_frame_id ?f + n] rs"
    using Suc.IH [of ?f w1] Suc.prems by auto
  have step: "read_turns (Suc n) (read_folder imread stop clock nap) (f, w) =
      (Inr (r # rs), f\<lparr>fr_index := fr_index f + Suc n, fr_frame_id := fr_frame_id f + Suc n\<rparr>, w2)"
    using 1(1) 2(1) by (simp add: read_turns_Suc bnd_def)
  have "[fr_frame_id f..<fr_frame_id f + Suc n] = fr_frame_id f # [fr_frame_id ?f..<fr_frame_id ?f + n]"
    by (simp add: upt_conv_Cons)
  moreover have "list_all2 (frame_of_file f pic) [fr_frame_id ?f..<fr_frame_id ?f + n] rs"
    using 2(2) unfolding same .
  ultimately have "list_all2 (frame_of_file f pic) [fr_frame_id f..<fr_frame_id f + Suc n] (r # rs)"
    using 1(2) by (simp only: list.rel_inject)
  then show ?case using step by blast
qed (simp add: read_turns_def)

text \<open>A folder read once delivers every file exactly once: when its images can be read, the first
  turns of a reader in \<^verbatim>\<open>only_one\<close> mode yield the files of the folder in sorted order, numbered from
  zero and each with the number of files as its last id, and the next turn stops the node.\<close>

theorem folder_read_once:
  assumes "images_ok imread clock nap pic" and "names \<noteq> []"
    and "new_folder_reader list_files folder ''only_one'' w = (Inr f, w0)" and "list_files (parse_path folder) w = (Inr names, w0)"
    and "stop = (\<lambda>v. (Inr (), halted v))"
  shows "\<exists>rs v g. read_turns (length names) (read_folder imread stop clock nap) (f, w0) = (Inr rs, g, v) \<and>
    map (\<lambda>r. frame_id (snd (the r))) rs = map int [0..<length names] \<and>
    map (\<lambda>r. source_frame (snd (the r))) rs = map (image_text (parse_path folder)) (sort names) \<and>
    list_all (\<lambda>r. r \<noteq> None \<and> frame_id_last (snd (the r)) = int (length names)) rs \<and>
    read_folder imread stop clock nap (g, v) = (Inr None, g, halted v)"
proof -
  have f: "f = \<lparr>fr_dir = parse_path folder, fr_once = True, fr_files = sort names, fr_index = 0, fr_frame_id = 0\<rparr>"
    using assms(3,4) by (simp add: new_folder_reader_def bnd_def)
  let ?g = "f\<lparr>fr_index := fr_index f + length names, fr_frame_id := fr_frame_id f + length names\<rparr>"
  have ne: "fr_files f \<noteq> []" using assms(2) f by (metis folder_reader.select_convs(3) length_0_conv length_sort)
  obtain rs v where r: "read_turns (length names) (read_folder imread stop clock nap) (f, w0) = (Inr rs, ?g, v)"
    "list_all2 (frame_of_file f pic) [0..<length names] rs"
    using read_turns_frames [OF assms(1) ne, of "length names" stop w0] f by auto
  have len: "length rs = length names" using list_all2_lengthD [OF r(2)] by simp
  have each: "frame_of_file f pic i (rs ! i)" if "i < length names" for i
    using list_all2_nthD [OF r(2), of i] that by simp
  have at: "frame_id (snd (the (rs ! i))) = int i \<and> source_frame (snd (the (rs ! i))) = image_text (parse_path folder) (sort names ! i) \<and>
      rs ! i \<noteq> None \<and> frame_id_last (snd (the (rs ! i))) = int (length names)" if "i < length names" for i
    using each [OF that] that f by (auto simp: frame_of_file_def folder_text_def split: option.splits)
  have "map (\<lambda>r. frame_id (snd (the r))) rs = map int [0..<length names]"
    by (rule nth_equalityI) (simp_all add: len at)
  moreover have "map (\<lambda>r. source_frame (snd (the r))) rs = map (image_text (parse_path folder)) (sort names)"
    by (rule nth_equalityI) (simp_all add: len at)
  moreover have "list_all (\<lambda>r. r \<noteq> None \<and> frame_id_last (snd (the r)) = int (length names)) rs"
    unfolding list_all_length using len at by simp
  moreover have "read_folder imread stop clock nap (?g, v) = (Inr None, ?g, halted v)"
    using ne f assms(5) by (simp add: read_folder_def bnd_def seq_def)
  ultimately show ?thesis using r(1) by blast
qed

theorem folder_read_once_witness:
  "\<exists>f rs g v. new_folder_reader (\<lambda>d v. (Inr [''b.jpg'', ''a.jpg''], v)) ''in/cam'' ''only_one'' False = (Inr f, False) \<and>
     read_turns 2 (read_folder (\<lambda>p v. (Inr (Some \<lparr>nd_shape = [], nd_data = []\<rparr>), v)) (\<lambda>v. (Inr (), True)) (\<lambda>v. (Inr 0, v)) (\<lambda>v. (Inr (), v)))
       (f, False) = (Inr rs, g, v) \<and>
     map (\<lambda>r. source_frame (snd (the r))) rs = [''in/cam/a.jpg'', ''in/cam/b.jpg''] \<and>
     read_folder (\<lambda>p v. (Inr (Some \<lparr>nd_shape = [], nd_data = []\<rparr>), v)) (\<lambda>v. (Inr (), True)) (\<lambda>v. (Inr 0, v)) (\<lambda>v. (Inr (), v)) (g, v) =
       (Inr None, g, True)"
proof -
  let ?list = "\<lambda>d (v :: bool). (Inr [''b.jpg'', ''a.jpg''], v)"
  let ?read = "\<lambda>p (v :: bool). (Inr (Some \<lparr>nd_shape = [], nd_data = []\<rparr>), v)"
  let ?turn = "read_folder ?read (\<lambda>v :: bool. (Inr (), True)) (\<lambda>v. (Inr 0, v)) (\<lambda>v. (Inr (), v))"
  have ok: "images_ok ?read (\<lambda>v. (Inr 0, v)) (\<lambda>v. (Inr (), v)) (\<lambda>_. \<lparr>nd_shape = [], nd_data = []\<rparr>)" by (simp add: images_ok_def)
  obtain f where f: "new_folder_reader ?list ''in/cam'' ''only_one'' False = (Inr f, False)" by (simp add: new_folder_reader_def bnd_def)
  have names: "map (image_text (parse_path ''in/cam'')) (sort [''b.jpg'', ''a.jpg'']) = [''in/cam/a.jpg'', ''in/cam/b.jpg'']"
    by (simp add: less_char_def less_eq_char_def image_text_def parse_path_def join_slash_def)
  have two: "length [''b.jpg'', ''a.jpg''] = 2" by simp
  have ne: "[''b.jpg'', ''a.jpg''] \<noteq> []" by simp
  obtain rs v g where "read_turns 2 ?turn (f, False) = (Inr rs, g, v)"
    "map (\<lambda>r. source_frame (snd (the r))) rs = [''in/cam/a.jpg'', ''in/cam/b.jpg'']" "?turn (g, v) = (Inr None, g, True)"
    using folder_read_once [OF ok ne f refl refl, of "\<lambda>_. True", unfolded two names] by (elim exE conjE) (rule that)
  with f show ?thesis by (intro exI conjI)
qed

text \<open>An image that cannot be read stops the reader's progress for good: the turn returns nothing and
  leaves the position where it is, so however often the node runs it tries the same file again, emits
  nothing, never reaches the files after it and, in \<^verbatim>\<open>only_one\<close> mode too, never stops itself.\<close>

theorem unreadable_image_blocks:
  assumes "fr_files f \<noteq> []" and "fr_frame_id f < length (fr_files f)"
    and "\<forall>v. imread (folder_text f (fr_frame_id f)) v = (Inr None, v)"
  shows "read_turns n (read_folder imread stop clock nap) (f, w) = (Inr (replicate n None), f, w)"
proof (induction n)
  case (Suc n)
  have "read_folder imread stop clock nap (f, w) = (Inr None, f, w)"
    using assms by (simp add: read_folder_def bnd_def folder_text_def Let_def)
  then show ?case using Suc by (simp add: read_turns_Suc bnd_def)
qed (simp add: read_turns_def)

theorem unreadable_image_blocks_witness:
  "read_turns 3 (read_folder (\<lambda>p v. (Inr None, v)) (\<lambda>v. (Inr (), True)) (\<lambda>v. (Inr 0, v)) (\<lambda>v. (Inr (), v)))
     (\<lparr>fr_dir = (False, [''in'']), fr_once = True, fr_files = [''notes.txt''], fr_index = 0, fr_frame_id = 0\<rparr>, False) =
   (Inr [None, None, None], \<lparr>fr_dir = (False, [''in'']), fr_once = True, fr_files = [''notes.txt''], fr_index = 0, fr_frame_id = 0\<rparr>, False)"
  using unreadable_image_blocks [of "\<lparr>fr_dir = (False, [''in'']), fr_once = True, fr_files = [''notes.txt''], fr_index = 0, fr_frame_id = 0\<rparr>"
      "\<lambda>p v. (Inr None, v)" 3] by (simp add: eval_nat_numeral)

section \<open>Normalized text\<close>

lemma lower_code: "code (lower_char c) = (if 65 \<le> code c \<and> code c \<le> 90 \<or> 192 \<le> code c \<and> code c \<le> 214 \<or> 216 \<le> code c \<and> code c \<le> 222
    then code c + 32 else code c)"
  by (auto simp: lower_char_def code_def Let_def of_char_of take_bit_eq_mod)

lemma lower_space: "is_space (lower_char c) = is_space c"
  by (auto simp: is_space_def lower_code split: if_splits)

lemma lower_lower: "lower_char (lower_char c) = lower_char c"
proof -
  have "code (lower_char (lower_char c)) = code (lower_char c)" by (auto simp: lower_code split: if_splits)
  then show ?thesis by (simp add: code_def)
qed

lemma strip_lower: "py_strip (map lower_char s) = map lower_char (py_strip s)"
  by (simp add: py_strip_def lstrip_def rstrip_def dropWhile_map comp_def lower_space rev_map)

lemma strip_strip: "py_strip (py_strip s) = py_strip s"
proof -
  have "dropWhile is_space (dropWhile is_space t) = dropWhile is_space t" for t by (rule dropWhile_idem)
  moreover have "dropWhile is_space (rev (dropWhile is_space (rev t))) = rev (dropWhile is_space (rev t))" if "dropWhile is_space t = t" for t
  proof (cases t)
    case (Cons c u)
    then have "\<not> is_space c" using that by (metis dropWhile_eq_Cons_conv list.sel(1))
    then show ?thesis using Cons by (simp add: dropWhile_append)
  qed simp
  ultimately show ?thesis by (simp add: py_strip_def lstrip_def rstrip_def)
qed

text \<open>Normalizing a text again changes nothing.\<close>

lemma text_normalize_idem: "bnd (text_normalize m) text_normalize w = text_normalize m w"
  by (cases m) (simp_all add: text_normalize_def bnd_def strip_lower strip_strip lower_lower comp_def)

end
