(* ===== verification/Queue_Transfer.thy ===== *)
theory Queue_Transfer
  imports Zero_Queue Py_Queue
begin

text \<open>
  \<^verbatim>\<open>neudc/core/communication/zero_queue/queue_transfer.py\<close> and \<^verbatim>\<open>communication/__init__.py\<close>: the queues
  of the older transfer interface, one over PUB/SUB, and a producer and a consumer over REQ/REP where
  the producer buffers what was not acknowledged and tries again on a fresh socket. ZeroMQ is the
  record of calls of \<open>Zero_Queue\<close> with the calls on pickled objects. The fork hook and \<^verbatim>\<open>__str__\<close> are
  not modelled.
\<close>

record ('z, 'm) zmq_obj = "'z zmq_lib" +
  z_subscribe :: "sock \<Rightarrow> ('z, unit) io"
  z_send_obj :: "sock \<Rightarrow> 'm \<Rightarrow> bool \<Rightarrow> ('z, unit) io"   \<comment> \<open>\<^verbatim>\<open>send_pyobj\<close>, with \<^verbatim>\<open>NOBLOCK\<close> or not\<close>
  z_recv_obj :: "sock \<Rightarrow> ('z, 'm) io"                \<comment> \<open>\<^verbatim>\<open>recv_pyobj(NOBLOCK)\<close>\<close>

text \<open>\<^verbatim>\<open>if not self.port\<close>: no port, or the port zero.\<close>

definition given_port :: "int option \<Rightarrow> int option" where
  "given_port p = (if p = Some 0 then None else p)"

definition bind_given :: "('z, 'm) zmq_obj \<Rightarrow> sock \<Rightarrow> int option \<Rightarrow> ('z, int) io" where
  "bind_given Z s p = (case given_port p of
      None \<Rightarrow> z_bind_random Z s
    | Some n \<Rightarrow> seq (z_bind Z s (Any_port n)) (ret n))"

definition connect_given :: "('z, 'm) zmq_obj \<Rightarrow> sock \<Rightarrow> int option \<Rightarrow> ('z, int) io" where
  "connect_given Z s p = (case given_port p of
      None \<Rightarrow> z_bind_random Z s
    | Some n \<Rightarrow> seq (z_connect Z s (Localhost n)) (ret n))"

definition is_ready :: "('z, 'm) zmq_obj \<Rightarrow> sock list \<Rightarrow> sock \<Rightarrow> int option \<Rightarrow> ('z, bool) io" where
  "is_ready Z regs s t = bnd (z_poll Z (map Some regs) t) (\<lambda>ready. ret (s \<in> set ready))"

section \<open>The PUB/SUB queue\<close>

record pubsub_queue =
  ps_port :: int
  ps_context :: nat
  ps_pub :: sock
  ps_sub :: sock
  ps_poller :: "sock list"

definition new_pubsub :: "('z, 'm) zmq_obj \<Rightarrow> int option \<Rightarrow> ('z, pubsub_queue) io" where
  "new_pubsub Z port =
     bnd (z_context Z) (\<lambda>c. bnd (z_socket Z c PUB) (\<lambda>p. bnd (bind_given Z p port) (\<lambda>n.
     bnd (z_socket Z c SUB) (\<lambda>s. seq (z_connect Z s (Localhost n)) (seq (z_subscribe Z s)
       (ret \<lparr>ps_port = n, ps_context = c, ps_pub = p, ps_sub = s, ps_poller = [s]\<rparr>))))))"

definition pubsub_get_nowait :: "('z, 'm) zmq_obj \<Rightarrow> pubsub_queue \<Rightarrow> ('z, 'm) io" where
  "pubsub_get_nowait Z q = z_recv_obj Z (ps_sub q)"

definition pubsub_get :: "('z, 'm) zmq_obj \<Rightarrow> pubsub_queue \<Rightarrow> real option \<Rightarrow> ('z, 'm option) io" where
  "pubsub_get Z q t = bnd (is_ready Z (ps_poller q) (ps_sub q) (timeout_millis t)) (\<lambda>ready.
     if ready then bnd (pubsub_get_nowait Z q) (\<lambda>m. ret (Some m)) else ret None)"

definition pubsub_put :: "('z, 'm) zmq_obj \<Rightarrow> pubsub_queue \<Rightarrow> 'm \<Rightarrow> ('z, unit) io" where
  "pubsub_put Z q m = z_send_obj Z (ps_pub q) m False"

definition pubsub_put_nowait :: "('z, 'm) zmq_obj \<Rightarrow> pubsub_queue \<Rightarrow> 'm \<Rightarrow> ('z, unit) io" where
  "pubsub_put_nowait Z q m = z_send_obj Z (ps_pub q) m True"

definition pubsub_reset :: "('z, 'm) zmq_obj \<Rightarrow> pubsub_queue \<Rightarrow> ('z, pubsub_queue) io" where
  "pubsub_reset Z q =
     bnd (z_socket Z (ps_context q) PUB) (\<lambda>p. seq (z_connect Z p (Any_port (ps_port q)))
     (bnd (z_socket Z (ps_context q) SUB) (\<lambda>s. seq (z_connect Z s (Localhost (ps_port q))) (seq (z_subscribe Z s)
       (ret (q\<lparr>ps_pub := p, ps_sub := s, ps_poller := []\<rparr>))))))"

section \<open>The consumer\<close>

record consumer =
  co_port :: int
  co_context :: nat
  co_sub :: sock
  co_poller :: "sock list"

definition new_consumer :: "('z, 'm) zmq_obj \<Rightarrow> int option \<Rightarrow> ('z, consumer) io" where
  "new_consumer Z port =
     bnd (z_context Z) (\<lambda>c. bnd (z_socket Z c REP) (\<lambda>s. bnd (connect_given Z s port) (\<lambda>n.
       ret \<lparr>co_port = n, co_context = c, co_sub = s, co_poller = [s]\<rparr>)))"

definition consumer_del :: "('z, 'm) zmq_obj \<Rightarrow> consumer \<Rightarrow> ('z, unit) io" where
  "consumer_del Z c = seq (z_close Z (co_sub c)) (z_term Z (co_context c))"

text \<open>Receive and acknowledge with the single byte 48, \<^verbatim>\<open>b"0"\<close>.\<close>

definition take_and_ack :: "('z, 'm) zmq_obj \<Rightarrow> consumer \<Rightarrow> ('z, 'm) io" where
  "take_and_ack Z c = bnd (z_recv_obj Z (co_sub c)) (\<lambda>m. seq (z_send Z (co_sub c) [48] True) (ret m))"

definition consumer_get :: "('z, 'm) zmq_obj \<Rightarrow> consumer \<Rightarrow> real option \<Rightarrow> ('z, 'm option) io" where
  "consumer_get Z c t = bnd (is_ready Z (co_poller c) (co_sub c) (timeout_millis t)) (\<lambda>ready.
     if ready then bnd (take_and_ack Z c) (\<lambda>m. ret (Some m)) else ret None)"

definition consumer_get_nowait :: "('z, 'm) zmq_obj \<Rightarrow> consumer \<Rightarrow> ('z, 'm) io" where
  "consumer_get_nowait Z c = bnd (is_ready Z (co_poller c) (co_sub c) (Some 1)) (\<lambda>ready.
     if ready then catch_exn (take_and_ack Z c) is_ZMQError (\<lambda>_. raise QueueEmpty) else raise QueueEmpty)"

definition consumer_put :: "'m \<Rightarrow> ('w, unit) io" where
  "consumer_put m = raise (NotImplementedError [])"

section \<open>The producer\<close>

definition DEQUE_LEN :: nat where
  "DEQUE_LEN = 100"

definition TIMEOUT_MS :: int where
  "TIMEOUT_MS = 100"

record 'm producer =
  pr_port :: "int option"
  pr_deque :: "'m deque"
  pr_context :: nat
  pr_pub :: sock
  pr_poller :: "sock list"

text \<open>\<^verbatim>\<open>init\<close>: the first time the port may be missing and is bound; afterwards \<^verbatim>\<open>self.port\<close> is set.\<close>

definition producer_init :: "('z, 'm) zmq_obj \<Rightarrow> ('m producer \<times> 'z, unit) io" where
  "producer_init Z =
     bnd (lift_w (z_context Z)) (\<lambda>c. seq (on_self (\<lambda>s. s\<lparr>pr_context := c\<rparr>))
     (bnd (lift_w (z_socket Z c REQ)) (\<lambda>k. seq (on_self (\<lambda>s. s\<lparr>pr_pub := k\<rparr>))
     (seq (lift_w (z_linger Z k 0))
     (bnd self (\<lambda>s. bnd (lift_w (connect_given Z k (pr_port s))) (\<lambda>n.
      on_self (\<lambda>s. s\<lparr>pr_port := Some n, pr_poller := [k]\<rparr>))))))))"

definition new_producer :: "('z, 'm) zmq_obj \<Rightarrow> int option \<Rightarrow> nat option \<Rightarrow> ('z, 'm producer) io" where
  "new_producer Z port len = (\<lambda>w.
     case producer_init Z (\<lparr>pr_port = port,
         pr_deque = \<lparr>maxlen = (case len of None \<Rightarrow> DEQUE_LEN | Some n \<Rightarrow> if n = 0 then DEQUE_LEN else n), elems = []\<rparr>,
         pr_context = 0, pr_pub = 0, pr_poller = []\<rparr>, w) of
       (Inl e, s) \<Rightarrow> (Inl e, snd s)
     | (Inr _, s) \<Rightarrow> (Inr (fst s), snd s))"

definition producer_stop :: "('z, 'm) zmq_obj \<Rightarrow> ('m producer \<times> 'z, unit) io" where
  "producer_stop Z = bnd self (\<lambda>s. seq (lift_w (z_close Z (pr_pub s))) (lift_w (z_term Z (pr_context s))))"

definition acked :: "('z, 'm) zmq_obj \<Rightarrow> int \<Rightarrow> ('m producer \<times> 'z, bool) io" where
  "acked Z t = bnd self (\<lambda>s. lift_w (bnd (is_ready Z (pr_poller s) (pr_pub s) (Some t)) (\<lambda>ready.
     if ready then bnd (z_recv Z (pr_pub s) False) (\<lambda>_. ret True) else ret False)))"

definition put_from_deque :: "('z, 'm) zmq_obj \<Rightarrow> int \<Rightarrow> ('m producer \<times> 'z, bool) io" where
  "put_from_deque Z t = bnd self (\<lambda>s. case elems (pr_deque s) of
      [] \<Rightarrow> raise IndexError
    | x # xs \<Rightarrow> seq (lift_w (z_send_obj Z (pr_pub s) x False)) (bnd (acked Z t) (\<lambda>ok.
        if ok then seq (on_self (\<lambda>s. s\<lparr>pr_deque := (pr_deque s)\<lparr>elems := tl (elems (pr_deque s))\<rparr>\<rparr>)) (ret True)
        else ret False)))"

text \<open>One turn of the loop of \<^verbatim>\<open>put\<close>, and the loop: it ends when the buffer is empty.\<close>

definition put_turn :: "('z, 'm) zmq_obj \<Rightarrow> int \<Rightarrow> ('m producer \<times> 'z, unit) io" where
  "put_turn Z t = bnd (put_from_deque Z t) (\<lambda>ok. if ok then ret () else seq (producer_stop Z) (producer_init Z))"

partial_function (option) put_loop :: "('z, 'm) zmq_obj \<Rightarrow> int \<Rightarrow> 'm producer \<times> 'z \<Rightarrow> ((exn + unit) \<times> 'm producer \<times> 'z) option" where
  "put_loop Z t s =
     (if elems (pr_deque (fst s)) = [] then Some (Inr (), s)
      else (case put_turn Z t s of
          (Inl e, s') \<Rightarrow> Some (Inl e, s')
        | (Inr _, s') \<Rightarrow> put_loop Z t s'))"

definition put_timeout :: "real option \<Rightarrow> int" where
  "put_timeout t = (case timeout_millis t of None \<Rightarrow> TIMEOUT_MS | Some n \<Rightarrow> if n = 0 then TIMEOUT_MS else n)"

definition producer_put :: "('z, 'm) zmq_obj \<Rightarrow> 'm \<Rightarrow> real option \<Rightarrow> 'm producer \<times> 'z \<Rightarrow> ((exn + unit) \<times> 'm producer \<times> 'z) option" where
  "producer_put Z m t s = put_loop Z (put_timeout t) ((fst s)\<lparr>pr_deque := dq_append m (pr_deque (fst s))\<rparr>, snd s)"

definition producer_put_nowait :: "('z, 'm) zmq_obj \<Rightarrow> 'm \<Rightarrow> ('m producer \<times> 'z, unit) io" where
  "producer_put_nowait Z m = bnd self (\<lambda>s. seq (lift_w (z_send_obj Z (pr_pub s) m False)) (bnd (acked Z (TIMEOUT_MS div 5 + 1)) (\<lambda>ok.
     if ok then ret ()
     else seq (on_self (\<lambda>s. s\<lparr>pr_deque := dq_appendleft m (pr_deque s)\<rparr>))
       (seq (producer_stop Z) (seq (producer_init Z) (raise QueueFull))))))"

definition producer_get :: "('w, 'm) io" where
  "producer_get = raise (NotImplementedError [])"

section \<open>TransferFactory\<close>

datatype transfer = Transfer_queue | Transfer_producer | Transfer_mailbox

definition create_transfer :: "string \<Rightarrow> exn + transfer" where
  "create_transfer t =
     (if t = ''Queue'' then Inr Transfer_queue
      else if t \<in> {''QueueProducer'', ''QueueConsumer''} then Inr Transfer_producer
      else if t = ''ZMQMailbox'' then Inr Transfer_mailbox
      else Inl (ValueError (''Unknown transfer type: '' @ t)))"

section \<open>Delivery\<close>

text \<open>What REQ/REP promises: a reply to a request means the request was received, what was received
  stays so, and no call fails. \<open>received\<close> is what the consumer has taken, \<open>patience\<close> bounds how often
  the link still lets a poll end without an answer.\<close>

definition calm :: "('z \<Rightarrow> 'm set) \<Rightarrow> ('z \<Rightarrow> nat) \<Rightarrow> ('z, 'a) io \<Rightarrow> bool" where
  "calm received patience m \<longleftrightarrow>
     (\<forall>w. \<exists>x w'. m w = (Inr x, w') \<and> received w \<subseteq> received w' \<and> patience w' \<le> patience w)"

definition link_ok :: "('z, 'm) zmq_obj \<Rightarrow> ('z \<Rightarrow> 'm set) \<Rightarrow> ('z \<Rightarrow> nat) \<Rightarrow> bool" where
  "link_ok Z received patience \<longleftrightarrow>
     calm received patience (z_context Z) \<and> (\<forall>c. calm received patience (z_socket Z c REQ)) \<and>
     (\<forall>k. calm received patience (z_linger Z k 0)) \<and> (\<forall>k. calm received patience (z_bind_random Z k)) \<and>
     (\<forall>k n. calm received patience (z_connect Z k (Localhost n))) \<and> (\<forall>k. calm received patience (z_close Z k)) \<and>
     (\<forall>c. calm received patience (z_term Z c)) \<and> (\<forall>k. calm received patience (z_recv Z k False)) \<and>
     (\<forall>k x t w. \<exists>w1 r w2. z_send_obj Z k x False w = (Inr (), w1) \<and> z_poll Z [Some k] (Some t) w1 = (Inr r, w2) \<and>
        received w \<subseteq> received w2 \<and> patience w2 \<le> patience w \<and>
        (if k \<in> set r then x \<in> received w2 else patience w2 < patience w))"

definition producer_ok :: "'m producer \<Rightarrow> bool" where
  "producer_ok p \<longleftrightarrow> pr_poller p = [pr_pub p] \<and> 0 < maxlen (pr_deque p)"

lemma calmD: "calm received patience m \<Longrightarrow>
    \<exists>x w'. m w = (Inr x, w') \<and> received w \<subseteq> received w' \<and> patience w' \<le> patience w"
  by (simp add: calm_def)

lemma calm_bnd:
  assumes "calm received patience m" and "\<And>x. calm received patience (f x)"
  shows "calm received patience (bnd m f)"
  unfolding calm_def
proof
  fix w
  obtain x w1 where 1: "m w = (Inr x, w1)" "received w \<subseteq> received w1" "patience w1 \<le> patience w"
    using calmD [OF assms(1)] by blast
  obtain y w2 where 2: "f x w1 = (Inr y, w2)" "received w1 \<subseteq> received w2" "patience w2 \<le> patience w1"
    using calmD [OF assms(2)] by blast
  show "\<exists>y w'. bnd m f w = (Inr y, w') \<and> received w \<subseteq> received w' \<and> patience w' \<le> patience w"
    using 1 2 by (intro exI [of _ y] exI [of _ w2]) (auto simp: bnd_def)
qed

lemma calm_ret: "calm received patience (ret x)"
  by (simp add: calm_def)

lemma calm_connect: "link_ok Z received patience \<Longrightarrow> calm received patience (connect_given Z k p)"
  by (auto simp: connect_given_def seq_def link_ok_def intro!: calm_bnd calm_ret split: option.splits)

lemma producer_init_ok:
  assumes "link_ok Z received patience" and "0 < maxlen (pr_deque p)"
  shows "\<exists>p' w'. producer_init Z (p, w) = (Inr (), p', w') \<and> producer_ok p' \<and> pr_deque p' = pr_deque p \<and>
    received w \<subseteq> received w' \<and> patience w' \<le> patience w"
proof -
  have c: "calm received patience (z_context Z)" "\<And>c. calm received patience (z_socket Z c REQ)"
    "\<And>k. calm received patience (z_linger Z k 0)"
    using assms(1) by (simp_all add: link_ok_def)
  obtain c w1 where 1: "z_context Z w = (Inr c, w1)" "received w \<subseteq> received w1" "patience w1 \<le> patience w"
    using calmD [OF c(1)] by blast
  obtain k w2 where 2: "z_socket Z c REQ w1 = (Inr k, w2)" "received w1 \<subseteq> received w2" "patience w2 \<le> patience w1"
    using calmD [OF c(2)] by blast
  obtain w3 where 3: "z_linger Z k 0 w2 = (Inr (), w3)" "received w2 \<subseteq> received w3" "patience w3 \<le> patience w2"
    using calmD [OF c(3)] by (metis old.unit.exhaust)
  obtain n w4 where 4: "connect_given Z k (pr_port p) w3 = (Inr n, w4)" "received w3 \<subseteq> received w4" "patience w4 \<le> patience w3"
    using calmD [OF calm_connect [OF assms(1)]] by blast
  let ?p = "p\<lparr>pr_context := c, pr_pub := k, pr_port := Some n, pr_poller := [k]\<rparr>"
  have "producer_init Z (p, w) = (Inr (), ?p, w4)"
    by (simp add: producer_init_def bnd_def seq_def 1 2 3 4)
  moreover have "producer_ok ?p" using assms(2) by (simp add: producer_ok_def)
  ultimately show ?thesis using 1 2 3 4 by (intro exI [of _ ?p] exI [of _ w4]) auto
qed

lemma put_turn_ok:
  assumes "link_ok Z received patience" and "producer_ok p" and "elems (pr_deque p) = x # xs"
  shows "\<exists>p' w'. put_turn Z t (p, w) = (Inr (), p', w') \<and> producer_ok p' \<and> received w \<subseteq> received w' \<and>
    (elems (pr_deque p') = xs \<and> x \<in> received w' \<and> patience w' \<le> patience w \<or>
     elems (pr_deque p') = x # xs \<and> patience w' < patience w)"
proof -
  let ?k = "pr_pub p"
  obtain w1 r w2 where send: "z_send_obj Z ?k x False w = (Inr (), w1)" "z_poll Z [Some ?k] (Some t) w1 = (Inr r, w2)"
    and mono: "received w \<subseteq> received w2" "patience w2 \<le> patience w"
    and ans: "if ?k \<in> set r then x \<in> received w2 else patience w2 < patience w"
    using assms(1) unfolding link_ok_def by meson
  have c: "calm received patience (z_recv Z ?k False)" "\<And>k. calm received patience (z_close Z k)" "\<And>c. calm received patience (z_term Z c)"
    using assms(1) by (simp_all add: link_ok_def)
  show ?thesis
  proof (cases "?k \<in> set r")
    case True
    obtain b w3 where 3: "z_recv Z ?k False w2 = (Inr b, w3)" "received w2 \<subseteq> received w3" "patience w3 \<le> patience w2"
      using calmD [OF c(1)] by blast
    let ?p = "p\<lparr>pr_deque := (pr_deque p)\<lparr>elems := xs\<rparr>\<rparr>"
    have "put_turn Z t (p, w) = (Inr (), ?p, w3)"
      using send True 3 assms(2,3)
      by (simp add: put_turn_def put_from_deque_def acked_def is_ready_def bnd_def seq_def producer_ok_def)
    moreover have "producer_ok ?p" using assms(2) by (simp add: producer_ok_def)
    ultimately show ?thesis using mono ans True 3(2,3) by (intro exI [of _ ?p] exI [of _ w3]) auto
  next
    case False
    obtain u where 3: "z_close Z ?k w2 = (Inr (), u)" "received w2 \<subseteq> received u" "patience u \<le> patience w2"
      using calmD [OF c(2)] by (metis old.unit.exhaust)
    obtain v where 4: "z_term Z (pr_context p) u = (Inr (), v)" "received u \<subseteq> received v" "patience v \<le> patience u"
      using calmD [OF c(3)] by (metis old.unit.exhaust)
    have "0 < maxlen (pr_deque p)" using assms(2) by (simp add: producer_ok_def)
    from producer_init_ok [OF assms(1) this] obtain p' w' where 5: "producer_init Z (p, v) = (Inr (), p', w')" "producer_ok p'"
      "pr_deque p' = pr_deque p" "received v \<subseteq> received w'" "patience w' \<le> patience v" by blast
    have "put_turn Z t (p, w) = (Inr (), p', w')"
      using send False 3 4 5 assms(2,3)
      by (simp add: put_turn_def put_from_deque_def acked_def is_ready_def bnd_def seq_def producer_ok_def producer_stop_def)
    then show ?thesis using mono ans False 3 4 5 assms(3) by (intro exI [of _ p'] exI [of _ w']) auto
  qed
qed

lemma put_loop_ends:
  assumes "link_ok Z received patience" and "producer_ok p"
  shows "\<exists>p' w'. put_loop Z t (p, w) = Some (Inr (), p', w') \<and> producer_ok p' \<and> elems (pr_deque p') = [] \<and>
    set (elems (pr_deque p)) \<union> received w \<subseteq> received w'"
  using assms(2)
proof (induction "length (elems (pr_deque p)) + patience w" arbitrary: p w rule: less_induct)
  case less
  show ?case
  proof (cases "elems (pr_deque p)")
    case Nil
    then show ?thesis using less.prems by (subst put_loop.simps) simp
  next
    case (Cons x xs)
    obtain p1 w1 where 1: "put_turn Z t (p, w) = (Inr (), p1, w1)" "producer_ok p1" "received w \<subseteq> received w1"
      "elems (pr_deque p1) = xs \<and> x \<in> received w1 \<and> patience w1 \<le> patience w \<or>
       elems (pr_deque p1) = x # xs \<and> patience w1 < patience w"
      using put_turn_ok [OF assms(1) less.prems Cons] by blast
    have "length (elems (pr_deque p1)) + patience w1 < length (elems (pr_deque p)) + patience w"
      using 1(4) Cons by auto
    from less.hyps [OF this 1(2)] obtain p' w' where 2: "put_loop Z t (p1, w1) = Some (Inr (), p', w')" "producer_ok p'"
      "elems (pr_deque p') = []" "set (elems (pr_deque p1)) \<union> received w1 \<subseteq> received w'" by blast
    have "put_loop Z t (p, w) = Some (Inr (), p', w')"
      using 1(1) 2(1) Cons by (subst put_loop.simps) simp
    then show ?thesis using 1(3,4) 2(2-4) Cons by (intro exI [of _ p'] exI [of _ w']) auto
  qed
qed

text \<open>C17: Putting an item returns once the link answers, however often it did not before: then the
  buffer is empty, and everything that was in it and the item itself have been received, the items
  a timed-out attempt may have delivered before included; only what the bounded buffer evicts to
  make room is not sent.\<close>

theorem put_delivers:
  assumes "link_ok Z received patience" and "producer_ok p"
  shows "\<exists>p' w'. producer_put Z m t (p, w) = Some (Inr (), p', w') \<and> producer_ok p' \<and> elems (pr_deque p') = [] \<and>
    insert m (set (drop (Suc (length (elems (pr_deque p))) - maxlen (pr_deque p)) (elems (pr_deque p)))) \<subseteq> received w'"
proof -
  let ?p = "p\<lparr>pr_deque := dq_append m (pr_deque p)\<rparr>"
  have ok: "producer_ok ?p" using assms(2) by (simp add: producer_ok_def dq_append_def)
  have "set (elems (pr_deque ?p)) = insert m (set (drop (Suc (length (elems (pr_deque p))) - maxlen (pr_deque p)) (elems (pr_deque p))))"
    using assms(2) by (auto simp: dq_append_def producer_ok_def drop_Cons' split: if_splits)
  with put_loop_ends [OF assms(1) ok, of "put_timeout t" w] show ?thesis
    by (auto simp: producer_put_def)
qed

text \<open>A link whose replies are lost as often as its counter says; the items arrive each time.\<close>

definition lossy_link :: "(nat list \<times> nat, nat) zmq_obj" where
  "lossy_link = \<lparr>z_context = ret 0, z_socket = (\<lambda>_ _. ret 1), z_linger = (\<lambda>_ _. ret ()), z_bind = (\<lambda>_ _. ret ()),
     z_bind_random = (\<lambda>_. ret 5555), z_connect = (\<lambda>_ _. ret ()), z_disconnect = (\<lambda>_ _. ret ()),
     z_poll = (\<lambda>ss _ w. if snd w = 0 then (Inr (map the ss), w) else (Inr [], fst w, snd w - 1)),
     z_recv = (\<lambda>_ _. ret [48]), z_send = (\<lambda>_ _ _. ret ()), z_close = (\<lambda>_. ret ()), z_term = (\<lambda>_. ret ()), z_rcvhwm = (\<lambda>_. ret 1000),
     z_subscribe = (\<lambda>_. ret ()), z_send_obj = (\<lambda>_ x _ w. (Inr (), fst w @ [x], snd w)), z_recv_obj = (\<lambda>_. raise QueueEmpty)\<rparr>"

definition fresh_producer :: "nat producer" where
  "fresh_producer = \<lparr>pr_port = Some 5555, pr_deque = \<lparr>maxlen = 2, elems = [3]\<rparr>, pr_context = 0, pr_pub = 1, pr_poller = [1]\<rparr>"

lemma lossy_link_ok: "link_ok lossy_link (\<lambda>w. set (fst w)) snd"
  by (auto simp: link_ok_def calm_def lossy_link_def)

theorem put_delivers_witness:
  "\<exists>p' w'. producer_put lossy_link 7 None (fresh_producer, ([], 2)) = Some (Inr (), p', w') \<and>
     elems (pr_deque p') = [] \<and> {3, 7} \<subseteq> set (fst w')"
proof -
  have "producer_ok fresh_producer" by (simp add: producer_ok_def fresh_producer_def)
  from put_delivers [OF lossy_link_ok this, of 7 None "([], 2)"] show ?thesis
    by (auto simp: fresh_producer_def)
qed

section \<open>A producer loses its own port\<close>

text \<open>A port nobody is bound to: every call works, but a socket connected to it is never answered.\<close>

definition dead_port :: "('z, 'm) zmq_obj \<Rightarrow> int \<Rightarrow> ('z \<Rightarrow> bool) \<Rightarrow> (sock \<Rightarrow> 'z \<Rightarrow> bool) \<Rightarrow> bool" where
  "dead_port Z n nobody conn \<longleftrightarrow>
     runs nobody (z_context Z) (\<lambda>_. nobody) \<and> (\<forall>c. runs nobody (z_socket Z c REQ) (\<lambda>_. nobody)) \<and>
     (\<forall>k. runs nobody (z_linger Z k 0) (\<lambda>_. nobody)) \<and>
     (\<forall>k. runs nobody (z_connect Z k (Localhost n)) (\<lambda>_ w. nobody w \<and> conn k w)) \<and>
     (\<forall>k x. runs (\<lambda>w. nobody w \<and> conn k w) (z_send_obj Z k x False) (\<lambda>_ w. nobody w \<and> conn k w)) \<and>
     (\<forall>k t. runs (\<lambda>w. nobody w \<and> conn k w) (z_poll Z [Some k] (Some t)) (\<lambda>r w. k \<notin> set r \<and> nobody w)) \<and>
     (\<forall>k. runs nobody (z_close Z k) (\<lambda>_. nobody)) \<and> (\<forall>c. runs nobody (z_term Z c) (\<lambda>_. nobody))"

lemma dead_portD:
  assumes "dead_port Z n nobody conn"
  shows "runs nobody (z_context Z) (\<lambda>_. nobody)" "runs nobody (z_socket Z c REQ) (\<lambda>_. nobody)"
    "runs nobody (z_linger Z k 0) (\<lambda>_. nobody)" "runs nobody (z_connect Z k (Localhost n)) (\<lambda>_ w. nobody w \<and> conn k w)"
    "runs (\<lambda>w. nobody w \<and> conn k w) (z_send_obj Z k x False) (\<lambda>_ w. nobody w \<and> conn k w)"
    "runs (\<lambda>w. nobody w \<and> conn k w) (z_poll Z [Some k] (Some t)) (\<lambda>r w. k \<notin> set r \<and> nobody w)"
    "runs nobody (z_close Z k) (\<lambda>_. nobody)" "runs nobody (z_term Z c) (\<lambda>_. nobody)"
  using assms by (simp_all add: dead_port_def)

text \<open>What the state is before each turn of the loop.\<close>

definition cut_off :: "int \<Rightarrow> ('z \<Rightarrow> bool) \<Rightarrow> (sock \<Rightarrow> 'z \<Rightarrow> bool) \<Rightarrow> 'm producer \<times> 'z \<Rightarrow> bool" where
  "cut_off n nobody conn s \<longleftrightarrow> pr_port (fst s) = Some n \<and> pr_poller (fst s) = [pr_pub (fst s)] \<and>
     elems (pr_deque (fst s)) \<noteq> [] \<and> nobody (snd s) \<and> conn (pr_pub (fst s)) (snd s)"

lemma reinit_cut_off:
  assumes "dead_port Z n nobody conn" and "n \<noteq> 0" and "pr_port p = Some n" and "elems (pr_deque p) \<noteq> []" and "nobody w"
  shows "\<exists>s'. seq (lift_w (z_term Z (pr_context p))) (producer_init Z) (p, w) = (Inr (), s') \<and> cut_off n nobody conn s'"
proof -
  note d = dead_portD [OF assms(1)]
  obtain u w0 where 0: "z_term Z (pr_context p) w = (Inr u, w0)" "nobody w0" using runsD [OF d(8) assms(5)] by blast
  obtain c w1 where 1: "z_context Z w0 = (Inr c, w1)" "nobody w1" using runsD [OF d(1) 0(2)] by blast
  obtain k w2 where 2: "z_socket Z c REQ w1 = (Inr k, w2)" "nobody w2" using runsD [OF d(2) 1(2)] by blast
  obtain v w3 where 3: "z_linger Z k 0 w2 = (Inr v, w3)" "nobody w3" using runsD [OF d(3) 2(2)] by blast
  obtain x w4 where 4: "z_connect Z k (Localhost n) w3 = (Inr x, w4)" "nobody w4 \<and> conn k w4" using runsD [OF d(4) 3(2)] by blast
  let ?p = "p\<lparr>pr_context := c, pr_pub := k, pr_port := Some n, pr_poller := [k]\<rparr>"
  have "seq (lift_w (z_term Z (pr_context p))) (producer_init Z) (p, w) = (Inr (), ?p, w4)"
    using 0(1) 1(1) 2(1) 3(1) 4(1) assms(2,3)
    by (simp add: producer_init_def connect_given_def given_port_def bnd_def seq_def)
  moreover have "cut_off n nobody conn (?p, w4)" using assms(4) 4(2) by (simp add: cut_off_def)
  ultimately show ?thesis by blast
qed

text \<open>A turn without an answer closes the socket and starts over.\<close>

lemma failed_turn:
  assumes "pr_poller p = [pr_pub p]" and "elems (pr_deque p) = x # xs"
    and "z_send_obj Z (pr_pub p) x False w = (Inr (), w1)" and "z_poll Z [Some (pr_pub p)] (Some t) w1 = (Inr r, w2)"
    and "pr_pub p \<notin> set r" and "z_close Z (pr_pub p) w2 = (Inr (), w3)"
  shows "put_turn Z t (p, w) = seq (lift_w (z_term Z (pr_context p))) (producer_init Z) (p, w3)"
  using assms
  by (simp add: put_turn_def put_from_deque_def acked_def is_ready_def bnd_def seq_def producer_stop_def split: prod.splits sum.splits)

lemma cut_off_turn:
  assumes "dead_port Z n nobody conn" and "n \<noteq> 0" and "cut_off n nobody conn s"
  shows "\<exists>s'. put_turn Z t s = (Inr (), s') \<and> cut_off n nobody conn s'"
proof -
  note d = dead_portD [OF assms(1)]
  obtain p w where s: "s = (p, w)" by (rule prod.exhaust)
  obtain x xs where xs: "elems (pr_deque p) = x # xs" using assms(3) by (cases "elems (pr_deque p)") (auto simp: cut_off_def s)
  have w: "nobody w \<and> conn (pr_pub p) w" and p: "pr_port p = Some n" "pr_poller p = [pr_pub p]" using assms(3) by (simp_all add: cut_off_def s)
  obtain u w1 where 1: "z_send_obj Z (pr_pub p) x False w = (Inr u, w1)" "nobody w1 \<and> conn (pr_pub p) w1" using runsD [OF d(5) w] by blast
  obtain r w2 where 2: "z_poll Z [Some (pr_pub p)] (Some t) w1 = (Inr r, w2)" "pr_pub p \<notin> set r \<and> nobody w2" using runsD [OF d(6) 1(2)] by blast
  obtain v w3 where 3: "z_close Z (pr_pub p) w2 = (Inr v, w3)" "nobody w3" using runsD [OF d(7) conjunct2 [OF 2(2)]] by blast
  have "put_turn Z t (p, w) = seq (lift_w (z_term Z (pr_context p))) (producer_init Z) (p, w3)"
    using failed_turn [OF p(2) xs, of Z w w1 t r w2 w3] 1(1) 2 3(1) by simp
  then show ?thesis using reinit_cut_off [OF assms(1,2) p(1) _ 3(2)] xs s by simp
qed

definition put_loop_body ::
  "(('z, 'm) zmq_obj \<Rightarrow> int \<Rightarrow> 'm producer \<times> 'z \<Rightarrow> ((exn + unit) \<times> 'm producer \<times> 'z) option) \<Rightarrow>
    ('z, 'm) zmq_obj \<Rightarrow> int \<Rightarrow> 'm producer \<times> 'z \<Rightarrow> ((exn + unit) \<times> 'm producer \<times> 'z) option" where
  "put_loop_body rec Z t s =
     (if elems (pr_deque (fst s)) = [] then Some (Inr (), s)
      else (case put_turn Z t s of (Inl e, s') \<Rightarrow> Some (Inl e, s') | (Inr _, s') \<Rightarrow> rec Z t s'))"

lemma cut_off_hangs:
  assumes "dead_port Z n nobody conn" and "n \<noteq> 0" and "cut_off n nobody conn s"
  shows "put_loop Z t s = None"
proof (rule ccontr)
  assume "put_loop Z t s \<noteq> None"
  then obtain res where res: "put_loop Z t s = Some res" by blast
  have "dead_port Z n nobody conn \<longrightarrow> cut_off n nobody conn s \<longrightarrow> False"
  proof (rule put_loop.raw_induct [rotated, folded put_loop_body_def, OF res], intro impI)
    fix rec :: "('a, 'b) zmq_obj \<Rightarrow> int \<Rightarrow> 'b producer \<times> 'a \<Rightarrow> ((exn + unit) \<times> 'b producer \<times> 'a) option" and Z t s res
    assume IH: "\<And>Z t s res. rec Z t s = Some res \<Longrightarrow> dead_port Z n nobody conn \<longrightarrow> cut_off n nobody conn s \<longrightarrow> False"
      and body: "put_loop_body rec Z t s = Some res" and d: "dead_port Z n nobody conn" and c: "cut_off n nobody conn s"
    obtain s' where s': "put_turn Z t s = (Inr (), s')" "cut_off n nobody conn s'" using cut_off_turn [OF d assms(2) c] by blast
    have "elems (pr_deque (fst s)) \<noteq> []" using c by (simp add: cut_off_def)
    then have "rec Z t s' = Some res" using body s'(1) by (simp add: put_loop_body_def)
    then show False using IH d s'(2) by blast
  qed
  then show False using assms(1,3) by blast
qed

text \<open>C29: A producer that was given no port binds one itself, but after the first attempt without an
  answer it closes that socket and only connects to the port: nobody is bound to it any more, so
  the put never returns, and the consumers that know the port are never reached again.\<close>

theorem own_port_is_lost:
  assumes "dead_port Z n nobody conn" and "n \<noteq> 0" and "pr_port p = Some n" and "producer_ok p"
    and "elems (dq_append m (pr_deque p)) = x # xs"
    and "z_send_obj Z (pr_pub p) x False w = (Inr (), wa)" and "z_poll Z [Some (pr_pub p)] (Some (put_timeout t)) wa = (Inr r, wb)"
    and "pr_pub p \<notin> set r" and "z_close Z (pr_pub p) wb = (Inr (), wc)" and "nobody wc"
  shows "producer_put Z m t (p, w) = None"
proof -
  let ?p = "p\<lparr>pr_deque := dq_append m (pr_deque p)\<rparr>"
  have "put_turn Z (put_timeout t) (?p, w) = seq (lift_w (z_term Z (pr_context ?p))) (producer_init Z) (?p, wc)"
    by (rule failed_turn) (use assms in \<open>simp_all add: producer_ok_def\<close>)
  moreover obtain s' where "seq (lift_w (z_term Z (pr_context ?p))) (producer_init Z) (?p, wc) = (Inr (), s')" "cut_off n nobody conn s'"
    using reinit_cut_off [OF assms(1,2), of ?p wc] assms(3,5,10) by auto
  ultimately show ?thesis
    using cut_off_hangs [OF assms(1,2)] assms(5)
    by (simp add: producer_put_def, subst put_loop.simps) simp
qed

text \<open>A network of one process that remembers whether its port is bound, without any consumer.\<close>

definition lonely_net :: "(bool, nat) zmq_obj" where
  "lonely_net = \<lparr>z_context = ret 0, z_socket = (\<lambda>_ _. ret 1), z_linger = (\<lambda>_ _. ret ()), z_bind = (\<lambda>_ _ w. (Inr (), True)),
     z_bind_random = (\<lambda>_ w. (Inr 5555, True)), z_connect = (\<lambda>_ _. ret ()), z_disconnect = (\<lambda>_ _. ret ()),
     z_poll = (\<lambda>_ _. ret []), z_recv = (\<lambda>_ _. ret [48]), z_send = (\<lambda>_ _ _. ret ()), z_close = (\<lambda>_ _. (Inr (), False)),
     z_term = (\<lambda>_. ret ()), z_rcvhwm = (\<lambda>_. ret 1000), z_subscribe = (\<lambda>_. ret ()), z_send_obj = (\<lambda>_ _ _. ret ()),
     z_recv_obj = (\<lambda>_. raise QueueEmpty)\<rparr>"

theorem own_port_is_lost_witness:
  "\<exists>p. new_producer lonely_net None None False = (Inr p, True) \<and> producer_put lonely_net 7 None (p, True) = None"
proof -
  let ?p = "\<lparr>pr_port = Some 5555, pr_deque = \<lparr>maxlen = 100, elems = []\<rparr>, pr_context = 0, pr_pub = 1, pr_poller = [1]\<rparr> :: nat producer"
  have n: "new_producer lonely_net None None False = (Inr ?p, True)"
    by (simp add: new_producer_def producer_init_def connect_given_def given_port_def lonely_net_def bnd_def seq_def DEQUE_LEN_def)
  have d: "dead_port lonely_net 5555 Not (\<lambda>_ _. True)"
    by (simp add: dead_port_def lonely_net_def runs_def)
  have "producer_put lonely_net 7 None (?p, True) = None"
    by (rule own_port_is_lost [OF d, where x = 7 and xs = "[]" and r = "[]" and wa = True and wb = True and wc = False])
       (simp_all add: producer_ok_def dq_append_def lonely_net_def)
  with n show ?thesis by blast
qed

text \<open>After a fork the PUB/SUB queue polls nothing, so nothing is ever received.\<close>

lemma forked_pubsub_is_deaf:
  assumes "\<And>t w r w'. z_poll Z [] t w = (Inr r, w') \<Longrightarrow> r = []"
    and "pubsub_reset Z q w = (Inr q', w')" and "pubsub_get Z q' t v = (Inr m, v')"
  shows "m = None"
proof -
  have p: "ps_poller q' = []" using assms(2) by (auto simp: pubsub_reset_def io_simps)
  obtain r w1 where r: "z_poll Z [] (timeout_millis t) v = (r, w1)" by (rule prod.exhaust)
  show ?thesis
  proof (cases r)
    case (Inr ss)
    then have "ss = []" using assms(1) r by blast
    then show ?thesis using assms(3) p r Inr by (simp add: pubsub_get_def is_ready_def bnd_def)
  qed (use assms(3) p r in \<open>simp add: pubsub_get_def is_ready_def bnd_def\<close>)
qed

end
