(* ===== verification/Wave.thy ===== *)
theory Wave
  imports Voice Zero_Queue
begin

text \<open>
  16-bit PCM WAV: \<^verbatim>\<open>_encode_wav\<close> of \<^verbatim>\<open>nn/backends/asr/openai_compatible.py\<close>, \<^verbatim>\<open>_decode_wav\<close> of
  \<^verbatim>\<open>nn/backends/tts/openai_compatible.py\<close>, and what they use of the standard module \<^verbatim>\<open>wave\<close>. Samples
  are words of 16 bits, files lists of bytes; the rounding of \<^verbatim>\<open>float32\<close> is not modelled. The
  extensible format tag, which only Python 3.12 reads, is refused.
\<close>

section \<open>Little-endian numbers\<close>

fun le_bytes :: "nat \<Rightarrow> nat \<Rightarrow> bytes" where
  "le_bytes 0 n = []"
| "le_bytes (Suc k) n = word_of_nat (n mod 256) # le_bytes k (n div 256)"

definition of_le :: "bytes \<Rightarrow> nat" where
  "of_le bs = foldr (\<lambda>b n. unat b + 256 * n) bs 0"

lemma of_le_simps [simp]: "of_le [] = 0" "of_le (b # bs) = unat b + 256 * of_le bs"
  by (simp_all add: of_le_def)

lemma le_bytes_length [simp]: "length (le_bytes k n) = k"
  by (induction k arbitrary: n) simp_all

lemma of_le_bytes: "n < 256 ^ k \<Longrightarrow> of_le (le_bytes k n) = n"
proof (induction k arbitrary: n)
  case (Suc k)
  have "unat (word_of_nat (n mod 256) :: 8 word) = n mod 256"
    by (simp add: unat_of_nat take_bit_eq_mod)
  moreover have "n div 256 < 256 ^ k" using Suc.prems by (simp add: less_mult_imp_div_less mult.commute)
  ultimately show ?case using Suc.IH by simp
qed simp

definition ascii :: "string \<Rightarrow> bytes" where
  "ascii s = map (\<lambda>c. word_of_nat (of_char c)) s"

section \<open>Writing\<close>

text \<open>\<^verbatim>\<open>astype(np.int16)\<close> truncates and wraps; float samples are clipped and scaled first.\<close>

definition clip_unit :: "real \<Rightarrow> real" where
  "clip_unit x = min (max x (- 1)) 1"

definition to_pcm16 :: "bool \<Rightarrow> real \<Rightarrow> 16 word" where
  "to_pcm16 floating x = word_of_int (py_trunc (if floating then clip_unit x * 32767 else x))"

definition pcm_bytes :: "16 word list \<Rightarrow> bytes" where
  "pcm_bytes ws = concat (map (\<lambda>w. le_bytes 2 (unat w)) ws)"

text \<open>\<^verbatim>\<open>struct.pack\<close> refuses a number that does not fit.\<close>

definition wave_file :: "int \<Rightarrow> bytes \<Rightarrow> exn + bytes" where
  "wave_file rate snd16 =
     (if rate \<le> 0 then Inl (OtherException ''wave.Error'')
      else if 2 ^ 32 \<le> 36 + length snd16 \<or> 2 ^ 32 \<le> 2 * rate then Inl (OtherException ''struct.error'')
      else Inr (ascii ''RIFF'' @ le_bytes 4 (36 + length snd16) @ ascii ''WAVE'' @ ascii ''fmt '' @ le_bytes 4 16 @
        le_bytes 2 1 @ le_bytes 2 1 @ le_bytes 4 (nat rate) @ le_bytes 4 (nat (2 * rate)) @ le_bytes 2 2 @ le_bytes 2 16 @
        ascii ''data'' @ le_bytes 4 (length snd16) @ snd16))"

definition encode_wav :: "bool \<Rightarrow> ndarray \<Rightarrow> int \<Rightarrow> exn + bytes" where
  "encode_wav floating a rate = wave_file rate (pcm_bytes (map (to_pcm16 floating) (nd_data a)))"

section \<open>Reading\<close>

text \<open>The channels, the rate and the width of a frame.\<close>

definition read_fmt :: "bytes \<Rightarrow> exn + nat \<times> nat \<times> nat" where
  "read_fmt b =
     (if length b < 14 then Inl (OtherException ''EOFError'')
      else if of_le (take 2 b) \<noteq> 1 then Inl (OtherException ''wave.Error'')
      else if length b < 16 then Inl (OtherException ''EOFError'')
      else let chans = of_le (take 2 (drop 2 b)); rate = of_le (take 4 (drop 4 b)); width = (of_le (take 2 (drop 14 b)) + 7) div 8 in
        if width = 0 \<or> chans = 0 then Inl (OtherException ''wave.Error'') else Inr (chans, rate, chans * width))"

text \<open>The chunks of the body up to \<^verbatim>\<open>data\<close>, of which the first sound frames are read; a chunk of
  odd size is padded.\<close>

function read_chunks :: "(nat \<times> nat \<times> nat) option \<Rightarrow> bytes \<Rightarrow> exn + nat \<times> nat \<times> bytes" where
  "read_chunks f b =
     (if length b < 8 then Inl (OtherException ''wave.Error'')
      else let name = take 4 b; size = of_le (take 4 (drop 4 b)); rest = drop 8 b in
        if name = ascii ''fmt '' then (case read_fmt (take size rest) of
            Inl e \<Rightarrow> Inl e
          | Inr fm \<Rightarrow> read_chunks (Some fm) (drop (size + size mod 2) rest))
        else if name = ascii ''data'' then (case f of
            None \<Rightarrow> Inl (OtherException ''wave.Error'')
          | Some (chans, rate, width) \<Rightarrow> Inr (chans, rate, take (size div width * width) rest))
        else read_chunks f (drop (size + size mod 2) rest))"
  by pat_completeness auto
termination
  by (relation "measure (length \<circ> snd)") auto

declare read_chunks.simps [simp del]

definition wave_open :: "bytes \<Rightarrow> exn + nat \<times> nat \<times> bytes" where
  "wave_open b =
     (if length b < 8 then Inl (OtherException ''EOFError'')
      else if take 4 b \<noteq> ascii ''RIFF'' then Inl (OtherException ''wave.Error'')
      else let body = take (of_le (take 4 (drop 4 b))) (drop 8 b) in
        if take 4 body \<noteq> ascii ''WAVE'' then Inl (OtherException ''wave.Error'')
        else read_chunks None (drop 4 body))"

text \<open>\<^verbatim>\<open>np.frombuffer(raw, dtype=np.int16)\<close>, and the mean over the channels.\<close>

fun pcm_words :: "bytes \<Rightarrow> 16 word list" where
  "pcm_words (a # b # bs) = word_of_nat (unat a + 256 * unat b) # pcm_words bs"
| "pcm_words _ = []"

fun groups :: "nat \<Rightarrow> nat \<Rightarrow> 'a list \<Rightarrow> 'a list list" where
  "groups 0 n xs = []"
| "groups (Suc k) n xs = take n xs # groups k n (drop n xs)"

definition mix_down :: "nat \<Rightarrow> 16 word list \<Rightarrow> 16 word list" where
  "mix_down chans ws = map (\<lambda>g. word_of_int (py_trunc (real_of_int (sum_list (map sint g)) / real chans)))
     (groups (length ws div chans) chans ws)"

definition decode_wav :: "bytes \<Rightarrow> exn + ndarray \<times> int" where
  "decode_wav b = (case wave_open b of
      Inl e \<Rightarrow> Inl e
    | Inr (chans, rate, raw) \<Rightarrow>
        if length raw mod 2 \<noteq> 0 \<or> 1 < chans \<and> length raw div 2 mod chans \<noteq> 0 then Inl (ValueError ''cannot reshape'')
        else let ws = (if 1 < chans then mix_down chans (pcm_words raw) else pcm_words raw) in
          Inr (\<lparr>nd_shape = [length ws], nd_data = map (\<lambda>w. real_of_int (sint w) / 32768) ws\<rparr>, int rate))"

section \<open>The round trip\<close>

lemma pcm_words_bytes: "pcm_words (pcm_bytes ws) = ws"
proof (induction ws)
  case (Cons w ws)
  have u: "unat w div 256 < 256" using unsigned_less [of w, where ?'a = nat] by (simp add: less_mult_imp_div_less)
  have "unat (word_of_nat (unat w mod 256) :: 8 word) = unat w mod 256"
    by (simp add: unat_of_nat take_bit_eq_mod)
  moreover have "unat (word_of_nat (unat w div 256 mod 256) :: 8 word) = unat w div 256"
    using u by (simp add: unat_of_nat take_bit_eq_mod)
  moreover have "unat w mod 256 + 256 * (unat w div 256) = unat w" by (rule mod_mult_div_eq)
  moreover have "le_bytes 2 (unat w) = [word_of_nat (unat w mod 256), word_of_nat (unat w div 256 mod 256)]"
    by (simp add: numeral_2_eq_2)
  ultimately show ?case using Cons by (simp add: pcm_bytes_def)
qed (simp add: pcm_bytes_def)

lemma pcm_bytes_length: "length (pcm_bytes ws) = 2 * length ws"
  by (simp add: pcm_bytes_def length_concat sum_list_triv comp_def)

lemma ascii_simps [simp]: "length (ascii s) = length s"
  by (simp add: ascii_def)

lemma ascii_names: "ascii ''fmt '' \<noteq> ascii ''data''"
  by (simp add: ascii_def)

lemma take_app: "length xs = n \<Longrightarrow> take n (xs @ ys) = xs" "length xs = n \<Longrightarrow> drop n (xs @ ys) = ys"
  by simp_all

lemma read_fmt_canonical:
  assumes "0 < rate" and "2 * rate < 2 ^ 32"
  shows "read_fmt (le_bytes 2 1 @ le_bytes 2 1 @ le_bytes 4 (nat rate) @ le_bytes 4 (nat (2 * rate)) @ le_bytes 2 2 @ le_bytes 2 16) =
    Inr (1, nat rate, 2)"
proof -
  have "of_le (le_bytes 4 (nat rate)) = nat rate" using assms by (intro of_le_bytes) simp
  moreover have "of_le (le_bytes 2 1) = 1" "of_le (le_bytes 2 16) = 16" by (simp_all add: of_le_bytes)
  ultimately show ?thesis by (simp add: read_fmt_def Let_def)
qed

lemma read_chunks_fmt:
  assumes "length b = n" and "even n" and "n < 2 ^ 32"
  shows "read_chunks f (ascii ''fmt '' @ le_bytes 4 n @ b @ rest) =
    (case read_fmt b of Inl e \<Rightarrow> Inl e | Inr fm \<Rightarrow> read_chunks (Some fm) rest)"
proof -
  have "of_le (le_bytes 4 n) = n" using assms(3) by (intro of_le_bytes) simp
  moreover have "drop (n + n mod 2) (b @ rest) = rest" using assms(1,2) by (simp add: mod_2_eq_odd)
  ultimately show ?thesis using assms(1)
    by (subst read_chunks.simps) (simp add: Let_def cong: sum.case_cong)
qed

lemma read_chunks_data:
  assumes "length b < 2 ^ 32" and "length b mod width = 0"
  shows "read_chunks (Some (chans, rate, width)) (ascii ''data'' @ le_bytes 4 (length b) @ b) = Inr (chans, rate, b)"
proof -
  have "of_le (le_bytes 4 (length b)) = length b" using assms(1) by (intro of_le_bytes) simp
  moreover have "length b div width * width = length b" using assms(2) by auto
  ultimately show ?thesis using ascii_names
    by (subst read_chunks.simps) (simp add: Let_def)
qed

lemma wave_open_file:
  assumes "wave_file rate snd16 = Inr b" and "even (length snd16)"
  shows "wave_open b = Inr (1, nat rate, snd16)"
proof -
  have r: "0 < rate" "36 + length snd16 < 2 ^ 32" "2 * rate < 2 ^ 32" using assms(1) by (auto simp: wave_file_def split: if_splits)
  define fm where "fm = le_bytes 2 1 @ le_bytes 2 1 @ le_bytes 4 (nat rate) @ le_bytes 4 (nat (2 * rate)) @ le_bytes 2 2 @ le_bytes 2 16"
  define body where "body = ascii ''WAVE'' @ ascii ''fmt '' @ le_bytes 4 16 @ fm @ ascii ''data'' @ le_bytes 4 (length snd16) @ snd16"
  have b: "b = ascii ''RIFF'' @ le_bytes 4 (36 + length snd16) @ body"
    using assms(1) r by (simp add: wave_file_def fm_def body_def)
  have len: "length body = 36 + length snd16" "length fm = 16" by (simp_all add: body_def fm_def)
  have "of_le (le_bytes 4 (36 + length snd16)) = 36 + length snd16" using r(2) by (intro of_le_bytes) simp
  then have "wave_open b = read_chunks None (drop 4 body)"
    unfolding b using len(1) by (simp add: wave_open_def Let_def) (simp add: body_def)
  also have "\<dots> = read_chunks None (ascii ''fmt '' @ le_bytes 4 16 @ fm @ ascii ''data'' @ le_bytes 4 (length snd16) @ snd16)"
    by (simp add: body_def)
  also have "\<dots> = read_chunks (Some (1, nat rate, 2)) (ascii ''data'' @ le_bytes 4 (length snd16) @ snd16)"
    using read_fmt_canonical [OF r(1,3)] len(2) by (subst read_chunks_fmt) (simp_all add: fm_def)
  also have "\<dots> = Inr (1, nat rate, snd16)"
    using r(2) assms(2) by (intro read_chunks_data) simp_all
  finally show ?thesis .
qed

text \<open>A value in the range of the type survives as a signed word.\<close>

lemma sint_in_range: "- 32768 \<le> n \<Longrightarrow> n \<le> 32767 \<Longrightarrow> sint (word_of_int n :: 16 word) = n"
  by (simp add: sint_sbintrunc' signed_take_bit_int_eq_self)

lemma py_trunc_bounds: "\<bar>of_int (py_trunc y) - y\<bar> < 1" "\<bar>of_int (py_trunc y)\<bar> \<le> \<bar>y\<bar>"
  by (cases "y < 0"; simp add: py_trunc_def; linarith)+

lemma clip_bounds: "- 1 \<le> clip_unit x \<and> clip_unit x \<le> 1"
  by (simp add: clip_unit_def)

lemma float_pcm: "sint (to_pcm16 True x) = py_trunc (clip_unit x * 32767)"
proof -
  have "\<bar>clip_unit x * 32767\<bar> \<le> 32767" using clip_bounds [of x] by (simp add: abs_mult abs_le_iff)
  then have "\<bar>real_of_int (py_trunc (clip_unit x * 32767))\<bar> \<le> 32767" using py_trunc_bounds(2) [of "clip_unit x * 32767"] by linarith
  then have "- 32768 \<le> py_trunc (clip_unit x * 32767)" "py_trunc (clip_unit x * 32767) \<le> 32767" by linarith+
  then show ?thesis by (simp add: to_pcm16_def sint_in_range)
qed

text \<open>C20: Speech survives the WAV format: what the synthesizer's decoder reads of a file the
  recognizer's encoder wrote is the same number of samples at the same rate, each the clipped
  sample scaled and truncated, so within two steps of 16 bits of it and never louder; and the
  encoder writes such a file for every positive rate and length the header can hold.\<close>

theorem wav_roundtrip:
  assumes "0 < rate" and "2 * rate < 2 ^ 32" and "36 + 2 * length (nd_data a) < 2 ^ 32"
  shows "\<exists>b ys. encode_wav True a rate = Inr b \<and> decode_wav b = Inr (\<lparr>nd_shape = [length (nd_data a)], nd_data = ys\<rparr>, rate) \<and>
    ys = map (\<lambda>x. real_of_int (py_trunc (clip_unit x * 32767)) / 32768) (nd_data a) \<and>
    list_all2 (\<lambda>x y. \<bar>y - clip_unit x\<bar> < 2 / 32768 \<and> \<bar>y\<bar> \<le> \<bar>clip_unit x\<bar>) (nd_data a) ys"
proof -
  let ?ws = "map (to_pcm16 True) (nd_data a)" and ?ys = "map (\<lambda>x. real_of_int (py_trunc (clip_unit x * 32767)) / 32768) (nd_data a)"
  have len: "length (pcm_bytes ?ws) = 2 * length (nd_data a)" by (simp add: pcm_bytes_length)
  obtain b where b: "wave_file rate (pcm_bytes ?ws) = Inr b"
    using assms by (simp add: wave_file_def len)
  have "wave_open b = Inr (1, nat rate, pcm_bytes ?ws)" by (rule wave_open_file [OF b]) (simp add: len)
  then have "decode_wav b = Inr (\<lparr>nd_shape = [length (nd_data a)], nd_data = ?ys\<rparr>, rate)"
    using assms(1) by (simp add: decode_wav_def len pcm_words_bytes float_pcm comp_def del: of_int_sint)
  moreover have "list_all2 (\<lambda>x y. \<bar>y - clip_unit x\<bar> < 2 / 32768 \<and> \<bar>y\<bar> \<le> \<bar>clip_unit x\<bar>) (nd_data a) ?ys"
  proof (rule list_all2_all_nthI)
    fix i assume i: "i < length (nd_data a)"
    let ?c = "clip_unit (nd_data a ! i)" and ?t = "real_of_int (py_trunc (clip_unit (nd_data a ! i) * 32767))"
    have t: "\<bar>?t - ?c * 32767\<bar> < 1" "\<bar>?t\<bar> \<le> \<bar>?c * 32767\<bar>" by (rule py_trunc_bounds)+
    have c: "- 1 \<le> ?c" "?c \<le> 1" using clip_bounds by auto
    have "\<bar>?t / 32768 - ?c\<bar> < 2 / 32768" using t(1) c by (simp add: abs_if field_simps split: if_splits)
    moreover have "\<bar>?t / 32768\<bar> \<le> \<bar>?c\<bar>" using t(2) by (simp add: abs_mult)
    ultimately show "\<bar>?ys ! i - ?c\<bar> < 2 / 32768 \<and> \<bar>?ys ! i\<bar> \<le> \<bar>?c\<bar>" using i by simp
  qed simp
  ultimately show ?thesis using b by (auto simp: encode_wav_def)
qed

theorem wav_roundtrip_witness:
  "\<exists>b. encode_wav True \<lparr>nd_shape = [2], nd_data = [1 / 2, - 3]\<rparr> 16000 = Inr b \<and>
     decode_wav b = Inr (\<lparr>nd_shape = [2], nd_data = [16383 / 32768, - 32767 / 32768]\<rparr>, 16000)"
proof -
  have "py_trunc (clip_unit (1 / 2) * 32767) = 16383" "py_trunc (clip_unit (- 3) * 32767) = - 32767"
    by (simp_all add: py_trunc_def clip_unit_def floor_unique)
  then show ?thesis using wav_roundtrip [of 16000 "\<lparr>nd_shape = [2], nd_data = [1 / 2, - 3]\<rparr>"] by auto
qed

end
