(* ===== verification/Speech_Backends.thy ===== *)
theory Speech_Backends
  imports Wave Catalog
begin

text \<open>
  The remote speech services: \<^verbatim>\<open>neudc/nn/backends/llm/\<close> (chat completions, whole or as a stream of
  server-sent events), \<^verbatim>\<open>asr/openai_compatible.py\<close> (transcription), \<^verbatim>\<open>tts/openai_compatible.py\<close> (speech),
  \<^verbatim>\<open>http_session.py\<close>, and \<^verbatim>\<open>from_config\<close> of the three nodes. An HTTP session is a record of calls; a
  response is a value: what \<^verbatim>\<open>raise_for_status\<close> raises, its JSON, its lines and how the lines end.
  JSON values are those of \<open>Config_Values\<close>, and \<^verbatim>\<open>json.loads\<close> is an argument.
\<close>

section \<open>HTTP\<close>

record retry_policy =
  retry_total :: int
  retry_backoff :: real
  retry_statuses :: "int list"
  retry_methods :: "string list"
  retry_raise_on_status :: bool

definition build_retrying_session :: "int \<Rightarrow> real \<Rightarrow> retry_policy" where
  "build_retrying_session n backoff = \<lparr>retry_total = n, retry_backoff = backoff, retry_statuses = [502, 503, 504],
     retry_methods = [''GET'', ''POST''], retry_raise_on_status = False\<rparr>"

record http_response =
  rs_status :: "exn option"          \<comment> \<open>what \<^verbatim>\<open>raise_for_status\<close> raises\<close>
  rs_json :: "exn + yaml"
  rs_content :: bytes
  rs_lines :: "string list"          \<comment> \<open>\<^verbatim>\<open>iter_lines\<close>, decoded as UTF-8\<close>
  rs_lines_end :: "exn option"       \<comment> \<open>a connection that breaks\<close>

type_synonym headers = "(string \<times> string) list"

record 'w http_session =
  post_json :: "string \<Rightarrow> yaml \<Rightarrow> headers \<Rightarrow> real \<Rightarrow> bool \<Rightarrow> ('w, http_response) io"
  post_file :: "string \<Rightarrow> bytes \<Rightarrow> raw_dict \<Rightarrow> headers \<Rightarrow> real \<Rightarrow> ('w, http_response) io"

definition raise_for_status :: "http_response \<Rightarrow> ('w, unit) io" where
  "raise_for_status r = (case rs_status r of None \<Rightarrow> ret () | Some e \<Rightarrow> raise e)"

text \<open>\<^verbatim>\<open>base_url.rstrip("/")\<close>, and a text that is missing or empty.\<close>

definition strip_slash :: "string \<Rightarrow> string" where
  "strip_slash s = rev (dropWhile (\<lambda>c. c = CHR ''/'') (rev s))"

definition given_text :: "string option \<Rightarrow> string option" where
  "given_text s = (if s = Some [] then None else s)"

definition bearer :: "string option \<Rightarrow> headers" where
  "bearer key = (case given_text key of None \<Rightarrow> [] | Some k \<Rightarrow> [(''Authorization'', ''Bearer '' @ k)])"

section \<open>Accesses to JSON\<close>

definition json_key :: "yaml \<Rightarrow> string \<Rightarrow> exn + yaml" where
  "json_key v k = (case v of YMap m \<Rightarrow> y_item m k | _ \<Rightarrow> Inl (TypeError ''indices must be integers''))"

definition json_first :: "yaml \<Rightarrow> exn + yaml" where
  "json_first v = (case v of
      YList (x # _) \<Rightarrow> Inr x
    | YList [] \<Rightarrow> Inl IndexError
    | YStr (c # _) \<Rightarrow> Inr (YStr [c])
    | YStr [] \<Rightarrow> Inl IndexError
    | YMap _ \<Rightarrow> Inl KeyError
    | _ \<Rightarrow> Inl (TypeError ''object is not subscriptable''))"

definition json_get :: "yaml \<Rightarrow> string \<Rightarrow> yaml \<Rightarrow> exn + yaml" where
  "json_get v k d = (case v of YMap m \<Rightarrow> Inr (y_get m k d) | _ \<Rightarrow> Inl (AttributeError ''get''))"

definition res_bind :: "exn + 'a \<Rightarrow> ('a \<Rightarrow> exn + 'b) \<Rightarrow> exn + 'b" where
  "res_bind r f = (case r of Inl e \<Rightarrow> Inl e | Inr x \<Rightarrow> f x)"

section \<open>Chat completions\<close>

record llm_client =
  lc_model :: string
  lc_base_url :: string
  lc_api_key :: "string option"
  lc_timeout :: real

definition new_openai :: "string \<Rightarrow> string option \<Rightarrow> string option \<Rightarrow> real \<Rightarrow> exn + llm_client" where
  "new_openai model url key timeout = (case given_text url of
      None \<Rightarrow> Inl (ValueError ''requires a base_url'')
    | Some u \<Rightarrow> Inr \<lparr>lc_model = model, lc_base_url = strip_slash u, lc_api_key = key, lc_timeout = timeout\<rparr>)"

definition new_openrouter :: "string option \<Rightarrow> string \<Rightarrow> string option \<Rightarrow> string option \<Rightarrow> real \<Rightarrow> exn + llm_client" where
  "new_openrouter env_key model url key timeout =
     (case given_text (case given_text key of None \<Rightarrow> env_key | Some k \<Rightarrow> Some k) of
        None \<Rightarrow> Inl (ValueError ''OpenRouterBackend requires an api_key'')
      | Some k \<Rightarrow> new_openai model (Some (case given_text url of None \<Rightarrow> ''https://openrouter.ai/api/v1'' | Some u \<Rightarrow> u)) (Some k) timeout)"

definition new_local :: "string \<Rightarrow> string option \<Rightarrow> string option \<Rightarrow> real \<Rightarrow> exn + llm_client" where
  "new_local model url key timeout =
     (if given_text url = None then Inl (ValueError ''LocalLLMBackend requires a base_url'') else new_openai model url key timeout)"

definition llm_headers :: "llm_client \<Rightarrow> headers" where
  "llm_headers c = (''Content-Type'', ''application/json'') # bearer (lc_api_key c)"

definition message_dict :: "chat_message \<Rightarrow> yaml" where
  "message_dict m = YMap [(''role'', YStr (role m)), (''content'', YStr (content m))]"

definition llm_payload :: "llm_client \<Rightarrow> chat_message list \<Rightarrow> real \<Rightarrow> int option \<Rightarrow> bool \<Rightarrow> yaml" where
  "llm_payload c ms t n stream = YMap ([(''model'', YStr (lc_model c)), (''messages'', YList (map message_dict ms)),
     (''temperature'', YFloat t), (''stream'', YBool stream)] @ (case n of None \<Rightarrow> [] | Some k \<Rightarrow> [(''max_tokens'', YInt k)]))"

definition post_chat :: "'w http_session \<Rightarrow> llm_client \<Rightarrow> chat_message list \<Rightarrow> real \<Rightarrow> int option \<Rightarrow> bool \<Rightarrow> ('w, http_response) io" where
  "post_chat H c ms t n stream =
     bnd (post_json H (lc_base_url c @ ''/chat/completions'') (llm_payload c ms t n stream) (llm_headers c) (lc_timeout c) stream) (\<lambda>r.
       seq (raise_for_status r) (ret r))"

definition reply_content :: "yaml \<Rightarrow> exn + yaml" where
  "reply_content d = res_bind (json_key d ''choices'') (\<lambda>cs. res_bind (json_first cs) (\<lambda>c.
     res_bind (json_key c ''message'') (\<lambda>m. json_key m ''content'')))"

definition llm_generate :: "'w http_session \<Rightarrow> llm_client \<Rightarrow> chat_message list \<Rightarrow> real \<Rightarrow> int option \<Rightarrow> ('w, yaml) io" where
  "llm_generate H c ms t n = bnd (post_chat H c ms t n False) (\<lambda>r. of_res (res_bind (rs_json r) reply_content))"

section \<open>Streaming\<close>

definition SSE_DATA_PREFIX :: string where
  "SSE_DATA_PREFIX = ''data: ''"

definition SSE_DONE_MARKER :: string where
  "SSE_DONE_MARKER = ''[DONE]''"

definition delta_content :: "yaml \<Rightarrow> exn + yaml" where
  "delta_content d = res_bind (json_key d ''choices'') (\<lambda>cs. res_bind (json_first cs) (\<lambda>c.
     res_bind (json_key c ''delta'') (\<lambda>x. json_get x ''content'' YNull)))"

text \<open>The loop over the lines up to the next \<^verbatim>\<open>yield\<close>, with the lines that are left, or to its end.\<close>

fun next_event :: "(string \<Rightarrow> yaml option) \<Rightarrow> exn option \<Rightarrow> string list \<Rightarrow> exn + (yaml \<times> string list) option" where
  "next_event json_loads fin [] = (case fin of None \<Rightarrow> Inr None | Some e \<Rightarrow> Inl e)"
| "next_event json_loads fin (l # ls) =
     (if \<not> starts_with SSE_DATA_PREFIX l then next_event json_loads fin ls
      else let d = py_strip (drop (length SSE_DATA_PREFIX) l) in
        if d = SSE_DONE_MARKER then Inr None
        else case json_loads d of
          None \<Rightarrow> next_event json_loads fin ls
        | Some chunk \<Rightarrow> (case delta_content chunk of
            Inl e \<Rightarrow> Inl e
          | Inr v \<Rightarrow> if y_truth v then Inr (Some (v, ls)) else next_event json_loads fin ls))"

text \<open>Where the generator is suspended: its body runs with the first \<^verbatim>\<open>next\<close>.\<close>

datatype stream_pos = Unsent "chat_message list" real "int option" | Reading "exn option" "string list"

definition stream_next :: "(string \<Rightarrow> yaml option) \<Rightarrow> 'w http_session \<Rightarrow> llm_client \<Rightarrow> stream_pos \<Rightarrow> ('w, (yaml \<times> stream_pos) option) io" where
  "stream_next json_loads H c g =
     bnd (case g of
         Unsent ms t n \<Rightarrow> bnd (post_chat H c ms t n True) (\<lambda>r. ret (rs_lines_end r, rs_lines r))
       | Reading fin ls \<Rightarrow> ret (fin, ls)) (\<lambda>(fin, ls).
     bnd (of_res (next_event json_loads fin ls)) (\<lambda>r. ret (map_option (\<lambda>(v, ls'). (v, Reading fin ls')) r)))"

text \<open>The backend as the node uses it. What is not a string in the place of a text, which the wire
  format excludes but for a null reply, is an error here.\<close>

definition text_value :: "yaml \<Rightarrow> exn + string" where
  "text_value v = (case v of YStr s \<Rightarrow> Inr s | _ \<Rightarrow> Inl (TypeError ''expected str instance''))"

definition openai_backend :: "(string \<Rightarrow> yaml option) \<Rightarrow> 'w http_session \<Rightarrow> llm_client \<Rightarrow> ('w, stream_pos) llm_backend" where
  "openai_backend json_loads H c = \<lparr>
     lb_generate = (\<lambda>ms t n. bnd (llm_generate H c ms t n) (\<lambda>v. of_res (text_value v))),
     lb_stream = Unsent,
     lb_next = (\<lambda>g. bnd (stream_next json_loads H c g) (\<lambda>r. case r of
        None \<Rightarrow> ret None
      | Some (v, g') \<Rightarrow> bnd (of_res (text_value v)) (\<lambda>s. ret (Some (s, g')))))\<rparr>"

section \<open>The configuration of a chat backend\<close>

datatype llm_provider = OPENROUTER | LOCAL

definition provider_of :: "yaml \<Rightarrow> llm_provider option" where
  "provider_of v = (if v = YStr ''OpenRouterBackend'' then Some OPENROUTER
     else if v = YStr ''LocalLLMBackend'' then Some LOCAL else None)"

record llm_config =
  lcf_provider :: llm_provider
  lcf_model_id :: string
  lcf_base_url :: "string option"
  lcf_api_key :: "string option"
  lcf_stream :: bool
  lcf_temperature :: real
  lcf_max_tokens :: "int option"
  lcf_timeout :: real

text \<open>The validation of \<^verbatim>\<open>LLMBackendConfig\<close>; other keys are ignored.\<close>

definition field_checked :: "('a \<Rightarrow> bool) \<Rightarrow> 'a option \<Rightarrow> 'a option" where
  "field_checked P v = (case v of None \<Rightarrow> None | Some x \<Rightarrow> if P x then Some x else None)"

definition parse_llm_config :: "pydantic \<Rightarrow> raw_dict \<Rightarrow> exn + llm_config" where
  "parse_llm_config V d =
     (case (Option.bind (dget d ''provider'') provider_of, Option.bind (dget d ''model_id'') (py_str V),
        field_of (opt_of (py_str V)) None d ''base_url'', field_of (opt_of (py_str V)) None d ''api_key'',
        field_of (py_bool V) False d ''stream'',
        field_checked (\<lambda>t. 0 \<le> t \<and> t \<le> 2) (field_of (py_float V) 0.7 d ''temperature''),
        field_checked (\<lambda>n. case n of None \<Rightarrow> True | Some k \<Rightarrow> 0 < k) (field_of (opt_of (py_int V)) None d ''max_tokens''),
        field_checked (\<lambda>t. 0 < t) (field_of (py_float V) 60 d ''timeout'')) of
       (Some p, Some m, Some u, Some k, Some s, Some t, Some n, Some w) \<Rightarrow>
         if p = LOCAL \<and> given_text u = None then Inl (ValueError ''base_url is required'')
         else Inr \<lparr>lcf_provider = p, lcf_model_id = m, lcf_base_url = u, lcf_api_key = k, lcf_stream = s,
           lcf_temperature = t, lcf_max_tokens = n, lcf_timeout = w\<rparr>
     | _ \<Rightarrow> Inl (ValueError ''validation error''))"

definition build_llm_backend :: "string option \<Rightarrow> llm_config \<Rightarrow> exn + llm_client" where
  "build_llm_backend env_key c = (case lcf_provider c of
      OPENROUTER \<Rightarrow> new_openrouter env_key (lcf_model_id c) (lcf_base_url c) (lcf_api_key c) (lcf_timeout c)
    | LOCAL \<Rightarrow> new_local (lcf_model_id c) (lcf_base_url c) (lcf_api_key c) (lcf_timeout c))"

text \<open>\<^verbatim>\<open>LlmNode.from_config\<close>: the client and the state of the node.\<close>

definition llm_from_config :: "pydantic \<Rightarrow> string option \<Rightarrow> raw_dict \<Rightarrow> exn + llm_client \<times> llm_config \<times> yaml" where
  "llm_from_config V env_key cfg = res_bind (y_item cfg ''llm_config'') (\<lambda>v. case v of
      YMap d \<Rightarrow> res_bind (parse_llm_config V d) (\<lambda>c. res_bind (build_llm_backend env_key c) (\<lambda>b.
        Inr (b, c, y_get cfg ''system_prompt'' YNull)))
    | _ \<Rightarrow> Inl (TypeError ''argument after ** must be a mapping''))"

section \<open>Transcription\<close>

record asr_client =
  ac_model :: string
  ac_language :: "string option"
  ac_threshold :: "real option"
  ac_base_url :: string
  ac_api_key :: "string option"
  ac_timeout :: real

definition new_asr_client :: "string \<Rightarrow> string option \<Rightarrow> real option \<Rightarrow> string option \<Rightarrow> string option \<Rightarrow> real \<Rightarrow> exn + asr_client" where
  "new_asr_client model lang threshold url key timeout = (case given_text url of
      None \<Rightarrow> Inl (ValueError ''requires a base_url'')
    | Some u \<Rightarrow> Inr \<lparr>ac_model = model, ac_language = lang, ac_threshold = threshold, ac_base_url = strip_slash u,
        ac_api_key = key, ac_timeout = timeout\<rparr>)"

definition json_number :: "yaml \<Rightarrow> exn + real" where
  "json_number v = (case v of YInt n \<Rightarrow> Inr (of_int n) | YFloat r \<Rightarrow> Inr r | YBool b \<Rightarrow> Inr (if b then 1 else 0)
     | _ \<Rightarrow> Inl (TypeError ''unsupported operand type''))"

fun sum_no_speech :: "yaml list \<Rightarrow> exn + real" where
  "sum_no_speech [] = Inr 0"
| "sum_no_speech (s # ss) = res_bind (json_get s ''no_speech_prob'' (YFloat 0)) (\<lambda>p. res_bind (json_number p) (\<lambda>x.
     res_bind (sum_no_speech ss) (\<lambda>t. Inr (x + t))))"

definition looks_like_silence :: "yaml \<Rightarrow> real \<Rightarrow> exn + bool" where
  "looks_like_silence payload threshold = res_bind (json_get payload ''segments'' YNull) (\<lambda>segs.
     if \<not> y_truth segs then Inr True
     else res_bind (y_iter segs) (\<lambda>l. res_bind (sum_no_speech l) (\<lambda>t. Inr (threshold < t / real (length l)))))"

definition asr_form :: "asr_client \<Rightarrow> raw_dict" where
  "asr_form c = [(''model'', YStr (ac_model c))] @
     (case given_text (ac_language c) of None \<Rightarrow> [] | Some l \<Rightarrow> [(''language'', YStr l)]) @
     (if ac_threshold c = None then [] else [(''response_format'', YStr ''verbose_json'')])"

text \<open>\<^verbatim>\<open>np.issubdtype(samples.dtype, np.floating)\<close> is the first argument.\<close>

definition transcribe :: "'w http_session \<Rightarrow> asr_client \<Rightarrow> bool \<Rightarrow> ndarray \<Rightarrow> int \<Rightarrow> ('w, yaml) io" where
  "transcribe H c floating a rate =
     bnd (of_res (encode_wav floating a rate)) (\<lambda>wav.
     bnd (post_file H (ac_base_url c @ ''/audio/transcriptions'') wav (asr_form c) (bearer (ac_api_key c)) (ac_timeout c)) (\<lambda>r.
     seq (raise_for_status r) (bnd (of_res (rs_json r)) (\<lambda>payload.
     bnd (of_res (case ac_threshold c of None \<Rightarrow> Inr False | Some t \<Rightarrow> looks_like_silence payload t)) (\<lambda>silent.
       if silent then ret (YStr []) else of_res (json_key payload ''text''))))))"

section \<open>Speech\<close>

record tts_client =
  tc_model :: string
  tc_voice :: "string option"
  tc_speed :: "real option"
  tc_base_url :: string
  tc_api_key :: "string option"
  tc_timeout :: real

definition new_tts_client :: "string \<Rightarrow> string option \<Rightarrow> real option \<Rightarrow> string option \<Rightarrow> string option \<Rightarrow> real \<Rightarrow> exn + tts_client" where
  "new_tts_client model voice speed url key timeout = (case given_text url of
      None \<Rightarrow> Inl (ValueError ''requires a base_url'')
    | Some u \<Rightarrow> Inr \<lparr>tc_model = model, tc_voice = voice, tc_speed = speed, tc_base_url = strip_slash u, tc_api_key = key,
        tc_timeout = timeout\<rparr>)"

definition tts_payload :: "tts_client \<Rightarrow> string \<Rightarrow> yaml" where
  "tts_payload c txt = YMap ([(''model'', YStr (tc_model c)), (''input'', YStr txt), (''response_format'', YStr ''wav'')] @
     (case given_text (tc_voice c) of None \<Rightarrow> [] | Some v \<Rightarrow> [(''voice'', YStr v)]) @
     (case tc_speed c of None \<Rightarrow> [] | Some s \<Rightarrow> [(''speed'', YFloat s)]))"

definition synthesize :: "'w http_session \<Rightarrow> tts_client \<Rightarrow> string \<Rightarrow> ('w, ndarray \<times> int) io" where
  "synthesize H c txt =
     bnd (post_json H (tc_base_url c @ ''/audio/speech'') (tts_payload c txt)
       ((''Content-Type'', ''application/json'') # bearer (tc_api_key c)) (tc_timeout c) False) (\<lambda>r.
     seq (raise_for_status r) (of_res (decode_wav (rs_content r))))"

section \<open>The nodes\<close>

text \<open>What \<^verbatim>\<open>from_config\<close> reads of \<^verbatim>\<open>asr_config\<close> and \<^verbatim>\<open>tts_config\<close>; the client wants a base URL.\<close>

definition remote_args :: "string \<Rightarrow> (string \<times> yaml) list \<Rightarrow> raw_dict \<Rightarrow> exn + raw_dict" where
  "remote_args key opt cfg = res_bind (y_item cfg key) (\<lambda>v. case v of
      YMap d \<Rightarrow> res_bind (read_args [''model_id'', ''base_url''] opt d) (\<lambda>a. res_bind (y_item a ''base_url'') (\<lambda>u.
        if \<not> y_truth u then Inl (ValueError ''requires a base_url'')
        else case u of YStr _ \<Rightarrow> Inr a | _ \<Rightarrow> Inl (AttributeError ''rstrip'')))
    | _ \<Rightarrow> Inl (TypeError ''object is not subscriptable''))"

definition asr_from_config :: "raw_dict \<Rightarrow> exn + raw_dict \<times> yaml" where
  "asr_from_config cfg = res_bind (remote_args ''asr_config'' [(''language'', YNull), (''no_speech_threshold'', YFloat 0.6),
     (''api_key'', YNull), (''timeout'', YFloat 60)] cfg) (\<lambda>a. Inr (a, y_get cfg ''min_speech_duration'' (YFloat 0.3)))"

definition tts_from_config :: "raw_dict \<Rightarrow> exn + raw_dict" where
  "tts_from_config = remote_args ''tts_config'' [(''voice'', YNull), (''speed'', YNull), (''api_key'', YNull), (''timeout'', YFloat 60)]"

section \<open>What a stream yields\<close>

text \<open>The reference: the data of the lines up to the end marker, and what each makes of the stream. An
  event without the expected fields fails it; a malformed one and one without content are passed
  over.\<close>

definition sse_data :: "string list \<Rightarrow> string list" where
  "sse_data ls = map (\<lambda>l. py_strip (drop (length SSE_DATA_PREFIX) l)) (filter (starts_with SSE_DATA_PREFIX) ls)"

definition sse_events :: "string list \<Rightarrow> string list" where
  "sse_events ls = takeWhile (\<lambda>d. d \<noteq> SSE_DONE_MARKER) (sse_data ls)"

definition sse_marked :: "string list \<Rightarrow> bool" where
  "sse_marked ls = (SSE_DONE_MARKER \<in> set (sse_data ls))"

definition event_delta :: "(string \<Rightarrow> yaml option) \<Rightarrow> string \<Rightarrow> exn + yaml" where
  "event_delta json_loads d = (case json_loads d of None \<Rightarrow> Inr YNull | Some chunk \<Rightarrow> delta_content chunk)"

definition event_read :: "(string \<Rightarrow> yaml option) \<Rightarrow> string \<Rightarrow> bool" where
  "event_read json_loads d = (case event_delta json_loads d of Inl _ \<Rightarrow> False | Inr _ \<Rightarrow> True)"

definition event_content :: "(string \<Rightarrow> yaml option) \<Rightarrow> string \<Rightarrow> yaml list" where
  "event_content json_loads d = (case event_delta json_loads d of Inl _ \<Rightarrow> [] | Inr v \<Rightarrow> if y_truth v then [v] else [])"

text \<open>What is yielded, and how it ends: by the first event that cannot be read, else by the marker, else
  with the connection.\<close>

definition stream_contents :: "(string \<Rightarrow> yaml option) \<Rightarrow> string list \<Rightarrow> yaml list" where
  "stream_contents json_loads ls = concat (map (event_content json_loads) (takeWhile (event_read json_loads) (sse_events ls)))"

definition stream_end :: "(string \<Rightarrow> yaml option) \<Rightarrow> exn option \<Rightarrow> string list \<Rightarrow> drain_end" where
  "stream_end json_loads fin ls = (case dropWhile (event_read json_loads) (sse_events ls) of
      d # _ \<Rightarrow> (case event_delta json_loads d of Inl e \<Rightarrow> drain_exn e | Inr _ \<Rightarrow> Exhausted)
    | [] \<Rightarrow> if sse_marked ls then Exhausted else (case fin of None \<Rightarrow> Exhausted | Some e \<Rightarrow> drain_exn e))"

text \<open>The whole request: a failed one and an error status end the stream before its first value.\<close>

definition reply_stream :: "(string \<Rightarrow> yaml option) \<Rightarrow> exn + http_response \<Rightarrow> drain_end \<times> yaml list" where
  "reply_stream json_loads reply = (case reply of
      Inl e \<Rightarrow> (drain_exn e, [])
    | Inr r \<Rightarrow> (case rs_status r of
        Some e \<Rightarrow> (drain_exn e, [])
      | None \<Rightarrow> (stream_end json_loads (rs_lines_end r) (rs_lines r), stream_contents json_loads (rs_lines r))))"

text \<open>The generator \<^verbatim>\<open>stream()\<close> itself, as its consumer steps it.\<close>

definition stream_gen :: "(string \<Rightarrow> yaml option) \<Rightarrow> 'w http_session \<Rightarrow> llm_client \<Rightarrow> ('w, stream_pos, yaml) generator" where
  "stream_gen json_loads H c = \<lparr>gen_start = (\<lambda>_. Unsent [] 0 None), gen_next = stream_next json_loads H c,
     gen_close = (\<lambda>_. ret ())\<rparr>"

text \<open>One step over the first line: it is skipped, ends the stream, fails it or is yielded.\<close>

lemma next_reading:
  "gen_next (stream_gen J H c) (Reading fin ls) w =
     (case next_event J fin ls of
        Inl e \<Rightarrow> (Inl e, w)
      | Inr None \<Rightarrow> (Inr None, w)
      | Inr (Some (v, ls')) \<Rightarrow> (Inr (Some (v, Reading fin ls')), w))"
  by (auto simp: stream_gen_def stream_next_def bnd_def split: sum.splits option.splits)

lemma drain_same_next:
  assumes "gen_next G g w = gen_next G h w'"
  shows "drain G None None g n acc w = drain G None None h n acc w'"
  by (subst (1 2) drain.simps) (simp add: assms)

lemma drain_skip:
  assumes "next_event J fin (l # ls) = next_event J fin ls"
  shows "drain (stream_gen J H c) None None (Reading fin (l # ls)) n acc w =
    drain (stream_gen J H c) None None (Reading fin ls) n acc w"
  by (rule drain_same_next) (simp only: next_reading assms)

lemma drain_yield:
  assumes "next_event J fin (l # ls) = Inr (Some (v, ls))"
  shows "drain (stream_gen J H c) None None (Reading fin (l # ls)) n acc w =
    drain (stream_gen J H c) None None (Reading fin ls) (Suc n) (acc @ [v]) w"
  by (subst drain.simps) (simp only: next_reading assms option.case sum.case prod.case if_False)

lemma drain_end:
  assumes "next_event J fin ls = Inr None"
  shows "drain (stream_gen J H c) None None (Reading fin ls) n acc w = Some ((Exhausted, n, acc), w)"
  by (subst drain.simps) (simp add: next_reading assms)

lemma drain_fail:
  assumes "next_event J fin ls = Inl e"
  shows "drain (stream_gen J H c) None None (Reading fin ls) n acc w = Some ((drain_exn e, n, acc), w)"
  by (subst drain.simps) (simp add: next_reading assms)

text \<open>The reference over the first line.\<close>

lemma sse_Cons:
  "\<not> starts_with SSE_DATA_PREFIX l \<Longrightarrow> sse_events (l # ls) = sse_events ls \<and> sse_marked (l # ls) = sse_marked ls"
  "starts_with SSE_DATA_PREFIX l \<Longrightarrow> py_strip (drop (length SSE_DATA_PREFIX) l) = SSE_DONE_MARKER \<Longrightarrow>
    sse_events (l # ls) = [] \<and> sse_marked (l # ls)"
  "starts_with SSE_DATA_PREFIX l \<Longrightarrow> py_strip (drop (length SSE_DATA_PREFIX) l) \<noteq> SSE_DONE_MARKER \<Longrightarrow>
    sse_events (l # ls) = py_strip (drop (length SSE_DATA_PREFIX) l) # sse_events ls \<and> sse_marked (l # ls) = sse_marked ls"
  by (auto simp: sse_events_def sse_marked_def sse_data_def)

lemma drain_lines:
  "drain (stream_gen J H c) None None (Reading fin ls) n acc w =
    Some ((stream_end J fin ls, n + length (stream_contents J ls), acc @ stream_contents J ls), w)"
proof (induction ls arbitrary: n acc)
  case Nil
  then show ?case
    by (cases fin) (simp_all add: drain_end drain_fail stream_end_def stream_contents_def sse_events_def sse_marked_def sse_data_def)
next
  case (Cons l ls)
  let ?d = "py_strip (drop (length SSE_DATA_PREFIX) l)"
  consider "\<not> starts_with SSE_DATA_PREFIX l" | "starts_with SSE_DATA_PREFIX l" "?d = SSE_DONE_MARKER"
    | "starts_with SSE_DATA_PREFIX l" "?d \<noteq> SSE_DONE_MARKER" by blast
  then show ?case
  proof cases
    case 1
    then show ?thesis using Cons by (simp add: drain_skip stream_end_def stream_contents_def sse_Cons(1))
  next
    case 2
    then show ?thesis by (simp add: drain_end stream_end_def stream_contents_def sse_Cons(2) Let_def)
  next
    case 3
    note ev = sse_Cons(3) [OF 3, of ls]
    show ?thesis
    proof (cases "event_delta J ?d")
      case (Inl e)
      then have "next_event J fin (l # ls) = Inl e"
        using 3 by (auto simp: Let_def event_delta_def split: option.splits)
      then show ?thesis
        using Inl ev by (simp add: drain_fail stream_end_def stream_contents_def event_read_def)
    next
      case (Inr v)
      have step: "stream_end J fin (l # ls) = stream_end J fin ls"
        "stream_contents J (l # ls) = event_content J ?d @ stream_contents J ls"
        using Inr ev by (simp_all add: stream_end_def stream_contents_def event_read_def)
      show ?thesis
      proof (cases "y_truth v")
        case False
        then have "next_event J fin (l # ls) = next_event J fin ls"
          using 3 Inr by (auto simp: Let_def event_delta_def split: option.splits)
        then show ?thesis using False Inr Cons.IH by (simp add: drain_skip step event_content_def)
      next
        case True
        then have "next_event J fin (l # ls) = Inr (Some (v, ls))"
          using 3 Inr by (auto simp: Let_def event_delta_def split: option.splits)
        then show ?thesis using True Inr Cons.IH by (simp add: drain_yield step event_content_def)
      qed
    qed
  qed
qed

text \<open>C21: Streaming a reply, read to its end, yields what the reference says of the response, whatever
  the response is. The generator sends one request. When the request fails or the response has an
  error status, that exception ends it and nothing was yielded. Otherwise it yields, in order and
  each once, the non-empty contents of the data lines before the end marker and before the first
  JSON event that lacks the expected fields; keep-alive and malformed lines and deltas without
  content yield nothing. It then ends by the exception of that event if there is one (also after a
  complete reply, as with a last chunk that has no choices), else normally at the marker, reading
  nothing after it, else with the lines: normally, or by the exception of a connection that breaks.\<close>

theorem stream_yields_contents:
  assumes "post_json H (lc_base_url c @ ''/chat/completions'') (llm_payload c ms t n True) (llm_headers c) (lc_timeout c) True w = (reply, w')"
    and "reply_stream J reply = (fate, contents)"
  shows "drain (stream_gen J H c) None None (Unsent ms t n) 0 [] w = Some ((fate, length contents, contents), w')"
proof -
  have first: "gen_next (stream_gen J H c) (Unsent ms t n) w = (case reply of
      Inl e \<Rightarrow> (Inl e, w')
    | Inr r \<Rightarrow> (case rs_status r of
        Some e \<Rightarrow> (Inl e, w')
      | None \<Rightarrow> gen_next (stream_gen J H c) (Reading (rs_lines_end r) (rs_lines r)) w'))"
    using assms(1)
    by (auto simp: stream_gen_def stream_next_def post_chat_def raise_for_status_def bnd_def seq_def split: sum.splits option.splits)
  show ?thesis
  proof (cases "\<exists>r. reply = Inr r \<and> rs_status r = None")
    case True
    then obtain r where r: "reply = Inr r" "rs_status r = None" by blast
    then have "drain (stream_gen J H c) None None (Unsent ms t n) 0 [] w =
        drain (stream_gen J H c) None None (Reading (rs_lines_end r) (rs_lines r)) 0 [] w'"
      using first by (intro drain_same_next) simp
    then show ?thesis using r assms(2) by (simp add: drain_lines reply_stream_def)
  next
    case False
    then obtain e where "gen_next (stream_gen J H c) (Unsent ms t n) w = (Inl e, w')" "(fate, contents) = (drain_exn e, [])"
      using first assms(2) by (auto simp: reply_stream_def split: sum.splits option.splits)
    then show ?thesis by (subst drain.simps) simp
  qed
qed

text \<open>A server that answers every request with the same stream; \<^verbatim>\<open>json.loads\<close> knows two texts.\<close>

definition sse_server :: "string list \<Rightarrow> nat http_session" where
  "sse_server ls = \<lparr>post_json = (\<lambda>_ _ _ _ _ w. (Inr \<lparr>rs_status = None, rs_json = Inl JSONDecodeError, rs_content = [], rs_lines = ls,
      rs_lines_end = Some (OtherException ''reset'')\<rparr>, Suc w)), post_file = (\<lambda>_ _ _ _ _. raise (OtherException []))\<rparr>"

definition hi_loads :: "string \<Rightarrow> yaml option" where
  "hi_loads d = (if d = ''{hi}'' then Some (YMap [(''choices'', YList [YMap [(''delta'', YMap [(''content'', YStr ''hi'')])]])])
     else if d = ''{usage}'' then Some (YMap [(''choices'', YList [])]) else None)"

definition demo_client :: llm_client where
  "demo_client = \<lparr>lc_model = ''m'', lc_base_url = ''http://h/v1'', lc_api_key = None, lc_timeout = 60\<rparr>"

definition demo_lines :: "string list" where
  "demo_lines = [''data: {hi}'', [], '': ping'', ''data: {x'', ''data: {usage}'', ''data: {hi}'', ''data: [DONE]'', ''data: {hi}'']"

lemma demo_reply:
  "reply_stream hi_loads (Inr \<lparr>rs_status = None, rs_json = Inl JSONDecodeError, rs_content = [], rs_lines = demo_lines,
     rs_lines_end = Some (OtherException ''reset'')\<rparr>) = (Failed IndexError, [YStr ''hi''])"
proof -
  have ev: "sse_events demo_lines = [''{hi}'', ''{x'', ''{usage}'', ''{hi}'']" 
    by (simp add: demo_lines_def sse_events_def sse_data_def SSE_DATA_PREFIX_def SSE_DONE_MARKER_def starts_with_def py_strip_def
        lstrip_def rstrip_def is_space_def code_def)
  show ?thesis
    by (simp add: reply_stream_def stream_end_def stream_contents_def ev event_read_def event_content_def event_delta_def
        hi_loads_def delta_content_def res_bind_def json_key_def json_first_def json_get_def y_item_def y_get_def drain_exn_def)
qed

theorem stream_yields_contents_witness:
  "drain (stream_gen hi_loads (sse_server demo_lines) demo_client) None None (Unsent [] 1 None) 0 [] 0 =
     Some ((Failed IndexError, 1, [YStr ''hi'']), 1)"
proof -
  have post: "post_json (sse_server demo_lines) (lc_base_url demo_client @ ''/chat/completions'') (llm_payload demo_client [] 1 None True)
      (llm_headers demo_client) (lc_timeout demo_client) True 0 =
    (Inr \<lparr>rs_status = None, rs_json = Inl JSONDecodeError, rs_content = [], rs_lines = demo_lines,
       rs_lines_end = Some (OtherException ''reset'')\<rparr>, 1)"
    by (simp add: sse_server_def)
  show ?thesis using stream_yields_contents [OF post demo_reply] by simp
qed

text \<open>A chunk without choices, such as the one some servers send last with the token counts, fails the
  generator after the whole reply was yielded.\<close>

lemma usage_chunk_breaks_stream:
  assumes "starts_with SSE_DATA_PREFIX l" and "J (py_strip (drop (length SSE_DATA_PREFIX) l)) = Some (YMap m)"
    and "dget m ''choices'' = Some (YList [])" and "py_strip (drop (length SSE_DATA_PREFIX) l) \<noteq> SSE_DONE_MARKER"
  shows "drain (stream_gen J H c) None None (Reading fin (l # ls)) n acc w = Some ((Failed IndexError, n, acc), w)"
proof -
  have "next_event J fin (l # ls) = Inl IndexError"
    using assms by (simp add: Let_def delta_content_def res_bind_def json_key_def json_first_def y_item_def)
  from drain_fail [OF this] show ?thesis by (simp add: drain_exn_def)
qed

text \<open>An accepted configuration names a backend that can be built, but for a missing key of the hosted
  provider, and its numbers are in range.\<close>

lemma checkedD: "field_checked P v = Some x \<Longrightarrow> P x"
  by (simp add: field_checked_def split: option.splits if_splits)

lemma new_openai_given: "given_text u \<noteq> None \<Longrightarrow> \<exists>b. new_openai m u k t = Inr b \<and> lc_model b = m \<and> lc_timeout b = t"
  by (auto simp: new_openai_def)

lemma accepted_llm_config_builds:
  assumes "parse_llm_config V d = Inr c"
  shows "0 \<le> lcf_temperature c \<and> lcf_temperature c \<le> 2 \<and> 0 < lcf_timeout c \<and> (case lcf_max_tokens c of None \<Rightarrow> True | Some n \<Rightarrow> 0 < n) \<and>
    (case build_llm_backend env_key c of
       Inr b \<Rightarrow> lc_model b = lcf_model_id c \<and> lc_timeout b = lcf_timeout c
     | Inl _ \<Rightarrow> lcf_provider c = OPENROUTER \<and> given_text (lcf_api_key c) = None \<and> given_text env_key = None)"
proof -
  obtain t n w where f: "field_checked (\<lambda>t. 0 \<le> t \<and> t \<le> 2) (field_of (py_float V) 0.7 d ''temperature'') = Some t"
    "field_checked (\<lambda>n. case n of None \<Rightarrow> True | Some k \<Rightarrow> 0 < k) (field_of (opt_of (py_int V)) None d ''max_tokens'') = Some n"
    "field_checked (\<lambda>t. 0 < t) (field_of (py_float V) 60 d ''timeout'') = Some w"
    and c: "lcf_temperature c = t" "lcf_max_tokens c = n" "lcf_timeout c = w" "lcf_provider c = LOCAL \<longrightarrow> given_text (lcf_base_url c) \<noteq> None"
    using assms unfolding parse_llm_config_def by (simp split: option.splits if_splits) auto
  have built: "case build_llm_backend env_key c of
       Inr b \<Rightarrow> lc_model b = lcf_model_id c \<and> lc_timeout b = lcf_timeout c
     | Inl _ \<Rightarrow> lcf_provider c = OPENROUTER \<and> given_text (lcf_api_key c) = None \<and> given_text env_key = None"
  proof (cases "lcf_provider c")
    case LOCAL
    then show ?thesis using c(4) new_openai_given [of "lcf_base_url c" "lcf_model_id c" "lcf_api_key c" "lcf_timeout c"]
      by (auto simp: build_llm_backend_def new_local_def)
  next
    case OPENROUTER
    let ?u = "Some (case given_text (lcf_base_url c) of None \<Rightarrow> ''https://openrouter.ai/api/v1'' | Some u \<Rightarrow> u)"
    let ?k = "case given_text (lcf_api_key c) of None \<Rightarrow> env_key | Some k \<Rightarrow> Some k"
    have u: "given_text ?u \<noteq> None" by (auto simp: given_text_def split: option.splits if_splits)
    show ?thesis
    proof (cases "given_text ?k")
      case None
      then have "given_text (lcf_api_key c) = None \<and> given_text env_key = None"
        by (auto simp: given_text_def split: if_splits option.splits)
      then show ?thesis using OPENROUTER None by (simp add: build_llm_backend_def new_openrouter_def)
    next
      case (Some k)
      obtain b where b: "new_openai (lcf_model_id c) ?u (Some k) (lcf_timeout c) = Inr b" "lc_model b = lcf_model_id c" "lc_timeout b = lcf_timeout c"
        using new_openai_given [OF u] by blast
      have "build_llm_backend env_key c = Inr b" using OPENROUTER Some b(1) by (simp add: build_llm_backend_def new_openrouter_def)
      then show ?thesis using b by simp
    qed
  qed
  then show ?thesis using checkedD [OF f(1)] checkedD [OF f(2)] checkedD [OF f(3)] c by simp
qed

end
