(* ===== verification/Launch.thy ===== *)
theory Launch
  imports Pipeline Service Speech_Backends
begin

text \<open>
  The launch scripts beside \<^verbatim>\<open>main.py\<close>: \<^verbatim>\<open>neudc/entrypoints/main_multipipe.py\<close>, which runs every pipe of a
  configuration as a process of the manager, and \<^verbatim>\<open>run_voice_assistant.py\<close>, which runs one pipeline with
  live audio devices in its own process. Command line parsing, printing and the start of the API
  server are not modelled; a device object is the number its constructor gives.
\<close>

section \<open>main_multipipe.py\<close>

text \<open>The variables the signal handler shares with \<^verbatim>\<open>main\<close>.\<close>

record 'p multipipe =
  is_stopping :: bool
  mp_manager :: "'p manager"

definition with_manager :: "('p manager \<times> 'w, 'a) io \<Rightarrow> ('p multipipe \<times> 'w, 'a) io" where
  "with_manager c = (\<lambda>(s, w). case c (mp_manager s, w) of (r, m, w') \<Rightarrow> (r, s\<lparr>mp_manager := m\<rparr>, w'))"

definition shutdown_handler :: "('p, 'w) process_api \<Rightarrow> ('p multipipe \<times> 'w, unit) io" where
  "shutdown_handler A = bnd self (\<lambda>s. if is_stopping s then ret ()
     else seq (on_self (\<lambda>s. s\<lparr>is_stopping := True\<rparr>))
       (for_each (dkeys (managed (mp_manager s))) (\<lambda>n. with_manager (stop_pipeline A n))))"

text \<open>One pipe: its keys are read outside the \<^verbatim>\<open>try\<close>, whatever goes wrong inside is logged. The name is
  a string and the task, if given, a mapping.\<close>

definition pipe_nodes :: "yaml \<Rightarrow> exn + raw_dict list" where
  "pipe_nodes v = (case v of
      YList l \<Rightarrow> (case all_some (\<lambda>x. case x of YMap d \<Rightarrow> Some d | _ \<Rightarrow> None) l of
        None \<Rightarrow> Inl (ValueError ''ConfigError'') | Some ns \<Rightarrow> Inr ns)
    | _ \<Rightarrow> Inl (ValueError ''ConfigError''))"

definition start_pipe :: "pydantic \<Rightarrow> (string \<Rightarrow> exn + unit) \<Rightarrow> ('p, 'w) process_api \<Rightarrow> raw_dict \<Rightarrow> ('p multipipe \<times> 'w, unit) io" where
  "start_pipe V imp A pipe =
     bnd (of_res (y_item pipe ''name'')) (\<lambda>nm. bnd (of_res (y_item pipe ''nodes'')) (\<lambda>nodes. bnd (of_res (text_value nm)) (\<lambda>name.
     catch_exn
       (bnd (of_res (pipe_nodes nodes)) (\<lambda>ns. seq (validate_nodes V imp ns)
          (with_manager (start_pipeline A name ns (case y_get pipe ''task'' (YMap []) of YMap t \<Rightarrow> Some t | _ \<Rightarrow> None)))))
       is_Exception (\<lambda>_. ret ()))))"

text \<open>The startup loop; the flag of a pipe tells that a signal arrives before its turn.\<close>

fun start_pipes :: "pydantic \<Rightarrow> (string \<Rightarrow> exn + unit) \<Rightarrow> ('p, 'w) process_api \<Rightarrow> (bool \<times> raw_dict) list \<Rightarrow> ('p multipipe \<times> 'w, unit) io" where
  "start_pipes V imp A [] = ret ()"
| "start_pipes V imp A ((signalled, pipe) # ps) =
     seq (if signalled then shutdown_handler A else ret ()) (seq (start_pipe V imp A pipe) (start_pipes V imp A ps))"

text \<open>The wait ends with the signal that runs the handler, at once when it ran before.\<close>

definition wait_for_signal :: "('p, 'w) process_api \<Rightarrow> ('p multipipe \<times> 'w, unit) io" where
  "wait_for_signal A = bnd self (\<lambda>s. if is_stopping s then ret () else shutdown_handler A)"

definition multipipe_main :: "pydantic \<Rightarrow> (string \<Rightarrow> exn + unit) \<Rightarrow> ('p, 'w) process_api \<Rightarrow> bool list \<Rightarrow> raw_dict \<Rightarrow> ('p multipipe \<times> 'w, unit) io" where
  "multipipe_main V imp A signals raw =
     (let pipes = y_get raw ''pipes'' (YList []) in
      if \<not> y_truth pipes then ret ()
      else bnd (of_res (y_iter pipes)) (\<lambda>l. bnd (map_io (\<lambda>x. of_res (raw_map x)) l) (\<lambda>ps.
        seq (start_pipes V imp A (zip signals ps)) (wait_for_signal A))))"

section \<open>run_voice_assistant.py\<close>

definition DEFAULT_CONFIG_NAME :: string where
  "DEFAULT_CONFIG_NAME = ''voice_assistant_pipeline.yaml''"

definition REMOTE_SERVICE_CONFIG_KEYS :: "string list" where
  "REMOTE_SERVICE_CONFIG_KEYS = [''asr_config'', ''llm_config'', ''tts_config'']"

text \<open>\<^verbatim>\<open>str.isdigit\<close> counts the superscript digits, which \<^verbatim>\<open>int\<close> refuses.\<close>

definition is_ascii_digit :: "char \<Rightarrow> bool" where
  "is_ascii_digit c = (48 \<le> code c \<and> code c \<le> 57)"

definition py_isdigit :: "string \<Rightarrow> bool" where
  "py_isdigit s = (s \<noteq> [] \<and> list_all (\<lambda>c. is_ascii_digit c \<or> code c \<in> {178, 179, 185}) s)"

definition py_int_of :: "string \<Rightarrow> exn + nat" where
  "py_int_of s = (if s \<noteq> [] \<and> list_all is_ascii_digit s then Inr (read_nat s) else Inl (ValueError ''invalid literal for int()''))"

definition default_config :: "string list \<Rightarrow> string" where
  "default_config configs = (if DEFAULT_CONFIG_NAME \<in> set configs then DEFAULT_CONFIG_NAME else hd configs)"

definition menu_choice :: "string list \<Rightarrow> string \<Rightarrow> exn + string" where
  "menu_choice configs choice =
     (if choice = [] \<or> \<not> py_isdigit choice then Inr (default_config configs)
      else res_bind (py_int_of choice) (\<lambda>k.
        Inr (if 1 \<le> k \<and> k \<le> length configs then configs ! (k - 1) else default_config configs)))"

text \<open>\<open>configs\<close> are the sorted names in the folder, \<open>ask\<close> is the answer typed at the prompt.\<close>

definition pick_config :: "string option \<Rightarrow> string list \<Rightarrow> bool \<Rightarrow> ('w, string) io \<Rightarrow> ('w, string) io" where
  "pick_config explicit configs tty ask = (case given_text explicit of
      Some p \<Rightarrow> ret p
    | None \<Rightarrow>
        if configs = [] then raise (OtherException ''SystemExit'')
        else if \<not> tty then ret (default_config configs)
        else bnd ask (\<lambda>s. of_res (menu_choice configs (py_strip s))))"

text \<open>\<open>get\<close> is the request with its status check, \<open>is_request\<close> the exceptions of \<^verbatim>\<open>requests\<close>. A failure
  is the node and the key it is reported under.\<close>

definition check_service :: "(string \<Rightarrow> ('w, unit) io) \<Rightarrow> (exn \<Rightarrow> bool) \<Rightarrow> raw_dict \<Rightarrow> string \<Rightarrow> ('w, (yaml \<times> string) list) io" where
  "check_service get is_request node key = (case dget node key of
      Some (YMap d) \<Rightarrow>
        if \<not> y_truth (y_get d ''base_url'' YNull) then ret []
        else bnd (of_res (y_item node ''id'')) (\<lambda>i. case y_get d ''base_url'' YNull of
            YStr u \<Rightarrow> catch_exn (seq (get (strip_slash u @ ''/models'')) (ret [])) is_request (\<lambda>_. ret [(i, key)])
          | _ \<Rightarrow> raise (AttributeError ''rstrip''))
    | _ \<Rightarrow> ret [])"

definition check_remote_services :: "(string \<Rightarrow> ('w, unit) io) \<Rightarrow> (exn \<Rightarrow> bool) \<Rightarrow> raw_dict list \<Rightarrow> ('w, (yaml \<times> string) list) io" where
  "check_remote_services get is_request nodes =
     bnd (map_io (\<lambda>n. bnd (map_io (check_service get is_request n) REMOTE_SERVICE_CONFIG_KEYS) (\<lambda>ls. ret (concat ls))) nodes)
       (\<lambda>ls. ret (concat ls))"

definition inject_device :: "(yaml \<Rightarrow> yaml \<Rightarrow> ('w, int) io) \<Rightarrow> ('w, int) io \<Rightarrow> raw_dict \<Rightarrow> ('w, raw_dict) io" where
  "inject_device new_mic new_speaker node =
     (if dget node ''type'' = Some (YStr ''AudioReaderNode'')
      then bnd (new_mic (y_get node ''sample_rate'' (YInt 16000)) (y_get node ''channels'' (YInt 1))) (\<lambda>d.
        seq (of_res (map_sum id (\<lambda>_. ()) (y_item node ''id''))) (ret (dset ''device'' (YInt d) node)))
      else if dget node ''type'' = Some (YStr ''AudioPlayerNode'')
      then bnd new_speaker (\<lambda>d. seq (of_res (map_sum id (\<lambda>_. ()) (y_item node ''id''))) (ret (dset ''device'' (YInt d) node)))
      else ret node)"

definition inject_audio_devices :: "(yaml \<Rightarrow> yaml \<Rightarrow> ('w, int) io) \<Rightarrow> ('w, int) io \<Rightarrow> raw_dict list \<Rightarrow> ('w, raw_dict list) io" where
  "inject_audio_devices new_mic new_speaker = map_io (inject_device new_mic new_speaker)"

text \<open>The registration loop: whether it succeeded before the deadline.\<close>

partial_function (option) register_loop :: "('w, real) io \<Rightarrow> ('w, unit) io \<Rightarrow> ('w, unit) io \<Rightarrow> (exn \<Rightarrow> bool) \<Rightarrow> real \<Rightarrow> 'w \<Rightarrow> ((exn + bool) \<times> 'w) option" where
  "register_loop clock post nap is_request deadline w = (case clock w of
      (Inl e, w1) \<Rightarrow> Some (Inl e, w1)
    | (Inr t, w1) \<Rightarrow>
        if deadline \<le> t then Some (Inr False, w1)
        else (case post w1 of
            (Inr _, w2) \<Rightarrow> Some (Inr True, w2)
          | (Inl e, w2) \<Rightarrow>
              if is_request e then (case nap w2 of
                  (Inl e, w3) \<Rightarrow> Some (Inl e, w3)
                | (Inr _, w3) \<Rightarrow> register_loop clock post nap is_request deadline w3)
              else Some (Inl e, w2)))"

definition register_with_dashboard :: "('w, real) io \<Rightarrow> ('w, unit) io \<Rightarrow> ('w, unit) io \<Rightarrow> (exn \<Rightarrow> bool) \<Rightarrow> 'w \<Rightarrow> ((exn + bool) \<times> 'w) option" where
  "register_with_dashboard clock post nap is_request w = (case clock w of
      (Inl e, w1) \<Rightarrow> Some (Inl e, w1)
    | (Inr t, w1) \<Rightarrow> register_loop clock post nap is_request (t + 30) w1)"

definition unregister_from_dashboard :: "('w, unit) io \<Rightarrow> (exn \<Rightarrow> bool) \<Rightarrow> ('w, unit) io" where
  "unregister_from_dashboard post is_request = catch_exn post is_request (\<lambda>_. ret ())"

text \<open>The nodes, each on the first mailbox of its entry.\<close>

definition voice_node :: "pydantic \<Rightarrow> (string \<Rightarrow> exn + unit) \<Rightarrow> (string \<Rightarrow> raw_dict \<Rightarrow> mailbox \<Rightarrow> ('w, 'n) io) \<Rightarrow> mailbox_map \<Rightarrow> raw_dict \<Rightarrow>
    ('w, 'n built_node) io" where
  "voice_node V imp from_config mbs cfg =
     bnd (of_res (raw_id cfg)) (\<lambda>nid. bnd (of_res (mailboxes_of mbs nid)) (\<lambda>l. case l of
       [] \<Rightarrow> raise IndexError
     | m # _ \<Rightarrow> create_node V imp from_config cfg m))"

text \<open>From the built nodes on: start, wait for the stop (three seconds of a smoke run, or the interrupt),
  stop, unregister; a smoke run fails when a node has failed.\<close>

definition voice_run :: "('w, 'n) life \<Rightarrow> bool \<Rightarrow> ('w, unit) io \<Rightarrow> ('w, unit) io \<Rightarrow> ('w, unit) io \<Rightarrow> 'n built_node list \<Rightarrow> ('w, unit) io" where
  "voice_run L smoke nap wait_stop unregister ns =
     seq (for_each ns (l_start L))
     (if smoke then seq nap (seq (stop_all L ns) (seq unregister
        (bnd (broken_nodes L ns) (\<lambda>failed. if failed \<noteq> [] then raise (OtherException ''SystemExit'') else ret ()))))
      else seq wait_stop (seq (stop_all L ns) unregister))"

record 'w voice_env =
  ve_load :: "string \<Rightarrow> ('w, yaml) io"
  ve_get :: "string \<Rightarrow> ('w, unit) io"
  ve_is_request :: "exn \<Rightarrow> bool"
  ve_mic :: "yaml \<Rightarrow> yaml \<Rightarrow> ('w, int) io"
  ve_speaker :: "('w, int) io"
  ve_start_api :: "('w, unit) io"
  ve_register :: "raw_dict list \<Rightarrow> ('w, unit) io"   \<comment> \<open>\<open>register_with_dashboard\<close>\<close>
  ve_unregister :: "('w, unit) io"

definition voice_main :: "pydantic \<Rightarrow> (string \<Rightarrow> exn + unit) \<Rightarrow> (string \<Rightarrow> raw_dict \<Rightarrow> mailbox \<Rightarrow> ('w, 'n) io) \<Rightarrow> 'w zmq_lib \<Rightarrow>
    ('w, 'n) life \<Rightarrow> 'w voice_env \<Rightarrow> ('w, unit) io \<Rightarrow> ('w, unit) io \<Rightarrow> bool \<Rightarrow> bool \<Rightarrow> bool \<Rightarrow> string \<Rightarrow> ('w, unit) io" where
  "voice_main V imp from_config Z L E nap wait_stop smoke skip_health_check no_api path =
     bnd (ve_load E path) (\<lambda>raw. case validate_pipeline_config V imp raw of
        Inl _ \<Rightarrow> raise (ValueError ''ConfigError'')
      | Inr _ \<Rightarrow>
          bnd (bnd (ve_load E path) raw_nodes) (\<lambda>display.
          bnd (raw_nodes raw) (\<lambda>cfgs.
          bnd (if skip_health_check then ret [] else check_remote_services (ve_get E) (ve_is_request E) cfgs) (\<lambda>failures.
          if failures \<noteq> [] then raise (OtherException ''SystemExit'')
          else bnd (inject_audio_devices (ve_mic E) (ve_speaker E) cfgs) (\<lambda>cfgs.
          bnd (create_mailboxes Z cfgs) (\<lambda>mbs.
          bnd (map_io (voice_node V imp from_config mbs) cfgs) (\<lambda>ns.
          seq (if no_api then ret () else seq (ve_start_api E) (ve_register E display))
            (voice_run L smoke nap wait_stop (if no_api then ret () else ve_unregister E) ns))))))))"

section \<open>Shutting down the pipes\<close>

lemma stop_pipeline_Inr:
  assumes "stop_pipeline A n (m, w) = (Inr (), m', w')"
  shows "m' = m\<lparr>managed := ddel n (managed m)\<rparr>"
proof (cases "dget (managed m) n")
  case None
  then show ?thesis using assms by (simp add: stop_pipeline_def bnd_def)
next
  case (Some p)
  let ?m = "m\<lparr>managed := ddel n (managed m)\<rparr>"
  obtain r1 w1 where 1: "pa_stop_event A p w = (r1, w1)" by (rule prod.exhaust)
  obtain r2 w2 where 2: "pa_join A p w1 = (r2, w2)" by (rule prod.exhaust)
  obtain r3 w3 where 3: "pa_alive A p w2 = (r3, w3)" by (rule prod.exhaust)
  obtain r4 w4 where 4: "pa_terminate A p w3 = (r4, w4)" by (rule prod.exhaust)
  show ?thesis using assms Some 1 2 3 4
    by (cases r1; cases r2; cases r3; cases r4) (auto simp: stop_pipeline_def bnd_def seq_def split: if_splits)
qed

lemma with_manager_Inr: "with_manager c (s, w) = (Inr x, s', w') \<longleftrightarrow> (\<exists>m. c (mp_manager s, w) = (Inr x, m, w') \<and> s' = s\<lparr>mp_manager := m\<rparr>)"
  by (auto simp: with_manager_def split: prod.splits)

lemma stop_each_Inr:
  assumes "for_each ns (\<lambda>n. with_manager (stop_pipeline A n)) (s, w) = (Inr (), s', w')"
  shows "managed (mp_manager s') = fold ddel ns (managed (mp_manager s)) \<and> is_stopping s' = is_stopping s"
  using assms
proof (induction ns arbitrary: s w)
  case (Cons n ns)
  then obtain s1 w1 where 1: "with_manager (stop_pipeline A n) (s, w) = (Inr (), s1, w1)"
    "for_each ns (\<lambda>n. with_manager (stop_pipeline A n)) (s1, w1) = (Inr (), s', w')"
    by (auto simp: bnd_Inr_iff)
  then obtain m where "stop_pipeline A n (mp_manager s, w) = (Inr (), m, w1)" "s1 = s\<lparr>mp_manager := m\<rparr>"
    by (auto simp: with_manager_Inr)
  then show ?case using Cons.IH [OF 1(2)] stop_pipeline_Inr by fastforce
qed simp

lemma fold_ddel_all: "set (dkeys d) \<subseteq> set ns \<Longrightarrow> fold ddel ns d = []"
proof (induction ns arbitrary: d)
  case (Cons n ns)
  have "set (dkeys (ddel n d)) \<subseteq> set ns" using Cons.prems by (auto simp: dkeys_ddel)
  then show ?case using Cons.IH by simp
qed (simp add: dkeys_def)

lemma shutdown_empties:
  assumes "shutdown_handler A (s, w) = (Inr (), s', w')" and "\<not> is_stopping s"
  shows "managed (mp_manager s') = [] \<and> is_stopping s'"
proof -
  have "for_each (dkeys (managed (mp_manager s))) (\<lambda>n. with_manager (stop_pipeline A n)) (s\<lparr>is_stopping := True\<rparr>, w) = (Inr (), s', w')"
    using assms by (simp add: shutdown_handler_def bnd_def seq_def)
  from stop_each_Inr [OF this] show ?thesis by (simp add: fold_ddel_all)
qed

lemma start_pipe_keeps_flag:
  assumes "start_pipe V imp A pipe (s, w) = (r, s', w')"
  shows "is_stopping s' = is_stopping s"
proof -
  have v: "\<exists>x. validate_nodes V imp ns (s, w) = (x, s, w)" for ns
    using validate_nodes_eq [of V imp ns] by metis
  have wm: "with_manager c (s, w) = (x, t, v) \<Longrightarrow> is_stopping t = is_stopping s" for c :: "('a manager \<times> 'b, unit) io" and x t v
    by (auto simp: with_manager_def split: prod.splits)
  show ?thesis
    using assms v wm
    by (auto simp: start_pipe_def catch_exn_def bnd_def seq_def of_res_def split: sum.splits prod.splits if_splits) (metis Pair_inject)+
qed

lemma start_pipes_quiet:
  assumes "start_pipes V imp A (map (Pair False) ps) (s, w) = (r, s', w')"
  shows "is_stopping s' = is_stopping s"
  using assms
proof (induction ps arbitrary: s w)
  case (Cons p ps)
  obtain r1 s1 w1 where 1: "start_pipe V imp A p (s, w) = (r1, s1, w1)" by (metis prod.exhaust)
  have f: "is_stopping s1 = is_stopping s" by (rule start_pipe_keeps_flag [OF 1])
  show ?case
  proof (cases r1)
    case (Inl e)
    then show ?thesis using Cons.prems 1 f by (simp add: seq_def bnd_def)
  next
    case (Inr u)
    then have "start_pipes V imp A (map (Pair False) ps) (s1, w1) = (r, s', w')" using Cons.prems 1 by (simp add: seq_def bnd_def)
    from Cons.IH [OF this] f show ?thesis by simp
  qed
qed simp

text \<open>C24: When the signal comes after the startup, nothing is left running: whichever of the pipes could
  be started, when the program then ends the manager has been told to stop every one it held and
  holds none.\<close>

theorem shutdown_stops_every_pipe:
  assumes "start_pipes V imp A (map (Pair False) ps) (\<lparr>is_stopping = False, mp_manager = new_manager\<rparr>, w) = (Inr (), s1, w1)"
    and "wait_for_signal A (s1, w1) = (Inr (), s2, w2)"
  shows "managed (mp_manager s2) = [] \<and> is_stopping s2 \<and>
    for_each (dkeys (managed (mp_manager s1))) (\<lambda>n. with_manager (stop_pipeline A n)) (s1\<lparr>is_stopping := True\<rparr>, w1) = (Inr (), s2, w2)"
proof -
  have n: "\<not> is_stopping s1" using start_pipes_quiet [OF assms(1)] by simp
  have h: "shutdown_handler A (s1, w1) = (Inr (), s2, w2)"
    using assms(2) n by (simp add: wait_for_signal_def bnd_def)
  then have "for_each (dkeys (managed (mp_manager s1))) (\<lambda>n. with_manager (stop_pipeline A n)) (s1\<lparr>is_stopping := True\<rparr>, w1) = (Inr (), s2, w2)"
    using n by (simp add: shutdown_handler_def bnd_def seq_def)
  then show ?thesis using shutdown_empties [OF h n] by simp
qed

definition demo_pipe :: raw_dict where
  "demo_pipe = [(''name'', YStr ''p''), (''nodes'', YList (map YMap (demo_cfgs (YInt 1))))]"

lemma demo_nodes_valid: "nodes_valid strict_pydantic (\<lambda>_. Inr ()) (demo_cfgs (YInt 1))"
  using demo_accepted [OF strict_pydantic_ok, of "YInt 1" 1] by (simp add: nodes_valid_def demo_raw_def strict_pydantic_def)

lemma demo_pipe_started:
  assumes "\<not> name_taken ''p'' (mp_manager s)"
    and "launch_pipeline A ''p'' (demo_cfgs (YInt 1)) (Some []) (mp_manager s, w) = (Inr (), m, w')"
  shows "start_pipe strict_pydantic (\<lambda>_. Inr ()) A demo_pipe (s, w) = (Inr (), s\<lparr>mp_manager := m\<rparr>, w')"
proof -
  have "all_some (\<lambda>x. case x of YMap d \<Rightarrow> Some d | _ \<Rightarrow> None) (map YMap ns) = Some ns" for ns by (induction ns) simp_all
  then have "pipe_nodes (YList (map YMap (demo_cfgs (YInt 1)))) = Inr (demo_cfgs (YInt 1))" by (simp add: pipe_nodes_def)
  moreover have "start_pipeline A ''p'' (demo_cfgs (YInt 1)) (Some []) (mp_manager s, w) = (Inr (), m, w')"
    using assms by (simp add: start_pipeline_def seq_def bnd_def check_free_eq)
  ultimately show ?thesis
    by (simp add: validate_nodes_eq(1) [OF demo_nodes_valid] start_pipe_def demo_pipe_def y_item_def y_get_def text_value_def
        catch_exn_def bnd_def seq_def with_manager_def)
qed

theorem shutdown_stops_every_pipe_witness:
  "\<exists>s1 s2. start_pipes strict_pydantic (\<lambda>_. Inr ()) demo_processes [(False, demo_pipe)] (\<lparr>is_stopping = False, mp_manager = new_manager\<rparr>, []) = (Inr (), s1, [0]) \<and>
     dkeys (managed (mp_manager s1)) = [''p''] \<and> wait_for_signal demo_processes (s1, [0]) = (Inr (), s2, []) \<and> managed (mp_manager s2) = []"
proof -
  let ?s = "\<lparr>is_stopping = False, mp_manager = new_manager :: nat manager\<rparr>" and ?m = "\<lparr>managed = [(''p'', 0 :: nat)], external_pipelines = []\<rparr>"
  have "launch_pipeline demo_processes ''p'' (demo_cfgs (YInt 1)) (Some []) (mp_manager ?s, []) = (Inr (), ?m, [0])"
    by (simp add: launch_pipeline_def demo_processes_def bnd_def seq_def new_manager_def)
  from demo_pipe_started [OF _ this] have 1: "start_pipes strict_pydantic (\<lambda>_. Inr ()) demo_processes [(False, demo_pipe)] (?s, []) = (Inr (), ?s\<lparr>mp_manager := ?m\<rparr>, [0])"
    by (simp add: name_taken_def new_manager_def dkeys_def bnd_def seq_def)
  have 2: "wait_for_signal demo_processes (?s\<lparr>mp_manager := ?m\<rparr>, [0]) =
      (Inr (), ?s\<lparr>is_stopping := True, mp_manager := ?m\<lparr>managed := []\<rparr>\<rparr>, [])"
    by (simp add: wait_for_signal_def shutdown_handler_def stop_pipeline_def with_manager_def demo_processes_def bnd_def seq_def dkeys_def)
  have "start_pipes strict_pydantic (\<lambda>_. Inr ()) demo_processes (map (Pair False) [demo_pipe]) (?s, []) = (Inr (), ?s\<lparr>mp_manager := ?m\<rparr>, [0])"
    using 1 by simp
  from shutdown_stops_every_pipe [OF this 2] 1 2 show ?thesis by (auto simp: dkeys_def)
qed

text \<open>A signal during the startup leaks what is started after it: the handler stops the pipes the
  manager holds, but the startup loop goes on, and the wait ends at once because a signal was
  handled, so a pipe of a valid entry with a free name is started, kept and never stopped.\<close>

theorem signal_during_startup_leaks:
  assumes "is_stopping s" and "dget pipe ''name'' = Some (YStr n)" and "dget pipe ''nodes'' = Some (YList (map YMap ns))"
    and "dget pipe ''task'' = None" and "nodes_valid V imp ns" and "\<not> name_taken n (mp_manager s)"
    and "launch_pipeline A n ns (Some []) (mp_manager s, w) = (Inr (), m, w')"
  shows "seq (start_pipes V imp A [(False, pipe)]) (wait_for_signal A) (s, w) = (Inr (), s\<lparr>mp_manager := m\<rparr>, w') \<and>
    n \<in> set (dkeys (managed m))"
proof -
  have "all_some (\<lambda>x. case x of YMap d \<Rightarrow> Some d | _ \<Rightarrow> None) (map YMap ns) = Some ns" by (induction ns) simp_all
  then have nodes: "pipe_nodes (YList (map YMap ns)) = Inr ns" by (simp add: pipe_nodes_def)
  have "start_pipeline A n ns (Some []) (mp_manager s, w) = (Inr (), m, w')"
    using assms(6,7) by (simp add: start_pipeline_def seq_def bnd_def check_free_eq)
  then have "start_pipe V imp A pipe (s, w) = (Inr (), s\<lparr>mp_manager := m\<rparr>, w')"
    using assms(2-4) nodes
    by (simp add: validate_nodes_eq(1) [OF assms(5)] start_pipe_def y_item_def y_get_def text_value_def catch_exn_def bnd_def seq_def with_manager_def)
  moreover obtain p where "m = (mp_manager s)\<lparr>managed := dset n p (managed (mp_manager s))\<rparr>"
    using assms(7) by (rule launch_okE)
  ultimately show ?thesis using assms(1) by (simp add: seq_def bnd_def wait_for_signal_def dkeys_dset)
qed

theorem signal_during_startup_leaks_witness:
  "\<exists>s'. seq (start_pipes strict_pydantic (\<lambda>_. Inr ()) demo_processes [(False, demo_pipe)]) (wait_for_signal demo_processes)
     (\<lparr>is_stopping = True, mp_manager = new_manager\<rparr>, []) = (Inr (), s', [0]) \<and> ''p'' \<in> set (dkeys (managed (mp_manager s')))"
proof -
  let ?s = "\<lparr>is_stopping = True, mp_manager = new_manager :: nat manager\<rparr>" and ?m = "\<lparr>managed = [(''p'', 0 :: nat)], external_pipelines = []\<rparr>"
  have "launch_pipeline demo_processes ''p'' (demo_cfgs (YInt 1)) (Some []) (mp_manager ?s, []) = (Inr (), ?m, [0])"
    by (simp add: launch_pipeline_def demo_processes_def bnd_def seq_def new_manager_def)
  from signal_during_startup_leaks [OF _ _ _ _ demo_nodes_valid _ this, of demo_pipe] show ?thesis
    by (auto simp: demo_pipe_def name_taken_def new_manager_def dkeys_def)
qed

section \<open>The run of the voice assistant\<close>

text \<open>When the calls work, every node is started, then after the wait every one is stopped, in the same
  order, and the dashboard entry is removed last.\<close>

lemma voice_run_lifecycle:
  assumes "\<And>n w. l_start L n w = (Inr (), st n w)" and "\<And>n w. l_stop L n w = (Inr (), sp n w)"
    and "\<And>w. wait_stop w = (Inr (), wt w)" and "\<And>w. unregister w = (Inr (), un w)"
  shows "voice_run L False nap wait_stop unregister ns w = (Inr (), un (fold sp ns (wt (fold st ns w))))"
  by (simp add: voice_run_def seq_def bnd_def stop_all_def for_each_fold [of "l_start L" st, OF assms(1)]
      for_each_fold [of "l_stop L" sp, OF assms(2)] assms(3,4))

text \<open>A node that fails to start ends the program with the nodes before it running.\<close>

lemma voice_failed_start:
  assumes "\<And>n w. n \<in> set ns \<Longrightarrow> l_start L n w = (Inr (), st n w)" and "l_start L m (fold st ns w) = (Inl e, w')"
  shows "voice_run L smoke nap wait_stop unregister (ns @ m # ms) w = (Inl e, w')"
proof -
  have "for_each ns (l_start L) w = (Inr (), fold st ns w)"
    using assms(1) by (induction ns arbitrary: w) (simp_all add: bnd_def)
  then have "for_each (ns @ m # ms) (l_start L) w = (Inl e, w')"
    using assms(2) by (simp add: for_each_append bnd_def seq_def)
  then show ?thesis by (simp add: voice_run_def seq_def bnd_def)
qed

text \<open>The registration gives up at the latest when the deadline has passed, if the clock advances while
  the loop sleeps.\<close>

lemma register_loop_ends:
  assumes "\<And>v. clock v = (Inr (now v), v)" and "\<And>v. now v \<le> now (snd (post v))" and "\<And>v. now v + 1 / 5 \<le> now (snd (nap v))"
  shows "\<exists>r. register_loop clock post nap is_request deadline w = Some r"
proof (induction "nat \<lceil>5 * (deadline - now w)\<rceil>" arbitrary: w rule: less_induct)
  case less
  obtain r1 w1 where 1: "post w = (r1, w1)" by (rule prod.exhaust)
  obtain r2 w2 where 2: "nap w1 = (r2, w2)" by (rule prod.exhaust)
  show ?case
  proof (cases "deadline \<le> now w")
    case True
    then show ?thesis by (subst register_loop.simps) (simp add: assms(1))
  next
    case False
    have "now w + 1 / 5 \<le> now w2" using assms(2) [of w] assms(3) [of w1] 1 2 by simp
    then have "\<lceil>5 * (deadline - now w2)\<rceil> \<le> \<lceil>5 * (deadline - now w) - 1\<rceil>" by (intro ceiling_mono) argo
    then have "\<lceil>5 * (deadline - now w2)\<rceil> < \<lceil>5 * (deadline - now w)\<rceil>" by simp
    moreover have "0 < \<lceil>5 * (deadline - now w)\<rceil>" using False by simp
    ultimately have "nat \<lceil>5 * (deadline - now w2)\<rceil> < nat \<lceil>5 * (deadline - now w)\<rceil>" by simp
    then obtain r where "register_loop clock post nap is_request deadline w2 = Some r" using less.hyps by blast
    then show ?thesis
      using 1 2 False by (subst register_loop.simps) (cases r1; cases r2; simp add: assms(1))
  qed
qed

text \<open>However many mailboxes an entry has, one node is built for it, on the first of them.\<close>

lemma voice_one_node_per_entry:
  assumes "map_io (voice_node V imp from_config mbs) cfgs w = (Inr ns, w')"
  shows "length ns = length cfgs"
  using assms by (induction cfgs arbitrary: ns w) (auto simp: bnd_Inr_iff)

end
