(* ===== verification/Classifiers.thy ===== *)
theory Classifiers
  imports Zero_Queue Messages
begin

text \<open>
  \<^verbatim>\<open>neudc/nn/models/cls/\<close>: the features of image blocks the blur classifier works on
  (\<^verbatim>\<open>feature_extractor.py\<close>), the classifier (\<^verbatim>\<open>blur_model.py\<close>) and the embedding model
  (\<^verbatim>\<open>embedding_model.py\<close>). A gray image is the list of its rows. The calls of \<^verbatim>\<open>cv2\<close>, \<^verbatim>\<open>skimage\<close>,
  \<^verbatim>\<open>torchvision\<close> and the backend are arguments; plotting and warm-up are in \<open>Plots\<close>.
\<close>

section \<open>Frequency bands\<close>

type_synonym mat = "real list list"

definition BLOCK_SIZE :: nat where
  "BLOCK_SIZE = 32"

text \<open>\<^verbatim>\<open>__dctmtx\<close>.\<close>

definition dctmtx :: "nat \<Rightarrow> mat" where
  "dctmtx n = map (\<lambda>r. map (\<lambda>c.
     let v = sqrt (2 / real n) * cos (pi * ((2 * real c + 1) * real r) / (2 * real n)) in
     if r = 0 then v / sqrt 2 else v) [0..<n]) [0..<n]"

text \<open>\<^verbatim>\<open>__compute_frequency_bands\<close>: the band of row \<open>r\<close> and column \<open>c\<close> after the two loops and the
  last assignment. A negative bound of a slice counts from the end.\<close>

definition in_slice :: "nat \<Rightarrow> int \<Rightarrow> int \<Rightarrow> nat \<Rightarrow> bool" where
  "in_slice n lo hi r = ((if lo < 0 then max 0 (int n + lo) else lo) \<le> int r \<and> int r < (if hi < 0 then int n + hi else hi))"

definition band_one :: "nat \<Rightarrow> nat \<Rightarrow> nat \<Rightarrow> bool" where
  "band_one n r c = in_slice n 0 (max 0 (py_trunc ((real n - 1) / 2 - real c + 1))) r"

definition band_two :: "nat \<Rightarrow> nat \<Rightarrow> nat \<Rightarrow> bool" where
  "band_two n r c =
     (if real n - (real n - 1) / 2 - real c \<le> 0 then in_slice n 0 (int n - int c - 1) r
      else in_slice n (py_trunc (real n - (real n - 1) / 2 - real c - 1)) (int n - int c - 1) r)"

definition freq_band :: "nat \<Rightarrow> nat \<Rightarrow> nat \<Rightarrow> nat" where
  "freq_band n r c = (if r = 0 \<and> c = 0 then 3 else if band_two n r c then 2 else if band_one n r c then 1 else 0)"

definition high_positions :: "nat \<Rightarrow> (nat \<times> nat) list" where
  "high_positions n = concat (map (\<lambda>r. map (Pair r) (filter (\<lambda>c. freq_band n r c = 0) [0..<n])) [0..<n])"

section \<open>Blocks and their features\<close>

definition mat_mul :: "mat \<Rightarrow> mat \<Rightarrow> mat" where
  "mat_mul a b = map (\<lambda>r. map (\<lambda>c. sum_list (map2 (*) r c)) (transpose b)) a"

definition single_resolution_features :: "mat \<Rightarrow> real list" where
  "single_resolution_features block =
     (let d = dctmtx BLOCK_SIZE; coeff = map (map abs) (mat_mul (mat_mul d block) (transpose d)) in
      sort (map (\<lambda>(r, c). coeff ! r ! c) (high_positions BLOCK_SIZE)))"

definition mat_cols :: "mat \<Rightarrow> nat" where
  "mat_cols m = (case m of [] \<Rightarrow> 0 | r # _ \<Rightarrow> length r)"

definition block_at :: "mat \<Rightarrow> nat \<Rightarrow> nat \<Rightarrow> mat" where
  "block_at m i j = map (\<lambda>r. take BLOCK_SIZE (drop j r)) (take BLOCK_SIZE (drop i m))"

definition is_image_block_valid :: "mat \<Rightarrow> nat \<Rightarrow> nat \<Rightarrow> bool" where
  "is_image_block_valid roi i j = (let b = block_at roi i j in
     7 / 10 < sum_list (map sum_list b) / (real (length b) * real (mat_cols b)))"

text \<open>\<^verbatim>\<open>range(0, n, 32)\<close>.\<close>

definition block_starts :: "nat \<Rightarrow> nat list" where
  "block_starts n = map (\<lambda>k. k * BLOCK_SIZE) [0..<(n + BLOCK_SIZE - 1) div BLOCK_SIZE]"

definition block_features :: "mat \<Rightarrow> mat \<Rightarrow> nat \<Rightarrow> nat \<Rightarrow> real list list" where
  "block_features m roi i j =
     (if is_image_block_valid roi i j then
        let b = block_at m i j in
        if length b = BLOCK_SIZE \<and> mat_cols b = BLOCK_SIZE then [single_resolution_features b] else []
      else [])"

definition extract_feature :: "mat \<Rightarrow> mat \<Rightarrow> real list list" where
  "extract_feature m roi = concat (map (\<lambda>i. concat (map (block_features m roi i) (block_starts (mat_cols m)))) (block_starts (length m)))"

text \<open>\<^verbatim>\<open>compute_roi\<close>; the maximum of no entropies is an error.\<close>

definition compute_roi :: "mat \<Rightarrow> exn + mat" where
  "compute_roi e = (if concat e = [] then Inl (ValueError ''zero-size array'')
     else Inr (map (map (\<lambda>x. if 6 / 10 * Max (set (concat e)) < x then 1 else 0)) e))"

section \<open>The blur classifier\<close>

record 'img blur_ops =
  bo_ndim :: "'img \<Rightarrow> nat"
  bo_gray :: "'img \<Rightarrow> exn + 'img"
  bo_shape :: "'img \<Rightarrow> nat \<times> nat"
  bo_resize :: "'img \<Rightarrow> int \<times> int \<Rightarrow> exn + mat"   \<comment> \<open>\<^verbatim>\<open>cv2.resize\<close>, width first\<close>
  bo_entropy :: "mat \<Rightarrow> exn + mat"

definition blur_features :: "'img blur_ops \<Rightarrow> 'img \<Rightarrow> ('w, mat option) io" where
  "blur_features B img =
     bnd (of_res (if bo_ndim B img = 3 then bo_gray B img else Inr img)) (\<lambda>g.
     let (rows, cols) = bo_shape B g in
     bnd (of_res (bo_resize B g (py_trunc (real cols / 2), py_trunc (real rows / 2)))) (\<lambda>m.
     bnd (of_res (bo_entropy B m)) (\<lambda>e. bnd (of_res (compute_roi e)) (\<lambda>roi.
     let fs = extract_feature m roi in
     ret (if fs = [] then None else Some (map (map (\<lambda>x. x / 255)) fs))))))"

definition blur_pre_transform :: "'img blur_ops \<Rightarrow> 'img list \<Rightarrow> ('w, mat option list) io" where
  "blur_pre_transform B ims = map_io (blur_features B) ims"

fun first_argmax :: "real list \<Rightarrow> nat" where
  "first_argmax [] = 0"
| "first_argmax [x] = 0"
| "first_argmax (x # xs) = (let k = first_argmax xs in if xs ! k \<le> x then 0 else Suc k)"

text \<open>The mean of no regions is not a number, which is not above the threshold.\<close>

definition is_blurry :: "real \<Rightarrow> mat \<Rightarrow> exn + bool" where
  "is_blurry conf preds =
     (if preds \<noteq> [] \<and> hd preds = [] then Inl (ValueError ''attempt to get argmax of an empty sequence'')
      else Inr (preds \<noteq> [] \<and> conf < real (length (filter (\<lambda>p. first_argmax p = 0) preds)) / real (length preds)))"

definition blur_post_transform :: "real \<Rightarrow> mat list \<Rightarrow> ('w, bool list) io" where
  "blur_post_transform conf predictions = map_io (\<lambda>p. of_res (is_blurry conf p)) predictions"

definition blur_call :: "'img blur_ops \<Rightarrow> (mat option \<Rightarrow> ('w, mat list) io) \<Rightarrow> real \<Rightarrow> 'img list \<Rightarrow> ('w, bool list list) io" where
  "blur_call B backend conf ims =
     bnd (blur_pre_transform B ims) (\<lambda>fetches. map_io (\<lambda>f. bnd (backend f) (blur_post_transform conf)) fetches)"

section \<open>The embedding model\<close>

definition embedding_pre_transform :: "('img \<Rightarrow> exn + 'img) \<Rightarrow> ('img \<Rightarrow> exn + ndarray) \<Rightarrow> 'img list \<Rightarrow> ('w, ndarray list) io" where
  "embedding_pre_transform to_rgb transform ims =
     bnd (map_io (\<lambda>i. bnd (of_res (to_rgb i)) (\<lambda>r. of_res (transform r))) ims) (\<lambda>as.
     if as = [] then raise (ValueError ''need at least one array to stack'')
     else if list_all (\<lambda>a. nd_shape a = nd_shape (hd as)) as then ret as
     else raise (ValueError ''all input arrays must have the same shape''))"

text \<open>\<^verbatim>\<open>predictions.reshape(predictions.shape[0], -1)\<close>, as the list of its rows.\<close>

definition embedding_post_transform :: "ndarray \<Rightarrow> exn + mat" where
  "embedding_post_transform a = (case nd_shape a of
      [] \<Rightarrow> Inl IndexError
    | n # ds \<Rightarrow> if n = 0 then Inl (ValueError ''cannot reshape'')
        else let k = prod_list ds in Inr (map (\<lambda>i. take k (drop (i * k) (nd_data a))) [0..<n]))"

definition embedding_call :: "('img \<Rightarrow> exn + 'img) \<Rightarrow> ('img \<Rightarrow> exn + ndarray) \<Rightarrow> (ndarray list \<Rightarrow> ('w, ndarray list) io) \<Rightarrow> 'img list \<Rightarrow> ('w, mat) io" where
  "embedding_call to_rgb transform backend ims =
     bnd (embedding_pre_transform to_rgb transform ims) (\<lambda>batch. bnd (backend batch) (\<lambda>outs. case outs of
       [] \<Rightarrow> raise IndexError | o1 # _ \<Rightarrow> of_res (embedding_post_transform o1)))"

section \<open>What the features are\<close>

lemma py_trunc_half: "py_trunc (real_of_int k + 1 / 2) = (if 0 \<le> k then k else k + 1)"
  unfolding py_trunc_def by (simp add: floor_unique ceiling_unique)

lemma real_nat_int: "real n = real_of_int (int n)" by simp

text \<open>The band the features are taken from is the triangle below the antidiagonal, the highest
  frequencies, although the documentation has it as the lowest.\<close>

lemma high_band_triangle:
  assumes "r < 32" and "c < 32"
  shows "freq_band 32 r c = 0 \<longleftrightarrow> 31 \<le> r + c"
proof -
  have 1: "py_trunc (33 / 2 - real c) = (if c \<le> 16 then 16 - int c else 17 - int c)"
  proof -
    have "33 / 2 - real c = real_of_int (16 - int c) + 1 / 2" by simp
    then show ?thesis using py_trunc_half [of "16 - int c"] by auto
  qed
  have 2: "py_trunc (31 / 2 - real c) = (if c \<le> 15 then 15 - int c else 16 - int c)"
  proof -
    have "31 / 2 - real c = real_of_int (15 - int c) + 1 / 2" by simp
    then show ?thesis using py_trunc_half [of "15 - int c"] by auto
  qed
  have 3: "(real 32 - (real 32 - 1) / 2 - real c \<le> 0) = (17 \<le> c)"
  proof (cases "17 \<le> c")
    case True
    then have "17 \<le> real c" by simp
    then show ?thesis using True by simp
  next
    case False
    then have "real c \<le> 16" by simp
    then show ?thesis using False by simp
  qed
  have two: "band_two 32 r c \<longleftrightarrow> (if 17 \<le> c then r + c < 31 else 15 \<le> r + c \<and> r + c < 31)"
    using assms by (auto simp: band_two_def in_slice_def 2 3 split: if_splits)
  have one: "band_one 32 r c \<longleftrightarrow> r + c < 16"
    using assms by (auto simp: band_one_def in_slice_def 1 split: if_splits)
  show ?thesis using assms by (auto simp: freq_band_def one two)
qed

lemma high_positions_eq: "high_positions 32 = concat (map (\<lambda>r. map (Pair r) (filter (\<lambda>c. 31 \<le> r + c) [0..<32])) [0..<32])"
proof -
  have "filter (\<lambda>c. freq_band 32 r c = 0) [0..<32] = filter (\<lambda>c. 31 \<le> r + c) [0..<32]" if "r < 32" for r
    by (rule filter_cong) (use high_band_triangle [OF that] in auto)
  then show ?thesis unfolding high_positions_def by (intro arg_cong [where f = concat] map_cong) auto
qed

lemma high_positions_count: "length (high_positions 32) = 528"
proof -
  have "length (filter (\<lambda>c. 31 \<le> r + c) [0..<32]) = r + 1" if "r < 32" for r
  proof -
    have "filter (\<lambda>c. 31 \<le> r + c) [0..<32] = filter (\<lambda>c. 31 \<le> r + c) ([0..<31 - r] @ [31 - r..<32])"
      using that upt_add_eq_append [of 0 "31 - r" "r + 1"] by simp
    also have "\<dots> = [31 - r..<32]"
    proof -
      have "filter (\<lambda>c. 31 \<le> r + c) [0..<31 - r] = []" by (auto simp: filter_empty_conv)
      moreover have "filter (\<lambda>c. 31 \<le> r + c) [31 - r..<32] = [31 - r..<32]" by (auto simp: filter_id_conv)
      ultimately show ?thesis by simp
    qed
    finally show ?thesis using that by simp
  qed
  then have "map (\<lambda>r. length (filter (\<lambda>c. 31 \<le> r + c) [0..<32])) [0..<32] = map (\<lambda>r. r + 1) [0..<32]"
    by (intro map_cong) auto
  then show ?thesis
    by (simp add: high_positions_eq length_concat comp_def) (simp add: sum_list_triv upt_conv_Cons)
qed

lemma features_shape:
  "length (single_resolution_features b) = 528 \<and> sorted (single_resolution_features b)"
  by (simp add: single_resolution_features_def Let_def BLOCK_SIZE_def high_positions_count)

lemma mat_mul_shape:
  assumes "length a = n" and "list_all (\<lambda>r. length r = k) b" and "b \<noteq> []"
  shows "length (mat_mul a b) = n \<and> list_all (\<lambda>r. length r = k) (mat_mul a b)"
proof -
  have "foldr (\<lambda>xs. max (length xs)) b 0 = k" using assms(2,3)
  proof (induction b)
    case (Cons r b)
    then show ?case by (cases b) auto
  qed simp
  then have "length (transpose b) = k" by (simp add: length_transpose)
  then show ?thesis using assms(1) by (simp add: mat_mul_def list_all_length)
qed

lemma dctmtx_shape: "length (dctmtx n) = n \<and> list_all (\<lambda>r. length r = n) (dctmtx n)"
  by (simp add: dctmtx_def list_all_length)

lemma block_features_full:
  "f \<in> set (block_features m roi i j) \<Longrightarrow> length f = 528 \<and> sorted f"
  by (auto simp: block_features_def Let_def features_shape split: if_splits)

lemma block_features_one: "length (block_features m roi i j) \<le> 1"
  by (simp add: block_features_def Let_def)

text \<open>A block that sticks out below or to the right has no features.\<close>

lemma block_features_inside:
  assumes "block_features m roi i j \<noteq> []" and "list_all (\<lambda>r. length r = mat_cols m) m"
  shows "i + 32 \<le> length m \<and> j + 32 \<le> mat_cols m"
proof -
  have b: "length (block_at m i j) = 32" "mat_cols (block_at m i j) = 32"
    using assms(1) by (auto simp: block_features_def Let_def BLOCK_SIZE_def split: if_splits)
  then have rows: "i + 32 \<le> length m" by (simp add: block_at_def BLOCK_SIZE_def)
  then have "drop i m = m ! i # drop (Suc i) m" by (simp add: Cons_nth_drop_Suc)
  then have "mat_cols (block_at m i j) = min 32 (length (m ! i) - j)" by (simp add: block_at_def mat_cols_def BLOCK_SIZE_def)
  moreover have "length (m ! i) = mat_cols m" using assms(2) rows by (simp add: list_all_length)
  ultimately show ?thesis using b(2) rows by auto
qed

section \<open>The reference\<close>

text \<open>The orthonormal two-dimensional DCT-II of the 32 by 32 block at row \<open>i\<close> and column \<open>j\<close> of an
  image, as a double sum.\<close>

definition dct_scale :: "nat \<Rightarrow> real" where
  "dct_scale u = (if u = 0 then sqrt (1 / 32) else sqrt (2 / 32))"

definition dct2 :: "mat \<Rightarrow> nat \<Rightarrow> nat \<Rightarrow> nat \<Rightarrow> nat \<Rightarrow> real" where
  "dct2 m i j u v = dct_scale u * dct_scale v *
     (\<Sum>y<32. \<Sum>x<32. m ! (i + y) ! (j + x) *
        cos (pi * (2 * real y + 1) * real u / 64) * cos (pi * (2 * real x + 1) * real v / 64))"

text \<open>The magnitudes of the coefficients on and below the antidiagonal, in ascending order.\<close>

definition block_spectrum :: "mat \<Rightarrow> nat \<Rightarrow> nat \<Rightarrow> real list" where
  "block_spectrum m i j =
     sort (map (\<lambda>(u, v). \<bar>dct2 m i j u v\<bar>) (filter (\<lambda>(u, v). 31 \<le> u + v) (List.product [0..<32] [0..<32])))"

text \<open>The mean of a region of interest over a block.\<close>

definition block_mean :: "mat \<Rightarrow> nat \<Rightarrow> nat \<Rightarrow> real" where
  "block_mean roi i j = (\<Sum>y<32. \<Sum>x<32. roi ! (i + y) ! (j + x)) / 1024"

text \<open>The whole blocks of an image, row by row.\<close>

definition whole_blocks :: "mat \<Rightarrow> (nat \<times> nat) list" where
  "whole_blocks m = map (\<lambda>(k, l). (k * 32, l * 32)) (List.product [0..<length m div 32] [0..<mat_cols m div 32])"

definition rectangular :: "mat \<Rightarrow> bool" where
  "rectangular m \<longleftrightarrow> list_all (\<lambda>r. length r = mat_cols m) m"

section \<open>The coefficients\<close>

lemma sum_list_nth: "sum_list xs = (\<Sum>k<length xs. (xs :: real list) ! k)"
  by (simp add: sum_list_sum_nth atLeast0LessThan)

text \<open>The entries of a product, for a right factor of \<open>n\<close> rows of \<open>p\<close> entries.\<close>

lemma transpose_nth:
  assumes "length b = n" and "list_all (\<lambda>r. length r = p) b" and "0 < n" and "c < p"
  shows "transpose b ! c = map (\<lambda>r. r ! c) b" and "length (transpose b) = p"
proof -
  have b: "b \<noteq> []" using assms(1,3) by auto
  have "foldr (\<lambda>xs. max (length xs)) b 0 = p" using assms(2) b
  proof (induction b)
    case (Cons r b)
    then show ?case by (cases b) auto
  qed simp
  then show len: "length (transpose b) = p" by (simp add: length_transpose)
  have "filter (\<lambda>ys. c < length ys) b = b" using assms(2,4) by (auto simp: filter_id_conv list_all_iff)
  then show "transpose b ! c = map (\<lambda>r. r ! c) b" using len assms(4) by (simp add: nth_transpose)
qed

lemma mat_mul_nth:
  assumes "length b = n" and "list_all (\<lambda>r. length r = p) b" and "0 < n" and "c < p"
    and "r < length a" and "length (a ! r) = n"
  shows "mat_mul a b ! r ! c = (\<Sum>k<n. a ! r ! k * b ! k ! c)"
proof -
  note t = transpose_nth [OF assms(1-4)]
  have "mat_mul a b ! r ! c = sum_list (map2 (*) (a ! r) (map (\<lambda>x. x ! c) b))"
    using assms(4,5) t by (simp add: mat_mul_def)
  then show ?thesis using assms(1,6) by (simp add: sum_list_nth)
qed

lemma dctmtx_nth:
  assumes "u < 32" and "x < 32"
  shows "dctmtx 32 ! u ! x = dct_scale u * cos (pi * (2 * real x + 1) * real u / 64)"
proof (cases "u = 0")
  case True
  have "sqrt (2 / 32) / sqrt 2 = sqrt (1 / 32 :: real)" by (simp add: real_sqrt_divide [symmetric])
  then show ?thesis using True assms by (simp add: dctmtx_def dct_scale_def Let_def)
next
  case False
  then show ?thesis using assms by (simp add: dctmtx_def dct_scale_def Let_def mult.assoc)
qed

lemma dctmtx_rows: "length (dctmtx 32) = 32" "u < 32 \<Longrightarrow> length (dctmtx 32 ! u) = 32"
  by (simp_all add: dctmtx_def)

lemma mat_mul_rows:
  assumes "length a = n" and "list_all (\<lambda>r. length r = k) b" and "b \<noteq> []" and "u < n"
  shows "length (mat_mul a b ! u) = k"
  using mat_mul_shape [OF assms(1-3)] assms(4) by (simp add: list_all_length)

lemma dct_transposed:
  shows "length (transpose (dctmtx 32)) = 32" and "list_all (\<lambda>r. length r = 32) (transpose (dctmtx 32))"
  and "x < 32 \<Longrightarrow> v < 32 \<Longrightarrow> transpose (dctmtx 32) ! x ! v = dctmtx 32 ! v ! x"
proof -
  have D: "list_all (\<lambda>r. length r = 32) (dctmtx 32)" using dctmtx_shape [of 32] by simp
  have t: "transpose (dctmtx 32) ! x = map (\<lambda>r. r ! x) (dctmtx 32)" "length (transpose (dctmtx 32)) = 32" if "x < 32" for x
    using transpose_nth [OF dctmtx_rows(1) D _ that] by simp_all
  show len: "length (transpose (dctmtx 32)) = 32" using t(2) [of 0] by simp
  show "list_all (\<lambda>r. length r = 32) (transpose (dctmtx 32))"
    using t(1) by (simp add: list_all_length len dctmtx_rows)
  show "transpose (dctmtx 32) ! x ! v = dctmtx 32 ! v ! x" if "x < 32" "v < 32"
    using t(1) [OF that(1)] that(2) by (simp add: dctmtx_rows)
qed

text \<open>The two products are the double sum.\<close>

lemma dct_products:
  assumes "length b = 32" and "list_all (\<lambda>r. length r = 32) b" and "u < 32" and "v < 32"
    and "\<And>y x. y < 32 \<Longrightarrow> x < 32 \<Longrightarrow> b ! y ! x = m ! (i + y) ! (j + x)"
  shows "mat_mul (mat_mul (dctmtx 32) b) (transpose (dctmtx 32)) ! u ! v = dct2 m i j u v"
proof -
  let ?D = "dctmtx 32"
  have b: "b \<noteq> []" using assms(1) by auto
  have inner: "mat_mul ?D b ! u ! x = (\<Sum>y<32. ?D ! u ! y * b ! y ! x)" if "x < 32" for x
    using mat_mul_nth [OF assms(1,2) _ that, of u ?D] assms(3) by (simp add: dctmtx_rows)
  have rows: "u < length (mat_mul ?D b)" "length (mat_mul ?D b ! u) = 32"
    using mat_mul_shape [OF dctmtx_rows(1) assms(2) b] mat_mul_rows [OF dctmtx_rows(1) assms(2) b assms(3)] assms(3)
    by simp_all
  have "mat_mul (mat_mul ?D b) (transpose ?D) ! u ! v = (\<Sum>x<32. mat_mul ?D b ! u ! x * transpose ?D ! x ! v)"
    by (rule mat_mul_nth [OF dct_transposed(1,2) _ assms(4) rows]) simp
  also have "\<dots> = (\<Sum>x<32. \<Sum>y<32. ?D ! u ! y * b ! y ! x * ?D ! v ! x)"
    by (intro sum.cong) (simp_all add: inner dct_transposed(3) assms(4) sum_distrib_right)
  also have "\<dots> = (\<Sum>x<32. \<Sum>y<32. dct_scale u * dct_scale v * (m ! (i + y) ! (j + x) *
      cos (pi * (2 * real y + 1) * real u / 64) * cos (pi * (2 * real x + 1) * real v / 64)))"
    by (intro sum.cong) (simp_all add: dctmtx_nth assms(3-5) mult_ac)
  also have "\<dots> = (\<Sum>y<32. \<Sum>x<32. dct_scale u * dct_scale v * (m ! (i + y) ! (j + x) *
      cos (pi * (2 * real y + 1) * real u / 64) * cos (pi * (2 * real x + 1) * real v / 64)))"
    by (rule sum.swap)
  finally show ?thesis by (simp add: dct2_def sum_distrib_left)
qed

lemma filter_product:
  "filter P (List.product xs ys) = concat (map (\<lambda>x. map (Pair x) (filter (\<lambda>y. P (x, y)) ys)) xs)"
  by (induction xs) (simp_all add: filter_map comp_def)

lemma features_spectrum:
  assumes "length b = 32" and "list_all (\<lambda>r. length r = 32) b"
    and "\<And>y x. y < 32 \<Longrightarrow> x < 32 \<Longrightarrow> b ! y ! x = m ! (i + y) ! (j + x)"
  shows "single_resolution_features b = block_spectrum m i j"
proof -
  let ?C = "mat_mul (mat_mul (dctmtx 32) b) (transpose (dctmtx 32))"
  have b: "b \<noteq> []" using assms(1) by auto
  have t: "transpose (dctmtx 32) \<noteq> []" using dct_transposed(1) by auto
  have C: "length ?C = 32" "list_all (\<lambda>r. length r = 32) ?C"
    using mat_mul_shape [OF _ dct_transposed(2) t] mat_mul_shape [OF dctmtx_rows(1) assms(2) b] by auto
  have "map (map abs) ?C ! u ! v = \<bar>dct2 m i j u v\<bar>" if "u < 32" "v < 32" for u v
    using dct_products [OF assms(1,2) that assms(3)] that C by (simp add: list_all_length)
  then have "map (\<lambda>(r, c). map (map abs) ?C ! r ! c) (high_positions 32) =
      map (\<lambda>(u, v). \<bar>dct2 m i j u v\<bar>) (filter (\<lambda>(u, v). 31 \<le> u + v) (List.product [0..<32] [0..<32]))"
    by (intro map_cong) (auto simp: high_positions_eq filter_product)
  then show ?thesis
    by (simp only: single_resolution_features_def Let_def BLOCK_SIZE_def block_spectrum_def)
qed

section \<open>The blocks\<close>

lemma block_at_nth:
  assumes "i + 32 \<le> length m" and "j + 32 \<le> mat_cols m" and "rectangular m"
  shows "length (block_at m i j) = 32" and "list_all (\<lambda>r. length r = 32) (block_at m i j)"
    and "y < 32 \<Longrightarrow> x < 32 \<Longrightarrow> block_at m i j ! y ! x = m ! (i + y) ! (j + x)"
proof -
  have row: "length (m ! (i + y)) = mat_cols m" if "y < 32" for y
    using assms(1,3) that by (simp add: rectangular_def list_all_length)
  show len: "length (block_at m i j) = 32" using assms(1) by (simp add: block_at_def BLOCK_SIZE_def)
  show "list_all (\<lambda>r. length r = 32) (block_at m i j)"
    using assms(1,2) row by (simp add: list_all_length len) (simp add: block_at_def BLOCK_SIZE_def)
  show "block_at m i j ! y ! x = m ! (i + y) ! (j + x)" if "y < 32" "x < 32"
    using assms(1,2) row [OF that(1)] that by (simp add: block_at_def BLOCK_SIZE_def)
qed

lemma mat_cols_block:
  assumes "length b = 32" and "list_all (\<lambda>r. length r = 32) b"
  shows "mat_cols b = 32"
  using assms by (cases b) (auto simp: mat_cols_def)

lemma block_mean_valid:
  assumes "i + 32 \<le> length roi" and "j + 32 \<le> mat_cols roi" and "rectangular roi"
  shows "is_image_block_valid roi i j \<longleftrightarrow> 7 / 10 < block_mean roi i j"
proof -
  note b = block_at_nth [OF assms]
  have "sum_list (map sum_list (block_at roi i j)) = (\<Sum>y<32. sum_list (block_at roi i j ! y))"
    by (simp add: sum_list_nth b(1))
  also have "\<dots> = (\<Sum>y<32. \<Sum>x<32. roi ! (i + y) ! (j + x))"
    using b by (intro sum.cong) (simp_all add: sum_list_nth list_all_length)
  finally show ?thesis
    using b(1) mat_cols_block [OF b(1,2)] by (simp add: is_image_block_valid_def Let_def block_mean_def mult.commute)
qed

lemma block_features_spectrum:
  assumes "rectangular m" and "rectangular roi" and "length roi = length m" and "mat_cols roi = mat_cols m"
  shows "block_features m roi i j = (if i + 32 \<le> length m \<and> j + 32 \<le> mat_cols m \<and> 7 / 10 < block_mean roi i j
    then [block_spectrum m i j] else [])"
proof (cases "i + 32 \<le> length m \<and> j + 32 \<le> mat_cols m")
  case True
  then have "i + 32 \<le> length roi" "j + 32 \<le> mat_cols roi" using assms(3,4) by simp_all
  from block_mean_valid [OF this assms(2)] show ?thesis
    using True block_at_nth [OF conjunct1 [OF True] conjunct2 [OF True] assms(1)]
      mat_cols_block [OF block_at_nth(1,2) [OF conjunct1 [OF True] conjunct2 [OF True] assms(1)]]
      features_spectrum [of "block_at m i j" m i j]
    by (simp add: block_features_def Let_def BLOCK_SIZE_def)
next
  case False
  have "block_features m roi i j = []"
    using block_features_inside [of m roi i j] assms(1) False unfolding rectangular_def by blast
  then show ?thesis using False by auto
qed

lemma concat_upt_prefix:
  assumes "a \<le> b" and "\<And>k. a \<le> k \<Longrightarrow> f k = []"
  shows "concat (map f [0..<b]) = concat (map f [0..<a])"
proof -
  have "[0..<b] = [0..<a] @ [a..<b]" using assms(1) upt_add_eq_append [of 0 a "b - a"] by simp
  moreover have "concat (map f [a..<b]) = []" using assms(2) by auto
  ultimately show ?thesis by simp
qed

lemma concat_product:
  "concat (map (\<lambda>x. concat (map (f x) ys)) xs) = concat (map (\<lambda>(x, y). f x y) (List.product xs ys))"
  by (induction xs) (simp_all add: comp_def)

lemma concat_filter: "concat (map (\<lambda>p. if P p then [f p] else []) ps) = map f (filter P ps)"
  by (induction ps) simp_all

lemma extract_feature_blocks:
  assumes "rectangular m" and "rectangular roi" and "length roi = length m" and "mat_cols roi = mat_cols m"
  shows "extract_feature m roi =
    map (\<lambda>(i, j). block_spectrum m i j) (filter (\<lambda>(i, j). 7 / 10 < block_mean roi i j) (whole_blocks m))"
proof -
  let ?f = "\<lambda>k l. block_features m roi (k * 32) (l * 32)"
  let ?K = "length m div 32" and ?L = "mat_cols m div 32"
  have starts: "block_starts n = map (\<lambda>k. k * 32) [0..<(n + 31) div 32]" for n
    by (simp add: block_starts_def BLOCK_SIZE_def add.commute)
  have out: "?f k l = []" if "?K \<le> k \<or> ?L \<le> l" for k l
    using that block_features_spectrum [OF assms, of "k * 32" "l * 32"] by auto
  have "extract_feature m roi = concat (map (\<lambda>k. concat (map (?f k) [0..<(mat_cols m + 31) div 32])) [0..<(length m + 31) div 32])"
    by (simp add: extract_feature_def starts comp_def)
  also have "\<dots> = concat (map (\<lambda>k. concat (map (?f k) [0..<(mat_cols m + 31) div 32])) [0..<?K])"
    using out by (intro concat_upt_prefix) auto
  also have "\<dots> = concat (map (\<lambda>k. concat (map (?f k) [0..<?L])) [0..<?K])"
    using out by (intro arg_cong [where f = concat] map_cong refl concat_upt_prefix) auto
  also have "\<dots> = concat (map (\<lambda>(k, l). ?f k l) (List.product [0..<?K] [0..<?L]))"
    by (rule concat_product)
  also have "\<dots> = concat (map (\<lambda>p. if 7 / 10 < block_mean roi (fst p * 32) (snd p * 32)
      then [block_spectrum m (fst p * 32) (snd p * 32)] else []) (List.product [0..<?K] [0..<?L]))"
    by (intro arg_cong [where f = concat] map_cong refl) (auto simp: block_features_spectrum [OF assms])
  finally show ?thesis
    by (simp add: concat_filter whole_blocks_def filter_map comp_def split_beta)
qed

text \<open>C36: The features of an image, with a region of interest of its shape, are what the reference says:
  one vector for each whole block of 32 by 32, in the order of the blocks row by row, whose mean in
  the region of interest is above 0.7, and none for a block that is cut off by the border. The
  vector is the list of the absolute values of the block's orthonormal two-dimensional DCT-II
  coefficients on and below the antidiagonal, in ascending order. So the vectors can always be
  stacked: each has 528 entries, and there are at most as many as whole blocks fit into the image.\<close>

theorem blur_features_bounded:
  assumes "rectangular m" and "rectangular roi" and "length roi = length m" and "mat_cols roi = mat_cols m"
  shows "extract_feature m roi =
      map (\<lambda>(i, j). block_spectrum m i j) (filter (\<lambda>(i, j). 7 / 10 < block_mean roi i j) (whole_blocks m)) \<and>
    list_all (\<lambda>f. length f = 528 \<and> sorted f) (extract_feature m roi) \<and>
    length (extract_feature m roi) \<le> (length m div 32) * (mat_cols m div 32)"
proof -
  have "list_all (\<lambda>f. length f = 528 \<and> sorted f) (extract_feature m roi)"
    by (auto simp: extract_feature_def list_all_iff dest: block_features_full)
  moreover have "length (whole_blocks m) = (length m div 32) * (mat_cols m div 32)"
    by (simp add: whole_blocks_def length_product)
  then have "length (extract_feature m roi) \<le> (length m div 32) * (mat_cols m div 32)"
    unfolding extract_feature_blocks [OF assms] by (metis length_filter_le length_map)
  ultimately show ?thesis using extract_feature_blocks [OF assms] by blast
qed

text \<open>An image of one block and a cut-off one beside it.\<close>

definition demo_gray :: mat where
  "demo_gray = replicate 32 (replicate 40 7)"

definition demo_interest :: mat where
  "demo_interest = replicate 32 (replicate 40 1)"

lemma mat_cols_replicate: "0 < n \<Longrightarrow> mat_cols (replicate n r) = length r"
  by (cases n) (simp_all add: mat_cols_def)

theorem blur_features_bounded_witness:
  "extract_feature demo_gray demo_interest = [block_spectrum demo_gray 0 0] \<and> length (block_spectrum demo_gray 0 0) = 528"
proof -
  have s: "rectangular demo_gray" "rectangular demo_interest" "length demo_interest = length demo_gray"
    "mat_cols demo_interest = mat_cols demo_gray"
    by (simp_all add: demo_gray_def demo_interest_def rectangular_def mat_cols_replicate list_all_iff)
  have w: "whole_blocks demo_gray = [(0, 0)]"
    by (simp add: whole_blocks_def demo_gray_def mat_cols_replicate)
  have "block_mean demo_interest 0 0 = 1"
    by (simp add: block_mean_def demo_interest_def)
  then have "extract_feature demo_gray demo_interest = [block_spectrum demo_gray 0 0]"
    using blur_features_bounded [OF s] w by simp
  moreover have "list_all (\<lambda>f. length f = 528 \<and> sorted f) (extract_feature demo_gray demo_interest)"
    using blur_features_bounded [OF s] by blast
  ultimately show ?thesis by simp
qed

text \<open>An image without usable blocks is documented to be classified as blurry; the code passes the
  missing features to the backend, whose failure ends the call for the whole batch.\<close>

lemma featureless_image_reaches_backend:
  assumes "blur_pre_transform B [img] w = (Inr [None], w1)" and "backend None w1 = (Inl e, w2)"
  shows "blur_call B backend conf [img] w = (Inl e, w2)"
  using assms by (simp add: blur_call_def bnd_def)

lemma all_none_blurry: "is_blurry conf [] = Inr False"
  by (simp add: is_blurry_def)

end
