(* ===== verification/Profiling.thy ===== *)
theory Profiling
  imports Pipeline
begin

text \<open>
  \<^verbatim>\<open>neudc/utils/profile.py\<close>: the timing decorator, the decorator that switches timing off, the
  registry of named profiles and the one of compiled functions. The flag \<^verbatim>\<open>Profile.enabled\<close> is global, a
  \<^verbatim>\<open>Profile\<close> object is its index among the objects made, and \<open>rest\<close> is what the functions themselves
  work on. The clock, the CUDA calls and \<^verbatim>\<open>numba.jit\<close> are arguments; what is logged is not modelled.
\<close>

section \<open>Timing\<close>

record profile =
  pf_t :: real
  pf_use_cuda :: bool
  pf_use_torch :: bool
  pf_freq :: "int option"
  pf_max_calls :: int
  pf_calls :: int
  pf_start :: real
  pf_dt :: real
  pf_name :: "string option"

definition new_profile :: "real \<Rightarrow> bool \<Rightarrow> bool \<Rightarrow> int option \<Rightarrow> int \<Rightarrow> string option \<Rightarrow> profile" where
  "new_profile t use_cuda use_torch freq limit name = \<lparr>pf_t = t, pf_use_cuda = use_cuda, pf_use_torch = use_torch, pf_freq = freq,
     pf_max_calls = limit, pf_calls = 0, pf_start = 0, pf_dt = 0, pf_name = name\<rparr>"

record 'w timing =
  tm_cuda :: bool                          \<comment> \<open>\<^verbatim>\<open>CUDA_PROFILE_ENABLE\<close>\<close>
  tm_cuda_sync :: "('w, unit) io"
  tm_torch :: bool                         \<comment> \<open>\<^verbatim>\<open>TORCH_PROFILE_ENABLE\<close>\<close>
  tm_torch_available :: "('w, bool) io"
  tm_torch_sync :: "('w, unit) io"
  tm_clock :: "('w, real) io"

record 'w profiled =
  enabled :: bool
  profiles :: "profile list"
  registry :: "(string \<times> nat) list"        \<comment> \<open>\<^verbatim>\<open>_PROFILE_REGISTRY\<close>\<close>
  prev_state :: "bool option"
  rest :: 'w

definition on_rest :: "('w, 'a) io \<Rightarrow> ('w profiled, 'a) io" where
  "on_rest m = (\<lambda>w. case m (rest w) of (r, v) \<Rightarrow> (r, w\<lparr>rest := v\<rparr>))"

fun is_sync_error :: "exn \<Rightarrow> bool" where
  "is_sync_error (AttributeError _) = True"
| "is_sync_error (RuntimeError _) = True"
| "is_sync_error (NotImplementedError _) = True"
| "is_sync_error _ = False"

definition read_clock :: "'w timing \<Rightarrow> profile \<Rightarrow> ('w, real) io" where
  "read_clock T p =
     seq (if \<not> pf_use_cuda p then ret ()
          else if tm_cuda T then tm_cuda_sync T
          else if pf_use_torch p \<and> tm_torch T then bnd (tm_torch_available T) (\<lambda>a.
            if a then catch_exn (tm_torch_sync T) is_sync_error (\<lambda>_. ret ()) else ret ())
          else ret ())
       (tm_clock T)"

text \<open>What \<^verbatim>\<open>__exit__\<close> does with the time it reads.\<close>

definition account :: "profile \<Rightarrow> real \<Rightarrow> profile" where
  "account p stop =
     (let dt = stop - pf_start p; n = pf_calls p + 1 in
      if (case pf_freq p of None \<Rightarrow> False | Some f \<Rightarrow> f \<noteq> 0 \<and> n mod f = 0) \<and> pf_max_calls p < n
      then p\<lparr>pf_dt := dt, pf_t := 0, pf_calls := 0\<rparr>
      else p\<lparr>pf_dt := dt, pf_t := pf_t p + dt, pf_calls := n\<rparr>)"

definition set_profile :: "nat \<Rightarrow> (profile \<Rightarrow> profile) \<Rightarrow> 'w profiled \<Rightarrow> 'w profiled" where
  "set_profile k f w = w\<lparr>profiles := (profiles w)[k := f (profiles w ! k)]\<rparr>"

definition profile_enter :: "'w timing \<Rightarrow> nat \<Rightarrow> ('w profiled, unit) io" where
  "profile_enter T k = bnd get_world (\<lambda>w. if enabled w
     then bnd (on_rest (read_clock T (profiles w ! k))) (\<lambda>t. modify (set_profile k (\<lambda>p. p\<lparr>pf_start := t\<rparr>)))
     else ret ())"

definition profile_exit :: "'w timing \<Rightarrow> nat \<Rightarrow> ('w profiled, unit) io" where
  "profile_exit T k = bnd get_world (\<lambda>w. if enabled w \<and> pf_start (profiles w ! k) \<noteq> 0
     then bnd (on_rest (read_clock T (profiles w ! k))) (\<lambda>t. modify (set_profile k (\<lambda>p. account p t)))
     else ret ())"

definition profile_wrapper :: "'w timing \<Rightarrow> nat \<Rightarrow> ('w profiled, 'a) io \<Rightarrow> ('w profiled, 'a) io" where
  "profile_wrapper T k f = bnd get_world (\<lambda>w. if \<not> enabled w then f
     else seq (profile_enter T k) (finally_io f (profile_exit T k)))"

definition get_profile :: "profile \<Rightarrow> string \<Rightarrow> ('w profiled, nat) io" where
  "get_profile p name = (\<lambda>w. case dget (registry w) name of
      Some k \<Rightarrow> (Inr k, w)
    | None \<Rightarrow> (Inr (length (profiles w)), w\<lparr>profiles := profiles w @ [p\<lparr>pf_name := Some name\<rparr>],
        registry := dset name (length (profiles w)) (registry w)\<rparr>))"

section \<open>Switching timing off\<close>

definition no_profile_wrapper :: "('w profiled, 'a) io \<Rightarrow> ('w profiled, 'a) io" where
  "no_profile_wrapper f = bnd get_world (\<lambda>w. seq (modify (\<lambda>w. w\<lparr>enabled := False\<rparr>))
     (bnd f (\<lambda>r. seq (modify (\<lambda>v. v\<lparr>enabled := enabled w\<rparr>)) (ret r))))"

definition no_profile_enter :: "('w profiled, unit) io" where
  "no_profile_enter = modify (\<lambda>w. w\<lparr>prev_state := Some (enabled w), enabled := False\<rparr>)"

definition no_profile_exit :: "('w profiled, unit) io" where
  "no_profile_exit = bnd get_world (\<lambda>w. case prev_state w of
      None \<Rightarrow> raise (AttributeError ''prev_state'')
    | Some b \<Rightarrow> modify (\<lambda>w. w\<lparr>enabled := b\<rparr>))"

section \<open>Compiled functions\<close>

record 'f jit_entry =
  je_module :: string
  je_name :: string
  je_original :: 'f
  je_turn_on :: bool

text \<open>The registry by the identity of the function, the attributes of the modules, and the flag.\<close>

record 'f jit_state =
  jit_registry :: "(nat \<times> 'f jit_entry) list"
  module_attrs :: "((string \<times> string) \<times> 'f) list"
  use_numba :: bool

definition conditional_jit :: "('f \<Rightarrow> 'f) \<Rightarrow> bool option \<Rightarrow> nat \<Rightarrow> string \<Rightarrow> string \<Rightarrow> 'f \<Rightarrow> 'f jit_state \<Rightarrow> 'f \<times> 'f jit_state" where
  "conditional_jit jit turn_on i m name f s =
     (let on = (case turn_on of None \<Rightarrow> use_numba s | Some b \<Rightarrow> b);
          s' = s\<lparr>jit_registry := dset i \<lparr>je_module = m, je_name = name, je_original = f, je_turn_on = on\<rparr> (jit_registry s)\<rparr> in
      (if on then jit f else f, s'))"

definition toggle_one :: "('f \<Rightarrow> 'f) \<Rightarrow> bool \<Rightarrow> 'f jit_entry \<Rightarrow> 'f jit_state \<Rightarrow> 'f jit_state" where
  "toggle_one jit on e s = s\<lparr>module_attrs := dset (je_module e, je_name e) (if on then jit (je_original e) else je_original e) (module_attrs s)\<rparr>"

definition toggle_jit :: "('f \<Rightarrow> 'f) \<Rightarrow> bool \<Rightarrow> 'f jit_state \<Rightarrow> 'f jit_state" where
  "toggle_jit jit on s = fold (toggle_one jit on) (dvalues (jit_registry s)) (s\<lparr>use_numba := on\<rparr>)"

section \<open>What timing does\<close>

text \<open>The calls of a decorated function, each result or exception with the caller.\<close>

fun run_calls :: "('v, 'a) io list \<Rightarrow> 'v \<Rightarrow> (exn + 'a) list \<times> 'v" where
  "run_calls [] w = ([], w)"
| "run_calls (f # fs) w = (case f w of (r, w1) \<Rightarrow> case run_calls fs w1 of (rs, w2) \<Rightarrow> (r # rs, w2))"

text \<open>The reference: read the clock, call, read the clock; results, durations and the world.\<close>

fun timed_calls :: "('w, real) io \<Rightarrow> ('w, 'a) io list \<Rightarrow> 'w \<Rightarrow> (exn + 'a) list \<times> real list \<times> 'w" where
  "timed_calls clk [] v = ([], [], v)"
| "timed_calls clk (f # fs) v =
     (case clk v of (t1, v1) \<Rightarrow> case f v1 of (r, v2) \<Rightarrow> case clk v2 of (t2, v3) \<Rightarrow>
      case timed_calls clk fs v3 of (rs, ds, v4) \<Rightarrow> (r # rs, (projr t2 - projr t1) # ds, v4))"

definition clock_ok :: "('w, real) io \<Rightarrow> bool" where
  "clock_ok clk \<longleftrightarrow> (\<forall>v. \<exists>t v'. clk v = (Inr t, v') \<and> 0 < t)"

lemma on_rest_apply: "on_rest m w = (fst (m (rest w)), w\<lparr>rest := snd (m (rest w))\<rparr>)"
  by (simp add: on_rest_def case_prod_beta)

lemma read_clock_start [simp]: "read_clock T (p\<lparr>pf_start := t\<rparr>) = read_clock T p"
  by (simp add: read_clock_def)

lemma get_world_apply [simp]: "get_world w = (Inr w, w)"
  by (simp add: get_world_def)

lemma wrapper_step:
  assumes "clock_ok (read_clock T p)" and "enabled w" and "k < length (profiles w)" and "profiles w ! k = p"
    and "read_clock T p (rest w) = (Inr t1, v1)" and "f v1 = (r, v2)" and "read_clock T p v2 = (Inr t2, v3)"
  shows "profile_wrapper T k (on_rest f) w = (r, w\<lparr>rest := v3, profiles := (profiles w)[k := account (p\<lparr>pf_start := t1\<rparr>) t2]\<rparr>)"
proof -
  have "t1 \<noteq> 0" using assms(1,5) unfolding clock_ok_def by (metis Pair_inject less_irrefl sum.inject(2))
  then show ?thesis using assms(2-)
    by (cases r) (simp_all add: profile_wrapper_def profile_enter_def profile_exit_def set_profile_def finally_io_def bnd_def seq_def on_rest_apply)
qed

definition acc_inv :: "profile \<Rightarrow> real list \<Rightarrow> bool" where
  "acc_inv p ds \<longleftrightarrow> 0 \<le> pf_calls p \<and> nat (pf_calls p) \<le> length ds \<and> 0 \<le> pf_max_calls p \<and>
     pf_t p = sum_list (drop (length ds - nat (pf_calls p)) ds) \<and>
     (\<forall>f. pf_freq p = Some f \<and> 0 < f \<longrightarrow> pf_calls p div f * f \<le> pf_max_calls p)"

lemma account_keeps [simp]:
  "pf_freq (account p t) = pf_freq p" "pf_max_calls (account p t) = pf_max_calls p"
  "read_clock T (account p t) = read_clock T p"
  by (simp_all add: account_def Let_def read_clock_def)

lemma div_step: "0 < (f :: int) \<Longrightarrow> n mod f \<noteq> 0 \<Longrightarrow> n div f * f = (n - 1) div f * f"
proof -
  assume f: "0 < f" and n: "n mod f \<noteq> 0"
  have m: "0 \<le> n mod f" "n mod f < f" using f by simp_all
  have "n - 1 = f * (n div f) + (n mod f - 1)" by simp
  then have "(n - 1) div f = n div f" using m n by (intro int_div_pos_eq [of _ f _ "n mod f - 1"]) simp_all
  then show ?thesis by simp
qed

lemma account_inv:
  assumes "acc_inv p ds"
  shows "acc_inv (account (p\<lparr>pf_start := t1\<rparr>) t2) (ds @ [t2 - t1])"
proof -
  let ?n = "pf_calls p + 1"
  have n: "nat ?n = Suc (nat (pf_calls p))" using assms by (simp add: acc_inv_def Suc_nat_eq_nat_zadd1 add.commute)
  have sum: "sum_list (drop (length (ds @ [t2 - t1]) - nat ?n) (ds @ [t2 - t1])) = pf_t p + (t2 - t1)"
    using assms by (simp add: acc_inv_def n)
  have "?n div f * f \<le> pf_max_calls p" if "pf_freq p = Some f" "0 < f" "\<not> (?n mod f = 0 \<and> pf_max_calls p < ?n)" for f
  proof (cases "?n mod f = 0")
    case True
    then have "?n div f * f = ?n" by auto
    then show ?thesis using that True by simp
  next
    case False
    then show ?thesis using div_step [OF that(2) False] assms that by (simp add: acc_inv_def)
  qed
  then show ?thesis using assms sum n by (auto simp: account_def Let_def acc_inv_def split: option.splits)
qed

lemma run_accounts:
  assumes "clock_ok (read_clock T (profiles w ! k))" and "enabled w" and "k < length (profiles w)" and "acc_inv (profiles w ! k) ds0"
    and "timed_calls (read_clock T (profiles w ! k)) fs (rest w) = (rs, ds, v)"
  shows "\<exists>q. run_calls (map (\<lambda>f. profile_wrapper T k (on_rest f)) fs) w = (rs, w\<lparr>rest := v, profiles := (profiles w)[k := q]\<rparr>) \<and>
    acc_inv q (ds0 @ ds) \<and> pf_freq q = pf_freq (profiles w ! k) \<and> pf_max_calls q = pf_max_calls (profiles w ! k)"
  using assms
proof (induction fs arbitrary: w ds0 rs ds)
  case Nil
  then show ?case by (intro exI [of _ "profiles w ! k"]) simp
next
  case (Cons f fs)
  let ?p = "profiles w ! k"
  obtain t1 v1 where 1: "read_clock T ?p (rest w) = (Inr t1, v1)" using Cons.prems(1) unfolding clock_ok_def by blast
  obtain r v2 where 2: "f v1 = (r, v2)" by (rule prod.exhaust)
  obtain t2 v3 where 3: "read_clock T ?p v2 = (Inr t2, v3)" using Cons.prems(1) unfolding clock_ok_def by blast
  let ?q = "account (?p\<lparr>pf_start := t1\<rparr>) t2"
  let ?w = "w\<lparr>rest := v3, profiles := (profiles w)[k := ?q]\<rparr>"
  have step: "profile_wrapper T k (on_rest f) w = (r, ?w)"
    by (rule wrapper_step [where p = ?p and ?v1.0 = v1 and ?v2.0 = v2]) (use Cons.prems(1,2,3) 1 2 3 in simp_all)
  have at: "profiles ?w ! k = ?q" using Cons.prems(3) by simp
  obtain rs' ds' where 4: "timed_calls (read_clock T ?p) fs v3 = (rs', ds', v)" "rs = r # rs'" "ds = (t2 - t1) # ds'"
    using Cons.prems(5) 1 2 3 by (auto split: prod.splits)
  have "\<exists>q. run_calls (map (\<lambda>f. profile_wrapper T k (on_rest f)) fs) ?w = (rs', ?w\<lparr>rest := v, profiles := (profiles ?w)[k := q]\<rparr>) \<and>
    acc_inv q ((ds0 @ [t2 - t1]) @ ds') \<and> pf_freq q = pf_freq (profiles ?w ! k) \<and> pf_max_calls q = pf_max_calls (profiles ?w ! k)"
    using Cons.prems account_inv [OF Cons.prems(4)] 4(1) at by (intro Cons.IH) simp_all
  then obtain q where q: "run_calls (map (\<lambda>f. profile_wrapper T k (on_rest f)) fs) ?w = (rs', ?w\<lparr>rest := v, profiles := (profiles ?w)[k := q]\<rparr>)"
    "acc_inv q (ds0 @ ds)" "pf_freq q = pf_freq (profiles ?w ! k)" "pf_max_calls q = pf_max_calls (profiles ?w ! k)"
    using 4(3) by auto
  have "run_calls (map (\<lambda>f. profile_wrapper T k (on_rest f)) (f # fs)) w = (rs, w\<lparr>rest := v, profiles := (profiles w)[k := q]\<rparr>)"
    using step q(1) 4(2) by simp
  then show ?case using q(2-4) at by (intro exI [of _ q]) simp
qed

text \<open>Timing is transparent and its average is over real calls: whatever the decorated functions
  return or raise, every caller gets just that, from the same world apart from the clock, and the
  accumulated time is the sum of the durations of the last \<^verbatim>\<open>call_count\<close> calls, a number that never
  exceeds the limit by a logging period.\<close>

theorem profile_accounts:
  assumes "clock_ok (read_clock T p)" and "enabled w" and "k < length (profiles w)" and "profiles w ! k = p"
    and "pf_t p = 0" and "pf_calls p = 0" and "0 \<le> pf_max_calls p"
    and "timed_calls (read_clock T p) fs (rest w) = (rs, ds, v)"
  shows "\<exists>q. run_calls (map (\<lambda>f. profile_wrapper T k (on_rest f)) fs) w = (rs, w\<lparr>rest := v, profiles := (profiles w)[k := q]\<rparr>) \<and>
    0 \<le> pf_calls q \<and> nat (pf_calls q) \<le> length ds \<and> pf_t q = sum_list (drop (length ds - nat (pf_calls q)) ds) \<and>
    (\<forall>f. pf_freq p = Some f \<and> 0 < f \<longrightarrow> pf_calls q < pf_max_calls p + f)"
proof -
  have "acc_inv p []" using assms(5-7) by (simp add: acc_inv_def)
  then obtain q where q: "run_calls (map (\<lambda>f. profile_wrapper T k (on_rest f)) fs) w = (rs, w\<lparr>rest := v, profiles := (profiles w)[k := q]\<rparr>)"
    "acc_inv q ds" "pf_freq q = pf_freq p" "pf_max_calls q = pf_max_calls p"
    using run_accounts [of T w k "[]" fs rs ds v] assms by auto
  have "pf_calls q < pf_max_calls p + f" if "pf_freq p = Some f" "0 < f" for f
  proof -
    have "pf_calls q div f * f \<le> pf_max_calls p" using q(2-4) that by (simp add: acc_inv_def)
    moreover have "pf_calls q = pf_calls q div f * f + pf_calls q mod f" by simp
    moreover have "pf_calls q mod f < f" using that by simp
    ultimately show ?thesis by linarith
  qed
  then show ?thesis using q(1,2) by (intro exI [of _ q]) (simp add: acc_inv_def)
qed

text \<open>A clock that ticks once per reading; three calls with a limit of one and a period of two, of
  which the second raises: the second call resets the sums.\<close>

definition tick_timing :: "nat timing" where
  "tick_timing = \<lparr>tm_cuda = False, tm_cuda_sync = ret (), tm_torch = False, tm_torch_available = ret False, tm_torch_sync = ret (),
     tm_clock = (\<lambda>n. (Inr (real n + 1), n + 1))\<rparr>"

theorem profile_accounts_witness:
  "\<exists>q. run_calls (map (\<lambda>f. profile_wrapper tick_timing 0 (on_rest f)) [ret 7, raise KeyError, ret 8])
      \<lparr>enabled = True, profiles = [new_profile 0 True False (Some 2) 1 None], registry = [], prev_state = None, rest = 0\<rparr> =
        ([Inr (7 :: nat), Inl KeyError, Inr 8], \<lparr>enabled = True, profiles = [q], registry = [], prev_state = None, rest = 6\<rparr>) \<and>
      pf_calls q < 3"
proof -
  let ?p = "new_profile 0 True False (Some 2) 1 None"
  let ?w = "\<lparr>enabled = True, profiles = [?p], registry = [], prev_state = None, rest = 0 :: nat\<rparr>"
  have clk: "read_clock tick_timing ?p = (\<lambda>n. (Inr (real n + 1), n + 1))"
    by (simp add: read_clock_def tick_timing_def new_profile_def)
  have "clock_ok (read_clock tick_timing ?p)" by (simp add: clk clock_ok_def)
  moreover have "timed_calls (read_clock tick_timing ?p) [ret (7 :: nat), raise KeyError, ret 8] 0 = ([Inr 7, Inl KeyError, Inr 8], [1, 1, 1], 6)"
    by (simp add: clk)
  ultimately show ?thesis
    using profile_accounts [of tick_timing ?p ?w 0 "[ret (7 :: nat), raise KeyError, ret 8]" "[Inr 7, Inl KeyError, Inr 8]" "[1, 1, 1]" 6]
    by (auto simp: new_profile_def)
qed

text \<open>A failure under the decorator that switches timing off leaves it off for good: the flag is
  restored only when the function returns, so after an exception no later call is timed.\<close>

theorem noprofile_failure_disables:
  assumes "f (rest w) = (Inl e, v)"
  shows "no_profile_wrapper (on_rest f) w = (Inl e, w\<lparr>enabled := False, rest := v\<rparr>) \<and>
    profiles (snd (run_calls (map (\<lambda>f. profile_wrapper T k (on_rest f)) fs) (w\<lparr>enabled := False, rest := v\<rparr>))) = profiles w"
proof
  show "no_profile_wrapper (on_rest f) w = (Inl e, w\<lparr>enabled := False, rest := v\<rparr>)"
    using assms by (simp add: no_profile_wrapper_def bnd_def seq_def on_rest_apply)
next
  have "profiles (snd (run_calls (map (\<lambda>f. profile_wrapper T k (on_rest f)) fs) u)) = profiles u" if "\<not> enabled u" for u
    using that
  proof (induction fs arbitrary: u)
    case (Cons f fs)
    have "profile_wrapper T k (on_rest f) u = on_rest f u" using Cons.prems by (simp add: profile_wrapper_def bnd_def)
    then show ?case using Cons by (simp add: case_prod_beta on_rest_apply [of f])
  qed simp
  then show "profiles (snd (run_calls (map (\<lambda>f. profile_wrapper T k (on_rest f)) fs) (w\<lparr>enabled := False, rest := v\<rparr>))) = profiles w"
    by simp
qed

theorem noprofile_failure_disables_witness:
  "no_profile_wrapper (on_rest (raise KeyError :: (nat, nat) io)) \<lparr>enabled = True, profiles = [], registry = [], prev_state = None, rest = 0\<rparr> =
    (Inl KeyError, \<lparr>enabled = False, profiles = [], registry = [], prev_state = None, rest = 0\<rparr>)"
  using noprofile_failure_disables [of "raise KeyError :: (nat, nat) io"
      "\<lparr>enabled = True, profiles = [], registry = [], prev_state = None, rest = 0\<rparr>" KeyError 0 tick_timing 0 "[]"] by simp

text \<open>The one object of \<^verbatim>\<open>NoProfile\<close> holds one previous state, so of two nested blocks the outer one
  restores what the inner one saw.\<close>

lemma nested_no_profile_disables:
  "enabled (snd (seq no_profile_enter (seq no_profile_enter (seq no_profile_exit no_profile_exit)) w)) = False"
  by (simp add: no_profile_enter_def no_profile_exit_def bnd_def seq_def)

lemma get_profile_once:
  assumes "get_profile p name w = (Inr k, w1)"
  shows "get_profile q name w1 = (Inr k, w1)"
  using assms by (auto simp: get_profile_def split: option.splits)

text \<open>Switching compilation sets the attribute of the module the function was defined in, for every
  registered function; a method, which is an attribute of a class, is not reached.\<close>

lemma toggle_sets:
  assumes "dget (jit_registry s) i = Some e" and "\<And>j d. dget (jit_registry s) j = Some d \<Longrightarrow>
      je_module d = je_module e \<Longrightarrow> je_name d = je_name e \<Longrightarrow> je_original d = je_original e"
    and "distinct (dkeys (jit_registry s))"
  shows "dget (module_attrs (toggle_jit jit on s)) (je_module e, je_name e) = Some (if on then jit (je_original e) else je_original e)"
proof -
  have "dget (module_attrs (fold (toggle_one jit on) es t)) (je_module e, je_name e) = Some (if on then jit (je_original e) else je_original e)"
    if "e \<in> set es \<or> dget (module_attrs t) (je_module e, je_name e) = Some (if on then jit (je_original e) else je_original e)"
      and "\<And>d. d \<in> set es \<Longrightarrow> je_module d = je_module e \<Longrightarrow> je_name d = je_name e \<Longrightarrow> je_original d = je_original e" for es t
    using that
  proof (induction es arbitrary: t)
    case (Cons d es)
    have "e \<in> set es \<or> dget (module_attrs (toggle_one jit on d t)) (je_module e, je_name e) =
        Some (if on then jit (je_original e) else je_original e)"
      using Cons.prems(1) Cons.prems(2) [of d] by (cases "e \<in> set es") (auto simp: toggle_one_def)
    from Cons.IH [OF this] Cons.prems(2) show ?case by simp
  qed simp
  moreover have "e \<in> set (dvalues (jit_registry s))" using assms(1) by (rule dget_dvalues)
  moreover have "je_original d = je_original e" if "d \<in> set (dvalues (jit_registry s))" "je_module d = je_module e" "je_name d = je_name e" for d
  proof -
    have "d \<in> snd ` set (jit_registry s)" using that(1) by (simp add: dvalues_def)
    then obtain j where "(j, d) \<in> set (jit_registry s)" by force
    then have "dget (jit_registry s) j = Some d" using assms(3) by (simp add: dkeys_def)
    then show ?thesis using assms(2) that by blast
  qed
  ultimately have "dget (module_attrs (fold (toggle_one jit on) (dvalues (jit_registry s)) (s\<lparr>use_numba := on\<rparr>))) (je_module e, je_name e) =
      Some (if on then jit (je_original e) else je_original e)"
    by blast
  then show ?thesis unfolding toggle_jit_def .
qed

end
