(* ===== verification/Runtimes.thy ===== *)
theory Runtimes
  imports Wave Config_Values Detectors
begin

text \<open>
  The inference backends of \<^verbatim>\<open>neudc/nn/backends/\<close>. \<^verbatim>\<open>trt.py\<close>: pinned host buffers and device buffers, the
  copies around an execution, the metadata in front of an engine; arrays returned to the caller are
  views of the pinned buffers, which are modelled as a store. \<^verbatim>\<open>torch.py\<close>: which checkpoint is loaded,
  the reused staging buffer, the conversion of the outputs. \<^verbatim>\<open>onnxruntime.py\<close>: the choice of the
  provider and the metadata. The calls of CUDA, TensorRT, PyTorch and ONNX Runtime are arguments.
\<close>

section \<open>CUDA\<close>

text \<open>A status of the driver API, of the runtime API or of another type; the flag is success.\<close>

datatype cu_status = CUresult bool | CudaError bool | Other_status

definition check_cuda_err :: "cu_status \<Rightarrow> exn + unit" where
  "check_cuda_err err =
     (if err = CUresult False then Inl (RuntimeError ''Cuda Error'')
      else case err of
        CudaError ok \<Rightarrow> if \<not> ok then Inl (RuntimeError ''Cuda Runtime Error'') else Inr ()
      | _ \<Rightarrow> Inl (RuntimeError ''Unknown error type''))"

definition cuda_call :: "('w, cu_status \<times> 'a) io \<Rightarrow> ('w, 'a) io" where
  "cuda_call m = bnd m (\<lambda>(err, res). seq (of_res (check_cuda_err err)) (ret res))"

text \<open>Pinned host memory, by the index of the buffer, and the rest of the world with the device.\<close>

record 'g gpu =
  pinned :: "real list list"
  device :: 'g

definition on_device :: "('g, 'a) io \<Rightarrow> ('g gpu, 'a) io" where
  "on_device m = (\<lambda>w. case m (device w) of (r, g) \<Rightarrow> (r, w\<lparr>device := g\<rparr>))"

text \<open>Sizes are in bytes, device memory is an address. What \<^verbatim>\<open>cudaMallocHost\<close> returns holds some
  elements; the asynchronous copies are taken as done in the order of the stream.\<close>

record 'g cudart =
  cu_malloc_host :: "int \<Rightarrow> int \<Rightarrow> ('g, cu_status \<times> real list) io"   \<comment> \<open>bytes, elements\<close>
  cu_malloc :: "int \<Rightarrow> ('g, cu_status \<times> nat) io"
  cu_to_device :: "nat \<Rightarrow> real list \<Rightarrow> int \<Rightarrow> ('g, cu_status \<times> unit) io"
  cu_to_host :: "nat \<Rightarrow> int \<Rightarrow> ('g, cu_status \<times> real list) io"
  cu_synchronize :: "nat \<Rightarrow> ('g, cu_status \<times> unit) io"
  cu_stream_create :: "('g, cu_status \<times> nat) io"
  cu_stream_destroy :: "nat \<Rightarrow> ('g, cu_status \<times> unit) io"
  cu_free :: "nat \<Rightarrow> ('g, cu_status \<times> unit) io"
  cu_free_host :: "nat \<Rightarrow> ('g, cu_status \<times> unit) io"

section \<open>HostDeviceMem\<close>

record mem =
  hm_host :: nat
  hm_device :: nat
  hm_nbytes :: int
  hm_shape :: "nat list"

definition new_mem :: "'g cudart \<Rightarrow> int \<Rightarrow> nat list \<Rightarrow> nat \<Rightarrow> ('g gpu, mem) io" where
  "new_mem C n shape itemsize =
     bnd (cuda_call (on_device (cu_malloc_host C (n * int itemsize) n))) (\<lambda>h.
     bnd get_world (\<lambda>w. seq (modify (\<lambda>w. w\<lparr>pinned := pinned w @ [h]\<rparr>))
     (bnd (cuda_call (on_device (cu_malloc C (n * int itemsize)))) (\<lambda>d.
      ret \<lparr>hm_host = length (pinned w), hm_device = d, hm_nbytes = n * int itemsize, hm_shape = shape\<rparr>))))"

text \<open>The getter reshapes, which makes a view; reading it gives what the buffer holds then.\<close>

record view =
  vw_buffer :: nat
  vw_shape :: "nat list"

definition get_host :: "mem \<Rightarrow> ('g gpu, view) io" where
  "get_host m = bnd get_world (\<lambda>w. if prod_list (hm_shape m) = length (pinned w ! hm_host m)
     then ret \<lparr>vw_buffer = hm_host m, vw_shape = hm_shape m\<rparr> else raise (ValueError ''cannot reshape array''))"

definition read_view :: "'g gpu \<Rightarrow> view \<Rightarrow> ndarray" where
  "read_view w v = \<lparr>nd_shape = vw_shape v, nd_data = pinned w ! vw_buffer v\<rparr>"

definition write_host :: "nat \<Rightarrow> real list \<Rightarrow> ('g gpu, unit) io" where
  "write_host k xs = modify (\<lambda>w. w\<lparr>pinned := (pinned w)[k := xs @ drop (length xs) (pinned w ! k)]\<rparr>)"

text \<open>The setter with an array; \<open>safe\<close> says that its elements can be cast safely.\<close>

definition set_host :: "bool \<Rightarrow> mem \<Rightarrow> ndarray \<Rightarrow> ('g gpu, unit) io" where
  "set_host safe m a = bnd get_world (\<lambda>w.
     if length (pinned w ! hm_host m) < length (nd_data a) then raise (ValueError ''Tried to fit an array'')
     else if \<not> safe then raise (TypeError ''Cannot cast array data'')
     else write_host (hm_host m) (nd_data a))"

definition free_mem :: "'g cudart \<Rightarrow> mem \<Rightarrow> ('g gpu, unit) io" where
  "free_mem C m = seq (cuda_call (on_device (cu_free C (hm_device m))))
     (bnd (get_host m) (\<lambda>v. cuda_call (on_device (cu_free_host C (vw_buffer v)))))"

section \<open>The TensorRT backend\<close>

text \<open>What an engine says of a binding. The item size is None where numpy has no such type.\<close>

record binding =
  bi_name :: string
  bi_numpy_size :: "nat option"
  bi_itemsize :: nat
  bi_shape :: "int list"
  bi_max_shape :: "nat \<Rightarrow> int list"    \<comment> \<open>of a profile\<close>
  bi_input :: bool
  bi_half :: bool

text \<open>The engine: \<^verbatim>\<open>num_bindings\<close> is missing from version 10 on.\<close>

record 'g trt_engine =
  en_trt10 :: bool
  en_bindings :: "binding list"
  en_set_address :: "string \<Rightarrow> nat \<Rightarrow> ('g, unit) io"
  en_execute_v2 :: "nat \<Rightarrow> nat list \<Rightarrow> ('g, unit) io"
  en_execute_v3 :: "nat \<Rightarrow> ('g, unit) io"

record trt_backend =
  tb_inputs :: "mem list"
  tb_outputs :: "mem list"
  tb_bindings :: "nat list"
  tb_stream :: nat
  tb_fp16 :: bool
  tb_metadata :: raw_dict

definition allocate_one :: "'g cudart \<Rightarrow> nat option \<Rightarrow> binding \<Rightarrow> ('g gpu, mem) io" where
  "allocate_one C prof b =
     (let shape = (case prof of None \<Rightarrow> bi_shape b | Some p \<Rightarrow> bi_max_shape b p) in
      if (\<exists>s \<in> set shape. s < 0) \<and> prof = None then raise (ValueError ''dynamic shape'')
      else case bi_numpy_size b of
        Some k \<Rightarrow> new_mem C (prod_list shape) (map nat shape) k
      | None \<Rightarrow> new_mem C (prod_list shape * int (bi_itemsize b)) (map nat shape) 1)"

fun allocate_bindings :: "'g cudart \<Rightarrow> nat option \<Rightarrow> binding list \<Rightarrow> trt_backend \<Rightarrow> ('g gpu, trt_backend) io" where
  "allocate_bindings C prof [] B = ret B"
| "allocate_bindings C prof (b # bs) B = bnd (allocate_one C prof b) (\<lambda>m.
     let B1 = B\<lparr>tb_bindings := tb_bindings B @ [hm_device m]\<rparr> in
     allocate_bindings C prof bs
       (if bi_input b then B1\<lparr>tb_inputs := tb_inputs B1 @ [m], tb_fp16 := tb_fp16 B1 \<or> bi_numpy_size b \<noteq> None \<and> bi_half b\<rparr>
        else B1\<lparr>tb_outputs := tb_outputs B1 @ [m]\<rparr>))"

definition allocate_buffers :: "'g cudart \<Rightarrow> nat option \<Rightarrow> binding list \<Rightarrow> ('g gpu, trt_backend) io" where
  "allocate_buffers C prof bs = bnd (cuda_call (on_device (cu_stream_create C))) (\<lambda>s.
     allocate_bindings C prof bs \<lparr>tb_inputs = [], tb_outputs = [], tb_bindings = [], tb_stream = s, tb_fp16 = False, tb_metadata = []\<rparr>)"

text \<open>The metadata in front of the engine: a length of four bytes and that many bytes of JSON. The file
  is read from the start again when they are not UTF-8; no other error is caught.\<close>

definition read_metadata :: "(bytes \<Rightarrow> string option) \<Rightarrow> (string \<Rightarrow> yaml option) \<Rightarrow> bytes \<Rightarrow> exn + yaml \<times> bytes" where
  "read_metadata utf8 json_loads f =
     (let n = of_le (take 4 f) in case utf8 (take n (drop 4 f)) of
        None \<Rightarrow> Inr (YNull, f)
      | Some s \<Rightarrow> (case json_loads s of None \<Rightarrow> Inl JSONDecodeError | Some v \<Rightarrow> Inr (v, drop n (drop 4 f))))"

text \<open>\<^verbatim>\<open>int(v)\<close> and \<^verbatim>\<open>eval\<close> of a string are arguments.\<close>

definition eval_entry :: "(yaml \<Rightarrow> exn + int) \<Rightarrow> (string \<Rightarrow> exn + yaml) \<Rightarrow> string \<times> yaml \<Rightarrow> exn + string \<times> yaml" where
  "eval_entry to_int eval kv = (case kv of (k, v) \<Rightarrow>
     if k \<in> {''stride'', ''batch''} then map_sum id (\<lambda>n. (k, YInt n)) (to_int v)
     else if k \<in> {''imgsz'', ''names''} then (case v of YStr s \<Rightarrow> map_sum id (Pair k) (eval s) | _ \<Rightarrow> Inr (k, v))
     else Inr (k, v))"

definition eval_metadata :: "(yaml \<Rightarrow> exn + int) \<Rightarrow> (string \<Rightarrow> exn + yaml) \<Rightarrow> yaml \<Rightarrow> ('w, raw_dict) io" where
  "eval_metadata to_int eval m = (case m of
      YMap d \<Rightarrow> map_io (\<lambda>kv. of_res (eval_entry to_int eval kv)) d
    | _ \<Rightarrow> ret [])"

definition copy_in :: "'g cudart \<Rightarrow> nat \<Rightarrow> mem \<Rightarrow> ('g gpu, unit) io" where
  "copy_in C s m = bnd (get_host m) (\<lambda>v. bnd get_world (\<lambda>w.
     cuda_call (on_device (cu_to_device C (hm_device m) (pinned w ! vw_buffer v) (hm_nbytes m)))))"

definition copy_out :: "'g cudart \<Rightarrow> nat \<Rightarrow> mem \<Rightarrow> ('g gpu, unit) io" where
  "copy_out C s m = bnd (get_host m) (\<lambda>v.
     bnd (cuda_call (on_device (cu_to_host C (hm_device m) (hm_nbytes m)))) (\<lambda>xs. write_host (vw_buffer v) xs))"

definition do_inference_base :: "'g cudart \<Rightarrow> mem list \<Rightarrow> mem list \<Rightarrow> nat \<Rightarrow> ('g, unit) io \<Rightarrow> ('g gpu, view list) io" where
  "do_inference_base C inputs outputs s run =
     seq (for_each inputs (copy_in C s)) (seq (on_device run) (seq (for_each outputs (copy_out C s))
     (seq (cuda_call (on_device (cu_synchronize C s))) (map_io get_host outputs))))"

definition do_inference_old :: "'g cudart \<Rightarrow> 'g trt_engine \<Rightarrow> trt_backend \<Rightarrow> ('g gpu, view list) io" where
  "do_inference_old C E B = do_inference_base C (tb_inputs B) (tb_outputs B) (tb_stream B) (en_execute_v2 E (tb_stream B) (tb_bindings B))"

definition do_inference_new :: "'g cudart \<Rightarrow> 'g trt_engine \<Rightarrow> trt_backend \<Rightarrow> ('g gpu, view list) io" where
  "do_inference_new C E B =
     seq (for_each [0..<length (en_bindings E)] (\<lambda>i. on_device (en_set_address E (bi_name (en_bindings E ! i)) (tb_bindings B ! i))))
       (do_inference_base C (tb_inputs B) (tb_outputs B) (tb_stream B) (en_execute_v3 E (tb_stream B)))"

definition trt_call :: "'g cudart \<Rightarrow> 'g trt_engine \<Rightarrow> bool \<Rightarrow> trt_backend \<Rightarrow> ndarray \<Rightarrow> ('g gpu, view list) io" where
  "trt_call C E safe B a = (case tb_inputs B of
      [] \<Rightarrow> raise IndexError
    | m # _ \<Rightarrow> seq (set_host safe m a) (if en_trt10 E then do_inference_new C E B else do_inference_old C E B))"

definition trt_del :: "'g cudart \<Rightarrow> trt_backend \<Rightarrow> ('g gpu, unit) io" where
  "trt_del C B = seq (for_each (tb_inputs B @ tb_outputs B) (free_mem C)) (cuda_call (on_device (cu_stream_destroy C (tb_stream B))))"

text \<open>\<^verbatim>\<open>__init__\<close>: \<open>f\<close> is the content of the file, \<open>load\<close> deserializes the engine, whose
  execution context \<open>make_context\<close> makes.\<close>

definition new_trt :: "'g cudart \<Rightarrow> (int \<Rightarrow> ('g, bool) io) \<Rightarrow> (bytes \<Rightarrow> string option) \<Rightarrow> (string \<Rightarrow> yaml option) \<Rightarrow>
    (yaml \<Rightarrow> exn + int) \<Rightarrow> (string \<Rightarrow> exn + yaml) \<Rightarrow> (bytes \<Rightarrow> ('g, 'g trt_engine) io) \<Rightarrow> ('g trt_engine \<Rightarrow> ('g, unit) io) \<Rightarrow>
    bytes \<Rightarrow> int \<Rightarrow> ('g gpu, 'g trt_engine \<times> trt_backend) io" where
  "new_trt C set_device utf8 json_loads to_int eval load make_context f device_id =
     bnd (on_device (set_device device_id)) (\<lambda>ok. if \<not> ok then raise (AssertionError ''CUDA set device'')
     else bnd (of_res (read_metadata utf8 json_loads f)) (\<lambda>(meta, body).
     bnd (on_device (load body)) (\<lambda>E. bnd (eval_metadata to_int eval meta) (\<lambda>d.
     seq (on_device (make_context E)) (bnd (allocate_buffers C None (en_bindings E)) (\<lambda>B. ret (E, B\<lparr>tb_metadata := d\<rparr>)))))))"

section \<open>The PyTorch backend\<close>

text \<open>What \<^verbatim>\<open>torch.load\<close> gives.\<close>

datatype 'm ckpt = Module 'm | Dict "(string \<times> 'm ckpt) list" | Meta yaml

definition first_metadata :: "(string \<times> 'm ckpt) list \<Rightarrow> 'm ckpt" where
  "first_metadata d =
     (let m = (case filter (\<lambda>k. dget d k \<noteq> None) [''metadata'', ''config'', ''meta''] of
         [] \<Rightarrow> Dict [] | k # _ \<Rightarrow> the (dget d k)) in
      case dget d ''train_args'' of None \<Rightarrow> m | Some a \<Rightarrow> a)"

definition plain_checkpoint :: "'m ckpt \<Rightarrow> exn + 'm \<times> 'm ckpt" where
  "plain_checkpoint c =
     (let r = (case c of
          Dict d \<Rightarrow> (case dget d ''model'' of
              Some m \<Rightarrow> Inr (m, first_metadata d)
            | None \<Rightarrow> if dget d ''state_dict'' \<noteq> None then Inl (TypeError ''Model architecture required'') else Inr (c, Dict []))
        | _ \<Rightarrow> Inr (c, Dict [])) in
      case r of Inl e \<Rightarrow> Inl e
      | Inr (Module m, meta) \<Rightarrow> Inr (m, meta)
      | Inr _ \<Rightarrow> Inl (TypeError ''Loaded object is not a PyTorch model''))"

definition load_model :: "('w, 'm \<times> string) io \<Rightarrow> (string \<Rightarrow> yaml option) \<Rightarrow> ('w, 'm ckpt) io \<Rightarrow> ('w, 'm \<times> 'm ckpt) io" where
  "load_model jit_load json_loads torch_load =
     bnd (try_exn jit_load) (\<lambda>r. case r of
        Inr (m, cfg) \<Rightarrow> if cfg = [] then ret (m, Dict []) else (case json_loads cfg of
            None \<Rightarrow> raise JSONDecodeError | Some v \<Rightarrow> ret (m, Meta v))
      | Inl _ \<Rightarrow> catch_exn (bnd torch_load (\<lambda>c. of_res (plain_checkpoint c))) is_Exception
          (\<lambda>_. raise (RuntimeError ''Failed to load model'')))"

record 'm torch_ops =
  to_cuda_available :: bool
  to_prepare :: "'m \<Rightarrow> int \<Rightarrow> exn + 'm"     \<comment> \<open>\<^verbatim>\<open>model.eval().to(device)\<close>\<close>
  to_is_half :: "'m \<Rightarrow> exn + bool"          \<comment> \<open>of its first parameter\<close>
  to_half :: "'m \<Rightarrow> 'm"
  to_compile :: "'m \<Rightarrow> exn + 'm"

record 'm torch_backend =
  th_device :: int
  th_model :: "'m option"
  th_metadata :: "'m ckpt"
  th_fp16 :: bool
  th_compile :: bool
  th_staging :: "ndarray option"           \<comment> \<open>the pinned buffer\<close>

definition torch_device :: "bool \<Rightarrow> int \<Rightarrow> int" where
  "torch_device available device_id = (if 0 \<le> device_id \<and> \<not> available then -1 else device_id)"

definition compile_model :: "'m torch_ops \<Rightarrow> bool \<Rightarrow> 'm \<Rightarrow> exn + 'm \<times> bool" where
  "compile_model P on m = (if \<not> on then Inr (m, False) else case to_compile P m of
      Inr m' \<Rightarrow> Inr (m', True) | Inl e \<Rightarrow> if is_Exception e then Inr (m, False) else Inl e)"

definition new_torch :: "'m torch_ops \<Rightarrow> (int \<Rightarrow> ('w, 'm \<times> string) io) \<Rightarrow> (string \<Rightarrow> yaml option) \<Rightarrow> (int \<Rightarrow> ('w, 'm ckpt) io) \<Rightarrow>
    int \<Rightarrow> bool \<Rightarrow> bool \<Rightarrow> ('w, 'm torch_backend) io" where
  "new_torch P jit_load json_loads torch_load device_id compile fp16 =
     (let dev = torch_device (to_cuda_available P) device_id in
      bnd (load_model (jit_load dev) json_loads (torch_load dev)) (\<lambda>(m, meta).
      bnd (of_res (to_prepare P m dev)) (\<lambda>m.
      bnd (if fp16 then ret True else of_res (to_is_half P m)) (\<lambda>half.
      bnd (of_res (compile_model P compile (if half then to_half P m else m))) (\<lambda>(m, compiled).
      ret \<lparr>th_device = dev, th_model = Some m, th_metadata = meta, th_fp16 = half, th_compile = compiled, th_staging = None\<rparr>)))))"

text \<open>The staging buffer: \<open>alloc\<close> is what a fresh pinned buffer of a shape holds; the arrays have one
  element type. What goes to the device is the content of the buffer.\<close>

definition needs_new_staging :: "'m torch_backend \<Rightarrow> ndarray \<Rightarrow> bool" where
  "needs_new_staging b a = (case th_staging b of None \<Rightarrow> True | Some s \<Rightarrow> nd_shape s \<noteq> nd_shape a)"

definition stage_input :: "(nat list \<Rightarrow> ndarray) \<Rightarrow> ndarray \<Rightarrow> ('m torch_backend \<times> 'w, ndarray) io" where
  "stage_input alloc a = bnd self (\<lambda>b.
     if th_device b < 0 then ret a
     else let s = (if needs_new_staging b a then alloc (nd_shape a) else the (th_staging b));
              s' = s\<lparr>nd_data := nd_data a @ drop (length (nd_data a)) (nd_data s)\<rparr> in
       seq (on_self (\<lambda>b. b\<lparr>th_staging := Some s'\<rparr>)) (ret s'))"

text \<open>What a model returns, and what \<^verbatim>\<open>postprocess_output\<close> makes of it.\<close>

datatype ('t, 'x) py_out = OTensor 't | OArray ndarray | OList "('t, 'x) py_out list" | OTuple "('t, 'x) py_out list" | OOther 'x

fun process_output :: "('t \<Rightarrow> ndarray) \<Rightarrow> ('t, 'x) py_out \<Rightarrow> ('t, 'x) py_out" where
  "process_output to_cpu (OTensor t) = OArray (to_cpu t)"
| "process_output to_cpu (OList xs) = OList (map (process_output to_cpu) xs)"
| "process_output to_cpu (OTuple xs) = OList (map (process_output to_cpu) xs)"
| "process_output to_cpu x = x"

definition postprocess_output :: "('t \<Rightarrow> ndarray) \<Rightarrow> ('t, 'x) py_out \<Rightarrow> ('t, 'x) py_out list" where
  "postprocess_output to_cpu x = (case process_output to_cpu x of OList l \<Rightarrow> l | y \<Rightarrow> [y])"

definition torch_call :: "(nat list \<Rightarrow> ndarray) \<Rightarrow> (bool \<Rightarrow> ndarray \<Rightarrow> 't) \<Rightarrow> ('m \<Rightarrow> 't \<Rightarrow> ('w, ('t, 'x) py_out) io) \<Rightarrow> ('t \<Rightarrow> ndarray) \<Rightarrow>
    ndarray \<Rightarrow> ('m torch_backend \<times> 'w, ('t, 'x) py_out list) io" where
  "torch_call alloc cast run to_cpu a =
     bnd (stage_input alloc a) (\<lambda>x. bnd self (\<lambda>b. case th_model b of
        None \<Rightarrow> raise (AssertionError [])
      | Some m \<Rightarrow> bnd (lift_w (run m (cast (th_fp16 b) x))) (\<lambda>out. ret (postprocess_output to_cpu out))))"

section \<open>The ONNX Runtime backend\<close>

datatype provider = CPUExecutionProvider | CUDAExecutionProvider int

definition choose_provider :: "string list \<Rightarrow> int \<Rightarrow> provider \<times> int" where
  "choose_provider available device_id =
     (if device_id < 0 then (CPUExecutionProvider, device_id)
      else if ''CUDAExecutionProvider'' \<notin> set available then (CPUExecutionProvider, -1)
      else (CUDAExecutionProvider device_id, device_id))"

record 's onnx_session =
  os_inputs :: "(string \<times> string) list"               \<comment> \<open>name and type\<close>
  os_outputs :: "(string \<times> (string + int) list) list"   \<comment> \<open>name and shape\<close>
  os_metadata :: "(string \<times> string) list"
  os_run :: "string list \<Rightarrow> string \<Rightarrow> ndarray \<Rightarrow> ('s, ndarray list) io"

record onnx_backend =
  ox_provider :: provider
  ox_cuda :: bool
  ox_input :: string
  ox_outputs :: "string list"
  ox_metadata :: raw_dict
  ox_dynamic :: bool
  ox_fp16 :: bool

text \<open>\<^verbatim>\<open>ast.literal_eval\<close>, None for the errors that are caught.\<close>

definition parse_metadata :: "(string \<Rightarrow> yaml option) \<Rightarrow> (string \<times> string) list \<Rightarrow> raw_dict" where
  "parse_metadata literal_eval kvs = map (\<lambda>(k, s). (k, case literal_eval s of None \<Rightarrow> YStr s | Some v \<Rightarrow> v)) kvs"

definition is_infix :: "string \<Rightarrow> string \<Rightarrow> bool" where
  "is_infix s t = (\<exists>i < length t + 1. take (length s) (drop i t) = s)"

definition new_onnx :: "(string \<Rightarrow> yaml option) \<Rightarrow> (provider \<Rightarrow> ('w, 's onnx_session) io) \<Rightarrow> string list \<Rightarrow> int \<Rightarrow>
    ('w, 's onnx_session \<times> onnx_backend) io" where
  "new_onnx literal_eval open_session available device_id =
     (let (p, dev) = choose_provider available device_id in
      bnd (open_session p) (\<lambda>S. case (os_inputs S, os_outputs S) of
         ((i, ty) # _, (n, d # ds) # outs) \<Rightarrow>
           ret (S, \<lparr>ox_provider = p, ox_cuda = (0 \<le> dev), ox_input = i, ox_outputs = map fst (os_outputs S),
             ox_metadata = parse_metadata literal_eval (os_metadata S), ox_dynamic = (case d of Inl _ \<Rightarrow> True | Inr _ \<Rightarrow> False),
             ox_fp16 = is_infix ''float16'' ty\<rparr>)
       | _ \<Rightarrow> raise IndexError))"

definition onnx_call :: "'s onnx_session \<Rightarrow> onnx_backend \<Rightarrow> ndarray \<Rightarrow> ('s, ndarray list) io" where
  "onnx_call S b a = os_run S (ox_outputs b) (ox_input b) a"

section \<open>What a TensorRT call returns\<close>

text \<open>A device that copies what it is told to copy, and an execution that computes \<open>net\<close> from the input
  address into the output address.\<close>

definition gpu_ok :: "'g cudart \<Rightarrow> ('g \<Rightarrow> nat \<Rightarrow> real list) \<Rightarrow> bool" where
  "gpu_ok C dmem \<longleftrightarrow>
     (\<forall>d xs n g. \<exists>g'. cu_to_device C d xs n g = (Inr (CudaError True, ()), g') \<and> dmem g' = (dmem g)(d := xs)) \<and>
     (\<forall>d n g. cu_to_host C d n g = (Inr (CudaError True, dmem g d), g)) \<and>
     (\<forall>s g. \<exists>g'. cu_synchronize C s g = (Inr (CudaError True, ()), g'))"

definition computes :: "('g \<Rightarrow> nat \<Rightarrow> real list) \<Rightarrow> (real list \<Rightarrow> real list) \<Rightarrow> nat \<Rightarrow> nat \<Rightarrow> ('g, unit) io \<Rightarrow> bool" where
  "computes dmem net i out ex \<longleftrightarrow> (\<forall>g. \<exists>g'. ex g = (Inr (), g') \<and> dmem g' out = net (dmem g i))"

definition engine_ok :: "('g \<Rightarrow> nat \<Rightarrow> real list) \<Rightarrow> (real list \<Rightarrow> real list) \<Rightarrow> 'g trt_engine \<Rightarrow> trt_backend \<Rightarrow> mem \<Rightarrow> mem \<Rightarrow> bool" where
  "engine_ok dmem net E B mi mo \<longleftrightarrow> tb_inputs B = [mi] \<and> tb_outputs B = [mo] \<and>
     computes dmem net (hm_device mi) (hm_device mo) (en_execute_v2 E (tb_stream B) (tb_bindings B)) \<and>
     computes dmem net (hm_device mi) (hm_device mo) (en_execute_v3 E (tb_stream B)) \<and>
     (\<forall>n a g. \<exists>g'. en_set_address E n a g = (Inr (), g') \<and> dmem g' = dmem g) \<and>
     (\<forall>xs. length (net xs) = prod_list (hm_shape mo))"

text \<open>The two buffers are there, of the size of their shapes.\<close>

definition buffers_ok :: "mem \<Rightarrow> mem \<Rightarrow> 'g gpu \<Rightarrow> bool" where
  "buffers_ok mi mo w \<longleftrightarrow> hm_host mi \<noteq> hm_host mo \<and> hm_host mi < length (pinned w) \<and> hm_host mo < length (pinned w) \<and>
     length (pinned w ! hm_host mi) = prod_list (hm_shape mi) \<and> length (pinned w ! hm_host mo) = prod_list (hm_shape mo)"

lemma cuda_call_ok: "m w = (Inr (CudaError True, x), w') \<Longrightarrow> cuda_call m w = (Inr x, w')"
  by (simp add: cuda_call_def bnd_def seq_def check_cuda_err_def)

lemma cuda_device_call: "m (device w) = (Inr (CudaError True, x), g) \<Longrightarrow> cuda_call (on_device m) w = (Inr x, w\<lparr>device := g\<rparr>)"
  by (rule cuda_call_ok) (simp add: on_device_def)

lemma get_host_ok: "prod_list (hm_shape m) = length (pinned w ! hm_host m) \<Longrightarrow>
    get_host m w = (Inr \<lparr>vw_buffer = hm_host m, vw_shape = hm_shape m\<rparr>, w)"
  by (simp add: get_host_def bnd_def get_world_def)

lemma copy_in_ok:
  assumes "gpu_ok C dmem" and "prod_list (hm_shape m) = length (pinned w ! hm_host m)"
  shows "\<exists>g. copy_in C s m w = (Inr (), w\<lparr>device := g\<rparr>) \<and> dmem g = (dmem (device w))(hm_device m := pinned w ! hm_host m)"
proof -
  obtain g where g: "cu_to_device C (hm_device m) (pinned w ! hm_host m) (hm_nbytes m) (device w) = (Inr (CudaError True, ()), g)"
    "dmem g = (dmem (device w))(hm_device m := pinned w ! hm_host m)"
    using assms(1) unfolding gpu_ok_def by blast
  have "cuda_call (on_device (cu_to_device C (hm_device m) (pinned w ! hm_host m) (hm_nbytes m))) w = (Inr (), w\<lparr>device := g\<rparr>)"
    by (rule cuda_device_call) (rule g(1))
  then have "copy_in C s m w = (Inr (), w\<lparr>device := g\<rparr>)"
    by (simp add: copy_in_def bnd_def get_host_ok [OF assms(2)] get_world_def)
  then show ?thesis using g(2) by blast
qed

lemma copy_out_ok:
  assumes "gpu_ok C dmem" and "prod_list (hm_shape m) = length (pinned w ! hm_host m)"
    and "length (dmem (device w) (hm_device m)) = length (pinned w ! hm_host m)"
  shows "copy_out C s m w = (Inr (), w\<lparr>pinned := (pinned w)[hm_host m := dmem (device w) (hm_device m)]\<rparr>)"
proof -
  have "cu_to_host C (hm_device m) (hm_nbytes m) (device w) = (Inr (CudaError True, dmem (device w) (hm_device m)), device w)"
    using assms(1) unfolding gpu_ok_def by blast
  then have "cuda_call (on_device (cu_to_host C (hm_device m) (hm_nbytes m))) w = (Inr (dmem (device w) (hm_device m)), w)"
    using cuda_device_call [of "cu_to_host C (hm_device m) (hm_nbytes m)" w] by simp
  then show ?thesis
    using assms(3) by (simp add: copy_out_def bnd_def get_host_ok [OF assms(2)] write_host_def)
qed

lemma inference_base_ok:
  assumes "gpu_ok C dmem" and "computes dmem net (hm_device mi) (hm_device mo) ex" and "buffers_ok mi mo w"
    and "\<And>xs. length (net xs) = prod_list (hm_shape mo)"
  shows "\<exists>g. do_inference_base C [mi] [mo] s ex w = (Inr [\<lparr>vw_buffer = hm_host mo, vw_shape = hm_shape mo\<rparr>],
    w\<lparr>pinned := (pinned w)[hm_host mo := net (pinned w ! hm_host mi)], device := g\<rparr>)"
proof -
  let ?x = "pinned w ! hm_host mi"
  obtain g1 where 1: "copy_in C s mi w = (Inr (), w\<lparr>device := g1\<rparr>)" "dmem g1 = (dmem (device w))(hm_device mi := ?x)"
    using copy_in_ok [OF assms(1), of mi w s] assms(3) by (auto simp: buffers_ok_def)
  obtain g2 where 2: "ex g1 = (Inr (), g2)" "dmem g2 (hm_device mo) = net ?x"
    using assms(2) 1(2) unfolding computes_def by (metis fun_upd_same)
  let ?w2 = "w\<lparr>device := g2\<rparr>"
  let ?w3 = "w\<lparr>pinned := (pinned w)[hm_host mo := net ?x], device := g2\<rparr>"
  have e: "on_device ex (w\<lparr>device := g1\<rparr>) = (Inr (), ?w2)" using 2(1) by (simp add: on_device_def)
  have 3: "copy_out C s mo ?w2 = (Inr (), ?w3)"
    using copy_out_ok [OF assms(1), of mo ?w2 s] 2(2) assms(3,4) by (simp add: buffers_ok_def)
  obtain g4 where "cu_synchronize C s g2 = (Inr (CudaError True, ()), g4)" using assms(1) unfolding gpu_ok_def by blast
  then have 4: "cuda_call (on_device (cu_synchronize C s)) ?w3 = (Inr (), ?w3\<lparr>device := g4\<rparr>)"
    by (intro cuda_device_call) simp
  have 5: "get_host mo (?w3\<lparr>device := g4\<rparr>) = (Inr \<lparr>vw_buffer = hm_host mo, vw_shape = hm_shape mo\<rparr>, ?w3\<lparr>device := g4\<rparr>)"
    using assms(3,4) by (intro get_host_ok) (simp add: buffers_ok_def)
  show ?thesis
    using 1(1) e 3 4 5 by (intro exI [of _ g4]) (simp add: do_inference_base_def seq_def bnd_def)
qed

lemma set_addresses_ok:
  assumes "\<And>n a g. \<exists>g'. en_set_address E n a g = (Inr (), g') \<and> dmem g' = dmem g"
  shows "\<exists>g. for_each is (\<lambda>i. on_device (en_set_address E (nm i) (ad i))) w = (Inr (), w\<lparr>device := g\<rparr>) \<and> dmem g = dmem (device w)"
proof (induction "is" arbitrary: w)
  case Nil
  then show ?case by (intro exI [of _ "device w"]) simp
next
  case (Cons i js)
  obtain g1 where 1: "en_set_address E (nm i) (ad i) (device w) = (Inr (), g1)" "dmem g1 = dmem (device w)" using assms by blast
  obtain g2 where "for_each js (\<lambda>i. on_device (en_set_address E (nm i) (ad i))) (w\<lparr>device := g1\<rparr>) = (Inr (), w\<lparr>device := g2\<rparr>)" "dmem g2 = dmem g1"
    using Cons.IH [of "w\<lparr>device := g1\<rparr>"] by auto
  then show ?case using 1 by (intro exI [of _ g2]) (simp add: bnd_def on_device_def)
qed

lemma trt_call_view:
  assumes "gpu_ok C dmem" and "engine_ok dmem net E B mi mo" and "buffers_ok mi mo w"
    and "length (nd_data a) \<le> prod_list (hm_shape mi)"
  shows "\<exists>v w'. trt_call C E True B a w = (Inr [v], w') \<and> buffers_ok mi mo w' \<and> v = \<lparr>vw_buffer = hm_host mo, vw_shape = hm_shape mo\<rparr> \<and>
    pinned w' ! hm_host mo = net (nd_data a @ drop (length (nd_data a)) (pinned w ! hm_host mi))"
proof -
  let ?x = "nd_data a @ drop (length (nd_data a)) (pinned w ! hm_host mi)"
  let ?w1 = "w\<lparr>pinned := (pinned w)[hm_host mi := ?x]\<rparr>"
  have s: "set_host True mi a w = (Inr (), ?w1)"
    using assms(3,4) by (simp add: set_host_def bnd_def get_world_def write_host_def buffers_ok_def)
  have b1: "buffers_ok mi mo ?w1" using assms(3,4) by (auto simp: buffers_ok_def nth_list_update)
  have x: "pinned ?w1 ! hm_host mi = ?x" using assms(3) by (simp add: buffers_ok_def)
  obtain g where g: "for_each [0..<length (en_bindings E)] (\<lambda>i. on_device (en_set_address E (bi_name (en_bindings E ! i)) (tb_bindings B ! i))) ?w1 =
      (Inr (), ?w1\<lparr>device := g\<rparr>)"
    using set_addresses_ok [of E dmem "[0..<length (en_bindings E)]" "\<lambda>i. bi_name (en_bindings E ! i)" "\<lambda>i. tb_bindings B ! i" ?w1] assms(2)
    unfolding engine_ok_def by blast
  have net: "length (net xs) = prod_list (hm_shape mo)" for xs using assms(2) by (simp add: engine_ok_def)
  let ?v = "\<lparr>vw_buffer = hm_host mo, vw_shape = hm_shape mo\<rparr>"
  have "\<exists>g'. trt_call C E True B a w = (Inr [?v], w\<lparr>pinned := (pinned ?w1)[hm_host mo := net ?x], device := g'\<rparr>)"
  proof (cases "en_trt10 E")
    case True
    have "buffers_ok mi mo (?w1\<lparr>device := g\<rparr>)" using assms(3,4) by (simp add: buffers_ok_def)
    from inference_base_ok [where ex = "en_execute_v3 E (tb_stream B)" and s = "tb_stream B", OF assms(1) _ this net] show ?thesis
      using assms(2) True s g x by (auto simp: trt_call_def do_inference_new_def engine_ok_def seq_def bnd_def)
  next
    case False
    from inference_base_ok [where ex = "en_execute_v2 E (tb_stream B) (tb_bindings B)" and s = "tb_stream B", OF assms(1) _ b1 net] show ?thesis
      using assms(2) False s x by (auto simp: trt_call_def do_inference_old_def engine_ok_def seq_def bnd_def)
  qed
  then obtain g' where "trt_call C E True B a w = (Inr [?v], w\<lparr>pinned := (pinned ?w1)[hm_host mo := net ?x], device := g'\<rparr>)" ..
  moreover have "buffers_ok mi mo (w\<lparr>pinned := (pinned ?w1)[hm_host mo := net ?x], device := g'\<rparr>)"
    using assms(3,4) net by (simp add: buffers_ok_def)
  moreover have "pinned (w\<lparr>pinned := (pinned ?w1)[hm_host mo := net ?x], device := g'\<rparr>) ! hm_host mo = net ?x"
    using assms(3) by (simp add: buffers_ok_def)
  ultimately show ?thesis by (intro exI [of _ ?v] exI) auto
qed

text \<open>C16: A call of the TensorRT backend runs the engine on its input: an input that fits is written into
  the pinned buffer, copied, executed and copied back, in both versions of the API, and the result is
  a view of the output buffer, which then holds the network's output. Behind an input shorter than
  the buffer the engine also sees what earlier calls left there.\<close>

theorem trt_call_runs_engine:
  assumes "gpu_ok C dmem" and "engine_ok dmem net E B mi mo" and "buffers_ok mi mo w"
    and "length (nd_data a) \<le> prod_list (hm_shape mi)"
  shows "\<exists>v w'. trt_call C E True B a w = (Inr [v], w') \<and> buffers_ok mi mo w' \<and> vw_buffer v = hm_host mo \<and>
    read_view w' v = \<lparr>nd_shape = hm_shape mo, nd_data = net (nd_data a @ drop (length (nd_data a)) (pinned w ! hm_host mi))\<rparr>"
  using trt_call_view [OF assms] by (auto simp: read_view_def)

text \<open>The smallest engine: one number in, one out, which is its double. Device memory is a function.\<close>

definition demo_cuda :: "(nat \<Rightarrow> real list) cudart" where
  "demo_cuda = \<lparr>cu_malloc_host = (\<lambda>_ n. ret (CudaError True, replicate (nat n) 0)), cu_malloc = (\<lambda>_. ret (CudaError True, 0)),
     cu_to_device = (\<lambda>d xs n g. (Inr (CudaError True, ()), g(d := xs))), cu_to_host = (\<lambda>d n g. (Inr (CudaError True, g d), g)),
     cu_synchronize = (\<lambda>s. ret (CudaError True, ())), cu_stream_create = ret (CudaError True, 0),
     cu_stream_destroy = (\<lambda>s. ret (CudaError True, ())), cu_free = (\<lambda>d. ret (CudaError True, ())), cu_free_host = (\<lambda>d. ret (CudaError True, ()))\<rparr>"

definition double_net :: "real list \<Rightarrow> real list" where
  "double_net xs = [2 * (case xs of [] \<Rightarrow> 0 | x # _ \<Rightarrow> x)]"

definition demo_engine :: "(nat \<Rightarrow> real list) trt_engine" where
  "demo_engine = \<lparr>en_trt10 = True, en_bindings = [], en_set_address = (\<lambda>n a. ret ()), en_execute_v2 = (\<lambda>s bs g. (Inr (), g(1 := double_net (g 0)))),
     en_execute_v3 = (\<lambda>s g. (Inr (), g(1 := double_net (g 0))))\<rparr>"

definition demo_in :: mem where
  "demo_in = \<lparr>hm_host = 0, hm_device = 0, hm_nbytes = 4, hm_shape = [1]\<rparr>"

definition demo_out :: mem where
  "demo_out = \<lparr>hm_host = 1, hm_device = 1, hm_nbytes = 4, hm_shape = [1]\<rparr>"

definition demo_trt :: trt_backend where
  "demo_trt = \<lparr>tb_inputs = [demo_in], tb_outputs = [demo_out], tb_bindings = [0, 1], tb_stream = 0, tb_fp16 = False, tb_metadata = []\<rparr>"

definition demo_gpu :: "(nat \<Rightarrow> real list) gpu" where
  "demo_gpu = \<lparr>pinned = [[0], [0]], device = (\<lambda>_. [0])\<rparr>"

definition number :: "real \<Rightarrow> ndarray" where
  "number x = \<lparr>nd_shape = [1], nd_data = [x]\<rparr>"

lemma demo_trt_ok:
  "gpu_ok demo_cuda (\<lambda>g. g)" "engine_ok (\<lambda>g. g) double_net demo_engine demo_trt demo_in demo_out" "buffers_ok demo_in demo_out demo_gpu"
  by (simp_all add: gpu_ok_def demo_cuda_def engine_ok_def computes_def demo_engine_def demo_trt_def demo_in_def demo_out_def
      double_net_def buffers_ok_def demo_gpu_def)

theorem trt_call_runs_engine_witness:
  "\<exists>v w'. trt_call demo_cuda demo_engine True demo_trt (number 3) demo_gpu = (Inr [v], w') \<and>
     read_view w' v = \<lparr>nd_shape = [1], nd_data = [6]\<rparr>"
  using trt_call_runs_engine [OF demo_trt_ok, of "number 3"]
  by (auto simp: demo_in_def demo_out_def number_def double_net_def)

lemma trt_input_too_large:
  assumes "tb_inputs B = m # ms" and "length (pinned w ! hm_host m) < length (nd_data a)"
  shows "trt_call C E safe B a w = (Inl (ValueError ''Tried to fit an array''), w)"
  using assms by (simp add: trt_call_def seq_def bnd_def set_host_def get_world_def)

section \<open>Results that are overwritten\<close>

text \<open>C15: The tiling detector in batches of tiles mistakes the last batch for all of them when it runs on the
  TensorRT backend: the outputs it collects are views of the one pinned output buffer, which each call
  overwrites, so when they are concatenated every batch reads as the output for the last one.\<close>

theorem trt_chunks_alias:
  assumes "gpu_ok C dmem" and "engine_ok dmem net E B mi mo" and "buffers_ok mi mo w" and "chunks \<noteq> []"
    and "list_all (\<lambda>c. length (nd_data c) = prod_list (hm_shape mi)) chunks"
  shows "\<exists>vs w'. chunk_outputs (trt_call C E True B) chunks w = (Inr vs, w') \<and>
    map (read_view w') vs = replicate (length chunks) \<lparr>nd_shape = hm_shape mo, nd_data = net (nd_data (last chunks))\<rparr>"
proof -
  have "\<exists>vs w'. chunk_outputs (trt_call C E True B) chunks w = (Inr vs, w') \<and> length vs = length chunks \<and>
      (\<forall>v \<in> set vs. v = \<lparr>vw_buffer = hm_host mo, vw_shape = hm_shape mo\<rparr>) \<and> pinned w' ! hm_host mo = net (nd_data (last chunks))"
    using assms(3-5)
  proof (induction chunks arbitrary: w)
    case (Cons c cs)
    have "length (nd_data c) \<le> prod_list (hm_shape mi)" using Cons.prems(3) by simp
    from trt_call_view [OF assms(1,2) Cons.prems(1) this] obtain v w1 where 1: "trt_call C E True B c w = (Inr [v], w1)" "buffers_ok mi mo w1"
      "v = \<lparr>vw_buffer = hm_host mo, vw_shape = hm_shape mo\<rparr>"
      "pinned w1 ! hm_host mo = net (nd_data c @ drop (length (nd_data c)) (pinned w ! hm_host mi))" by blast
    have full: "drop (length (nd_data c)) (pinned w ! hm_host mi) = []" using Cons.prems(1,3) by (simp add: buffers_ok_def)
    show ?case
    proof (cases "cs = []")
      case True
      then show ?thesis using 1 full by (intro exI [of _ "[v]"] exI [of _ w1]) (simp add: chunk_outputs_def bnd_def)
    next
      case False
      obtain vs w' where 2: "chunk_outputs (trt_call C E True B) cs w1 = (Inr vs, w')" "length vs = length cs"
        "\<forall>v \<in> set vs. v = \<lparr>vw_buffer = hm_host mo, vw_shape = hm_shape mo\<rparr>" "pinned w' ! hm_host mo = net (nd_data (last cs))"
        using Cons.IH [OF 1(2) False] Cons.prems(3) by auto
      then show ?thesis using 1 False by (intro exI [of _ "v # vs"] exI [of _ w']) (simp add: chunk_outputs_def bnd_def)
    qed
  qed simp
  then obtain vs w' where r: "chunk_outputs (trt_call C E True B) chunks w = (Inr vs, w')" "length vs = length chunks"
    "\<forall>v \<in> set vs. v = \<lparr>vw_buffer = hm_host mo, vw_shape = hm_shape mo\<rparr>" "pinned w' ! hm_host mo = net (nd_data (last chunks))" by blast
  have "map (read_view w') vs = replicate (length chunks) \<lparr>nd_shape = hm_shape mo, nd_data = net (nd_data (last chunks))\<rparr>"
  proof -
    have "vs = replicate (length chunks) \<lparr>vw_buffer = hm_host mo, vw_shape = hm_shape mo\<rparr>"
      using r(2,3) by (intro replicate_eqI) simp_all
    then show ?thesis using r(4) by (simp add: read_view_def)
  qed
  with r(1) show ?thesis by blast
qed

theorem trt_chunks_alias_witness:
  "\<exists>vs w'. chunk_outputs (trt_call demo_cuda demo_engine True demo_trt) [number 3, number 5] demo_gpu = (Inr vs, w') \<and>
     map (read_view w') vs = [number 10, number 10]"
proof -
  have "list_all (\<lambda>c. length (nd_data c) = prod_list (hm_shape demo_in)) [number 3, number 5]"
    by (simp add: number_def demo_in_def)
  from trt_chunks_alias [OF demo_trt_ok _ this] show ?thesis
    by (simp add: number_def demo_out_def double_net_def numeral_2_eq_2)
qed

section \<open>Allocation, checkpoints and outputs\<close>

text \<open>A success of the driver API is reported as an unknown error type.\<close>

lemma driver_success_fails: "check_cuda_err (CUresult True) = Inl (RuntimeError ''Unknown error type'')"
  by (simp add: check_cuda_err_def)

lemma prod_list_nat: "list_all (\<lambda>s. 0 < s) xs \<Longrightarrow> int (prod_list (map nat xs)) = prod_list xs \<and> 0 < prod_list xs"
  by (induction xs) auto

text \<open>The byte buffer of a binding whose type numpy does not have cannot be read in the binding's shape,
  unless its items are single bytes.\<close>

lemma byte_buffer_unreadable:
  assumes "bi_numpy_size b = None" and "bi_itemsize b \<noteq> 1" and "list_all (\<lambda>s. 0 < s) (bi_shape b)"
    and "cu_malloc_host C (prod_list (bi_shape b) * int (bi_itemsize b)) (prod_list (bi_shape b) * int (bi_itemsize b)) (device w) = (Inr (CudaError True, hs), g)"
    and "length hs = nat (prod_list (bi_shape b) * int (bi_itemsize b))"
    and "cu_malloc C (prod_list (bi_shape b) * int (bi_itemsize b)) g = (Inr (CudaError True, d), g')"
  shows "\<exists>m w'. allocate_one C None b w = (Inr m, w') \<and> get_host m w' = (Inl (ValueError ''cannot reshape array''), w')"
proof -
  let ?n = "prod_list (bi_shape b) * int (bi_itemsize b)"
  let ?m = "\<lparr>hm_host = length (pinned w), hm_device = d, hm_nbytes = ?n, hm_shape = map nat (bi_shape b)\<rparr>"
  let ?w = "w\<lparr>pinned := pinned w @ [hs], device := g'\<rparr>"
  have p: "int (prod_list (map nat (bi_shape b))) = prod_list (bi_shape b)" "0 < prod_list (bi_shape b)"
    using prod_list_nat [OF assms(3)] by simp_all
  have "\<not> (\<exists>s \<in> set (bi_shape b). s < 0)" using assms(3) by (auto simp: list_all_iff)
  moreover have 1: "cuda_call (on_device (cu_malloc_host C ?n ?n)) w = (Inr hs, w\<lparr>device := g\<rparr>)"
    by (rule cuda_device_call) (rule assms(4))
  moreover have 2: "cuda_call (on_device (cu_malloc C ?n)) (w\<lparr>device := g, pinned := pinned w @ [hs]\<rparr>) = (Inr d, ?w)"
    using cuda_device_call [of "cu_malloc C ?n" "w\<lparr>device := g, pinned := pinned w @ [hs]\<rparr>"] assms(6) by simp
  ultimately have "allocate_one C None b w = (Inr ?m, ?w)"
    using assms(1) by (simp add: allocate_one_def new_mem_def bnd_def seq_def get_world_def Let_def)
  moreover have "prod_list (map nat (bi_shape b)) \<noteq> length hs"
  proof
    assume "prod_list (map nat (bi_shape b)) = length hs"
    then have "prod_list (bi_shape b) = ?n" using p assms(5) by simp
    then show False using p(2) assms(2) by simp
  qed
  then have "get_host ?m ?w = (Inl (ValueError ''cannot reshape array''), ?w)"
    by (simp add: get_host_def bnd_def get_world_def)
  ultimately show ?thesis by blast
qed

lemma stage_input_exact:
  assumes "0 \<le> th_device b" and "length (nd_data a) = prod_list (nd_shape a)" and "\<And>s. nd_shape (alloc s) = s \<and> length (nd_data (alloc s)) = prod_list s"
    and "\<And>s. th_staging b = Some s \<Longrightarrow> length (nd_data s) = prod_list (nd_shape s)"
  shows "stage_input alloc a (b, w) = (Inr a, b\<lparr>th_staging := Some a\<rparr>, w)"
proof -
  let ?s = "if needs_new_staging b a then alloc (nd_shape a) else the (th_staging b)"
  have "nd_shape ?s = nd_shape a \<and> length (nd_data ?s) = length (nd_data a)"
    using assms(2-4) by (auto simp: needs_new_staging_def split: option.splits if_splits)
  then have "?s\<lparr>nd_data := nd_data a @ drop (length (nd_data a)) (nd_data ?s)\<rparr> = a" by (cases ?s; cases a) simp
  then show ?thesis using assms(1) by (simp add: stage_input_def bnd_def seq_def Let_def)
qed

fun tensor_free :: "('t, 'x) py_out \<Rightarrow> bool" where
  "tensor_free (OTensor t) = False"
| "tensor_free (OList xs) = list_all tensor_free xs"
| "tensor_free (OTuple xs) = list_all tensor_free xs"
| "tensor_free x = True"

lemma process_output_free: "tensor_free (process_output f x)"
  by (induction x rule: tensor_free.induct) (simp_all add: list_all_iff)

lemma postprocess_free: "list_all tensor_free (postprocess_output f x)"
  using process_output_free [of f x] by (auto simp: postprocess_output_def split: py_out.splits)

text \<open>Loading gives a model or an error; a TorchScript file wins, and every failure of both formats is a
  \<^verbatim>\<open>RuntimeError\<close>.\<close>

lemma load_model_fallback:
  assumes "jit_load w = (Inl e, w1)" and "is_Exception e" and "torch_load w1 = (Inr c, w2)"
  shows "load_model jit_load json_loads torch_load w =
    ((case plain_checkpoint c of Inr r \<Rightarrow> Inr r | Inl _ \<Rightarrow> Inl (RuntimeError ''Failed to load model'')), w2)"
proof -
  have ex: "plain_checkpoint c = Inl d \<Longrightarrow> is_Exception d" for d
    by (auto simp: plain_checkpoint_def Let_def split: ckpt.splits option.splits sum.splits if_splits)
  show ?thesis
    using assms ex by (cases "plain_checkpoint c") (simp_all add: load_model_def bnd_def try_exn_def catch_exn_def)
qed

lemma provider_on_demand:
  "choose_provider avail i = (CUDAExecutionProvider k, d) \<longleftrightarrow> 0 \<le> i \<and> ''CUDAExecutionProvider'' \<in> set avail \<and> k = i \<and> d = i"
  by (auto simp: choose_provider_def)

text \<open>An engine without metadata whose first bytes happen to decode is not loaded.\<close>

lemma metadata_json_error_escapes:
  assumes "utf8 (take (of_le (take 4 f)) (drop 4 f)) = Some s" and "json_loads s = None"
  shows "read_metadata utf8 json_loads f = Inl JSONDecodeError"
  using assms by (simp add: read_metadata_def Let_def)

end
