(* ===== verification/Batched_Crops.thy ===== *)
theory Batched_Crops
  imports Runtimes
begin

text \<open>
  The tiling detector of \<^verbatim>\<open>neudc/nn/models/det/sahi.py\<close> on the PyTorch backend of
  \<^verbatim>\<open>neudc/nn/backends/torch.py\<close>: the crops go through the reused staging buffer batch by batch, and
  the predictions are those of one call on all of them. On the TensorRT backend they are not
  (\<open>trt_chunks_alias\<close> in \<open>Runtimes\<close>).
\<close>

section \<open>The PyTorch backend as the detectors call it\<close>

text \<open>A batch of images of one shape is one array.\<close>

definition stack_arrays :: "ndarray list \<Rightarrow> ndarray" where
  "stack_arrays xs = \<lparr>nd_shape = length xs # (case xs of [] \<Rightarrow> [] | x # _ \<Rightarrow> nd_shape x), nd_data = concat (map nd_data xs)\<rparr>"

definition cut_rows :: "nat \<Rightarrow> nat \<Rightarrow> 'a list \<Rightarrow> 'a list list" where
  "cut_rows n k xs = map (\<lambda>i. take k (drop (i * k) xs)) [0..<n]"

text \<open>A returned array by its dimension; one of more than three is no output of these detectors.\<close>

definition array_tensor :: "ndarray \<Rightarrow> exn + tensor" where
  "array_tensor a = (case nd_shape a of
      [] \<Rightarrow> Inr (Scalar (hd (nd_data a)))
    | [n] \<Rightarrow> Inr (Vec (nd_data a))
    | [n, k] \<Rightarrow> Inr (Mat (cut_rows n k (nd_data a)))
    | [n, k, l] \<Rightarrow> Inr (Stack (map (cut_rows k l) (cut_rows n (k * l) (nd_data a))))
    | _ \<Rightarrow> Inl (ValueError ''too many dimensions''))"

fun out_tensor :: "('t, 'x) py_out \<Rightarrow> exn + tensor" where
  "out_tensor (OArray a) = array_tensor a"
| "out_tensor _ = Inl (TypeError ''no array'')"

definition torch_detector :: "metadata \<Rightarrow> (nat list \<Rightarrow> ndarray) \<Rightarrow> (bool \<Rightarrow> ndarray \<Rightarrow> 't) \<Rightarrow>
    ('m \<Rightarrow> 't \<Rightarrow> ('w, ('t, 'x) py_out) io) \<Rightarrow> ('t \<Rightarrow> ndarray) \<Rightarrow> bool \<Rightarrow> ('m torch_backend \<times> 'w, ndarray) backend" where
  "torch_detector md alloc cast run to_cpu half = \<lparr>be_metadata = md, be_fp16 = half,
     be_call = (\<lambda>xs. bnd (torch_call alloc cast run to_cpu (stack_arrays xs)) (\<lambda>outs. map_io (\<lambda>y. of_res (out_tensor y)) outs))\<rparr>"

section \<open>What the backend returns\<close>

text \<open>The network treats the images of a batch, all of shape \<open>sh\<close>, one by one: the first array it returns
  has the matrix \<open>f x\<close> for each image \<open>x\<close>.\<close>

definition image_of :: "nat list \<Rightarrow> ndarray \<Rightarrow> bool" where
  "image_of sh x \<longleftrightarrow> nd_shape x = sh \<and> length (nd_data x) = prod_list sh"

definition network_per_image :: "(bool \<Rightarrow> ndarray \<Rightarrow> 't) \<Rightarrow> bool \<Rightarrow> ('m \<Rightarrow> 't \<Rightarrow> ('w, ('t, 'x) py_out) io) \<Rightarrow> 'm \<Rightarrow>
    ('t \<Rightarrow> ndarray) \<Rightarrow> nat list \<Rightarrow> (ndarray \<Rightarrow> real list list) \<Rightarrow> bool" where
  "network_per_image cast half run m to_cpu sh f \<longleftrightarrow>
     (\<forall>xs w. xs \<noteq> [] \<and> list_all (image_of sh) xs \<longrightarrow> (\<exists>out ts w'. run m (cast half (stack_arrays xs)) w = (Inr out, w') \<and>
        map out_tensor (postprocess_output to_cpu out) = map Inr (Stack (map f xs) # ts)))"

text \<open>A fresh pinned buffer has the size of its shape; so has the one in use.\<close>

definition fresh_buffers :: "(nat list \<Rightarrow> ndarray) \<Rightarrow> bool" where
  "fresh_buffers alloc \<longleftrightarrow> (\<forall>s. nd_shape (alloc s) = s \<and> length (nd_data (alloc s)) = prod_list s)"

definition torch_ready :: "'m \<Rightarrow> bool \<Rightarrow> 'm torch_backend \<Rightarrow> bool" where
  "torch_ready m half b \<longleftrightarrow> th_model b = Some m \<and> th_fp16 b = half \<and>
     (case th_staging b of None \<Rightarrow> True | Some s \<Rightarrow> length (nd_data s) = prod_list (nd_shape s))"

lemma stack_sized:
  assumes "xs \<noteq> []" and "list_all (image_of sh) xs"
  shows "length (nd_data (stack_arrays xs)) = prod_list (nd_shape (stack_arrays xs))"
proof -
  have "map (length \<circ> nd_data) xs = replicate (length xs) (prod_list sh)"
    using assms(2) by (intro replicate_eqI) (auto simp: image_of_def list_all_iff)
  then have "length (concat (map nd_data xs)) = length xs * prod_list sh"
    by (simp add: length_concat sum_list_replicate)
  then show ?thesis using assms by (cases xs) (simp_all add: stack_arrays_def image_of_def)
qed

text \<open>Whatever shape the buffer had, what reaches the network is the batch.\<close>

lemma stage_ready:
  assumes "fresh_buffers alloc" and "torch_ready m half b" and "length (nd_data a) = prod_list (nd_shape a)"
  shows "\<exists>b'. stage_input alloc a (b, w) = (Inr a, b', w) \<and> torch_ready m half b'"
proof (cases "th_device b < 0")
  case True
  then show ?thesis using assms(2) by (simp add: stage_input_def bnd_def)
next
  case False
  then have "stage_input alloc a (b, w) = (Inr a, b\<lparr>th_staging := Some a\<rparr>, w)"
    using assms by (intro stage_input_exact) (auto simp: fresh_buffers_def torch_ready_def)
  then show ?thesis using assms(2,3) by (auto simp: torch_ready_def)
qed

lemma map_io_res: "map f ys = map Inr ts \<Longrightarrow> map_io (\<lambda>y. of_res (f y)) ys w = (Inr ts, w)"
proof (induction ys arbitrary: ts)
  case (Cons y ys)
  then obtain u us where "ts = u # us" "f y = Inr u" "map f ys = map Inr us" by (cases ts) auto
  then show ?case using Cons.IH by (simp add: bnd_def)
qed simp

lemma torch_detector_call:
  assumes "fresh_buffers alloc" and "torch_ready m half b" and "network_per_image cast half run m to_cpu sh f"
    and "xs \<noteq> []" and "list_all (image_of sh) xs"
  shows "\<exists>ts b' w'. be_call (torch_detector md alloc cast run to_cpu half) xs (b, w) = (Inr (Stack (map f xs) # ts), b', w') \<and>
    torch_ready m half b'"
proof -
  obtain b' where b': "stage_input alloc (stack_arrays xs) (b, w) = (Inr (stack_arrays xs), b', w)" "torch_ready m half b'"
    using stage_ready [OF assms(1,2) stack_sized [OF assms(4,5)], of w] by blast
  obtain out ts w' where net: "run m (cast half (stack_arrays xs)) w = (Inr out, w')"
    "map out_tensor (postprocess_output to_cpu out) = map Inr (Stack (map f xs) # ts)"
    using assms(3-5) unfolding network_per_image_def by blast
  have "torch_call alloc cast run to_cpu (stack_arrays xs) (b, w) = (Inr (postprocess_output to_cpu out), b', w')"
    using b' net(1) by (simp add: torch_call_def bnd_def torch_ready_def)
  moreover have "map_io (\<lambda>y. of_res (out_tensor y)) (postprocess_output to_cpu out) (b', w') = (Inr (Stack (map f xs) # ts), b', w')"
    using net(2) by (rule map_io_res)
  ultimately have "be_call (torch_detector md alloc cast run to_cpu half) xs (b, w) = (Inr (Stack (map f xs) # ts), b', w')"
    by (simp add: torch_detector_def bnd_def)
  then show ?thesis using b'(2) by blast
qed

section \<open>Chunks\<close>

lemma concat_chunks:
  "0 < b \<Longrightarrow> concat (map (\<lambda>k. take b (drop (k * b) xs)) [0..<n]) = take (n * b) xs"
proof (induction n)
  case (Suc n)
  have "take (Suc n * b) xs = take (n * b) xs @ take b (drop (n * b) xs)"
    by (metis add.commute mult_Suc take_add)
  then show ?case using Suc by simp
qed simp

lemma ceil_div_covers: "0 < b \<Longrightarrow> n \<le> (n + b - 1) div b * (b :: nat)"
proof -
  assume "0 < b"
  then have "n + b - 1 = (n + b - 1) div b * b + (n + b - 1) mod b" "(n + b - 1) mod b < b" by simp_all
  then show ?thesis by linarith
qed

lemma chunk_inside:
  assumes "0 < b" and "k < (n + b - 1) div b"
  shows "k * b < (n :: nat)"
proof -
  have "(k + 1) * b \<le> (n + b - 1) div b * b" using assms(2) by (intro mult_le_mono1) simp
  also have "\<dots> \<le> n + b - 1" by simp
  finally show ?thesis using assms(1) by simp
qed

text \<open>The calls on the chunks, one after the other on the same backend object.\<close>

lemma chunk_outputs_torch:
  assumes "fresh_buffers alloc" and "network_per_image cast half run m to_cpu sh f"
    and "list_all (\<lambda>c. c \<noteq> [] \<and> list_all (image_of sh) c) cs" and "torch_ready m half b"
  shows "\<exists>b' w'. chunk_outputs (be_call (torch_detector md alloc cast run to_cpu half)) cs (b, w) =
    (Inr (map (\<lambda>c. Stack (map f c)) cs), b', w')"
  using assms(3,4)
proof (induction cs arbitrary: b w)
  case (Cons c cs)
  obtain ts b1 w1 where 1: "be_call (torch_detector md alloc cast run to_cpu half) c (b, w) = (Inr (Stack (map f c) # ts), b1, w1)"
    "torch_ready m half b1"
    using torch_detector_call [OF assms(1) Cons.prems(2) assms(2), of c md w] Cons.prems(1) by auto
  obtain b' w' where "chunk_outputs (be_call (torch_detector md alloc cast run to_cpu half)) cs (b1, w1) =
      (Inr (map (\<lambda>c. Stack (map f c)) cs), b', w')"
    using Cons.IH [OF _ 1(2), of w1] Cons.prems(1) unfolding list.pred_inject by blast
  then show ?case using 1(1) by (simp add: chunk_outputs_def bnd_def)
qed (simp add: chunk_outputs_def)

lemma concatenate_stacks:
  "cs \<noteq> [] \<Longrightarrow> np_concatenate (map (\<lambda>c. Stack (map f c)) cs) w = (Inr (map (Mat \<circ> f) (concat cs)), w)"
proof -
  assume "cs \<noteq> []"
  have "map_io tensor_items (map (\<lambda>c. Stack (map f c)) cs) w = (Inr (map (map (Mat \<circ> f)) cs), w)"
    by (induction cs) (simp_all add: bnd_def)
  then show ?thesis using \<open>cs \<noteq> []\<close> by (simp add: np_concatenate_def bnd_def map_concat)
qed

text \<open>C38: On the PyTorch backend the tiling detector may cut its crops into batches of any positive size
  (or -1, all at once): let the network treat the images of a batch one by one and let fresh pinned
  buffers have the size asked for. Then the predictions are one matrix for each crop, in order, the
  network's for that crop, exactly as one call on all of them gives: no crop is lost, repeated or
  moved, and the staging buffer that the calls share, which a last and shorter batch does not fit,
  brings nothing of one batch into another. (For TensorRT, whose results are overwritten, this is
  false.)\<close>

theorem sahi_batches_equal_whole:
  assumes "network_per_image cast half run m to_cpu sh f" and "fresh_buffers alloc" and "torch_ready m half tb"
    and "b = -1 \<or> 0 < b" and "xs \<noteq> []" and "list_all (image_of sh) xs"
  shows "fst (sahi_predict (torch_detector md alloc cast run to_cpu half) b xs (tb, w)) = Inr (map (Mat \<circ> f) xs) \<and>
    fst (first_output (torch_detector md alloc cast run to_cpu half) xs (tb, w)) = Inr (map (Mat \<circ> f) xs)"
proof -
  let ?be = "torch_detector md alloc cast run to_cpu half"
  obtain ts b' w' where "be_call ?be xs (tb, w) = (Inr (Stack (map f xs) # ts), b', w')"
    using torch_detector_call [OF assms(2,3,1,5,6)] by blast
  then have whole: "fst (first_output ?be xs (tb, w)) = Inr (map (Mat \<circ> f) xs)"
    by (simp add: first_output_def bnd_def list_item_def)
  show ?thesis
  proof (cases "b = -1 \<or> int (length xs) < b")
    case True
    then show ?thesis using whole by (simp add: sahi_predict_def)
  next
    case False
    then have b: "0 < b" "0 < nat b" using assms(4) by auto
    define n where "n = (length xs + nat b - 1) div nat b"
    define cs where "cs = map (\<lambda>k. take (nat b) (drop (k * nat b) xs)) [0..<n]"
    have "1 \<le> length xs" using assms(5) by (cases xs) simp_all
    then have "nat b \<le> length xs + nat b - 1" by linarith
    then have "0 < n" using b(2) by (simp add: n_def div_greater_zero_iff)
    then have ne: "cs \<noteq> []" by (simp add: cs_def)
    have chunk: "c \<noteq> [] \<and> list_all (image_of sh) c" if "c \<in> set cs" for c
    proof -
      have "\<exists>k<n. c = take (nat b) (drop (k * nat b) xs)" using that by (auto simp: cs_def)
      then obtain k where k: "k < n" "c = take (nat b) (drop (k * nat b) xs)" by blast
      have "set c \<subseteq> set xs" unfolding k(2) by (meson order.trans set_drop_subset set_take_subset)
      then show ?thesis
        using chunk_inside [OF b(2), of k "length xs"] k b(2) assms(6) by (auto simp: n_def list_all_iff)
    qed
    have "list_all (\<lambda>c. c \<noteq> [] \<and> list_all (image_of sh) c) cs"
      unfolding list_all_iff [of "\<lambda>c. c \<noteq> [] \<and> list_all (image_of sh) c"] using chunk by blast
    then obtain b1 w1 where out: "chunk_outputs (be_call ?be) cs (tb, w) = (Inr (map (\<lambda>c. Stack (map f c)) cs), b1, w1)"
      using chunk_outputs_torch [OF assms(2,1) _ assms(3), of cs md w] by blast
    have "concat cs = xs"
      using ceil_div_covers [OF b(2), of "length xs"] by (simp add: cs_def n_def concat_chunks [OF b(2)])
    then have "fst (sahi_predict ?be b xs (tb, w)) = Inr (map (Mat \<circ> f) xs)"
      using False b out concatenate_stacks [OF ne, of f "(b1, w1)"]
      by (simp add: sahi_predict_def chunk_starts_def bnd_def comp_def cs_def n_def)
    then show ?thesis using whole by blast
  qed
qed

text \<open>Three images of one number in batches of two, on a GPU; the network doubles every number, and the
  buffer still has the last batch of two when the batch of one comes.\<close>

definition demo_alloc :: "nat list \<Rightarrow> ndarray" where
  "demo_alloc s = \<lparr>nd_shape = s, nd_data = replicate (prod_list s) 0\<rparr>"

definition demo_run :: "unit \<Rightarrow> ndarray \<Rightarrow> (nat, (ndarray, unit) py_out) io" where
  "demo_run m a w = (Inr (OTensor \<lparr>nd_shape = nd_shape a @ [1], nd_data = map (\<lambda>x. 2 * x) (nd_data a)\<rparr>), Suc w)"

definition demo_torch :: "unit torch_backend" where
  "demo_torch = \<lparr>th_device = 0, th_model = Some (), th_metadata = Dict [], th_fp16 = False, th_compile = False, th_staging = None\<rparr>"

definition doubled :: "ndarray \<Rightarrow> real list list" where
  "doubled x = [[2 * hd (nd_data x)]]"

lemma cut_singles: "cut_rows (length xs) (Suc 0) xs = map (\<lambda>x. [x]) xs"
  by (rule nth_equalityI) (simp_all add: cut_rows_def take_Suc hd_drop_conv_nth)

lemma demo_network: "network_per_image (\<lambda>_ a. a) False demo_run () (\<lambda>t. t) [1] doubled"
  unfolding network_per_image_def
proof (intro allI impI)
  fix xs :: "ndarray list" and w :: nat
  assume xs: "xs \<noteq> [] \<and> list_all (image_of [1]) xs"
  have data: "concat (map nd_data ys) = map (\<lambda>x. hd (nd_data x)) ys" if "list_all (image_of [1]) ys" for ys
    using that by (induction ys) (auto simp: image_of_def length_Suc_conv)
  have shape: "nd_shape (stack_arrays xs) = [length xs, 1]"
    using xs by (cases xs) (auto simp: stack_arrays_def image_of_def)
  have all: "map (\<lambda>x. 2 * x) (nd_data (stack_arrays xs)) = map (\<lambda>x. 2 * hd (nd_data x)) xs"
    using data [of xs] xs by (simp add: stack_arrays_def comp_def)
  have cut: "cut_rows (length xs) (Suc 0) (map (\<lambda>x. 2 * hd (nd_data x)) xs) = map (\<lambda>x. [2 * hd (nd_data x)]) xs"
    using cut_singles [of "map (\<lambda>x. 2 * hd (nd_data x)) xs"] by (simp add: comp_def)
  have one: "cut_rows (Suc 0) (Suc 0) [y] = [[y]]" for y :: real by (simp add: cut_rows_def)
  have "array_tensor \<lparr>nd_shape = nd_shape (stack_arrays xs) @ [1], nd_data = map (\<lambda>x. 2 * x) (nd_data (stack_arrays xs))\<rparr> =
      Inr (Stack (map doubled xs))"
    unfolding all by (simp add: shape array_tensor_def cut one comp_def doubled_def)
  then show "\<exists>out ts w'. demo_run () (stack_arrays xs) w = (Inr out, w') \<and>
      map out_tensor (postprocess_output (\<lambda>t. t) out) = map Inr (Stack (map doubled xs) # ts)"
    by (simp add: demo_run_def postprocess_output_def)
qed

theorem sahi_batches_equal_whole_witness:
  "fst (sahi_predict (torch_detector \<lparr>md_names = None, md_imgsz = None, md_stride = None\<rparr> demo_alloc (\<lambda>_ a. a) demo_run (\<lambda>t. t) False)
     2 [number 1, number 2, number 3] (demo_torch, 0)) = Inr [Mat [[2]], Mat [[4]], Mat [[6]]]"
proof -
  have "fresh_buffers demo_alloc" "torch_ready () False demo_torch" "list_all (image_of [1]) [number 1, number 2, number 3]"
    by (simp_all add: fresh_buffers_def demo_alloc_def torch_ready_def demo_torch_def image_of_def number_def)
  from sahi_batches_equal_whole [OF demo_network this(1,2) _ _ this(3), of 2] show ?thesis
    by (simp add: doubled_def number_def)
qed

end
