(* ===== verification/Model_Config.thy ===== *)
theory Model_Config
  imports Config_Values Py_Text
begin

text \<open>
  \<^verbatim>\<open>neudc/schemas.py\<close>: the validation of the settings of a model and of a data source. Pydantic
  validates the fields in the order of their declaration, collects the errors, and hands a validator
  the values of the fields before its own that were valid; an exception that is not a \<^verbatim>\<open>ValueError\<close>
  leaves it at once. The coercions are those of \<open>Config_Values\<close>; whether a pair passes the constraint
  \<^verbatim>\<open>gt=0\<close> is an argument.
\<close>

section \<open>ModelConfig\<close>

datatype backend_type = TORCH | TENSORRT | ONNXRUNTIME

definition backend_name :: "backend_type \<Rightarrow> string" where
  "backend_name b = (case b of TORCH \<Rightarrow> ''TorchBackend'' | TENSORRT \<Rightarrow> ''TensorRTBackend'' | ONNXRUNTIME \<Rightarrow> ''ONNXRuntimeBackend'')"

definition backend_of :: "yaml \<Rightarrow> backend_type option" where
  "backend_of v = find (\<lambda>b. v = YStr (backend_name b)) [TORCH, TENSORRT, ONNXRUNTIME]"

datatype imgsz = Img_int int | Img_pair int int

record model_config =
  mc_path :: string
  mc_device :: string
  mc_backend :: backend_type
  mc_conf :: real
  mc_iou :: real
  mc_imgsz :: imgsz
  mc_names :: "string list"

definition validate_device :: "string \<Rightarrow> string option" where
  "validate_device v = (if v = ''cpu'' \<or> v = ''cuda'' then Some v else None)"

text \<open>The device is None when it was not valid.\<close>

definition validate_backend :: "string option \<Rightarrow> backend_type \<Rightarrow> backend_type option" where
  "validate_backend dev v =
     (if v = TENSORRT \<and> \<not> (\<exists>k \<in> set [0..<length (case dev of None \<Rightarrow> ''cpu'' | Some d \<Rightarrow> d)].
        starts_with ''cuda'' (drop k (case dev of None \<Rightarrow> ''cpu'' | Some d \<Rightarrow> d))) then None else Some v)"

definition has_suffix :: "string list \<Rightarrow> string \<Rightarrow> bool" where
  "has_suffix sfx v = list_ex (\<lambda>s. drop (length v - length s) (map lower_char v) = s) sfx"

text \<open>The second argument is \<^verbatim>\<open>values.data.get("backend")\<close>.\<close>

definition validate_model_path :: "(string \<Rightarrow> bool) \<Rightarrow> backend_type option \<Rightarrow> string \<Rightarrow> string option" where
  "validate_model_path file_exists backend v =
     (if \<not> file_exists v then None
      else if \<not> has_suffix [''.pt'', ''.pth'', ''.engine'', ''.torchscript''] v then None
      else if backend = Some TORCH \<and> \<not> has_suffix [''.pt'', ''.pth'', ''.torchscript''] v then None
      else if backend = Some TENSORRT \<and> \<not> has_suffix [''.engine''] v then None
      else Some v)"

text \<open>A pair comes as a tuple, never as the list the validator looks for.\<close>

definition validate_imgsz :: "imgsz \<Rightarrow> imgsz option" where
  "validate_imgsz v = (case v of Img_int n \<Rightarrow> if n \<le> 0 then None else Some v | Img_pair _ _ \<Rightarrow> None)"

definition coerce_imgsz :: "pydantic \<Rightarrow> (int \<times> int \<Rightarrow> bool) \<Rightarrow> yaml \<Rightarrow> imgsz option" where
  "coerce_imgsz V gt v = (case v of
      YList [a, b] \<Rightarrow> (case (py_int V a, py_int V b) of
          (Some m, Some n) \<Rightarrow> if gt (m, n) then Some (Img_pair m n) else None
        | _ \<Rightarrow> None)
    | _ \<Rightarrow> (case py_int V v of Some n \<Rightarrow> if 0 < n then Some (Img_int n) else None | None \<Rightarrow> None))"

definition unit_float :: "pydantic \<Rightarrow> yaml \<Rightarrow> real option" where
  "unit_float V v = (case py_float V v of Some x \<Rightarrow> if 0 \<le> x \<and> x \<le> 1 then Some x else None | None \<Rightarrow> None)"

definition nonempty_names :: "pydantic \<Rightarrow> yaml \<Rightarrow> string list option" where
  "nonempty_names V v = (case list_of (py_str V) v of Some (n # ns) \<Rightarrow> Some (n # ns) | _ \<Rightarrow> None)"

text \<open>A default is not validated. The path comes first, when no value is known.\<close>

definition parse_model_config :: "pydantic \<Rightarrow> (string \<Rightarrow> bool) \<Rightarrow> (int \<times> int \<Rightarrow> bool) \<Rightarrow> raw_dict \<Rightarrow> exn + model_config" where
  "parse_model_config V file_exists gt d =
     (let path = Option.bind (Option.bind (dget d ''path'') (py_str V)) (validate_model_path file_exists None);
          dev = field_of (\<lambda>v. Option.bind (py_str V v) validate_device) ''cpu'' d ''device'' in
      case (path, dev, field_of (\<lambda>v. Option.bind (backend_of v) (validate_backend dev)) TORCH d ''backend'',
        field_of (unit_float V) 0.25 d ''conf'', field_of (unit_float V) 0.45 d ''iou'',
        field_of (\<lambda>v. Option.bind (coerce_imgsz V gt v) validate_imgsz) (Img_int 640) d ''imgsz'',
        Option.bind (dget d ''names'') (nonempty_names V)) of
        (Some p, Some dv, Some b, Some c, Some i, Some s, Some ns) \<Rightarrow>
          Inr \<lparr>mc_path = p, mc_device = dv, mc_backend = b, mc_conf = c, mc_iou = i, mc_imgsz = s, mc_names = ns\<rparr>
      | _ \<Rightarrow> Inl (ValueError ''ValidationError''))"

section \<open>DataConfig\<close>

record data_config =
  dc_paths :: "string list"
  dc_skip_frames :: int
  dc_intervals :: "real list list option"
  dc_result_dir :: string
  dc_flags :: "bool list"

definition validate_paths :: "(string \<Rightarrow> bool) \<Rightarrow> string list \<Rightarrow> string list" where
  "validate_paths file_exists v = filter file_exists v"

text \<open>The validator runs on a given null too, and iterates over it.\<close>

definition validate_intervals :: "real list list option \<Rightarrow> exn + real list list option" where
  "validate_intervals v = (case v of
      None \<Rightarrow> Inl (TypeError ''NoneType object is not iterable'')
    | Some l \<Rightarrow> if list_all (\<lambda>i. length i = 2 \<and> i ! 0 < i ! 1) l then Inr v else Inl (ValueError ''Interval''))"

definition coerce_intervals :: "pydantic \<Rightarrow> yaml \<Rightarrow> real list list option option" where
  "coerce_intervals V v = (case opt_of (list_of (list_of (py_float V))) v of
      Some (Some l) \<Rightarrow> if l \<noteq> [] \<and> list_all (\<lambda>i. length i = 2) l then Some (Some l) else None
    | r \<Rightarrow> r)"

text \<open>The directory is made as soon as its field is valid, whatever the other fields are.\<close>

definition parse_data_config :: "pydantic \<Rightarrow> (string \<Rightarrow> bool) \<Rightarrow> (string \<Rightarrow> ('w, unit) io) \<Rightarrow> raw_dict \<Rightarrow> ('w, data_config) io" where
  "parse_data_config V file_exists mkdir d =
     (let paths = map_option (validate_paths file_exists) (Option.bind (dget d ''paths'') (list_of (py_str V)));
          skip = field_of (\<lambda>v. case py_int V v of Some n \<Rightarrow> if 0 \<le> n then Some n else None | None \<Rightarrow> None) 0 d ''skip_frames'';
          flags = all_some (\<lambda>(k, b). field_of (py_bool V) b d k) [(''save_imgs_with_prediction_bbox'', True),
            (''save_coco_annotations'', True), (''save_zip'', False), (''check_duplicates'', False)] in
      bnd (case dget d ''intervals'' of
          None \<Rightarrow> ret (Some None)
        | Some v \<Rightarrow> (case coerce_intervals V v of
            None \<Rightarrow> ret None
          | Some l \<Rightarrow> (case validate_intervals l of
              Inr l' \<Rightarrow> ret (Some l')
            | Inl e \<Rightarrow> if is_ValueError e then ret None else raise e))) (\<lambda>intervals.
      bnd (case dget d ''save_result_dir'' of
          None \<Rightarrow> ret (Some ''results/'')
        | Some v \<Rightarrow> (case py_str V v of None \<Rightarrow> ret None | Some s \<Rightarrow> seq (mkdir s) (ret (Some s)))) (\<lambda>dir.
      case (paths, skip, intervals, dir, flags) of
        (Some p, Some s, Some i, Some r, Some f) \<Rightarrow> ret \<lparr>dc_paths = p, dc_skip_frames = s, dc_intervals = i, dc_result_dir = r, dc_flags = f\<rparr>
      | _ \<Rightarrow> raise (ValueError ''ValidationError''))))"

section \<open>What is accepted\<close>

lemma field_of_cases: "field_of c x d k = Some y \<Longrightarrow> (\<And>v. dget d k = Some v \<Longrightarrow> c v = Some y \<Longrightarrow> P y) \<Longrightarrow> P x \<Longrightarrow> P y"
  by (auto simp: field_of_def split: option.splits)

lemma parse_model_parts:
  assumes "parse_model_config V ex gt d = Inr c"
  shows "Option.bind (Option.bind (dget d ''path'') (py_str V)) (validate_model_path ex None) = Some (mc_path c) \<and>
    field_of (\<lambda>v. Option.bind (py_str V v) validate_device) ''cpu'' d ''device'' = Some (mc_device c) \<and>
    field_of (\<lambda>v. Option.bind (backend_of v) (validate_backend (Some (mc_device c)))) TORCH d ''backend'' = Some (mc_backend c) \<and>
    field_of (unit_float V) 0.25 d ''conf'' = Some (mc_conf c) \<and> field_of (unit_float V) 0.45 d ''iou'' = Some (mc_iou c) \<and>
    field_of (\<lambda>v. Option.bind (coerce_imgsz V gt v) validate_imgsz) (Img_int 640) d ''imgsz'' = Some (mc_imgsz c) \<and>
    Option.bind (dget d ''names'') (nonempty_names V) = Some (mc_names c)"
  using assms unfolding parse_model_config_def Let_def by (auto split: option.splits)

lemma unit_floatD: "unit_float V v = Some x \<Longrightarrow> 0 \<le> x \<and> x \<le> 1"
  by (auto simp: unit_float_def split: option.splits if_splits)

lemma validate_imgszD: "validate_imgsz v = Some s \<Longrightarrow> \<exists>n. s = Img_int n \<and> 0 < n"
  by (cases v) (auto simp: validate_imgsz_def split: if_splits)

lemma cpu_has_no_cuda: "validate_backend (Some ''cpu'') TENSORRT = None"
  by (auto simp: validate_backend_def starts_with_def upt_conv_Cons)

text \<open>An accepted model configuration is usable: the file exists and has one of the four suffixes, the
  device is \<^verbatim>\<open>cpu\<close> or \<^verbatim>\<open>cuda\<close>, TensorRT comes with \<^verbatim>\<open>cuda\<close>, both thresholds lie between 0 and 1, the
  image size is one positive number, never a pair, and there is a class name.\<close>

theorem model_config_sound:
  assumes "parse_model_config V ex gt d = Inr c"
  shows "ex (mc_path c) \<and> has_suffix [''.pt'', ''.pth'', ''.engine'', ''.torchscript''] (mc_path c) \<and>
    mc_device c \<in> {''cpu'', ''cuda''} \<and> (mc_backend c \<noteq> TENSORRT \<or> mc_device c = ''cuda'') \<and>
    0 \<le> mc_conf c \<and> mc_conf c \<le> 1 \<and> 0 \<le> mc_iou c \<and> mc_iou c \<le> 1 \<and>
    (\<exists>n. mc_imgsz c = Img_int n \<and> 0 < n) \<and> mc_names c \<noteq> []"
proof -
  note p = parse_model_parts [OF assms]
  have path: "validate_model_path ex None (mc_path c) = Some (mc_path c)"
    using p by (auto simp: validate_model_path_def split: if_splits Option.bind_splits)
  have dev: "mc_device c \<in> {''cpu'', ''cuda''}"
    using p by (auto simp: field_of_def validate_device_def split: option.splits if_splits Option.bind_splits)
  have be: "mc_backend c \<noteq> TENSORRT \<or> mc_device c = ''cuda''"
  proof (rule ccontr)
    assume n: "\<not> (mc_backend c \<noteq> TENSORRT \<or> mc_device c = ''cuda'')"
    then have "mc_device c = ''cpu''" using dev by simp
    then show False using p n cpu_has_no_cuda
      by (auto simp: field_of_def validate_backend_def split: option.splits if_splits Option.bind_splits)
  qed
  have conf: "0 \<le> mc_conf c \<and> mc_conf c \<le> 1" "0 \<le> mc_iou c \<and> mc_iou c \<le> 1"
    using p by (auto simp: field_of_def dest: unit_floatD split: option.splits)
  have img: "\<exists>n. mc_imgsz c = Img_int n \<and> 0 < n"
  proof -
    have "field_of (\<lambda>v. Option.bind (coerce_imgsz V gt v) validate_imgsz) (Img_int 640) d ''imgsz'' = Some (mc_imgsz c)" using p by blast
    then show ?thesis
      by (rule field_of_cases [where P = "\<lambda>s. \<exists>n. s = Img_int n \<and> 0 < n"]) (auto dest: validate_imgszD split: Option.bind_splits)
  qed
  have names: "mc_names c \<noteq> []"
    using p by (auto simp: nonempty_names_def split: option.splits list.splits Option.bind_splits)
  show ?thesis using path dev be conf img names by (auto simp: validate_model_path_def split: if_splits)
qed

definition demo_model :: raw_dict where
  "demo_model = [(''path'', YStr ''m.pt''), (''device'', YStr ''cuda''), (''names'', YList [YStr ''car''])]"

lemma demo_model_parsed:
  "parse_model_config strict_pydantic (\<lambda>p. p = ''m.pt'') (\<lambda>_. False) demo_model =
    Inr \<lparr>mc_path = ''m.pt'', mc_device = ''cuda'', mc_backend = TORCH, mc_conf = 0.25, mc_iou = 0.45, mc_imgsz = Img_int 640, mc_names = [''car'']\<rparr>"
  by (simp add: parse_model_config_def demo_model_def strict_pydantic_def validate_model_path_def has_suffix_def lower_char_def code_def
      field_of_def validate_device_def nonempty_names_def list_of_def)

theorem model_config_sound_witness:
  "\<exists>c. parse_model_config strict_pydantic (\<lambda>p. p = ''m.pt'') (\<lambda>_. False) demo_model = Inr c \<and> mc_device c \<in> {''cpu'', ''cuda''}"
  using model_config_sound [OF demo_model_parsed] demo_model_parsed by auto

text \<open>The rules on file suffixes per backend are never applied: the path is validated before the backend
  is known, so whatever file was accepted for one backend is accepted for every other one the device
  allows, a PyTorch checkpoint for TensorRT included.\<close>

theorem model_suffix_unchecked:
  assumes "parse_model_config V ex gt d = Inr c" and "mc_device c = ''cuda''"
  shows "parse_model_config V ex gt (dset ''backend'' (YStr (backend_name b)) d) = Inr (c\<lparr>mc_backend := b\<rparr>)"
proof -
  have nm: "backend_of (YStr (backend_name b)) = Some b"
    by (cases b) (simp_all add: backend_of_def backend_name_def)
  have vb: "validate_backend (Some ''cuda'') b = Some b"
    by (auto simp: validate_backend_def starts_with_def)
  have f: "field_of g x (dset ''backend'' v d) k = field_of g x d k" if "k \<noteq> ''backend''" for g :: "yaml \<Rightarrow> 'b option" and x v k
    using that by (simp add: field_of_def)
  have fb: "field_of g x (dset ''backend'' v d) ''backend'' = g v" for g :: "yaml \<Rightarrow> backend_type option" and x v
    by (simp add: field_of_def)
  show ?thesis
    using parse_model_parts [OF assms(1)] assms(2)
    by (cases c) (simp add: parse_model_config_def Let_def field_of_def nm vb cong: option.case_cong)
qed

theorem model_suffix_unchecked_witness:
  "\<exists>c. parse_model_config strict_pydantic (\<lambda>p. p = ''m.pt'') (\<lambda>_. False) (dset ''backend'' (YStr ''TensorRTBackend'') demo_model) = Inr c \<and>
     mc_backend c = TENSORRT \<and> mc_path c = ''m.pt''"
  using model_suffix_unchecked [OF demo_model_parsed, of TENSORRT] by (simp add: backend_name_def)

text \<open>Giving the default of the intervals explicitly is an error that is no validation error.\<close>

lemma null_intervals_escape:
  assumes "dget d ''intervals'' = Some YNull"
  shows "parse_data_config V ex mkdir d w = (Inl (TypeError ''NoneType object is not iterable''), w)"
  using assms by (simp add: parse_data_config_def Let_def coerce_intervals_def opt_of_def validate_intervals_def bnd_def)

end
