(* ===== verification/Frame_Ledger.thy ===== *)
theory Frame_Ledger
  imports Fan_Out
begin

text \<open>
  Frames that have been written and not read yet, wherever they are: the messages they carry, the
  shared-memory segments they own, and the ledger that keeps the two and the store in agreement
  when a frame is written, handed on, copied or read. \<open>Network\<close> is built on it.
\<close>

section \<open>Frames and the segments they own\<close>

text \<open>The segments named in a frame.\<close>

definition frame_segs :: "'m pickler \<Rightarrow> bytes \<Rightarrow> nat list" where
  "frame_segs P raw = (case raw of [] \<Rightarrow> [] | tag # body \<Rightarrow>
     if tag = TAG_SHM then (case p_loads_env P body of Inr (meta, ns) \<Rightarrow> map fst ns | Inl _ \<Rightarrow> [])
     else [])"

text \<open>\<open>carries C P sh raw m\<close>: the frame is \<open>m\<close> in band, or it names segments of the store \<open>sh\<close>
  that hold the large buffers of \<open>m\<close>.\<close>

definition carries :: "codec_env \<Rightarrow> 'm pickler \<Rightarrow> shm_state \<Rightarrow> bytes \<Rightarrow> 'm \<Rightarrow> bool" where
  "carries C P sh raw m \<longleftrightarrow>
     (\<exists>b. p_dumps P m = Inr b \<and> raw = TAG_PLAIN # b) \<or>
     (\<exists>meta n. p_dumps_cb P m (keep_in_band C) = Inr meta \<and>
        raw = TAG_SHM # p_dumps_env P (meta, stored_names (big_buffers C P m) n) \<and>
        (\<forall>i < length (big_buffers C P m).
           segs sh (n + i) = Some (big_buffers C P m ! i) \<and> n + i \<notin> tracked sh))"

lemma stored_names_fst: "map fst (stored_names bs n) = [n..<n + length bs]"
proof (induction bs arbitrary: n)
  case (Cons b bs)
  have "[n..<n + length (b # bs)] = n # [Suc n..<Suc n + length bs]"
    by (rule trans [OF upt_conv_Cons]) simp_all
  then show ?case using Cons.IH [of "Suc n"] by simp
qed simp

lemma frame_segs_plain [simp]: "frame_segs P (TAG_PLAIN # b) = []"
  by (simp add: frame_segs_def)

lemma frame_segs_shm:
  "pickle_ok P \<Longrightarrow>
   frame_segs P (TAG_SHM # p_dumps_env P (meta, stored_names bs n)) = [n..<n + length bs]"
  by (simp add: frame_segs_def pickle_ok_def stored_names_fst)

lemma carries_segs:
  assumes "pickle_ok P" and "carries C P sh raw m" and "k \<in> set (frame_segs P raw)"
  shows "segs sh k \<noteq> None"
proof -
  obtain meta n where raw: "raw = TAG_SHM # p_dumps_env P (meta, stored_names (big_buffers C P m) n)"
    and seg: "\<forall>i < length (big_buffers C P m). segs sh (n + i) = Some (big_buffers C P m ! i)"
    using assms(2,3) unfolding carries_def by auto
  have "k - n < length (big_buffers C P m)" "n \<le> k"
    using assms(3) by (auto simp: raw frame_segs_shm [OF assms(1)])
  then show ?thesis using seg [rule_format, of "k - n"] by simp
qed

lemma carries_distinct: "pickle_ok P \<Longrightarrow> carries C P sh raw m \<Longrightarrow> distinct (frame_segs P raw)"
  by (auto simp: carries_def frame_segs_shm)

text \<open>A frame is read only through the segments it names.\<close>

lemma carries_cong:
  assumes "pickle_ok P" and "carries C P sh raw m"
    and "\<forall>k \<in> set (frame_segs P raw). segs sh' k = segs sh k" and "tracked sh' = tracked sh"
  shows "carries C P sh' raw m"
  using assms(2)
proof (cases "\<exists>b. p_dumps P m = Inr b \<and> raw = TAG_PLAIN # b")
  case False
  then obtain meta n where r: "p_dumps_cb P m (keep_in_band C) = Inr meta"
      "raw = TAG_SHM # p_dumps_env P (meta, stored_names (big_buffers C P m) n)"
    and seg: "\<forall>i < length (big_buffers C P m).
      segs sh (n + i) = Some (big_buffers C P m ! i) \<and> n + i \<notin> tracked sh"
    using assms(2) unfolding carries_def by blast
  have "segs sh' (n + i) = segs sh (n + i)" if "i < length (big_buffers C P m)" for i
    using assms(3) that by (simp add: r frame_segs_shm [OF assms(1)])
  then have "\<forall>i < length (big_buffers C P m).
      segs sh' (n + i) = Some (big_buffers C P m ! i) \<and> n + i \<notin> tracked sh'"
    using seg assms(4) by simp
  then show ?thesis using r unfolding carries_def by blast
qed (auto simp: carries_def)

text \<open>Reading a frame gives its message and removes exactly its segments.\<close>

lemma carries_loads:
  assumes "pickle_ok P" and "carries C P sh raw m"
  shows "loads C P raw sh =
    (Inr m, sh\<lparr>segs := (\<lambda>k. if k \<in> set (frame_segs P raw) then None else segs sh k)\<rparr>)"
  using assms(2)
proof (cases "\<exists>b. p_dumps P m = Inr b \<and> raw = TAG_PLAIN # b")
  case True
  then show ?thesis using loads_plain_ok [OF assms(1)] by auto
next
  case False
  let ?bs = "big_buffers C P m"
  obtain meta n where meta: "p_dumps_cb P m (keep_in_band C) = Inr meta"
      and raw: "raw = TAG_SHM # p_dumps_env P (meta, stored_names ?bs n)"
    and seg: "\<forall>i < length ?bs. segs sh (n + i) = Some (?bs ! i) \<and> n + i \<notin> tracked sh"
    using assms(2) False unfolding carries_def by blast
  have "p_loads_buffers P meta ?bs = Inr m"
    using assms(1) meta unfolding pickle_ok_def big_buffers_def by blast
  then show ?thesis
    using consume_all_ok [OF seg, of C]
    by (simp add: raw loads_shm_step [OF assms(1)] bnd_def frame_segs_shm [OF assms(1)])
qed

text \<open>Serialising yields a frame that carries the message and owns the new segments.\<close>

lemma segs_stored:
  assumes "shm_wf sh"
  shows "segs (stored bs sh) k \<noteq> None \<longleftrightarrow>
    segs sh k \<noteq> None \<or> k \<in> set [next_seg sh..<next_seg sh + length bs]"
proof -
  have "segs sh k = (if next_seg sh \<le> k \<and> k < next_seg sh + length bs then None
      else segs (stored bs sh) k)"
    using fun_cong [OF stored_then_cleared [OF assms, of bs], of k] by simp
  moreover have "segs (stored bs sh) k \<noteq> None" if "next_seg sh \<le> k" "k < next_seg sh + length bs"
    using stored_at [of "k - next_seg sh" bs sh] that by auto
  ultimately show ?thesis by (auto split: if_splits)
qed

lemma shm_wf_stored: "shm_wf sh \<Longrightarrow> shm_wf (stored bs sh)"
  by (induction bs arbitrary: sh) (auto intro: shm_wf_store)

lemma dumps_carries:
  assumes "pickle_ok P" and "0 < shm_min_bytes C" and "shm_wf sh"
    and "dumps C P use m sh = (Inr raw, sh')"
  shows "carries C P sh' raw m" and "shm_wf sh'" and "tracked sh' = tracked sh"
    and "segs sh' k \<noteq> None \<longleftrightarrow> segs sh k \<noteq> None \<or> k \<in> set (frame_segs P raw)"
    and "k \<in> set (frame_segs P raw) \<Longrightarrow> segs sh k = None"
    and "segs sh k \<noteq> None \<Longrightarrow> segs sh' k = segs sh k"
    and "\<not> use \<Longrightarrow> frame_segs P raw = []"
proof -
  have "carries C P sh' raw m \<and> shm_wf sh' \<and> tracked sh' = tracked sh \<and>
    (segs sh' k \<noteq> None \<longleftrightarrow> segs sh k \<noteq> None \<or> k \<in> set (frame_segs P raw)) \<and>
    (k \<in> set (frame_segs P raw) \<longrightarrow> segs sh k = None) \<and>
    (segs sh k \<noteq> None \<longrightarrow> segs sh' k = segs sh k) \<and> (\<not> use \<longrightarrow> frame_segs P raw = [])"
  proof (cases use)
    case False
    then show ?thesis
      using assms(3,4) by (auto simp: dumps_def bnd_def of_res_def carries_def split: sum.splits)
  next
    case True
    let ?bs = "big_buffers C P m"
    obtain meta where meta: "p_dumps_cb P m (keep_in_band C) = Inr meta"
      using assms(4) True by (cases "p_dumps_cb P m (keep_in_band C)") (auto simp: dumps_def dumps_shm_def bnd_def)
    have d: "raw = TAG_SHM # p_dumps_env P (meta, stored_names ?bs (next_seg sh))" "sh' = stored ?bs sh"
      using dumps_shm_ok [OF meta assms(2,3)] assms(4) True by auto
    have new: "next_seg sh + i \<notin> tracked sh" for i
      using assms(3) by (auto simp: shm_wf_def)
    have "carries C P sh' raw m"
      unfolding carries_def using meta by (auto simp: d stored_at new)
    moreover have "segs sh k \<noteq> None \<Longrightarrow> segs sh' k = segs sh k"
      using stored_below assms(3) by (auto simp: d(2) shm_wf_def)
    ultimately show ?thesis
      using shm_wf_stored [OF assms(3)] segs_stored [OF assms(3), of ?bs k] shm_wf_above [OF assms(3), of k] True
      by (auto simp: d frame_segs_shm [OF assms(1)])
  qed
  then show "carries C P sh' raw m" "shm_wf sh'" "tracked sh' = tracked sh"
    "segs sh' k \<noteq> None \<longleftrightarrow> segs sh k \<noteq> None \<or> k \<in> set (frame_segs P raw)"
    "k \<in> set (frame_segs P raw) \<Longrightarrow> segs sh k = None"
    "segs sh k \<noteq> None \<Longrightarrow> segs sh' k = segs sh k"
    "\<not> use \<Longrightarrow> frame_segs P raw = []" by blast+
qed

section \<open>The ledger of frames\<close>

text \<open>Where a frame that has not been read can be: accepted for an edge, or in the hands of a node
  that still has to put it on a publisher.\<close>

datatype place = Edge "sock \<times> sock" | Hand sock

definition owned :: "'m pickler \<Rightarrow> bytes list \<Rightarrow> nat list" where
  "owned P fs = concat (map (frame_segs P) fs)"

lemma owned_simps [simp]:
  "owned P [] = []" "owned P (f # fs) = frame_segs P f @ owned P fs"
  "owned P (fs @ gs) = owned P fs @ owned P gs"
  by (simp_all add: owned_def)

lemma owned_in: "raw \<in> set fs \<Longrightarrow> set (frame_segs P raw) \<subseteq> set (owned P fs)"
  by (auto simp: owned_def)

text \<open>The frames at the places carry the messages at the places, no segment is named twice, and the
  store holds exactly the segments that are named.\<close>

definition ledger :: "codec_env \<Rightarrow> 'm pickler \<Rightarrow> shm_state \<Rightarrow> (place \<Rightarrow> bytes list) \<Rightarrow> (place \<Rightarrow> 'm list) \<Rightarrow> bool" where
  "ledger C P sh fs ms \<longleftrightarrow> shm_wf sh \<and>
     (\<forall>p. list_all2 (carries C P sh) (fs p) (ms p)) \<and>
     (\<forall>p. distinct (owned P (fs p))) \<and>
     (\<forall>p q. p \<noteq> q \<longrightarrow> set (owned P (fs p)) \<inter> set (owned P (fs q)) = {}) \<and>
     (\<forall>k. segs sh k \<noteq> None \<longleftrightarrow> (\<exists>p. k \<in> set (owned P (fs p))))"

lemma ledgerD:
  assumes "ledger C P sh fs ms"
  shows "shm_wf sh" and "list_all2 (carries C P sh) (fs p) (ms p)" and "distinct (owned P (fs p))"
    and "p \<noteq> q \<Longrightarrow> set (owned P (fs p)) \<inter> set (owned P (fs q)) = {}"
    and "segs sh k \<noteq> None \<longleftrightarrow> (\<exists>p. k \<in> set (owned P (fs p)))"
  using assms by (simp_all only: ledger_def simp_thms)

lemma ledgerI:
  assumes "shm_wf sh" and "\<And>p. list_all2 (carries C P sh) (fs p) (ms p)"
    and "\<And>p. distinct (owned P (fs p))"
    and "\<And>p q k. k \<in> set (owned P (fs p)) \<Longrightarrow> k \<in> set (owned P (fs q)) \<Longrightarrow> p = q"
    and "\<And>k. segs sh k \<noteq> None \<longleftrightarrow> (\<exists>p. k \<in> set (owned P (fs p)))"
  shows "ledger C P sh fs ms"
  unfolding ledger_def using assms by blast

lemma ledger_once:
  "ledger C P sh fs ms \<Longrightarrow> k \<in> set (owned P (fs p)) \<Longrightarrow> k \<in> set (owned P (fs q)) \<Longrightarrow> p = q"
  using ledgerD(4) by blast

lemma list_all2_mono_set:
  "list_all2 R xs ys \<Longrightarrow> (\<And>x y. x \<in> set xs \<Longrightarrow> R x y \<Longrightarrow> S x y) \<Longrightarrow> list_all2 S xs ys"
  by (auto simp: list_all2_conv_all_nth)

lemma ex_fun_upd: "(\<exists>q. Q ((f(h := x)) q)) \<longleftrightarrow> Q x \<or> (\<exists>q. q \<noteq> h \<and> Q (f q))"
  by (metis fun_upd_other fun_upd_same)

lemma ex_split: "(\<exists>q. Q q) \<longleftrightarrow> Q h \<or> (\<exists>q. q \<noteq> h \<and> Q q)"
  by metis

lemma ledger_dumps:
  assumes "pickle_ok P" and "0 < shm_min_bytes C" and "ledger C P sh fs ms" and "fs h = []"
    and "dumps C P use m sh = (Inr raw, sh')"
  shows "ledger C P sh' (fs(h := [raw])) (ms(h := [m]))"
proof -
  note L = ledgerD [OF assms(3)]
  note D = dumps_carries [OF assms(1,2) L(1) assms(5)]
  have old: "segs sh k \<noteq> None" if "k \<in> set (owned P (fs p))" for k p
    using L(5) [of k] that by blast
  have new: "k \<notin> set (owned P (fs p))" if "k \<in> set (frame_segs P raw)" for k p
    using D(5) [OF that] old by blast
  show ?thesis
  proof (rule ledgerI)
    fix p
    have keep: "list_all2 (carries C P sh') (fs p) (ms p)"
    proof (rule list_all2_mono_set [OF L(2)])
      fix f m' assume f: "f \<in> set (fs p)" "carries C P sh f m'"
      have "\<forall>k \<in> set (frame_segs P f). segs sh' k = segs sh k"
        using D(6) carries_segs [OF assms(1) f(2)] by blast
      then show "carries C P sh' f m'" by (rule carries_cong [OF assms(1) f(2) _ D(3)])
    qed
    then show "list_all2 (carries C P sh') ((fs(h := [raw])) p) ((ms(h := [m])) p)"
      using D(1) by simp
    show "distinct (owned P ((fs(h := [raw])) p))"
      using L(3) [of p] carries_distinct [OF assms(1) D(1)] by simp
  next
    fix p q k
    assume "k \<in> set (owned P ((fs(h := [raw])) p))" "k \<in> set (owned P ((fs(h := [raw])) q))"
    then show "p = q"
      using new [of k] ledger_once [OF assms(3), of k p q] by (auto split: if_splits)
  next
    fix k
    show "segs sh' k \<noteq> None \<longleftrightarrow> (\<exists>p. k \<in> set (owned P ((fs(h := [raw])) p)))"
      unfolding D(4) [of k] L(5) [of k] ex_fun_upd [where Q = "\<lambda>x. k \<in> set (owned P x)"]
      using assms(4) by auto (metis owned_simps(1) empty_iff list.set(1))
  qed (rule D(2))
qed

text \<open>Frames that change place: the last holder of a frame hands it on, a frame in band may also be
  copied.\<close>

lemma ledger_move:
  assumes "ledger C P sh fs ms" and "fs h = [raw]" and "p \<noteq> h"
  shows "ledger C P sh (fs(h := [], p := fs p @ [raw])) (ms(h := [], p := ms p @ ms h))"
proof -
  note L = ledgerD [OF assms(1)]
  let ?fs = "fs(h := [], p := fs p @ [raw])"
  have owned_new: "set (owned P (?fs q)) =
      (if q = p then set (owned P (fs p)) \<union> set (owned P (fs h))
       else if q = h then {} else set (owned P (fs q)))" for q
    using assms(2,3) by auto
  show ?thesis
  proof (rule ledgerI)
    fix q
    show "list_all2 (carries C P sh) (?fs q) ((ms(h := [], p := ms p @ ms h)) q)"
      using L(2) [of q] L(2) [of p] L(2) [of h] assms(2) by (simp add: list_all2_appendI)
    show "distinct (owned P (?fs q))"
      using L(3) [of q] L(3) [of p] L(3) [of h] L(4) [OF assms(3)] assms(2) by simp
  next
    fix q r k
    assume "k \<in> set (owned P (?fs q))" "k \<in> set (owned P (?fs r))"
    then show "q = r"
      unfolding owned_new using ledger_once [OF assms(1), of k] by (metis Un_iff emptyE)
  next
    fix k
    have "(\<exists>q. k \<in> set (owned P (?fs q))) \<longleftrightarrow> (\<exists>q. k \<in> set (owned P (fs q)))"
      unfolding owned_new using assms(3) by (metis Un_iff emptyE)
    then show "segs sh k \<noteq> None \<longleftrightarrow> (\<exists>q. k \<in> set (owned P (?fs q)))"
      unfolding L(5) by simp
  qed (rule L(1))
qed

lemma ledger_copy:
  assumes "ledger C P sh fs ms" and "fs h = [raw]" and "frame_segs P raw = []"
  shows "ledger C P sh (fs(p := fs p @ [raw])) (ms(p := ms p @ ms h))"
proof -
  note L = ledgerD [OF assms(1)]
  have same: "owned P ((fs(p := fs p @ [raw])) q) = owned P (fs q)" for q
    using assms(3) by simp
  show ?thesis
    using L(2) [of p] L(2) [of h] assms(1,2)
    by (auto simp: ledger_def same list_all2_appendI simp del: fun_upd_apply) (auto simp: list_all2_appendI)
qed

lemma ledger_drop:
  assumes "ledger C P sh fs ms" and "fs h = [raw]" and "frame_segs P raw = []"
  shows "ledger C P sh (fs(h := [])) (ms(h := []))"
proof -
  have same: "owned P ((fs(h := [])) q) = owned P (fs q)" for q
    using assms(2,3) by simp
  show ?thesis
    using assms(1) by (auto simp: ledger_def same simp del: fun_upd_apply) simp
qed

text \<open>Reading the oldest frame of a place succeeds with its message, wherever the other frames are.\<close>

lemma ledger_loads:
  assumes "pickle_ok P" and "ledger C P sh fs ms" and "fs p = raw # rest"
  obtains m ms' sh' where "loads C P raw sh = (Inr m, sh')" "ms p = m # ms'"
    "ledger C P sh' (fs(p := rest)) (ms(p := ms'))"
proof -
  note L = ledgerD [OF assms(2)]
  obtain m ms' where ms: "ms p = m # ms'" and m: "carries C P sh raw m"
      and rest: "list_all2 (carries C P sh) rest ms'"
    using L(2) [of p] assms(3) by (auto simp: list_all2_Cons1)
  let ?sh = "sh\<lparr>segs := (\<lambda>k. if k \<in> set (frame_segs P raw) then None else segs sh k)\<rparr>"
  have apart: "k \<notin> set (frame_segs P raw)" if "k \<in> set (owned P ((fs(p := rest)) q))" for k q
    using that L(3) [of p] ledger_once [OF assms(2), of k p q] assms(3) by (cases "q = p") auto
  have "ledger C P ?sh (fs(p := rest)) (ms(p := ms'))"
  proof (rule ledgerI)
    show "shm_wf ?sh" using L(1) by (auto simp: shm_wf_def)
  next
    fix q
    have all: "list_all2 (carries C P sh) ((fs(p := rest)) q) ((ms(p := ms')) q)"
      using L(2) [of q] rest by simp
    show "list_all2 (carries C P ?sh) ((fs(p := rest)) q) ((ms(p := ms')) q)"
    proof (rule list_all2_mono_set [OF all])
      fix f m' assume f: "f \<in> set ((fs(p := rest)) q)" "carries C P sh f m'"
      have "\<forall>k \<in> set (frame_segs P f). segs ?sh k = segs sh k"
        using apart owned_in [OF f(1), of P] by auto
      then show "carries C P ?sh f m'" by (rule carries_cong [OF assms(1) f(2)]) simp
    qed
    show "distinct (owned P ((fs(p := rest)) q))"
      using L(3) [of q] L(3) [of p] assms(3) by simp
  next
    fix q r k
    assume "k \<in> set (owned P ((fs(p := rest)) q))" "k \<in> set (owned P ((fs(p := rest)) r))"
    then show "q = r"
      using ledger_once [OF assms(2), of k q r] assms(3) by (auto split: if_splits)
  next
    fix k
    have "(\<exists>q. k \<in> set (owned P (fs q))) \<longleftrightarrow>
        k \<in> set (frame_segs P raw) \<or> (\<exists>q. k \<in> set (owned P ((fs(p := rest)) q)))"
      unfolding ex_fun_upd [where Q = "\<lambda>x. k \<in> set (owned P x)"]
      by (subst ex_split [where h = p]) (simp only: assms(3) owned_simps set_append Un_iff disj_assoc)
    then have "(\<exists>q. k \<in> set (owned P ((fs(p := rest)) q))) \<longleftrightarrow>
        (\<exists>q. k \<in> set (owned P (fs q))) \<and> k \<notin> set (frame_segs P raw)"
      using apart [of k] by blast
    then show "segs ?sh k \<noteq> None \<longleftrightarrow> (\<exists>q. k \<in> set (owned P ((fs(p := rest)) q)))"
      using L(5) [of k] by simp
  qed
  then show thesis using that carries_loads [OF assms(1) m] ms by blast
qed

end
