(* ===== verification/Network.thy ===== *)
theory Network
  imports Frame_Ledger
begin

text \<open>
  The running pipeline: the mailboxes of all nodes, the ZeroMQ sockets between them and the
  shared-memory store, with every node and every receiver thread advancing on its own. A sender
  serialises a message and puts the frame on its publishers one after the other; a receiver thread
  takes a frame with \<open>zq_get\<close>, which decodes it, and enters the mailbox steps of
  \<open>Mailbox_Steps\<close>. What is shown is that this implements, edge by edge, a FIFO of messages. The runs
  are those in which sends return: one that raises, which the node logs, is no step here.

  The sockets are the library \<open>Z\<close>; \<open>flight\<close> reads off its state the frames accepted from a
  PUSH socket for a PULL socket and not yet read. A node is named by its PULL socket.
\<close>

section \<open>What is assumed of the sockets\<close>

text \<open>PUSH and PULL: a send that returns has queued the frame, once and last, for one peer; a
  receive returns the oldest frame of one peer; polling moves no frame. A failed call moves none.\<close>

definition push_pull :: "'z zmq_lib \<Rightarrow> ('z \<Rightarrow> sock \<times> sock \<Rightarrow> bytes list) \<Rightarrow> bool" where
  "push_pull Z flight \<longleftrightarrow>
     (\<forall>s raw z z'. z_send Z s raw False z = (Inr (), z') \<longrightarrow>
        (\<exists>t. flight z' = (flight z)((s, t) := flight z (s, t) @ [raw]))) \<and>
     (\<forall>t z raw z'. z_recv Z t True z = (Inr raw, z') \<longrightarrow>
        (\<exists>s. flight z (s, t) = raw # flight z' (s, t) \<and>
           (\<forall>c. c \<noteq> (s, t) \<longrightarrow> flight z' c = flight z c))) \<and>
     (\<forall>t z e z'. z_recv Z t True z = (Inl e, z') \<longrightarrow> is_ZMQError e \<and> flight z' = flight z) \<and>
     (\<forall>ss ms z r z'. z_poll Z ss ms z = (r, z') \<longrightarrow>
        (\<forall>e. r = Inl e \<longrightarrow> is_ZMQError e) \<and> flight z' = flight z)"

lemma push_pullD:
  assumes "push_pull Z flight"
  shows "z_send Z s raw False z = (Inr (), z') \<Longrightarrow>
      \<exists>t. flight z' = (flight z)((s, t) := flight z (s, t) @ [raw])"
    and "z_recv Z t True z = (Inr raw, z') \<Longrightarrow>
      \<exists>s. flight z (s, t) = raw # flight z' (s, t) \<and> (\<forall>c. c \<noteq> (s, t) \<longrightarrow> flight z' c = flight z c)"
    and "z_recv Z t True z = (Inl e, z') \<Longrightarrow> is_ZMQError e \<and> flight z' = flight z"
    and "z_poll Z ss ms z = (Inl e, z') \<Longrightarrow> is_ZMQError e"
    and "z_poll Z ss ms z = (r, z') \<Longrightarrow> flight z' = flight z"
proof -
  note law = assms [unfolded push_pull_def]
  show "z_send Z s raw False z = (Inr (), z') \<Longrightarrow>
      \<exists>t. flight z' = (flight z)((s, t) := flight z (s, t) @ [raw])"
    using law [THEN conjunct1] by metis
  show "z_recv Z t True z = (Inr raw, z') \<Longrightarrow>
      \<exists>s. flight z (s, t) = raw # flight z' (s, t) \<and> (\<forall>c. c \<noteq> (s, t) \<longrightarrow> flight z' c = flight z c)"
    using law [THEN conjunct2, THEN conjunct1] by metis
  show "z_recv Z t True z = (Inl e, z') \<Longrightarrow> is_ZMQError e \<and> flight z' = flight z"
    using law [THEN conjunct2, THEN conjunct2, THEN conjunct1] by metis
  show "z_poll Z ss ms z = (Inl e, z') \<Longrightarrow> is_ZMQError e"
    and "z_poll Z ss ms z = (r, z') \<Longrightarrow> flight z' = flight z"
    using law [THEN conjunct2, THEN conjunct2, THEN conjunct2] by metis+
qed

section \<open>The steps\<close>

text \<open>\<open>outbox\<close> is the message a node is publishing, with its frame and the publishers it has not
  been put on. Ghosts: the messages a node sent, what each PUSH socket posted and to which peer, and
  what each node fetched and from which PUSH socket.\<close>

record 'z net =
  nstore :: shm_state
  nzmq :: 'z
  rx :: "sock \<Rightarrow> mb_sys"
  outbox :: "sock \<Rightarrow> (message \<times> bytes \<times> zero_pub list) option"
  sent :: "sock \<Rightarrow> message list"
  posted :: "sock \<Rightarrow> (sock \<times> message) list"
  fetched :: "sock \<Rightarrow> (sock \<times> message) list"

definition pubs :: "'z net \<Rightarrow> sock \<Rightarrow> zero_pub list" where
  "pubs st n = dvalues (pub_sockets (mb (rx st n)))"

definition mb_arrive :: "message \<Rightarrow> mb_sys \<Rightarrow> mb_sys" where
  "mb_arrive m s = s\<lparr>pc := recv_enter (queue_policy (mb s)) m, arrived := arrived s @ [m]\<rparr>"

inductive net_step :: "codec_env \<Rightarrow> message pickler \<Rightarrow> bool \<Rightarrow> 'z zmq_lib \<Rightarrow>
    ('z \<Rightarrow> sock \<times> sock \<Rightarrow> bytes list) \<Rightarrow> 'z net \<Rightarrow> 'z net \<Rightarrow> bool"
  for C P shm Z flight where
  dump: "outbox st n = None \<Longrightarrow>
    dumps C P (shm \<and> length (pub_sockets (mb (rx st n))) = 1) m (nstore st) = (Inr raw, sh) \<Longrightarrow>
    net_step C P shm Z flight st (st\<lparr>nstore := sh, outbox := (outbox st)(n \<mapsto> (m, raw, pubs st n)),
      sent := (sent st)(n := sent st n @ [m])\<rparr>)"
| put: "outbox st n = Some (m, raw, p # ps) \<Longrightarrow>
    zq_put_bytes Z (pub_base p) raw (nzmq st) = (Inr (), z) \<Longrightarrow>
    flight z (pub_sock p, t) \<noteq> flight (nzmq st) (pub_sock p, t) \<Longrightarrow>
    net_step C P shm Z flight st (st\<lparr>nzmq := z, outbox := (outbox st)(n \<mapsto> (m, raw, ps)),
      posted := (posted st)(pub_sock p := posted st (pub_sock p) @ [(t, m)])\<rparr>)"
| sent: "outbox st n = Some (m, raw, []) \<Longrightarrow>
    net_step C P shm Z flight st (st\<lparr>outbox := (outbox st)(n := None)\<rparr>)"
| get: "pc (rx st t) = Idle \<Longrightarrow> running (mb (rx st t)) \<Longrightarrow>
    zq_get C P Z (sub_queue (mb (rx st t))) (Some (join_timeout (mb (rx st t)))) (nstore st, nzmq st) =
      (Inr (Some m), (sh, z)) \<Longrightarrow>
    flight z (s, t) \<noteq> flight (nzmq st) (s, t) \<Longrightarrow>
    net_step C P shm Z flight st (st\<lparr>nstore := sh, nzmq := z, rx := (rx st)(t := mb_arrive m (rx st t)),
      fetched := (fetched st)(t := fetched st t @ [(s, m)])\<rparr>)"
| timeout: "pc (rx st t) = Idle \<Longrightarrow> running (mb (rx st t)) \<Longrightarrow>
    zq_get C P Z (sub_queue (mb (rx st t))) (Some (join_timeout (mb (rx st t)))) (nstore st, nzmq st) =
      (Inr None, (sh, z)) \<Longrightarrow>
    net_step C P shm Z flight st (st\<lparr>nstore := sh, nzmq := z\<rparr>)"
| inside: "mb_step (rx st t) x \<Longrightarrow> arrived x = arrived (rx st t) \<Longrightarrow>
    net_step C P shm Z flight st (st\<lparr>rx := (rx st)(t := x)\<rparr>)"

inductive_cases net_stepE: "net_step C P shm Z flight st st'"

text \<open>The wiring of a started pipeline: every node has its PULL socket and every publisher a PUSH
  socket of its own.\<close>

definition wired :: "'z net \<Rightarrow> bool" where
  "wired st \<longleftrightarrow> (\<forall>t. socket_sub (sub_queue (mb (rx st t))) = Some t) \<and>
     (\<forall>n. \<forall>p \<in> set (pubs st n). socket_pub p \<noteq> None) \<and>
     (\<forall>n. distinct (map pub_sock (pubs st n))) \<and>
     (\<forall>n n'. n \<noteq> n' \<longrightarrow> pub_sock ` set (pubs st n) \<inter> pub_sock ` set (pubs st n') = {})"

definition net_init :: "codec_env \<Rightarrow> message pickler \<Rightarrow> 'z zmq_lib \<Rightarrow>
    ('z \<Rightarrow> sock \<times> sock \<Rightarrow> bytes list) \<Rightarrow> 'z net \<Rightarrow> bool" where
  "net_init C P Z flight st \<longleftrightarrow> push_pull Z flight \<and> pickle_ok P \<and> 0 < shm_min_bytes C \<and> wired st \<and>
     (\<forall>t. mb_init (rx st t)) \<and> shm_wf (nstore st) \<and> segs (nstore st) = (\<lambda>_. None) \<and>
     flight (nzmq st) = (\<lambda>_. []) \<and> outbox st = (\<lambda>_. None) \<and> sent st = (\<lambda>_. []) \<and>
     posted st = (\<lambda>_. []) \<and> fetched st = (\<lambda>_. [])"

section \<open>The invariant\<close>

definition tagged :: "'k \<Rightarrow> ('k \<times> 'm) list \<Rightarrow> 'm list" where
  "tagged k xs = map snd (filter (\<lambda>x. fst x = k) xs)"

lemma tagged_simps [simp]:
  "tagged k [] = []" "tagged k (xs @ ys) = tagged k xs @ tagged k ys"
  "tagged k [x] = (if fst x = k then [snd x] else [])"
  by (simp_all add: tagged_def)

fun places :: "('z \<Rightarrow> sock \<times> sock \<Rightarrow> bytes list) \<Rightarrow> 'z net \<Rightarrow> place \<Rightarrow> bytes list" where
  "places flight st (Edge c) = flight (nzmq st) c"
| "places flight st (Hand n) = (case outbox st n of Some (m, raw, p # ps) \<Rightarrow> [raw] | _ \<Rightarrow> [])"

fun contents :: "'z net \<Rightarrow> (sock \<times> sock \<Rightarrow> message list) \<Rightarrow> place \<Rightarrow> message list" where
  "contents st W (Edge c) = W c"
| "contents st W (Hand n) = (case outbox st n of Some (m, raw, p # ps) \<Rightarrow> [m] | _ \<Rightarrow> [])"

text \<open>What socket \<open>s\<close> of node \<open>n\<close> still has to post of the message that is being published.\<close>

definition unposted :: "'z net \<Rightarrow> sock \<Rightarrow> sock \<Rightarrow> message list" where
  "unposted st n s = (case outbox st n of
     Some (m, raw, ps) \<Rightarrow> if s \<in> pub_sock ` set ps then [m] else [] | None \<Rightarrow> [])"

definition outbox_ok :: "message pickler \<Rightarrow> 'z net \<Rightarrow> bool" where
  "outbox_ok P st \<longleftrightarrow> (\<forall>n m raw ps. outbox st n = Some (m, raw, ps) \<longrightarrow>
     (1 < length ps \<longrightarrow> frame_segs P raw = []) \<and> (\<exists>qs. qs @ ps = pubs st n))"

definition net_inv :: "codec_env \<Rightarrow> message pickler \<Rightarrow> 'z zmq_lib \<Rightarrow>
    ('z \<Rightarrow> sock \<times> sock \<Rightarrow> bytes list) \<Rightarrow> 'z net \<Rightarrow> bool" where
  "net_inv C P Z flight st \<longleftrightarrow> push_pull Z flight \<and> pickle_ok P \<and> 0 < shm_min_bytes C \<and> wired st \<and>
     (\<forall>t. mb_inv (rx st t)) \<and> (\<forall>t. map snd (fetched st t) = arrived (rx st t)) \<and>
     outbox_ok P st \<and>
     (\<forall>n. \<forall>s \<in> pub_sock ` set (pubs st n). map snd (posted st s) @ unposted st n s = sent st n) \<and>
     (\<exists>W. ledger C P (nstore st) (places flight st) (contents st W) \<and>
        (\<forall>s t. tagged t (posted st s) = tagged s (fetched st t) @ W (s, t)))"

lemma net_invD:
  assumes "net_inv C P Z flight st"
  shows "push_pull Z flight" and "pickle_ok P" and "0 < shm_min_bytes C" and "wired st"
    and "mb_inv (rx st t)" and "map snd (fetched st t) = arrived (rx st t)" and "outbox_ok P st"
    and "s \<in> pub_sock ` set (pubs st n) \<Longrightarrow> map snd (posted st s) @ unposted st n s = sent st n"
    and "\<exists>W. ledger C P (nstore st) (places flight st) (contents st W) \<and>
        (\<forall>s t. tagged t (posted st s) = tagged s (fetched st t) @ W (s, t))"
  using assms unfolding net_inv_def by blast+

lemma net_invI:
  assumes "push_pull Z flight" and "pickle_ok P" and "0 < shm_min_bytes C" and "wired st"
    and "\<And>t. mb_inv (rx st t)" and "\<And>t. map snd (fetched st t) = arrived (rx st t)"
    and "outbox_ok P st"
    and "\<And>n s. s \<in> pub_sock ` set (pubs st n) \<Longrightarrow>
      map snd (posted st s) @ unposted st n s = sent st n"
    and "ledger C P (nstore st) (places flight st) (contents st W)"
    and "\<And>s t. tagged t (posted st s) = tagged s (fetched st t) @ W (s, t)"
  shows "net_inv C P Z flight st"
  unfolding net_inv_def using assms by blast

lemma net_init_inv: "net_init C P Z flight st \<Longrightarrow> net_inv C P Z flight st"
proof -
  assume i: "net_init C P Z flight st"
  have none: "places flight st p = [] \<and> contents st (\<lambda>_. []) p = []" for p
    using i by (cases p) (auto simp: net_init_def)
  have "ledger C P (nstore st) (places flight st) (contents st (\<lambda>_. []))"
    unfolding ledger_def using i none by (simp add: net_init_def)
  then show ?thesis
    using i by (auto simp: net_init_def net_inv_def mb_init_inv mb_init_def outbox_ok_def unposted_def
        intro!: exI [of _ "\<lambda>_. []"])
qed

text \<open>The receiver's \<^verbatim>\<open>get\<close>: nothing happened, or the oldest frame of one edge was decoded.\<close>

lemma sub_ready_idle:
  assumes "push_pull Z flight" and "sub_ready Z q ms z = (r, z')"
  shows "flight z' = flight z" and "r = Inl e \<Longrightarrow> is_ZMQError e"
proof -
  obtain p z1 where p: "z_poll Z (poller q) ms z = (p, z1)" by fastforce
  show "flight z' = flight z"
    using assms(2) push_pullD(5) [OF assms(1) p] by (auto simp: sub_ready_def bnd_def p ret_def split: sum.splits)
  show "is_ZMQError e" if "r = Inl e"
    using assms(2) push_pullD(4) [OF assms(1), of "poller q" ms z e z1] p that
    by (auto simp: sub_ready_def bnd_def ret_def split: sum.splits)
qed

definition idle_result :: "exn + 'm option \<Rightarrow> bool" where
  "idle_result r \<longleftrightarrow> r = Inr None \<or> (\<exists>e. r = Inl e \<and> is_ZMQError e)"

definition took_frame :: "('c \<Rightarrow> bytes list) \<Rightarrow> ('c \<Rightarrow> bytes list) \<Rightarrow> 'c \<Rightarrow> bytes \<Rightarrow> bool" where
  "took_frame g g' c raw \<longleftrightarrow> g c = raw # g' c \<and> (\<forall>d. d \<noteq> c \<longrightarrow> g' d = g d)"

lemma zq_get_nowait_cases:
  assumes "push_pull Z flight" and "socket_sub q = Some t"
    and "zq_get_nowait C P Z q (sh, z) = (r, (sh', z'))"
  shows "(idle_result r \<and> sh' = sh \<and> flight z' = flight z) \<or>
    (\<exists>s raw lr. took_frame (flight z) (flight z') (s, t) raw \<and> loads C P raw sh = (lr, sh') \<and>
       (\<forall>m. lr = Inr m \<longrightarrow> r = Inr (Some m)))"
proof -
  obtain r2 z2 where p2: "sub_ready Z q (Some 0) z = (r2, z2)" by fastforce
  obtain r3 z3 where p3: "z_recv Z t True z2 = (r3, z3)" by fastforce
  note I = sub_ready_idle [OF assms(1) p2]
  note unf = zq_get_nowait_def bnd_def lift_w_def some_or_attr_def on_fst_def assms(2) p2 p3 ret_def
  show ?thesis
  proof (cases "r2 = Inr True")
    case False
    then show ?thesis
      using assms(3) I by (cases r2) (auto simp: unf idle_result_def)
  next
    case ready: True
    show ?thesis
    proof (cases r3)
      case (Inl e)
      then show ?thesis
        using assms(3) ready I(1) push_pullD(3) [OF assms(1), of t z2 e z3] p3
        by (auto simp: unf idle_result_def)
    next
      case (Inr raw)
      obtain s where s: "took_frame (flight z2) (flight z3) (s, t) raw"
        using push_pullD(2) [OF assms(1), of t z2 raw z3] p3 Inr unfolding took_frame_def by blast
      obtain lr sh2 where l: "loads C P raw sh = (lr, sh2)" by fastforce
      have "z' = z3 \<and> sh' = sh2 \<and> (\<forall>m. lr = Inr m \<longrightarrow> r = Inr (Some m))"
        using assms(3) ready Inr by (auto simp: unf l split: sum.splits)
      then show ?thesis using s l I(1) by auto
    qed
  qed
qed

lemma zq_get_cases:
  assumes "push_pull Z flight" and "socket_sub q = Some t"
    and "zq_get C P Z q tm (sh, z) = (r, (sh', z'))"
  obtains (nothing) "r = Inr None" "sh' = sh" "flight z' = flight z"
  | (frame) s raw lr where "took_frame (flight z) (flight z') (s, t) raw" "loads C P raw sh = (lr, sh')"
      "\<And>m. lr = Inr m \<Longrightarrow> r = Inr (Some m)"
proof -
  obtain r1 z1 where p1: "sub_ready Z q (timeout_millis tm) z = (r1, z1)" by fastforce
  note I = sub_ready_idle [OF assms(1) p1]
  obtain r2 sh2 z2 where p2: "zq_get_nowait C P Z q (sh, z1) = (r2, (sh2, z2))" by (metis surj_pair)
  note unf = zq_get_def catch_exn_def bnd_def lift_w_def p1 p2 ret_def
  show thesis
  proof (cases "r1 = Inr True")
    case False
    then have "r = Inr None \<and> sh' = sh \<and> flight z' = flight z"
      using assms(3) I by (cases r1) (auto simp: unf)
    then show thesis using that(1) by blast
  next
    case ready: True
    have w: "sh' = sh2 \<and> z' = z2 \<and> (idle_result r2 \<longrightarrow> r = Inr None) \<and>
        (\<forall>m. r2 = Inr (Some m) \<longrightarrow> r = Inr (Some m))"
      using assms(3) ready by (auto simp: unf idle_result_def split: sum.splits if_splits)
    from zq_get_nowait_cases [OF assms(1,2) p2] show thesis
    proof
      assume "idle_result r2 \<and> sh2 = sh \<and> flight z2 = flight z1"
      then show thesis using w I(1) that(1) by auto
    next
      assume "\<exists>s raw lr. took_frame (flight z1) (flight z2) (s, t) raw \<and> loads C P raw sh = (lr, sh2) \<and>
        (\<forall>m. lr = Inr m \<longrightarrow> r2 = Inr (Some m))"
      then obtain s raw lr where f: "took_frame (flight z1) (flight z2) (s, t) raw"
        "loads C P raw sh = (lr, sh2)" "\<forall>m. lr = Inr m \<longrightarrow> r2 = Inr (Some m)" by blast
      show thesis
        by (rule that(2) [of s raw lr]) (use f w I(1) in simp_all)
    qed
  qed
qed

text \<open>No step rewires a mailbox.\<close>

lemma recv_micro_wiring [simp]:
  "pub_sockets (snd (recv_micro p b)) = pub_sockets b" "sub_queue (snd (recv_micro p b)) = sub_queue b"
  by (cases p; auto simp: enqueue_block_turn_def inc_drops_def set_depth_def split: sum.splits)+

lemma control_receive_wiring [simp]:
  "pub_sockets (control_receive m b) = pub_sockets b" "sub_queue (control_receive m b) = sub_queue b"
  by (cases m; simp)+

lemma mb_receive_wiring:
  "mb_receive b = (r, b') \<Longrightarrow> pub_sockets b' = pub_sockets b \<and> sub_queue b' = sub_queue b"
  by (auto simp: mb_receive_def set_depth_def split: sum.splits)

lemma mb_step_wiring:
  "mb_step s t \<Longrightarrow> pub_sockets (mb t) = pub_sockets (mb s) \<and> sub_queue (mb t) = sub_queue (mb s)"
  by (erule mb_stepE) (auto simp: recv_step_def dest: mb_receive_wiring)

lemma wired_cong:
  assumes "wired st"
    and "\<And>t. pub_sockets (mb (rx st' t)) = pub_sockets (mb (rx st t)) \<and>
      sub_queue (mb (rx st' t)) = sub_queue (mb (rx st t))"
  shows "wired st'" and "pubs st' = pubs st"
proof -
  show p: "pubs st' = pubs st" using assms(2) by (simp add: pubs_def fun_eq_iff)
  show "wired st'" using assms by (simp add: wired_def p)
qed

lemma unposted_upd:
  "unposted (st\<lparr>outbox := (outbox st)(n := x)\<rparr>) n' s =
     (if n' = n then (case x of Some (m, raw, ps) \<Rightarrow> if s \<in> pub_sock ` set ps then [m] else [] | None \<Rightarrow> [])
      else unposted st n' s)"
  by (simp add: unposted_def)

lemma place_eqI:
  "(\<And>c. f (Edge c) = g (Edge c)) \<Longrightarrow> (\<And>n. f (Hand n) = g (Hand n)) \<Longrightarrow> f = g"
proof
  fix x assume "\<And>c. f (Edge c) = g (Edge c)" "\<And>n. f (Hand n) = g (Hand n)"
  then show "f x = g x" by (cases x) auto
qed

lemma net_inv_dump:
  assumes inv: "net_inv C P Z flight st" and none: "outbox st n = None"
    and d: "dumps C P (shm \<and> length (pub_sockets (mb (rx st n))) = 1) m (nstore st) = (Inr raw, sh)"
  shows "net_inv C P Z flight (st\<lparr>nstore := sh, outbox := (outbox st)(n \<mapsto> (m, raw, pubs st n)),
      sent := (sent st)(n := sent st n @ [m])\<rparr>)" (is "net_inv C P Z flight ?st")
proof -
  note I = net_invD [OF inv]
  obtain W where L: "ledger C P (nstore st) (places flight st) (contents st W)"
    and W: "\<forall>s t. tagged t (posted st s) = tagged s (fetched st t) @ W (s, t)"
    using I(9) by blast
  note D = dumps_carries [OF I(2,3) ledgerD(1) [OF L] d]
  have len: "length (pub_sockets (mb (rx st n))) = length (pubs st n)"
    by (simp add: pubs_def dvalues_def)
  have W0: "wired ?st" "pubs ?st = pubs st" by (rule wired_cong [OF I(4)], simp)+
  have "ledger C P sh (places flight ?st) (contents ?st W)"
  proof (cases "pubs st n")
    case Nil
    then have "places flight ?st = places flight st" "contents ?st W = contents st W"
      using none by (intro place_eqI; simp)+
    moreover have "sh = nstore st"
      using d Nil len by (auto simp: dumps_def bnd_def of_res_def ret_def split: sum.splits)
    ultimately show ?thesis using L by simp
  next
    case (Cons p ps)
    then have "places flight ?st = (places flight st)(Hand n := [raw])"
      "contents ?st W = (contents st W)(Hand n := [m])" by (intro place_eqI; simp)+
    moreover have "places flight st (Hand n) = []" using none by simp
    ultimately show ?thesis using ledger_dumps [OF I(2,3) L _ d] by simp
  qed
  moreover have "outbox_ok P ?st"
    using I(7) D(7) len unfolding outbox_ok_def W0(2) by auto
  moreover have "map snd (posted ?st s) @ unposted ?st n' s = sent ?st n'"
    if "s \<in> pub_sock ` set (pubs st n')" for s n'
    using I(8) [OF that] that none by (auto simp: unposted_def)
  ultimately show ?thesis
    by (intro net_invI [where W = W]) (use I W0 W in \<open>simp_all del: fun_upd_apply\<close>)
qed

lemma net_inv_put:
  assumes inv: "net_inv C P Z flight st" and o: "outbox st n = Some (m, raw, p # ps)"
    and zp: "zq_put_bytes Z (pub_base p) raw (nzmq st) = (Inr (), z)"
    and t: "flight z (pub_sock p, t) \<noteq> flight (nzmq st) (pub_sock p, t)"
  shows "net_inv C P Z flight (st\<lparr>nzmq := z, outbox := (outbox st)(n \<mapsto> (m, raw, ps)),
      posted := (posted st)(pub_sock p := posted st (pub_sock p) @ [(t, m)])\<rparr>)"
    (is "net_inv C P Z flight ?st")
    and "flight z = (flight (nzmq st))((pub_sock p, t) := flight (nzmq st) (pub_sock p, t) @ [raw])"
proof -
  note I = net_invD [OF inv]
  let ?s = "pub_sock p"
  obtain W where L: "ledger C P (nstore st) (places flight st) (contents st W)"
    and W: "\<forall>s t. tagged t (posted st s) = tagged s (fetched st t) @ W (s, t)"
    using I(9) by blast
  obtain qs where qs: "qs @ p # ps = pubs st n" and few: "ps \<noteq> [] \<Longrightarrow> frame_segs P raw = []"
    using I(7) o unfolding outbox_ok_def by fastforce
  have dist: "distinct (map pub_sock (qs @ p # ps))"
    using I(4) unfolding qs wired_def by blast
  have mine: "?s \<in> pub_sock ` set (pubs st n)" by (simp flip: qs)
  have "z_send Z ?s raw False (nzmq st) = (Inr (), z)"
    using zp by (auto simp: zq_put_bytes_def bnd_def some_or_attr_def raise_def ret_def pub_sock_def
        split: option.splits)
  then obtain t' where "flight z = (flight (nzmq st))((?s, t') := flight (nzmq st) (?s, t') @ [raw])"
    using push_pullD(1) [OF I(1)] by blast
  with t show z: "flight z = (flight (nzmq st))((?s, t) := flight (nzmq st) (?s, t) @ [raw])"
    by (metis fun_upd_other prod.inject)
  let ?W = "W((?s, t) := W (?s, t) @ [m])"
  have W0: "wired ?st" "pubs ?st = pubs st" by (rule wired_cong [OF I(4)], simp)+
  have hand: "places flight st (Hand n) = [raw]" "contents st W (Hand n) = [m]" using o by simp_all
  have "ledger C P (nstore st) (places flight ?st) (contents ?st ?W)"
  proof (cases ps)
    case Nil
    then have "places flight ?st = (places flight st)(Hand n := [], Edge (?s, t) := places flight st (Edge (?s, t)) @ [raw])"
      "contents ?st ?W = (contents st W)(Hand n := [], Edge (?s, t) := contents st W (Edge (?s, t)) @ contents st W (Hand n))"
      using z o by (intro place_eqI; simp)+
    then show ?thesis using ledger_move [OF L hand(1), of "Edge (?s, t)"] by simp
  next
    case (Cons p' ps')
    then have "places flight ?st = (places flight st)(Edge (?s, t) := places flight st (Edge (?s, t)) @ [raw])"
      "contents ?st ?W = (contents st W)(Edge (?s, t) := contents st W (Edge (?s, t)) @ contents st W (Hand n))"
      using z o by (intro place_eqI; auto)+
    then show ?thesis using ledger_copy [OF L hand(1), of "Edge (?s, t)"] few Cons by simp
  qed
  moreover have "tagged t' (posted ?st s) = tagged s (fetched ?st t') @ ?W (s, t')" for s t'
    using W by auto
  moreover have "outbox_ok P ?st"
    using I(7) o few qs unfolding outbox_ok_def W0(2)
    by (cases ps) (auto intro: exI [of _ "qs @ [p]"])
  moreover have "map snd (posted ?st s) @ unposted ?st n' s = sent ?st n'"
    if s: "s \<in> pub_sock ` set (pubs st n')" for s n'
  proof (cases "s = ?s")
    case True
    then have "n' = n" using s mine I(4) unfolding wired_def by blast
    then show ?thesis using I(8) [OF s] o True dist by (auto simp: unposted_def)
  next
    case False
    then show ?thesis using I(8) [OF s] o by (auto simp: unposted_def)
  qed
  ultimately show "net_inv C P Z flight ?st"
    by (intro net_invI [where W = ?W]) (use I W0 in \<open>simp_all del: fun_upd_apply\<close>)
qed

lemma net_inv_sent:
  assumes inv: "net_inv C P Z flight st" and o: "outbox st n = Some (m, raw, [])"
  shows "net_inv C P Z flight (st\<lparr>outbox := (outbox st)(n := None)\<rparr>)" (is "net_inv C P Z flight ?st")
proof -
  note I = net_invD [OF inv]
  obtain W where L: "ledger C P (nstore st) (places flight st) (contents st W)"
    and W: "\<forall>s t. tagged t (posted st s) = tagged s (fetched st t) @ W (s, t)"
    using I(9) by blast
  have W0: "wired ?st" "pubs ?st = pubs st" by (rule wired_cong [OF I(4)], simp)+
  have "places flight ?st = places flight st" "contents ?st W = contents st W"
    using o by (intro place_eqI; simp)+
  moreover have "unposted ?st n' s = unposted st n' s" for n' s
    using o by (simp add: unposted_def)
  moreover have "outbox_ok P ?st" using I(7) unfolding outbox_ok_def W0(2) by auto
  ultimately show ?thesis
    by (intro net_invI [where W = W]) (use I W0 W L in simp_all)
qed

lemma net_fetch:
  assumes inv: "net_inv C P Z flight st"
    and g: "zq_get C P Z (sub_queue (mb (rx st t))) tm (nstore st, nzmq st) = (r, (sh, z))"
  obtains (idle) "r = Inr None" "sh = nstore st" "flight z = flight (nzmq st)"
  | (fetch) s m raw where "r = Inr (Some m)" "took_frame (flight (nzmq st)) (flight z) (s, t) raw"
      "loads C P raw (nstore st) = (Inr m, sh)"
      "\<And>W. ledger C P (nstore st) (places flight st) (contents st W) \<Longrightarrow>
        \<exists>ms. W (s, t) = m # ms \<and> ledger C P sh ((places flight st)(Edge (s, t) := flight z (s, t)))
          ((contents st W)(Edge (s, t) := ms))"
proof -
  note I = net_invD [OF inv]
  have sub: "socket_sub (sub_queue (mb (rx st t))) = Some t" using I(4) by (simp add: wired_def)
  show thesis
  proof (rule zq_get_cases [OF I(1) sub g])
    assume "r = Inr None" "sh = nstore st" "flight z = flight (nzmq st)"
    then show thesis by (rule that(1))
  next
    fix s raw lr
    assume f: "took_frame (flight (nzmq st)) (flight z) (s, t) raw" "loads C P raw (nstore st) = (lr, sh)"
      "\<And>m. lr = Inr m \<Longrightarrow> r = Inr (Some m)"
    have head: "places flight st (Edge (s, t)) = raw # flight z (s, t)"
      using f(1) by (simp add: took_frame_def)
    obtain W where "ledger C P (nstore st) (places flight st) (contents st W)" using I(9) by blast
    from ledger_loads [OF I(2) this head] f(2) obtain m where m: "lr = Inr m" by auto
    have "\<exists>ms. W (s, t) = m # ms \<and> ledger C P sh ((places flight st)(Edge (s, t) := flight z (s, t)))
        ((contents st W)(Edge (s, t) := ms))"
      if "ledger C P (nstore st) (places flight st) (contents st W)" for W
      using ledger_loads [OF I(2) that head] f(2) m by (metis contents.simps(1) prod.inject sum.inject(2))
    then show thesis
      using that(2) [OF f(3) [OF m] f(1)] f(2) m by blast
  qed
qed

lemma net_inv_get:
  assumes inv: "net_inv C P Z flight st" and idle: "pc (rx st t) = Idle"
    and g: "zq_get C P Z (sub_queue (mb (rx st t))) tm (nstore st, nzmq st) = (Inr (Some m), (sh, z))"
    and s: "flight z (s, t) \<noteq> flight (nzmq st) (s, t)"
  shows "net_inv C P Z flight (st\<lparr>nstore := sh, nzmq := z, rx := (rx st)(t := mb_arrive m (rx st t)),
      fetched := (fetched st)(t := fetched st t @ [(s, m)])\<rparr>)" (is "net_inv C P Z flight ?st")
    and "\<exists>raw. took_frame (flight (nzmq st)) (flight z) (s, t) raw \<and> loads C P raw (nstore st) = (Inr m, sh)"
proof -
  note I = net_invD [OF inv]
  obtain W where L: "ledger C P (nstore st) (places flight st) (contents st W)"
    and W: "\<forall>s t. tagged t (posted st s) = tagged s (fetched st t) @ W (s, t)"
    using I(9) by blast
  obtain s' m' raw where r: "Inr (Some m) = (Inr (Some m') :: exn + message option)"
    and f: "took_frame (flight (nzmq st)) (flight z) (s', t) raw" "loads C P raw (nstore st) = (Inr m', sh)"
    and L': "\<And>W. ledger C P (nstore st) (places flight st) (contents st W) \<Longrightarrow>
        \<exists>ms. W (s', t) = m' # ms \<and> ledger C P sh ((places flight st)(Edge (s', t) := flight z (s', t)))
          ((contents st W)(Edge (s', t) := ms))"
    by (rule net_fetch [OF inv g]) simp_all
  have "s' = s" using f(1) s unfolding took_frame_def by (metis prod.inject)
  moreover have "m' = m" using r by simp
  ultimately have same: "s' = s" "m' = m" .
  show "\<exists>raw. took_frame (flight (nzmq st)) (flight z) (s, t) raw \<and> loads C P raw (nstore st) = (Inr m, sh)"
    using f same by blast
  obtain ms where ms: "W (s, t) = m # ms"
    and led: "ledger C P sh ((places flight st)(Edge (s, t) := flight z (s, t)))
      ((contents st W)(Edge (s, t) := ms))"
    using L' [OF L] same by blast
  let ?W = "W((s, t) := ms)"
  have W0: "wired ?st" "pubs ?st = pubs st" by (rule wired_cong [OF I(4)], simp add: mb_arrive_def)+
  have others: "flight z c = flight (nzmq st) c" if "c \<noteq> (s, t)" for c
    using f(1) same that unfolding took_frame_def by blast
  have "places flight ?st = (places flight st)(Edge (s, t) := flight z (s, t))"
    "contents ?st ?W = (contents st W)(Edge (s, t) := ms)"
    by (intro place_eqI; simp add: others)+
  moreover have "tagged t' (posted ?st a) = tagged a (fetched ?st t') @ ?W (a, t')" for a t'
    using W ms by auto
  moreover have "mb_inv (rx ?st t')" for t'
    using I(5) mb_inv_arrive [OF I(5) idle] by (simp add: mb_arrive_def)
  moreover have "map snd (fetched ?st t') = arrived (rx ?st t')" for t'
    using I(6) by (simp add: mb_arrive_def)
  moreover have "unposted ?st n a = unposted st n a" for n a by (simp add: unposted_def)
  moreover have "outbox_ok P ?st" using I(7) unfolding outbox_ok_def W0(2) by simp
  ultimately show "net_inv C P Z flight ?st"
    by (intro net_invI [where W = ?W]) (use I W0 led in \<open>simp_all del: fun_upd_apply\<close>)
qed

lemma net_inv_timeout:
  assumes inv: "net_inv C P Z flight st"
    and g: "zq_get C P Z (sub_queue (mb (rx st t))) tm (nstore st, nzmq st) = (Inr None, (sh, z))"
  shows "sh = nstore st" and "flight z = flight (nzmq st)"
    and "net_inv C P Z flight (st\<lparr>nstore := sh, nzmq := z\<rparr>)" (is "net_inv C P Z flight ?st")
proof -
  note I = net_invD [OF inv]
  show same: "sh = nstore st" "flight z = flight (nzmq st)"
    by (rule net_fetch [OF inv g]; simp)+
  obtain W where L: "ledger C P (nstore st) (places flight st) (contents st W)"
    and W: "\<forall>s t. tagged t (posted st s) = tagged s (fetched st t) @ W (s, t)"
    using I(9) by blast
  have W0: "wired ?st" "pubs ?st = pubs st" by (rule wired_cong [OF I(4)], simp)+
  have "places flight ?st = places flight st" "contents ?st W = contents st W"
    using same by (intro place_eqI; simp)+
  moreover have "unposted ?st n a = unposted st n a" for n a by (simp add: unposted_def)
  moreover have "outbox_ok P ?st" using I(7) unfolding outbox_ok_def W0(2) by simp
  ultimately show "net_inv C P Z flight ?st"
    by (intro net_invI [where W = W]) (use I W0 L W same in simp_all)
qed

lemma net_inv_inside:
  assumes inv: "net_inv C P Z flight st" and x: "mb_step (rx st t) x" "arrived x = arrived (rx st t)"
  shows "net_inv C P Z flight (st\<lparr>rx := (rx st)(t := x)\<rparr>)" (is "net_inv C P Z flight ?st")
proof -
  note I = net_invD [OF inv]
  obtain W where L: "ledger C P (nstore st) (places flight st) (contents st W)"
    and W: "\<forall>s t. tagged t (posted st s) = tagged s (fetched st t) @ W (s, t)"
    using I(9) by blast
  have W0: "wired ?st" "pubs ?st = pubs st"
    by (rule wired_cong [OF I(4)], use mb_step_wiring [OF x(1)] in simp)+
  have "places flight ?st = places flight st" "contents ?st W = contents st W"
    by (intro place_eqI; simp)+
  moreover have "mb_inv (rx ?st t')" for t' using I(5) mb_step_inv [OF I(5) x(1)] by simp
  moreover have "map snd (fetched ?st t') = arrived (rx ?st t')" for t' using I(6) x(2) by simp
  moreover have "unposted ?st n a = unposted st n a" for n a by (simp add: unposted_def)
  moreover have "outbox_ok P ?st" using I(7) unfolding outbox_ok_def W0(2) by simp
  ultimately show ?thesis
    by (intro net_invI [where W = W]) (use I W0 L W in \<open>simp_all del: fun_upd_apply\<close>)
qed

lemma net_step_inv: "net_inv C P Z flight st \<Longrightarrow> net_step C P shm Z flight st st' \<Longrightarrow> net_inv C P Z flight st'"
  by (erule net_stepE)
     (auto intro: net_inv_dump net_inv_put(1) net_inv_sent net_inv_get(1) net_inv_timeout(3) net_inv_inside
       simp del: fun_upd_apply)

section \<open>The specification: one FIFO of messages per edge\<close>

text \<open>What a component may assume of the network: a channel of messages for every pair of sockets,
  to which a send appends and from which an idle receiver takes the oldest, and the mailboxes.\<close>

record fifo_net =
  chan :: "sock \<times> sock \<Rightarrow> (exn + message) list"
  boxes :: "sock \<Rightarrow> mb_sys"

inductive fifo_step :: "fifo_net \<Rightarrow> fifo_net \<Rightarrow> bool" where
  stutter: "fifo_step s s"
| send: "fifo_step s (s\<lparr>chan := (chan s)(c := chan s c @ [Inr m])\<rparr>)"
| deliver: "chan s (a, t) = Inr m # rest \<Longrightarrow> pc (boxes s t) = Idle \<Longrightarrow> running (mb (boxes s t)) \<Longrightarrow>
    fifo_step s (s\<lparr>chan := (chan s)((a, t) := rest), boxes := (boxes s)(t := mb_arrive m (boxes s t))\<rparr>)"
| inside: "mb_step (boxes s t) x \<Longrightarrow> arrived x = arrived (boxes s t) \<Longrightarrow>
    fifo_step s (s\<lparr>boxes := (boxes s)(t := x)\<rparr>)"

definition fifo_init :: "fifo_net \<Rightarrow> bool" where
  "fifo_init s \<longleftrightarrow> chan s = (\<lambda>_. []) \<and> (\<forall>t. mb_init (boxes s t))"

text \<open>The channel of an edge is what its frames would decode to now.\<close>

definition net_abs :: "codec_env \<Rightarrow> message pickler \<Rightarrow> ('z \<Rightarrow> sock \<times> sock \<Rightarrow> bytes list) \<Rightarrow> 'z net \<Rightarrow> fifo_net" where
  "net_abs C P flight st =
     \<lparr>chan = (\<lambda>c. map (\<lambda>raw. fst (loads C P raw (nstore st))) (flight (nzmq st) c)), boxes = rx st\<rparr>"

lemma decoded:
  assumes "pickle_ok P" and "ledger C P (nstore st) (places flight st) (contents st W)"
  shows "map (\<lambda>raw. fst (loads C P raw (nstore st))) (flight (nzmq st) c) = map Inr (W c)"
proof -
  have "list_all2 (carries C P (nstore st)) (flight (nzmq st) c) (W c)"
    using ledgerD(2) [OF assms(2), of "Edge c"] by simp
  then show ?thesis
    by (induction rule: list_all2_induct) (simp_all add: carries_loads [OF assms(1)])
qed

definition waiting :: "'z net \<Rightarrow> sock \<times> sock \<Rightarrow> message list" where
  "waiting st = (\<lambda>(s, t). drop (length (tagged s (fetched st t))) (tagged t (posted st s)))"

lemma waiting_split:
  "net_inv C P Z flight st \<Longrightarrow> tagged t (posted st s) = tagged s (fetched st t) @ waiting st (s, t)"
  using net_invD(9) [of C P Z flight st] by (auto simp: waiting_def)

lemma net_abs_waiting:
  assumes "net_inv C P Z flight st"
  shows "net_abs C P flight st = \<lparr>chan = (\<lambda>c. map Inr (waiting st c)), boxes = rx st\<rparr>"
proof -
  obtain W where L: "ledger C P (nstore st) (places flight st) (contents st W)"
    and W: "\<forall>s t. tagged t (posted st s) = tagged s (fetched st t) @ W (s, t)"
    using net_invD(9) [OF assms] by blast
  have "W = waiting st"
    using W waiting_split [OF assms] by (simp add: fun_eq_iff split_paired_all)
  then show ?thesis
    unfolding net_abs_def decoded [OF net_invD(2) [OF assms] L] by simp
qed

lemma net_step_abs:
  assumes inv: "net_inv C P Z flight st" and step: "net_step C P shm Z flight st st'"
  shows "fifo_step (net_abs C P flight st) (net_abs C P flight st')"
proof -
  have inv': "net_inv C P Z flight st'" by (rule net_step_inv [OF inv step])
  note A = net_abs_waiting [OF inv] net_abs_waiting [OF inv']
  from step show ?thesis
  proof (cases rule: net_step.cases)
    case (dump n m raw sh)
    then have "waiting st' = waiting st" "rx st' = rx st" by (simp_all add: waiting_def)
    then show ?thesis unfolding A by (simp add: fifo_step.stutter)
  next
    case (put n m raw p ps z t)
    let ?c = "(pub_sock p, t)"
    have "waiting st' ?c = waiting st ?c @ [m]"
      using waiting_split [OF inv, of t "pub_sock p"] waiting_split [OF inv', of t "pub_sock p"] put(1)
      by simp
    then have "waiting st' = (waiting st)(?c := waiting st ?c @ [m])"
      using put(1) by (auto simp: waiting_def fun_eq_iff)
    moreover have "rx st' = rx st" using put(1) by simp
    ultimately show ?thesis
      using fifo_step.send [of "\<lparr>chan = (\<lambda>c. map Inr (waiting st c)), boxes = rx st\<rparr>" ?c m]
      unfolding A by (simp add: fun_upd_def if_distrib cong: if_cong)
  next
    case (sent n m raw)
    then have "waiting st' = waiting st" "rx st' = rx st" by (simp_all add: waiting_def)
    then show ?thesis unfolding A by (simp add: fifo_step.stutter)
  next
    case (get t m sh z s)
    let ?c = "(s, t)"
    have head: "waiting st ?c = m # waiting st' ?c"
      using waiting_split [OF inv, of t s] waiting_split [OF inv', of t s] get(1) by simp
    have other: "waiting st' c = waiting st c" if "c \<noteq> ?c" for c
      using get(1) that by (cases c) (auto simp: waiting_def)
    have w: "(\<lambda>c. map Inr (waiting st' c)) =
        (\<lambda>c. map Inr (waiting st c))(?c := map Inr (waiting st' ?c))"
      by (rule ext) (simp add: other)
    show ?thesis
      using fifo_step.deliver [of "\<lparr>chan = (\<lambda>c. map Inr (waiting st c)), boxes = rx st\<rparr>" s t m
          "map Inr (waiting st' ?c)"] head get
      unfolding A w by simp
  next
    case (timeout t sh z)
    then have "waiting st' = waiting st" "rx st' = rx st" by (simp_all add: waiting_def)
    then show ?thesis unfolding A by (simp add: fifo_step.stutter)
  next
    case (inside t x)
    then have "waiting st' = waiting st" by (simp add: waiting_def)
    then show ?thesis
      using fifo_step.inside [of "\<lparr>chan = (\<lambda>c. map Inr (waiting st c)), boxes = rx st\<rparr>" t x] inside
      unfolding A by simp
  qed
qed

interpretation nets: refinement_system "net_init C P Z flight" "net_step C P shm Z flight"
    "net_inv C P Z flight" "net_abs C P flight" fifo_init fifo_step
  for C P shm Z flight
proof unfold_locales
  show "net_inv C P Z flight st" if "net_init C P Z flight st" for st :: "'a net"
    by (rule net_init_inv [OF that])
  show "net_inv C P Z flight st'" if "net_inv C P Z flight st" "net_step C P shm Z flight st st'"
    for st st' :: "'a net" by (rule net_step_inv [OF that])
  show "fifo_init (net_abs C P flight st)" if "net_init C P Z flight st" for st :: "'a net"
    using that by (simp add: net_init_def fifo_init_def net_abs_def)
  show "fifo_step (net_abs C P flight st) (net_abs C P flight st')"
    if "net_inv C P Z flight st" "net_step C P shm Z flight st st'" for st st' :: "'a net"
    by (rule net_step_abs [OF that])
qed

end
