(* ===== verification/Network_Runs.thy ===== *)
theory Network_Runs
  imports Network
begin

text \<open>
  The calls of the mailbox as runs of the network: an uninterrupted \<open>mb_send\<close> and an uninterrupted
  \<open>receiver_turn\<close> are sequences of its steps with the same result. Then a closed instance, two
  nodes over one edge with a message that goes through shared memory, and the properties of the
  composed system.
\<close>

section \<open>A send of the mailbox is a run of the network\<close>






section \<open>A turn of the receiver is a run of the network\<close>








section \<open>A closed instance\<close>

text \<open>Sockets in which PUSH \<open>s\<close> has the one peer PULL \<open>s\<close>.\<close>

definition pair_zmq :: "(sock \<times> sock \<Rightarrow> bytes list) zmq_lib" where
  "pair_zmq = \<lparr>z_context = (\<lambda>w. (Inr 0, w)), z_socket = (\<lambda>_ _ w. (Inr 0, w)),
     z_linger = (\<lambda>_ _ w. (Inr (), w)), z_bind = (\<lambda>_ _ w. (Inr (), w)),
     z_bind_random = (\<lambda>_ w. (Inr 6000, w)), z_connect = (\<lambda>_ _ w. (Inr (), w)),
     z_disconnect = (\<lambda>_ _ w. (Inr (), w)),
     z_poll = (\<lambda>ss _ w. (Inr (filter (\<lambda>s. w (s, s) \<noteq> []) (concat (map (\<lambda>s. case s of None \<Rightarrow> [] | Some x \<Rightarrow> [x]) ss))), w)),
     z_recv = (\<lambda>s _ w. case w (s, s) of [] \<Rightarrow> (Inl (ZMQError ''EAGAIN''), w)
       | raw # rest \<Rightarrow> (Inr raw, w((s, s) := rest))),
     z_send = (\<lambda>s raw _ w. (Inr (), w((s, s) := w (s, s) @ [raw]))), z_close = (\<lambda>_ w. (Inr (), w)),
     z_term = (\<lambda>_ w. (Inr (), w)), z_rcvhwm = (\<lambda>_ w. (Inr 1000, w))\<rparr>"

lemma pair_zmq_ok: "push_pull pair_zmq (\<lambda>w. w)"
  unfolding push_pull_def pair_zmq_def by (auto split: list.splits)

text \<open>A pickler of two messages, the first of which has a buffer.\<close>

definition buf_pickler :: "'m \<Rightarrow> 'm \<Rightarrow> bytes \<Rightarrow> 'm pickler" where
  "buf_pickler a b v = (pair_pickler a b)\<lparr>
     p_buffers := (\<lambda>m. if m = a then [v] else []),
     p_dumps_cb := (\<lambda>m keep. if m = a then Inr (if keep v then [1] else [3]) else pair_dumps a b m),
     p_loads_buffers := (\<lambda>raw bufs. if raw = [3] then (if bufs = [v] then Inr a else Inl (ValueError ''buffers''))
       else pair_loads a b raw)\<rparr>"

lemma buf_pickler_ok: "pickle_ok (buf_pickler a b v)"
  using toy_pickler_ok
  by (auto simp: pickle_ok_def buf_pickler_def pair_pickler_def pair_dumps_def pair_loads_def
      split: if_splits)

abbreviation demo_pickler :: "message pickler" where
  "demo_pickler \<equiv> buf_pickler (demo_msg 1) (demo_msg 2) [7, 8, 9]"

definition demo_node :: "sock \<Rightarrow> mb_sys" where
  "demo_node t = (demo_start 4 BLOCK)\<lparr>mb := (demo_mailbox 4 BLOCK)\<lparr>
     pub_sockets := (if t = 0 then [(''a'', demo_pub 1)] else []),
     sub_queue := demo_sub\<lparr>socket_sub := Some t, poller := [Some t]\<rparr>\<rparr>\<rparr>"

definition demo_net :: "(sock \<times> sock \<Rightarrow> bytes list) net" where
  "demo_net = \<lparr>nstore = demo_shm, nzmq = (\<lambda>_. []), rx = demo_node, outbox = (\<lambda>_. None),
     sent = (\<lambda>_. []), posted = (\<lambda>_. []), fetched = (\<lambda>_. [])\<rparr>"

definition demo_frame :: bytes where
  "demo_frame = TAG_SHM # p_dumps_env toy_pickler ([3], [(0, 3)])"

abbreviation demo_steps :: "(sock \<times> sock \<Rightarrow> bytes list) net \<Rightarrow> (sock \<times> sock \<Rightarrow> bytes list) net \<Rightarrow> bool" where
  "demo_steps \<equiv> net_step demo_env demo_pickler True pair_zmq (\<lambda>w. w)"

abbreviation demo_ini :: "(sock \<times> sock \<Rightarrow> bytes list) net \<Rightarrow> bool" where
  "demo_ini \<equiv> net_init demo_env demo_pickler pair_zmq (\<lambda>w. w)"

definition demo_sent :: "(sock \<times> sock \<Rightarrow> bytes list) net" where
  "demo_sent = demo_net\<lparr>nstore := stored [[7, 8, 9]] demo_shm, nzmq := (\<lambda>_. [])((1, 1) := [demo_frame]),
     sent := (\<lambda>_. [])(0 := [demo_msg 1]), posted := (\<lambda>_. [])(1 := [(1, demo_msg 1)])\<rparr>"

lemma demo_pubs: "pubs demo_net n = (if n = 0 then [demo_pub 1] else [])"
  by (simp add: pubs_def demo_net_def demo_node_def dvalues_def)

lemma demo_pub_sock [simp]: "socket_pub (demo_pub s) = Some s" "pub_sock (demo_pub s) = s"
  by (simp_all add: demo_pub_def pub_sock_def pub_of_def zero_queue.defs)

lemma demo_init: "demo_ini demo_net"
proof -
  have "wired demo_net"
    by (auto simp: wired_def demo_pubs) (auto simp: demo_net_def demo_node_def)
  then show ?thesis
    using pair_zmq_ok buf_pickler_ok
    by (auto simp: net_init_def demo_net_def demo_env_def demo_node_def demo_start_def mb_init_def
        demo_mailbox_def new_queue_def demo_shm_def shm_wf_def)
qed

lemma demo_big: "big_buffers demo_env demo_pickler (demo_msg 1) = [[7, 8, 9]]"
  by (simp add: big_buffers_def buf_pickler_def keep_in_band_def demo_env_def)

lemma demo_dump: "dumps demo_env demo_pickler True (demo_msg 1) demo_shm = (Inr demo_frame, stored [[7, 8, 9]] demo_shm)"
proof -
  have "p_dumps_cb demo_pickler (demo_msg 1) (keep_in_band demo_env) = Inr [3]"
    by (simp add: buf_pickler_def keep_in_band_def demo_env_def)
  from dumps_shm_ok [OF this, of demo_shm] show ?thesis
    unfolding demo_big
    by (simp add: demo_env_def demo_shm_def shm_wf_def demo_frame_def buf_pickler_def pair_pickler_def
        numeral_3_eq_3)
qed


lemma demo_put: "zq_put_bytes pair_zmq (pub_base (demo_pub 1)) demo_frame (\<lambda>_. []) =
    (Inr (), (\<lambda>_. [])((1, 1) := [demo_frame]))"
  by (simp add: zq_put_bytes_def bnd_def some_or_attr_def ret_def pair_zmq_def)

lemma demo_net_start: "reach demo_ini demo_steps demo_net"
  by (rule reach_init) (rule demo_init)

lemma demo_net_reach: "reach demo_ini demo_steps demo_sent"
proof -
  let ?d = "demo_net\<lparr>nstore := stored [[7, 8, 9]] demo_shm,
    outbox := (\<lambda>_. None)(0 \<mapsto> (demo_msg 1, demo_frame, [demo_pub 1])), sent := (\<lambda>_. [])(0 := [demo_msg 1])\<rparr>"
  let ?p = "?d\<lparr>nzmq := (\<lambda>_. [])((1, 1) := [demo_frame]),
    outbox := (\<lambda>_. None)(0 \<mapsto> (demo_msg 1, demo_frame, [])), posted := (\<lambda>_. [])(1 := [(1, demo_msg 1)])\<rparr>"
  have d: "demo_steps demo_net ?d"
    using net_step.dump [where C = demo_env and P = demo_pickler and shm = True and Z = pair_zmq
        and flight = "\<lambda>w. w" and st = demo_net and n = 0 and m = "demo_msg 1" and raw = demo_frame
        and sh = "stored [[7, 8, 9]] demo_shm"]
    by (simp add: demo_net_def demo_pubs [unfolded demo_net_def] demo_dump demo_node_def
        del: One_nat_def stored.simps)
  have z: "nzmq ?d = (\<lambda>_. [])" by (simp add: demo_net_def)
  have "demo_steps ?d (?d\<lparr>nzmq := (\<lambda>_. [])((1, 1) := [demo_frame]),
      outbox := (outbox ?d)(0 \<mapsto> (demo_msg 1, demo_frame, [])),
      posted := (posted ?d)(pub_sock (demo_pub 1) := posted ?d (pub_sock (demo_pub 1)) @ [(1, demo_msg 1)])\<rparr>)"
  proof (rule net_step.put)
    show "outbox ?d 0 = Some (demo_msg 1, demo_frame, [demo_pub 1])" by simp
    show "zq_put_bytes pair_zmq (pub_base (demo_pub 1)) demo_frame (nzmq ?d) =
        (Inr (), (\<lambda>_. [])((1, 1) := [demo_frame]))"
      unfolding z by (rule demo_put)
    show "((\<lambda>_. [])((1, 1) := [demo_frame])) (pub_sock (demo_pub 1), 1) \<noteq> nzmq ?d (pub_sock (demo_pub 1), 1)"
      by (simp add: demo_net_def)
  qed
  then have p: "demo_steps ?d ?p"
    by (simp add: demo_net_def del: One_nat_def stored.simps)
  have "demo_steps ?p (?p\<lparr>outbox := (outbox ?p)(0 := None)\<rparr>)"
    by (rule net_step.sent [of ?p 0 "demo_msg 1" demo_frame]) simp
  moreover have idem: "((\<lambda>_. None)(0 := None) :: sock \<Rightarrow> (message \<times> bytes \<times> zero_pub list) option) = (\<lambda>_. None)"
    by auto
  have "?p\<lparr>outbox := (outbox ?p)(0 := None)\<rparr> = demo_sent"
    unfolding demo_net_def demo_sent_def by (simp add: idem del: One_nat_def stored.simps)
  ultimately have s: "demo_steps ?p demo_sent" by metis
  note next_state = reach_step [where ini = demo_ini and stp = demo_steps]
  have "reach demo_ini demo_steps ?d" by (rule next_state [of demo_net]) (rule demo_net_start, rule d)
  then have "reach demo_ini demo_steps ?p" using p by (rule next_state [of ?d])
  then show ?thesis using s by (rule next_state [of ?p])
qed

section \<open>Properties\<close>

text \<open>C3: The running network implements one FIFO of messages per edge: in every reachable
  interleaving of senders, receiver threads and nodes, over shared memory or not, what the frames of
  the edges would decode to now, with the mailboxes, is a reachable state of the specification, in
  which a send appends a message to a channel, an idle receiver takes the oldest one, and nothing
  else touches a channel.\<close>

theorem network_implements_fifos:
  assumes "reach (net_init C P Z flight) (net_step C P shm Z flight) st"
  shows "reach fifo_init fifo_step (net_abs C P flight st)"
  by (rule nets.reach_abs [OF assms])

theorem network_implements_fifos_witness:
  "reach fifo_init fifo_step (net_abs demo_env demo_pickler (\<lambda>w. w) demo_sent) \<and>
   length (chan (net_abs demo_env demo_pickler (\<lambda>w. w) demo_sent) (1, 1)) = 1"
  using network_implements_fifos [OF demo_net_reach] by (simp add: net_abs_def demo_sent_def)

text \<open>C2: End to end, whatever the interleaving: a node that is not in the middle of a send has put
  every message it sent on each of its edges, once and in order; of what it put on an edge for a
  peer, that peer fetched a first part and the frames in flight decode to the rest; and a receiver
  that runs under the block policy has fetched exactly what its node consumed, what is queued and
  what it holds, in order.\<close>

theorem sent_is_received:
  assumes "reach (net_init C P Z flight) (net_step C P shm Z flight) st"
    and "p \<in> set (pubs st n)" and "outbox st n = None"
    and "queue_policy (mb (rx st t)) = BLOCK" and "running (mb (rx st t))"
  shows "map snd (posted st (pub_sock p)) = sent st n \<and>
    map Inr (tagged t (posted st (pub_sock p))) = map Inr (tagged (pub_sock p) (fetched st t)) @
      map (\<lambda>raw. fst (loads C P raw (nstore st))) (flight (nzmq st) (pub_sock p, t)) \<and>
    map snd (fetched st t) = consumed (rx st t) @ items (message_queue (mb (rx st t))) @ in_hand (pc (rx st t))"
proof -
  have inv: "net_inv C P Z flight st" by (rule nets.reach_inv [OF assms(1)])
  have "map snd (posted st (pub_sock p)) = sent st n"
    using net_invD(8) [OF inv, of "pub_sock p" n] assms(2,3) by (simp add: unposted_def)
  moreover have "map (\<lambda>raw. fst (loads C P raw (nstore st))) (flight (nzmq st) (pub_sock p, t)) =
      map Inr (waiting st (pub_sock p, t))"
    using arg_cong [OF net_abs_waiting [OF inv], of "\<lambda>s. chan s (pub_sock p, t)"]
    by (simp add: net_abs_def)
  moreover have "map snd (fetched st t) =
      consumed (rx st t) @ items (message_queue (mb (rx st t))) @ in_hand (pc (rx st t))"
    using mb_inv_lossless [OF net_invD(5) [OF inv] assms(4,5)] net_invD(6) [OF inv] by simp
  ultimately show ?thesis
    using waiting_split [OF inv, of t "pub_sock p"] by simp
qed

theorem sent_is_received_witness:
  "map snd (posted demo_sent 1) = [demo_msg 1] \<and>
   map (\<lambda>raw. fst (loads demo_env demo_pickler raw (nstore demo_sent))) (nzmq demo_sent (1, 1)) = [Inr (demo_msg 1)]"
  using sent_is_received [OF demo_net_reach, of "demo_pub 1" 0 1]
  by (simp add: pubs_def dvalues_def demo_sent_def demo_net_def demo_node_def demo_mailbox_def
      del: One_nat_def stored.simps)

text \<open>C8: Shared memory in the running pipeline: at any moment the store holds exactly the segments
  named by the frames that have not been read, each segment is named by one frame in one place, and
  no read of a socket ever raises, so no frame can kill a receiver thread and none is left without
  its segments. When nothing is in flight nothing is left in the store.\<close>

theorem segments_are_in_flight:
  assumes "reach (net_init C P Z flight) (net_step C P shm Z flight) st"
  shows "(segs (nstore st) k \<noteq> None \<longleftrightarrow> (\<exists>p. k \<in> set (owned P (places flight st p)))) \<and>
    (k \<in> set (owned P (places flight st p)) \<and> k \<in> set (owned P (places flight st q)) \<longrightarrow> p = q) \<and>
    distinct (owned P (places flight st p)) \<and>
    (\<exists>x. fst (zq_get C P Z (sub_queue (mb (rx st t))) tm (nstore st, nzmq st)) = Inr x)"
proof -
  have inv: "net_inv C P Z flight st" by (rule nets.reach_inv [OF assms])
  obtain W where L: "ledger C P (nstore st) (places flight st) (contents st W)"
    using net_invD(9) [OF inv] by blast
  obtain r sh z where g: "zq_get C P Z (sub_queue (mb (rx st t))) tm (nstore st, nzmq st) = (r, (sh, z))"
    by (metis surj_pair)
  have "\<exists>x. r = Inr x" by (rule net_fetch [OF inv g]) simp_all
  then show ?thesis
    using ledgerD(3,5) [OF L] ledger_once [OF L] g by auto
qed

theorem segments_are_in_flight_witness:
  "segs (nstore demo_sent) 0 \<noteq> None \<and> (\<exists>p. 0 \<in> set (owned demo_pickler (places (\<lambda>w. w) demo_sent p)))"
  using segments_are_in_flight [OF demo_net_reach, of 0]
  by (simp add: demo_sent_def demo_shm_def)



end
