(* ===== verification/Batch_Inference.thy ===== *)
theory Batch_Inference
  imports Inference_Nodes
begin

text \<open>
  \<^verbatim>\<open>neudc/core/node/model/base_batch_process_inference.py\<close>: an inference node whose collector
  thread gathers messages into batches. The thread is started in the child process before the
  mailbox has been rebuilt, so it reads the attribute on every turn; the calls it makes of the
  clock, the events, the mailbox and the batch queue are arguments, because another thread works on
  the same objects between any two of them.
\<close>

section \<open>The node\<close>

record ('c, 'm, 'x) batch_node =
  bn_model_config :: 'c
  bn_batch_size :: nat
  bn_queue_size :: int
  bn_collect_timeout :: real
  bn_initialized :: bool
  bn_model :: "'m option"
  bn_queue :: "'x list pyqueue option"
  bn_collecting :: bool

definition new_batch_node :: "nat \<Rightarrow> 'c \<Rightarrow> int \<Rightarrow> real \<Rightarrow> ('c, 'm, 'x) batch_node" where
  "new_batch_node bsize cfg qcap t = \<lparr>bn_model_config = cfg, bn_batch_size = bsize, bn_queue_size = qcap,
     bn_collect_timeout = t, bn_initialized = False, bn_model = None, bn_queue = None, bn_collecting = False\<rparr>"

text \<open>\<^verbatim>\<open>init_process_runtime\<close>: the flag is set first, the queue before the thread is started.\<close>

definition init_batch_runtime :: "('c \<Rightarrow> ('w, 'm) io) \<Rightarrow> (('c, 'm, 'x) batch_node \<times> 'w, unit) io" where
  "init_batch_runtime create =
     bnd self (\<lambda>n. if bn_initialized n then ret ()
       else seq (on_self (\<lambda>n. n\<lparr>bn_initialized := True\<rparr>)) (
         bnd (lift_w (create (bn_model_config n))) (\<lambda>m.
         seq (on_self (\<lambda>n. n\<lparr>bn_model := Some m\<rparr>)) (
         seq (on_self (\<lambda>n. n\<lparr>bn_queue := Some (new_queue (bn_queue_size n))\<rparr>))
           (on_self (\<lambda>n. n\<lparr>bn_collecting := True\<rparr>))))))"

text \<open>\<^verbatim>\<open>_collect_data\<close> at the end of its wait; a node without the attribute raises.\<close>

definition batch_collect_data :: "(('c, 'm, 'x) batch_node \<times> 'w, 'x list option) io" where
  "batch_collect_data = bnd self (\<lambda>n. case bn_queue n of
      None \<Rightarrow> raise (AttributeError ''batch_queue'')
    | Some q \<Rightarrow> (case Py_Queue.get_nowait q of
        Inl _ \<Rightarrow> ret None
      | Inr (b, q') \<Rightarrow> seq (on_self (\<lambda>n. n\<lparr>bn_queue := Some q'\<rparr>)) (ret (Some b))))"

text \<open>\<^verbatim>\<open>process\<close>: the images of the frames of the batch.\<close>

definition batch_process :: "('w, 'm option) io \<Rightarrow> ('w, unit) io \<Rightarrow> ('m \<Rightarrow> ndarray list \<Rightarrow> ('w, 'r) io) \<Rightarrow>
    ('r \<Rightarrow> fmsg list \<Rightarrow> ('w, 'o) io) \<Rightarrow> fmsg list \<Rightarrow> 'w \<Rightarrow> ((exn + 'o) \<times> 'w) option" where
  "batch_process model nap call post item w =
     (case wait_model model nap w of
        None \<Rightarrow> None
      | Some (Inl e, w1) \<Rightarrow> Some (Inl e, w1)
      | Some (Inr m, w1) \<Rightarrow>
          Some (bnd (call m (map (\<lambda>f. image (snd f)) item)) (\<lambda>r. post r item) w1))"

text \<open>The post-processing a node class has to override.\<close>

definition batch_postprocess :: "'r \<Rightarrow> fmsg list \<Rightarrow> ('w, 'o) io" where
  "batch_postprocess result item = raise (NotImplementedError ''postprocess_result not implemented'')"

section \<open>The collector thread\<close>

record ('w, 'm) collect_env =
  ce_stopping :: "('w, bool) io"                                   \<comment> \<open>\<^verbatim>\<open>stop_event.is_set()\<close>\<close>
  ce_clock :: "('w, real) io"
  ce_mailbox :: "('w, (real option \<Rightarrow> ('w, 'm option) io) option) io" \<comment> \<open>the attribute, and its \<^verbatim>\<open>receive(timeout)\<close>\<close>
  ce_put :: "'m list \<Rightarrow> ('w, unit) io"                             \<comment> \<open>\<^verbatim>\<open>put(.., timeout=0.1)\<close>\<close>
  ce_full :: "('w, bool) io"
  ce_nap :: "('w, unit) io"

fun is_QueueFull :: "exn \<Rightarrow> bool" where
  "is_QueueFull QueueFull = True"
| "is_QueueFull _ = False"

text \<open>A \<^verbatim>\<open>while\<close> loop: a turn goes on with a state (\<open>Inl\<close>) or leaves the loop (\<open>Inr\<close>); a turn that does
  not come to an end is None.\<close>

partial_function (option) loop :: "('s \<Rightarrow> ('s + 'r) option) \<Rightarrow> 's \<Rightarrow> 'r option" where
  "loop turn s = (case turn s of None \<Rightarrow> None | Some (Inr r) \<Rightarrow> Some r | Some (Inl s') \<Rightarrow> loop turn s')"

text \<open>A turn of the inner loop: while there is no mailbox it only watches the clock.\<close>

definition fill_turn :: "('w, 'm) collect_env \<Rightarrow> nat \<Rightarrow> real \<Rightarrow> real \<Rightarrow> 'm list \<times> 'w \<Rightarrow>
    ('m list \<times> 'w + (exn + 'm list) \<times> 'w) option" where
  "fill_turn E n timeout start = (\<lambda>(fs, w). Some
     (if length fs < n then
        (case ce_clock E w of
           (Inl e, w1) \<Rightarrow> Inr (Inl e, w1)
         | (Inr now, w1) \<Rightarrow>
             if timeout - (now - start) \<le> 0 then Inr (Inr fs, w1)
             else (case ce_mailbox E w1 of
                 (Inl e, w2) \<Rightarrow> Inr (Inl e, w2)
               | (Inr None, w2) \<Rightarrow> Inl (fs, w2)
               | (Inr (Some receive), w2) \<Rightarrow> (case receive (Some (timeout - (now - start))) w2 of
                     (Inl e, w3) \<Rightarrow> Inr (Inl e, w3)
                   | (Inr None, w3) \<Rightarrow> Inr (Inr fs, w3)
                   | (Inr (Some m), w3) \<Rightarrow> Inl (fs @ [m], w3))))
      else Inr (Inr fs, w)))"

definition batch_fill :: "('w, 'm) collect_env \<Rightarrow> nat \<Rightarrow> real \<Rightarrow> real \<Rightarrow> 'w \<Rightarrow> ((exn + 'm list) \<times> 'w) option" where
  "batch_fill E n timeout start w = loop (fill_turn E n timeout start) ([], w)"

text \<open>\<^verbatim>\<open>while self.batch_queue.full()\<close>: True when there is room, False when the node stops.\<close>

definition room_turn :: "('w, 'm) collect_env \<Rightarrow> 'w \<Rightarrow> ('w + (exn + bool) \<times> 'w) option" where
  "room_turn E w = Some (case ce_full E w of
      (Inl e, w1) \<Rightarrow> Inr (Inl e, w1)
    | (Inr is_full, w1) \<Rightarrow>
        if \<not> is_full then Inr (Inr True, w1)
        else (case ce_nap E w1 of
            (Inl e, w2) \<Rightarrow> Inr (Inl e, w2)
          | (Inr _, w2) \<Rightarrow> (case ce_stopping E w2 of
              (Inl e, w3) \<Rightarrow> Inr (Inl e, w3)
            | (Inr stop, w3) \<Rightarrow> if stop then Inr (Inr False, w3) else Inl w3)))"

text \<open>The \<^verbatim>\<open>try\<close> block of a batch: True to go on, False to leave the thread.\<close>

definition hand_over :: "('w, 'm) collect_env \<Rightarrow> 'm list \<Rightarrow> 'w \<Rightarrow> ((exn + bool) \<times> 'w) option" where
  "hand_over E fs w = (case ce_put E fs w of
      (Inr _, w1) \<Rightarrow> Some (Inr True, w1)
    | (Inl e, w1) \<Rightarrow>
        if is_QueueFull e then
          (case loop (room_turn E) w1 of
             None \<Rightarrow> None
           | Some (Inl e', w2) \<Rightarrow> Some (Inl e', w2)
           | Some (Inr room, w2) \<Rightarrow>
               if room then Some (case ce_put E fs w2 of (Inl e', w3) \<Rightarrow> (Inl e', w3) | (Inr _, w3) \<Rightarrow> (Inr True, w3))
               else Some (Inr False, w2))
        else Some (Inl e, w1))"

definition collect_turn :: "('w, 'm) collect_env \<Rightarrow> nat \<Rightarrow> real \<Rightarrow> 'w \<Rightarrow> ('w + (exn + unit) \<times> 'w) option" where
  "collect_turn E n timeout w = (case ce_stopping E w of
      (Inl e, w1) \<Rightarrow> Some (Inr (Inl e, w1))
    | (Inr stop, w1) \<Rightarrow>
        if stop then Some (Inr (Inr (), w1))
        else (case ce_clock E w1 of
            (Inl e, w2) \<Rightarrow> Some (Inr (Inl e, w2))
          | (Inr start, w2) \<Rightarrow> (case batch_fill E n timeout start w2 of
              None \<Rightarrow> None
            | Some (Inl e, w3) \<Rightarrow> Some (Inr (Inl e, w3))
            | Some (Inr fs, w3) \<Rightarrow>
                if fs = [] then Some (Inl w3)
                else (case hand_over E fs w3 of
                    None \<Rightarrow> None
                  | Some (Inl e, w4) \<Rightarrow> Some (Inr (Inl e, w4))
                  | Some (Inr go_on, w4) \<Rightarrow> Some (if go_on then Inl w4 else Inr (Inr (), w4))))))"

definition collect_batches :: "('w, 'm) collect_env \<Rightarrow> nat \<Rightarrow> real \<Rightarrow> 'w \<Rightarrow> ((exn + unit) \<times> 'w) option" where
  "collect_batches E n timeout = loop (collect_turn E n timeout)"

section \<open>What the thread does with the messages\<close>

text \<open>What holds at the start and is kept by a turn holds when the loop is left.\<close>

lemma loop_rule:
  assumes "loop turn s = Some r" and "I s"
    and "\<And>s s'. I s \<Longrightarrow> turn s = Some (Inl s') \<Longrightarrow> I s'"
    and "\<And>s r. I s \<Longrightarrow> turn s = Some (Inr r) \<Longrightarrow> Q r"
  shows "Q r"
proof -
  have "turn = turn \<longrightarrow> I s \<longrightarrow> Q r"
  proof (rule loop.raw_induct [where P = "\<lambda>t s r. t = turn \<longrightarrow> I s \<longrightarrow> Q r", OF _ assms(1)])
    fix lp t s r
    assume IH: "\<And>t s r. lp t s = Some r \<Longrightarrow> t = turn \<longrightarrow> I s \<longrightarrow> Q r"
      and body: "(case t s of None \<Rightarrow> None | Some (Inl s') \<Rightarrow> lp t s' | Some (Inr r) \<Rightarrow> Some r) = Some r"
    show "t = turn \<longrightarrow> I s \<longrightarrow> Q r"
      using IH body assms(3,4) by (auto split: option.splits sum.splits)
  qed
  then show ?thesis using assms(2) by blast
qed

text \<open>A loop with a measure that every turn decreases is left.\<close>

lemma loop_ends:
  assumes "\<And>s. I s \<Longrightarrow> \<exists>x. turn s = Some x"
    and "\<And>s s'. I s \<Longrightarrow> turn s = Some (Inl s') \<Longrightarrow> I s' \<and> (m s' :: nat) < m s" and "I s"
  shows "\<exists>r. loop turn s = Some r"
  using assms(3)
proof (induction "m s" arbitrary: s rule: less_induct)
  case less
  obtain x where x: "turn s = Some x" using assms(1) [OF less.prems] by blast
  show ?case
  proof (cases x)
    case (Inl s')
    then have "I s'" "m s' < m s" using assms(2) [OF less.prems] x by auto
    then show ?thesis using less.hyps Inl x by (subst loop.simps) auto
  next
    case (Inr r)
    then show ?thesis using x by (subst loop.simps) simp
  qed
qed

text \<open>\<open>R\<close> reads off the world the messages the thread has received, \<open>B\<close> the batches it has put:
  only a receive that returns a message and a put that succeeds change them.\<close>

definition quiet_call :: "('w \<Rightarrow> 'm list) \<Rightarrow> ('w \<Rightarrow> 'm list list) \<Rightarrow> ('w, 'a) io \<Rightarrow> bool" where
  "quiet_call R B c \<longleftrightarrow> (\<forall>w. R (snd (c w)) = R w \<and> B (snd (c w)) = B w)"

definition collect_ok :: "('w, 'm) collect_env \<Rightarrow> ('w \<Rightarrow> 'm list) \<Rightarrow> ('w \<Rightarrow> 'm list list) \<Rightarrow> bool" where
  "collect_ok E R B \<longleftrightarrow> quiet_call R B (ce_stopping E) \<and> quiet_call R B (ce_clock E) \<and>
     quiet_call R B (ce_mailbox E) \<and> quiet_call R B (ce_full E) \<and> quiet_call R B (ce_nap E) \<and>
     (\<forall>w rd t v. fst (ce_mailbox E w) = Inr (Some rd) \<longrightarrow> B (snd (rd t v)) = B v \<and>
        R (snd (rd t v)) = R v @ (case fst (rd t v) of Inr (Some m) \<Rightarrow> [m] | _ \<Rightarrow> [])) \<and>
     (\<forall>b w. R (snd (ce_put E b w)) = R w \<and>
        B (snd (ce_put E b w)) = B w @ (case fst (ce_put E b w) of Inr _ \<Rightarrow> [b] | Inl _ \<Rightarrow> []))"

lemma quiet_callD: "quiet_call R B c \<Longrightarrow> c w = (x, w') \<Longrightarrow> R w' = R w \<and> B w' = B w"
  unfolding quiet_call_def by (metis snd_conv)

lemma collect_okD:
  assumes "collect_ok E R B"
  shows "quiet_call R B (ce_stopping E)" "quiet_call R B (ce_clock E)" "quiet_call R B (ce_mailbox E)"
    "quiet_call R B (ce_full E)" "quiet_call R B (ce_nap E)"
    and "ce_mailbox E v0 = (Inr (Some rd), v1) \<Longrightarrow> rd t v = (r, v') \<Longrightarrow>
      B v' = B v \<and> R v' = R v @ (case r of Inr (Some m) \<Rightarrow> [m] | _ \<Rightarrow> [])"
    and "ce_put E b w = (u, w') \<Longrightarrow> R w' = R w \<and> B w' = B w @ (case u of Inr _ \<Rightarrow> [b] | Inl _ \<Rightarrow> [])"
proof -
  note ok = assms [unfolded collect_ok_def]
  show "quiet_call R B (ce_stopping E)" "quiet_call R B (ce_clock E)" "quiet_call R B (ce_mailbox E)"
    "quiet_call R B (ce_full E)" "quiet_call R B (ce_nap E)" using ok by blast+
  show "ce_mailbox E v0 = (Inr (Some rd), v1) \<Longrightarrow> rd t v = (r, v') \<Longrightarrow>
      B v' = B v \<and> R v' = R v @ (case r of Inr (Some m) \<Rightarrow> [m] | _ \<Rightarrow> [])"
    using ok [THEN conjunct2, THEN conjunct2, THEN conjunct2, THEN conjunct2, THEN conjunct2, THEN conjunct1,
      rule_format, of v0 rd t v] by simp
  show "ce_put E b w = (u, w') \<Longrightarrow> R w' = R w \<and> B w' = B w @ (case u of Inr _ \<Rightarrow> [b] | Inl _ \<Rightarrow> [])"
    using ok [THEN conjunct2, THEN conjunct2, THEN conjunct2, THEN conjunct2, THEN conjunct2, THEN conjunct2,
      rule_format, of b w] by simp
qed

lemma fill_turn_logs:
  assumes "collect_ok E R B" and "fill_turn E n timeout start (fs, w) = Some x"
  shows "\<exists>more. R (snd (case x of Inl (fs', v) \<Rightarrow> (fs', v) | Inr (r, v) \<Rightarrow> (fs, v))) = R w @ more \<and>
    B (snd (case x of Inl (fs', v) \<Rightarrow> (fs', v) | Inr (r, v) \<Rightarrow> (fs, v))) = B w \<and>
    (case x of Inl (fs', v) \<Rightarrow> fs' = fs @ more \<and> length fs' \<le> n
     | Inr (r, v) \<Rightarrow> more = [] \<and> (\<forall>fs'. r = Inr fs' \<longrightarrow> fs' = fs))"
proof (cases "length fs < n")
  case False
  then show ?thesis using assms(2) by (auto simp: fill_turn_def)
next
  case True
  note D = collect_okD [OF assms(1)]
  obtain c w1 where c: "ce_clock E w = (c, w1)" by fastforce
  obtain b w2 where b: "ce_mailbox E w1 = (b, w2)" by fastforce
  note q = quiet_callD [OF D(2) c] quiet_callD [OF D(3) b]
  show ?thesis
  proof (cases "\<exists>rd. b = Inr (Some rd)")
    case False
    then show ?thesis
      using assms(2) True q by (auto simp: fill_turn_def c b split: sum.splits option.splits if_splits)
  next
    case rd: True
    then obtain rd where rd: "b = Inr (Some rd)" by blast
    show ?thesis
    proof (cases c)
      case (Inl e)
      then show ?thesis using assms(2) True q by (auto simp: fill_turn_def c)
    next
      case (Inr now)
      obtain r w3 where r: "rd (Some (timeout - (now - start))) w2 = (r, w3)" by fastforce
      have "B w3 = B w2 \<and> R w3 = R w2 @ (case r of Inr (Some m) \<Rightarrow> [m] | _ \<Rightarrow> [])"
        by (rule D(6) [OF b [unfolded rd] r])
      then show ?thesis
        using assms(2) True q Inr
        by (auto simp: fill_turn_def c b rd r split: sum.splits option.splits if_splits)
    qed
  qed
qed

lemma batch_fill_logs:
  assumes "collect_ok E R B" and "batch_fill E n timeout start w = Some (r, w')"
  shows "\<exists>more. R w' = R w @ more \<and> B w' = B w \<and> length more \<le> n \<and> (\<forall>fs. r = Inr fs \<longrightarrow> fs = more)"
proof -
  define I where "I = (\<lambda>(fs, v). R v = R w @ fs \<and> B v = B w \<and> length fs \<le> n)"
  define Q where "Q = (\<lambda>(r :: exn + 'b list, v). \<exists>more. R v = R w @ more \<and> B v = B w \<and> length more \<le> n \<and>
    (\<forall>fs. r = Inr fs \<longrightarrow> fs = more))"
  have "Q (r, w')"
  proof (rule loop_rule [OF assms(2) [unfolded batch_fill_def], where I = I])
    show "I ([], w)" by (simp add: I_def)
    show "I s'" if "I s" "fill_turn E n timeout start s = Some (Inl s')" for s s'
      using that fill_turn_logs [OF assms(1), of n timeout start "fst s" "snd s"]
      by (auto simp: I_def split: prod.splits)
    show "Q x" if "I s" "fill_turn E n timeout start s = Some (Inr x)" for s x
      using that fill_turn_logs [OF assms(1), of n timeout start "fst s" "snd s"]
      by (auto simp: I_def Q_def split: prod.splits)
  qed
  then show ?thesis by (simp add: Q_def)
qed

lemma room_logs:
  assumes "collect_ok E R B" and "loop (room_turn E) w = Some (r, w')"
  shows "R w' = R w \<and> B w' = B w"
proof -
  note D = collect_okD [OF assms(1)]
  have turn: "R v' = R v \<and> B v' = B v"
    if t: "room_turn E v = Some x" "x = Inl v' \<or> x = Inr (y, v')" for v x v' y
  proof -
    obtain f v1 where f: "ce_full E v = (f, v1)" by fastforce
    obtain u v2 where u: "ce_nap E v1 = (u, v2)" by fastforce
    obtain b v3 where b: "ce_stopping E v2 = (b, v3)" by fastforce
    show ?thesis
      using t quiet_callD [OF D(4) f] quiet_callD [OF D(5) u] quiet_callD [OF D(1) b]
      by (auto simp: room_turn_def f u b split: sum.splits if_splits)
  qed
  have "(\<lambda>(r, v). R v = R w \<and> B v = B w) (r, w')"
    by (rule loop_rule [OF assms(2), where I = "\<lambda>v. R v = R w \<and> B v = B w"]) (use turn in auto)
  then show ?thesis by simp
qed

lemma hand_over_logs:
  assumes "collect_ok E R B" and "hand_over E fs w = Some (r, w')"
  shows "R w' = R w \<and> B w' = B w @ (if r = Inr True then [fs] else [])"
proof -
  note D = collect_okD [OF assms(1)]
  obtain p w1 where p: "ce_put E fs w = (p, w1)" by fastforce
  note q = D(7) [OF p]
  show ?thesis
  proof (cases "\<exists>e. p = Inl e \<and> is_QueueFull e")
    case False
    then show ?thesis using assms(2) q by (auto simp: hand_over_def p split: sum.splits)
  next
    case True
    then obtain rr w2 where l: "loop (room_turn E) w1 = Some (rr, w2)"
      using assms(2) by (auto simp: hand_over_def p split: option.splits)
    obtain p2 w3 where p2: "ce_put E fs w2 = (p2, w3)" by fastforce
    show ?thesis
      using True assms(2) q room_logs [OF assms(1) l] D(7) [OF p2]
      by (auto simp: hand_over_def p l p2 split: sum.splits if_splits)
  qed
qed

definition sized :: "nat \<Rightarrow> 'm list \<Rightarrow> bool" where
  "sized n b \<longleftrightarrow> b \<noteq> [] \<and> length b \<le> n"

lemma collect_turn_logs:
  assumes "collect_ok E R B" and "collect_turn E n timeout w = Some x"
    and "R w = concat (B w)" and "list_all (sized n) (B w)"
  shows "case x of Inl v \<Rightarrow> R v = concat (B v) \<and> list_all (sized n) (B v)
    | Inr (r, v) \<Rightarrow> (\<exists>rest. R v = concat (B v) @ rest \<and> length rest \<le> n) \<and> list_all (sized n) (B v)"
proof -
  note D = collect_okD [OF assms(1)]
  obtain b w1 where b: "ce_stopping E w = (b, w1)" by fastforce
  obtain c w2 where c: "ce_clock E w1 = (c, w2)" by fastforce
  note q = quiet_callD [OF D(1) b] quiet_callD [OF D(2) c]
  show ?thesis
  proof (cases "b = Inr False \<and> (\<exists>t. c = Inr t)")
    case False
    then show ?thesis using assms(2-4) q
      by (auto simp: collect_turn_def b c split: sum.splits if_splits)
  next
    case True
    then obtain start where bc: "b = Inr False" "c = Inr start" by blast
    obtain r w3 where f: "batch_fill E n timeout start w2 = Some (r, w3)"
      using assms(2) by (auto simp: collect_turn_def b c bc split: option.splits)
    obtain more where more: "R w3 = R w2 @ more" "B w3 = B w2" "length more \<le> n" "\<forall>fs. r = Inr fs \<longrightarrow> fs = more"
      using batch_fill_logs [OF assms(1) f] by blast
    show ?thesis
    proof (cases "r = Inr more \<and> more \<noteq> []")
      case False
      then have x: "x = (case r of Inl e \<Rightarrow> Inr (Inl e, w3) | Inr fs \<Rightarrow> Inl w3)" "\<forall>fs. r = Inr fs \<longrightarrow> more = []"
        using assms(2) more(4) by (cases r; simp add: collect_turn_def b c bc f)+
      have "R w3 = concat (B w) @ more" "B w3 = B w" using more q assms(3) by simp_all
      then show ?thesis using x assms(4) more(3) by (cases r) simp_all
    next
      case True
      obtain h w4 where h: "hand_over E more w3 = Some (h, w4)"
        using assms(2) True by (auto simp: collect_turn_def b c bc f split: option.splits)
      have logs: "R w4 = concat (B w) @ more" "B w4 = B w @ (if h = Inr True then [more] else [])"
        using hand_over_logs [OF assms(1) h] more q assms(3) by simp_all
      have fit: "sized n more" using more(3) True by (simp add: sized_def)
      have x: "x = (case h of Inl e \<Rightarrow> Inr (Inl e, w4) | Inr go_on \<Rightarrow> if go_on then Inl w4 else Inr (Inr (), w4))"
        using assms(2) True by (cases h) (auto simp: collect_turn_def b c bc f h)
      show ?thesis
      proof (cases "h = Inr True")
        case True
        then show ?thesis using logs assms(4) fit by (simp add: x)
      next
        case False
        then show ?thesis using logs assms(4) more(3) by (cases h) (simp_all add: x)
      qed
    qed
  qed
qed

section \<open>A collection ends\<close>

text \<open>How long \<^verbatim>\<open>receive\<close> of the mailbox waits: \<^verbatim>\<open>get(timeout=timeout or 0.1)\<close>.\<close>

definition receive_wait :: "real option \<Rightarrow> real" where
  "receive_wait t = (case t of None \<Rightarrow> 1/10 | Some x \<Rightarrow> if x = 0 then 1/10 else x)"

text \<open>\<open>T\<close> is the time in the world. Every reading of the clock shows it and takes at least \<open>d\<close>; no call
  turns it back; \<open>g\<close> is the most a reading of the clock or of the attribute takes, and a \<^verbatim>\<open>receive\<close>
  beyond the wait it was asked for.\<close>

definition timely_calls :: "('w, 'm) collect_env \<Rightarrow> ('w \<Rightarrow> real) \<Rightarrow> real \<Rightarrow> real \<Rightarrow> bool" where
  "timely_calls E T d g \<longleftrightarrow>
     (\<forall>w. \<exists>w1. ce_clock E w = (Inr (T w1), w1) \<and> T w + d \<le> T w1 \<and> T w1 \<le> T w + g) \<and>
     (\<forall>w. T w \<le> T (snd (ce_mailbox E w)) \<and> T (snd (ce_mailbox E w)) \<le> T w + g) \<and>
     (\<forall>w rd t v. fst (ce_mailbox E w) = Inr (Some rd) \<longrightarrow> 0 < receive_wait t \<longrightarrow>
        T v \<le> T (snd (rd t v)) \<and> T (snd (rd t v)) \<le> T v + receive_wait t + g)"

lemma timely_receive:
  assumes "timely_calls E T d g" and "ce_mailbox E w = (Inr (Some rd), w2)" and "0 < x"
    and "rd (Some x) v = (r, v')"
  shows "T v \<le> T v' \<and> T v' \<le> T v + x + g"
proof -
  have "receive_wait (Some x) = x" using assms(3) by (simp add: receive_wait_def)
  then show ?thesis
    using assms(1) [unfolded timely_calls_def, THEN conjunct2, THEN conjunct2, rule_format, of w rd "Some x" v] assms(2-4)
    by simp
qed

text \<open>Why the loop is left: an exception of the attribute or of \<^verbatim>\<open>receive\<close>, a full batch, the time,
  or a \<^verbatim>\<open>receive\<close> that was given the time that remained and returned nothing.\<close>

definition left_for :: "('w, 'm) collect_env \<Rightarrow> ('w \<Rightarrow> real) \<Rightarrow> nat \<Rightarrow> real \<Rightarrow> exn + 'm list \<Rightarrow> 'w \<Rightarrow> bool" where
  "left_for E T n deadline r w' \<longleftrightarrow> (case r of
      Inl e \<Rightarrow> (\<exists>v. ce_mailbox E v = (Inl e, w')) \<or>
        (\<exists>v v1 rd. ce_mailbox E v = (Inr (Some rd), v1) \<and> rd (Some (deadline - T v)) v1 = (Inl e, w'))
    | Inr fs \<Rightarrow> length fs = n \<or> (length fs < n \<and> deadline \<le> T w') \<or>
        (length fs < n \<and> (\<exists>v v1 rd. ce_mailbox E v = (Inr (Some rd), v1) \<and> T v < deadline \<and>
           rd (Some (deadline - T v)) v1 = (Inr None, w'))))"

lemma timely_turn:
  assumes "timely_calls E T d g" and "0 < d" and "length fs \<le> n" and "fill_turn E n timeout start (fs, w) = Some x"
  shows "case x of
      Inl (fs', w') \<Rightarrow> length fs' \<le> n \<and> T w + d \<le> T w' \<and> T w + d < start + timeout \<and> T w' \<le> start + timeout + 2 * g \<and>
        (fst (ce_mailbox E (snd (ce_clock E w))) = Inr None \<longrightarrow> fs' = fs)
    | Inr (r, w') \<Rightarrow> T w' \<le> max (T w) (start + timeout + 2 * g) + g \<and> left_for E T n (start + timeout) r w'"
proof (cases "length fs < n")
  case False
  obtain w1 where "T w + d \<le> T w1" "T w1 \<le> T w + g" using assms(1) unfolding timely_calls_def by blast
  then have "0 < g" using assms(2) by linarith
  then show ?thesis using False assms(3,4) by (auto simp: fill_turn_def left_for_def)
next
  case True
  obtain w1 where c: "ce_clock E w = (Inr (T w1), w1)" "T w + d \<le> T w1" "T w1 \<le> T w + g"
    using assms(1) unfolding timely_calls_def by blast
  have g: "0 < g" using c(2,3) assms(2) by linarith
  obtain b w2 where b: "ce_mailbox E w1 = (b, w2)" by fastforce
  have t2: "T w1 \<le> T w2" "T w2 \<le> T w1 + g"
    using assms(1) [unfolded timely_calls_def, THEN conjunct2, THEN conjunct1, rule_format, of w1] b by simp_all
  define left where "left = start + timeout - T w1"
  have left: "timeout - (T w1 - start) = left" by (simp add: left_def)
  note turn = assms(4) [unfolded fill_turn_def prod.case c(1) sum.case left option.inject]
  show ?thesis
  proof (cases "left \<le> 0")
    case over: True
    then have "x = Inr (Inr fs, w1)" using turn True by simp
    then show ?thesis using over True c(3) by (simp add: left_for_def left_def)
  next
    case time: False
    note late = time [unfolded left_def]
    show ?thesis
    proof (cases "\<exists>rd. b = Inr (Some rd)")
      case False
      then have "(\<exists>e. b = Inl e \<and> x = Inr (Inl e, w2)) \<or> (b = Inr None \<and> x = Inl (fs, w2))"
        using turn True time b by (cases b) auto
      then show ?thesis using b c t2 late g assms(3) by (auto simp: left_for_def)
    next
      case rd: True
      then obtain rd where rd: "b = Inr (Some rd)" by blast
      obtain r w3 where r: "rd (Some left) w2 = (r, w3)" by fastforce
      have t3: "T w2 \<le> T w3" "T w3 \<le> T w2 + left + g"
        using timely_receive [OF assms(1) b [unfolded rd] _ r] time by simp_all
      then have bound: "T w3 \<le> start + timeout + 2 * g" using t2 by (simp add: left_def)
      have x: "x = (case r of Inl e \<Rightarrow> Inr (Inl e, w3) | Inr None \<Rightarrow> Inr (Inr fs, w3) | Inr (Some m) \<Rightarrow> Inl (fs @ [m], w3))"
        using turn True time by (auto simp: b rd r split: sum.splits option.splits)
      have why: "left_for E T n (start + timeout) r' w3" if "r = Inl e \<and> r' = Inl e \<or> r = Inr None \<and> r' = Inr fs" for e r'
        using that b rd r True late unfolding left_for_def left_def by auto
      show ?thesis
      proof (cases r)
        case (Inl e)
        then show ?thesis using bound g why by (auto simp: x)
      next
        case (Inr o1)
        then show ?thesis using bound g why c t2(1) t3(1) late True b rd by (cases o1) (auto simp: x)
      qed
    qed
  qed
qed

lemma ceiling_less:
  fixes x y :: real
  assumes "0 < x" and "y \<le> x - 1"
  shows "nat \<lceil>y\<rceil> < nat \<lceil>x\<rceil>"
proof -
  have "\<lceil>y\<rceil> \<le> \<lceil>x\<rceil> - 1" using ceiling_mono [OF assms(2)] by simp
  moreover have "0 < \<lceil>x\<rceil>" using assms(1) by simp
  ultimately show ?thesis by linarith
qed

lemma batch_fill_returns:
  assumes "timely_calls E T d g" and "0 < d"
  shows "\<exists>r. batch_fill E n timeout start w = Some r"
  unfolding batch_fill_def
proof (rule loop_ends [where I = "\<lambda>(fs, v). length fs \<le> n" and m = "\<lambda>(fs, v). nat \<lceil>(start + timeout - T v) / d\<rceil>"])
  show "\<exists>x. fill_turn E n timeout start s = Some x" for s
    by (cases s) (simp add: fill_turn_def)
next
  fix s s' assume "case s of (fs, v) \<Rightarrow> length fs \<le> n" "fill_turn E n timeout start s = Some (Inl s')"
  then have t: "T (snd s) + d \<le> T (snd s')" "T (snd s) + d < start + timeout" "length (fst s') \<le> n"
    using timely_turn [OF assms, of "fst s" n timeout start "snd s" "Inl s'"] by (auto split: prod.splits)
  have "0 < (start + timeout - T (snd s)) / d" using t(2) assms(2) by simp
  moreover have "(start + timeout - T (snd s')) / d \<le> (start + timeout - T (snd s)) / d - 1"
    using t(1) assms(2) divide_right_mono [of "start + timeout - T (snd s')" "start + timeout - T (snd s) - d" d]
    by (simp add: diff_divide_distrib)
  ultimately show "(case s' of (fs, v) \<Rightarrow> length fs \<le> n) \<and> (case s' of (fs, v) \<Rightarrow> nat \<lceil>(start + timeout - T v) / d\<rceil>) <
      (case s of (fs, v) \<Rightarrow> nat \<lceil>(start + timeout - T v) / d\<rceil>)"
    using ceiling_less t(3) by (simp add: split_beta)
qed simp

lemma batch_fill_time:
  assumes "timely_calls E T d g" and "0 < d" and "batch_fill E n timeout start w = Some (r, w')"
  shows "T w' \<le> max (T w) (start + timeout + 2 * g) + g \<and> left_for E T n (start + timeout) r w'"
proof -
  define I where "I = (\<lambda>(fs :: 'b list, v). length fs \<le> n \<and> T v \<le> max (T w) (start + timeout + 2 * g))"
  have "(\<lambda>(r, v). T v \<le> max (T w) (start + timeout + 2 * g) + g \<and> left_for E T n (start + timeout) r v) (r, w')"
  proof (rule loop_rule [OF assms(3) [unfolded batch_fill_def], where I = I])
    show "I ([], w)" by (simp add: I_def)
    show "I s'" if "I s" "fill_turn E n timeout start s = Some (Inl s')" for s s'
      using that timely_turn [OF assms(1,2), of "fst s" n timeout start "snd s" "Inl s'"]
      by (auto simp: I_def split: prod.splits)
    show "(\<lambda>(r, v). T v \<le> max (T w) (start + timeout + 2 * g) + g \<and> left_for E T n (start + timeout) r v) x"
      if "I s" "fill_turn E n timeout start s = Some (Inr x)" for s x
      using that timely_turn [OF assms(1,2), of "fst s" n timeout start "snd s" "Inr x"]
      by (auto simp: I_def split: prod.splits)
  qed
  then show ?thesis by simp
qed

text \<open>Without a mailbox nothing is collected.\<close>

lemma batch_fill_no_mailbox:
  assumes "timely_calls E T d g" and "0 < d" and "batch_fill E n timeout start w = Some (r, w')"
    and "\<And>v. fst (ce_mailbox E v) = Inr None"
  shows "r = Inr []"
proof -
  have none: "\<exists>v1. ce_mailbox E v = (Inr None, v1)" for v
    using assms(4) [of v] by (cases "ce_mailbox E v") auto
  have clock: "\<exists>w1. ce_clock E v = (Inr (T w1), w1)" for v
    using assms(1) unfolding timely_calls_def by blast
  have turn: "x = Inl ([], snd (ce_mailbox E (snd (ce_clock E v)))) \<or> (\<exists>v'. x = Inr (Inr [], v'))"
    if "fill_turn E n timeout start ([], v) = Some x" for v x
  proof -
    obtain w1 where c: "ce_clock E v = (Inr (T w1), w1)" using clock by blast
    obtain v1 where m: "ce_mailbox E w1 = (Inr None, v1)" using none by blast
    show ?thesis using that by (auto simp: fill_turn_def c m split: if_splits)
  qed
  have "(\<lambda>(r, v). r = Inr []) (r, w')"
  proof (rule loop_rule [OF assms(3) [unfolded batch_fill_def], where I = "\<lambda>(fs, v). fs = []"])
    show "case s' of (fs, v) \<Rightarrow> fs = []"
      if "case s of (fs, v) \<Rightarrow> fs = []" "fill_turn E n timeout start s = Some (Inl s')" for s s'
      using that turn [of "snd s" "Inl s'"] by (auto split: prod.splits)
    show "(\<lambda>(r, v). r = Inr []) x"
      if "case s of (fs, v) \<Rightarrow> fs = []" "fill_turn E n timeout start s = Some (Inr x)" for s x
      using that turn [of "snd s" "Inr x"] by (auto split: prod.splits)
  qed simp
  then show ?thesis by simp
qed

text \<open>C23: A collection comes to an end, in bounded time and for a reason. Let every reading of the clock
  take at least some \<open>d > 0\<close> and at most \<open>g\<close>, a look at the mailbox attribute at most \<open>g\<close>, and let
  \<^verbatim>\<open>receive(timeout)\<close> return within the wait the mailbox makes of its argument (a tenth of a second
  without one) plus \<open>g\<close>. Then the filling of a batch returns, at the latest \<open>3 g\<close> after the deadline
  \<^verbatim>\<open>start_time + batch_collect_timeout\<close> (\<open>g\<close> after its start when the deadline had passed). It
  returns with the full batch, or when the deadline has been reached, or because a \<^verbatim>\<open>receive\<close> that
  was given exactly the remaining time returned nothing; or it raises what the mailbox raised. In a
  child process whose mailbox is never rebuilt, the thread spins on the attribute: it collects
  nothing, and leaves at the deadline and not before.\<close>

theorem collection_ends:
  assumes "timely_calls E T d g" and "0 < d"
  shows "\<exists>r w'. batch_fill E n timeout start w = Some (r, w') \<and>
    T w' \<le> max (T w) (start + timeout + 2 * g) + g \<and> left_for E T n (start + timeout) r w' \<and>
    (0 < n \<and> (\<forall>v. fst (ce_mailbox E v) = Inr None) \<longrightarrow> r = Inr [] \<and> start + timeout \<le> T w')"
proof -
  obtain r w' where f: "batch_fill E n timeout start w = Some (r, w')"
    using batch_fill_returns [OF assms] by (metis prod.exhaust)
  note time = batch_fill_time [OF assms f]
  have "r = Inr [] \<and> start + timeout \<le> T w'" if n: "0 < n" and none: "\<forall>v. fst (ce_mailbox E v) = Inr None"
  proof -
    have r: "r = Inr []" using none by (intro batch_fill_no_mailbox [OF assms f]) simp
    have "\<not> (\<exists>v v1 rd. ce_mailbox E v = (Inr (Some rd), v1))" using none by (metis fst_conv option.distinct(1) sum.inject(2))
    then show ?thesis using time r n by (auto simp: left_for_def)
  qed
  then show ?thesis using f time by blast
qed

section \<open>The collector loses nothing\<close>

text \<open>The collector thread loses no message: whenever it ends, whatever it waited for and whatever
  the other threads did in between, the messages it has received are exactly those of the batches it
  put, in order, followed by the at most one batch it was filling or waiting to put; and every batch
  it put has between one message and \<^verbatim>\<open>batch_size\<close>.\<close>

theorem collector_conserves:
  assumes "collect_ok E R B" and "R w = []" and "B w = []"
    and "collect_batches E n timeout w = Some (r, w')"
  shows "\<exists>rest. R w' = concat (B w') @ rest \<and> length rest \<le> n \<and> list_all (sized n) (B w')"
proof -
  have "(\<lambda>(r, v). (\<exists>rest. R v = concat (B v) @ rest \<and> length rest \<le> n) \<and> list_all (sized n) (B v)) (r, w')"
  proof (rule loop_rule [OF assms(4) [unfolded collect_batches_def],
      where I = "\<lambda>v. R v = concat (B v) \<and> list_all (sized n) (B v)"])
    show "R w = concat (B w) \<and> list_all (sized n) (B w)" using assms(2,3) by simp
  next
    fix s s' assume "R s = concat (B s) \<and> list_all (sized n) (B s)" "collect_turn E n timeout s = Some (Inl s')"
    then show "R s' = concat (B s') \<and> list_all (sized n) (B s')"
      using collect_turn_logs [OF assms(1), of n timeout s "Inl s'"] by simp
  next
    fix s x assume "R s = concat (B s) \<and> list_all (sized n) (B s)" "collect_turn E n timeout s = Some (Inr x)"
    then show "(\<lambda>(r, v). (\<exists>rest. R v = concat (B v) @ rest \<and> length rest \<le> n) \<and> list_all (sized n) (B v)) x"
      using collect_turn_logs [OF assms(1), of n timeout s "Inr x"] by (cases x) simp
  qed
  then show ?thesis by auto
qed

text \<open>A closed instance: the world is the messages to come, the time, the messages received and the
  batches put; the node stops when no message is to come.\<close>

type_synonym demo_world = "nat list \<times> real \<times> nat list \<times> nat list list"

definition demo_receive :: "real option \<Rightarrow> (demo_world, nat option) io" where
  "demo_receive t = (\<lambda>(ms, now, got, put). case ms of
      [] \<Rightarrow> (Inr None, ([], now + max 0 (receive_wait t), got, put))
    | m # rest \<Rightarrow> (Inr (Some m), (rest, now, got @ [m], put)))"

definition demo_collect :: "(demo_world, nat) collect_env" where
  "demo_collect = \<lparr>ce_stopping = (\<lambda>w. (Inr (fst w = []), w)),
     ce_clock = (\<lambda>(ms, now, r). (Inr (now + 1), (ms, now + 1, r))),
     ce_mailbox = (\<lambda>w. (Inr (Some demo_receive), w)),
     ce_put = (\<lambda>b (ms, now, got, put). (Inr (), (ms, now, got, put @ [b]))),
     ce_full = (\<lambda>w. (Inr False, w)), ce_nap = (\<lambda>w. (Inr (), w))\<rparr>"

definition demo_got :: "demo_world \<Rightarrow> nat list" where
  "demo_got = (\<lambda>(ms, now, got, put). got)"

definition demo_put_batches :: "demo_world \<Rightarrow> nat list list" where
  "demo_put_batches = (\<lambda>(ms, now, got, put). put)"

lemma demo_collect_ok: "collect_ok demo_collect demo_got demo_put_batches"
  by (auto simp: collect_ok_def quiet_call_def demo_collect_def demo_got_def demo_put_batches_def
      demo_receive_def split: list.splits)

lemma demo_timely: "timely_calls demo_collect (\<lambda>w. fst (snd w)) 1 1"
  by (auto simp: timely_calls_def demo_collect_def demo_receive_def split: list.splits)

lemma demo_collected:
  "collect_batches demo_collect 2 10 ([5, 6], 0, [], []) = Some (Inr (), ([], 3, [5, 6], [[5, 6]]))"
proof -
  have fill: "batch_fill demo_collect 2 10 1 ([5, 6], 1, [], []) = Some (Inr [5, 6], ([], 3, [5, 6], []))"
    unfolding batch_fill_def
    by (subst loop.simps, simp add: fill_turn_def demo_collect_def demo_receive_def,
        subst loop.simps, simp add: fill_turn_def demo_receive_def,
        subst loop.simps, simp add: fill_turn_def)
  show ?thesis
    unfolding collect_batches_def
    apply (subst loop.simps)
    apply (simp add: collect_turn_def hand_over_def fill [unfolded demo_collect_def] demo_collect_def)
    apply (subst loop.simps)
    apply (simp add: collect_turn_def)
    done
qed

theorem collector_conserves_witness:
  "\<exists>rest. [5, 6 :: nat] = concat [[5, 6]] @ rest \<and> length rest \<le> 2"
  using collector_conserves [OF demo_collect_ok _ _ demo_collected]
  by (auto simp: demo_got_def demo_put_batches_def)

text \<open>A child without a mailbox, and one with a single message: its second \<^verbatim>\<open>receive\<close> takes the rest of
  the time.\<close>

lemma demo_fill: "batch_fill demo_collect 2 10 0 ([5], 0, [], []) = Some (Inr [5], ([], 10, [5], []))"
  unfolding batch_fill_def
  by (subst loop.simps, simp add: fill_turn_def demo_collect_def demo_receive_def,
      subst loop.simps, simp add: fill_turn_def demo_receive_def receive_wait_def)

theorem collection_ends_witness:
  "(\<exists>w'. batch_fill (demo_collect\<lparr>ce_mailbox := (\<lambda>w. (Inr None, w))\<rparr>) 2 10 0 ([], 0, [], []) = Some (Inr [], w') \<and>
      10 \<le> fst (snd w') \<and> fst (snd w') \<le> 13) \<and>
   (10 :: real) \<le> max 0 (0 + 10 + 2 * 1) + 1 \<and>
   left_for demo_collect (\<lambda>w. fst (snd w)) 2 (0 + 10) (Inr [5]) ([], 10, [5], [])"
proof -
  let ?E = "demo_collect\<lparr>ce_mailbox := (\<lambda>w. (Inr None, w))\<rparr>"
  have "timely_calls ?E (\<lambda>w. fst (snd w)) 1 1"
    using demo_timely by (auto simp: timely_calls_def demo_collect_def)
  from collection_ends [OF this, of 2 10 0 "([], 0, [], [])"] obtain r w' where
    "batch_fill ?E 2 10 0 ([], 0, [], []) = Some (r, w')" "fst (snd w') \<le> 13" "r = Inr []" "10 \<le> fst (snd w')"
    by auto
  then show ?thesis
    using collection_ends [OF demo_timely, of 2 10 0 "([5], 0, [], [])"] demo_fill by auto
qed

text \<open>A model that cannot be built leaves a node that is never initialised again and has no queue.\<close>

lemma failed_init_is_final:
  assumes "\<not> bn_initialized n" and "bn_queue n = None" and "create (bn_model_config n) w = (Inl e, w1)"
  shows "init_batch_runtime create (n, w) = (Inl e, (n\<lparr>bn_initialized := True\<rparr>, w1)) \<and>
    init_batch_runtime create (n\<lparr>bn_initialized := True\<rparr>, v) = (Inr (), (n\<lparr>bn_initialized := True\<rparr>, v)) \<and>
    fst (batch_collect_data (n\<lparr>bn_initialized := True\<rparr>, v)) = Inl (AttributeError ''batch_queue'')"
  using assms by (simp add: init_batch_runtime_def batch_collect_data_def bnd_def seq_def self_def on_self_def
      lift_w_def ret_def raise_def)

end
