(* ===== verification/Plots.thy ===== *)
theory Plots
  imports Detectors Classifiers
begin

text \<open>
  What the models of \<^verbatim>\<open>neudc/nn/models\<close> draw (\<^verbatim>\<open>plot\<close> of \<^verbatim>\<open>det/yolo.py\<close>, \<^verbatim>\<open>det/sahi.py\<close> and
  \<^verbatim>\<open>cls/base.py\<close>), how the classifiers are built, and their warm-up passes. The image that is drawn
  on is part of the world; the calls of \<^verbatim>\<open>cv2\<close> are arguments.
\<close>

section \<open>Drawing\<close>

type_synonym colour = "nat \<times> nat \<times> nat"
type_synonym point = "int \<times> int"

text \<open>\<^verbatim>\<open>cv2.getTextSize\<close> gives the width and height of a text and its base line for a font scale and a
  thickness; the calls that draw take the points, the scale, the colour and the thickness.\<close>

record 'w canvas =
  cv_text_size :: "string \<Rightarrow> real \<Rightarrow> int \<Rightarrow> exn + (int \<times> int) \<times> int"
  cv_rectangle :: "point \<Rightarrow> point \<Rightarrow> colour \<Rightarrow> int \<Rightarrow> ('w, unit) io"
  cv_put_text :: "string \<Rightarrow> point \<Rightarrow> real \<Rightarrow> colour \<Rightarrow> int \<Rightarrow> ('w, unit) io"
  cv_imwrite :: "string \<Rightarrow> ('w, bool) io"

text \<open>\<^verbatim>\<open>if save_path: cv2.imwrite(..)\<close>; a failure is only logged.\<close>

definition save_plot :: "'w canvas \<Rightarrow> string option \<Rightarrow> ('w, unit) io" where
  "save_plot V save_path = (case save_path of
      None \<Rightarrow> ret ()
    | Some p \<Rightarrow> if p = [] then ret () else bnd (cv_imwrite V p) (\<lambda>_. ret ()))"

text \<open>\<^verbatim>\<open>f"{x:.2f}"\<close>, which rounds halves to even, and \<^verbatim>\<open>str(n)\<close> of an int.\<close>

definition fixed2 :: "real \<Rightarrow> string" where
  "fixed2 x = (let k = nat (py_round (100 * \<bar>x\<bar>)) in
     (if x < 0 then ''-'' else []) @ show_nat (k div 100) @ ''.'' @ show_nat (k div 10 mod 10) @ show_nat (k mod 10))"

definition str_of_int :: "int \<Rightarrow> string" where
  "str_of_int n = (if n < 0 then ''-'' @ show_nat (nat (- n)) else show_nat (nat n))"

section \<open>Detections\<close>

text \<open>Where the label of a box goes, for a text of width \<open>tw\<close>, height \<open>th\<close> and base line \<open>base\<close> and
  an image of height \<open>h\<close> and width \<open>w\<close>: above the box, else below it, else inside at its top.\<close>

definition label_y :: "int \<Rightarrow> int \<Rightarrow> int \<Rightarrow> int \<Rightarrow> int \<Rightarrow> int" where
  "label_y h ymin ymax th base =
     (if 0 \<le> ymin - (th + base) then ymin - base
      else if ymax + (th + base) \<le> h then ymax + th
      else ymin + th)"

definition label_x :: "int \<Rightarrow> int \<Rightarrow> int \<Rightarrow> int \<Rightarrow> int" where
  "label_x w xmin xmax tw = (if w < xmin + tw then max 0 (xmax - tw) else xmin)"

definition box_colour :: colour where
  "box_colour = (0, 255, 0)"

definition plot_detection :: "'w canvas \<Rightarrow> (int, string) dict \<Rightarrow> int \<times> int \<Rightarrow> detection \<Rightarrow> ('w, unit) io" where
  "plot_detection V names hw d = (case (hw, d_box d) of ((h, w), (x1, y1, x2, y2)) \<Rightarrow>
     let xmin = py_trunc x1; ymin = py_trunc y1; xmax = py_trunc x2; ymax = py_trunc y2 in
     case dget names (int (d_class d)) of
       None \<Rightarrow> raise KeyError
     | Some cls_name \<Rightarrow>
         seq (cv_rectangle V (xmin, ymin) (xmax, ymax) box_colour 1) (
         let txt = cls_name @ '' | '' @ fixed2 (d_score d) in
         bnd (of_res (cv_text_size V txt 1 1)) (\<lambda>((tw, th), base).
         cv_put_text V txt (label_x w xmin xmax tw, label_y h ymin ymax th base) (1/2) box_colour 1)))"

definition yolo_plot :: "'w canvas \<Rightarrow> ('v, 'x) yolo \<Rightarrow> int \<times> int \<Rightarrow> detection list \<Rightarrow> string option \<Rightarrow> ('w, unit) io" where
  "yolo_plot V y hw ds save_path =
     seq (for_each ds (plot_detection V (y_names y) hw)) (save_plot V save_path)"

text \<open>\<^verbatim>\<open>SAHIDetector.plot\<close> hands its arguments on to the detector it wraps.\<close>

definition sahi_plot :: "('a \<Rightarrow> ('w, unit) io) \<Rightarrow> 'a \<Rightarrow> ('w, unit) io" where
  "sahi_plot detector_plot args = detector_plot args"

section \<open>Classes\<close>

text \<open>\<^verbatim>\<open>self.names[cls_idx]\<close>: a negative index of a list counts from its end.\<close>

definition name_at :: "class_names \<Rightarrow> int \<Rightarrow> exn + string" where
  "name_at ns i = (case ns of
      Names_list l \<Rightarrow>
        if 0 \<le> i \<and> i < int (length l) then Inr (l ! nat i)
        else if i < 0 \<and> 0 \<le> int (length l) + i then Inr (l ! nat (int (length l) + i))
        else Inl IndexError
    | Names_map m \<Rightarrow> (case map_of m (KInt i) of None \<Rightarrow> Inl KeyError | Some n \<Rightarrow> Inr n))"

definition names_length :: "class_names \<Rightarrow> nat" where
  "names_length ns = (case ns of Names_list l \<Rightarrow> length l | Names_map m \<Rightarrow> length m)"

definition class_label :: "class_names \<Rightarrow> int \<Rightarrow> exn + string" where
  "class_label ns cls_idx =
     (if \<not> names_missing (Some ns) \<and> cls_idx < int (names_length ns) then name_at ns cls_idx
      else Inr (str_of_int cls_idx))"

text \<open>The names of a classifier are an attribute it may not have. A filled box in the top right
  corner, and the text on it.\<close>

definition cls_plot :: "'w canvas \<Rightarrow> class_names option \<Rightarrow> int \<times> int \<Rightarrow> int \<Rightarrow> int \<Rightarrow> string option \<Rightarrow> ('w, unit) io" where
  "cls_plot V names hw cls_idx padding save_path = (case names of
      None \<Rightarrow> raise (AttributeError ''names'')
    | Some ns \<Rightarrow>
        bnd (of_res (class_label ns cls_idx)) (\<lambda>class_name.
        bnd (of_res (cv_text_size V class_name 1 2)) (\<lambda>((tw, th), _).
        let box_x = snd hw - tw - 2 * padding; box_y = th + 2 * padding in
        seq (cv_rectangle V (box_x, box_y - th - padding) (snd hw, box_y + padding) (0, 0, 0) (-1)) (
        seq (cv_put_text V class_name (box_x + padding, box_y - padding) 1 (255, 255, 255) 2)
          (save_plot V save_path)))))"

section \<open>Building the classifiers\<close>

text \<open>The base class's constructor has no body: what is stored is what the class itself stores, and
  neither class names nor metadata are.\<close>

record 'b classifier =
  cl_backend :: 'b
  cl_path :: string
  cl_device_id :: int
  cl_names :: "class_names option"
  cl_metadata :: "metadata option"

record 'b blur_classifier = "'b classifier" +
  cl_conf :: real

record 'b embedding_filter = "'b classifier" +
  cl_eps :: real
  cl_min_samples :: int
  cl_num_extremes :: int

definition new_blur_classifier :: "(string \<Rightarrow> int \<Rightarrow> ('w, 'b) io) \<Rightarrow> string \<Rightarrow> int \<Rightarrow> real \<Rightarrow> ('w, 'b blur_classifier) io" where
  "new_blur_classifier backend path device_id conf =
     bnd (backend path device_id) (\<lambda>b. ret \<lparr>cl_backend = b, cl_path = path, cl_device_id = device_id,
       cl_names = None, cl_metadata = None, cl_conf = conf\<rparr>)"

definition new_embedding_filter :: "(string \<Rightarrow> int \<Rightarrow> ('w, 'b) io) \<Rightarrow> string \<Rightarrow> int \<Rightarrow> real \<Rightarrow> int \<Rightarrow> int \<Rightarrow>
    ('w, 'b embedding_filter) io" where
  "new_embedding_filter backend path device_id eps min_samples num_extremes =
     bnd (backend path device_id) (\<lambda>b. ret \<lparr>cl_backend = b, cl_path = path, cl_device_id = device_id,
       cl_names = None, cl_metadata = None, cl_eps = eps, cl_min_samples = min_samples,
       cl_num_extremes = num_extremes\<rparr>)"

text \<open>\<^verbatim>\<open>get_metadata\<close>, a property of every classifier.\<close>

definition cls_get_metadata :: "('b, 'm) classifier_scheme \<Rightarrow> ('w, metadata) io" where
  "cls_get_metadata c = (case cl_metadata c of None \<Rightarrow> raise (AttributeError ''metadata'') | Some m \<Rightarrow> ret m)"

text \<open>\<^verbatim>\<open>get_transform\<close> of the embedding filter: the steps \<^verbatim>\<open>torchvision\<close> composes.\<close>

datatype transform_step = To_pil | Resize_short nat | Center_crop nat | To_tensor | Normalize_by "real list" "real list"

definition embedding_transform :: "transform_step list" where
  "embedding_transform = [To_pil, Resize_short 256, Center_crop 224, To_tensor,
     Normalize_by [0.485, 0.456, 0.406] [0.229, 0.224, 0.225]]"

section \<open>Warm-up\<close>

text \<open>A dummy image of the model's size, \<open>iters\<close> times through the model; the result is dropped.\<close>

definition yolo_warmup :: "(int list list \<Rightarrow> ('w, 'r) io) \<Rightarrow> ('v, 'x) yolo \<Rightarrow> nat \<Rightarrow> ('w, unit) io" where
  "yolo_warmup call y iters = (case y_imgsz y of (h, w) \<Rightarrow>
     for_each [0..<iters] (\<lambda>_. bnd (call [[h, w, 3]]) (\<lambda>_. ret ())))"

definition sahi_warmup :: "(nat \<Rightarrow> ('w, unit) io) \<Rightarrow> (int list list \<Rightarrow> ('w, 'r) io) \<Rightarrow> int \<times> int \<Rightarrow> int \<times> int \<Rightarrow> nat \<Rightarrow>
    ('w, unit) io" where
  "sahi_warmup detector_warmup call crop_size crop_overlap iters =
     seq (detector_warmup iters)
       (for_each [0..<iters] (\<lambda>_. bnd (call
          [[fst crop_size * 2 - fst crop_overlap, snd crop_size * 2 - snd crop_overlap, 3]]) (\<lambda>_. ret ())))"

definition blur_warmup :: "nat \<Rightarrow> ('w, unit) io" where
  "blur_warmup iters = ret ()"

definition embedding_warmup :: "nat \<Rightarrow> ('w, unit) io" where
  "embedding_warmup iters = ret ()"

section \<open>Properties\<close>

text \<open>The label of a detection stays in the image: for a box inside an image that is at least as wide
  as the text and twice as high, the text's rectangle, as it is measured, is inside the image, in
  whichever of the three places it is put.\<close>

lemma label_stays_in_image:
  assumes "0 \<le> xmin" and "xmin \<le> xmax" and "xmax \<le> w" and "0 \<le> ymin" and "ymin \<le> ymax" and "ymax \<le> h"
    and "0 \<le> th" and "0 \<le> base" and "tw \<le> w" and "2 * (th + base) \<le> h"
  shows "0 \<le> label_x w xmin xmax tw \<and> label_x w xmin xmax tw + tw \<le> w \<and>
    0 \<le> label_y h ymin ymax th base - th \<and> label_y h ymin ymax th base + base \<le> h"
  using assms by (auto simp: label_x_def label_y_def)

text \<open>Without the height the label leaves the image: a box that fills a low image.\<close>

lemma label_leaves_low_image: "20 < label_y 20 0 20 22 10 + 10"
  by (simp add: label_y_def)

text \<open>No classifier has class names or metadata, so drawing its result and asking for its metadata
  raise, whatever names the caller had in mind, before anything is drawn.\<close>

lemma nameless_classifier:
  assumes "cl_names c = None" and "cl_metadata c = None"
  shows "cls_plot V (cl_names c) hw i padding path v = (Inl (AttributeError ''names''), v)"
    and "cls_get_metadata c u = (Inl (AttributeError ''metadata''), u)"
  using assms by (simp_all add: cls_plot_def cls_get_metadata_def raise_def)

lemma new_classifiers_are_nameless:
  "new_blur_classifier backend path device_id conf w = (Inr c, w') \<Longrightarrow> cl_names c = None \<and> cl_metadata c = None"
  "new_embedding_filter backend path device_id eps ms ne w = (Inr d, w') \<Longrightarrow> cl_names d = None \<and> cl_metadata d = None"
  by (auto simp: new_blur_classifier_def new_embedding_filter_def bnd_def ret_def split: prod.splits sum.splits)

text \<open>A dictionary whose keys are not 0 to n-1 makes a class index below its length an error, and a
  negative one always; a list takes a negative index from its end.\<close>

lemma class_label_examples:
  "class_label (Names_map [(KInt 5, ''cat'')]) 0 = Inl KeyError"
  "class_label (Names_list [''cat'', ''dog'']) (-1) = Inr ''dog''"
  "class_label (Names_list [''cat'']) 7 = Inr (show_nat 7)"
  by (simp_all add: class_label_def names_missing_def names_length_def name_at_def str_of_int_def)

text \<open>A detection of an unknown class ends the drawing: the detections before it stay drawn, nothing
  after it is, and nothing is saved.\<close>

lemma unknown_class_ends_plot:
  assumes "for_each ds (plot_detection V (y_names y) hw) w = (Inr (), w1)"
    and "dget (y_names y) (int (d_class d)) = None"
  shows "yolo_plot V y hw (ds @ d # es) save_path w = (Inl KeyError, w1)"
proof -
  have "plot_detection V (y_names y) hw d w1 = (Inl KeyError, w1)"
    using assms(2) by (cases hw; cases "d_box d") (simp add: plot_detection_def raise_def)
  then show ?thesis
    using assms(1) by (simp add: yolo_plot_def seq_def bnd_def for_each_append)
qed

end
