(* ===== verification/Extractor.thy ===== *)
theory Extractor
  imports Classifiers
begin

text \<open>
  The object behind the block features, \<^verbatim>\<open>FeatureExtractor\<close> of \<^verbatim>\<open>nn/models/cls/feature_extractor.py\<close>:
  its attributes and its methods over them. \<open>Classifiers\<close> has what the methods compute.
\<close>

section \<open>The object\<close>

text \<open>An attribute that is still the empty array or list is None. The masks of the frequency bands, all
  the same, are counted.\<close>

record extractor =
  fx_resized :: "mat option"
  fx_roi :: "mat option"
  fx_bands :: nat

definition new_extractor :: extractor where
  "new_extractor = \<lparr>fx_resized = None, fx_roi = None, fx_bands = 1\<rparr>"

definition fx_resize_image :: "('img \<Rightarrow> int \<times> int \<Rightarrow> exn + mat) \<Rightarrow> 'img \<Rightarrow> nat \<Rightarrow> nat \<Rightarrow> (extractor \<times> 'w, unit) io" where
  "fx_resize_image cv_resize img rows cols =
     bnd (of_res (cv_resize img (py_trunc (real cols / 2), py_trunc (real rows / 2)))) (\<lambda>m.
     on_self (\<lambda>e. e\<lparr>fx_resized := Some m\<rparr>))"

definition fx_compute_roi :: "(mat option \<Rightarrow> exn + mat) \<Rightarrow> (extractor \<times> 'w, unit) io" where
  "fx_compute_roi entropy_filt = bnd self (\<lambda>e.
     bnd (of_res (entropy_filt (fx_resized e))) (\<lambda>ent.
     bnd (of_res (compute_roi ent)) (\<lambda>r. on_self (\<lambda>e. e\<lparr>fx_roi := Some r\<rparr>))))"

text \<open>\<^verbatim>\<open>self.__freqBands[0]\<close>, and the block of the region mask, which an empty list does not have.\<close>

definition fx_features :: "mat \<Rightarrow> (extractor \<times> 'w, real list) io" where
  "fx_features block = bnd self (\<lambda>e. if fx_bands e = 0 then raise IndexError else ret (single_resolution_features block))"

definition fx_block_valid :: "nat \<Rightarrow> nat \<Rightarrow> (extractor \<times> 'w, bool) io" where
  "fx_block_valid i j = bnd self (\<lambda>e. case fx_roi e of None \<Rightarrow> raise IndexError | Some r \<Rightarrow> ret (is_image_block_valid r i j))"

definition fx_block :: "mat \<Rightarrow> nat \<times> nat \<Rightarrow> (extractor \<times> 'w, real list list) io" where
  "fx_block m = (\<lambda>(i, j). bnd (fx_block_valid i j) (\<lambda>ok.
     let b = block_at m i j in
     if ok \<and> length b = BLOCK_SIZE \<and> mat_cols b = BLOCK_SIZE then bnd (fx_features b) (\<lambda>f. ret [f]) else ret []))"

definition fx_extract_feature :: "(extractor \<times> 'w, real list list) io" where
  "fx_extract_feature = bnd self (\<lambda>e. case fx_resized e of
      None \<Rightarrow> raise IndexError
    | Some m \<Rightarrow> bnd (map_io (fx_block m) (List.product (block_starts (length m)) (block_starts (mat_cols m)))) (\<lambda>fs. ret (concat fs)))"

definition clear_object :: "(extractor \<times> 'w, unit) io" where
  "clear_object = on_self (\<lambda>e. e\<lparr>fx_resized := None, fx_roi := None, fx_bands := 0\<rparr>)"

section \<open>What it extracts\<close>

lemma fx_block_ok:
  assumes "fx_roi e = Some r" and "0 < fx_bands e"
  shows "fx_block m (i, j) (e, w) = (Inr (block_features m r i j), e, w)"
  using assms by (auto simp: fx_block_def fx_block_valid_def fx_features_def block_features_def bnd_def Let_def)

lemma fx_blocks_ok:
  assumes "fx_roi e = Some r" and "0 < fx_bands e"
  shows "map_io (fx_block m) ps (e, w) = (Inr (map (\<lambda>(i, j). block_features m r i j) ps), e, w)"
  by (induction ps) (auto simp: bnd_def fx_block_ok [OF assms])

text \<open>On an object with its masks, an image and its regions, what is extracted is the features of the
  valid blocks, row by row.\<close>

lemma extracts_block_features:
  assumes "fx_resized e = Some m" and "fx_roi e = Some r" and "0 < fx_bands e"
  shows "fx_extract_feature (e, w) = (Inr (extract_feature m r), e, w)"
  using assms by (simp add: fx_extract_feature_def bnd_def fx_blocks_ok concat_product [symmetric] extract_feature_def)

text \<open>A cleared object, which is documented as ready for the next image, has lost its masks: it takes
  the image and its regions, and raises at the first block that has features.\<close>

lemma cleared_blocks:
  assumes "fx_roi e = Some r" and "fx_bands e = 0"
  shows "map_io (fx_block m) ps (e, w) =
    (if \<forall>(i, j) \<in> set ps. block_features m r i j = [] then (Inr (map (\<lambda>_. []) ps), e, w) else (Inl IndexError, e, w))"
proof (induction ps)
  case (Cons p ps)
  obtain i j where p: "p = (i, j)" by fastforce
  have "fx_block m (i, j) (e, w) = (if block_features m r i j = [] then Inr [] else Inl IndexError, e, w)"
    using assms by (auto simp: fx_block_def fx_block_valid_def fx_features_def block_features_def bnd_def Let_def)
  then show ?case using Cons by (auto simp: bnd_def p)
qed simp

lemma cleared_extractor_fails:
  assumes "fx_resized e = Some m" and "fx_roi e = Some r" and "fx_bands e = 0"
  shows "fx_extract_feature (e, w) = (if extract_feature m r = [] then Inr [] else Inl IndexError, e, w)"
proof -
  have c: "concat (map (\<lambda>_. []) ps) = []" for ps :: "(nat \<times> nat) list" by (induction ps) simp_all
  have "extract_feature m r = [] \<longleftrightarrow>
      (\<forall>(i, j) \<in> set (List.product (block_starts (length m)) (block_starts (mat_cols m))). block_features m r i j = [])"
    by (auto simp: extract_feature_def)
  then show ?thesis
    by (simp add: fx_extract_feature_def bnd_def assms cleared_blocks [OF assms(2,3)] c)
qed

lemma cleared_next_image:
  assumes "cv_resize img (py_trunc (real cols / 2), py_trunc (real rows / 2)) = Inr m" and "entropy_filt (Some m) = Inr ent"
    and "compute_roi ent = Inr r"
  shows "seq clear_object (seq (fx_resize_image cv_resize img rows cols) (seq (fx_compute_roi entropy_filt) fx_extract_feature)) (e, w)
      = (if extract_feature m r = [] then Inr [] else Inl IndexError, \<lparr>fx_resized = Some m, fx_roi = Some r, fx_bands = 0\<rparr>, w)"
    and "seq (fx_resize_image cv_resize img rows cols) (seq (fx_compute_roi entropy_filt) fx_extract_feature) (new_extractor, w)
      = (Inr (extract_feature m r), \<lparr>fx_resized = Some m, fx_roi = Some r, fx_bands = 1\<rparr>, w)"
  using assms
  by (cases e; simp add: clear_object_def fx_resize_image_def fx_compute_roi_def new_extractor_def seq_def bnd_def
      cleared_extractor_fails extracts_block_features)+

end
