(* ===== verification/Profiler_Calls.thy ===== *)
theory Profiler_Calls
  imports Profilers
begin

text \<open>
  The profilers of \<^verbatim>\<open>neudc/profilers\<close> around a call: naming themselves after the first node that calls
  them, registering their metrics, and timing with the clock. One profiler decorates a method of a
  class, so all nodes of the class in a process share it. What is counted after a call is in
  \<open>Profilers\<close>. \<^verbatim>\<open>prometheus_client\<close> is an argument that registers a metric of a kind under a name, or
  raises; the labelled counters of a node are numbers.
\<close>

section \<open>Metrics of a name\<close>

datatype metric_kind = Gauge_metric | Counter_metric

type_synonym 'w registrar = "metric_kind \<Rightarrow> string \<Rightarrow> ('w, unit) io"

text \<open>\<^verbatim>\<open>f"{self.node_name}".replace(" ", "_")\<close>\<close>

definition metric_prefix :: "string \<Rightarrow> string" where
  "metric_prefix nid = map (\<lambda>c. if c = CHR '' '' then CHR ''_'' else c) nid"

definition filter_metrics :: "string \<Rightarrow> (metric_kind \<times> string) list" where
  "filter_metrics nid = (let p = metric_prefix nid in
     [(Gauge_metric, p @ ''_execution_time_seconds''), (Counter_metric, p @ ''_frames_total''),
      (Counter_metric, p @ ''_frames_filtered''), (Counter_metric, p @ ''_frames_passed'')])"

definition detector_metrics :: "string \<Rightarrow> (metric_kind \<times> string) list" where
  "detector_metrics nid = (let p = metric_prefix nid in
     [(Gauge_metric, p @ ''_postprocess_exec_time''), (Counter_metric, p @ ''_postprocess_frames''),
      (Counter_metric, p @ ''_postprocess_boxes'')])"

definition init_metrics :: "'w registrar \<Rightarrow> string \<Rightarrow> ('w, unit) io" where
  "init_metrics reg nid = for_each (filter_metrics nid) (\<lambda>(k, n). reg k n)"

section \<open>The filter profilers\<close>

text \<open>\<open>pr_gauge\<close> is \<^verbatim>\<open>EXEC_TIME_GAUGE\<close> under the profiler's label.\<close>

record profiler =
  pr_node :: "string option"
  pr_t :: real
  pr_use_cuda :: bool
  pr_use_torch :: bool
  pr_freq :: "int option"
  pr_max_calls :: int
  pr_enable_metrics :: bool
  pr_start :: real
  pr_dt :: real
  pr_calls :: nat
  pr_gauge :: "real option"
  pr_counts :: filter_profiler

definition new_profiler :: "real \<Rightarrow> bool \<Rightarrow> bool \<Rightarrow> int option \<Rightarrow> int \<Rightarrow> bool \<Rightarrow> profiler" where
  "new_profiler t use_cuda use_torch freq max_calls enable_metrics =
     \<lparr>pr_node = None, pr_t = t, pr_use_cuda = use_cuda, pr_use_torch = use_torch, pr_freq = freq,
      pr_max_calls = max_calls, pr_enable_metrics = enable_metrics, pr_start = 0, pr_dt = 0, pr_calls = 0,
      pr_gauge = None, pr_counts = new_filter_profiler\<rparr>"

definition set_total_time :: "profiler \<Rightarrow> profiler" where
  "set_total_time p = p\<lparr>pr_counts := (pr_counts p)\<lparr>c_total_time := pr_t p\<rparr>\<rparr>"

definition pr_enter :: "('w, real) io \<Rightarrow> (profiler \<times> 'w, unit) io" where
  "pr_enter now = bnd (lift_w now) (\<lambda>x. on_self (\<lambda>p. p\<lparr>pr_start := x\<rparr>))"

definition record_time :: "real \<Rightarrow> profiler \<Rightarrow> profiler" where
  "record_time x p = (let dt = x - pr_start p in
     p\<lparr>pr_dt := dt, pr_t := pr_t p + dt, pr_calls := pr_calls p + 1, pr_gauge := Some dt\<rparr>)"

text \<open>\<^verbatim>\<open>if self.start:\<close> a call that started at the clock's zero is not timed.\<close>

definition process_exit :: "('w, real) io \<Rightarrow> (profiler \<times> 'w, unit) io" where
  "process_exit now = bnd self (\<lambda>p. if pr_start p = 0 then ret ()
     else bnd (lift_w now) (\<lambda>x. on_self (set_total_time \<circ> record_time x)))"

definition postprocess_exit :: "('w, real) io \<Rightarrow> (profiler \<times> 'w, unit) io" where
  "postprocess_exit now = bnd self (\<lambda>p. seq (if pr_start p = 0 then ret ()
     else bnd (lift_w now) (\<lambda>x. on_self (set_total_time \<circ> record_time x))) (on_self set_total_time))"

text \<open>\<^verbatim>\<open>with self: r = body()\<close>: leaving the block runs \<^verbatim>\<open>__exit__\<close>, also after an exception, and what
  \<^verbatim>\<open>__exit__\<close> itself raises replaces it.\<close>

definition with_block :: "('w, unit) io \<Rightarrow> ('w, unit) io \<Rightarrow> ('w, 'a) io \<Rightarrow> ('w, 'a) io" where
  "with_block enter leave body = seq enter (\<lambda>w. case body w of (r, w1) \<Rightarrow> (case leave w1 of
      (Inl e, w2) \<Rightarrow> (Inl e, w2)
    | (Inr _, w2) \<Rightarrow> (r, w2)))"

definition first_argument :: "'a list \<Rightarrow> (string, 'a) dict \<Rightarrow> exn + 'a" where
  "first_argument args kwargs = (case args of
      x # _ \<Rightarrow> Inr x
    | [] \<Rightarrow> (case dvalues kwargs of x # _ \<Rightarrow> Inr x | [] \<Rightarrow> Inl StopIteration))"

text \<open>The name is kept from the first call on, whoever calls next.\<close>

definition name_profiler :: "'w registrar \<Rightarrow> string \<Rightarrow> (profiler \<times> 'w, unit) io" where
  "name_profiler reg nid = bnd self (\<lambda>p. if pr_node p = None
     then seq (on_self (\<lambda>p. p\<lparr>pr_node := Some nid\<rparr>)) (lift_w (init_metrics reg nid))
     else ret ())"

definition on_counts :: "(filter_profiler, unit) io \<Rightarrow> (profiler \<times> 'w, unit) io" where
  "on_counts m = (\<lambda>(p, w). case m (pr_counts p) of (r, c) \<Rightarrow> (r, p\<lparr>pr_counts := c\<rparr>, w))"

text \<open>\<^verbatim>\<open>FilterProcessProfiler.__call__\<close>: the wrapper calls the method with its first argument only.\<close>

definition process_wrapper :: "'w registrar \<Rightarrow> ('w, real) io \<Rightarrow> (frames_io \<Rightarrow> ('w, frames_io option) io) \<Rightarrow> string \<Rightarrow>
    frames_io list \<Rightarrow> (string, frames_io) dict \<Rightarrow> (profiler \<times> 'w, frames_io option) io" where
  "process_wrapper reg now body nid args kwargs =
     seq (name_profiler reg nid)
     (bnd (of_res (first_argument args kwargs)) (\<lambda>item.
      bnd (with_block (pr_enter now) (process_exit now) (lift_w (body item))) (\<lambda>r.
      seq (on_counts (modify (process_frame_count item r))) (ret r))))"

text \<open>\<^verbatim>\<open>FilterPostprocessProfiler.__call__\<close>\<close>

definition count_result :: "frames_io \<Rightarrow> frames_io \<Rightarrow> (filter_profiler, unit) io" where
  "count_result item x = (case (item, x) of
      (Many ms, Many rs) \<Rightarrow> post_batch_result rs (length ms)
    | (Many ms, One _) \<Rightarrow> seq (modify (count_total (length ms))) (raise (AttributeError ''frames''))
    | (One _, One m) \<Rightarrow> post_frame_result m
    | (One _, Many _) \<Rightarrow> seq (modify (count_total 1)) (raise (AttributeError ''drop'')))"

definition postprocess_wrapper :: "'w registrar \<Rightarrow> ('w, real) io \<Rightarrow> ('w, frames_io option) io \<Rightarrow> string \<Rightarrow> frames_io \<Rightarrow>
    (profiler \<times> 'w, frames_io option) io" where
  "postprocess_wrapper reg now body nid item =
     seq (name_profiler reg nid)
     (bnd (with_block (pr_enter now) (postprocess_exit now) (lift_w body)) (\<lambda>r. case r of
        None \<Rightarrow> ret None
      | Some x \<Rightarrow> seq (on_counts (count_result item x)) (ret r)))"

section \<open>The detector profiler\<close>

text \<open>Its metrics are attributes that exist once they are registered: \<open>pd_made\<close> of the gauge, the
  counter of frames and the counter of boxes, in this order.\<close>

record det_prof =
  pd_node :: "string option"
  pd_use_cuda :: bool
  pd_use_torch :: bool
  pd_enable_metrics :: bool
  pd_start :: real
  pd_dt :: real
  pd_made :: nat
  pd_counts :: det_profiler

definition new_det_prof :: "bool \<Rightarrow> bool \<Rightarrow> bool \<Rightarrow> det_prof" where
  "new_det_prof use_cuda use_torch enable_metrics =
     \<lparr>pd_node = None, pd_use_cuda = use_cuda, pd_use_torch = use_torch, pd_enable_metrics = enable_metrics,
      pd_start = 0, pd_dt = 0, pd_made = 0, pd_counts = \<lparr>d_frames = 0, d_boxes = 0, d_time = 0\<rparr>\<rparr>"

definition det_init_metrics :: "'w registrar \<Rightarrow> string \<Rightarrow> (det_prof \<times> 'w, unit) io" where
  "det_init_metrics reg nid = for_each (zip [1..<4] (detector_metrics nid))
     (\<lambda>(i, k, n). seq (lift_w (reg k n)) (on_self (\<lambda>p. p\<lparr>pd_made := max (pd_made p) i\<rparr>)))"

definition det_name :: "'w registrar \<Rightarrow> string \<Rightarrow> (det_prof \<times> 'w, unit) io" where
  "det_name reg nid = bnd self (\<lambda>p. if pd_node p = None \<or> pd_node p = Some []
     then seq (on_self (\<lambda>p. p\<lparr>pd_node := Some nid\<rparr>)) (det_init_metrics reg nid)
     else ret ())"

definition det_enter :: "('w, real) io \<Rightarrow> (det_prof \<times> 'w, unit) io" where
  "det_enter now = bnd (lift_w now) (\<lambda>x. on_self (\<lambda>p. p\<lparr>pd_start := x\<rparr>))"

definition det_exit :: "('w, real) io \<Rightarrow> (det_prof \<times> 'w, unit) io" where
  "det_exit now = bnd (lift_w now) (\<lambda>x. bnd self (\<lambda>p. let dt = x - pd_start p in
     seq (on_self (\<lambda>p. p\<lparr>pd_dt := dt\<rparr>))
     (if pd_made p < 1 then raise (AttributeError ''exec_time_gauge'')
      else on_self (\<lambda>p. p\<lparr>pd_counts := (pd_counts p)\<lparr>d_time := d_time (pd_counts p) + dt\<rparr>\<rparr>))))"

text \<open>\<open>lens\<close> are the lengths of what the model returned. A batch looks up the counter of frames first,
  a frame the counter of boxes.\<close>

definition det_count :: "nat option \<Rightarrow> nat list \<Rightarrow> (det_prof \<times> 'w, unit) io" where
  "det_count n lens = bnd self (\<lambda>p. case n of
      Some k \<Rightarrow>
        if pd_made p < 2 then raise (AttributeError ''total_frames_counter'')
        else if pd_made p < 3 then raise (AttributeError ''total_boxes_counter'')
        else (\<lambda>(p, w). case det_batch_count lens k (pd_counts p) of (r, c) \<Rightarrow> (r, p\<lparr>pd_counts := c\<rparr>, w))
    | None \<Rightarrow>
        if pd_made p < 3 then raise (AttributeError ''total_boxes_counter'')
        else on_self (\<lambda>p. p\<lparr>pd_counts := det_frame_count lens (pd_counts p)\<rparr>))"

text \<open>\<open>n\<close> is the number of frames of the batch, None for a frame.\<close>

definition det_wrapper :: "'w registrar \<Rightarrow> ('w, real) io \<Rightarrow> ('w, 'r) io \<Rightarrow> string \<Rightarrow> nat option \<Rightarrow> nat list \<Rightarrow>
    (det_prof \<times> 'w, 'r) io" where
  "det_wrapper reg now body nid n lens =
     seq (det_name reg nid)
     (bnd (with_block (det_enter now) (det_exit now) (lift_w body)) (\<lambda>r.
      seq (det_count n lens) (ret r)))"

section \<open>Properties\<close>

lemma on_counts_apply [simp]:
  "on_counts m (p, w) = (fst (m (pr_counts p)), p\<lparr>pr_counts := snd (m (pr_counts p))\<rparr>, w)"
  by (simp add: on_counts_def split: prod.splits)

text \<open>A call of a profiler that has its name, on a clock that is past zero, does what \<open>profiled_process\<close>
  says: the result is the method's, the frames are counted, and the time between the two readings of
  the clock is added, once.\<close>

lemma process_wrapper_counts:
  assumes "pr_node p = Some n" and "now w = (Inr t1, w1)" and "t1 \<noteq> 0"
    and "body item w1 = (Inr r, w2)" and "now w2 = (Inr t2, w3)" and "c_total_time (pr_counts p) = pr_t p"
  shows "process_wrapper reg now body nid (item # args) kwargs (p, w) = (Inr r,
    p\<lparr>pr_start := t1, pr_dt := t2 - t1, pr_t := pr_t p + (t2 - t1), pr_calls := pr_calls p + 1,
      pr_gauge := Some (t2 - t1), pr_counts := profiled_process (t2 - t1) item r (pr_counts p)\<rparr>, w3)"
  using assms
  by (simp add: process_wrapper_def name_profiler_def first_argument_def with_block_def pr_enter_def process_exit_def
      seq_def bnd_def record_time_def set_total_time_def profiled_process_def profiler_exit_def Let_def)

text \<open>The same for \<open>profiled_postprocess\<close>, which may raise after the method has run.\<close>

lemma postprocess_wrapper_counts:
  assumes "pr_node p = Some n" and "now w = (Inr t1, w1)" and "t1 \<noteq> 0"
    and "body w1 = (Inr r, w2)" and "now w2 = (Inr t2, w3)" and "c_total_time (pr_counts p) = pr_t p"
    and "profiled_postprocess (t2 - t1) item r (pr_counts p) = (x, c)"
  shows "postprocess_wrapper reg now body nid item (p, w) = ((case x of Inl e \<Rightarrow> Inl e | Inr _ \<Rightarrow> Inr r),
    p\<lparr>pr_start := t1, pr_dt := t2 - t1, pr_t := pr_t p + (t2 - t1), pr_calls := pr_calls p + 1,
      pr_gauge := Some (t2 - t1), pr_counts := c\<rparr>, w3)"
proof -
  have e: "profiler_exit (t2 - t1) (pr_counts p) = (pr_counts p)\<lparr>c_total_time := pr_t p + (t2 - t1)\<rparr>"
    by (simp add: profiler_exit_def assms(6))
  let ?p = "p\<lparr>pr_start := t1, pr_dt := t2 - t1, pr_t := pr_t p + (t2 - t1), pr_calls := pr_calls p + 1,
      pr_gauge := Some (t2 - t1), pr_counts := profiler_exit (t2 - t1) (pr_counts p)\<rparr>"
  have b: "with_block (pr_enter now) (postprocess_exit now) (lift_w body) (p, w) = (Inr r, ?p, w3)"
    using assms(2-5) unfolding e
    by (simp add: with_block_def pr_enter_def postprocess_exit_def seq_def bnd_def record_time_def set_total_time_def Let_def)
  have n: "name_profiler reg nid (p, w) = (Inr (), p, w)"
    by (simp add: name_profiler_def bnd_def assms(1))
  show ?thesis
  proof (cases r)
    case None
    then show ?thesis using assms(7)
      by (auto simp: postprocess_wrapper_def profiled_postprocess_def seq_def bnd_def n b)
  next
    case (Some y)
    have w: "postprocess_wrapper reg now body nid item (p, w) =
        seq (on_counts (count_result item y)) (ret r) (?p, w3)"
      by (simp add: postprocess_wrapper_def seq_def bnd_def n b Some)
    have "count_result item y (profiler_exit (t2 - t1) (pr_counts p)) = (x, c)"
      using assms(7) by (simp add: profiled_postprocess_def Some count_result_def seq_def bnd_def)
    then show ?thesis unfolding w by (cases x) (simp_all add: seq_def bnd_def)
  qed
qed

text \<open>The first call names the profiler, and no later call of another node changes the name: what all
  the nodes of a class do in a process is counted under the node that came first.\<close>

lemma name_is_taken:
  assumes "name_profiler reg nid (p, w) = (r, p', w')"
  shows "pr_node p' = (case pr_node p of None \<Rightarrow> Some nid | Some n \<Rightarrow> Some n)"
  using assms by (auto simp: name_profiler_def bnd_def seq_def split: if_splits option.splits)

lemma with_block_node:
  assumes "with_block (pr_enter now) (process_exit now) (lift_w body) (p, w) = (r, p', w')"
  shows "pr_node p' = pr_node p"
  using assms
  by (auto simp: with_block_def pr_enter_def process_exit_def seq_def bnd_def record_time_def set_total_time_def Let_def
      split: prod.splits sum.splits if_splits)

lemma first_node_keeps_profiler:
  assumes "process_wrapper reg now body nid args kwargs (p, w) = (r, p', w')"
  shows "pr_node p' = (case pr_node p of None \<Rightarrow> Some nid | Some n \<Rightarrow> Some n)"
proof -
  obtain x p1 w1 where 1: "name_profiler reg nid (p, w) = (x, p1, w1)" by (rule prod_cases3)
  note n = name_is_taken [OF 1]
  show ?thesis
  proof (cases x)
    case (Inl e)
    then show ?thesis using assms 1 n by (simp add: process_wrapper_def seq_def bnd_def)
  next
    case (Inr u)
    show ?thesis
    proof (cases "first_argument args kwargs")
      case (Inl e)
      then show ?thesis using assms 1 n Inr by (simp add: process_wrapper_def seq_def bnd_def)
    next
      case (Inr item)
      obtain y p2 w2 where 2: "with_block (pr_enter now) (process_exit now) (lift_w (body item)) (p1, w1) = (y, p2, w2)"
        by (rule prod_cases3)
      show ?thesis using assms 1 2 n with_block_node [OF 2] Inr \<open>x = Inr u\<close>
        by (auto simp: process_wrapper_def seq_def bnd_def split: sum.splits)
    qed
  qed
qed

text \<open>A metric that cannot be registered costs the first call: it raises before the method runs. The
  profiler has its name then, so the next call registers nothing and goes through.\<close>

lemma refused_metric_costs_one_call:
  assumes "pr_node p = None" and "\<And>k m v. reg k m v = (Inl e, v)"
  shows "process_wrapper reg now body nid args kwargs (p, w) = (Inl e, p\<lparr>pr_node := Some nid\<rparr>, w)"
    and "name_profiler reg nid' (p\<lparr>pr_node := Some nid\<rparr>, w) = (Inr (), p\<lparr>pr_node := Some nid\<rparr>, w)"
  using assms
  by (simp_all add: process_wrapper_def name_profiler_def init_metrics_def filter_metrics_def seq_def bnd_def Let_def)

text \<open>Two names that differ only in spaces and underscores have the same metrics.\<close>

lemma names_collide: "filter_metrics ''hash a'' = filter_metrics ''hash_a''"
  by (simp add: filter_metrics_def metric_prefix_def)

text \<open>For a detector it costs every call: its gauge is missing for good, and each call runs the method
  and then raises, so the work is done and its result is lost.\<close>

lemma refused_metric_costs_detector:
  assumes "pd_node p = None" and "\<And>k m v. reg k m v = (Inl e, v)" and "nid \<noteq> []"
    and "now v = (Inr t1, v1)" and "body v1 = (Inr r, v2)" and "now v2 = (Inr t2, v3)" and "pd_made p = 0"
  shows "det_wrapper reg now body nid n lens (p, w) = (Inl e, p\<lparr>pd_node := Some nid\<rparr>, w)"
    and "\<exists>q. det_wrapper reg now body nid' n lens (p\<lparr>pd_node := Some nid\<rparr>, v) = (Inl (AttributeError ''exec_time_gauge''), q, v3)
      \<and> pd_counts q = pd_counts p \<and> pd_made q = 0 \<and> pd_node q = Some nid"
  using assms
  by (simp_all add: det_wrapper_def det_name_def det_init_metrics_def detector_metrics_def with_block_def det_enter_def
      det_exit_def seq_def bnd_def Let_def upt_conv_Cons)

text \<open>With its metrics a detector counts, and the time is the one between the two readings.\<close>

lemma det_wrapper_counts:
  assumes "pd_node p = Some nid" and "nid \<noteq> []" and "pd_made p = 3"
    and "now w = (Inr t1, w1)" and "body w1 = (Inr r, w2)" and "now w2 = (Inr t2, w3)"
  shows "\<exists>q. det_wrapper reg now body nid' (Some (Suc k)) lens (p, w) = (Inr r, q, w3) \<and>
    pd_counts q = \<lparr>d_frames = d_frames (pd_counts p) + Suc k, d_boxes = d_boxes (pd_counts p) + sum_list lens,
      d_time = d_time (pd_counts p) + (t2 - t1)\<rparr>"
  using assms
  by (simp add: det_wrapper_def det_name_def with_block_def det_enter_def det_exit_def det_count_def det_batch_count_def
      seq_def bnd_def Let_def)

end
