(* ===== verification/Setup.thy ===== *)
theory Setup
  imports Launch
begin

text \<open>
  What runs before and beside the pipelines: the loggers (\<^verbatim>\<open>utils/logger.py\<close>, the TensorRT logger of
  \<^verbatim>\<open>utils/__init__.py\<close>), the registry the metrics are read from (\<^verbatim>\<open>core/observability/metrics.py\<close>),
  \<^verbatim>\<open>torch_compile\<close> (\<^verbatim>\<open>utils/checks.py\<close>), and the command lines of the entry points. The environment, the
  standard output and the libraries are arguments.
\<close>

section \<open>Log levels\<close>

definition upper_char :: "char \<Rightarrow> char" where
  "upper_char c = (if 97 \<le> code c \<and> code c \<le> 122 then char_of (code c - 32) else c)"

definition DEBUG :: nat where "DEBUG = 10"
definition INFO :: nat where "INFO = 20"
definition WARNING :: nat where "WARNING = 30"
definition ERROR :: nat where "ERROR = 40"
definition CRITICAL :: nat where "CRITICAL = 50"

definition VALID_LEVELS :: "(string, nat) dict" where
  "VALID_LEVELS = [(''DEBUG'', DEBUG), (''INFO'', INFO), (''WARNING'', WARNING), (''ERROR'', ERROR), (''CRITICAL'', CRITICAL)]"

text \<open>\<open>env\<close> is \<^verbatim>\<open>NEUDC_LOG_LEVEL\<close>. \<open>upper_char\<close> changes ASCII letters only; the other characters
  of the code page do not become letters of a level's name.\<close>

definition resolve_level :: "string option \<Rightarrow> bool \<Rightarrow> nat" where
  "resolve_level env verbose =
     (case dget VALID_LEVELS (map upper_char (case env of None \<Rightarrow> [] | Some s \<Rightarrow> s)) of
        Some l \<Rightarrow> l
      | None \<Rightarrow> if verbose then INFO else ERROR)"

text \<open>\<^verbatim>\<open>string.encode("utf-8").decode("ascii", "ignore")\<close>: what is not ASCII is left out.\<close>

definition emojis :: "bool \<Rightarrow> string \<Rightarrow> string" where
  "emojis windows s = (if windows then filter (\<lambda>c. code c < 128) s else s)"

section \<open>Loggers\<close>

text \<open>The handlers of the loggers, by name, are the state of the module \<^verbatim>\<open>logging\<close>; a logger that is asked
  for is created. A stream handler has the formatter that keeps ASCII only, or the plain one.\<close>

datatype log_handler =
    Stream_handler (handler_ascii: bool) (handler_level: nat)
  | File_handler (handler_path: string) (handler_level: nat)

record logger =
  lg_level :: nat
  lg_handlers :: "log_handler list"
  lg_propagate :: bool

type_synonym loggers = "(string, logger) dict"

definition get_logger :: "string \<Rightarrow> loggers \<Rightarrow> logger" where
  "get_logger name ls = (case dget ls name of Some l \<Rightarrow> l | None \<Rightarrow> \<lparr>lg_level = 0, lg_handlers = [], lg_propagate = True\<rparr>)"

text \<open>The standard output: its encoding if it has one, whether it can be reconfigured and whether it has
  a buffer; the two calls return nothing of interest, or raise.\<close>

record 'w stdout_api =
  so_encoding :: "string option"
  so_reconfigure :: "('w, unit) io option"
  so_wrap_buffer :: "('w, unit) io option"

definition stream_formatter :: "bool \<Rightarrow> 'w stdout_api \<Rightarrow> ('w, bool) io" where
  "stream_formatter windows S =
     (if windows \<and> (case so_encoding S of None \<Rightarrow> False | Some e \<Rightarrow> e \<noteq> ''utf-8'')
      then catch_exn (case so_reconfigure S of
          Some m \<Rightarrow> bnd m (\<lambda>_. ret False)
        | None \<Rightarrow> (case so_wrap_buffer S of
              Some m \<Rightarrow> bnd m (\<lambda>_. ret False)
            | None \<Rightarrow> ret True)) is_Exception (\<lambda>_. ret True)
      else ret False)"

text \<open>\<open>open_file\<close> is what \<^verbatim>\<open>RotatingFileHandler\<close> does when it is made: it opens the file, or raises.\<close>

definition set_logging :: "bool \<Rightarrow> string option \<Rightarrow> 'w stdout_api \<Rightarrow> (string \<Rightarrow> ('w, unit) io) \<Rightarrow> string \<Rightarrow> bool \<Rightarrow> string option \<Rightarrow>
    (loggers \<times> 'w, logger) io" where
  "set_logging windows env S open_file name verbose output =
     (let level = resolve_level env verbose in
      bnd (lift_w (stream_formatter windows S)) (\<lambda>ascii.
      seq (on_self (\<lambda>ls. let l = get_logger name ls in
         dset name (l\<lparr>lg_level := level, lg_handlers := lg_handlers l @ [Stream_handler ascii level], lg_propagate := False\<rparr>) ls)) (
      seq (case output of
          None \<Rightarrow> ret ()
        | Some path \<Rightarrow>
            if path = [] then ret ()
            else seq (lift_w (open_file path)) (on_self (\<lambda>ls. let l = get_logger name ls in
              dset name (l\<lparr>lg_handlers := lg_handlers l @ [File_handler path level]\<rparr>) ls)))
        (bnd self (\<lambda>ls. ret (get_logger name ls))))))"

definition LOGGING_NAME :: string where
  "LOGGING_NAME = ''neudc''"

text \<open>The module's own logger, and the two libraries that are silenced.\<close>

definition import_logger :: "bool \<Rightarrow> string option \<Rightarrow> string option \<Rightarrow> 'w stdout_api \<Rightarrow> (string \<Rightarrow> ('w, unit) io) \<Rightarrow> (loggers \<times> 'w, logger) io" where
  "import_logger windows env log_file S open_file =
     bnd (set_logging windows env S open_file LOGGING_NAME True log_file) (\<lambda>l.
     seq (for_each [''sentry_sdk'', ''urllib3.connectionpool''] (\<lambda>n. on_self (\<lambda>ls.
       dset n ((get_logger n ls)\<lparr>lg_level := CRITICAL + 1\<rparr>) ls))) (ret l))"

text \<open>What a logger hands to its handlers: the records of a level at or above its own and the handler's.
  A stream handler writes the text through its formatter.\<close>

definition emits :: "logger \<Rightarrow> nat \<Rightarrow> log_handler list" where
  "emits l lv = (if lv < lg_level l then [] else filter (\<lambda>h. handler_level h \<le> lv) (lg_handlers l))"

datatype trt_severity = INTERNAL_ERROR | TRT_ERROR | TRT_WARNING | TRT_INFO | TRT_VERBOSE

text \<open>\<^verbatim>\<open>TRT_LOGGING_MAP.get(severity, logging.INFO)\<close>; another severity is None.\<close>

definition trt_level :: "trt_severity option \<Rightarrow> nat" where
  "trt_level s = (case s of
      Some INTERNAL_ERROR \<Rightarrow> CRITICAL
    | Some TRT_ERROR \<Rightarrow> ERROR
    | Some TRT_WARNING \<Rightarrow> WARNING
    | Some TRT_INFO \<Rightarrow> INFO
    | Some TRT_VERBOSE \<Rightarrow> DEBUG
    | None \<Rightarrow> INFO)"

section \<open>Where metrics are read from\<close>

text \<open>\<^verbatim>\<open>PROMETHEUS_MULTIPROC_DIR\<close> selects a registry over the files of a directory; the collector, which may
  refuse the directory, is an argument.\<close>

definition build_metrics_registry :: "string option \<Rightarrow> ('w, 'r) io \<Rightarrow> ('r \<Rightarrow> string \<Rightarrow> ('w, unit) io) \<Rightarrow> ('w, 'r option) io" where
  "build_metrics_registry env new_registry multiprocess_collector = (case env of
      None \<Rightarrow> ret None
    | Some d \<Rightarrow>
        if d = [] then ret None
        else bnd new_registry (\<lambda>r. seq (multiprocess_collector r d) (ret (Some r))))"

section \<open>Compiling a model\<close>

text \<open>What \<^verbatim>\<open>torch_compile\<close> returns: its first argument, the function \<^verbatim>\<open>torch.jit.script\<close>, the identity, or
  what \<^verbatim>\<open>torch.compile\<close> makes of the arguments. \<open>is_module\<close> says whether a value is a \<^verbatim>\<open>torch.nn.Module\<close>.\<close>

datatype 'm compiled = Unchanged 'm | Jit_script | Identity | Compiled 'm

definition torch_compile :: "(('m list \<Rightarrow> ('w, 'm) io) option) \<Rightarrow> bool \<Rightarrow> ('m \<Rightarrow> bool) \<Rightarrow> 'm list \<Rightarrow> ('w, 'm compiled) io" where
  "torch_compile compile windows is_module args = (case compile of
      None \<Rightarrow> (case args of
          m # _ \<Rightarrow> ret (if is_module m then Unchanged m else Jit_script)
        | [] \<Rightarrow> ret Jit_script)
    | Some c \<Rightarrow>
        if windows then (case args of
            m # _ \<Rightarrow> ret (if is_module m then Unchanged m else Identity)
          | [] \<Rightarrow> ret Identity)
        else bnd (c args) (\<lambda>m. ret (Compiled m)))"

section \<open>Command lines\<close>

record voice_args =
  va_config :: "string option"
  va_list :: bool
  va_smoke :: bool
  va_skip_health_check :: bool
  va_api_port :: nat
  va_pipeline_name :: "string option"
  va_speaker_sample_rate :: nat
  va_no_api :: bool

definition default_voice_args :: voice_args where
  "default_voice_args = \<lparr>va_config = None, va_list = False, va_smoke = False, va_skip_health_check = False,
     va_api_port = 8000, va_pipeline_name = None, va_speaker_sample_rate = 22050, va_no_api = False\<rparr>"

text \<open>\<^verbatim>\<open>Path(p).stem\<close>: the last part without its last suffix; a leading dot is not a suffix.\<close>

definition last_part :: "string \<Rightarrow> string" where
  "last_part p = rev (takeWhile (\<lambda>c. c \<noteq> CHR ''/'') (dropWhile (\<lambda>c. c = CHR ''/'') (rev p)))"

definition path_stem :: "string \<Rightarrow> string" where
  "path_stem p = (let n = last_part p; rest = rev (dropWhile (\<lambda>c. c \<noteq> CHR ''.'') (rev n)) in
     if length rest \<le> 1 \<or> length rest = length n then n else butlast rest)"

definition pipeline_name_of :: "voice_args \<Rightarrow> string \<Rightarrow> string" where
  "pipeline_name_of a config_path = (case given_text (va_pipeline_name a) of
      Some n \<Rightarrow> n
    | None \<Rightarrow> map (\<lambda>c. if c = CHR ''_'' then CHR ''-'' else c) (path_stem config_path))"

definition api_base_url :: "voice_args \<Rightarrow> string" where
  "api_base_url a = ''http://127.0.0.1:'' @ show_nat (va_api_port a)"

text \<open>\<^verbatim>\<open>main\<close> of the voice assistant from the parsed arguments on; \<open>run\<close> is what follows, by name and
  path (\<open>voice_main\<close>). Listing the configurations ends it.\<close>

definition voice_entry :: "string list \<Rightarrow> bool \<Rightarrow> ('w, string) io \<Rightarrow> (string \<Rightarrow> ('w, unit) io) \<Rightarrow>
    (string \<Rightarrow> string \<Rightarrow> ('w, unit) io) \<Rightarrow> voice_args \<Rightarrow> ('w, unit) io" where
  "voice_entry configs tty ask print_line run a =
     (if va_list a then for_each configs print_line
      else bnd (pick_config (va_config a) configs tty ask) (\<lambda>path. run (pipeline_name_of a path) path))"

record api_args =
  aa_host :: string
  aa_port :: nat

definition default_api_args :: api_args where
  "default_api_args = \<lparr>aa_host = ''127.0.0.1'', aa_port = 8000\<rparr>"

definition api_main :: "('w, 'app) io \<Rightarrow> ('app \<Rightarrow> string \<Rightarrow> nat \<Rightarrow> ('w, unit) io) \<Rightarrow> api_args \<Rightarrow> ('w, unit) io" where
  "api_main create serve a = bnd create (\<lambda>app. serve app (aa_host a) (aa_port a))"

section \<open>Properties\<close>

lemma resolve_level_valid: "resolve_level env verbose \<in> {DEBUG, INFO, WARNING, ERROR, CRITICAL}"
  by (auto simp: resolve_level_def VALID_LEVELS_def split: option.splits if_splits)

text \<open>Without a level in the environment the logger is at INFO, or at ERROR when it is not verbose:
  DEBUG is reached through the environment alone.\<close>

lemma default_level: "resolve_level None verbose = (if verbose then INFO else ERROR)"
  by (simp add: resolve_level_def VALID_LEVELS_def)

lemma level_is_case_insensitive: "resolve_level (Some ''Debug'') verbose = DEBUG"
proof -
  have "map upper_char ''Debug'' = ''DEBUG''" by code_simp
  then show ?thesis by (simp add: resolve_level_def VALID_LEVELS_def)
qed

text \<open>Every call adds a handler: a logger that is set up twice writes each line twice.\<close>

lemma set_logging_adds_handler:
  assumes "set_logging windows env S open_file name verbose None (ls, w) = (Inr l, ls', w')"
  shows "\<exists>ascii. lg_handlers l = lg_handlers (get_logger name ls) @ [Stream_handler ascii (resolve_level env verbose)]
    \<and> get_logger name ls' = l \<and> lg_level l = resolve_level env verbose \<and> \<not> lg_propagate l"
  using assms
  by (auto simp: set_logging_def bnd_Inr_iff seq_Inr_iff Let_def get_logger_def)

lemma set_up_twice_writes_twice:
  assumes "set_logging False env S open_file name verbose None (ls, w) = (Inr l, ls1, w1)"
    and "set_logging False env S open_file name verbose None (ls1, w1) = (Inr l2, ls2, w2)"
    and "dget ls name = None" and "resolve_level env verbose \<le> lv"
  shows "length (emits l lv) = 1 \<and> length (emits l2 lv) = 2"
proof -
  obtain a where 1: "lg_handlers l = lg_handlers (get_logger name ls) @ [Stream_handler a (resolve_level env verbose)]"
    "get_logger name ls1 = l" "lg_level l = resolve_level env verbose"
    using set_logging_adds_handler [OF assms(1)] by blast
  obtain b where 2: "lg_handlers l2 = lg_handlers l @ [Stream_handler b (resolve_level env verbose)]"
    "lg_level l2 = resolve_level env verbose"
    using set_logging_adds_handler [OF assms(2)] 1(2) by auto
  show ?thesis using 1 2 assms(3,4) by (simp add: emits_def get_logger_def)
qed

text \<open>Outside Windows the text is kept; there a standard output that cannot be switched to UTF-8 gets
  the formatter that drops what is not ASCII, and no exception of the attempt gets out.\<close>

lemma formatter_falls_back: "\<exists>b w'. stream_formatter windows S w = (Inr b, w')
    \<or> (\<exists>e. \<not> is_Exception e \<and> stream_formatter windows S w = (Inl e, w'))"
  by (auto simp: stream_formatter_def catch_exn_def bnd_def split: option.splits prod.splits sum.splits)

lemma emojis_ascii: "list_all (\<lambda>c. code c < 128) (emojis True s) \<and> emojis True (emojis True s) = emojis True s"
  by (simp add: emojis_def list_all_iff)

text \<open>A file that cannot be opened ends the import of the module, with the stream handler in place.\<close>

lemma log_file_refused:
  assumes "open_file path w = (Inl e, w')" and "path \<noteq> []"
  shows "fst (import_logger False env (Some path) S open_file (ls, w)) = Inl e"
  using assms by (simp add: import_logger_def set_logging_def stream_formatter_def bnd_def seq_def Let_def)

text \<open>The levels of TensorRT keep their order.\<close>

lemma trt_levels_ordered:
  "trt_level (Some TRT_VERBOSE) < trt_level (Some TRT_INFO) \<and> trt_level (Some TRT_INFO) < trt_level (Some TRT_WARNING) \<and>
   trt_level (Some TRT_WARNING) < trt_level (Some TRT_ERROR) \<and> trt_level (Some TRT_ERROR) < trt_level (Some INTERNAL_ERROR)"
  by (simp add: trt_level_def DEBUG_def INFO_def WARNING_def ERROR_def CRITICAL_def)

text \<open>A module is compiled nowhere but with PyTorch 2 outside Windows, and comes back as it is elsewhere.\<close>

lemma torch_compile_module:
  assumes "is_module m" and "c (m # ms) w = (r, w')"
  shows "torch_compile (Some c) False is_module (m # ms) w = ((case r of Inl e \<Rightarrow> Inl e | Inr x \<Rightarrow> Inr (Compiled x)), w')"
    and "torch_compile (Some c) True is_module (m # ms) w = (Inr (Unchanged m), w)"
    and "torch_compile None windows is_module (m # ms) w = (Inr (Unchanged m), w)"
  using assms by (auto simp: torch_compile_def bnd_def split: sum.splits)

text \<open>The name on the dashboard.\<close>

lemma pipeline_name_examples:
  "pipeline_name_of default_voice_args ''assets/configs/voice_assistant_pipeline.yaml'' = ''voice-assistant-pipeline''"
  "pipeline_name_of (default_voice_args\<lparr>va_pipeline_name := Some ''demo_a''\<rparr>) ''x.yaml'' = ''demo_a''"
  by (simp_all add: pipeline_name_of_def default_voice_args_def given_text_def path_stem_def last_part_def Let_def)

lemma listing_starts_nothing:
  "va_list a \<Longrightarrow> voice_entry configs tty ask print_line run a = for_each configs print_line"
  by (simp add: voice_entry_def)

end
