(* ===== verification/Metrics_Feed.thy ===== *)
theory Metrics_Feed
  imports Catalog Setup Batch_Inference
begin

text \<open>
  The two routes the metrics leave the control plane by (\<^verbatim>\<open>service/api/routes/observability.py\<close> with
  \<^verbatim>\<open>service/api/metrics.py\<close>): the text of \<^verbatim>\<open>/metrics\<close> and the feed over a WebSocket. The registries of
  \<^verbatim>\<open>prometheus_client\<close>, its text format, the socket and the event loop's sleep are arguments.
\<close>

section \<open>The routes\<close>

definition active_registry :: "string option \<Rightarrow> ('w, 'r) io \<Rightarrow> ('r \<Rightarrow> string \<Rightarrow> ('w, unit) io) \<Rightarrow> 'r \<Rightarrow> ('w, 'r) io" where
  "active_registry env new_registry multiprocess_collector REGISTRY =
     bnd (build_metrics_registry env new_registry multiprocess_collector) (\<lambda>r. ret (case r of None \<Rightarrow> REGISTRY | Some x \<Rightarrow> x))"

definition get_metrics :: "('w, 'r) io \<Rightarrow> ('r \<Rightarrow> ('w, 'b) io) \<Rightarrow> ('w, 'b) io" where
  "get_metrics active generate_latest = bnd active generate_latest"

definition feed_snapshot :: "('w, 'r) io \<Rightarrow> ('r \<Rightarrow> ('w, metric_family list) io) \<Rightarrow> ('w, (string, (string, real) dict) dict) io" where
  "feed_snapshot active collect = bnd active (\<lambda>r. bnd (collect r) (\<lambda>fs. ret (snapshot_metrics fs)))"

text \<open>A turn of the feed either goes on or ends with what was raised; there is no other way out.\<close>

definition feed_turn :: "('w, 's) io \<Rightarrow> ('s \<Rightarrow> ('w, unit) io) \<Rightarrow> ('w, unit) io \<Rightarrow> 'w \<Rightarrow> ('w + exn \<times> 'w) option" where
  "feed_turn snapshot send nap w = Some (case bnd snapshot (\<lambda>s. seq (send s) nap) w of
      (Inl e, w') \<Rightarrow> Inr (e, w')
    | (Inr _, w') \<Rightarrow> Inl w')"

definition stream_metrics :: "('w, unit) io \<Rightarrow> ('w, 's) io \<Rightarrow> ('s \<Rightarrow> ('w, unit) io) \<Rightarrow> ('w, unit) io \<Rightarrow> (exn \<Rightarrow> bool) \<Rightarrow> 'w \<Rightarrow>
    ((exn + unit) \<times> 'w) option" where
  "stream_metrics accept snapshot send nap is_disconnect w = (case accept w of
      (Inl e, w1) \<Rightarrow> Some (Inl e, w1)
    | (Inr _, w1) \<Rightarrow> (case loop (feed_turn snapshot send nap) w1 of
          None \<Rightarrow> None
        | Some (e, w2) \<Rightarrow> Some (if is_disconnect e then Inr () else Inl e, w2)))"

section \<open>Properties\<close>

text \<open>Both routes read the same registry: the one over the directory when it is configured, however
  often they are called, else the default one.\<close>

lemma active_registry_default:
  "env = None \<or> env = Some [] \<Longrightarrow> active_registry env new_registry mc REGISTRY w = (Inr REGISTRY, w)"
  by (auto simp: active_registry_def build_metrics_registry_def bnd_def)

lemma active_registry_multiprocess:
  assumes "new_registry w = (Inr r, w1)" and "mc r d w1 = (x, w2)" and "d \<noteq> []"
  shows "active_registry (Some d) new_registry mc REGISTRY w = ((case x of Inl e \<Rightarrow> Inl e | Inr _ \<Rightarrow> Inr r), w2)"
  using assms by (auto simp: active_registry_def build_metrics_registry_def bnd_def seq_def split: sum.splits)

text \<open>What a client gets is the collection of its moment: the snapshots sent are those of the families
  collected, one for one. \<open>C\<close> reads off the world what was collected and \<open>S\<close> what was sent.\<close>

definition feed_ok :: "('w, metric_family list) io \<Rightarrow> ((string, (string, real) dict) dict \<Rightarrow> ('w, unit) io) \<Rightarrow> ('w, unit) io \<Rightarrow>
    ('w \<Rightarrow> metric_family list list) \<Rightarrow> ('w \<Rightarrow> (string, (string, real) dict) dict list) \<Rightarrow> bool" where
  "feed_ok collect send nap C S \<longleftrightarrow>
     (\<forall>w. C (snd (collect w)) = C w @ (case fst (collect w) of Inr fs \<Rightarrow> [fs] | Inl _ \<Rightarrow> []) \<and> S (snd (collect w)) = S w) \<and>
     (\<forall>w s. C (snd (send s w)) = C w \<and> S (snd (send s w)) = S w @ (case fst (send s w) of Inr _ \<Rightarrow> [s] | Inl _ \<Rightarrow> [])) \<and>
     (\<forall>w. C (snd (nap w)) = C w \<and> S (snd (nap w)) = S w)"

lemma feed_turn_logs:
  assumes "feed_ok collect send nap C S" and "feed_turn (bnd collect (\<lambda>fs. ret (snapshot_metrics fs))) send nap w = Some x"
    and "S w = map snapshot_metrics (C w)"
  shows "case x of Inl w' \<Rightarrow> S w' = map snapshot_metrics (C w')
    | Inr (e, w') \<Rightarrow> S w' = map snapshot_metrics (C w') \<or> S w' = map snapshot_metrics (butlast (C w'))"
proof -
  obtain c w1 where c: "collect w = (c, w1)" by fastforce
  have 1: "C w1 = C w @ (case c of Inr fs \<Rightarrow> [fs] | Inl _ \<Rightarrow> [])" "S w1 = S w"
    using assms(1) c unfolding feed_ok_def by (metis fst_conv snd_conv)+
  show ?thesis
  proof (cases c)
    case (Inl e)
    then show ?thesis using assms(2,3) 1 by (auto simp: feed_turn_def bnd_def c)
  next
    case (Inr fs)
    obtain s w2 where s: "send (snapshot_metrics fs) w1 = (s, w2)" by fastforce
    have 2: "C w2 = C w1" "S w2 = S w1 @ (case s of Inr _ \<Rightarrow> [snapshot_metrics fs] | Inl _ \<Rightarrow> [])"
      using assms(1) s unfolding feed_ok_def by (metis fst_conv snd_conv)+
    obtain n w3 where n: "nap w2 = (n, w3)" by fastforce
    have 3: "C w3 = C w2" "S w3 = S w2"
      using assms(1) n unfolding feed_ok_def by (metis snd_conv)+
    show ?thesis using assms(2,3) 1 2 3 Inr
      by (cases s; cases n) (auto simp: feed_turn_def bnd_def seq_def c s n)
  qed
qed

text \<open>The feed ends at the first call that raises: quietly when the client has gone, otherwise with the
  exception. All but possibly the last of the collected snapshots have been sent by then.\<close>

lemma feed_sends_what_it_collects:
  assumes "feed_ok collect send nap C S" and "S w = [] \<and> C w = []"
    and "accept w = (Inr (), w1)" and "S w1 = S w \<and> C w1 = C w"
    and "stream_metrics accept (bnd collect (\<lambda>fs. ret (snapshot_metrics fs))) send nap is_disconnect w = Some (r, w')"
  shows "S w' = map snapshot_metrics (C w') \<or> S w' = map snapshot_metrics (butlast (C w'))"
proof -
  obtain e where l: "loop (feed_turn (bnd collect (\<lambda>fs. ret (snapshot_metrics fs))) send nap) w1 = Some (e, w')"
    using assms(3,5) by (auto simp: stream_metrics_def split: option.splits)
  have "(\<lambda>(e, v). S v = map snapshot_metrics (C v) \<or> S v = map snapshot_metrics (butlast (C v))) (e, w')"
  proof (rule loop_rule [OF l, where I = "\<lambda>v. S v = map snapshot_metrics (C v)"])
    show "S w1 = map snapshot_metrics (C w1)" using assms(2,4) by simp
  qed (use feed_turn_logs [OF assms(1)] in fastforce)+
  then show ?thesis by simp
qed

text \<open>It ends when the client goes: \<open>room\<close> is the number of sends the socket still takes, which the other
  calls do not change.\<close>

lemma feed_ends:
  assumes "\<And>v s v'. send s v = (Inr (), v') \<Longrightarrow> room v' < (room v :: nat)"
    and "\<And>v x v'. snapshot v = (x, v') \<Longrightarrow> room v' = room v" and "\<And>v x v'. nap v = (x, v') \<Longrightarrow> room v' = room v"
  shows "\<exists>r. stream_metrics accept snapshot send nap is_disconnect w = Some r"
proof -
  have "\<exists>r. loop (feed_turn snapshot send nap) w1 = Some r" for w1
  proof (rule loop_ends [where I = "\<lambda>_. True" and m = room])
    show "True \<and> room t < room s" if "feed_turn snapshot send nap s = Some (Inl t)" for s t
    proof -
      have "bnd snapshot (\<lambda>x. seq (send x) nap) s = (Inr (), t)"
        using that by (simp add: feed_turn_def split: prod.splits sum.splits)
      then obtain x v where 1: "snapshot s = (Inr x, v)" "seq (send x) nap v = (Inr (), t)"
        unfolding bnd_Inr_iff by blast
      then obtain v2 where 2: "send x v = (Inr (), v2)" "nap v2 = (Inr (), t)" by (auto simp: seq_Inr_iff)
      show ?thesis using assms(1) [OF 2(1)] assms(2) [OF 1(1)] assms(3) [OF 2(2)] by simp
    qed
  qed (simp_all add: feed_turn_def)
  moreover obtain a w1 where "accept w = (a, w1)" by fastforce
  moreover from calculation(1) obtain e w2 where "loop (feed_turn snapshot send nap) w1 = Some (e, w2)" by fastforce
  ultimately show ?thesis by (cases a) (simp_all add: stream_metrics_def)
qed

text \<open>While nothing raises it never ends.\<close>

lemma feed_never_ends:
  assumes "\<And>v. \<exists>x v'. snapshot v = (Inr x, v')" and "\<And>s v. \<exists>v'. send s v = (Inr (), v')" and "\<And>v. \<exists>v'. nap v = (Inr (), v')"
    and "accept w = (Inr (), w1)"
  shows "stream_metrics accept snapshot send nap is_disconnect w = None"
proof (cases "loop (feed_turn snapshot send nap) w1")
  case None
  then show ?thesis by (simp add: stream_metrics_def assms(4))
next
  case (Some r)
  have "(\<lambda>_. False) r"
  proof (rule loop_rule [OF Some, where I = "\<lambda>_. True"])
    show False if "feed_turn snapshot send nap s = Some (Inr y)" for s y
    proof -
      obtain x v where 1: "snapshot s = (Inr x, v)" using assms(1) by blast
      obtain v2 where 2: "send x v = (Inr (), v2)" using assms(2) by blast
      obtain v3 where 3: "nap v2 = (Inr (), v3)" using assms(3) by blast
      show ?thesis using that 1 2 3 by (simp add: feed_turn_def bnd_def seq_def)
    qed
  qed simp_all
  then show ?thesis by simp
qed

end
