(* ===== verification/Payload_Types.thy ===== *)
theory Payload_Types
  imports Config_Schema Media_Nodes Vad Agent_Tool Tools
begin

text \<open>
  What the declared payload types of the node classes (\<^verbatim>\<open>accepts\<close>, \<^verbatim>\<open>emits\<close>) are worth at run time.
  The configuration schema compares them along every edge; here the processing of the nodes of the
  speech chain is held against them, and with it the messages that travel an accepted graph.
\<close>

section \<open>What a node emits\<close>

text \<open>The calls the nodes make of their backends and devices.\<close>

record ('w, 'i) voice_kit =
  vk_clock :: "('w, real) io"
  vk_transcribe :: "ndarray \<Rightarrow> int \<Rightarrow> ('w, string) io"
  vk_llm :: "('w, 'i) llm_backend"
  vk_synthesize :: "string \<Rightarrow> ('w, ndarray \<times> int) io"
  vk_vad :: "'w vad_env"
  vk_cancelled :: "string option \<Rightarrow> int option \<Rightarrow> ('w, bool) io"
  vk_write :: "ndarray \<Rightarrow> ('w, unit) io"
  vk_interval :: real
  vk_loads :: "string \<Rightarrow> exn + yaml"
  vk_tools :: "'w tools"
  vk_read :: "int \<Rightarrow> ('w, ndarray option) io"
  vk_stop :: "('w, unit) io"
  vk_show :: "yaml \<Rightarrow> string"

text \<open>\<open>m\<close> leaves a node of the class while it works on \<open>i\<close>, in whatever state it is: the result of a
  call, or what a generator yields at any of its positions.\<close>

inductive emitted_by :: "('w, 'i) voice_kit \<Rightarrow> string \<Rightarrow> message \<Rightarrow> message \<Rightarrow> bool" for K where
  asr_emits: "asr_process (vk_clock K) (vk_transcribe K) i s = (Inr (Some m), s') \<Longrightarrow> emitted_by K ''AsrNode'' i m"
| llm_emits: "gen_next (llm_process (vk_clock K) (vk_llm K)) g s = (Inr (Some (m, g')), s') \<Longrightarrow> emitted_by K ''LlmNode'' i m"
| tts_emits: "tts_process (vk_clock K) (vk_synthesize K) i s = (Inr (Some m), s') \<Longrightarrow> emitted_by K ''TtsNode'' i m"
| vad_emits: "vad_process (vk_vad K) i s = (Inr (Some m), s') \<Longrightarrow> emitted_by K ''VadNode'' i m"
| player_emits: "gen_next (audio_player (vk_cancelled K) (vk_write K) (vk_clock K) (vk_interval K)) g s = (Inr (Some (m, g')), s') \<Longrightarrow>
    emitted_by K ''AudioPlayerNode'' i m"
| normalize_emits: "text_normalize i s = (Inr m, s' :: 'w) \<Longrightarrow> emitted_by K ''TextNormalizeNode'' i m"
| agent_emits: "agent_process (vk_loads K) (vk_tools K) i s = (Inr m, s') \<Longrightarrow> emitted_by K ''AgentToolNode'' i m"

text \<open>What a node emits of its own accord: the chunks of the microphone, the reminders of a timer.\<close>

inductive sourced_by :: "('w, 'i) voice_kit \<Rightarrow> string \<Rightarrow> message \<Rightarrow> bool" for K where
  reader_sources: "read_audio (vk_read K) (vk_stop K) (vk_clock K) r w = (Inr (Some m), w') \<Longrightarrow> sourced_by K ''AudioReaderNode'' m"
| timer_sources: "timer_fire (vk_show K) (lift_w (vk_clock K)) (\<lambda>x. on_self (\<lambda>q. q @ [x])) sid label ([], w) = (r, (q, w')) \<Longrightarrow>
    m \<in> set q \<Longrightarrow> sourced_by K ''AgentToolNode'' m"

section \<open>Messages in a graph\<close>

inductive arrives :: "(string \<Rightarrow> message \<Rightarrow> bool) \<Rightarrow> (string \<Rightarrow> message \<Rightarrow> message \<Rightarrow> bool) \<Rightarrow> node_spec list \<Rightarrow> message \<Rightarrow> node_spec \<Rightarrow> bool"
  for sourced emitted ns where
  from_source: "n \<in> set ns \<Longrightarrow> sourced (ns_type n) m \<Longrightarrow> ns_id k \<in> set (ns_outputs n) \<Longrightarrow> k \<in> set ns \<Longrightarrow> arrives sourced emitted ns m k"
| passed_on: "arrives sourced emitted ns i n \<Longrightarrow> emitted (ns_type n) i m \<Longrightarrow> ns_id k \<in> set (ns_outputs n) \<Longrightarrow> k \<in> set ns \<Longrightarrow>
    arrives sourced emitted ns m k"

definition payload_in :: "message \<Rightarrow> message_class list \<Rightarrow> bool" where
  "payload_in m cs \<longleftrightarrow> (\<exists>c \<in> set cs. isinstance m c)"

text \<open>The contract of the declarations: a node emits what its class declares, as long as it is given
  what its class accepts.\<close>

locale payload_contract =
  fixes sourced :: "string \<Rightarrow> message \<Rightarrow> bool" and emitted :: "string \<Rightarrow> message \<Rightarrow> message \<Rightarrow> bool"
  assumes sourced_declared: "sourced ty m \<Longrightarrow> payload_in m (class_emits ty)"
    and emitted_declared: "payload_in i (class_accepts ty) \<Longrightarrow> emitted ty i m \<Longrightarrow> payload_in m (class_emits ty)"
begin

text \<open>A declaration names one class, so a pair of compatible declarations is compatible in every
  message.\<close>

lemma declared_delivery:
  assumes "payload_in m (class_emits ty)"
    and "\<exists>e \<in> set (class_emits ty). \<exists>a \<in> set (class_accepts ty'). issubclass e a"
  shows "payload_in m (class_accepts ty')"
proof -
  have "\<exists>e. class_emits ty = [e]" by (simp add: class_emits_def)
  then obtain e where "class_emits ty = [e]" ..
  then show ?thesis using assms by (auto simp: payload_in_def isinstance_def issubclass_def)
qed

lemma edge_compatible:
  assumes "distinct (map ns_id ns)" and "\<forall>n \<in> set ns. valid_node ns n"
    and "n \<in> set ns" and "k \<in> set ns" and "ns_id k \<in> set (ns_outputs n)"
  shows "\<exists>e \<in> set (class_emits (ns_type n)). \<exists>a \<in> set (class_accepts (ns_type k)). issubclass e a"
proof -
  obtain k' where "k' \<in> set ns" "ns_id k' = ns_id k"
    "\<exists>e \<in> set (class_emits (ns_type n)). \<exists>a \<in> set (class_accepts (ns_type k')). issubclass e a"
    using assms(2,3,5) unfolding valid_node_def by blast
  moreover have "k' = k" using calculation(1,2) assms(1,4) by (auto simp: distinct_map inj_on_def)
  ultimately show ?thesis by simp
qed

lemma arriving_payload:
  assumes "distinct (map ns_id ns)" and "\<forall>n \<in> set ns. valid_node ns n" and "arrives sourced emitted ns m k"
  shows "k \<in> set ns \<and> payload_in m (class_accepts (ns_type k))"
  using assms(3)
proof (induction rule: arrives.induct)
  case (from_source n m k)
  then show ?case
    using declared_delivery [OF sourced_declared edge_compatible [OF assms(1,2)]] by blast
next
  case (passed_on i n m k)
  then show ?case
    using declared_delivery [OF emitted_declared edge_compatible [OF assms(1,2)]] by blast
qed

end

section \<open>The speech chain keeps the contract\<close>

lemma lift_w_out: "lift_w c s = (Inr x, s') \<longleftrightarrow> (\<exists>w'. c (snd s) = (Inr x, w') \<and> s' = (fst s, w'))"
  by (cases s; cases "c (snd s)") auto

lemma emit_text_class: "emit_text clock src txt sid tid fin w = (Inr m, w') \<Longrightarrow> class_of m = TextChunk_c"
  by (auto simp: emit_text_def bnd_Inr_iff)

lemma asr_class: "asr_process clock transcribe i s = (Inr (Some m), s') \<Longrightarrow> class_of m = TextChunk_c"
  by (auto simp: asr_process_def asr_flush_def bnd_Inr_iff seq_Inr_iff lift_w_out
      split: if_splits option.splits dest: emit_text_class)

lemma make_chunk_class: "make_chunk clock i txt fin s = (Inr m, s') \<Longrightarrow> class_of m = TextChunk_c"
  by (auto simp: make_chunk_def bnd_Inr_iff lift_w_out dest: emit_text_class)

lemma next_delta_class: "next_delta clock B i it ps s = (Inr (Some (m, g)), s') \<Longrightarrow> class_of m = TextChunk_c"
  by (auto simp: next_delta_def bnd_Inr_iff seq_Inr_iff split: option.splits prod.splits dest: make_chunk_class)

lemma llm_class: "gen_next (llm_process clock B) g s = (Inr (Some (m, g')), s') \<Longrightarrow> class_of m = TextChunk_c"
  by (cases g) (auto simp: llm_process_def bnd_Inr_iff seq_Inr_iff split: if_splits dest: next_delta_class make_chunk_class)

lemma tts_class: "tts_process clock synthesize i s = (Inr (Some m), s') \<Longrightarrow> class_of m = AudioChunk_c"
  by (auto simp: tts_process_def bnd_Inr_iff seq_Inr_iff Let_def split: if_splits prod.splits)

lemma vad_class: "vad_process E i s = (Inr (Some m), s') \<Longrightarrow> class_of m = AudioChunk_c"
  by (auto simp: vad_process_def bnd_Inr_iff seq_Inr_iff stamp_chunk_def split: if_splits)

lemma play_block_class: "play_block is_cancelled dev clock e c b n s = (Inr (Some (m, g)), s') \<Longrightarrow> class_of m = AudioChunk_c"
  by (auto simp: play_block_def bnd_Inr_iff seq_Inr_iff split: if_splits)

lemma player_class: "gen_next (audio_player is_cancelled dev clock v) g s = (Inr (Some (m, g')), s') \<Longrightarrow> class_of m = AudioChunk_c"
  by (cases g) (auto simp: audio_player_def bnd_Inr_iff split: if_splits dest: play_block_class)

lemma normalize_class: "text_normalize i s = (Inr m, s') \<Longrightarrow> class_of m = class_of i"
  by (auto simp: text_normalize_def split: if_splits message.splits)

lemma agent_class: "agent_process ld tools i s = (Inr m, s') \<Longrightarrow> class_of m = class_of i"
proof -
  have "class_of (set_text r i) = class_of i" for r by (cases i) (simp_all add: set_text_def)
  then show "agent_process ld tools i s = (Inr m, s') \<Longrightarrow> class_of m = class_of i"
    by (auto simp: agent_process_def bnd_Inr_iff seq_Inr_iff Let_def split_beta split: if_splits)
qed

lemma reader_class: "read_audio rd stp clock r w = (Inr (Some m), w') \<Longrightarrow> class_of m = AudioChunk_c"
  by (auto simp: read_audio_def array_len_def bnd_def seq_def split: prod.splits sum.splits option.splits if_splits list.splits)

lemma timer_class:
  assumes "timer_fire shw (lift_w clock) (\<lambda>x. on_self (\<lambda>q. q @ [x])) sid label ([], w) = (r, (q, w'))" and "m \<in> set q"
  shows "class_of m = TextChunk_c"
  using assms by (auto simp: timer_fire_def catch_exn_def bnd_def split: prod.splits sum.splits if_splits)

lemmas payload_classes = asr_class llm_class tts_class vad_class player_class normalize_class agent_class

interpretation speech: payload_contract "sourced_by K" "emitted_by K" for K :: "('w, 'i) voice_kit"
proof
  show "payload_in m (class_emits ty)" if "sourced_by K ty m" for ty m
    using that by cases (auto simp: payload_in_def class_emits_def isinstance_def issubclass_def dest: reader_class timer_class)
  show "payload_in m (class_emits ty)" if "payload_in i (class_accepts ty)" "emitted_by K ty i m" for i ty m
    using that(2,1) by cases (auto simp: payload_in_def class_emits_def class_accepts_def isinstance_def issubclass_def
        dest: payload_classes)
qed

text \<open>C12: Types are kept at run time: in an accepted configuration every message that reaches a node from
  the speech chain, over any number of hops and in any state of the nodes and backends on its way, is
  of a class the node accepts, so the attribute the node reads is there and reading it does not raise.\<close>

theorem arriving_messages_are_typed:
  assumes "validate_pipeline_config V imp raw = Inr ns" and "arrives (sourced_by K) (emitted_by K) ns m k"
  shows "payload_in m (class_accepts (ns_type k)) \<and>
    (class_accepts (ns_type k) = [TextChunk_c] \<longrightarrow> (\<exists>t. text_of m w = (Inr t, w))) \<and>
    (class_accepts (ns_type k) = [AudioChunk_c] \<longrightarrow> (\<exists>c. audio_of m w = (Inr c, w)))"
proof -
  have "payload_in m (class_accepts (ns_type k))"
    using validate_valid [OF assms(1)] speech.arriving_payload [OF _ _ assms(2)] by blast
  then show ?thesis
    by (cases m) (auto simp: payload_in_def isinstance_def issubclass_def text_of_def audio_of_def)
qed

section \<open>A closed instance\<close>

definition chain_raw :: "(string \<times> yaml) list" where
  "chain_raw = [(''nodes'', YList
     [YMap [(''id'', YStr ''mic''), (''type'', YStr ''AudioReaderNode''), (''outputs'', YList [YStr ''vad''])],
      YMap [(''id'', YStr ''vad''), (''type'', YStr ''VadNode''), (''outputs'', YList [YStr ''asr''])],
      YMap [(''id'', YStr ''asr''), (''type'', YStr ''AsrNode'')]])]"

definition chain_node :: "string \<Rightarrow> string \<Rightarrow> string list \<Rightarrow> node_spec" where
  "chain_node i ty outs = \<lparr>ns_id = i, ns_type = ty, ns_outputs = outs, ns_control_outputs = [], ns_replicas = 1,
     ns_health_timeout = None, ns_health_check_interval = None, ns_message_queue_size = 20,
     ns_queue_policy = ''block'', ns_error_policy = YNull, ns_autoscale = YNull\<rparr>"

definition chain_specs :: "node_spec list" where
  "chain_specs = [chain_node ''mic'' ''AudioReaderNode'' [''vad''], chain_node ''vad'' ''VadNode'' [''asr''],
     chain_node ''asr'' ''AsrNode'' []]"

lemma chain_accepted: "validate_pipeline_config strict_pydantic (\<lambda>_. Inr ()) (YMap chain_raw) = Inr chain_specs"
  by code_simp

definition chain_kit :: "(unit, unit) voice_kit" where
  "chain_kit = \<lparr>vk_clock = ret 0, vk_transcribe = (\<lambda>_ _. ret ''hello''),
     vk_llm = \<lparr>lb_generate = (\<lambda>_ _ _. ret []), lb_stream = (\<lambda>_ _ _. ()), lb_next = (\<lambda>_. ret None)\<rparr>,
     vk_synthesize = (\<lambda>_. ret (line [0], 16000)),
     vk_vad = \<lparr>v_clock = ret 0, v_send_control = (\<lambda>_. ret ()), v_resample = (\<lambda>xs _ _. xs)\<rparr>,
     vk_cancelled = (\<lambda>_ _. ret False), vk_write = (\<lambda>_. ret ()), vk_interval = 1,
     vk_loads = (\<lambda>_. Inl JSONDecodeError), vk_tools = [], vk_read = (\<lambda>_. ret (Some (line [1]))), vk_stop = ret (),
     vk_show = (\<lambda>_. [])\<rparr>"

lemma chain_source: "sourced_by chain_kit ''AudioReaderNode'' (mic_chunk 1)"
proof (rule reader_sources)
  show "read_audio (vk_read chain_kit) (vk_stop chain_kit) (vk_clock chain_kit)
      \<lparr>ar_sample_rate = 16000, ar_channels = 1, ar_chunk_duration = 1 / 2, ar_source = []\<rparr> () = (Inr (Some (mic_chunk 1)), ())"
    by (simp add: read_audio_def chain_kit_def try_exn_def bnd_def array_len_def line_def mic_chunk_def new_envelope_def)
qed

lemma chain_speech: "\<exists>m. emitted_by chain_kit ''VadNode'' (mic_chunk 1) m"
proof -
  obtain v where v: "new_vad (1/100) [] None 1 False 1 (1/2) 16000 = Inr v" and c: "cur_turn v = 0" and a: "\<not> aec_enabled v"
    by (simp add: new_vad_def new_canceller_def)
  have "\<exists>s. on_energy (vk_vad chain_kit) (is_speech_chunk v (line [1])) (chunk_rms (line [1])) (v, ()) = (Inr (), s)"
    using c by (cases "is_speech_chunk v (line [1]) \<and> \<not> in_speech v") (auto simp: on_energy_def bnd_def seq_def)
  then obtain s where "on_energy (vk_vad chain_kit) (is_speech_chunk v (line [1])) (chunk_rms (line [1])) (v, ()) = (Inr (), s)" ..
  then obtain m where "vad_process (vk_vad chain_kit) (mic_chunk 1) (v, ()) = (Inr (Some m), s)"
    using a by (cases s) (auto simp: vad_process_def mic_chunk_def new_envelope_def REFERENCE_SOURCE_def audio_of_def clean_chunk_def bnd_def seq_def)
  then show ?thesis by (blast intro: vad_emits)
qed

theorem arriving_messages_are_typed_witness:
  "\<exists>m c. arrives (sourced_by chain_kit) (emitted_by chain_kit) chain_specs m (chain_node ''asr'' ''AsrNode'' []) \<and>
     payload_in m [AudioChunk_c] \<and> audio_of m () = (Inr c, ())"
proof -
  obtain m where m: "emitted_by chain_kit ''VadNode'' (mic_chunk 1) m" using chain_speech by blast
  have "arrives (sourced_by chain_kit) (emitted_by chain_kit) chain_specs (mic_chunk 1) (chain_node ''vad'' ''VadNode'' [''asr''])"
    by (rule from_source [where n = "chain_node ''mic'' ''AudioReaderNode'' [''vad'']"])
      (simp_all add: chain_specs_def chain_node_def chain_source)
  then have a: "arrives (sourced_by chain_kit) (emitted_by chain_kit) chain_specs m (chain_node ''asr'' ''AsrNode'' [])"
    by (rule passed_on) (simp_all add: chain_specs_def chain_node_def m)
  have "class_accepts (ns_type (chain_node ''asr'' ''AsrNode'' [])) = [AudioChunk_c]"
    by (simp add: chain_node_def class_accepts_def)
  with arriving_messages_are_typed [OF chain_accepted a, of "()"] a show ?thesis by auto
qed

end
