(* ===== verification/Api_Bodies.thy ===== *)
theory Api_Bodies
  imports Service
begin

text \<open>
  The bodies of the control plane's requests and responses (\<^verbatim>\<open>service/api/schemas.py\<close>): how a JSON value
  becomes the argument of a handler, with pydantic's coercions as the parameter they are elsewhere, and
  what a handler's result looks like to the client. A body that does not fit is answered with 422
  before the handler runs. JSON is \<open>yaml\<close>, which has the same values.
\<close>

section \<open>Requests\<close>

fun map_of_json :: "yaml \<Rightarrow> raw_dict option" where
  "map_of_json (YMap d) = Some d"
| "map_of_json _ = None"

text \<open>\<^verbatim>\<open>nodes: list[dict[str, Any]]\<close>, and an optional mapping.\<close>

definition body_nodes :: "raw_dict \<Rightarrow> raw_dict list option" where
  "body_nodes d = Option.bind (dget d ''nodes'') (list_of map_of_json)"

definition body_task :: "raw_dict \<Rightarrow> raw_dict option option" where
  "body_task d = (case dget d ''task'' of
      None \<Rightarrow> Some None
    | Some YNull \<Rightarrow> Some None
    | Some v \<Rightarrow> map_option Some (map_of_json v))"

text \<open>A model takes a mapping; keys it does not know are ignored.\<close>

definition pipeline_start_request :: "yaml \<Rightarrow> (raw_dict list \<times> raw_dict option) option" where
  "pipeline_start_request v = Option.bind (map_of_json v) (\<lambda>d.
     Option.bind (body_nodes d) (\<lambda>ns. Option.bind (body_task d) (\<lambda>t. Some (ns, t))))"

definition pipeline_register_request :: "yaml \<Rightarrow> raw_dict list option" where
  "pipeline_register_request v = Option.bind (map_of_json v) body_nodes"

definition config_validate_request :: "yaml \<Rightarrow> raw_dict list option" where
  "config_validate_request v = Option.bind (map_of_json v) body_nodes"

definition box_of_json :: "pydantic \<Rightarrow> yaml \<Rightarrow> box_spec option" where
  "box_of_json V v = Option.bind (map_of_json v) (\<lambda>d.
     case (Option.bind (dget d ''class_id'') (py_int V), Option.bind (dget d ''x_center'') (py_float V),
           Option.bind (dget d ''y_center'') (py_float V), Option.bind (dget d ''width'') (py_float V),
           Option.bind (dget d ''height'') (py_float V)) of
       (Some c, Some x, Some y, Some w, Some h) \<Rightarrow> Some \<lparr>sp_class = c, sp_x = x, sp_y = y, sp_w = w, sp_h = h\<rparr>
     | _ \<Rightarrow> None)"

definition label_update_request :: "pydantic \<Rightarrow> yaml \<Rightarrow> box_spec list option" where
  "label_update_request V v = Option.bind (map_of_json v) (\<lambda>d. Option.bind (dget d ''boxes'') (list_of (box_of_json V)))"

section \<open>Responses\<close>

definition status_text :: "pipe_status \<Rightarrow> string" where
  "status_text st = (case st of Pipe_running \<Rightarrow> ''running'' | Pipe_stopped \<Rightarrow> ''stopped'')"

definition pipeline_status_response :: "string \<times> pipe_status \<Rightarrow> yaml" where
  "pipeline_status_response = (\<lambda>(name, st). YMap [(''name'', YStr name), (''status'', YStr (status_text st))])"

definition pipeline_detail_response :: "string \<times> pipe_status \<times> raw_dict list \<Rightarrow> yaml" where
  "pipeline_detail_response = (\<lambda>(name, st, ns). YMap [(''name'', YStr name), (''status'', YStr (status_text st)),
     (''nodes'', YList (map YMap ns))])"

definition config_validate_response :: "('e \<Rightarrow> string) \<Rightarrow> bool \<times> 'e option \<Rightarrow> yaml" where
  "config_validate_response shw = (\<lambda>(valid, err). YMap [(''valid'', YBool valid),
     (''error'', case err of None \<Rightarrow> YNull | Some e \<Rightarrow> YStr (shw e))])"

definition box_json :: "box_spec \<Rightarrow> yaml" where
  "box_json b = YMap [(''class_id'', YInt (sp_class b)), (''x_center'', YFloat (sp_x b)), (''y_center'', YFloat (sp_y b)),
     (''width'', YFloat (sp_w b)), (''height'', YFloat (sp_h b))]"

definition label_frame_summary :: "frame_summary \<Rightarrow> yaml" where
  "label_frame_summary f = YMap [(''frame_id'', YStr (fs_frame_id f)), (''box_count'', YInt (int (fs_box_count f))),
     (''reviewed'', YBool (fs_reviewed f))]"

definition label_frame_detail :: "frame_detail \<Rightarrow> yaml" where
  "label_frame_detail f = YMap [(''frame_id'', YStr (fd_frame_id f)), (''boxes'', YList (map box_json (fd_boxes f))),
     (''reviewed'', YBool (fd_reviewed f))]"

section \<open>The handlers behind their bodies\<close>

definition with_body :: "(yaml \<Rightarrow> 'b option) \<Rightarrow> yaml \<Rightarrow> ('b \<Rightarrow> ('w, 'a) io) \<Rightarrow> ('w, 'a) io" where
  "with_body parse v run = (case parse v of None \<Rightarrow> raise (HTTPException 422) | Some b \<Rightarrow> run b)"

definition post_start :: "pydantic \<Rightarrow> (string \<Rightarrow> exn + unit) \<Rightarrow> ('p, 'w) process_api \<Rightarrow> string \<Rightarrow> yaml \<Rightarrow> ('p app_state \<times> 'w, yaml) io" where
  "post_start V imp A name v = with_body pipeline_start_request v (\<lambda>(ns, task).
     bnd (route_start V imp A name ns task) (\<lambda>r. ret (pipeline_status_response r)))"

definition post_register :: "pydantic \<Rightarrow> (string \<Rightarrow> exn + unit) \<Rightarrow> ('p, 'w) process_api \<Rightarrow> string \<Rightarrow> yaml \<Rightarrow> ('p app_state \<times> 'w, yaml) io" where
  "post_register V imp A name v = with_body pipeline_register_request v (\<lambda>ns.
     bnd (route_register V imp A name ns) (\<lambda>r. ret (pipeline_status_response r)))"

definition post_validate :: "pydantic \<Rightarrow> (string \<Rightarrow> exn + unit) \<Rightarrow> (config_error \<Rightarrow> string) \<Rightarrow> yaml \<Rightarrow> ('w, yaml) io" where
  "post_validate V imp shw v = with_body config_validate_request v (\<lambda>ns.
     bnd (route_validate V imp ns) (\<lambda>r. ret (config_validate_response shw r)))"

definition put_label :: "pydantic \<Rightarrow> texts \<Rightarrow> ('w, 'x) dataset_fs_scheme \<Rightarrow> path \<Rightarrow> string \<Rightarrow> string \<Rightarrow> yaml \<Rightarrow> ('p app_state \<times> 'w, yaml) io" where
  "put_label V T F cwd name fid v = with_body (label_update_request V) v (\<lambda>bs.
     bnd (route_update_label T F cwd name fid bs) (\<lambda>r. ret (label_frame_detail r)))"

section \<open>Properties\<close>

lemma all_some_map: "(\<And>x. x \<in> set xs \<Longrightarrow> f (g x) = Some x) \<Longrightarrow> all_some f (map g xs) = Some xs"
  by (induction xs) simp_all

lemma nodes_json: "list_of map_of_json (YList (map YMap ns)) = Some ns"
  by (simp add: list_of_def all_some_map)

lemma box_roundtrip: "pydantic_ok V \<Longrightarrow> box_of_json V (box_json b) = Some b"
  by (simp add: box_of_json_def box_json_def pydantic_ok_def)

text \<open>What the interface hands out it takes back: the detail of a frame is a body for its update with the
  same boxes, the detail of a pipeline one for starting or registering it with the same nodes.\<close>

lemma detail_is_update: "pydantic_ok V \<Longrightarrow> label_update_request V (label_frame_detail f) = Some (fd_boxes f)"
  by (simp add: label_update_request_def label_frame_detail_def list_of_def all_some_map box_roundtrip)

lemma detail_restarts:
  "pipeline_start_request (pipeline_detail_response (name, st, ns)) = Some (ns, None)"
  "pipeline_register_request (pipeline_detail_response (name, st, ns)) = Some ns"
  by (simp_all add: pipeline_start_request_def pipeline_register_request_def pipeline_detail_response_def body_nodes_def
      body_task_def nodes_json)

text \<open>A body that does not fit changes nothing, whatever the handler.\<close>

lemma misfit_changes_nothing: "parse v = None \<Longrightarrow> with_body parse v run w = (Inl (HTTPException 422), w)"
  by (simp add: with_body_def)

text \<open>A misfit and a configuration the schema rejects look the same to the client of \<^verbatim>\<open>start\<close>, 422, but not
  to the one of \<^verbatim>\<open>validate\<close>: the first is 422 there, the second an answer.\<close>

lemma rejected_configuration:
  assumes "config_validate_request v = Some ns"
    and "validate_pipeline_config V imp (YMap [(''nodes'', YList (map YMap ns))]) = Inl e" and "\<nexists>x. e = ImportFailure x"
  shows "post_validate V imp shw v w = (Inr (YMap [(''valid'', YBool False), (''error'', YStr (shw e))]), w)"
  using assms by (cases e) (simp_all add: post_validate_def with_body_def route_validate_def config_validate_response_def)

text \<open>Boxes are not checked to be relative: the update takes any numbers, and any class.\<close>

lemma box_out_of_range:
  "box_of_json strict_pydantic (YMap [(''class_id'', YInt (-1)), (''x_center'', YFloat 7), (''y_center'', YInt (-3)),
     (''width'', YInt 0), (''height'', YFloat 2)]) = Some \<lparr>sp_class = -1, sp_x = 7, sp_y = -3, sp_w = 0, sp_h = 2\<rparr>"
  by (simp add: box_of_json_def strict_pydantic_def)

end
