(* ===== verification/Spec2Isabelle.thy ===== *)
theory Spec2Isabelle
  imports Process_Node Pipeline Tools Vad Profilers Image_Nodes Service Catalog Media_Nodes Queue_Transfer Launch Classifiers Profiling Runtimes Batched_Crops Model_Config Network_Runs
    Batch_Inference Plots Extractor Profiler_Calls Setup Metrics_Feed Payload_Types Api_Bodies
begin

text \<open>
  A model of the pipeline orchestrator \<^verbatim>\<open>neudc\<close> (\<^verbatim>\<open>src/neudc\<close> and \<^verbatim>\<open>src/run_voice_assistant.py\<close>), and
  what is proved of it. File names below are relative to \<^verbatim>\<open>src/neudc\<close>.

  \<^bold>\<open>The program.\<close> A YAML configuration names nodes and the edges between them. It is validated
  (\<^verbatim>\<open>core/utils/config_schema.py\<close>), every node gets a mailbox per replica, the mailboxes are wired along
  the edges (\<^verbatim>\<open>messaging/routing_factory.py\<close>), the nodes are built (\<^verbatim>\<open>node_factory.py\<close>) and run, as threads
  or as processes, until a stop. A node takes a message from its mailbox, processes it under an error
  policy (retries, dead letters, cancelled turns) and sends the result, which a codec puts on a ZeroMQ
  socket, arrays through shared memory. On top of this are the nodes themselves (the speech chain, image
  filters, detectors, dataset writers, readers and players), the backends they call, the control plane
  that starts and stops pipelines, and the launch scripts.

  \<^bold>\<open>The conventions.\<close> An effectful call is a function from the world to an exception or a value and the
  world it leaves (\<open>io\<close> in \<open>Prelude\<close>); an exception does not undo what happened before it. A method runs
  over the pair of its object and the rest of the world. Exceptions are the datatype \<open>exn\<close>; errors,
  early returns and \<^verbatim>\<open>finally\<close> are branches of the definitions. Dictionaries are association lists in
  insertion order, \<^verbatim>\<open>float\<close> is the reals, strings are lists of characters, values of YAML and JSON are
  \<open>yaml\<close>, arrays a shape and their elements. Bytes and PCM samples are words. Concurrency is an inductive
  step relation whose steps are the atomic operations of the code. Loops that may run forever are
  partial functions to \<open>option\<close>, and what is claimed of them says that they return, or that they do not.

  \<^bold>\<open>The theories.\<close>

  \<^item> \<open>Prelude\<close>: the monad and its rules (\<open>runs\<close>, \<open>io_simps\<close>), dictionaries (\<open>dict_simps\<close>), the contract of
    an invariant over a transition system and of a refinement (the locales \<open>invariant_system\<close> and
    \<open>refinement_system\<close>, interpreted below for the mailbox, the network of mailboxes, the autoscaler, the
    collector of batches, the duplicate filter, the health of a process, the barge-in and the service). \<open>Py_Queue\<close>: the queues of
    the standard library and their contract (the locale \<open>fifo\<close>). \<open>Py_Text\<close>, \<open>Config_Values\<close>: strings and
    configuration values, with the coercions of pydantic as a parameter.
  \<^item> Messaging. \<open>Messages\<close> (\<^verbatim>\<open>messaging/types.py\<close>), \<open>Codec\<close> (\<^verbatim>\<open>codec.py\<close>), \<open>Zero_Queue\<close> (\<^verbatim>\<open>zero_queue/\<close>),
    \<open>Queue_Transfer\<close> (\<^verbatim>\<open>zero_queue/queue_transfer.py\<close>, the factory of \<^verbatim>\<open>communication/__init__.py\<close>), \<open>Mailbox\<close>
    (\<^verbatim>\<open>mailbox/zmq_mailbox.py\<close> as single calls), \<open>Mailbox_Steps\<close> (the same under interleaving), \<open>Fan_Out\<close>
    (what a send puts on the wire, pickled mailboxes), \<open>Frame_Ledger\<close>, \<open>Network\<close>, \<open>Network_Runs\<close> (the
    mailboxes of a pipeline over PUSH and PULL sockets, with the frames in flight and the segments they
    own). Lemmas: no message is lost or counted twice, the blocking policy loses none and holds the one
    that waits until there is room, a cancellation overtakes what is queued, shared memory comes back and is released, the network
    implements one FIFO an edge and delivers what was sent, a put on the older queues delivers.
  \<^item> Graph. \<open>Routing\<close>, \<open>Routing_Total\<close> (\<^verbatim>\<open>routing_factory.py\<close>), \<open>Config_Schema\<close> (\<^verbatim>\<open>config_schema.py\<close>),
    \<open>Node_Factory\<close> (\<^verbatim>\<open>node_factory.py\<close>, \<^verbatim>\<open>utils/extras.py\<close>), \<open>Autoscale\<close> (\<^verbatim>\<open>autoscale.py\<close>, \<^verbatim>\<open>autoscaler.py\<close>),
    \<open>Payload_Types\<close> (the declared \<^verbatim>\<open>accepts\<close> and \<^verbatim>\<open>emits\<close> against what the nodes of the speech chain do; the
    locale \<open>payload_contract\<close>). Lemmas: an accepted configuration is well formed, is routed as the graph it
    describes, and the messages that travel it are of the types its nodes accept.
  \<^item> Running. \<open>Dead_Letter\<close>, \<open>Error_Policy\<close>, \<open>Error_Policy_Props\<close> (\<^verbatim>\<open>core/policy\<close>), \<open>Node\<close> (\<^verbatim>\<open>base_node.py\<close>,
    \<^verbatim>\<open>base_thread.py\<close>), \<open>Process_Node\<close> (\<^verbatim>\<open>base_process.py\<close>), \<open>Pipeline\<close> (\<^verbatim>\<open>base_pipeline.py\<close>, \<^verbatim>\<open>entrypoints/main.py\<close>),
    \<open>Launch\<close> (\<^verbatim>\<open>entrypoints/main_multipipe.py\<close>, \<^verbatim>\<open>run_voice_assistant.py\<close>), \<open>Setup\<close> (\<^verbatim>\<open>utils/logger.py\<close>,
    \<^verbatim>\<open>observability/metrics.py\<close>, \<^verbatim>\<open>torch_compile\<close>, the command lines). Lemmas: a message that leaves the
    policy ends in one counter or by an exception of the policy's own calls, a generator's output comes from one attempt, every node started is stopped.
  \<^item> Speech. \<open>Voice\<close> (\<^verbatim>\<open>asr_mixin.py\<close>, \<^verbatim>\<open>llm_mixin.py\<close>, \<^verbatim>\<open>tts_mixin.py\<close>), \<open>Echo\<close> (\<^verbatim>\<open>aec.py\<close>), \<open>Vad\<close> (\<^verbatim>\<open>vad_mixin.py\<close>),
    \<open>Agent_Tool\<close>, \<open>Tools\<close> (\<^verbatim>\<open>agent_tool_mixin.py\<close>, \<^verbatim>\<open>mixins/tools\<close>), \<open>Wave\<close> and \<open>Speech_Backends\<close> (\<^verbatim>\<open>nn/backends/asr\<close>,
    \<^verbatim>\<open>llm\<close>, \<^verbatim>\<open>tts\<close>, \<^verbatim>\<open>http_session.py\<close>), \<open>Media_Nodes\<close> (audio reader and player; also image reader, saver, resize,
    draw, normalize). Lemmas: what is spoken, streamed, played and interrupted; the WAV round trip;
    the sandbox of the file tools.
  \<^item> Vision. \<open>Detect_Ops\<close> (\<^verbatim>\<open>nn/models/op.py\<close>), \<open>Detectors\<close> (\<^verbatim>\<open>nn/models/det\<close>, \<^verbatim>\<open>nn/__init__.py\<close>), \<open>Classifiers\<close>
    and \<open>Extractor\<close> (\<^verbatim>\<open>nn/models/cls\<close>), \<open>Plots\<close> (drawing, warm-up, construction of the classifiers), \<open>Runtimes\<close> (\<^verbatim>\<open>nn/backends/trt.py\<close>, \<^verbatim>\<open>torch.py\<close>, \<^verbatim>\<open>onnxruntime.py\<close>),
    \<open>Batched_Crops\<close> (the tiling detector on the PyTorch backend), \<open>Inference_Nodes\<close>
    and \<open>Batch_Inference\<close> (\<^verbatim>\<open>core/node/model\<close>), \<open>Image_Nodes\<close> (hash filter, active learning), \<open>Profilers\<close> and
    \<open>Profiler_Calls\<close> (\<^verbatim>\<open>neudc/profilers\<close>: what is counted, and naming and timing around a call),
    \<open>Profiling\<close> (\<^verbatim>\<open>utils/profile.py\<close>). Lemmas: non-maximum suppression is the greedy choice, tiles cover the
    image, decoding undoes the letterbox up to its rounding, blur features are the high half of the
    spectrum of each whole block, a batch is collected within its time, batches of tiles equal the whole
    on the PyTorch backend, and do not on TensorRT, whose results are views of one buffer.
  \<^item> Data and control. \<open>Dataset\<close> (\<^verbatim>\<open>create_dataset_mixin.py\<close>, \<^verbatim>\<open>service/api/labels.py\<close>, \<^verbatim>\<open>preview.py\<close>), \<open>Catalog\<close>
    (\<^verbatim>\<open>service/api/node_catalog.py\<close>, the arguments every \<^verbatim>\<open>from_config\<close> reads, \<^verbatim>\<open>service/api/metrics.py\<close>), \<open>Service\<close>
    (\<^verbatim>\<open>pipeline_manager.py\<close> and the routes), \<open>Api_Bodies\<close> (\<^verbatim>\<open>service/api/schemas.py\<close>), \<open>Metrics_Feed\<close>
    (\<^verbatim>\<open>routes/observability.py\<close>), \<open>Model_Config\<close> (\<^verbatim>\<open>schemas.py\<close>). Lemmas: the service refines a
    registry of names, written labels are read back, reviews stay in the dataset.

  \<^bold>\<open>Parameters.\<close> ZeroMQ, pickle, shared memory, pydantic's coercions, the clock, the file system, HTTP,
  \<^verbatim>\<open>json.loads\<close>, OpenCV, scikit-learn and scikit-image, the tokens of \<^verbatim>\<open>html.parser\<close>, CUDA, TensorRT, PyTorch
  and ONNX Runtime, a started process and an audio device are arguments: records of calls or functions.
  What a theorem needs of them is a hypothesis with a name (\<open>zmq_total\<close>, \<open>zmq_logs\<close>, \<open>push_pull\<close>, \<open>link_ok\<close>,
  \<open>pydantic_ok\<close>, \<open>gpu_ok\<close>, \<open>clock_ok\<close>, \<open>collect_ok\<close>, \<open>timely_calls\<close>, \<open>located\<close>,
  \<open>network_per_image\<close>, \<open>fresh_buffers\<close>, \<open>feed_ok\<close>), and the witness of the theorem gives an instance.

  \<^bold>\<open>Bounds and fuel.\<close> No definition of the code has fuel. Loops over data are structural or have a
  measure: the chunks of a WAV file, the markers of a text, the boxes of a suppression, the messages a
  conflating mailbox discards; the attempts of the policy count down. The loops that wait (a generator
  that is drained, the producer's retries, the wait for a model, the loops of a process and of a
  pipeline, the registration with the dashboard, the collector of batches and the metrics feed, which
  share the combinator \<open>loop\<close>) are partial functions, and the lemmas on them say when they return. Playback is observed through \<open>gen_take\<close>, which resumes a generator a given number of
  times: one more than the samples of the chunk is enough to exhaust it.

  \<^bold>\<open>Not modelled.\<close> A send that raises is a branch of the calls in \<open>Mailbox\<close> and \<open>Node\<close> (the node logs it,
  the publishers after it get nothing), but not a step of \<open>Network\<close>, whose theorems are about runs in
  which the sends return. The text of log messages, the declaration of the Prometheus metrics (their counts are
  numbers of the models), FastAPI, CORS and uvicorn beyond the handlers and their bodies, \<^verbatim>\<open>argparse\<close> and
  printing, \<^verbatim>\<open>__str__\<close> and \<^verbatim>\<open>__repr__\<close>: they do not act on the data. Rounding of floating-point numbers is not
  modelled, nor are type aliases and package exports. The abstract base classes have no code of their
  own; their methods are the fields of the records that stand for them. The interleaving of the process
  node's health monitor with its parent is modelled by the flags of \<open>Process_Node\<close> only, and node
  constructors that store their arguments are the records they fill; what each class reads from its
  configuration is in \<open>Catalog\<close>. The run-time types of the image nodes are in the types of their models,
  so \<open>Payload_Types\<close> is about the speech chain.
\<close>

end
